(* ===== verification/Adb_Prelude.thy ===== *)
theory Adb_Prelude
  imports Main "HOL-Library.Word" "HOL-Library.Sublist"
begin

unbundle bit_operations_syntax

text \<open>
  Shared vocabulary of the development: bytes and C strings, the fault values that stand for
  the ways the program stops (fatal, CHECK, exit, an invalid memory access), sequencing of
  fallible steps, the C library functions the sources call on strings (strncmp with a literal
  prefix, strchr, isdigit, isalnum, isprint, printf's decimal and hexadecimal conversions,
  strtoul) and the interface of libbase (package android-base, not part of the sources), which
  every user takes as an argument.
\<close>

named_theorems adb_defs "unfolding of the operations of the model"
named_theorems adb_frame "what an operation leaves unchanged"

section \<open>Bytes, words and faults\<close>

text \<open>A byte of a buffer is a \<^typ>\<open>char\<close>, HOL's eight-bit type; \<open>of_char\<close> reads its value.\<close>

type_synonym u32 = "32 word"
type_synonym u16 = "16 word"
type_synonym addr = nat
type_synonym fd = int

datatype fault =
    Fatal string        \<comment> \<open>fatal(), fatal errno, CHECK and LOG(FATAL): the process aborts\<close>
  | Exit int            \<comment> \<open>exit() or quick exit()\<close>
  | InvalidAccess addr  \<comment> \<open>a freed (or never allocated) object is dereferenced\<close>
  | NullDeref           \<comment> \<open>a null pointer is dereferenced\<close>
  | OutOfBounds         \<comment> \<open>an access outside a buffer or container\<close>
  | Spin                \<comment> \<open>a busy loop that never ends: the call does not return\<close>
  | OutOfFuel           \<comment> \<open>the bound on nested callbacks is used up\<close>

type_synonym 'a res = "fault + 'a"

definition bindR :: "'a res \<Rightarrow> ('a \<Rightarrow> 'b res) \<Rightarrow> 'b res" where
  "bindR m f = (case m of Inl e \<Rightarrow> Inl e | Inr x \<Rightarrow> f x)"

lemma bindR_simps [simp]:
  "bindR (Inl e) f = Inl e"
  "bindR (Inr x) f = f x"
  by (simp_all add: bindR_def)

lemma bindR_assoc: "bindR (bindR m f) g = bindR m (\<lambda>x. bindR (f x) g)"
  by (cases m) simp_all

lemma bindR_eq_Inr [simp]: "bindR m f = Inr y \<longleftrightarrow> (\<exists>x. m = Inr x \<and> f x = Inr y)"
  by (cases m) simp_all

lemma bindR_eq_Inl: "bindR m f = Inl e \<longleftrightarrow> m = Inl e \<or> (\<exists>x. m = Inr x \<and> f x = Inl e)"
  by (cases m) simp_all

lemma bindR_cong [fundef_cong]:
  "m = m' \<Longrightarrow> (\<And>x. m' = Inr x \<Longrightarrow> f x = f' x) \<Longrightarrow> bindR m f = bindR m' f'"
  by (cases m') simp_all

definition checkR :: "bool \<Rightarrow> string \<Rightarrow> unit res" where
  "checkR b what = (if b then Inr () else Inl (Fatal what))"

lemma checkR_simps [simp]:
  "checkR True w = Inr ()"
  "checkR False w = Inl (Fatal w)"
  "checkR b w = Inr u \<longleftrightarrow> b"
  by (auto simp: checkR_def)

section \<open>C strings\<close>

text \<open>\<open>strchr s c\<close> is the offset of the first \<open>c\<close> in \<open>s\<close>, None for a null result.\<close>

fun strchr :: "string \<Rightarrow> char \<Rightarrow> nat option" where
  "strchr [] c = None"
| "strchr (x # xs) c = (if x = c then Some 0 else map_option Suc (strchr xs c))"

lemma strchr_Some:
  "strchr s c = Some i \<Longrightarrow> i < length s \<and> s ! i = c \<and> c \<notin> set (take i s)"
proof (induction s arbitrary: i)
  case Nil
  then show ?case by simp
next
  case (Cons x xs)
  then show ?case by (cases i) (auto split: if_splits)
qed

lemma strchr_None: "strchr s c = None \<longleftrightarrow> c \<notin> set s"
  by (induction s) auto

lemma strchr_append:
  "c \<notin> set xs \<Longrightarrow> strchr (xs @ ys) c = map_option ((+) (length xs)) (strchr ys c)"
proof (induction xs)
  case Nil
  then show ?case by (simp add: option.map_ident_strong)
next
  case (Cons x xs)
  then show ?case by (auto simp: option.map_comp comp_def intro!: option.map_cong)
qed

definition is_digit :: "char \<Rightarrow> bool" where
  "is_digit c \<longleftrightarrow> 48 \<le> (of_char c :: nat) \<and> (of_char c :: nat) \<le> 57"

definition is_alnum :: "char \<Rightarrow> bool" where
  "is_alnum c \<longleftrightarrow> (let n = of_char c :: nat in
     (48 \<le> n \<and> n \<le> 57) \<or> (65 \<le> n \<and> n \<le> 90) \<or> (97 \<le> n \<and> n \<le> 122))"

definition is_print :: "char \<Rightarrow> bool" where
  "is_print c \<longleftrightarrow> (let n = of_char c :: nat in 32 \<le> n \<and> n \<le> 126)"

text \<open>A C string ends at the first NUL byte.\<close>

definition c_str :: "string \<Rightarrow> string" where
  "c_str s = takeWhile (\<lambda>c. c \<noteq> CHR 0x00) s"

lemma c_str_id: "CHR 0x00 \<notin> set s \<Longrightarrow> c_str s = s"
  by (auto simp: c_str_def takeWhile_eq_all_conv)

lemma c_str_no_nul: "CHR 0x00 \<notin> set (c_str s)"
  by (auto simp: c_str_def dest: set_takeWhileD)

lemma length_c_str: "length (c_str s) \<le> length s"
  by (simp add: c_str_def length_takeWhile_le)

section \<open>Number formatting and parsing\<close>

definition hex_digit :: "nat \<Rightarrow> char" where
  "hex_digit n = (if n < 10 then char_of (48 + n) else char_of (87 + n))"

fun hex_of_nat :: "nat \<Rightarrow> string" where
  "hex_of_nat n = (if n < 16 then [hex_digit n] else hex_of_nat (n div 16) @ [hex_digit (n mod 16)])"

declare hex_of_nat.simps [simp del]

fun dec_of_nat :: "nat \<Rightarrow> string" where
  "dec_of_nat n = (if n < 10 then [hex_digit n] else dec_of_nat (n div 10) @ [hex_digit (n mod 10)])"

declare dec_of_nat.simps [simp del]

definition dec_of_int :: "int \<Rightarrow> string" where
  "dec_of_int i = (if i < 0 then CHR ''-'' # dec_of_nat (nat (- i)) else dec_of_nat (nat i))"

definition pad0 :: "nat \<Rightarrow> string \<Rightarrow> string" where
  "pad0 w s = replicate (w - length s) (CHR ''0'') @ s"

text \<open>\<open>hex_val\<close> is the value of a hexadecimal digit, upper or lower case.\<close>

definition hex_val :: "char \<Rightarrow> nat option" where
  "hex_val c = (let n = of_char c in
     if 48 \<le> n \<and> n \<le> 57 then Some (n - 48)
     else if 97 \<le> n \<and> n \<le> 102 then Some (n - 97 + 10)
     else if 65 \<le> n \<and> n \<le> 70 then Some (n - 65 + 10) else None)"

definition hex_num :: "nat list \<Rightarrow> nat" where
  "hex_num ds = foldl (\<lambda>a d. 16 * a + d) 0 ds"

lemma of_char_char_of_small: "n < 256 \<Longrightarrow> of_char (char_of (n::nat)) = n"
  by simp

lemma hex_val_hex_digit: "d < 16 \<Longrightarrow> hex_val (hex_digit d) = Some d"
  by (auto simp: hex_val_def hex_digit_def Let_def)

lemma hex_digit_lits:
  "hex_digit 0 = CHR ''0''"
  "hex_digit (Suc 0) = CHR ''1''"
  "hex_digit 2 = CHR ''2''"
  "hex_digit 3 = CHR ''3''"
  "hex_digit 4 = CHR ''4''"
  "hex_digit 5 = CHR ''5''"
  "hex_digit 6 = CHR ''6''"
  "hex_digit 7 = CHR ''7''"
  "hex_digit 8 = CHR ''8''"
  "hex_digit 9 = CHR ''9''"
  "hex_digit 10 = CHR ''a''"
  "hex_digit 11 = CHR ''b''"
  "hex_digit 12 = CHR ''c''"
  "hex_digit 13 = CHR ''d''"
  "hex_digit 14 = CHR ''e''"
  "hex_digit 15 = CHR ''f''"
  by code_simp+

lemma hex_val_less: "hex_val c = Some d \<Longrightarrow> d < 16"
  by (auto simp: hex_val_def Let_def split: if_splits)

lemma hex_digit_not_nul: "d < 16 \<Longrightarrow> hex_digit d \<noteq> CHR 0x00"
  using hex_val_hex_digit [of d] by (auto simp: hex_val_def)

lemma foldl_hex_start:
  "foldl (\<lambda>a d. 16 * a + d) a ds = 16 ^ length ds * a + hex_num ds" for a :: nat
proof (induction ds arbitrary: a)
  case Nil
  then show ?case by (simp add: hex_num_def)
next
  case (Cons d ds)
  have "hex_num (d # ds) = 16 ^ length ds * d + hex_num ds"
    using Cons.IH [of d] by (simp add: hex_num_def)
  then show ?case using Cons.IH [of "16 * a + d"] by (simp add: algebra_simps)
qed

lemma hex_num_simps [simp]:
  "hex_num [] = 0"
  "hex_num (d # ds) = 16 ^ length ds * d + hex_num ds"
  using foldl_hex_start [of d ds] by (simp_all add: hex_num_def)

lemma hex_num_append [simp]: "hex_num (xs @ ys) = 16 ^ length ys * hex_num xs + hex_num ys"
  by (induction xs) (simp_all add: algebra_simps power_add)

lemma hex_num_replicate0 [simp]: "hex_num (replicate k 0) = 0"
  by (induction k) simp_all

lemma hex_num_bound: "(\<forall>d \<in> set ds. d < 16) \<Longrightarrow> hex_num ds < 16 ^ length ds"
proof (induction ds)
  case Nil
  then show ?case by simp
next
  case (Cons d ds)
  then have "hex_num ds < 16 ^ length ds" and "d \<le> 15" by auto
  moreover from \<open>d \<le> 15\<close> have "16 ^ length ds * d \<le> 16 ^ length ds * 15"
    by (rule mult_le_mono2)
  ultimately have "16 ^ length ds * d + hex_num ds < 16 ^ length ds * 15 + 16 ^ length ds"
    by linarith
  then show ?case by simp
qed

text \<open>The digits printed by printf's \<open>x\<close> conversion denote the number printed.\<close>

lemma hex_of_nat_val:
  "\<exists>ds. map hex_val (hex_of_nat n) = map Some ds \<and> hex_num ds = n"
proof (induction n rule: hex_of_nat.induct)
  case (1 n)
  show ?case
  proof (cases "n < 16")
    case True
    then show ?thesis
      by (intro exI [of _ "[n]"]) (simp add: hex_of_nat.simps [of n] hex_val_hex_digit)
  next
    case False
    with "1.IH" obtain ds where ds: "map hex_val (hex_of_nat (n div 16)) = map Some ds"
      and v: "hex_num ds = n div 16" by blast
    have "map hex_val (hex_of_nat n) = map Some (ds @ [n mod 16])"
      using False ds by (simp add: hex_of_nat.simps [of n] hex_val_hex_digit)
    moreover have "hex_num (ds @ [n mod 16]) = n"
      using v by simp
    ultimately show ?thesis by blast
  qed
qed

lemma hex_of_nat_length: "n < 16 ^ Suc k \<Longrightarrow> length (hex_of_nat n) \<le> Suc k"
proof (induction k arbitrary: n)
  case 0
  then show ?case by (simp add: hex_of_nat.simps [of n])
next
  case (Suc k)
  then have "n div 16 < 16 ^ Suc k" by (simp add: less_mult_imp_div_less mult.commute)
  with Suc.IH [of "n div 16"] show ?case by (simp add: hex_of_nat.simps [of n])
qed

lemma hex_of_nat_length_ge: "16 ^ k \<le> n \<Longrightarrow> Suc k \<le> length (hex_of_nat n)"
proof (induction k arbitrary: n)
  case 0
  then show ?case by (simp add: hex_of_nat.simps [of n])
next
  case (Suc k)
  then have "16 ^ k \<le> n div 16"
    by (simp add: less_eq_div_iff_mult_less_eq mult.commute)
  moreover have "\<not> n < 16"
  proof -
    have "(16::nat) * 1 \<le> 16 * 16 ^ k" by (intro mult_le_mono2) simp
    moreover have "16 * 16 ^ k \<le> n" using Suc.prems by simp
    ultimately show ?thesis by linarith
  qed
  ultimately show ?case using Suc.IH [of "n div 16"] by (simp add: hex_of_nat.simps [of n])
qed

lemma pad0_length: "length s \<le> w \<Longrightarrow> length (pad0 w s) = w"
  by (simp add: pad0_def)

lemma pad0_id: "w \<le> length s \<Longrightarrow> pad0 w s = s"
  by (simp add: pad0_def)

lemma pad0_hex_val:
  "map hex_val s = map Some ds \<Longrightarrow>
   map hex_val (pad0 w s) = map Some (replicate (w - length s) 0 @ ds)"
  by (simp add: pad0_def hex_val_def)

lemma pad0_hex_no_nul: "CHR 0x00 \<notin> set (pad0 w (hex_of_nat n))"
proof -
  have "hex_val (CHR 0x00) = None" by (simp add: hex_val_def)
  moreover obtain ds where "map hex_val (hex_of_nat n) = map Some ds"
    using hex_of_nat_val by blast
  then have "\<forall>c \<in> set (hex_of_nat n). hex_val c \<noteq> None"
    by (metis (no_types, lifting) image_iff list.set_map option.distinct(1))
  ultimately show ?thesis by (auto simp: pad0_def)
qed

text \<open>
  \<open>strtoul16\<close> is strtoul with base 16: white space, a sign, an optional 0x and the digits up to
  the first other character; the value saturates at the largest 64-bit number, and a minus sign
  negates it modulo 2 to the 64.
\<close>

definition is_space :: "char \<Rightarrow> bool" where
  "is_space c \<longleftrightarrow> (let n = of_char c :: nat in n = 32 \<or> (9 \<le> n \<and> n \<le> 13))"

definition skip_0x :: "string \<Rightarrow> string" where
  "skip_0x s = (case s of
     z # x # d # _ \<Rightarrow>
       if z = CHR ''0'' \<and> (x = CHR ''x'' \<or> x = CHR ''X'') \<and> hex_val d \<noteq> None then drop 2 s else s
   | _ \<Rightarrow> s)"

definition hex_prefix :: "string \<Rightarrow> nat" where
  "hex_prefix s = hex_num (map (the \<circ> hex_val) (takeWhile (\<lambda>c. hex_val c \<noteq> None) s))"

definition strtoul16 :: "string \<Rightarrow> nat" where
  "strtoul16 s =
    (let t = dropWhile is_space (c_str s);
         neg = (t \<noteq> [] \<and> hd t = CHR ''-'');
         u = (if t \<noteq> [] \<and> (hd t = CHR ''-'' \<or> hd t = CHR ''+'') then tl t else t);
         v = hex_prefix (skip_0x u)
     in if 2 ^ 64 \<le> v then 2 ^ 64 - 1 else if neg then (2 ^ 64 - v) mod 2 ^ 64 else v)"

lemma hex_val_not_special:
  "hex_val c = Some d \<Longrightarrow> \<not> is_space c \<and> c \<noteq> CHR ''-'' \<and> c \<noteq> CHR ''+'' \<and> c \<noteq> CHR ''x'' \<and>
     c \<noteq> CHR ''X'' \<and> c \<noteq> CHR 0x00"
  by (auto simp: hex_val_def is_space_def Let_def split: if_splits)

lemma strtoul16_digits:
  assumes s: "map hex_val s = map Some ds" and v: "hex_num ds < 2 ^ 64"
  shows "strtoul16 s = hex_num ds"
proof -
  have dig: "hex_val c \<noteq> None" if "c \<in> set s" for c
    using that s by (metis (no_types, lifting) image_iff list.set_map option.distinct(1))
  then have sp: "\<forall>c \<in> set s. \<not> is_space c \<and> c \<noteq> CHR ''-'' \<and> c \<noteq> CHR ''+'' \<and> c \<noteq> CHR ''x'' \<and>
     c \<noteq> CHR ''X'' \<and> c \<noteq> CHR 0x00"
    using hex_val_not_special by blast
  then have c: "c_str s = s" by (intro c_str_id) blast
  have dr: "dropWhile is_space s = s" using sp by (cases s) auto
  have hd: "s \<noteq> [] \<Longrightarrow> hd s \<noteq> CHR ''-'' \<and> hd s \<noteq> CHR ''+''" using sp by (cases s) auto
  have sk: "skip_0x s = s" using sp by (auto simp: skip_0x_def split: list.splits)
  have tw: "takeWhile (\<lambda>c. hex_val c \<noteq> None) s = s" using dig by (simp add: takeWhile_eq_all_conv)
  have "map (the \<circ> hex_val) s = map the (map hex_val s)" by simp
  also have "\<dots> = ds" unfolding s by (simp add: comp_def)
  finally have "hex_prefix s = hex_num ds" unfolding hex_prefix_def tw by simp
  with c dr hd sk v show ?thesis by (auto simp: strtoul16_def Let_def)
qed

section \<open>The interface of libbase\<close>

text \<open>
  The sources call android-base (libbase), which is not part of them. Its functions are the
  fields of a record that every definition using them takes as an argument. The locale states
  the documented behaviour the proofs rely on: StartsWith tests for a prefix, Split cuts at
  every occurrence of a delimiter character, Join puts the separator between the pieces,
  ParseInt reads back a decimal number in the range of int, and Dirname goes up: its result is
  the path itself, the current directory or a shorter path.
\<close>

record libbase =
  StartsWith :: "string \<Rightarrow> string \<Rightarrow> bool"
  Split :: "string \<Rightarrow> string \<Rightarrow> string list"
  Join :: "string list \<Rightarrow> char \<Rightarrow> string"
  ParseInt :: "string \<Rightarrow> int option"
  ParseNetAddress :: "string \<Rightarrow> int \<Rightarrow> string + (string \<times> int \<times> string)"
    \<comment> \<open>address and default port; error message, or host, port and canonical address\<close>
  Dirname :: "string \<Rightarrow> string"

fun split_at :: "char set \<Rightarrow> string \<Rightarrow> string list" where
  "split_at D [] = [[]]"
| "split_at D (c # cs) =
     (if c \<in> D then [] # split_at D cs
      else (case split_at D cs of [] \<Rightarrow> [[c]] | p # ps \<Rightarrow> (c # p) # ps))"

fun join_with :: "char \<Rightarrow> string list \<Rightarrow> string" where
  "join_with c [] = []"
| "join_with c [s] = s"
| "join_with c (s # t # ts) = s @ c # join_with c (t # ts)"

lemma split_at_nonempty [simp]: "split_at D s \<noteq> []"
  by (cases s) (auto split: list.splits)

lemma split_at_no_delim: "set s \<inter> D = {} \<Longrightarrow> split_at D s = [s]"
  by (induction s) auto

lemma split_at_append:
  "set s \<inter> D = {} \<Longrightarrow> c \<in> D \<Longrightarrow> split_at D (s @ c # t) = s # split_at D t"
  by (induction s) auto

lemma split_at_pieces: "p \<in> set (split_at D s) \<Longrightarrow> set p \<inter> D = {}"
proof (induction s arbitrary: p)
  case Nil
  then show ?case by simp
next
  case (Cons c cs)
  then show ?case
    by (cases "split_at D cs") (fastforce split: if_splits)+
qed

lemma split_join:
  "xs \<noteq> [] \<Longrightarrow> (\<forall>x \<in> set xs. c \<notin> set x) \<Longrightarrow> split_at {c} (join_with c xs) = xs"
proof (induction c xs rule: join_with.induct)
  case (1 c)
  then show ?case by simp
next
  case (2 c s)
  then show ?case by (simp add: split_at_no_delim)
next
  case (3 c s t ts)
  then show ?case by (simp add: split_at_append)
qed

lemma join_split: "join_with c (split_at {c} s) = s"
proof (induction s)
  case Nil
  then show ?case by simp
next
  case (Cons x xs)
  then show ?case
    by (cases "split_at {c} xs"; cases "tl (split_at {c} xs)") auto
qed

locale libbase_spec =
  fixes B :: libbase
  assumes StartsWith_iff: "StartsWith B s p \<longleftrightarrow> prefix p s"
    and Split_eq: "Split B s d = split_at (set d) s"
    and Join_eq: "Join B xs c = join_with c xs"
    and ParseInt_dec: "- (2 ^ 31) \<le> i \<Longrightarrow> i < 2 ^ 31 \<Longrightarrow> ParseInt B (dec_of_int i) = Some i"
    and Dirname_dot: "Dirname B ''.'' = ''.''"
    and Dirname_up: "Dirname B p = p \<or> Dirname B p = ''.'' \<or> length (Dirname B p) < length p"
begin

lemma Split_Join:
  "xs \<noteq> [] \<Longrightarrow> (\<forall>x \<in> set xs. c \<notin> set x) \<Longrightarrow> Split B (Join B xs c) [c] = xs"
  by (simp add: Split_eq Join_eq split_join)

lemma Join_Split: "Join B (Split B s [c]) c = s"
  by (simp add: Split_eq Join_eq join_split)

end

text \<open>
  A reference instance shows that the interface can be implemented: decimal parsing by digits,
  and a ParseNetAddress that accepts a host with an optional port after the last colon.
\<close>

definition dec_val :: "string \<Rightarrow> nat option" where
  "dec_val s = (if s \<noteq> [] \<and> (\<forall>c \<in> set s. is_digit c)
     then Some (foldl (\<lambda>a c. 10 * a + (of_char c - 48)) 0 s) else None)"

definition parse_int_ref :: "string \<Rightarrow> int option" where
  "parse_int_ref s =
    (case s of
       CHR ''-'' # t \<Rightarrow> map_option (\<lambda>n. - int n) (dec_val t)
     | _ \<Rightarrow> map_option int (dec_val s))"

definition parse_net_address_ref :: "string \<Rightarrow> int \<Rightarrow> string + (string \<times> int \<times> string)" where
  "parse_net_address_ref a dflt =
    (case strchr a (CHR '':'') of
       None \<Rightarrow> if a = [] then Inl ''no host'' else Inr (a, dflt, a @ '':'' @ dec_of_int dflt)
     | Some i \<Rightarrow>
         (case dec_val (drop (Suc i) a) of
            None \<Rightarrow> Inl ''bad port''
          | Some p \<Rightarrow> if i = 0 \<or> p = 0 \<or> 65535 < p then Inl ''bad address''
                      else Inr (take i a, int p, a)))"

definition dirname_ref :: "string \<Rightarrow> string" where
  "dirname_ref s =
    (if CHR ''/'' \<notin> set s then ''.''
     else (let d = rev (tl (dropWhile (\<lambda>c. c \<noteq> CHR ''/'') (rev s))) in if d = [] then ''/'' else d))"

definition libbase_ref :: libbase where
  "libbase_ref = \<lparr> StartsWith = (\<lambda>s p. prefix p s), Split = (\<lambda>s d. split_at (set d) s),
     Join = (\<lambda>xs c. join_with c xs), ParseInt = parse_int_ref,
     ParseNetAddress = parse_net_address_ref, Dirname = dirname_ref \<rparr>"

lemma dec_digit: "d < 10 \<Longrightarrow> of_char (hex_digit d) = 48 + d"
  by (simp add: hex_digit_def)

lemma dec_of_nat_digits: "\<forall>c \<in> set (dec_of_nat n). is_digit c"
proof (induction n rule: dec_of_nat.induct)
  case (1 n)
  then show ?case by (subst dec_of_nat.simps) (auto simp: is_digit_def dec_digit)
qed

lemma dec_of_nat_nonempty: "dec_of_nat n \<noteq> []"
  by (subst dec_of_nat.simps) simp

lemma dec_of_nat_value:
  "foldl (\<lambda>a c. 10 * a + (of_char c - 48)) 0 (dec_of_nat n) = n"
proof (induction n rule: dec_of_nat.induct)
  case (1 n)
  then show ?case by (subst dec_of_nat.simps) (auto simp: dec_digit)
qed

lemma dec_val_dec_of_nat: "dec_val (dec_of_nat n) = Some n"
  by (simp add: dec_val_def dec_of_nat_digits dec_of_nat_nonempty dec_of_nat_value)

lemma dec_of_nat_hd: "\<exists>c cs. dec_of_nat n = c # cs \<and> is_digit c"
  using dec_of_nat_nonempty [of n] dec_of_nat_digits [of n] by (cases "dec_of_nat n") auto

lemma parse_int_ref_dec: "parse_int_ref (dec_of_int i) = Some i"
proof (cases "i < 0")
  case True
  then show ?thesis by (simp add: parse_int_ref_def dec_of_int_def dec_val_dec_of_nat)
next
  case False
  obtain c cs where c: "dec_of_nat (nat i) = c # cs" and d: "is_digit c"
    using dec_of_nat_hd by blast
  have "c \<noteq> CHR ''-''" using d by (auto simp: is_digit_def)
  then have "parse_int_ref (c # cs) = map_option int (dec_val (c # cs))"
    by (cases c rule: char.exhaust) (auto simp: parse_int_ref_def split: char.splits bool.splits)
  with False c dec_val_dec_of_nat [of "nat i"] show ?thesis by (simp add: dec_of_int_def)
qed

lemma dirname_ref_up:
  "dirname_ref p = p \<or> dirname_ref p = ''.'' \<or> length (dirname_ref p) < length p"
proof (cases "CHR ''/'' \<in> set p")
  case False
  then show ?thesis by (simp add: dirname_ref_def)
next
  case True
  let ?w = "dropWhile (\<lambda>c. c \<noteq> CHR ''/'') (rev p)"
  have ne: "?w \<noteq> []" using True by (auto simp: dropWhile_eq_Nil_conv)
  have le: "length ?w \<le> length p" by (metis length_dropWhile_le length_rev)
  show ?thesis
  proof (cases "tl ?w = []")
    case True
    show ?thesis
    proof (cases "length p = 1")
      case True
      with \<open>CHR ''/'' \<in> set p\<close> have "p = ''/''" by (cases p) auto
      then show ?thesis by (simp add: dirname_ref_def)
    next
      case False
      with ne le have "1 < length p" by (cases ?w) auto
      with \<open>tl ?w = []\<close> \<open>CHR ''/'' \<in> set p\<close> show ?thesis by (simp add: dirname_ref_def Let_def)
    qed
  next
    case False
    with ne le have "length (tl ?w) < length p" by (cases ?w) auto
    with False \<open>CHR ''/'' \<in> set p\<close> show ?thesis by (simp add: dirname_ref_def Let_def)
  qed
qed

interpretation base_ref: libbase_spec libbase_ref
  by unfold_locales (simp_all add: libbase_ref_def parse_int_ref_dec dirname_ref_up
      dirname_ref_def [of "''.''"])

end
