(* ===== verification/Adb_IO.thy ===== *)
theory Adb_IO
  imports Adb_Prelude
begin

text \<open>
  adb_io.cpp: exact reads and writes on a descriptor, and the length-prefixed protocol strings
  and OKAY/FAIL replies built on them.

  A descriptor is the record \<open>fd_state\<close>: the kernel's answers to the reads and writes still to
  come (\<open>rscript\<close>, \<open>wscript\<close>), chosen by the environment, and the bytes it has accepted
  (\<open>written\<close>). A write may accept any number of the bytes offered; a read returns at most what
  was asked for and leaves the rest for the next one; no data left (\<open>RData []\<close>) is end of file.
  When the environment has no further answer, a call gives EAGAIN.
\<close>

datatype errno_t = ENONE | EAGAIN | EPIPE | EMSGSIZE | EINVAL | ENOENT | ENAMETOOLONG | EOTHER nat

datatype rresp = RData string | RErr errno_t
datatype wresp = WAccept nat | WErr errno_t
datatype io_ret = Ret nat | Err errno_t

record fd_state =
  rscript :: "rresp list"
  wscript :: "wresp list"
  written :: string

definition adb_write :: "fd_state \<Rightarrow> string \<Rightarrow> io_ret \<times> fd_state" where
  "adb_write f buf =
    (case wscript f of
       [] \<Rightarrow> (Err EAGAIN, f)
     | WAccept k # ws \<Rightarrow>
         (let r = min k (length buf)
          in (Ret r, f\<lparr>wscript := ws, written := written f @ take r buf\<rparr>))
     | WErr e # ws \<Rightarrow> (Err e, f\<lparr>wscript := ws\<rparr>))"

definition adb_read :: "fd_state \<Rightarrow> nat \<Rightarrow> io_ret \<times> string \<times> fd_state" where
  "adb_read f n =
    (case rscript f of
       [] \<Rightarrow> (Err EAGAIN, [], f)
     | RData bs # rs \<Rightarrow>
         if length bs \<le> n then (Ret (length bs), bs, f\<lparr>rscript := rs\<rparr>)
         else (Ret n, take n bs, f\<lparr>rscript := RData (drop n bs) # rs\<rparr>)
     | RErr e # rs \<Rightarrow> (Err e, [], f\<lparr>rscript := rs\<rparr>))"

section \<open>ReadFdExactly and WriteFdExactly\<close>

text \<open>
  \<open>ReadFdExactly f len acc\<close>: \<open>acc\<close> is what is in the caller's buffer so far. The result is the
  returned flag, errno on failure, the buffer and the descriptor.
\<close>

function ReadFdExactly :: "fd_state \<Rightarrow> nat \<Rightarrow> string \<Rightarrow> bool \<times> errno_t \<times> string \<times> fd_state" where
  "ReadFdExactly f len acc =
    (if 0 < len then
       (case adb_read f len of
          (Ret r, bs, f') \<Rightarrow>
            if 0 < r then ReadFdExactly f' (len - r) (acc @ bs)
            else (False, ENONE, acc, f')
        | (Err e, bs, f') \<Rightarrow> (False, e, acc, f'))
     else (True, ENONE, acc, f))"
  by pat_completeness auto
termination
  by (relation "measure (\<lambda>(f, len, acc). len)") auto

declare ReadFdExactly.simps [simp del]

text \<open>
  \<open>WriteFdExactly\<close> retries on EAGAIN for ever: a descriptor whose peer never drains it again
  makes the call spin.
\<close>

function WriteFdExactly :: "fd_state \<Rightarrow> string \<Rightarrow> (bool \<times> errno_t \<times> fd_state) res" where
  "WriteFdExactly f buf =
    (if buf \<noteq> [] then
       if wscript f = [] then Inl Spin
       else (case adb_write f buf of
          (Err e, f') \<Rightarrow>
            if e = EAGAIN then WriteFdExactly f' buf
            else if e = EPIPE then Inr (False, ENONE, f')
            else Inr (False, e, f')
        | (Ret r, f') \<Rightarrow> WriteFdExactly f' (drop r buf))
     else Inr (True, ENONE, f))"
  by pat_completeness auto
termination
  by (relation "measure (\<lambda>(f, buf). length (wscript f))")
     (auto simp: adb_write_def Let_def split: list.splits wresp.splits)

declare WriteFdExactly.simps [simp del]

text \<open>One step of each loop, by the kernel's next answer.\<close>

lemma WriteFdExactly_steps:
  "WriteFdExactly f [] = Inr (True, ENONE, f)"
  "buf \<noteq> [] \<Longrightarrow> wscript f = [] \<Longrightarrow> WriteFdExactly f buf = Inl Spin"
  "buf \<noteq> [] \<Longrightarrow> wscript f = WAccept k # ws \<Longrightarrow> WriteFdExactly f buf =
     WriteFdExactly (f\<lparr>wscript := ws, written := written f @ take (min k (length buf)) buf\<rparr>)
       (drop (min k (length buf)) buf)"
  "buf \<noteq> [] \<Longrightarrow> wscript f = WErr EAGAIN # ws \<Longrightarrow>
     WriteFdExactly f buf = WriteFdExactly (f\<lparr>wscript := ws\<rparr>) buf"
  "buf \<noteq> [] \<Longrightarrow> wscript f = WErr e # ws \<Longrightarrow> e \<noteq> EAGAIN \<Longrightarrow>
     WriteFdExactly f buf = Inr (False, if e = EPIPE then ENONE else e, f\<lparr>wscript := ws\<rparr>)"
  by (subst WriteFdExactly.simps; simp add: adb_write_def Let_def)+

section \<open>Protocol strings and replies\<close>

definition MAX_PAYLOAD_V1 :: nat where "MAX_PAYLOAD_V1 = 4 * 1024"
definition MAX_PAYLOAD_V2 :: nat where "MAX_PAYLOAD_V2 = 256 * 1024"
definition MAX_PAYLOAD :: nat where "MAX_PAYLOAD = MAX_PAYLOAD_V2"

text \<open>The formatted text of \<open>"%04x%.*s"\<close>: the string argument stops at a NUL.\<close>

definition protocol_string :: "string \<Rightarrow> string" where
  "protocol_string s =
    (let len = length s mod 2 ^ 32 in pad0 4 (hex_of_nat len) @ take len (c_str s))"

definition SendProtocolString :: "fd_state \<Rightarrow> string \<Rightarrow> (bool \<times> errno_t \<times> fd_state) res" where
  "SendProtocolString f s =
    (if length s mod 2 ^ 32 > MAX_PAYLOAD - 4 then Inr (False, EMSGSIZE, f)
     else WriteFdExactly f (protocol_string s))"

definition ReadProtocolString :: "fd_state \<Rightarrow> (bool \<times> string \<times> string \<times> fd_state) res" where
  "ReadProtocolString f =
    (case ReadFdExactly f 4 [] of
       (False, e, buf, f') \<Rightarrow> Inr (False, [], ''protocol fault (couldn't read status length)'', f')
     | (True, e, buf, f') \<Rightarrow>
         (let len = strtoul16 buf in
          if 2 ^ 63 - 1 < len then Inl (Fatal ''basic_string::resize'')
          else (case ReadFdExactly f' len [] of
                  (False, e2, s, f2) \<Rightarrow>
                    Inr (False, s @ replicate (len - length s) (CHR 0x00),
                         ''protocol fault (couldn't read status message)'', f2)
                | (True, e2, s, f2) \<Rightarrow> Inr (True, s, [], f2))))"

definition SendOkay :: "fd_state \<Rightarrow> (bool \<times> errno_t \<times> fd_state) res" where
  "SendOkay f = WriteFdExactly f ''OKAY''"

definition SendFail :: "fd_state \<Rightarrow> string \<Rightarrow> (bool \<times> errno_t \<times> fd_state) res" where
  "SendFail f reason =
    bindR (WriteFdExactly f ''FAIL'')
      (\<lambda>(ok, e, f'). if ok then SendProtocolString f' reason else Inr (False, e, f'))"

definition ReadOrderlyShutdown :: "fd_state \<Rightarrow> (bool \<times> errno_t \<times> bool \<times> fd_state) res" where
  \<comment> \<open>the third component says that the socket was shut down\<close>
  "ReadOrderlyShutdown f =
    (case adb_read f 16 of
       (Err e, bs, f') \<Rightarrow>
         if e = EAGAIN then Inl (Fatal ''CHECK_NE(errno, EAGAIN)'') else Inr (False, e, False, f')
     | (Ret r, bs, f') \<Rightarrow>
         if r = 0 then Inr (True, ENONE, False, f') else Inr (False, EINVAL, True, f'))"

section \<open>Reading and writing: what the loops do\<close>

text \<open>\<open>stream rs\<close> is the data a reader can get before the first error or end of file.\<close>

fun stream :: "rresp list \<Rightarrow> string" where
  "stream (RData (b # bs) # rs) = b # bs @ stream rs"
| "stream _ = []"

lemma adb_read_data:
  assumes "stream (rscript f) \<noteq> []" and "0 < n"
  shows "\<exists>r f'. adb_read f n = (Ret r, take r (stream (rscript f)), f') \<and> 0 < r \<and> r \<le> n \<and>
    r \<le> length (stream (rscript f)) \<and> stream (rscript f') = drop r (stream (rscript f)) \<and>
    wscript f' = wscript f \<and> written f' = written f"
proof -
  from assms(1) obtain b bs rs where rs: "rscript f = RData (b # bs) # rs"
    by (cases "rscript f" rule: stream.cases) auto
  show ?thesis
  proof (cases "length (b # bs) \<le> n")
    case True
    then show ?thesis using rs by (simp add: adb_read_def)
  next
    case False
    then have dr: "drop n (b # bs) \<noteq> []" by simp
    have st: "stream (RData (drop n (b # bs)) # rs) = drop n (b # bs) @ stream rs"
      using dr by (cases "drop n (b # bs)") simp_all
    have "take n (b # bs @ stream rs) = take n (b # bs)"
      and "drop n (b # bs @ stream rs) = drop n (b # bs) @ stream rs"
      using False take_append [of n "b # bs" "stream rs"] drop_append [of n "b # bs" "stream rs"]
      by simp_all
    then show ?thesis using rs False st assms(2) by (auto simp: adb_read_def)
  qed
qed

lemma ReadFdExactly_available:
  "len \<le> length (stream (rscript f)) \<Longrightarrow>
   \<exists>f'. ReadFdExactly f len acc = (True, ENONE, acc @ take len (stream (rscript f)), f') \<and>
     stream (rscript f') = drop len (stream (rscript f)) \<and>
     wscript f' = wscript f \<and> written f' = written f"
proof (induction len arbitrary: f acc rule: less_induct)
  case (less len)
  show ?case
  proof (cases "len = 0")
    case True
    then show ?thesis by (simp add: ReadFdExactly.simps)
  next
    case False
    with less.prems have "stream (rscript f) \<noteq> []" by auto
    from adb_read_data [OF this, of len] False obtain r f1 where
      r: "adb_read f len = (Ret r, take r (stream (rscript f)), f1)" "0 < r" "r \<le> len"
        "r \<le> length (stream (rscript f))"
      and f1: "stream (rscript f1) = drop r (stream (rscript f))"
        "wscript f1 = wscript f" "written f1 = written f" by auto
    have lt: "len - r < len" and le: "len - r \<le> length (stream (rscript f1))"
      using r less.prems f1 by auto
    obtain f2 where f2: "ReadFdExactly f1 (len - r) (acc @ take r (stream (rscript f))) =
        (True, ENONE, (acc @ take r (stream (rscript f))) @ take (len - r) (stream (rscript f1)), f2)"
      and f2': "stream (rscript f2) = drop (len - r) (stream (rscript f1))"
        "wscript f2 = wscript f1" "written f2 = written f1"
      using less.IH [OF lt le] by blast
    have "take r (stream (rscript f)) @ take (len - r) (stream (rscript f1)) =
        take len (stream (rscript f))"
      using f1 r by (simp flip: take_add)
    with False r f1 f2 f2' show ?thesis
      by (subst ReadFdExactly.simps) (auto simp: drop_drop)
  qed
qed

text \<open>A short stream makes the read fail: it never returns success with fewer bytes.\<close>

lemma ReadFdExactly_short:
  "length (stream (rscript f)) < len \<Longrightarrow>
   \<exists>e s f'. ReadFdExactly f len acc = (False, e, acc @ s, f') \<and> length s < len \<and>
     wscript f' = wscript f \<and> written f' = written f"
proof (induction len arbitrary: f acc rule: less_induct)
  case (less len)
  show ?case
  proof (cases "stream (rscript f) = []")
    case True
    then have "\<exists>e f'. (adb_read f len = (Err e, [], f') \<or> adb_read f len = (Ret 0, [], f')) \<and>
        wscript f' = wscript f \<and> written f' = written f"
      by (cases "rscript f" rule: stream.cases) (auto simp: adb_read_def)
    then show ?thesis using less.prems by (subst ReadFdExactly.simps) auto
  next
    case False
    from adb_read_data [OF this, of len] less.prems obtain r f1 where
      r: "adb_read f len = (Ret r, take r (stream (rscript f)), f1)" "0 < r" "r \<le> len"
        "r \<le> length (stream (rscript f))"
      and f1: "stream (rscript f1) = drop r (stream (rscript f))"
        "wscript f1 = wscript f" "written f1 = written f" by auto
    have "len - r < len" and "length (stream (rscript f1)) < len - r"
      using r f1 less.prems by auto
    from less.IH [OF this, of "acc @ take r (stream (rscript f))"] obtain e s f2 where
      f2: "ReadFdExactly f1 (len - r) (acc @ take r (stream (rscript f))) =
        (False, e, (acc @ take r (stream (rscript f))) @ s, f2)"
      and s: "length s < len - r" "wscript f2 = wscript f1" "written f2 = written f1" by blast
    from r f2 s f1 less.prems show ?thesis
      by (subst ReadFdExactly.simps) auto
  qed
qed

text \<open>What a write sends is always a prefix of the buffer, and all of it on success.\<close>

lemma adb_write_prefix:
  assumes "adb_write f buf = (ret, f')"
  shows "\<exists>r \<le> length buf. written f' = written f @ take r buf \<and> rscript f' = rscript f \<and>
    (case ret of Ret k \<Rightarrow> r = k | Err e \<Rightarrow> r = 0)"
  using assms
  by (auto simp: adb_write_def Let_def split: list.splits wresp.splits)

lemma WriteFdExactly_prefix:
  "WriteFdExactly f buf = Inr (ok, e, f') \<Longrightarrow>
   \<exists>r \<le> length buf. written f' = written f @ take r buf \<and> rscript f' = rscript f \<and>
     (ok \<longrightarrow> r = length buf)"
proof (induction f buf rule: WriteFdExactly.induct)
  case (1 f buf)
  show ?case
  proof (cases "buf = [] \<or> wscript f = []")
    case True
    then show ?thesis using "1.prems" by (subst (asm) WriteFdExactly.simps) (auto split: if_splits)
  next
    case False
    obtain ret f1 where w: "adb_write f buf = (ret, f1)" by force
    from adb_write_prefix [OF w] obtain r where r: "r \<le> length buf"
      "written f1 = written f @ take r buf" "rscript f1 = rscript f"
      "case ret of Ret k \<Rightarrow> r = k | Err e \<Rightarrow> r = 0" by blast
    show ?thesis
    proof (cases ret)
      case (Ret k)
      with False w "1.prems" have "WriteFdExactly f1 (drop k buf) = Inr (ok, e, f')"
        by (subst (asm) WriteFdExactly.simps) auto
      from "1.IH"(1) [OF _ _ w [symmetric] _ this] False Ret obtain r2 where
        "r2 \<le> length (drop k buf)" "written f' = written f1 @ take r2 (drop k buf)"
        "rscript f' = rscript f1" "ok \<longrightarrow> r2 = length (drop k buf)" by auto
      with r Ret show ?thesis by (intro exI [of _ "r + r2"]) (auto simp: take_add)
    next
      case (Err x)
      show ?thesis
      proof (cases "x = EAGAIN")
        case True
        with False w Err "1.prems" have "WriteFdExactly f1 buf = Inr (ok, e, f')"
          by (subst (asm) WriteFdExactly.simps) auto
        from "1.IH"(2) [OF _ _ w [symmetric] _ _ this] False Err True r show ?thesis by auto
      next
        case False2: False
        with False w Err "1.prems" r show ?thesis
          by (subst (asm) WriteFdExactly.simps) (auto split: if_splits)
      qed
    qed
  qed
qed

section \<open>Protocol strings survive the wire\<close>

lemma MAX_PAYLOAD_eval: "MAX_PAYLOAD = 262144"
  by (simp add: MAX_PAYLOAD_def MAX_PAYLOAD_V2_def)

lemma SendProtocolString_written:
  assumes "SendProtocolString f s = Inr (True, e, f')"
  shows "length s mod 2 ^ 32 \<le> MAX_PAYLOAD - 4" and "written f' = written f @ protocol_string s"
  using assms by (auto simp: SendProtocolString_def split: if_splits dest: WriteFdExactly_prefix)

lemma ReadProtocolString_stream:
  assumes "stream (rscript g) = hdr @ body" and "length hdr = 4"
    and "strtoul16 hdr \<le> length body" and "strtoul16 hdr < 2 ^ 63"
  shows "\<exists>g'. ReadProtocolString g = Inr (True, take (strtoul16 hdr) body, [], g') \<and>
    stream (rscript g') = drop (strtoul16 hdr) body"
proof -
  from ReadFdExactly_available [of 4 g "[]"] assms(1,2) obtain g1 where
    g1: "ReadFdExactly g 4 [] = (True, ENONE, hdr, g1)" "stream (rscript g1) = body" by auto
  from ReadFdExactly_available [of "strtoul16 hdr" g1 "[]"] g1 assms(3) obtain g2 where
    "ReadFdExactly g1 (strtoul16 hdr) [] = (True, ENONE, take (strtoul16 hdr) body, g2)"
    "stream (rscript g2) = drop (strtoul16 hdr) body" by auto
  with g1 assms(4) show ?thesis by (simp add: ReadProtocolString_def Let_def)
qed

lemma pad0_hex_strtoul16:
  assumes "n < 16 ^ 4"
  shows "length (pad0 4 (hex_of_nat n)) = 4" and "strtoul16 (pad0 4 (hex_of_nat n)) = n"
proof -
  show "length (pad0 4 (hex_of_nat n)) = 4"
    using assms hex_of_nat_length [of n 3] by (simp add: pad0_length)
  obtain ds where ds: "map hex_val (hex_of_nat n) = map Some ds" "hex_num ds = n"
    using hex_of_nat_val by blast
  show "strtoul16 (pad0 4 (hex_of_nat n)) = n"
    using strtoul16_digits [OF pad0_hex_val [OF ds(1), of 4]] ds(2) assms by simp
qed

text \<open>
  A protocol string without NUL bytes and shorter than 64 KiB that SendProtocolString reports
  as sent is exactly what ReadProtocolString returns on the other side, however the kernel cuts
  the bytes into reads and writes; the bytes after it stay in the stream.
\<close>

theorem protocol_string_roundtrip:
  assumes "CHR 0x00 \<notin> set s" and "length s < 65536"
    and "SendProtocolString f s = Inr (True, e, f')"
    and "written f' = written f @ w"
    and "stream (rscript g) = w @ rest"
  shows "\<exists>g'. ReadProtocolString g = Inr (True, s, [], g') \<and> stream (rscript g') = rest"
proof -
  have w: "w = pad0 4 (hex_of_nat (length s)) @ s"
    using SendProtocolString_written(2) [OF assms(3)] assms(1,2,4)
    by (simp add: protocol_string_def Let_def c_str_id)
  have hdr: "length (pad0 4 (hex_of_nat (length s))) = 4"
    "strtoul16 (pad0 4 (hex_of_nat (length s))) = length s"
    using pad0_hex_strtoul16 [of "length s"] assms(2) by simp_all
  show ?thesis
    using ReadProtocolString_stream [of g "pad0 4 (hex_of_nat (length s))" "s @ rest"] hdr assms(2,5)
    by (simp add: w)
qed

definition demo_fd :: "rresp list \<Rightarrow> wresp list \<Rightarrow> fd_state" where
  "demo_fd rs ws = \<lparr>rscript = rs, wscript = ws, written = []\<rparr>"

theorem protocol_string_roundtrip_witness:
  "SendProtocolString (demo_fd [] [WAccept 3, WErr EAGAIN, WAccept 9]) ''hello'' =
     Inr (True, ENONE, (demo_fd [] [])\<lparr>written := ''0005hello''\<rparr>) \<and>
   (\<exists>g'. ReadProtocolString (demo_fd [RData ''00'', RData ''05hel'', RData ''loX''] []) =
      Inr (True, ''hello'', [], g') \<and> stream (rscript g') = ''X'')"
proof -
  have send: "SendProtocolString (demo_fd [] [WAccept 3, WErr EAGAIN, WAccept 9]) ''hello'' =
     Inr (True, ENONE, (demo_fd [] [])\<lparr>written := ''0005hello''\<rparr>)"
  proof -
    have "protocol_string ''hello'' = ''0005hello''"
      unfolding protocol_string_def
      by simp (simp add: pad0_def hex_of_nat.simps [of 5] hex_digit_lits c_str_def numeral_3_eq_3)
    then show ?thesis
      by (simp add: SendProtocolString_def MAX_PAYLOAD_eval demo_fd_def WriteFdExactly_steps)
  qed
  have "\<exists>g'. ReadProtocolString (demo_fd [RData ''00'', RData ''05hel'', RData ''loX''] []) =
      Inr (True, ''hello'', [], g') \<and> stream (rscript g') = ''X''"
    by (rule protocol_string_roundtrip [OF _ _ send, of "''0005hello''"]) (simp_all add: demo_fd_def)
  with send show ?thesis by blast
qed

text \<open>
  Above 64 KiB the round trip fails although SendProtocolString succeeds. Its limit is
  MAX_PAYLOAD - 4, but a length of five hexadecimal digits does not fit the four-digit field:
  the reader takes the first four digits, so it returns a string of a sixteenth of the length,
  starting with the fifth digit.
\<close>

theorem protocol_string_oversize:
  assumes "CHR 0x00 \<notin> set s" and "65536 \<le> length s" and "length s \<le> MAX_PAYLOAD - 4"
    and "stream (rscript g) = protocol_string s @ rest"
  shows "\<exists>s' g'. ReadProtocolString g = Inr (True, s', [], g') \<and> length s' = length s div 16 \<and>
    hd s' = hex_digit (length s mod 16) \<and> s' \<noteq> s"
proof -
  let ?n = "length s"
  have n: "?n < 16 ^ 5" "16 ^ 4 \<le> ?n" using assms(2,3) by (simp_all add: MAX_PAYLOAD_eval)
  have hex: "hex_of_nat ?n = hex_of_nat (?n div 16) @ [hex_digit (?n mod 16)]"
    using n by (simp add: hex_of_nat.simps [of ?n])
  have "?n div 16 < 16 ^ 4" and "16 ^ 3 \<le> ?n div 16" using n by simp_all
  then have "length (hex_of_nat (?n div 16)) = 4"
    using hex_of_nat_length [of "?n div 16" 3] hex_of_nat_length_ge [of 3 "?n div 16"] by simp
  then have four: "pad0 4 (hex_of_nat (?n div 16)) = hex_of_nat (?n div 16)"
    "length (hex_of_nat (?n div 16)) = 4" by (simp_all add: pad0_id)
  have div: "?n div 16 < 16 ^ 4" using n by simp
  have v: "strtoul16 (hex_of_nat (?n div 16)) = ?n div 16"
    using pad0_hex_strtoul16(2) [OF div] unfolding four(1) .
  let ?body = "hex_digit (?n mod 16) # s @ rest"
  have "?n mod 2 ^ 32 = ?n" using n by simp
  then have st: "stream (rscript g) = hex_of_nat (?n div 16) @ ?body"
    using assms(1,4) four(2) by (simp add: protocol_string_def Let_def c_str_id pad0_id hex)
  obtain g' where g': "ReadProtocolString g = Inr (True, take (?n div 16) ?body, [], g')"
  proof -
    have "?n div 16 \<le> length ?body" "?n div 16 < 2 ^ 63" using n(1) by simp_all
    then show ?thesis using ReadProtocolString_stream [OF st four(2)] v that by auto
  qed
  have len: "length (take (?n div 16) ?body) = ?n div 16" by simp
  moreover have "0 < ?n div 16" using n(2) by simp
  then have "hd (take (?n div 16) ?body) = hex_digit (?n mod 16)" by (simp add: take_Cons')
  moreover have "take (?n div 16) ?body \<noteq> s" using len n by (metis div_less_dividend less_irrefl_nat
      one_less_numeral_iff semiring_norm(76) zero_less_numeral zero_less_power order_less_le_trans)
  ultimately show ?thesis using g' by blast
qed

theorem protocol_string_oversize_witness:
  "\<exists>s' g'. ReadProtocolString
      (demo_fd [RData (protocol_string (replicate 65536 (CHR ''a'')))] []) = Inr (True, s', [], g') \<and>
    length s' = 4096 \<and> hd s' = CHR ''0'' \<and> s' \<noteq> replicate 65536 (CHR ''a'')"
proof -
  have "protocol_string (replicate 65536 (CHR ''a'')) \<noteq> []"
    by (simp add: protocol_string_def pad0_def hex_of_nat.simps)
  then obtain b bs where bs: "protocol_string (replicate 65536 (CHR ''a'')) = b # bs"
    by (cases "protocol_string (replicate 65536 (CHR ''a''))") blast
  have st: "stream (rscript (demo_fd [RData (protocol_string (replicate 65536 (CHR ''a'')))] [])) =
      protocol_string (replicate 65536 (CHR ''a'')) @ []"
    unfolding bs by (simp add: demo_fd_def)
  show ?thesis
    using protocol_string_oversize [OF _ _ _ st] by (simp add: MAX_PAYLOAD_eval hex_digit_lits)
qed

section \<open>Reads use up the script\<close>

definition rsize :: "fd_state \<Rightarrow> nat" where
  "rsize f = sum_list (map (\<lambda>r. case r of RData bs \<Rightarrow> Suc (length bs) | RErr _ \<Rightarrow> 1) (rscript f))"

lemma WriteFdExactly_rsize: "WriteFdExactly f buf = Inr (ok, e, f') \<Longrightarrow> rsize f' = rsize f"
  by (auto simp: rsize_def dest!: WriteFdExactly_prefix)

lemma adb_read_rsize: "adb_read f n = (r, bs, f') \<Longrightarrow> rsize f' \<le> rsize f \<and> (0 < n \<and> rscript f \<noteq> [] \<longrightarrow> rsize f' < rsize f)"
  by (auto simp: adb_read_def rsize_def split: list.splits rresp.splits if_splits)

lemma ReadFdExactly_first:
  assumes "ReadFdExactly f n acc = (ok, e, bs, f')" and "0 < n" and "adb_read f n = (r, cs, f1)"
  shows "(\<exists>k. r = Ret k \<and> 0 < k \<and> ReadFdExactly f1 (n - k) (acc @ cs) = (ok, e, bs, f')) \<or> f' = f1"
  using assms by (subst (asm) ReadFdExactly.simps) (auto split: io_ret.splits if_splits)

text \<open>What every read keeps, ReadFdExactly keeps.\<close>

lemma ReadFdExactly_inv:
  assumes "ReadFdExactly f n acc = (ok, e, bs, f')" and "I f"
    and step: "\<And>g m r cs g'. adb_read g m = (r, cs, g') \<Longrightarrow> I g \<Longrightarrow> 0 < m \<Longrightarrow> I g'"
  shows "I f'"
  using assms(1,2)
proof (induction n arbitrary: f acc rule: less_induct)
  case (less n)
  show ?case
  proof (cases "n = 0")
    case True
    then show ?thesis using less.prems by (subst (asm) ReadFdExactly.simps) auto
  next
    case False
    obtain r cs f1 where r: "adb_read f n = (r, cs, f1)" by (cases "adb_read f n") auto
    from step [OF r less.prems(2)] False have "I f1" by simp
    then show ?thesis using ReadFdExactly_first [OF less.prems(1) _ r] False by (auto elim!: less.IH [rotated])
  qed
qed

lemma ReadFdExactly_rsize:
  assumes "ReadFdExactly f n acc = (ok, e, bs, f')"
  shows "rsize f' \<le> rsize f \<and> (0 < n \<and> rscript f \<noteq> [] \<longrightarrow> rsize f' < rsize f)"
proof (cases "n = 0")
  case True
  then show ?thesis using assms by (subst (asm) ReadFdExactly.simps) auto
next
  case False
  obtain r cs f1 where r: "adb_read f n = (r, cs, f1)" by (cases "adb_read f n") auto
  have "rsize f' \<le> rsize f1"
    using ReadFdExactly_first [OF assms _ r] False
    by (auto elim!: ReadFdExactly_inv [where I = "\<lambda>g. rsize g \<le> rsize f1"] dest!: adb_read_rsize)
  then show ?thesis using adb_read_rsize [OF r] False by auto
qed

lemma ReadFdExactly_empty: "0 < n \<Longrightarrow> rscript f = [] \<Longrightarrow> ReadFdExactly f n acc = (False, EAGAIN, acc, f)"
  by (subst ReadFdExactly.simps) (simp add: adb_read_def)

lemma adb_read_some: "adb_read g n = (Ret r, bs, g1) \<Longrightarrow> 0 < r \<Longrightarrow> rsize g1 < rsize g"
  using adb_read_rsize [of g n "Ret r" bs g1] by (auto simp: adb_read_def split: list.splits rresp.splits if_splits)

lemma adb_read_0: "adb_read g n = (Ret 0, bs, g1) \<Longrightarrow> 0 < n \<Longrightarrow> stream (rscript g) = []"
  by (cases "rscript g" rule: stream.cases) (auto simp: adb_read_def split: if_splits)

lemma adb_read_some_stream:
  assumes "adb_read g n = (Ret r, bs, g1)" and "0 < r"
  shows "length bs = r \<and> r \<le> n \<and> stream (rscript g) = bs @ stream (rscript g1)"
proof -
  have "stream (RData (drop n x) # rs) = drop n x @ stream rs" if "n < length x" for x rs
    using that by (cases "drop n x") auto
  with assms show ?thesis
    by (cases "rscript g" rule: stream.cases) (auto simp: adb_read_def split: if_splits dest: arg_cong [of _ _ "append (take n (x # y))" for x y])
qed

lemma adb_read_written: "adb_read f n = (r, bs, f') \<Longrightarrow> written f' = written f \<and> wscript f' = wscript f"
  by (auto simp: adb_read_def split: list.splits rresp.splits if_splits)

lemma ReadFdExactly_written: "ReadFdExactly f n acc = (ok, e, bs, f') \<Longrightarrow> written f' = written f \<and> wscript f' = wscript f"
  by (erule ReadFdExactly_inv) (auto dest: adb_read_written)

section \<open>A descriptor that takes what it is given\<close>

text \<open>A descriptor that accepts at least \<open>n\<close> more bytes.\<close>

definition willing :: "fd_state \<Rightarrow> nat \<Rightarrow> bool" where
  "willing f n \<longleftrightarrow> (\<exists>ks rest. wscript f = map WAccept ks @ rest \<and> (\<forall>k \<in> set ks. 0 < k) \<and> n \<le> length ks)"

lemma willing_cong: "wscript f' = wscript f \<Longrightarrow> willing f' n = willing f n"
  by (simp add: willing_def)

lemma WriteFdExactly_willing:
  "willing f n \<Longrightarrow> length buf \<le> n \<Longrightarrow>
   \<exists>f'. WriteFdExactly f buf = Inr (True, ENONE, f') \<and> willing f' (n - length buf) \<and> written f' = written f @ buf \<and> rscript f' = rscript f"
proof (induction buf arbitrary: f n rule: length_induct)
  case (1 buf)
  show ?case
  proof (cases "buf = []")
    case True
    then show ?thesis using "1.prems" by (subst WriteFdExactly.simps) simp
  next
    case False
    from "1.prems"(1) obtain js rest where js: "wscript f = map WAccept js @ rest" "\<forall>k \<in> set js. 0 < k" "n \<le> length js"
      unfolding willing_def by blast
    with "1.prems"(2) False obtain k ks where "js = k # ks" by (cases js) auto
    with js have ws: "wscript f = WAccept k # map WAccept ks @ rest" "0 < k" "\<forall>k \<in> set ks. 0 < k" "n \<le> Suc (length ks)" by auto
    let ?r = "min k (length buf)" and ?f = "f\<lparr>wscript := map WAccept ks @ rest, written := written f @ take (min k (length buf)) buf\<rparr>"
    have r: "0 < ?r" using False ws(2) by simp
    have "willing ?f (n - 1)" unfolding willing_def using ws(3,4) by fastforce
    moreover have "length (drop ?r buf) < length buf" "length (drop ?r buf) \<le> n - 1" using r "1.prems"(2) False by auto
    ultimately obtain f' where f': "WriteFdExactly ?f (drop ?r buf) = Inr (True, ENONE, f')" "willing f' (n - 1 - length (drop ?r buf))"
      "written f' = written ?f @ drop ?r buf" "rscript f' = rscript ?f" using "1.IH" by blast
    have "n - length buf \<le> n - 1 - length (drop ?r buf)"
      using \<open>length (drop ?r buf) < length buf\<close> "1.prems"(2) by linarith
    then have "willing f' (n - length buf)" using f'(2) unfolding willing_def by fastforce
    then show ?thesis using f' WriteFdExactly_steps(3) [OF False ws(1)] by (simp add: append_take_drop_id)
  qed
qed

end
