(* ===== verification/Socket_Spec.thy ===== *)
theory Socket_Spec
  imports Adb_Prelude
begin

text \<open>
  socket_spec.cpp: the socket specifications \<open>tcp:...\<close>, \<open>local...:...\<close> that name the endpoints
  of connections and listeners, and connecting to and listening on them.

  The build's preprocessor switches are a record, so the host and device variants are both
  covered. The network primitives (sysdeps and libcutils) are the fields of \<open>net_ops\<close>: a
  result is a descriptor, or the error text of a failed call.
\<close>

record build =
  ADB_HOST :: bool
  ADB_LINUX :: bool
  ADB_WINDOWS :: bool

datatype socket_namespace = NS_ABSTRACT | NS_RESERVED | NS_FILESYSTEM

record net_ops =
  network_loopback_client :: "int \<Rightarrow> string + fd"
  network_connect :: "string \<Rightarrow> int \<Rightarrow> string + fd"
  network_local_client :: "string \<Rightarrow> socket_namespace \<Rightarrow> string + fd"
  network_inaddr_any_server :: "int \<Rightarrow> string + fd"
  network_loopback_server :: "int \<Rightarrow> string + fd"
  network_local_server :: "string \<Rightarrow> socket_namespace \<Rightarrow> string + fd"
  adb_socket_get_local_port :: "fd \<Rightarrow> int"

definition quoted :: "string \<Rightarrow> string" where
  "quoted s = [CHR 0x27] @ s @ [CHR 0x27]"

definition kLocalSocketTypes :: "build \<Rightarrow> (string \<times> socket_namespace \<times> bool) list" where
  "kLocalSocketTypes b =
    [(''local'', if ADB_HOST b then NS_FILESYSTEM else NS_RESERVED, \<not> ADB_WINDOWS b),
     (''localreserved'', NS_RESERVED, \<not> ADB_HOST b),
     (''localabstract'', NS_ABSTRACT, ADB_LINUX b),
     (''localfilesystem'', NS_FILESYSTEM, \<not> ADB_WINDOWS b)]"

definition parse_tcp_socket_spec :: "libbase \<Rightarrow> string \<Rightarrow> string + (string \<times> int)" where
  "parse_tcp_socket_spec B spec =
    (if \<not> StartsWith B spec ''tcp:'' then Inl (''specification is not tcp: '' @ quoted spec)
     else (case ParseInt B (drop 4 spec) of
        Some port_value \<Rightarrow>
          if port_value < 0 \<or> port_value > 65535
          then Inl (''bad port number '' @ quoted (dec_of_int port_value))
          else Inr ([], port_value)
      | None \<Rightarrow>
          (case ParseNetAddress B (drop 4 spec) (-1) of
             Inl error \<Rightarrow> Inl error
           | Inr (hostname_value, port_value, _) \<Rightarrow>
               if port_value = -1
               then Inl (''missing port in specification: '' @ quoted spec)
               else Inr (hostname_value, port_value))))"

definition tcp_host_is_local :: "string \<Rightarrow> bool" where
  "tcp_host_is_local hostname \<longleftrightarrow> hostname = [] \<or> hostname = ''localhost''"

text \<open>The loop over the table: the first entry whose name and a colon start the specification.\<close>

fun local_type_of ::
    "libbase \<Rightarrow> (string \<times> socket_namespace \<times> bool) list \<Rightarrow> string \<Rightarrow>
     (string \<times> socket_namespace \<times> bool) option" where
  "local_type_of B [] spec = None"
| "local_type_of B (it # its) spec =
     (if StartsWith B spec (fst it @ '':'') then Some it else local_type_of B its spec)"

definition is_socket_spec :: "libbase \<Rightarrow> build \<Rightarrow> string \<Rightarrow> bool" where
  "is_socket_spec B b spec \<longleftrightarrow>
     local_type_of B (kLocalSocketTypes b) spec \<noteq> None \<or> StartsWith B spec ''tcp:''"

definition is_local_socket_spec :: "libbase \<Rightarrow> build \<Rightarrow> string \<Rightarrow> bool" where
  "is_local_socket_spec B b spec \<longleftrightarrow>
     local_type_of B (kLocalSocketTypes b) spec \<noteq> None \<or>
     (case parse_tcp_socket_spec B spec of
        Inl _ \<Rightarrow> False
      | Inr (hostname, _) \<Rightarrow> tcp_host_is_local hostname)"

text \<open>
  The result of the two operations below is an error text or a descriptor; disable_tcp_nagle on
  the new descriptor has no effect on the result. \<open>gListenAll\<close> is the global of that name.
\<close>

definition socket_spec_connect ::
    "libbase \<Rightarrow> build \<Rightarrow> net_ops \<Rightarrow> (string \<times> socket_namespace \<times> bool) list \<Rightarrow> string \<Rightarrow> string + fd" where
  "socket_spec_connect B b N types spec =
    (if StartsWith B spec ''tcp:'' then
       (case parse_tcp_socket_spec B spec of
          Inl error \<Rightarrow> Inl error
        | Inr (hostname, port) \<Rightarrow>
            if tcp_host_is_local hostname then network_loopback_client N port
            else if ADB_HOST b then network_connect N hostname port
            else Inl ''adbd does not support arbitrary tcp connections'')
     else (case local_type_of B types spec of
        Some (name, ns, available) \<Rightarrow>
          if \<not> available
          then Inl (''socket type '' @ name @ '' is unavailable on this platform'')
          else network_local_client N (drop (length name + 1) spec) ns
      | None \<Rightarrow> Inl (''unknown socket specification '' @ quoted spec)))"

text \<open>The second component of the result is the resolved port, 0 where it is not set.\<close>

definition socket_spec_listen ::
    "libbase \<Rightarrow> net_ops \<Rightarrow> bool \<Rightarrow> (string \<times> socket_namespace \<times> bool) list \<Rightarrow> string \<Rightarrow>
     string + (fd \<times> int)" where
  "socket_spec_listen B N gListenAll types spec =
    (if StartsWith B spec ''tcp:'' then
       (case parse_tcp_socket_spec B spec of
          Inl error \<Rightarrow> Inl error
        | Inr (hostname, port) \<Rightarrow>
            (case (if hostname = [] \<and> gListenAll then network_inaddr_any_server N port
                   else if tcp_host_is_local hostname then network_loopback_server N port
                   else Inl ''listening on specified hostname currently unsupported'') of
               Inl error \<Rightarrow> Inl error
             | Inr result \<Rightarrow>
                 Inr (result, if result \<ge> 0 \<and> port = 0 then adb_socket_get_local_port N result else 0)))
     else (case local_type_of B types spec of
        Some (name, ns, available) \<Rightarrow>
          if \<not> available
          then Inl (''attempted to listen on unavailable socket type: '' @ quoted spec)
          else map_sum id (\<lambda>r. (r, 0)) (network_local_server N (drop (length name + 1) spec) ns)
      | None \<Rightarrow> Inl (''unknown socket specification '' @ quoted spec)))"

section \<open>At most one type matches\<close>

text \<open>
  The table is a hash map, iterated in an order the code does not control. The type names have no
  colon, so at most one entry matches and the order is irrelevant.
\<close>

lemma prefix_colon_unique:
  assumes "prefix (a @ '':'') s" and "prefix (a' @ '':'') s"
    and "CHR '':'' \<notin> set a" and "CHR '':'' \<notin> set a'"
  shows "a = a'"
proof -
  have split: "takeWhile (\<lambda>c. c \<noteq> CHR '':'') s = x" if "prefix (x @ '':'') s" "CHR '':'' \<notin> set x" for x
  proof -
    from that(1) obtain t where "s = x @ CHR '':'' # t" by (auto simp: prefix_def)
    with that(2) show ?thesis by (auto simp: takeWhile_tail)
  qed
  from split [OF assms(1,3)] split [OF assms(2,4)] show ?thesis by simp
qed

context libbase_spec
begin

lemma local_type_of_Some:
  "local_type_of B ts spec = Some it \<Longrightarrow> it \<in> set ts \<and> prefix (fst it @ '':'') spec"
  by (induction ts) (auto simp: StartsWith_iff split: if_splits)

lemma local_type_of_None:
  "local_type_of B ts spec = None \<longleftrightarrow> (\<forall>it \<in> set ts. \<not> prefix (fst it @ '':'') spec)"
  by (induction ts) (auto simp: StartsWith_iff)

lemma local_type_of_perm:
  assumes "distinct (map fst ts)" and "set ts' = set ts"
    and "\<forall>it \<in> set ts. CHR '':'' \<notin> set (fst it)"
  shows "local_type_of B ts' spec = local_type_of B ts spec"
proof (cases "local_type_of B ts spec")
  case None
  then have "local_type_of B ts' spec = None" using assms(2) by (simp add: local_type_of_None)
  with None show ?thesis by simp
next
  case (Some it)
  note S = local_type_of_Some [OF Some]
  then have "local_type_of B ts' spec \<noteq> None" using assms(2) by (auto simp: local_type_of_None)
  then obtain it' where it': "local_type_of B ts' spec = Some it'" by blast
  note S' = local_type_of_Some [OF it']
  have "fst it' = fst it"
    by (rule prefix_colon_unique [of _ spec]) (use S S' assms(2,3) in auto)
  with S S' assms(1,2) have "it' = it" by (metis distinct_map inj_on_eq_iff)
  with Some it' show ?thesis by simp
qed

end

lemma kLocalSocketTypes_wf:
  "distinct (map fst (kLocalSocketTypes b))"
  "\<forall>it \<in> set (kLocalSocketTypes b). CHR '':'' \<notin> set (fst it)"
  by (simp_all add: kLocalSocketTypes_def)

text \<open>
  Connecting and listening do not depend on the iteration order of the hash map of local
  socket types: any list with the same entries gives the same result.
\<close>

lemma socket_spec_order_irrelevant:
  assumes "libbase_spec B" and "set types = set (kLocalSocketTypes b)"
  shows "socket_spec_connect B b N types spec = socket_spec_connect B b N (kLocalSocketTypes b) spec \<and>
    socket_spec_listen B N la types spec = socket_spec_listen B N la (kLocalSocketTypes b) spec"
  using libbase_spec.local_type_of_perm [OF assms(1) kLocalSocketTypes_wf(1) assms(2) kLocalSocketTypes_wf(2)]
  by (simp add: socket_spec_connect_def socket_spec_listen_def)

definition demo_net :: net_ops where
  "demo_net = \<lparr>network_loopback_client = (\<lambda>p. Inr 7), network_connect = (\<lambda>h p. Inr 8),
     network_local_client = (\<lambda>n s. Inr 9), network_inaddr_any_server = (\<lambda>p. Inr 10),
     network_loopback_server = (\<lambda>p. Inr 11), network_local_server = (\<lambda>n s. Inr 12),
     adb_socket_get_local_port = (\<lambda>f. 40000)\<rparr>"

definition linux_host :: build where
  "linux_host = \<lparr>ADB_HOST = True, ADB_LINUX = True, ADB_WINDOWS = False\<rparr>"

section \<open>TCP specifications\<close>

context libbase_spec
begin

lemma parse_tcp_port:
  assumes "0 \<le> p" and "p \<le> 65535"
  shows "parse_tcp_socket_spec B (''tcp:'' @ dec_of_int p) = Inr ([], p)"
  using assms ParseInt_dec [of p] by (simp add: parse_tcp_socket_spec_def StartsWith_iff)

lemma parse_tcp_bad_port:
  assumes "- (2 ^ 31) \<le> p" and "p < 2 ^ 31" and "p < 0 \<or> 65535 < p"
  shows "\<exists>e. parse_tcp_socket_spec B (''tcp:'' @ dec_of_int p) = Inl e"
  using assms ParseInt_dec [of p] by (auto simp: parse_tcp_socket_spec_def StartsWith_iff)

end

text \<open>
  \<open>tcp:\<close> followed by a decimal number is accepted exactly when the number is a valid port,
  from 0 to 65535; it names the local host, and a connection goes to the loopback interface.
\<close>

lemma tcp_port_spec:
  assumes "libbase_spec B" and "- (2 ^ 31) \<le> p" and "p < 2 ^ 31"
  shows "(parse_tcp_socket_spec B (''tcp:'' @ dec_of_int p) = Inr ([], p) \<longleftrightarrow> 0 \<le> p \<and> p \<le> 65535) \<and>
    (0 \<le> p \<and> p \<le> 65535 \<longrightarrow>
      is_local_socket_spec B b (''tcp:'' @ dec_of_int p) \<and>
      socket_spec_connect B b N types (''tcp:'' @ dec_of_int p) = network_loopback_client N p)"
proof -
  note L = assms(1)
  have "parse_tcp_socket_spec B (''tcp:'' @ dec_of_int p) = Inr ([], p) \<longleftrightarrow> 0 \<le> p \<and> p \<le> 65535"
    using libbase_spec.parse_tcp_port [OF L, of p] libbase_spec.parse_tcp_bad_port [OF L assms(2,3)]
    by fastforce
  moreover have "is_local_socket_spec B b (''tcp:'' @ dec_of_int p) \<and>
      socket_spec_connect B b N types (''tcp:'' @ dec_of_int p) = network_loopback_client N p"
    if "0 \<le> p" "p \<le> 65535"
    using libbase_spec.parse_tcp_port [OF L that] libbase_spec.StartsWith_iff [OF L]
    by (simp add: is_local_socket_spec_def socket_spec_connect_def tcp_host_is_local_def)
  ultimately show ?thesis by blast
qed

end
