(* ===== verification/Atransport.thy ===== *)
theory Atransport
  imports Adb_IO Socket_Spec
begin

text \<open>
  The class atransport of transport.h and transport.cpp: one connection to a device. This theory
  has its data, the operations on a single transport (versions, features, disconnect callbacks,
  target matching), the help texts of diagnose\_usb.cpp its state name uses, and the connection
  banner of adb.cpp (\<open>get_connection_string\<close>, \<open>parse_banner\<close>).

  The four function pointers of a transport are always set together, by init\_socket\_transport
  or init\_usb\_transport, so one field names the pair of them. An adisconnect is known by its
  address, an RSA key by a number. char pointers are optional strings without NUL.
\<close>

section \<open>Data\<close>

datatype TransportType = kTransportUsb | kTransportLocal | kTransportAny | kTransportHost

datatype ConnectionState =
    kCsAny | kCsOffline | kCsBootloader | kCsDevice | kCsHost | kCsRecovery | kCsNoPerm
  | kCsSideload | kCsUnauthorized

datatype transport_funcs = NoFuncs | SocketFuncs | UsbFuncs

definition A_VERSION :: int where "A_VERSION = 0x01000000"

type_synonym FeatureSet = "string set"

record atransport =
  funcs :: transport_funcs
  at_fd :: fd
  transport_socket :: fd
  ref_count :: nat
  sync_token :: u32
  online :: bool
  tr_type :: TransportType
  usb :: "nat option"
  sfd :: fd
  serial :: "string option"
  product :: "string option"
  model :: "string option"
  device :: "string option"
  devpath :: "string option"
  token :: string
  failed_auth_attempts :: nat
  local_port_for_emulator :: int
  kicked :: bool
  features :: FeatureSet
  protocol_version :: int
  max_payload :: nat
  disconnects :: "addr list"
  connection_state :: ConnectionState
  keys :: "nat list"
  has_send_connect_on_error :: bool

definition new_atransport :: "ConnectionState \<Rightarrow> atransport" where
  "new_atransport st =
    \<lparr>funcs = NoFuncs, at_fd = -1, transport_socket = -1, ref_count = 0, sync_token = 0, online = False,
     tr_type = kTransportAny, usb = None, sfd = -1, serial = None, product = None, model = None,
     device = None, devpath = None, token = replicate 20 (CHR 0x00), failed_auth_attempts = 0,
     local_port_for_emulator = -1, kicked = False, features = {}, protocol_version = A_VERSION,
     max_payload = MAX_PAYLOAD, disconnects = [], connection_state = st, keys = [],
     has_send_connect_on_error = False\<rparr>"

section \<open>Small operations\<close>

definition SetLocalPortForEmulator :: "int \<Rightarrow> atransport \<Rightarrow> atransport res" where
  "SetLocalPortForEmulator port t =
    bindR (checkR (local_port_for_emulator t = -1) ''CHECK_EQ(local_port_for_emulator_, -1)'')
      (\<lambda>_. Inr (t\<lparr>local_port_for_emulator := port\<rparr>))"

definition GetLocalPortForEmulator :: "atransport \<Rightarrow> int option" where
  "GetLocalPortForEmulator t =
    (if tr_type t = kTransportLocal \<and> local_port_for_emulator t \<noteq> -1
     then Some (local_port_for_emulator t) else None)"

definition IsTcpDevice :: "atransport \<Rightarrow> bool" where
  "IsTcpDevice t \<longleftrightarrow> tr_type t = kTransportLocal \<and> local_port_for_emulator t = -1"

definition serial_name :: "atransport \<Rightarrow> string" where
  "serial_name t = (case serial t of Some s \<Rightarrow> s | None \<Rightarrow> ''<unknown>'')"

definition update_version :: "int \<Rightarrow> nat \<Rightarrow> atransport \<Rightarrow> atransport" where
  "update_version version payload t =
    t\<lparr>protocol_version := min version A_VERSION, max_payload := min payload MAX_PAYLOAD\<rparr>"

definition SetSendConnectOnError :: "atransport \<Rightarrow> bool \<times> atransport" where
  "SetSendConnectOnError t =
    (if has_send_connect_on_error t then (False, t)
     else (True, t\<lparr>has_send_connect_on_error := True\<rparr>))"

text \<open>The keys come from adb\_auth\_get\_private\_keys(); with none, \<open>keys_[0]\<close> reads an empty deque.\<close>

definition NextKey :: "nat list \<Rightarrow> atransport \<Rightarrow> (nat \<times> atransport) res" where
  "NextKey private_keys t =
    (let ks = (if keys t = [] then private_keys else keys t) in
     case ks of [] \<Rightarrow> Inl OutOfBounds | k # rest \<Rightarrow> Inr (k, t\<lparr>keys := rest\<rparr>))"

definition AddDisconnect :: "addr \<Rightarrow> atransport \<Rightarrow> atransport" where
  "AddDisconnect d t = t\<lparr>disconnects := disconnects t @ [d]\<rparr>"

definition RemoveDisconnect :: "addr \<Rightarrow> atransport \<Rightarrow> atransport" where
  "RemoveDisconnect d t = t\<lparr>disconnects := removeAll d (disconnects t)\<rparr>"

text \<open>\<open>RunDisconnects\<close> gives the callbacks to run, in order, and the transport after them.\<close>

definition RunDisconnects :: "atransport \<Rightarrow> addr list \<times> atransport" where
  "RunDisconnects t = (disconnects t, t\<lparr>disconnects := []\<rparr>)"

section \<open>Help texts for missing permissions\<close>

text \<open>
  What GetUdevProblem asks the system: whether the platform is Linux, whether there is a group
  plugdev, whether the user is in it (or has it as effective group), and the user's name.
\<close>

record udev_info =
  udev_linux :: bool
  has_plugdev :: bool
  in_plugdev :: bool
  user_name :: "string option"

definition kPermissionsHelpUrl :: string where
  "kPermissionsHelpUrl = ''http://developer.android.com/tools/device.html''"

definition GetUdevProblem :: "udev_info \<Rightarrow> string" where
  "GetUdevProblem u =
    (if \<not> udev_linux u \<or> \<not> has_plugdev u then []
     else if in_plugdev u then ''user in plugdev group; are your udev rules wrong?''
     else ''user '' @ (case user_name u of Some n \<Rightarrow> n | None \<Rightarrow> ''?'') @ '' is not in the plugdev group'')"

definition UsbNoPermissionsShortHelpText :: "udev_info \<Rightarrow> string" where
  "UsbNoPermissionsShortHelpText u =
    (let problem = GetUdevProblem u;
         help_text = ''no permissions'' @ (if problem \<noteq> [] then '' ('' @ problem @ '')'' else [])
     in help_text @ ''; see ['' @ kPermissionsHelpUrl @ '']'')"

definition UsbNoPermissionsLongHelpText :: "udev_info \<Rightarrow> string" where
  "UsbNoPermissionsLongHelpText u =
    (let problem = GetUdevProblem u;
         header = ''insufficient permissions for device'' @ (if problem \<noteq> [] then '': '' @ problem else [])
     in header @ [CHR 0x0A] @ ''See ['' @ kPermissionsHelpUrl @ ''] for more information'')"

definition connection_state_name :: "udev_info \<Rightarrow> atransport \<Rightarrow> string" where
  "connection_state_name u t =
    (case connection_state t of
       kCsOffline \<Rightarrow> ''offline''
     | kCsBootloader \<Rightarrow> ''bootloader''
     | kCsDevice \<Rightarrow> ''device''
     | kCsHost \<Rightarrow> ''host''
     | kCsRecovery \<Rightarrow> ''recovery''
     | kCsNoPerm \<Rightarrow> UsbNoPermissionsShortHelpText u
     | kCsSideload \<Rightarrow> ''sideload''
     | kCsUnauthorized \<Rightarrow> ''unauthorized''
     | kCsAny \<Rightarrow> ''unknown'')"

section \<open>Features\<close>

definition kFeatureShell2 :: string where "kFeatureShell2 = ''shell_v2''"
definition kFeatureCmd :: string where "kFeatureCmd = ''cmd''"
definition kFeatureStat2 :: string where "kFeatureStat2 = ''stat_v2''"
definition kFeatureLibusb :: string where "kFeatureLibusb = ''libusb''"
definition kFeaturePushSync :: string where "kFeaturePushSync = ''push_sync''"

lemmas feature_names =
  kFeatureShell2_def kFeatureCmd_def kFeatureStat2_def kFeatureLibusb_def kFeaturePushSync_def

definition supported_features :: FeatureSet where
  "supported_features = {kFeatureShell2, kFeatureCmd, kFeatureStat2}"

text \<open>
  Join walks the unordered set in its iteration order, which the language leaves open: the
  argument is the set's elements in that order.
\<close>

definition FeatureSetToString :: "libbase \<Rightarrow> string list \<Rightarrow> string" where
  "FeatureSetToString B fs = Join B fs (CHR '','')"

definition StringToFeatureSet :: "libbase \<Rightarrow> string \<Rightarrow> FeatureSet" where
  "StringToFeatureSet B s = (if s = [] then {} else set (Split B s '',''))"

definition CanUseFeature :: "FeatureSet \<Rightarrow> string \<Rightarrow> bool" where
  "CanUseFeature feature_set feature \<longleftrightarrow> feature \<in> feature_set \<and> feature \<in> supported_features"

definition has_feature :: "atransport \<Rightarrow> string \<Rightarrow> bool" where
  "has_feature t feature \<longleftrightarrow> feature \<in> features t"

definition SetFeatures :: "libbase \<Rightarrow> string \<Rightarrow> atransport \<Rightarrow> atransport" where
  "SetFeatures B s t = t\<lparr>features := StringToFeatureSet B s\<rparr>"

section \<open>Matching a target\<close>

text \<open>The two loops of \<open>qual_match\<close>: a NUL at the end of \<open>to_test\<close> differs from every character.\<close>

fun match_prefix :: "string \<Rightarrow> string \<Rightarrow> string option" where
  "match_prefix [] to_test = Some to_test"
| "match_prefix (p # ps) (t # ts) = (if p \<noteq> t then None else match_prefix ps ts)"
| "match_prefix (p # ps) [] = None"

fun match_qual :: "bool \<Rightarrow> string \<Rightarrow> string \<Rightarrow> bool" where
  "match_qual sanitize [] to_test \<longleftrightarrow> to_test = []"
| "match_qual sanitize (q # qs) (t # ts) \<longleftrightarrow>
     (let ch = (if sanitize \<and> \<not> is_alnum q then CHR ''_'' else q) in
      ch = t \<and> match_qual sanitize qs ts)"
| "match_qual sanitize (q # qs) [] \<longleftrightarrow> False"

definition qual_match :: "string option \<Rightarrow> string option \<Rightarrow> string option \<Rightarrow> bool \<Rightarrow> bool" where
  "qual_match to_test pref qual sanitize_qual \<longleftrightarrow>
    (if to_test = None \<or> to_test = Some [] then qual = None \<or> qual = Some []
     else (case qual of
             None \<Rightarrow> False
           | Some q \<Rightarrow>
               (case (case pref of None \<Rightarrow> to_test | Some p \<Rightarrow> match_prefix p (the to_test)) of
                  None \<Rightarrow> False
                | Some rest \<Rightarrow> match_qual sanitize_qual q rest)))"

definition matches_serial :: "libbase \<Rightarrow> atransport \<Rightarrow> string \<Rightarrow> bool" where
  "matches_serial B t target \<longleftrightarrow>
    (case serial t of
       None \<Rightarrow> False
     | Some ser \<Rightarrow>
         if target = ser then True
         else if tr_type t = kTransportLocal then
           (let local_target = (if StartsWith B target ''tcp:'' \<or> StartsWith B target ''udp:''
                                then drop 4 (c_str target) else c_str target) in
            case ParseNetAddress B ser (-1) of
              Inl _ \<Rightarrow> False
            | Inr (serial_host, serial_port, _) \<Rightarrow>
                (case ParseNetAddress B local_target serial_port of
                   Inl _ \<Rightarrow> False
                 | Inr (target_host, target_port, _) \<Rightarrow>
                     serial_host = target_host \<and> serial_port = target_port))
         else False)"

definition MatchesTarget :: "libbase \<Rightarrow> atransport \<Rightarrow> string \<Rightarrow> bool" where
  "MatchesTarget B t target \<longleftrightarrow>
    (if matches_serial B t target then True
     else devpath t = Some target \<or>
       qual_match (Some (c_str target)) (Some ''product:'') (product t) False \<or>
       qual_match (Some (c_str target)) (Some ''model:'') (model t) True \<or>
       qual_match (Some (c_str target)) (Some ''device:'') (device t) False)"

section \<open>The connection banner\<close>

text \<open>
  \<open>get_connection_string\<close>: \<open>prop\<close> is android::base::GetProperty and \<open>banner\<close> the variable
  adb\_device\_banner; \<open>fs\<close> is the iteration order of the supported features.
\<close>

definition cnxn_props :: "string list" where
  "cnxn_props = [''ro.product.name'', ''ro.product.model'', ''ro.product.device'']"

definition get_connection_string ::
    "libbase \<Rightarrow> build \<Rightarrow> (string \<Rightarrow> string) \<Rightarrow> string \<Rightarrow> string list \<Rightarrow> string" where
  "get_connection_string B b prop banner fs =
    (let connection_properties =
           (if \<not> ADB_HOST b then map (\<lambda>p. p @ ''='' @ prop p) cnxn_props else [])
           @ [''features='' @ c_str (FeatureSetToString B fs)]
     in banner @ ''::'' @ c_str (Join B connection_properties (CHR '';'')))"

definition qual_overwrite :: "string \<Rightarrow> string option" where
  "qual_overwrite src = Some (c_str src)"

definition banner_prop :: "libbase \<Rightarrow> string \<Rightarrow> atransport \<Rightarrow> atransport" where
  "banner_prop B prop t =
    (if prop = [] then t
     else (case Split B prop ''='' of
       [key, val] \<Rightarrow>
         if key = ''ro.product.name'' then t\<lparr>product := qual_overwrite val\<rparr>
         else if key = ''ro.product.model'' then t\<lparr>model := qual_overwrite val\<rparr>
         else if key = ''ro.product.device'' then t\<lparr>device := qual_overwrite val\<rparr>
         else if key = ''features'' then SetFeatures B val t
         else t
     | _ \<Rightarrow> t))"

definition banner_state :: "string \<Rightarrow> ConnectionState" where
  "banner_state type =
    (if type = ''bootloader'' then kCsBootloader
     else if type = ''device'' then kCsDevice
     else if type = ''recovery'' then kCsRecovery
     else if type = ''sideload'' then kCsSideload
     else kCsHost)"

definition parse_banner :: "libbase \<Rightarrow> string \<Rightarrow> atransport \<Rightarrow> atransport res" where
  "parse_banner B banner t0 =
    (let pieces = Split B banner '':'';
         t1 = SetFeatures B [] t0;
         t2 = (if length pieces > 2 then fold (banner_prop B) (Split B (pieces ! 2) '';'') t1 else t1)
     in case pieces of
          [] \<Rightarrow> Inl OutOfBounds
        | type # _ \<Rightarrow> Inr (t2\<lparr>connection_state := banner_state type\<rparr>))"

section \<open>What matching means\<close>

definition sanitized :: "bool \<Rightarrow> string \<Rightarrow> string" where
  "sanitized san s = map (\<lambda>c. if san \<and> \<not> is_alnum c then CHR ''_'' else c) s"

lemma match_prefix_iff: "match_prefix p t = Some r \<longleftrightarrow> t = p @ r"
  by (induction p t rule: match_prefix.induct) auto

lemma match_prefix_append [simp]: "match_prefix p (p @ r) = Some r"
  by (simp add: match_prefix_iff)

lemma match_qual_iff: "match_qual san q t \<longleftrightarrow> t = sanitized san q"
  by (induction san q t rule: match_qual.induct) (auto simp: sanitized_def Let_def)

lemma qual_match_iff:
  "qual_match (Some t) (Some p) qual san \<longleftrightarrow>
     (if t = [] then qual = None \<or> qual = Some [] else \<exists>q. qual = Some q \<and> t = p @ sanitized san q)"
  by (auto simp: qual_match_def match_qual_iff match_prefix_iff split: option.splits)

lemma sanitized_False [simp]: "sanitized False s = s"
  by (simp add: sanitized_def)

text \<open>
  C38: a non-empty target without NUL bytes selects a transport exactly when it is its serial
  number or device path, or names its product or device, or its model with every character that
  is not alphanumeric replaced by an underscore, or, for a socket transport, is the network
  address of its serial number, with an optional protocol prefix and the port defaulting to the
  transport's own.
\<close>

theorem MatchesTarget_iff:
  assumes "libbase_spec B" and "target \<noteq> []" and "CHR 0x00 \<notin> set target"
  shows "MatchesTarget B t target \<longleftrightarrow>
    serial t = Some target \<or> devpath t = Some target \<or>
    (\<exists>q. product t = Some q \<and> target = ''product:'' @ q) \<or>
    (\<exists>q. model t = Some q \<and> target = ''model:'' @ sanitized True q) \<or>
    (\<exists>q. device t = Some q \<and> target = ''device:'' @ q) \<or>
    (\<exists>s host port c1 c2. tr_type t = kTransportLocal \<and> serial t = Some s \<and>
       ParseNetAddress B s (-1) = Inr (host, port, c1) \<and>
       ParseNetAddress B
         (if prefix ''tcp:'' target \<or> prefix ''udp:'' target then drop 4 target else target) port =
       Inr (host, port, c2))"
proof -
  have sw: "StartsWith B target p \<longleftrightarrow> prefix p target" for p
    using assms(1) by (simp add: libbase_spec.StartsWith_iff)
  have ms: "matches_serial B t target \<longleftrightarrow>
    serial t = Some target \<or>
    (\<exists>s host port c1 c2. tr_type t = kTransportLocal \<and> serial t = Some s \<and>
       ParseNetAddress B s (-1) = Inr (host, port, c1) \<and>
       ParseNetAddress B
         (if prefix ''tcp:'' target \<or> prefix ''udp:'' target then drop 4 target else target) port =
       Inr (host, port, c2))"
    by (cases "serial t")
       (auto simp: matches_serial_def sw c_str_id [OF assms(3)] Let_def
          split: sum.splits prod.splits if_splits)
  show ?thesis
    unfolding MatchesTarget_def ms
    by (simp add: c_str_id [OF assms(3)] qual_match_iff assms(2)) blast
qed

theorem MatchesTarget_iff_witness:
  "MatchesTarget libbase_ref
     ((new_atransport kCsDevice)\<lparr>tr_type := kTransportLocal, serial := Some ''10.0.0.1:5555''\<rparr>)
     ''tcp:10.0.0.1'' \<and>
   \<not> MatchesTarget libbase_ref
     ((new_atransport kCsDevice)\<lparr>tr_type := kTransportUsb, serial := Some ''10.0.0.1:5555''\<rparr>)
     ''tcp:10.0.0.1'' \<and>
   MatchesTarget libbase_ref ((new_atransport kCsDevice)\<lparr>model := Some ''a b''\<rparr>) ''model:a_b''"
proof -
  have host: "ParseNetAddress libbase_ref ''10.0.0.1:5555'' (-1) = Inr (''10.0.0.1'', 5555, ''10.0.0.1:5555'')"
    by (simp add: libbase_ref_def parse_net_address_ref_def dec_val_def is_digit_def)
  have tgt: "ParseNetAddress libbase_ref ''10.0.0.1'' 5555 =
      Inr (''10.0.0.1'', 5555, ''10.0.0.1:'' @ dec_of_int 5555)"
    by (simp add: libbase_ref_def parse_net_address_ref_def)
  have san: "sanitized True ''a b'' = ''a_b''" by code_simp
  show ?thesis
    using MatchesTarget_iff [OF base_ref.libbase_spec_axioms, of "''tcp:10.0.0.1''"]
      MatchesTarget_iff [OF base_ref.libbase_spec_axioms, of "''model:a_b''"] host tgt san
    by (simp add: new_atransport_def)
qed

section \<open>Feature sets and banners survive printing and parsing\<close>

lemma StringToFeatureSet_Join:
  assumes "libbase_spec B" and "\<forall>f \<in> set fs. CHR '','' \<notin> set f" and "fs \<noteq> [[]]"
  shows "StringToFeatureSet B (FeatureSetToString B fs) = set fs"
proof -
  have join: "FeatureSetToString B fs = join_with (CHR '','') fs"
    using assms(1) by (simp add: FeatureSetToString_def libbase_spec.Join_eq)
  show ?thesis
  proof (cases "fs = []")
    case True
    then show ?thesis using join by (simp add: StringToFeatureSet_def)
  next
    case False
    then have "join_with (CHR '','') fs \<noteq> []" using assms(3) by (cases "(CHR '','', fs)" rule: join_with.cases) auto
    moreover have "Split B (join_with (CHR '','') fs) '','' = fs"
      using assms False by (simp add: libbase_spec.Split_eq split_join)
    ultimately show ?thesis by (simp add: join StringToFeatureSet_def)
  qed
qed

lemma c_str_join:
  "CHR 0x00 \<noteq> c \<Longrightarrow> (\<forall>x \<in> set xs. CHR 0x00 \<notin> set x) \<Longrightarrow> CHR 0x00 \<notin> set (join_with c xs)"
  by (induction c xs rule: join_with.induct) auto

lemma set_join_with: "set (join_with c xs) \<subseteq> insert c (\<Union> (set ` set xs))"
  by (induction c xs rule: join_with.induct) auto

definition kv :: "string \<Rightarrow> string \<Rightarrow> string" where
  "kv key val = key @ ''='' @ val"

lemma set_kv [simp]: "set (kv key val) = set key \<union> {CHR ''=''} \<union> set val"
  by (auto simp: kv_def)

lemma kv_nonempty [simp]: "kv key val \<noteq> []"
  by (simp add: kv_def)

lemma Split_kv:
  assumes "libbase_spec B" and "CHR ''='' \<notin> set key" and "CHR ''='' \<notin> set val"
  shows "Split B (kv key val) ''='' = [key, val]"
  using assms by (simp add: kv_def libbase_spec.Split_eq split_at_append split_at_no_delim)

lemma banner_prop_kv:
  assumes "libbase_spec B" and "CHR ''='' \<notin> set val"
  shows "banner_prop B (kv ''ro.product.name'' val) t = t\<lparr>product := Some (c_str val)\<rparr>"
    and "banner_prop B (kv ''ro.product.model'' val) t = t\<lparr>model := Some (c_str val)\<rparr>"
    and "banner_prop B (kv ''ro.product.device'' val) t = t\<lparr>device := Some (c_str val)\<rparr>"
    and "banner_prop B (kv ''features'' val) t = t\<lparr>features := StringToFeatureSet B val\<rparr>"
  using assms
  by (simp_all add: banner_prop_def qual_overwrite_def SetFeatures_def Split_kv [OF assms(1)])

text \<open>The text of the supported features contains no character the banner gives a meaning to.\<close>

lemma supported_features_text:
  assumes "libbase_spec B" and "set fs = supported_features"
  shows "FeatureSetToString B fs = join_with (CHR '','') fs"
    and "set (FeatureSetToString B fs) \<inter> {CHR '':'', CHR '';'', CHR ''='', CHR 0x00} = {}"
    and "StringToFeatureSet B (FeatureSetToString B fs) = supported_features"
proof -
  show j: "FeatureSetToString B fs = join_with (CHR '','') fs"
    using assms(1) by (simp add: FeatureSetToString_def libbase_spec.Join_eq)
  have "\<Union> (set ` supported_features) \<inter> {CHR '':'', CHR '';'', CHR ''='', CHR 0x00} = {}"
    by (simp add: supported_features_def feature_names)
  then show "set (FeatureSetToString B fs) \<inter> {CHR '':'', CHR '';'', CHR ''='', CHR 0x00} = {}"
    using set_join_with [of "CHR '',''" fs] unfolding j assms(2) [symmetric] by auto
  have c: "\<forall>f \<in> supported_features. CHR '','' \<notin> set f" "[] \<notin> supported_features"
    by (simp_all add: supported_features_def feature_names)
  then have "\<forall>f \<in> set fs. CHR '','' \<notin> set f" and "fs \<noteq> [[]]"
    unfolding assms(2) [symmetric] by auto
  from StringToFeatureSet_Join [OF assms(1) this]
  show "StringToFeatureSet B (FeatureSetToString B fs) = supported_features"
    by (simp add: assms(2))
qed

text \<open>
  C37: the banner a device sends is what the host reads back: when the banner name has no colon
  and the product properties have none of the characters NUL, colon, semicolon and equals sign,
  parse\_banner sets exactly the product, model, device name and features the device advertised,
  and the connection state its banner name stands for; whatever features the transport had before
  are forgotten.
\<close>

theorem banner_roundtrip:
  assumes "libbase_spec B" and "\<not> ADB_HOST b" and "CHR '':'' \<notin> set banner"
    and "\<forall>p. set (prop p) \<inter> {CHR '':'', CHR '';'', CHR ''='', CHR 0x00} = {}"
    and "set fs = supported_features"
  shows "parse_banner B (get_connection_string B b prop banner fs) t =
    Inr (t\<lparr>product := Some (prop ''ro.product.name''), model := Some (prop ''ro.product.model''),
           device := Some (prop ''ro.product.device''), features := supported_features,
           connection_state := banner_state banner\<rparr>)"
proof -
  let ?F = "FeatureSetToString B fs"
  note F = supported_features_text [OF assms(1,5)]
  have chars: "c \<in> {CHR '':'', CHR '';'', CHR ''='', CHR 0x00} \<Longrightarrow> c \<notin> set (prop p) \<and> c \<notin> set ?F" for c p
    using assms(4) F(2) by blast
  define ps where "ps = map (\<lambda>p. kv p (prop p)) cnxn_props @ [kv ''features'' ?F]"
  define J where "J = join_with (CHR '';'') ps"
  have ps: "ps \<noteq> []" "\<Union> (set ` set ps) \<inter> {CHR '':'', CHR '';'', CHR 0x00} = {}"
    using chars by (auto simp: ps_def cnxn_props_def)
  have J: "CHR 0x00 \<notin> set J" "CHR '':'' \<notin> set J"
    using set_join_with [of "CHR '';''" ps] ps(2) by (auto simp: J_def)
  have str: "get_connection_string B b prop banner fs = banner @ ''::'' @ J"
    using assms(1,2) chars J(1)
    by (simp add: get_connection_string_def libbase_spec.Join_eq c_str_id J_def ps_def kv_def Let_def)
  have "set banner \<inter> {CHR '':''} = {}" using assms(3) by simp
  then have pieces: "Split B (banner @ ''::'' @ J) '':'' = [banner, [], J]"
    using assms(1) J(2) split_at_append [of banner "{CHR '':''}" "CHR '':''" "'':'' @ J"]
    by (simp add: libbase_spec.Split_eq split_at_no_delim)
  have props: "Split B J '';'' = ps"
    using assms(1) ps split_join [of ps "CHR '';''"] unfolding J_def
    by (auto simp: libbase_spec.Split_eq)
  have "fold (banner_prop B) ps (SetFeatures B [] t) =
    t\<lparr>product := Some (prop ''ro.product.name''), model := Some (prop ''ro.product.model''),
      device := Some (prop ''ro.product.device''), features := supported_features\<rparr>"
    using chars F(3) unfolding ps_def cnxn_props_def
    by (simp add: SetFeatures_def c_str_id banner_prop_kv [OF assms(1)])
  then show ?thesis
    unfolding str parse_banner_def pieces by (simp add: props)
qed

definition demo_props :: "string \<Rightarrow> string" where
  "demo_props p = (if p = ''ro.product.name'' then ''sailfish''
     else if p = ''ro.product.model'' then ''Pixel'' else ''marlin'')"

theorem banner_roundtrip_witness:
  "parse_banner libbase_ref
     (get_connection_string libbase_ref \<lparr>ADB_HOST = False, ADB_LINUX = True, ADB_WINDOWS = False\<rparr>
        demo_props ''recovery'' [''cmd'', ''stat_v2'', ''shell_v2'']) (new_atransport kCsOffline) =
   Inr ((new_atransport kCsOffline)\<lparr>product := Some ''sailfish'', model := Some ''Pixel'',
     device := Some ''marlin'', features := supported_features, connection_state := kCsRecovery\<rparr>)"
proof -
  have fs: "set [''cmd'', ''stat_v2'', ''shell_v2''] = supported_features"
    by (auto simp: supported_features_def feature_names)
  have pr: "\<forall>p. set (demo_props p) \<inter> {CHR '':'', CHR '';'', CHR ''='', CHR 0x00} = {}"
    by (simp add: demo_props_def)
  show ?thesis
    using banner_roundtrip [OF base_ref.libbase_spec_axioms _ _ pr fs,
        of "\<lparr>ADB_HOST = False, ADB_LINUX = True, ADB_WINDOWS = False\<rparr>" "''recovery''"]
    by (simp add: demo_props_def [of "''ro.product.name''"] demo_props_def [of "''ro.product.model''"]
        demo_props_def [of "''ro.product.device''"] banner_state_def)
qed

end
