(* ===== verification/Adb_Bytes.thy ===== *)
theory Adb_Bytes
  imports Adb_Prelude
begin

text \<open>Integers in memory and on the wire: a fixed number of bytes, least significant first.\<close>

fun le_bytes :: "nat \<Rightarrow> nat \<Rightarrow> string" where
  "le_bytes 0 n = []"
| "le_bytes (Suc k) n = char_of (n mod 256) # le_bytes k (n div 256)"

fun le_val :: "string \<Rightarrow> nat" where
  "le_val [] = 0"
| "le_val (c # cs) = of_char c + 256 * le_val cs"

definition le32 :: "nat \<Rightarrow> string" where "le32 n = le_bytes 4 n"
definition le32_val :: "string \<Rightarrow> nat" where "le32_val s = le_val (take 4 s)"

lemma length_le_bytes [simp]: "length (le_bytes k n) = k"
  by (induction k arbitrary: n) simp_all

lemma le_val_le_bytes: "le_val (le_bytes k n) = n mod 256 ^ k"
  by (induction k arbitrary: n) (simp_all add: mod_mult2_eq)

lemma of_char_bound: "of_char c < (256 :: nat)"
  by (cases c) (simp split: if_splits)

lemma le_bytes_le_val: "le_bytes (length s) (le_val s) = s"
proof (induction s)
  case Nil
  then show ?case by simp
next
  case (Cons c s)
  have "(of_char c + 256 * le_val s) mod 256 = (of_char c :: nat)"
    and "(of_char c + 256 * le_val s) div 256 = le_val s"
    using of_char_bound [of c] by simp_all
  then show ?case using Cons by (simp del: of_char_mod_256 char_of_mod_256)
qed

lemma le_val_bound: "le_val s < 256 ^ length s"
proof (induction s)
  case Nil
  then show ?case by simp
next
  case (Cons c s)
  have "of_char c + 256 * le_val s < 256 * (le_val s + 1)" using of_char_bound [of c] by simp
  also have "\<dots> \<le> 256 * 256 ^ length s" using Cons by (intro mult_le_mono2) simp
  finally show ?case by simp
qed

lemma length_le32 [simp]: "length (le32 n) = 4"
  by (simp add: le32_def)

lemma le32_nonempty [simp]: "le32 n \<noteq> []"
  using length_le32 [of n] by (metis list.size(3) zero_neq_numeral)

lemma le32_val_append [simp]: "length a = 4 \<Longrightarrow> le32_val (a @ b) = le32_val a"
  by (simp add: le32_val_def)

lemma le32_val_le32: "n < 2 ^ 32 \<Longrightarrow> le32_val (le32 n) = n"
  by (simp add: le32_val_def le32_def le_val_le_bytes)

lemma le32_val_bound: "le32_val s < 2 ^ 32"
proof -
  have "le_val (take 4 s) < 256 ^ length (take 4 s)" by (rule le_val_bound)
  also have "\<dots> \<le> 256 ^ 4" by (rule power_increasing) simp_all
  finally show ?thesis by (simp add: le32_val_def)
qed

lemma le32_le32_val: "length s = 4 \<Longrightarrow> le32 (le32_val s) = s"
  using le_bytes_le_val [of s] by (simp add: le32_def le32_val_def)

end
