(* ===== verification/Adb_Utils.thy ===== *)
theory Adb_Utils
  imports Adb_IO
begin

text \<open>
  adb_utils.cpp: quoting an argument for the device's shell, creating a directory hierarchy,
  the hexadecimal dump of trace output, and the check of forwarding targets.
\<close>

section \<open>escape_arg\<close>

definition str_insert :: "nat \<Rightarrow> string \<Rightarrow> string \<Rightarrow> string" where
  "str_insert i t r = take i r @ t @ drop i r"

text \<open>
  The loop runs over the indices of \<open>s\<close> and edits \<open>result\<close>; after an insertion the index is
  advanced by two, and by one more at the end of the iteration.
\<close>

function escape_arg_loop :: "string \<Rightarrow> nat \<Rightarrow> string \<Rightarrow> string" where
  "escape_arg_loop s i result =
    (if i < length s then
       if s ! i = CHR 0x27
       then escape_arg_loop s (i + 2 + 1) (str_insert i [CHR 0x27, CHR 0x5C, CHR 0x27] result)
       else escape_arg_loop s (i + 1) result
     else result)"
  by pat_completeness auto
termination
  by (relation "measure (\<lambda>(s, i, r). length s - i)") auto

declare escape_arg_loop.simps [simp del]

definition escape_arg :: "string \<Rightarrow> string" where
  "escape_arg s = [CHR 0x27] @ escape_arg_loop s 0 s @ [CHR 0x27]"

text \<open>
  How a POSIX shell reads one word: outside quotes a backslash takes the next character
  literally and a quote opens a quoted part; inside quotes every character up to the next quote
  is literal. Any other unquoted character (blanks, operators) is not part of this fragment and
  gives None, as does an unterminated quote.
\<close>

fun sh_word :: "bool \<Rightarrow> string \<Rightarrow> string option" where
  "sh_word inq [] = (if inq then None else Some [])"
| "sh_word True (c # cs) = (if c = CHR 0x27 then sh_word False cs else map_option ((#) c) (sh_word True cs))"
| "sh_word False (c # cs) =
     (if c = CHR 0x27 then sh_word True cs
      else if c = CHR 0x5C then
        (case cs of [] \<Rightarrow> None | d # ds \<Rightarrow> map_option ((#) d) (sh_word False ds))
      else None)"

lemma escape_arg_loop_no_quote:
  "(\<forall>k < length s. i \<le> k \<longrightarrow> s ! k \<noteq> CHR 0x27) \<Longrightarrow> escape_arg_loop s i r = r"
proof (induction s i r rule: escape_arg_loop.induct)
  case (1 s i r)
  show ?case
  proof (cases "i < length s")
    case True
    with "1.prems" have "s ! i \<noteq> CHR 0x27" by blast
    with True "1.IH"(2) "1.prems" show ?thesis by (simp add: escape_arg_loop.simps [of s i r])
  next
    case False
    then show ?thesis by (simp add: escape_arg_loop.simps [of s i r])
  qed
qed

lemma escape_arg_loop_skip:
  "i \<le> j \<Longrightarrow> j \<le> length s \<Longrightarrow> (\<forall>k < j. i \<le> k \<longrightarrow> s ! k \<noteq> CHR 0x27) \<Longrightarrow>
   escape_arg_loop s i r = escape_arg_loop s j r"
proof (induction "j - i" arbitrary: i)
  case 0
  then show ?case by simp
next
  case (Suc n)
  then have "i < j" by simp
  with Suc.prems have "s ! i \<noteq> CHR 0x27" and "i < length s" by auto
  then have "escape_arg_loop s i r = escape_arg_loop s (Suc i) r"
    by (simp add: escape_arg_loop.simps [of s i r])
  also have "\<dots> = escape_arg_loop s j r"
    using Suc.hyps Suc.prems \<open>i < j\<close> by (intro Suc.hyps(1)) auto
  finally show ?case .
qed

lemma sh_word_quoted:
  "CHR 0x27 \<notin> set s \<Longrightarrow> sh_word True (s @ CHR 0x27 # t) = map_option ((@) s) (sh_word False t)"
proof (induction s)
  case Nil
  then show ?case by (simp add: option.map_ident_strong)
next
  case (Cons c s)
  then show ?case by (auto simp: option.map_comp comp_def intro!: option.map_cong)
qed

lemma single_quote_split:
  assumes "count_list s c = Suc 0"
  shows "\<exists>a b. s = a @ c # b \<and> c \<notin> set a \<and> c \<notin> set b"
proof -
  from assms have "c \<in> set s" by (metis count_notin nat.distinct(1))
  then obtain a b where s: "s = a @ c # b" and a: "c \<notin> set a" by (meson split_list_first)
  with assms have "count_list b c = 0" by simp
  then have "c \<notin> set b" by (simp add: count_list_0_iff)
  with s a show ?thesis by blast
qed

text \<open>
  An argument with at most one single quote comes out of escape_arg as one shell word that
  the shell reads back as exactly the argument.
\<close>

lemma escape_arg_one_quote:
  assumes "count_list s (CHR 0x27) \<le> 1"
  shows "sh_word False (escape_arg s) = Some s"
proof (cases "count_list s (CHR 0x27) = 0")
  case True
  then have n: "CHR 0x27 \<notin> set s" by (simp add: count_list_0_iff)
  then have "escape_arg_loop s 0 s = s"
    by (intro escape_arg_loop_no_quote) (metis nth_mem)
  then show ?thesis using sh_word_quoted [OF n, of "[]"] by (simp add: escape_arg_def)
next
  case False
  with assms have "count_list s (CHR 0x27) = Suc 0" by simp
  from single_quote_split [OF this] obtain a b where
    s: "s = a @ CHR 0x27 # b" and a: "CHR 0x27 \<notin> set a" and b: "CHR 0x27 \<notin> set b" by blast
  have "escape_arg_loop s 0 s = escape_arg_loop s (length a) s"
    using a by (intro escape_arg_loop_skip) (auto simp: s nth_append dest: nth_mem)
  also have "\<dots> = escape_arg_loop s (length a + 2 + 1)
      (str_insert (length a) [CHR 0x27, CHR 0x5C, CHR 0x27] s)"
    by (subst escape_arg_loop.simps) (simp add: s)
  also have "\<dots> = str_insert (length a) [CHR 0x27, CHR 0x5C, CHR 0x27] s"
  proof (rule escape_arg_loop_no_quote, intro allI impI)
    fix k assume "k < length s" and "length a + 2 + 1 \<le> k"
    then have "s ! k = b ! (k - length a - 1)" and "k - length a - 1 < length b"
      by (auto simp: s nth_append nth_Cons')
    with b show "s ! k \<noteq> CHR 0x27" by (metis nth_mem)
  qed
  finally have "escape_arg s =
      CHR 0x27 # a @ CHR 0x27 # CHR 0x5C # CHR 0x27 # CHR 0x27 # b @ CHR 0x27 # []"
    by (simp add: escape_arg_def str_insert_def s)
  then show ?thesis
    using sh_word_quoted [OF a] sh_word_quoted [OF b, of "[]"] by (simp add: s)
qed

text \<open>
  With a second quote the word is no longer the argument. The index of the loop walks over
  the argument but the insertions go into the growing result, and the two extra steps skip
  characters of the argument, so the second quote of \<open>a'b'c\<close> stays unescaped and the shell is
  left inside an open quotation.
\<close>

theorem escape_arg_two_quotes_broken:
  "escape_arg [CHR ''a'', CHR 0x27, CHR ''b'', CHR 0x27, CHR ''c''] =
     [CHR 0x27, CHR ''a'', CHR 0x27, CHR 0x5C, CHR 0x27, CHR 0x27, CHR ''b'', CHR 0x27, CHR ''c'', CHR 0x27]
   \<and> sh_word False (escape_arg [CHR ''a'', CHR 0x27, CHR ''b'', CHR 0x27, CHR ''c'']) = None"
  by (simp add: escape_arg_def escape_arg_loop.simps str_insert_def)

section \<open>mkdirs\<close>

text \<open>
  The file system as far as mkdirs sees it: which paths exist and whether they are directories
  (links followed), and how each mkdir call ends, chosen by the environment: it succeeds, it
  fails, or another process creates the directory first.
\<close>

datatype mkdir_resp = MkOk | MkRace | MkErr errno_t

record filesys =
  nodes :: "string \<Rightarrow> bool option"   \<comment> \<open>Some True: a directory\<close>
  mkdir_resp :: "string \<Rightarrow> mkdir_resp"

definition directory_exists :: "filesys \<Rightarrow> string \<Rightarrow> bool" where
  "directory_exists fs path \<longleftrightarrow> nodes fs path = Some True"

definition EEXIST :: errno_t where "EEXIST = EOTHER 17"

definition adb_mkdir :: "filesys \<Rightarrow> string \<Rightarrow> errno_t option \<times> filesys" where
  "adb_mkdir fs path =
    (if nodes fs path \<noteq> None then (Some EEXIST, fs)
     else (case mkdir_resp fs path of
             MkOk \<Rightarrow> (None, fs\<lparr>nodes := (nodes fs)(path \<mapsto> True)\<rparr>)
           | MkRace \<Rightarrow> (Some EEXIST, fs\<lparr>nodes := (nodes fs)(path \<mapsto> True)\<rparr>)
           | MkErr e \<Rightarrow> (Some e, fs)))"

fun mkdirs :: "libbase \<Rightarrow> nat \<Rightarrow> filesys \<Rightarrow> string \<Rightarrow> (bool \<times> errno_t \<times> filesys) res" where
  "mkdirs B 0 fs path = Inl OutOfFuel"
| "mkdirs B (Suc fuel) fs path =
    (if directory_exists fs path then Inr (True, ENONE, fs)
     else let parent = Dirname B path in
       if parent = path then Inr (False, ENOENT, fs)
       else bindR (mkdirs B fuel fs parent) (\<lambda>(ok, e, fs1).
         if \<not> ok then Inr (False, e, fs1)
         else (case adb_mkdir fs1 path of
                 (Some e2, fs2) \<Rightarrow>
                   if directory_exists fs2 path then Inr (True, e2, fs2) else Inr (False, e2, fs2)
               | (None, fs2) \<Rightarrow> Inr (True, ENONE, fs2))))"

lemma adb_mkdir_nodes:
  assumes "adb_mkdir fs path = (e, fs')"
  shows "nodes fs q = Some d \<Longrightarrow> nodes fs' q = Some d"
    and "nodes fs q = None \<Longrightarrow> nodes fs' q = Some d \<Longrightarrow> d"
    and "e = None \<Longrightarrow> nodes fs' path = Some True"
  using assms by (auto simp: adb_mkdir_def split: if_splits mkdir_resp.splits)

lemma mkdirs_effect:
  "mkdirs B n fs path = Inr (ok, e, fs') \<Longrightarrow>
   (ok \<longrightarrow> directory_exists fs' path) \<and>
   (\<forall>q d. nodes fs q = Some d \<longrightarrow> nodes fs' q = Some d) \<and>
   (\<forall>q d. nodes fs q = None \<longrightarrow> nodes fs' q = Some d \<longrightarrow> d)"
proof (induction n arbitrary: fs path ok e fs')
  case 0
  then show ?case by simp
next
  case (Suc n)
  show ?case
  proof (cases "directory_exists fs path \<or> Dirname B path = path")
    case True
    with Suc.prems show ?thesis by (auto simp: Let_def split: if_splits)
  next
    case False
    with Suc.prems obtain ok1 e1 fs1 where
      rec: "mkdirs B n fs (Dirname B path) = Inr (ok1, e1, fs1)"
      by (cases "mkdirs B n fs (Dirname B path)") (auto simp: Let_def)
    with False Suc.prems have
      rest: "(if \<not> ok1 then Inr (False, e1, fs1)
         else (case adb_mkdir fs1 path of
                 (Some e2, fs2) \<Rightarrow>
                   if directory_exists fs2 path then Inr (True, e2, fs2) else Inr (False, e2, fs2)
               | (None, fs2) \<Rightarrow> Inr (True, ENONE, fs2))) =
         (Inr (ok, e, fs') :: (bool \<times> errno_t \<times> filesys) res)"
      by (simp add: Let_def)
    note IH = Suc.IH [OF rec]
    show ?thesis
    proof (cases ok1)
      case False
      with rest IH show ?thesis by auto
    next
      case True
      obtain r fs2 where mk: "adb_mkdir fs1 path = (r, fs2)" by force
      note N = adb_mkdir_nodes [OF mk]
      have fs': "fs' = fs2" using rest True mk by (auto split: option.splits if_splits)
      have "ok \<longrightarrow> directory_exists fs2 path"
        using rest True mk N(3) by (auto simp: directory_exists_def split: option.splits if_splits)
      moreover have "nodes fs2 q = Some d" if "nodes fs q = Some d" for q d
        using that IH N(1) by blast
      moreover have "d" if "nodes fs q = None" "nodes fs2 q = Some d" for q d
        using that IH N(1,2) by (cases "nodes fs1 q") (metis option.inject)+
      ultimately show ?thesis using fs' by blast
    qed
  qed
qed

lemma mkdirs_Suc_Inr:
  assumes "directory_exists fs path \<or> Dirname B path = path \<or> (\<exists>r. mkdirs B n fs (Dirname B path) = Inr r)"
  shows "\<exists>r. mkdirs B (Suc n) fs path = Inr r"
  using assms
  by (cases "mkdirs B n fs (Dirname B path)")
     (auto simp: Let_def split: prod.splits option.splits)

context libbase_spec
begin

text \<open>The walk up the path ends: \<open>length path + 2\<close> levels are enough.\<close>

lemma mkdirs_returns: "length path + 2 \<le> n \<Longrightarrow> \<exists>r. mkdirs B n fs path = Inr r"
proof (induction n arbitrary: path)
  case 0
  then show ?case by simp
next
  case (Suc n)
  then obtain m where m: "n = Suc m" by (cases n) auto
  consider "Dirname B path = path" | "Dirname B path = ''.''" | "length (Dirname B path) < length path"
    using Dirname_up by blast
  then show ?case
  proof cases
    case 2
    have "\<exists>r. mkdirs B n fs ''.'' = Inr r"
      unfolding m by (rule mkdirs_Suc_Inr) (simp add: Dirname_dot)
    with 2 show ?thesis by (intro mkdirs_Suc_Inr) simp
  next
    case 3
    with Suc show ?thesis by (intro mkdirs_Suc_Inr) simp
  next
    case 1
    then show ?thesis by (intro mkdirs_Suc_Inr) simp
  qed
qed

end

text \<open>
  Mkdirs returns for every path (with a libbase whose Dirname goes up), and when it reports
  success the path is a directory; on every outcome what existed before is unchanged and what is
  new is a directory.
\<close>

theorem mkdirs_correct:
  assumes "libbase_spec B"
  shows "\<exists>ok e fs'. mkdirs B (length path + 2) fs path = Inr (ok, e, fs') \<and>
    (ok \<longrightarrow> directory_exists fs' path) \<and>
    (\<forall>q d. nodes fs q = Some d \<longrightarrow> nodes fs' q = Some d) \<and>
    (\<forall>q d. nodes fs q = None \<longrightarrow> nodes fs' q = Some d \<longrightarrow> d)"
proof -
  from libbase_spec.mkdirs_returns [OF assms order_refl] obtain ok e fs' where
    r: "mkdirs B (length path + 2) fs path = Inr (ok, e, fs')" by (metis prod_cases3)
  with mkdirs_effect [OF r] show ?thesis by blast
qed

definition demo_fs :: filesys where
  "demo_fs = \<lparr>nodes = (\<lambda>p. if p = ''/'' then Some True else None), mkdir_resp = (\<lambda>_. MkOk)\<rparr>"

theorem mkdirs_correct_witness:
  "\<exists>ok e fs'. mkdirs libbase_ref (length ''/a/b'' + 2) demo_fs ''/a/b'' = Inr (ok, e, fs') \<and>
    (ok \<longrightarrow> directory_exists fs' ''/a/b'') \<and>
    (\<forall>q d. nodes demo_fs q = Some d \<longrightarrow> nodes fs' q = Some d) \<and>
    (\<forall>q d. nodes demo_fs q = None \<longrightarrow> nodes fs' q = Some d \<longrightarrow> d)"
  by (rule mkdirs_correct) unfold_locales

section \<open>dump_hex and forward_targets_are_valid\<close>

definition dump_hex :: "string \<Rightarrow> string" where
  "dump_hex data =
    (let truncate_len = 16; truncated = truncate_len < length data; p = take truncate_len data
     in concat (map (\<lambda>c. pad0 2 (hex_of_nat (of_char c))) p) @ '' '' @
        map (\<lambda>c. if is_print c then c else CHR ''.'') p @
        (if truncated then '' [truncated]'' else []))"

definition forward_targets_are_valid :: "libbase \<Rightarrow> string \<Rightarrow> string \<Rightarrow> string + unit" where
  "forward_targets_are_valid B source dest =
    (if StartsWith B source ''tcp:'' \<and>
        (case ParseInt B (drop 4 source) of None \<Rightarrow> True | Some port \<Rightarrow> port < 0)
     then Inl (''Invalid source port: '' @ [CHR 0x27] @ drop 4 source @ [CHR 0x27])
     else if StartsWith B dest ''tcp:'' \<and>
        (case ParseInt B (drop 4 dest) of None \<Rightarrow> True | Some port \<Rightarrow> port \<le> 0)
     then Inl (''Invalid destination port: '' @ [CHR 0x27] @ drop 4 dest @ [CHR 0x27])
     else Inr ())"

lemma dump_hex_length:
  "length (dump_hex data) = 3 * min 16 (length data) + 1 + (if 16 < length data then 12 else 0)"
proof -
  have two: "length (pad0 2 (hex_of_nat (of_char c))) = 2" for c
    using hex_of_nat_length [of "of_char c" 1] by (simp add: pad0_length)
  have "length (concat (map (\<lambda>c. pad0 2 (hex_of_nat (of_char c))) p)) = 2 * length p" for p
    by (induction p) (simp_all add: two)
  then show ?thesis by (simp add: dump_hex_def Let_def)
qed

end
