(* ===== verification/Packets.thy ===== *)
theory Packets
  imports Atransport Adb_Bytes Adb_Utils
begin

text \<open>
  Packets: the amessage and apacket structures of adb.h, their checksums, the checks every
  received packet passes (transport.cpp), and reading and writing packets on a socket
  (transport\_local.cpp) and on a USB handle (transport\_usb.cpp), and the two threads that serve
  a transport.

  \<open>p_data\<close> is the part of the packet's buffer of MAX\_PAYLOAD bytes that has been written so far;
  the rest is uninitialised, and reading it, or writing past the buffer, is a fault. \<open>p_ptr\<close> is
  an offset into the buffer.
\<close>

section \<open>Packets and checksums\<close>

definition A_SYNC :: u32 where "A_SYNC = 0x434e5953"
definition A_CNXN :: u32 where "A_CNXN = 0x4e584e43"
definition A_OPEN :: u32 where "A_OPEN = 0x4e45504f"
definition A_OKAY :: u32 where "A_OKAY = 0x59414b4f"
definition A_CLSE :: u32 where "A_CLSE = 0x45534c43"
definition A_WRTE :: u32 where "A_WRTE = 0x45545257"
definition A_AUTH :: u32 where "A_AUTH = 0x48545541"

lemmas command_defs = A_SYNC_def A_CNXN_def A_OPEN_def A_OKAY_def A_CLSE_def A_WRTE_def A_AUTH_def

record amessage =
  command :: u32
  arg0 :: u32
  arg1 :: u32
  data_length :: u32
  data_check :: u32
  magic :: u32

record apacket =
  p_len :: nat
  p_ptr :: nat
  msg :: amessage
  p_data :: string

definition zero_message :: amessage where
  "zero_message = \<lparr>command = 0, arg0 = 0, arg1 = 0, data_length = 0, data_check = 0, magic = 0\<rparr>"

definition get_apacket :: apacket where
  "get_apacket = \<lparr>p_len = 0, p_ptr = 0, msg = zero_message, p_data = []\<rparr>"

abbreviation pay_len :: "apacket \<Rightarrow> nat" where
  "pay_len p \<equiv> unat (data_length (msg p))"

text \<open>The first \<open>n\<close> bytes of the buffer, and filling it from the start.\<close>

definition packet_bytes :: "apacket \<Rightarrow> nat \<Rightarrow> string res" where
  "packet_bytes p n = (if n \<le> length (p_data p) then Inr (take n (p_data p)) else Inl OutOfBounds)"

definition put_data :: "string \<Rightarrow> apacket \<Rightarrow> apacket res" where
  "put_data d p =
    (if length d \<le> MAX_PAYLOAD then Inr (p\<lparr>p_data := d @ drop (length d) (p_data p)\<rparr>) else Inl OutOfBounds)"

fun byte_sum :: "u32 \<Rightarrow> string \<Rightarrow> u32" where
  "byte_sum acc [] = acc"
| "byte_sum acc (x # xs) = byte_sum (acc + of_nat (of_char x)) xs"

definition calculate_apacket_checksum :: "apacket \<Rightarrow> u32 res" where
  "calculate_apacket_checksum p = bindR (packet_bytes p (pay_len p)) (\<lambda>bs. Inr (byte_sum 0 bs))"

text \<open>What \<open>send_packet\<close> does to a packet before it writes its address to the transport's socket.\<close>

definition seal_packet :: "apacket \<Rightarrow> apacket res" where
  "seal_packet p0 =
    (let p = p0\<lparr>msg := (msg p0)\<lparr>magic := command (msg p0) XOR 0xffffffff\<rparr>\<rparr> in
     bindR (calculate_apacket_checksum p) (\<lambda>s. Inr (p\<lparr>msg := (msg p)\<lparr>data_check := s\<rparr>\<rparr>)))"

definition check_header :: "apacket \<Rightarrow> atransport \<Rightarrow> bool" where
  "check_header p t \<longleftrightarrow>
    (if magic (msg p) \<noteq> command (msg p) XOR 0xffffffff then False
     else if pay_len p > max_payload t then False
     else True)"

definition check_data :: "apacket \<Rightarrow> bool res" where
  "check_data p = bindR (calculate_apacket_checksum p) (\<lambda>s. Inr (s = data_check (msg p)))"

section \<open>Packets in memory: the header as bytes\<close>

definition amessage_bytes :: "amessage \<Rightarrow> string" where
  "amessage_bytes m =
    le32 (unat (command m)) @ le32 (unat (arg0 m)) @ le32 (unat (arg1 m)) @
    le32 (unat (data_length m)) @ le32 (unat (data_check m)) @ le32 (unat (magic m))"

definition word_at :: "nat \<Rightarrow> string \<Rightarrow> u32" where
  "word_at i s = of_nat (le32_val (drop i s))"

definition amessage_of_bytes :: "string \<Rightarrow> amessage" where
  "amessage_of_bytes s =
    \<lparr>command = word_at 0 s, arg0 = word_at 4 s, arg1 = word_at 8 s, data_length = word_at 12 s,
     data_check = word_at 16 s, magic = word_at 20 s\<rparr>"

section \<open>Socket transports\<close>

definition sizeof_amessage :: nat where "sizeof_amessage = 24"

definition socket_remote_read :: "atransport \<Rightarrow> apacket \<Rightarrow> fd_state \<Rightarrow> (apacket option \<times> fd_state) res" where
  "socket_remote_read t p0 f =
    (case ReadFdExactly f sizeof_amessage [] of
       (False, e, bs, f1) \<Rightarrow> Inr (None, f1)
     | (True, e, bs, f1) \<Rightarrow>
         (let p = p0\<lparr>msg := amessage_of_bytes bs\<rparr> in
          if \<not> check_header p t then Inr (None, f1)
          else (case ReadFdExactly f1 (pay_len p) [] of
             (False, e, d, f2) \<Rightarrow> bindR (put_data d p) (\<lambda>_. Inr (None, f2))
           | (True, e, d, f2) \<Rightarrow>
               bindR (put_data d p) (\<lambda>p1.
               bindR (check_data p1) (\<lambda>ok. Inr (if ok then Some p1 else None, f2))))))"

definition socket_remote_write :: "apacket \<Rightarrow> fd_state \<Rightarrow> (bool \<times> fd_state) res" where
  "socket_remote_write p f =
    bindR (packet_bytes p (pay_len p)) (\<lambda>d.
    bindR (WriteFdExactly f (amessage_bytes (msg p) @ d)) (\<lambda>(ok, e, f1). Inr (ok, f1)))"

section \<open>USB transports\<close>

text \<open>
  A USB handle answers each read with a transfer of at most the size asked for (a longer one is
  an overflow error), and each write with success or failure; \<open>None\<close> is a failed transfer.
\<close>

record usb_handle =
  usb_max_packet_size :: nat
  usb_reads :: "string option list"
  usb_writes :: "bool list"
  usb_written :: "string list"

definition usb_read :: "usb_handle \<Rightarrow> nat \<Rightarrow> string option \<times> usb_handle" where
  "usb_read h n =
    (case usb_reads h of
       [] \<Rightarrow> (None, h)
     | r # rs \<Rightarrow> ((case r of None \<Rightarrow> None | Some bs \<Rightarrow> if length bs \<le> n then Some bs else None),
                  h\<lparr>usb_reads := rs\<rparr>))"

definition usb_write :: "usb_handle \<Rightarrow> string \<Rightarrow> bool \<times> usb_handle" where
  "usb_write h bs =
    (case usb_writes h of
       [] \<Rightarrow> (False, h)
     | ok # ws \<Rightarrow> (ok, h\<lparr>usb_writes := ws, usb_written := usb_written h @ (if ok then [bs] else [])\<rparr>))"

definition UsbReadMessage :: "usb_handle \<Rightarrow> (amessage option \<times> usb_handle) res" where
  "UsbReadMessage h =
    (let usb_packet_size = usb_max_packet_size h in
     bindR (checkR (sizeof_amessage \<le> usb_packet_size) ''CHECK(usb_packet_size >= sizeof(*msg))'') (\<lambda>_.
     bindR (checkR (usb_packet_size < 4096) ''CHECK(usb_packet_size < 4096)'') (\<lambda>_.
       case usb_read h usb_packet_size of
         (None, h1) \<Rightarrow> Inr (None, h1)
       | (Some bs, h1) \<Rightarrow>
           Inr (if length bs \<noteq> sizeof_amessage then None else Some (amessage_of_bytes bs), h1))))"

definition usb_payload_len :: "nat \<Rightarrow> nat \<Rightarrow> nat" where
  "usb_payload_len usb_packet_size len =
    (let rem_size = len mod usb_packet_size in
     if rem_size \<noteq> 0 then len + (usb_packet_size - rem_size) else len)"

definition UsbReadPayload :: "usb_handle \<Rightarrow> apacket \<Rightarrow> (nat option \<times> apacket \<times> usb_handle) res" where
  "UsbReadPayload h p =
    (let usb_packet_size = usb_max_packet_size h in
     bindR (checkR (MAX_PAYLOAD mod usb_packet_size = 0) ''CHECK(sizeof(p->data) % usb_packet_size == 0)'') (\<lambda>_.
     let len = usb_payload_len usb_packet_size (pay_len p) in
     bindR (checkR (len \<le> MAX_PAYLOAD) ''CHECK(len <= sizeof(p->data))'') (\<lambda>_.
       case usb_read h len of
         (None, h1) \<Rightarrow> Inr (None, p, h1)
       | (Some bs, h1) \<Rightarrow> bindR (put_data bs p) (\<lambda>p1. Inr (Some (length bs), p1, h1)))))"

text \<open>
  The host's \<open>remote_read\<close>: -1 is None. The label \<open>err_msg\<close> gives a packet with command 0, and
  the flag says that SendConnectOnHost is called.
\<close>

definition usb_err_msg :: "apacket \<Rightarrow> atransport \<Rightarrow> usb_handle \<Rightarrow> (apacket option \<times> bool \<times> atransport \<times> usb_handle) res" where
  "usb_err_msg p t h =
    (let p1 = p\<lparr>msg := (msg p)\<lparr>command := 0\<rparr>\<rparr> in
     if connection_state t = kCsOffline then
       (case SetSendConnectOnError t of (send, t1) \<Rightarrow> Inr (Some p1, send, t1, h))
     else Inr (Some p1, False, t, h))"

definition usb_finish_read :: "apacket \<Rightarrow> atransport \<Rightarrow> usb_handle \<Rightarrow> (apacket option \<times> bool \<times> atransport \<times> usb_handle) res" where
  "usb_finish_read p t h =
    bindR (check_data p) (\<lambda>ok. if ok then Inr (Some p, False, t, h) else usb_err_msg p t h)"

definition host_usb_remote_read ::
    "apacket \<Rightarrow> atransport \<Rightarrow> usb_handle \<Rightarrow> (apacket option \<times> bool \<times> atransport \<times> usb_handle) res" where
  "host_usb_remote_read p0 t h =
    bindR (UsbReadMessage h) (\<lambda>(m, h1).
      case m of
        None \<Rightarrow> Inr (None, False, t, h1)
      | Some m \<Rightarrow>
          (let p = p0\<lparr>msg := m\<rparr> in
           if \<not> check_header p t then usb_err_msg p t h1
           else if connection_state t = kCsOffline \<and> command m \<noteq> A_CNXN \<and> command m \<noteq> A_AUTH
           then usb_err_msg p t h1
           else if data_length m \<noteq> 0 then
             bindR (UsbReadPayload h1 p) (\<lambda>(n, p1, h2).
               case n of
                 None \<Rightarrow> Inr (None, False, t, h2)
               | Some n \<Rightarrow>
                   if n \<noteq> pay_len p then usb_err_msg p1 t h2 else usb_finish_read p1 t h2)
           else usb_finish_read p t h1))"

text \<open>The device's \<open>remote_read\<close>: usb\_read there fills the whole buffer or fails.\<close>

definition device_usb_read :: "usb_handle \<Rightarrow> nat \<Rightarrow> string option \<times> usb_handle" where
  "device_usb_read h n =
    (case usb_read h n of
       (Some bs, h1) \<Rightarrow> (if length bs = n then Some bs else None, h1)
     | (None, h1) \<Rightarrow> (None, h1))"

definition device_usb_remote_read :: "apacket \<Rightarrow> atransport \<Rightarrow> usb_handle \<Rightarrow> (apacket option \<times> usb_handle) res" where
  "device_usb_remote_read p0 t h =
    (case device_usb_read h sizeof_amessage of
       (None, h1) \<Rightarrow> Inr (None, h1)
     | (Some bs, h1) \<Rightarrow>
         (let p = p0\<lparr>msg := amessage_of_bytes bs\<rparr> in
          if \<not> check_header p t then Inr (None, h1)
          else if data_length (msg p) \<noteq> 0 then
            (case device_usb_read h1 (pay_len p) of
               (None, h2) \<Rightarrow> Inr (None, h2)
             | (Some d, h2) \<Rightarrow>
                 bindR (put_data d p) (\<lambda>p1.
                 bindR (check_data p1) (\<lambda>ok. Inr (if ok then Some p1 else None, h2))))
          else bindR (check_data p) (\<lambda>ok. Inr (if ok then Some p else None, h1))))"

definition usb_remote_write :: "apacket \<Rightarrow> usb_handle \<Rightarrow> (bool \<times> usb_handle) res" where
  "usb_remote_write p h =
    (case usb_write h (amessage_bytes (msg p)) of
       (False, h1) \<Rightarrow> Inr (False, h1)
     | (True, h1) \<Rightarrow>
         if data_length (msg p) = 0 then Inr (True, h1)
         else bindR (packet_bytes p (pay_len p)) (\<lambda>d. Inr (usb_write h1 d)))"

section \<open>The threads of a transport\<close>

text \<open>
  The threads exchange packets with the main thread through a socket pair, by address. What the
  write thread reads from \<open>t->fd\<close> is a list of packets (its end is a failed read). The read
  thread's end of the pair has the answers of adb\_write to come, and the packets whose whole
  address was written: the others never reach the main thread. \<open>rd\<close> and \<open>wr\<close> are the transport's
  read and write functions on its connection. The read loop runs until a read or the hand-over of a
  packet fails, and says which (True for the read); \<open>fuel\<close> bounds its turns. Both threads end with
  kick\_transport and transport\_unref, which are operations of the registry of transports.
\<close>

record packet_chan =
  ch_answers :: "wresp list"
  ch_sent :: "apacket list"

definition sizeof_address :: nat where "sizeof_address = 8"

text \<open>The loop of \<open>write_packet\<close> over the bytes of the address that are left.\<close>

fun write_address :: "nat \<Rightarrow> wresp list \<Rightarrow> bool \<times> wresp list" where
  "write_address len ws =
    (if len = 0 then (True, ws)
     else case ws of
       [] \<Rightarrow> (False, [])
     | WErr e # ws1 \<Rightarrow> (False, ws1)
     | WAccept k # ws1 \<Rightarrow> if min k len = 0 then (False, ws1) else write_address (len - min k len) ws1)"

declare write_address.simps [simp del]

definition write_packet :: "apacket \<Rightarrow> packet_chan \<Rightarrow> bool \<times> packet_chan" where
  "write_packet p ch =
    (case write_address sizeof_address (ch_answers ch) of
       (ok, ws) \<Rightarrow> (ok, \<lparr>ch_answers = ws, ch_sent = (if ok then ch_sent ch @ [p] else ch_sent ch)\<rparr>))"

definition sync_packet :: "u32 \<Rightarrow> u32 \<Rightarrow> apacket" where
  "sync_packet a0 a1 =
    get_apacket\<lparr>msg := zero_message\<lparr>command := A_SYNC, arg0 := a0, arg1 := a1,
      magic := A_SYNC XOR 0xffffffff\<rparr>\<rparr>"

fun read_transport_loop ::
    "bool \<Rightarrow> (apacket \<Rightarrow> 'c \<Rightarrow> (apacket option \<times> 'c) res) \<Rightarrow> nat \<Rightarrow> packet_chan \<Rightarrow> 'c \<Rightarrow> (bool \<times> packet_chan \<times> 'c) res" where
  "read_transport_loop host rd 0 ch c = Inl OutOfFuel"
| "read_transport_loop host rd (Suc fuel) ch c =
    bindR (rd get_apacket c) (\<lambda>(r, c1).
      case r of
        None \<Rightarrow> Inr (True, ch, c1)
      | Some p \<Rightarrow>
          if host \<and> command (msg p) = 0 then read_transport_loop host rd fuel ch c1
          else (case write_packet p ch of
                  (False, ch1) \<Rightarrow> Inr (False, ch1, c1)
                | (True, ch1) \<Rightarrow> read_transport_loop host rd fuel ch1 c1))"

definition read_transport_thread ::
    "bool \<Rightarrow> (atransport \<Rightarrow> apacket \<Rightarrow> 'c \<Rightarrow> (apacket option \<times> 'c) res) \<Rightarrow> nat \<Rightarrow> atransport \<Rightarrow> packet_chan \<Rightarrow> 'c \<Rightarrow>
     (packet_chan \<times> atransport \<times> 'c) res" where
  "read_transport_thread host rd fuel t0 ch c =
    (let t = t0\<lparr>sync_token := sync_token t0 + 1\<rparr> in
     case write_packet (sync_packet 1 (sync_token t)) ch of
       (False, ch1) \<Rightarrow> Inr (ch1, t, c)
     | (True, ch1) \<Rightarrow>
         bindR (read_transport_loop host (rd t) fuel ch1 c) (\<lambda>(read_failed, ch2, c1).
           Inr (if read_failed then snd (write_packet (sync_packet 0 0) ch2) else ch2, t, c1)))"

fun write_transport_loop ::
    "(apacket \<Rightarrow> 'c \<Rightarrow> (bool \<times> 'c) res) \<Rightarrow> u32 \<Rightarrow> bool \<Rightarrow> apacket list \<Rightarrow> 'c \<Rightarrow> 'c res" where
  "write_transport_loop wr tok active [] c = Inr c"
| "write_transport_loop wr tok active (p # ps) c =
    (if command (msg p) = A_SYNC then
       if arg0 (msg p) = 0 then Inr c
       else write_transport_loop wr tok (if arg1 (msg p) = tok then True else active) ps c
     else if active then
       bindR (wr p c) (\<lambda>(ok, c1). if \<not> ok then Inr c1 else write_transport_loop wr tok active ps c1)
     else write_transport_loop wr tok active ps c)"

definition write_transport_thread ::
    "(apacket \<Rightarrow> 'c \<Rightarrow> (bool \<times> 'c) res) \<Rightarrow> atransport \<Rightarrow> apacket list \<Rightarrow> 'c \<Rightarrow> 'c res" where
  "write_transport_thread wr t ps c = write_transport_loop wr (sync_token t) False ps c"

section \<open>The header as bytes and back\<close>

lemma length_amessage_bytes [simp]: "length (amessage_bytes m) = sizeof_amessage"
  by (simp add: amessage_bytes_def sizeof_amessage_def)

lemma unat_u32: "unat (w :: u32) < 2 ^ 32"
  using unsigned_less [of w, where ?'a = nat] by simp

lemma word_at_le32: "length a = i \<Longrightarrow> word_at i (a @ le32 (unat w) @ b) = w"
  using le32_val_le32 [of "unat w"] unat_u32 [of w] by (simp add: word_at_def)

lemma word_at_0: "word_at 0 (le32 (unat w) @ b) = w"
  using word_at_le32 [of "[]" 0 w b] by simp

lemma amessage_of_bytes_bytes: "amessage_of_bytes (amessage_bytes m @ rest) = m"
proof -
  let ?c = "le32 (unat (command m))" and ?a = "le32 (unat (arg0 m))" and ?b = "le32 (unat (arg1 m))"
    and ?l = "le32 (unat (data_length m))" and ?k = "le32 (unat (data_check m))"
    and ?g = "le32 (unat (magic m))"
  show ?thesis
    using word_at_0 [of "command m" "?a @ ?b @ ?l @ ?k @ ?g @ rest"]
      word_at_le32 [of ?c 4 "arg0 m" "?b @ ?l @ ?k @ ?g @ rest"]
      word_at_le32 [of "?c @ ?a" 8 "arg1 m" "?l @ ?k @ ?g @ rest"]
      word_at_le32 [of "?c @ ?a @ ?b" 12 "data_length m" "?k @ ?g @ rest"]
      word_at_le32 [of "?c @ ?a @ ?b @ ?l" 16 "data_check m" "?g @ rest"]
      word_at_le32 [of "?c @ ?a @ ?b @ ?l @ ?k" 20 "magic m" rest]
    by (simp add: amessage_of_bytes_def amessage_bytes_def)
qed

lemma le32_word_at: "i + 4 \<le> length s \<Longrightarrow> le32 (unat (word_at i s)) = take 4 (drop i s)"
proof -
  assume a: "i + 4 \<le> length s"
  have "le32_val (drop i s) = le32_val (take 4 (drop i s))" by (simp add: le32_val_def)
  moreover have "unat (word_at i s) = le32_val (drop i s)"
    using le32_val_bound [of "drop i s"] by (simp add: word_at_def unat_of_nat)
  ultimately show ?thesis using a le32_le32_val [of "take 4 (drop i s)"] by simp
qed

lemma amessage_bytes_of_bytes:
  assumes "length s = sizeof_amessage"
  shows "amessage_bytes (amessage_of_bytes s) = s"
proof -
  have "s = take 4 s @ take 4 (drop 4 s) @ take 4 (drop 8 s) @ take 4 (drop 12 s) @
      take 4 (drop 16 s) @ take 4 (drop 20 s)"
    using assms take_add [of 4 20 s] take_add [of 4 16 "drop 4 s"] take_add [of 4 12 "drop 8 s"]
      take_add [of 4 8 "drop 12 s"] take_add [of 4 4 "drop 16 s"]
    by (simp add: sizeof_amessage_def)
  then show ?thesis
    using assms le32_word_at [of 0 s] le32_word_at [of 4 s] le32_word_at [of 8 s]
      le32_word_at [of 12 s] le32_word_at [of 16 s] le32_word_at [of 20 s]
    by (simp add: amessage_bytes_def amessage_of_bytes_def sizeof_amessage_def)
qed

section \<open>Reading and writing on a socket\<close>

text \<open>The bytes of a packet on the wire, and a packet that the receiving side accepts.\<close>

definition wire :: "apacket \<Rightarrow> string" where
  "wire p = amessage_bytes (msg p) @ take (pay_len p) (p_data p)"

definition acceptable :: "atransport \<Rightarrow> apacket \<Rightarrow> bool" where
  "acceptable t p \<longleftrightarrow> magic (msg p) = command (msg p) XOR 0xffffffff \<and> pay_len p \<le> max_payload t \<and>
    pay_len p \<le> length (p_data p) \<and> data_check (msg p) = byte_sum 0 (take (pay_len p) (p_data p))"

definition received :: "apacket \<Rightarrow> apacket" where
  "received p = get_apacket\<lparr>msg := msg p, p_data := take (pay_len p) (p_data p)\<rparr>"

lemma seal_packet_acceptable:
  assumes "seal_packet p0 = Inr p" and "pay_len p0 \<le> max_payload t"
  shows "acceptable t p" and "pay_len p = pay_len p0" and "p_data p = p_data p0"
    and "command (msg p) = command (msg p0)" and "arg0 (msg p) = arg0 (msg p0)"
    and "arg1 (msg p) = arg1 (msg p0)"
  using assms
  by (auto simp: seal_packet_def calculate_apacket_checksum_def packet_bytes_def acceptable_def Let_def
      split: if_splits)

lemma seal_packet_total:
  "pay_len p0 \<le> length (p_data p0) \<Longrightarrow> \<exists>p. seal_packet p0 = Inr p"
  by (simp add: seal_packet_def calculate_apacket_checksum_def packet_bytes_def Let_def)

lemma check_data_full:
  "length (p_data p) = pay_len p \<Longrightarrow>
   check_data p = Inr (byte_sum 0 (p_data p) = data_check (msg p))"
  by (simp add: check_data_def calculate_apacket_checksum_def packet_bytes_def)

lemma socket_remote_write_wire:
  assumes "socket_remote_write p f = Inr (True, f')"
  shows "written f' = written f @ wire p" and "pay_len p \<le> length (p_data p)"
  using assms
  by (auto simp: socket_remote_write_def packet_bytes_def wire_def split: if_splits
      dest!: WriteFdExactly_prefix)

lemma socket_remote_read_wire:
  assumes "stream (rscript f) = wire p @ rest" and "acceptable t p" and "max_payload t \<le> MAX_PAYLOAD"
  shows "\<exists>f'. socket_remote_read t get_apacket f = Inr (Some (received p), f') \<and>
    stream (rscript f') = rest"
proof -
  let ?d = "take (pay_len p) (p_data p)"
  have len: "length ?d = pay_len p" using assms(2) by (simp add: acceptable_def)
  from ReadFdExactly_available [of sizeof_amessage f "[]"] assms(1) obtain f1 where
    f1: "ReadFdExactly f sizeof_amessage [] = (True, ENONE, amessage_bytes (msg p), f1)"
      "stream (rscript f1) = ?d @ rest" by (auto simp: wire_def)
  from ReadFdExactly_available [of "pay_len p" f1 "[]"] f1(2) len obtain f2 where
    f2: "ReadFdExactly f1 (pay_len p) [] = (True, ENONE, ?d, f2)" "stream (rscript f2) = rest" by auto
  have m: "amessage_of_bytes (amessage_bytes (msg p)) = msg p"
    using amessage_of_bytes_bytes [of "msg p" "[]"] by simp
  have put: "put_data ?d (get_apacket\<lparr>msg := msg p\<rparr>) = Inr (received p)"
    using assms(2,3) len
    by (simp add: put_data_def get_apacket_def received_def acceptable_def)
  have "check_data (received p) = Inr True"
    using assms(2) len check_data_full [of "received p"]
    by (simp add: received_def acceptable_def)
  moreover have "check_header (get_apacket\<lparr>msg := msg p\<rparr>) t"
    using assms(2) by (simp add: check_header_def acceptable_def)
  ultimately show ?thesis
    using f1 f2 m put by (simp add: socket_remote_read_def Let_def)
qed

text \<open>Whatever arrives, a read that gives a packet consumed exactly its wire form.\<close>

lemma ReadFdExactly_result:
  assumes "ReadFdExactly f n [] = (ok, e, bs, f')"
  shows "length bs \<le> n" and "ok \<Longrightarrow> length bs = n \<and> stream (rscript f) = bs @ stream (rscript f')"
proof -
  have "length bs \<le> n \<and> (ok \<longrightarrow> length bs = n \<and> stream (rscript f) = bs @ stream (rscript f'))"
  proof (cases "n \<le> length (stream (rscript f))")
    case True
    with ReadFdExactly_available [OF True, of "[]"] assms show ?thesis by auto
  next
    case False
    with ReadFdExactly_short [of f n "[]"] assms show ?thesis by auto
  qed
  then show "length bs \<le> n" and "ok \<Longrightarrow> length bs = n \<and> stream (rscript f) = bs @ stream (rscript f')"
    by auto
qed

lemma socket_remote_read_safe:
  assumes "max_payload t \<le> MAX_PAYLOAD"
  shows "\<exists>r f'. socket_remote_read t get_apacket f = Inr (r, f') \<and>
    (\<forall>q. r = Some q \<longrightarrow> acceptable t q \<and> received q = q \<and>
       stream (rscript f) = wire q @ stream (rscript f'))"
proof -
  obtain ok e bs f1 where r1: "ReadFdExactly f sizeof_amessage [] = (ok, e, bs, f1)"
    by (cases "ReadFdExactly f sizeof_amessage []")
  let ?p = "get_apacket\<lparr>msg := amessage_of_bytes bs\<rparr>"
  show ?thesis
  proof (cases "ok \<and> check_header ?p t")
    case False
    then show ?thesis using r1 by (cases ok) (auto simp: socket_remote_read_def Let_def)
  next
    case True
    obtain ok2 e2 d f2 where r2: "ReadFdExactly f1 (pay_len ?p) [] = (ok2, e2, d, f2)"
      by (cases "ReadFdExactly f1 (pay_len ?p) []")
    from True have hdr: "magic (msg ?p) = command (msg ?p) XOR 0xffffffff" "pay_len ?p \<le> max_payload t"
      by (auto simp: check_header_def split: if_splits)
    have "length d \<le> MAX_PAYLOAD" using ReadFdExactly_result(1) [OF r2] hdr(2) assms by simp
    then have put: "put_data d ?p = Inr (?p\<lparr>p_data := d\<rparr>)" by (simp add: put_data_def get_apacket_def)
    let ?q = "?p\<lparr>p_data := d\<rparr>"
    show ?thesis
    proof (cases ok2)
      case False
      with True r1 r2 put show ?thesis by (auto simp: socket_remote_read_def Let_def)
    next
      case ok2: True
      have d: "length d = pay_len ?p" "stream (rscript f1) = d @ stream (rscript f2)"
        using ReadFdExactly_result(2) [OF r2] ok2 by auto
      have b: "length bs = sizeof_amessage" "stream (rscript f) = bs @ stream (rscript f1)"
        using ReadFdExactly_result(2) [OF r1] True by auto
      have cd: "check_data ?q = Inr (byte_sum 0 d = data_check (msg ?q))"
        using d(1) check_data_full [of ?q] by simp
      have "socket_remote_read t get_apacket f =
          Inr (if byte_sum 0 d = data_check (msg ?q) then Some ?q else None, f2)"
        using True r1 r2 ok2 put cd by (simp add: socket_remote_read_def Let_def)
      moreover have "received ?q = ?q" using d(1) by (simp add: received_def get_apacket_def)
      moreover have "stream (rscript f) = wire ?q @ stream (rscript f2)"
        using b d amessage_bytes_of_bytes [OF b(1)] by (simp add: wire_def)
      ultimately show ?thesis using hdr d(1) by (auto simp: acceptable_def)
    qed
  qed
qed

text \<open>
  C32: reading a packet from a socket never writes outside the packet's buffer and gives exactly the
  undamaged packets, whatever bytes arrive: when the transport's payload limit is at most
  MAX\_PAYLOAD, \<open>remote_read\<close> returns, and a packet it returns has the magic number of its command,
  a payload within the transport's limit and the right checksum, and is exactly the next bytes of
  the stream; and when the stream begins with such a packet, it is returned, however the bytes were
  cut into pieces, and the stream is left just behind it.
\<close>

theorem remote_read_validates:
  assumes "max_payload t \<le> MAX_PAYLOAD"
  shows "\<exists>r f'. socket_remote_read t get_apacket f = Inr (r, f') \<and>
    (\<forall>q. r = Some q \<longrightarrow>
       magic (msg q) = NOT (command (msg q)) \<and> pay_len q \<le> max_payload t \<and>
       length (p_data q) = pay_len q \<and> data_check (msg q) = byte_sum 0 (p_data q) \<and>
       stream (rscript f) = amessage_bytes (msg q) @ p_data q @ stream (rscript f')) \<and>
    (\<forall>m d rest. magic m = NOT (command m) \<longrightarrow> unat (data_length m) = length d \<longrightarrow> length d \<le> max_payload t \<longrightarrow>
       data_check m = byte_sum 0 d \<longrightarrow> stream (rscript f) = amessage_bytes m @ d @ rest \<longrightarrow>
       r = Some (get_apacket\<lparr>msg := m, p_data := d\<rparr>) \<and> stream (rscript f') = rest)"
proof -
  have x: "w XOR 0xffffffff = NOT w" for w :: u32
  proof -
    have "(0xffffffff :: u32) = - 1" by simp
    then show ?thesis by (simp only: bit.xor_one_right)
  qed
  obtain r f' where r: "socket_remote_read t get_apacket f = Inr (r, f')"
    and q: "\<forall>q. r = Some q \<longrightarrow> acceptable t q \<and> received q = q \<and>
       stream (rscript f) = wire q @ stream (rscript f')"
    using socket_remote_read_safe [OF assms] by blast
  have "length (p_data q) \<le> pay_len q" if "received q = q" for q
    using arg_cong [OF that, of p_data] by (simp add: received_def)
  with q have valid: "\<forall>q. r = Some q \<longrightarrow>
       magic (msg q) = NOT (command (msg q)) \<and> pay_len q \<le> max_payload t \<and>
       length (p_data q) = pay_len q \<and> data_check (msg q) = byte_sum 0 (p_data q) \<and>
       stream (rscript f) = amessage_bytes (msg q) @ p_data q @ stream (rscript f')"
    unfolding acceptable_def wire_def x by (fastforce simp: x)
  have taken: "r = Some (get_apacket\<lparr>msg := m, p_data := d\<rparr>) \<and> stream (rscript f') = rest"
    if m: "magic m = NOT (command m)" "unat (data_length m) = length d" "length d \<le> max_payload t" "data_check m = byte_sum 0 d"
      and str: "stream (rscript f) = amessage_bytes m @ d @ rest" for m d rest
  proof -
    let ?p = "get_apacket\<lparr>msg := m, p_data := d\<rparr>"
    have acc: "acceptable t ?p" using m by (simp add: acceptable_def x)
    have rcv: "received ?p = ?p" using m(2) by (simp add: received_def)
    have "stream (rscript f) = wire ?p @ rest" using str m(2) by (simp add: wire_def)
    from socket_remote_read_wire [OF this acc assms] show ?thesis unfolding rcv using r by auto
  qed
  show ?thesis using r valid taken by blast
qed

section \<open>From the write thread of one side to the read thread of the other\<close>

text \<open>The packets a write thread passes on: those after a matching SYNC and before SYNC offline.\<close>

fun sendable :: "u32 \<Rightarrow> bool \<Rightarrow> apacket list \<Rightarrow> apacket list" where
  "sendable tok active [] = []"
| "sendable tok active (p # ps) =
    (if command (msg p) = A_SYNC then
       if arg0 (msg p) = 0 then [] else sendable tok (active \<or> arg1 (msg p) = tok) ps
     else if active then p # sendable tok active ps else sendable tok active ps)"

lemma length_wire:
  "pay_len p \<le> length (p_data p) \<Longrightarrow> length (wire p) = sizeof_amessage + pay_len p"
  by (simp add: wire_def)

lemma socket_remote_write_prefix:
  assumes "socket_remote_write p f = Inr (ok, f')"
  shows "\<exists>w. written f' = written f @ w \<and> prefix w (wire p) \<and> (ok \<longrightarrow> w = wire p)"
proof -
  from assms obtain e where
    e: "WriteFdExactly f (wire p) = Inr (ok, e, f')"
    by (auto simp: socket_remote_write_def packet_bytes_def wire_def split: if_splits)
  from WriteFdExactly_prefix [OF this] show ?thesis
    by (metis take_all_iff take_is_prefix order_refl)
qed

lemma write_transport_loop_prefix:
  "write_transport_loop socket_remote_write tok active ps f = Inr f' \<Longrightarrow>
   \<exists>w. written f' = written f @ w \<and> prefix w (concat (map wire (sendable tok active ps)))"
proof (induction ps arbitrary: active f)
  case Nil
  then show ?case by simp
next
  case (Cons p ps)
  show ?case
  proof (cases "command (msg p) \<noteq> A_SYNC \<and> active")
    case False
    then show ?thesis using Cons by (auto split: if_splits)
  next
    case True
    with Cons.prems obtain ok f1 where f1: "socket_remote_write p f = Inr (ok, f1)"
      and rest: "if \<not> ok then f1 = f' else write_transport_loop socket_remote_write tok active ps f1 = Inr f'"
      by (auto split: if_splits)
    obtain w where w: "written f1 = written f @ w" "prefix w (wire p)" "ok \<longrightarrow> w = wire p"
      using socket_remote_write_prefix [OF f1] by blast
    show ?thesis
    proof (cases ok)
      case False
      with rest w True show ?thesis by (auto intro: prefix_prefix)
    next
      case okT: True
      with rest have "write_transport_loop socket_remote_write tok active ps f1 = Inr f'" by simp
      from Cons.IH [OF this] obtain v where
        "written f' = written f1 @ v" "prefix v (concat (map wire (sendable tok active ps)))" by blast
      with w okT True show ?thesis by (intro exI [of _ "wire p @ v"]) simp
    qed
  qed
qed

text \<open>A stream that stops inside a packet gives no packet.\<close>

lemma socket_remote_read_cut:
  assumes "strict_prefix (stream (rscript f)) (wire p)" and "acceptable t p" and "max_payload t \<le> MAX_PAYLOAD"
  shows "\<exists>f'. socket_remote_read t get_apacket f = Inr (None, f')"
proof -
  obtain r f' where r: "socket_remote_read t get_apacket f = Inr (r, f')"
    and q: "\<forall>q. r = Some q \<longrightarrow> acceptable t q \<and> received q = q \<and>
       stream (rscript f) = wire q @ stream (rscript f')"
    using socket_remote_read_safe [OF assms(3)] by blast
  have "r = None"
  proof (rule ccontr)
    assume "r \<noteq> None"
    then obtain x where "r = Some x" by blast
    with q have x: "acceptable t x" "stream (rscript f) = wire x @ stream (rscript f')" by auto
    then have pre: "prefix (wire x) (wire p)" and lt: "length (wire x) < length (wire p)"
      using assms(1) prefix_length_less [OF assms(1)]
      by (auto simp: strict_prefix_def prefix_def)
    from pre have "prefix (amessage_bytes (msg x)) (amessage_bytes (msg p) @ take (pay_len p) (p_data p))"
      unfolding wire_def by (metis append.assoc prefix_def)
    then have "amessage_bytes (msg x) = amessage_bytes (msg p)"
      by (metis append_eq_append_conv length_amessage_bytes prefix_def append.assoc)
    then have "msg x = msg p" by (metis amessage_of_bytes_bytes append_Nil2)
    with lt x(1) assms(2) show False by (simp add: length_wire acceptable_def)
  qed
  with r show ?thesis by blast
qed

lemma stream_RData: "bs \<noteq> [] \<Longrightarrow> stream (RData bs # rs) = bs @ stream rs"
  by (cases bs) simp_all

lemma wire_split:
  assumes "prefix w (wire q @ z)" and "\<not> strict_prefix w (wire q)"
  shows "\<exists>v. w = wire q @ v \<and> prefix v z"
  using assms by (auto simp: prefix_append strict_prefix_def)

text \<open>Handing packets over one after the other, up to the first that fails.\<close>

fun hand_over :: "apacket list \<Rightarrow> packet_chan \<Rightarrow> bool \<times> packet_chan" where
  "hand_over [] ch = (True, ch)"
| "hand_over (p # ps) ch = (case write_packet p ch of (ok, ch1) \<Rightarrow> if ok then hand_over ps ch1 else (False, ch1))"

lemma hand_over_append:
  "hand_over (ps @ qs) ch = (case hand_over ps ch of (ok, ch1) \<Rightarrow> if ok then hand_over qs ch1 else (False, ch1))"
  by (induction ps arbitrary: ch) (auto split: prod.splits)

lemma write_packet_sent: "write_packet p ch = (ok, ch1) \<Longrightarrow> ch_sent ch1 = (if ok then ch_sent ch @ [p] else ch_sent ch)"
  by (auto simp: write_packet_def split: prod.splits)

lemma hand_over_sent:
  "hand_over ps ch = (ok, ch') \<Longrightarrow> \<exists>j \<le> length ps. ch_sent ch' = ch_sent ch @ take j ps \<and> (ok \<longleftrightarrow> j = length ps)"
proof (induction ps arbitrary: ch)
  case (Cons p ps)
  obtain b ch1 where w: "write_packet p ch = (b, ch1)" by force
  note s = write_packet_sent [OF w]
  show ?case
  proof (cases b)
    case True
    then obtain j where "j \<le> length ps" "ch_sent ch' = ch_sent ch1 @ take j ps" "ok \<longleftrightarrow> j = length ps"
      using Cons w by auto
    then show ?thesis using True s by (intro exI [of _ "Suc j"]) simp
  next
    case False
    then show ?thesis using Cons.prems w s by (intro exI [of _ 0]) auto
  qed
qed simp

lemma read_transport_loop_pipe:
  "stream (rscript g) = w \<Longrightarrow> prefix w (concat (map wire qs)) \<Longrightarrow> (\<forall>q \<in> set qs. acceptable t q) \<Longrightarrow>
   max_payload t \<le> MAX_PAYLOAD \<Longrightarrow> length w < fuel \<Longrightarrow>
   \<exists>k ok ch' g'. hand_over (filter (\<lambda>p. \<not> (host \<and> command (msg p) = 0)) (map received (take k qs))) ch = (ok, ch') \<and>
     read_transport_loop host (socket_remote_read t) fuel ch g = Inr (ok, ch', g') \<and>
     (w = concat (map wire qs) \<longrightarrow> k = length qs)"
proof (induction qs arbitrary: w g fuel ch)
  case Nil
  then obtain fuel' where fuel: "fuel = Suc fuel'" by (cases fuel) auto
  have "stream (rscript g) = []" using Nil by simp
  then obtain e bs g' where "ReadFdExactly g sizeof_amessage [] = (False, e, bs, g')"
    using ReadFdExactly_short [of g sizeof_amessage "[]"] by (auto simp: sizeof_amessage_def)
  then have "socket_remote_read t get_apacket g = Inr (None, g')" by (simp add: socket_remote_read_def)
  then show ?case using fuel by auto
next
  case (Cons q qs)
  then obtain fuel' where fuel: "fuel = Suc fuel'" by (cases fuel) auto
  show ?case
  proof (cases "strict_prefix w (wire q)")
    case True
    then obtain g' where "socket_remote_read t get_apacket g = Inr (None, g')"
      using socket_remote_read_cut [of g q t] Cons.prems by auto
    moreover have "w \<noteq> concat (map wire (q # qs))"
      using True by (auto simp: strict_prefix_def prefix_def)
    ultimately show ?thesis using fuel by (intro exI [of _ 0] exI [of _ True]) simp
  next
    case False
    with Cons.prems(2) obtain v where v: "w = wire q @ v" "prefix v (concat (map wire qs))"
      using wire_split [of w q "concat (map wire qs)"] by auto
    have acc: "acceptable t q" using Cons.prems(3) by simp
    obtain g1 where g1: "socket_remote_read t get_apacket g = Inr (Some (received q), g1)"
      "stream (rscript g1) = v"
      using socket_remote_read_wire [of g q v t] acc v(1) Cons.prems(1,4) by auto
    have "0 < length (wire q)" by (simp add: wire_def sizeof_amessage_def)
    then have "length v < fuel'" using v(1) fuel Cons.prems(5) unfolding v(1) length_append by linarith
    note IH = Cons.IH [OF g1(2) v(2) _ Cons.prems(4) this]
    let ?drop = "host \<and> command (msg (received q)) = 0"
    obtain b ch1 where wp: "(if ?drop then (True, ch) else write_packet (received q) ch) = (b, ch1)" by force
    obtain k ok ch' g2 where r: "hand_over (filter (\<lambda>p. \<not> (host \<and> command (msg p) = 0)) (map received (take k qs))) ch1 = (ok, ch')"
      "read_transport_loop host (socket_remote_read t) fuel' ch1 g1 = Inr (ok, ch', g2)" "v = concat (map wire qs) \<longrightarrow> k = length qs"
      using IH [of ch1] Cons.prems(3) by auto
    show ?thesis
    proof (cases b)
      case True
      then show ?thesis using r fuel g1 v(1) wp
        by (intro exI [of _ "Suc k"] exI [of _ ok] exI [of _ ch'] exI [of _ g2]) (auto split: if_splits)
    next
      case False
      then show ?thesis using fuel g1 wp
        by (intro exI [of _ "Suc (length qs)"] exI [of _ False] exI [of _ ch1] exI [of _ g1]) (auto split: if_splits)
    qed
  qed
qed

text \<open>
  C31: two sides of a socket transport. The write thread of one side takes packets from its main
  thread; if each packet it may pass on is one the other side accepts (send\_packet seals them that
  way), then the other side's read thread, on the bytes that reached it, always finishes (with
  fuel for the bytes there are), and hands to its main thread SYNC online, then the first \<open>k\<close> of those
  packets in order, unchanged, then SYNC offline: none is reordered, duplicated, truncated or
  altered, and \<open>k\<close> is all of them when all the bytes were written. When a hand-over to the main thread
  fails, exactly those before it were handed over, and no SYNC offline. Nothing is sent before the SYNC that
  matches the transport's token, and the host drops packets with command 0.
\<close>

theorem transport_pipe:
  assumes "write_transport_thread socket_remote_write t ps f = Inr f'"
    and "written f' = written f @ w"
    and "\<forall>p \<in> set (sendable (sync_token t) False ps). acceptable t' p"
    and "max_payload t' \<le> MAX_PAYLOAD" and "stream (rscript g) = w" and "length w < fuel"
  shows "\<exists>k all j ok ch' g'. all = sync_packet 1 (sync_token t' + 1) #
           filter (\<lambda>p. \<not> (host \<and> command (msg p) = 0))
             (map received (take k (sendable (sync_token t) False ps))) @ [sync_packet 0 0] \<and>
    (w = concat (map wire (sendable (sync_token t) False ps)) \<longrightarrow>
       k = length (sendable (sync_token t) False ps)) \<and>
    read_transport_thread host socket_remote_read fuel t' ch g = Inr (ch', t'\<lparr>sync_token := sync_token t' + 1\<rparr>, g') \<and>
    hand_over all ch = (ok, ch') \<and> ch_sent ch' = ch_sent ch @ take j all \<and> j \<le> length all \<and> (ok \<longleftrightarrow> j = length all)"
proof -
  let ?t = "t'\<lparr>sync_token := sync_token t' + 1\<rparr>"
  let ?qs = "sendable (sync_token t) False ps"
  let ?on = "sync_packet 1 (sync_token t' + 1)" and ?off = "sync_packet 0 0"
  have pre: "prefix w (concat (map wire ?qs))"
    using write_transport_loop_prefix [of "sync_token t" False ps f f'] assms(1,2)
    by (auto simp: write_transport_thread_def)
  have acc: "\<forall>q \<in> set ?qs. acceptable ?t q" using assms(3) by (simp add: acceptable_def)
  have mx: "max_payload ?t \<le> MAX_PAYLOAD" using assms(4) by simp
  obtain b ch1 where on: "write_packet ?on ch = (b, ch1)" by force
  from read_transport_loop_pipe [OF assms(5) pre acc mx assms(6), of host ch1] obtain k ok ch2 g' where
    r: "hand_over (filter (\<lambda>p. \<not> (host \<and> command (msg p) = 0)) (map received (take k ?qs))) ch1 = (ok, ch2)"
      "read_transport_loop host (socket_remote_read ?t) fuel ch1 g = Inr (ok, ch2, g')"
      "w = concat (map wire ?qs) \<longrightarrow> k = length ?qs" by blast
  let ?all = "?on # filter (\<lambda>p. \<not> (host \<and> command (msg p) = 0)) (map received (take k ?qs)) @ [?off]"
  obtain ok' ch' where h: "hand_over ?all ch = (ok', ch')" by force
  obtain b' ch3 where off: "write_packet ?off ch2 = (b', ch3)" by force
  have "\<exists>g''. read_transport_thread host socket_remote_read fuel t' ch g = Inr (ch', ?t, g'')"
    using h on r(1,2) off
    by (cases b; cases ok; cases b') (auto simp: read_transport_thread_def hand_over_append Let_def)
  then show ?thesis using h r(3) hand_over_sent [OF h] by blast
qed

definition demo_packet :: apacket where
  "demo_packet = get_apacket\<lparr>p_data := ''hi'',
     msg := \<lparr>command = A_WRTE, arg0 = 1, arg1 = 2, data_length = 2, data_check = 209,
             magic = A_WRTE XOR 0xffffffff\<rparr>\<rparr>"

theorem transport_pipe_witness:
  "\<exists>g' ch'. read_transport_thread True socket_remote_read 100 (new_atransport kCsDevice)
      \<lparr>ch_answers = [WAccept 3, WAccept 5, WAccept 8, WAccept 9], ch_sent = []\<rparr>
      (demo_fd [RData (take 3 (wire demo_packet)), RData (drop 3 (wire demo_packet))] []) =
    Inr (ch', (new_atransport kCsDevice)\<lparr>sync_token := 1\<rparr>, g') \<and>
    ch_sent ch' = [sync_packet 1 1, demo_packet, sync_packet 0 0]"
proof -
  let ?t = "(new_atransport kCsDevice)\<lparr>sync_token := 1\<rparr>"
  let ?t' = "new_atransport kCsDevice"
  let ?ps = "[demo_packet, sync_packet 1 1, demo_packet, sync_packet 0 0]"
  have len: "length (wire demo_packet) = 26"
    by (simp add: wire_def demo_packet_def sizeof_amessage_def)
  have snd: "sendable (sync_token ?t) False ?ps = [demo_packet]"
    by (simp add: demo_packet_def sync_packet_def command_defs)
  have w: "socket_remote_write demo_packet (demo_fd [] [WAccept 100]) =
      Inr (True, (demo_fd [] [])\<lparr>written := wire demo_packet\<rparr>)"
  proof -
    have ne: "wire demo_packet \<noteq> []" using len by auto
    have pb: "packet_bytes demo_packet (pay_len demo_packet) = Inr (take (pay_len demo_packet) (p_data demo_packet))"
      by (simp add: packet_bytes_def demo_packet_def)
    have "WriteFdExactly (demo_fd [] [WAccept 100]) (wire demo_packet) =
        Inr (True, ENONE, (demo_fd [] [])\<lparr>written := wire demo_packet\<rparr>)"
      using WriteFdExactly_steps(3) [OF ne, of "demo_fd [] [WAccept 100]" 100 "[]"] len
      by (simp add: demo_fd_def WriteFdExactly_steps)
    then show ?thesis using pb unfolding wire_def by (simp add: socket_remote_write_def)
  qed
  have wt: "write_transport_thread socket_remote_write ?t ?ps (demo_fd [] [WAccept 100]) =
      Inr ((demo_fd [] [])\<lparr>written := wire demo_packet\<rparr>)"
    using w by (simp add: write_transport_thread_def, simp add: demo_packet_def sync_packet_def command_defs)
  have acc: "\<forall>p \<in> set (sendable (sync_token ?t) False ?ps). acceptable ?t' p"
    unfolding snd by (simp add: acceptable_def demo_packet_def new_atransport_def MAX_PAYLOAD_eval)
  have st: "stream (rscript (demo_fd [RData (take 3 (wire demo_packet)), RData (drop 3 (wire demo_packet))] [])) =
      wire demo_packet"
  proof -
    have "take 3 (wire demo_packet) \<noteq> []" and "drop 3 (wire demo_packet) \<noteq> []" using len by auto
    then show ?thesis by (simp add: demo_fd_def stream_RData)
  qed
  have rcv: "received demo_packet = demo_packet" "command (msg demo_packet) \<noteq> 0"
    by (simp_all add: received_def demo_packet_def get_apacket_def command_defs)
  have mx: "max_payload ?t' \<le> MAX_PAYLOAD" by (simp add: new_atransport_def)
  have wr: "written ((demo_fd [] [])\<lparr>written := wire demo_packet\<rparr>) = written (demo_fd [] [WAccept 100]) @ wire demo_packet"
    by (simp add: demo_fd_def)
  have tok: "sync_token ?t' + 1 = 1" by (simp add: new_atransport_def)
  let ?ch = "\<lparr>ch_answers = [WAccept 3, WAccept 5, WAccept 8, WAccept 9], ch_sent = []\<rparr>"
  have all: "fst (hand_over [sync_packet 1 1, demo_packet, sync_packet 0 0] ?ch)"
    by (simp add: write_packet_def sizeof_address_def write_address.simps)
  have lt: "length (wire demo_packet) < 100" using len by simp
  obtain k al j ok ch' g' where al: "al = sync_packet 1 1 # filter (\<lambda>p. \<not> (True \<and> command (msg p) = 0)) (map received (take k [demo_packet])) @ [sync_packet 0 0]"
    and k: "wire demo_packet = concat (map wire [demo_packet]) \<longrightarrow> k = length [demo_packet]"
    and run: "read_transport_thread True socket_remote_read 100 ?t' ?ch
       (demo_fd [RData (take 3 (wire demo_packet)), RData (drop 3 (wire demo_packet))] []) = Inr (ch', ?t, g')"
    and h: "hand_over al ?ch = (ok, ch')" "ch_sent ch' = ch_sent ?ch @ take j al" "ok \<longleftrightarrow> j = length al"
    using transport_pipe [OF wt wr acc mx st lt, of True ?ch, unfolded snd tok] by blast
  have "al = [sync_packet 1 1, demo_packet, sync_packet 0 0]" using al k rcv by simp
  with all h run show ?thesis by auto
qed

theorem remote_read_validates_witness:
  "\<exists>f'. socket_remote_read (new_atransport kCsDevice) get_apacket
      (demo_fd [RData (take 3 (wire demo_packet)), RData (drop 3 (wire demo_packet))] []) = Inr (Some demo_packet, f') \<and>
    stream (rscript f') = []"
proof -
  let ?f = "demo_fd [RData (take 3 (wire demo_packet)), RData (drop 3 (wire demo_packet))] []"
  have mx: "max_payload (new_atransport kCsDevice) \<le> MAX_PAYLOAD" by (simp add: new_atransport_def)
  have "length (wire demo_packet) = 26" by (simp add: wire_def demo_packet_def sizeof_amessage_def)
  then have "take 3 (wire demo_packet) \<noteq> []" "drop 3 (wire demo_packet) \<noteq> []" by auto
  then have "stream (rscript ?f) = wire demo_packet" by (simp add: demo_fd_def stream_RData)
  then have str: "stream (rscript ?f) = amessage_bytes (msg demo_packet) @ ''hi'' @ []"
    by (simp add: wire_def demo_packet_def)
  have m: "magic (msg demo_packet) = NOT (command (msg demo_packet))" "unat (data_length (msg demo_packet)) = length ''hi''"
    "length ''hi'' \<le> max_payload (new_atransport kCsDevice)" "data_check (msg demo_packet) = byte_sum 0 ''hi''"
    by (simp_all add: demo_packet_def command_defs new_atransport_def MAX_PAYLOAD_eval)
  have "get_apacket\<lparr>msg := msg demo_packet, p_data := ''hi''\<rparr> = demo_packet" by (simp add: demo_packet_def get_apacket_def)
  then show ?thesis using remote_read_validates [OF mx, of ?f] m str by metis
qed

section \<open>Reading from USB on the host\<close>

lemma usb_payload_len_bounds:
  assumes "0 < sz"
  shows "len \<le> usb_payload_len sz len" and "usb_payload_len sz len < len + sz"
    and "sz dvd usb_payload_len sz len"
    and "len \<le> m \<Longrightarrow> m mod sz = 0 \<Longrightarrow> usb_payload_len sz len \<le> m"
proof -
  have r: "len mod sz < sz" using assms by simp
  show "len \<le> usb_payload_len sz len" by (simp add: usb_payload_len_def Let_def)
  show "usb_payload_len sz len < len + sz" using assms by (simp add: usb_payload_len_def Let_def)
  show dvd: "sz dvd usb_payload_len sz len"
  proof (cases "len mod sz = 0")
    case False
    have "len + (sz - len mod sz) = sz * (len div sz) + sz"
      using r mult_div_mod_eq [of sz len] by linarith
    then have "sz dvd len + (sz - len mod sz)" by (metis dvd_add_triv_right_iff dvd_triv_left)
    then show ?thesis using False by (simp add: usb_payload_len_def Let_def)
  qed (auto simp: usb_payload_len_def Let_def)
  show "usb_payload_len sz len \<le> m" if m: "len \<le> m" "m mod sz = 0"
  proof (rule ccontr)
    assume "\<not> usb_payload_len sz len \<le> m"
    moreover have "usb_payload_len sz len < m + sz"
      using m(1) \<open>usb_payload_len sz len < len + sz\<close> by linarith
    moreover obtain a b where "usb_payload_len sz len = sz * a" "m = sz * b"
      using dvd m(2) by (metis dvd_def mod_0_imp_dvd)
    ultimately have "sz * b < sz * a" "sz * a < sz * (b + 1)" by (simp_all add: algebra_simps)
    then show False using assms mult_less_cancel1 by (metis Suc_eq_plus1 not_less_eq)
  qed
qed

lemma usb_read_result:
  assumes "usb_read h n = (r, h1)"
  shows "usb_max_packet_size h1 = usb_max_packet_size h" and "r = Some bs \<Longrightarrow> length bs \<le> n"
  using assms by (auto simp: usb_read_def split: list.splits option.splits if_splits)

lemma UsbReadMessage_result:
  assumes "sizeof_amessage \<le> usb_max_packet_size h" and "usb_max_packet_size h < 4096"
  shows "\<exists>m h1. UsbReadMessage h = Inr (m, h1) \<and> usb_max_packet_size h1 = usb_max_packet_size h"
proof -
  obtain r h1 where r: "usb_read h (usb_max_packet_size h) = (r, h1)" by force
  with usb_read_result(1) [OF r] assms show ?thesis
    by (cases r) (simp_all add: UsbReadMessage_def Let_def)
qed

lemma UsbReadPayload_result:
  assumes "MAX_PAYLOAD mod usb_max_packet_size h = 0" and "p_data p = []"
    and "usb_payload_len (usb_max_packet_size h) (pay_len p) \<le> MAX_PAYLOAD"
  shows "\<exists>n p1 h2. UsbReadPayload h p = Inr (n, p1, h2) \<and>
    (\<forall>k. n = Some k \<longrightarrow> msg p1 = msg p \<and> length (p_data p1) = k)"
proof -
  obtain r h1 where r: "usb_read h (usb_payload_len (usb_max_packet_size h) (pay_len p)) = (r, h1)" by force
  show ?thesis
  proof (cases r)
    case None
    then show ?thesis using r assms by (simp add: UsbReadPayload_def Let_def)
  next
    case (Some bs)
    then have "length bs \<le> MAX_PAYLOAD" using usb_read_result(2) [OF r Some] assms(3) by simp
    then show ?thesis using r Some assms by (simp add: UsbReadPayload_def put_data_def Let_def)
  qed
qed

lemma usb_err_msg_result:
  "\<exists>send t'. usb_err_msg p t h = Inr (Some (p\<lparr>msg := (msg p)\<lparr>command := 0\<rparr>\<rparr>), send, t', h) \<and>
    (send \<longrightarrow> connection_state t = kCsOffline \<and> \<not> has_send_connect_on_error t \<and>
       has_send_connect_on_error t')"
  by (auto simp: usb_err_msg_def SetSendConnectOnError_def Let_def)

lemma usb_finish_read_result:
  assumes "pay_len p \<le> length (p_data p)"
  shows "\<exists>q send t'. usb_finish_read p t h = Inr (Some q, send, t', h) \<and>
    (command (msg q) = 0 \<or> q = p \<and> data_check (msg p) = byte_sum 0 (take (pay_len p) (p_data p))) \<and>
    (send \<longrightarrow> connection_state t = kCsOffline \<and> \<not> has_send_connect_on_error t \<and>
       has_send_connect_on_error t')"
  using assms usb_err_msg_result [of p t h]
  by (auto simp: usb_finish_read_def check_data_def calculate_apacket_checksum_def packet_bytes_def)

text \<open>
  on the host, reading a packet from USB never aborts and never overruns the packet's buffer
  when the endpoint's packet size is between the header's size and 4096 and divides MAX\_PAYLOAD:
  rounding the payload up to whole USB packets stays within the buffer. The result is a failure,
  an error packet with command 0 (which the read thread drops), or a packet with a right header
  and checksum, and on an offline transport only a connect or authentication packet; the connect
  message is resent at most once, and only while offline.
\<close>

theorem usb_read_validates:
  assumes "sizeof_amessage \<le> usb_max_packet_size h" and "usb_max_packet_size h < 4096"
    and "MAX_PAYLOAD mod usb_max_packet_size h = 0" and "max_payload t \<le> MAX_PAYLOAD"
  shows "\<exists>r send t' h'. host_usb_remote_read get_apacket t h = Inr (r, send, t', h') \<and>
    (\<forall>q. r = Some q \<longrightarrow> command (msg q) = 0 \<or>
       acceptable t q \<and> (connection_state t = kCsOffline \<longrightarrow> command (msg q) \<in> {A_CNXN, A_AUTH})) \<and>
    (send \<longrightarrow> connection_state t = kCsOffline \<and> \<not> has_send_connect_on_error t \<and>
       has_send_connect_on_error t')"
proof -
  have pos: "0 < usb_max_packet_size h" using assms(1) by (simp add: sizeof_amessage_def)
  obtain m h1 where m: "UsbReadMessage h = Inr (m, h1)" and h1: "usb_max_packet_size h1 = usb_max_packet_size h"
    using UsbReadMessage_result [OF assms(1,2)] by blast
  show ?thesis
  proof (cases m)
    case None
    then show ?thesis using m by (auto simp: host_usb_remote_read_def)
  next
    case (Some a)
    let ?p = "get_apacket\<lparr>msg := a\<rparr>"
    show ?thesis
    proof (cases "\<not> check_header ?p t \<or> connection_state t = kCsOffline \<and> command a \<noteq> A_CNXN \<and> command a \<noteq> A_AUTH")
      case True
      then show ?thesis using m Some usb_err_msg_result [of ?p t h1]
        by (auto simp: host_usb_remote_read_def Let_def)
    next
      case False
      then have hdr: "magic a = command a XOR 0xffffffff" "unat (data_length a) \<le> max_payload t"
        by (auto simp: check_header_def split: if_splits)
      show ?thesis
      proof (cases "data_length a = 0")
        case True
        then have "pay_len ?p \<le> length (p_data ?p)" by simp
        from usb_finish_read_result [OF this, of t h1] False True m Some hdr show ?thesis
          by (auto simp: host_usb_remote_read_def Let_def acceptable_def)
      next
        case nz: False
        have "pay_len ?p \<le> MAX_PAYLOAD" using hdr assms(4) by simp
        then have len: "usb_payload_len (usb_max_packet_size h1) (pay_len ?p) \<le> MAX_PAYLOAD"
          using usb_payload_len_bounds(4) [OF pos _ assms(3)] by (simp add: h1)
        have "p_data ?p = []" and "MAX_PAYLOAD mod usb_max_packet_size h1 = 0"
          using assms(3) by (simp_all add: get_apacket_def h1)
        from UsbReadPayload_result [OF this(2,1) len] obtain n p1 h2 where
          pl: "UsbReadPayload h1 ?p = Inr (n, p1, h2)"
          and n: "\<forall>k. n = Some k \<longrightarrow> msg p1 = a \<and> length (p_data p1) = k" by auto
        show ?thesis
        proof (cases n)
          case None
          then show ?thesis using m Some False nz pl by (auto simp: host_usb_remote_read_def Let_def)
        next
          case (Some k)
          with n have p1: "msg p1 = a" "length (p_data p1) = k" by auto
          show ?thesis
          proof (cases "k = pay_len ?p")
            case ne: False
            then show ?thesis using m \<open>m = Some a\<close> False nz pl Some usb_err_msg_result [of p1 t h2]
              by (auto simp: host_usb_remote_read_def Let_def)
          next
            case eq: True
            with p1 have "pay_len p1 \<le> length (p_data p1)" by simp
            from usb_finish_read_result [OF this, of t h2] show ?thesis
              using m \<open>m = Some a\<close> False nz pl Some eq p1 hdr
              by (auto simp: host_usb_remote_read_def Let_def acceptable_def)
          qed
        qed
      qed
    qed
  qed
qed

definition demo_usb :: "string option list \<Rightarrow> usb_handle" where
  "demo_usb rs = \<lparr>usb_max_packet_size = 512, usb_reads = rs, usb_writes = [], usb_written = []\<rparr>"

theorem usb_read_validates_witness:
  "\<exists>r send t' h'. host_usb_remote_read get_apacket (new_atransport kCsOffline)
      (demo_usb [Some (amessage_bytes (msg demo_packet)), Some ''hi'']) = Inr (r, send, t', h') \<and>
    (\<forall>q. r = Some q \<longrightarrow> command (msg q) = 0 \<or> command (msg q) \<in> {A_CNXN, A_AUTH})"
proof -
  let ?h = "demo_usb [Some (amessage_bytes (msg demo_packet)), Some ''hi'']"
  let ?t = "new_atransport kCsOffline"
  have h: "sizeof_amessage \<le> usb_max_packet_size ?h" "usb_max_packet_size ?h < 4096"
    "MAX_PAYLOAD mod usb_max_packet_size ?h = 0" "max_payload ?t \<le> MAX_PAYLOAD"
    "connection_state ?t = kCsOffline"
    by (simp_all add: demo_usb_def sizeof_amessage_def MAX_PAYLOAD_eval new_atransport_def)
  from usb_read_validates [OF h(1-4)] h(5) show ?thesis by blast
qed

end
