(* ===== verification/Fdevent.thy ===== *)
theory Fdevent
  imports Adb_Prelude
begin

text \<open>
  fdevent.cpp: the registry of descriptors the main loop polls, the events wanted on each, and
  the list of fdevents with an event to deliver.

  \<open>fdsys\<close> holds the fdevent objects by address, \<open>g_poll_node_map\<close> (descriptor to fdevent and
  pollfd.events), \<open>g_pending_list\<close> and the descriptors closed so far. A callback is a value of a
  type parameter, so that each user of the registry supplies its own. The main thread check is
  left out: every operation here is called on the main thread.
\<close>

definition FDE_READ :: u16 where "FDE_READ = 0x0001"
definition FDE_WRITE :: u16 where "FDE_WRITE = 0x0002"
definition FDE_ERROR :: u16 where "FDE_ERROR = 0x0004"
definition FDE_DONT_CLOSE :: u16 where "FDE_DONT_CLOSE = 0x0080"
definition FDE_EVENTMASK :: u16 where "FDE_EVENTMASK = 0x00ff"
definition FDE_STATEMASK :: u16 where "FDE_STATEMASK = 0xff00"
definition FDE_ACTIVE :: u16 where "FDE_ACTIVE = 0x0100"
definition FDE_PENDING :: u16 where "FDE_PENDING = 0x0200"
definition FDE_CREATED :: u16 where "FDE_CREATED = 0x0400"

definition POLLIN :: u16 where "POLLIN = 0x0001"
definition POLLOUT :: u16 where "POLLOUT = 0x0004"
definition POLLERR :: u16 where "POLLERR = 0x0008"
definition POLLHUP :: u16 where "POLLHUP = 0x0010"
definition POLLNVAL :: u16 where "POLLNVAL = 0x0020"
definition POLLRDHUP :: u16 where "POLLRDHUP = 0x2000"

lemmas fde_flags =
  FDE_READ_def FDE_WRITE_def FDE_ERROR_def FDE_DONT_CLOSE_def FDE_EVENTMASK_def FDE_STATEMASK_def
  FDE_ACTIVE_def FDE_PENDING_def FDE_CREATED_def
  POLLIN_def POLLOUT_def POLLERR_def POLLHUP_def POLLNVAL_def POLLRDHUP_def

lemmas mask_simps = bit.conj_disj_distrib2 and.assoc

abbreviation flag :: "u16 \<Rightarrow> u16 \<Rightarrow> bool" where
  "flag s m \<equiv> s AND m \<noteq> 0"

record 'cb fdevent =
  fde_fd :: fd
  force_eof :: bool
  fde_state :: u16
  fde_events :: u16
  fde_func :: 'cb

record 'cb fdsys =
  fdes :: "addr \<rightharpoonup> 'cb fdevent"
  poll_map :: "fd \<rightharpoonup> addr \<times> u16"
  pending :: "addr list"
  closed_fds :: "fd list"
  on_linux :: bool

definition put_fde :: "addr \<Rightarrow> 'cb fdevent \<Rightarrow> 'cb fdsys \<Rightarrow> 'cb fdsys" where
  "put_fde a f S = S\<lparr>fdes := (fdes S)(a \<mapsto> f)\<rparr>"

definition get_fde :: "addr \<Rightarrow> 'cb fdsys \<Rightarrow> 'cb fdevent res" where
  "get_fde a S = (case fdes S a of None \<Rightarrow> Inl (InvalidAccess a) | Some f \<Rightarrow> Inr f)"

lemma get_fde_Inr [simp]: "get_fde a S = Inr f \<longleftrightarrow> fdes S a = Some f"
  by (simp add: get_fde_def split: option.splits)

lemma put_fde_simps [simp]:
  "fdes (put_fde a f S) = (fdes S)(a \<mapsto> f)"
  "poll_map (put_fde a f S) = poll_map S"
  "pending (put_fde a f S) = pending S"
  "closed_fds (put_fde a f S) = closed_fds S"
  "on_linux (put_fde a f S) = on_linux S"
  by (simp_all add: put_fde_def)

section \<open>Operations\<close>

definition fdevent_install :: "addr \<Rightarrow> fd \<Rightarrow> 'cb \<Rightarrow> 'cb fdsys \<Rightarrow> 'cb fdsys res" where
  "fdevent_install a fd func S =
    (if fd < 0 then Inl (Fatal ''CHECK_GE(fd, 0)'')
     else let fde = \<lparr>fde_fd = fd, force_eof = False, fde_state = FDE_ACTIVE, fde_events = 0, fde_func = func\<rparr>;
              S1 = put_fde a fde S in
       if poll_map S1 fd \<noteq> None then Inl (Fatal ''install existing fd'')
       else Inr (S1\<lparr>poll_map := (poll_map S1)(fd \<mapsto> (a, if on_linux S then POLLRDHUP else 0))\<rparr>))"

definition fdevent_create :: "addr \<Rightarrow> fd \<Rightarrow> 'cb \<Rightarrow> 'cb fdsys \<Rightarrow> 'cb fdsys res" where
  "fdevent_create a fd func S =
    bindR (fdevent_install a fd func S) (\<lambda>S1.
    bindR (get_fde a S1) (\<lambda>f.
      Inr (put_fde a (f\<lparr>fde_state := fde_state f OR FDE_CREATED\<rparr>) S1)))"

definition fdevent_remove :: "addr \<Rightarrow> 'cb fdsys \<Rightarrow> 'cb fdsys res" where
  "fdevent_remove a S =
    bindR (get_fde a S) (\<lambda>fde.
      if flag (fde_state fde) FDE_ACTIVE then
        let S1 = S\<lparr>poll_map := (poll_map S)(fde_fd fde := None)\<rparr>;
            S2 = (if flag (fde_state fde) FDE_PENDING
                  then S1\<lparr>pending := removeAll a (pending S1)\<rparr> else S1);
            S3 = (if \<not> flag (fde_state fde) FDE_DONT_CLOSE
                  then S2\<lparr>closed_fds := closed_fds S2 @ [fde_fd fde]\<rparr> else S2);
            fd' = (if \<not> flag (fde_state fde) FDE_DONT_CLOSE then -1 else fde_fd fde)
        in Inr (put_fde a (fde\<lparr>fde_fd := fd', fde_state := 0, fde_events := 0\<rparr>) S3)
      else Inr S)"

definition fdevent_destroy :: "addr \<Rightarrow> 'cb fdsys \<Rightarrow> 'cb fdsys res" where
  "fdevent_destroy a S =
    bindR (get_fde a S) (\<lambda>fde.
      if \<not> flag (fde_state fde) FDE_CREATED
      then Inl (Fatal ''destroying fde not created by fdevent_create()'')
      else bindR (fdevent_remove a S) (\<lambda>S1. Inr (S1\<lparr>fdes := (fdes S1)(a := None)\<rparr>)))"

definition poll_events_for :: "u16 \<Rightarrow> u16 \<Rightarrow> u16" where
  "poll_events_for old events =
    (let e1 = (if flag events FDE_READ then old OR POLLIN else old AND NOT POLLIN)
     in if flag events FDE_WRITE then e1 OR POLLOUT else e1 AND NOT POLLOUT)"

definition fdevent_update :: "addr \<Rightarrow> u16 \<Rightarrow> 'cb fdsys \<Rightarrow> 'cb fdsys res" where
  "fdevent_update a events S =
    bindR (get_fde a S) (\<lambda>fde.
      case poll_map S (fde_fd fde) of
        None \<Rightarrow> Inl (Fatal ''CHECK(it != g_poll_node_map.end())'')
      | Some (node, old) \<Rightarrow>
          Inr (put_fde a (fde\<lparr>fde_state := (fde_state fde AND FDE_STATEMASK) OR events\<rparr>)
            (S\<lparr>poll_map := (poll_map S)(fde_fd fde \<mapsto> (node, poll_events_for old events))\<rparr>)))"

definition fdevent_set :: "addr \<Rightarrow> u16 \<Rightarrow> 'cb fdsys \<Rightarrow> 'cb fdsys res" where
  "fdevent_set a events0 S =
    (let events = events0 AND FDE_EVENTMASK in
     bindR (get_fde a S) (\<lambda>fde.
       if fde_state fde AND FDE_EVENTMASK = events then Inr S
       else bindR (checkR (flag (fde_state fde) FDE_ACTIVE) ''CHECK(fde->state & FDE_ACTIVE)'') (\<lambda>_.
         bindR (fdevent_update a events S) (\<lambda>S1.
         bindR (get_fde a S1) (\<lambda>f1.
           if flag (fde_state f1) FDE_PENDING then
             let f2 = f1\<lparr>fde_events := fde_events f1 AND events\<rparr> in
             if fde_events f2 = 0
             then Inr (put_fde a (f2\<lparr>fde_state := fde_state f2 AND NOT FDE_PENDING\<rparr>)
                    (S1\<lparr>pending := removeAll a (pending S1)\<rparr>))
             else Inr (put_fde a f2 S1)
           else Inr S1)))))"

definition fdevent_add :: "addr \<Rightarrow> u16 \<Rightarrow> 'cb fdsys \<Rightarrow> 'cb fdsys res" where
  "fdevent_add a events S =
    bindR (get_fde a S) (\<lambda>fde. fdevent_set a ((fde_state fde AND FDE_EVENTMASK) OR events) S)"

definition fdevent_del :: "addr \<Rightarrow> u16 \<Rightarrow> 'cb fdsys \<Rightarrow> 'cb fdsys res" where
  "fdevent_del a events S =
    bindR (get_fde a S) (\<lambda>fde. fdevent_set a ((fde_state fde AND FDE_EVENTMASK) AND NOT events) S)"

text \<open>
  \<open>fdevent_process\<close>: the argument is the vector of pollfds as adb_poll leaves it, the descriptors
  of the map in its iteration order with the reported events, or None when adb_poll fails.
\<close>

definition events_of_revents :: "bool \<Rightarrow> u16 \<Rightarrow> u16" where
  "events_of_revents linux revents =
    (let e0 = 0;
         e1 = (if flag revents POLLIN then e0 OR FDE_READ else e0);
         e2 = (if flag revents POLLOUT then e1 OR FDE_WRITE else e1);
         e3 = (if flag revents (POLLERR OR POLLHUP OR POLLNVAL) then e2 OR (FDE_READ OR FDE_ERROR) else e2);
         e4 = (if linux \<and> flag revents POLLRDHUP then e3 OR (FDE_READ OR FDE_ERROR) else e3)
     in e4)"

fun fdevent_process_pollfds :: "(fd \<times> u16) list \<Rightarrow> 'cb fdsys \<Rightarrow> 'cb fdsys res" where
  "fdevent_process_pollfds [] S = Inr S"
| "fdevent_process_pollfds ((fd, revents) # rest) S =
    (let events = events_of_revents (on_linux S) revents in
     if events \<noteq> 0 then
       (case poll_map S fd of
          None \<Rightarrow> Inl (Fatal ''CHECK(it != g_poll_node_map.end())'')
        | Some (a, _) \<Rightarrow>
            bindR (get_fde a S) (\<lambda>fde.
            bindR (checkR (fde_fd fde = fd) ''CHECK_EQ(fde->fd, pollfd.fd)'') (\<lambda>_.
              fdevent_process_pollfds rest
                ((put_fde a (fde\<lparr>fde_events := fde_events fde OR events,
                                fde_state := fde_state fde OR FDE_PENDING\<rparr>) S)
                 \<lparr>pending := pending S @ [a]\<rparr>))))
     else fdevent_process_pollfds rest S)"

definition fdevent_process :: "(fd \<times> u16) list option \<Rightarrow> 'cb fdsys \<Rightarrow> 'cb fdsys res" where
  "fdevent_process polled S =
    (if poll_map S = Map.empty then Inl (Fatal ''CHECK_GT(pollfds.size(), 0u)'')
     else (case polled of None \<Rightarrow> Inr S | Some pollfds \<Rightarrow> fdevent_process_pollfds pollfds S))"

text \<open>\<open>fdevent_call_fdfunc\<close> gives the call to make: callback, descriptor and events.\<close>

definition fdevent_call_fdfunc :: "addr \<Rightarrow> 'cb fdsys \<Rightarrow> (('cb \<times> fd \<times> u16) \<times> 'cb fdsys) res" where
  "fdevent_call_fdfunc a S =
    bindR (get_fde a S) (\<lambda>fde.
    bindR (checkR (flag (fde_state fde) FDE_PENDING) ''CHECK(fde->state & FDE_PENDING)'') (\<lambda>_.
      Inr ((fde_func fde, fde_fd fde, fde_events fde),
           put_fde a (fde\<lparr>fde_events := 0, fde_state := fde_state fde AND NOT FDE_PENDING\<rparr>) S)))"

text \<open>
  The shell-exit handler of adbd: \<open>subproc_fd\<close> is the descriptor read from the notification
  socket and \<open>rcount\<close> what FIONREAD reports for it.
\<close>

definition fdevent_subproc_event ::
    "fd \<Rightarrow> int \<Rightarrow> 'cb fdsys \<Rightarrow> (('cb \<times> fd \<times> u16) option \<times> 'cb fdsys) res" where
  "fdevent_subproc_event subproc_fd rcount S =
    (case poll_map S subproc_fd of
       None \<Rightarrow> Inr (None, S\<lparr>closed_fds := closed_fds S @ [subproc_fd]\<rparr>)
     | Some (a, _) \<Rightarrow>
         bindR (get_fde a S) (\<lambda>fde.
           if fde_fd fde \<noteq> subproc_fd then Inl (Fatal ''subproc_fd != subproc_fde->fd'')
           else let S1 = put_fde a (fde\<lparr>force_eof := True\<rparr>) S in
             if rcount \<noteq> 0 then Inr (None, S1)
             else let fde2 = fde\<lparr>force_eof := True, fde_events := fde_events fde OR FDE_READ\<rparr>;
                      S2 = put_fde a fde2 S in
               if flag (fde_state fde) FDE_PENDING then Inr (None, S2)
               else bindR (fdevent_call_fdfunc a
                      (put_fde a (fde2\<lparr>fde_state := fde_state fde2 OR FDE_PENDING\<rparr>) S2))
                    (\<lambda>(call, S3). Inr (Some call, S3))))"

text \<open>
  The inner loop of \<open>fdevent_loop\<close>: deliver the pending events in order. The handler runs the
  callback; it may change the registry. \<open>fuel\<close> bounds the number of deliveries.
\<close>

fun fdevent_drain ::
    "nat \<Rightarrow> ('cb \<Rightarrow> fd \<Rightarrow> u16 \<Rightarrow> 'cb fdsys \<Rightarrow> 'cb fdsys res) \<Rightarrow> 'cb fdsys \<Rightarrow> 'cb fdsys res" where
  "fdevent_drain 0 h S = (if pending S = [] then Inr S else Inl OutOfFuel)"
| "fdevent_drain (Suc n) h S =
    (case pending S of
       [] \<Rightarrow> Inr S
     | a # rest \<Rightarrow>
         bindR (fdevent_call_fdfunc a (S\<lparr>pending := rest\<rparr>)) (\<lambda>((func, fd, ev), S1).
         bindR (h func fd ev S1) (fdevent_drain n h)))"

section \<open>The invariant of the registry\<close>

text \<open>
  Every entry of the poll map belongs to a live, active fdevent for that descriptor, and asks
  poll for exactly the events the fdevent wants; every active fdevent has its entry; an fdevent is
  on the pending list, once, exactly when its pending flag is set, and then it is active and has an
  event to deliver.
\<close>

definition node_ok :: "'cb fdsys \<Rightarrow> fd \<Rightarrow> addr \<Rightarrow> u16 \<Rightarrow> bool" where
  "node_ok S fd a pe \<longleftrightarrow>
    (case fdes S a of None \<Rightarrow> False
     | Some f \<Rightarrow> fde_fd f = fd \<and> 0 \<le> fd \<and> flag (fde_state f) FDE_ACTIVE \<and>
         (flag pe POLLIN \<longleftrightarrow> flag (fde_state f) FDE_READ) \<and>
         (flag pe POLLOUT \<longleftrightarrow> flag (fde_state f) FDE_WRITE) \<and>
         (flag pe POLLRDHUP \<longleftrightarrow> on_linux S))"

definition fd_inv :: "'cb fdsys \<Rightarrow> bool" where
  "fd_inv S \<longleftrightarrow>
    (\<forall>fd a pe. poll_map S fd = Some (a, pe) \<longrightarrow> node_ok S fd a pe) \<and>
    (\<forall>a f. fdes S a = Some f \<longrightarrow> flag (fde_state f) FDE_ACTIVE \<longrightarrow>
       (\<exists>pe. poll_map S (fde_fd f) = Some (a, pe))) \<and>
    distinct (pending S) \<and>
    (\<forall>a. a \<in> set (pending S) \<longleftrightarrow> (\<exists>f. fdes S a = Some f \<and> flag (fde_state f) FDE_PENDING)) \<and>
    (\<forall>a f. fdes S a = Some f \<longrightarrow> flag (fde_state f) FDE_PENDING \<longrightarrow>
       flag (fde_state f) FDE_ACTIVE \<and> fde_events f \<noteq> 0)"

lemma fd_invD:
  assumes "fd_inv S"
  shows "poll_map S fd = Some (a, pe) \<Longrightarrow> node_ok S fd a pe"
    and "fdes S a = Some f \<Longrightarrow> flag (fde_state f) FDE_ACTIVE \<Longrightarrow>
       \<exists>pe. poll_map S (fde_fd f) = Some (a, pe)"
    and "distinct (pending S)"
    and "a \<in> set (pending S) \<longleftrightarrow> (\<exists>f. fdes S a = Some f \<and> flag (fde_state f) FDE_PENDING)"
    and "fdes S a = Some f \<Longrightarrow> flag (fde_state f) FDE_PENDING \<Longrightarrow>
       flag (fde_state f) FDE_ACTIVE \<and> fde_events f \<noteq> 0"
  using assms unfolding fd_inv_def by blast+

lemma fd_invI:
  assumes "\<And>fd a pe. poll_map S fd = Some (a, pe) \<Longrightarrow> node_ok S fd a pe"
    and "\<And>a f. fdes S a = Some f \<Longrightarrow> flag (fde_state f) FDE_ACTIVE \<Longrightarrow>
       \<exists>pe. poll_map S (fde_fd f) = Some (a, pe)"
    and "distinct (pending S)"
    and "\<And>a. a \<in> set (pending S) \<longleftrightarrow> (\<exists>f. fdes S a = Some f \<and> flag (fde_state f) FDE_PENDING)"
    and "\<And>a f. fdes S a = Some f \<Longrightarrow> flag (fde_state f) FDE_PENDING \<Longrightarrow>
       flag (fde_state f) FDE_ACTIVE \<and> fde_events f \<noteq> 0"
  shows "fd_inv S"
  using assms unfolding fd_inv_def by blast

definition fdsys_init :: "bool \<Rightarrow> 'cb fdsys" where
  "fdsys_init linux = \<lparr>fdes = Map.empty, poll_map = Map.empty, pending = [], closed_fds = [], on_linux = linux\<rparr>"

lemma fdsys_init_inv: "fd_inv (fdsys_init linux)"
  by (simp add: fd_inv_def fdsys_init_def)

text \<open>How the state word reacts to the operations' masks.\<close>

lemma state_masks:
  "(((s AND FDE_STATEMASK) OR (e AND FDE_EVENTMASK)) AND FDE_ACTIVE) = s AND FDE_ACTIVE"
  "(((s AND FDE_STATEMASK) OR (e AND FDE_EVENTMASK)) AND FDE_PENDING) = s AND FDE_PENDING"
  "(((s AND FDE_STATEMASK) OR (e AND FDE_EVENTMASK)) AND FDE_READ) = e AND FDE_READ"
  "(((s AND FDE_STATEMASK) OR (e AND FDE_EVENTMASK)) AND FDE_WRITE) = e AND FDE_WRITE"
  "((e AND FDE_EVENTMASK) AND FDE_READ) = e AND FDE_READ"
  "((e AND FDE_EVENTMASK) AND FDE_WRITE) = e AND FDE_WRITE"
  "((s OR FDE_PENDING) AND FDE_ACTIVE) = s AND FDE_ACTIVE"
  "((s OR FDE_PENDING) AND FDE_READ) = s AND FDE_READ"
  "((s OR FDE_PENDING) AND FDE_WRITE) = s AND FDE_WRITE"
  "((s OR FDE_PENDING) AND FDE_PENDING) = FDE_PENDING"
  "((s AND NOT FDE_PENDING) AND FDE_ACTIVE) = s AND FDE_ACTIVE"
  "((s AND NOT FDE_PENDING) AND FDE_READ) = s AND FDE_READ"
  "((s AND NOT FDE_PENDING) AND FDE_WRITE) = s AND FDE_WRITE"
  "((s AND NOT FDE_PENDING) AND FDE_PENDING) = 0"
  "FDE_PENDING \<noteq> 0"
  "((s OR FDE_CREATED) AND FDE_ACTIVE) = s AND FDE_ACTIVE"
  "((s OR FDE_CREATED) AND FDE_READ) = s AND FDE_READ"
  "((s OR FDE_CREATED) AND FDE_WRITE) = s AND FDE_WRITE"
  "((s OR FDE_CREATED) AND FDE_PENDING) = s AND FDE_PENDING"
  by (simp_all add: fde_flags mask_simps)

lemma poll_events_for_flags:
  "poll_events_for old e AND POLLIN = 0 \<longleftrightarrow> e AND FDE_READ = 0"
  "poll_events_for old e AND POLLOUT = 0 \<longleftrightarrow> e AND FDE_WRITE = 0"
  "poll_events_for old e AND POLLRDHUP = 0 \<longleftrightarrow> old AND POLLRDHUP = 0"
  by (simp_all add: poll_events_for_def Let_def fde_flags mask_simps)

lemma fd_inv_same_fd:
  assumes "fd_inv S" "fdes S a = Some f" "fdes S b = Some g"
    "flag (fde_state f) FDE_ACTIVE" "flag (fde_state g) FDE_ACTIVE" "fde_fd f = fde_fd g"
  shows "a = b"
  using fd_invD(2) [OF assms(1,2,4)] fd_invD(2) [OF assms(1,3,5)] assms(6) by auto

text \<open>An fdevent that is not registered: never allocated, or zeroed or removed.\<close>

definition fde_idle :: "addr \<Rightarrow> 'cb fdsys \<Rightarrow> bool" where
  "fde_idle a S \<longleftrightarrow>
    (case fdes S a of None \<Rightarrow> True
     | Some f \<Rightarrow> \<not> flag (fde_state f) FDE_ACTIVE \<and> \<not> flag (fde_state f) FDE_PENDING)"

lemma fd_inv_idle_change:
  assumes inv: "fd_inv S" and idle: "fde_idle a S" "fde_idle a S'"
    and same: "\<And>b. b \<noteq> a \<Longrightarrow> fdes S' b = fdes S b" "poll_map S' = poll_map S" "pending S' = pending S"
      "on_linux S' = on_linux S"
  shows "fd_inv S'"
proof (rule fd_invI)
  fix fd b pe assume p: "poll_map S' fd = Some (b, pe)"
  then have "node_ok S fd b pe" using fd_invD(1) [OF inv] same(2) by simp
  moreover from this have "b \<noteq> a" using idle(1) by (auto simp: node_ok_def fde_idle_def split: option.splits)
  ultimately show "node_ok S' fd b pe" using same by (simp add: node_ok_def split: option.splits)
next
  fix b f assume f: "fdes S' b = Some f" "flag (fde_state f) FDE_ACTIVE"
  then have "b \<noteq> a" using idle(2) by (auto simp: fde_idle_def)
  then show "\<exists>pe. poll_map S' (fde_fd f) = Some (b, pe)" using f same fd_invD(2) [OF inv] by simp
next
  fix b
  show "b \<in> set (pending S') \<longleftrightarrow> (\<exists>f. fdes S' b = Some f \<and> flag (fde_state f) FDE_PENDING)"
    using idle same(1) [of b] fd_invD(4) [OF inv, of b] same(3)
    by (cases "b = a") (auto simp: fde_idle_def split: option.splits)
next
  fix b f assume f: "fdes S' b = Some f" "flag (fde_state f) FDE_PENDING"
  then have "b \<noteq> a" using idle(2) by (auto simp: fde_idle_def)
  then show "flag (fde_state f) FDE_ACTIVE \<and> fde_events f \<noteq> 0" using f same fd_invD(5) [OF inv, of b f] by simp
qed (use fd_invD(3) [OF inv] same in simp)

lemma fdevent_install_inv:
  assumes inv: "fd_inv S" and fresh: "fde_idle a S" and r: "fdevent_install a fd func S = Inr S'"
  shows "fd_inv S'"
proof -
  let ?f = "\<lparr>fde_fd = fd, force_eof = False, fde_state = FDE_ACTIVE, fde_events = 0, fde_func = func\<rparr>"
  from r have fd: "0 \<le> fd" and new: "poll_map S fd = None"
    by (auto simp: fdevent_install_def Let_def split: if_splits simp del: not_None_eq)
  with r have S': "S' = (put_fde a ?f S)\<lparr>poll_map := (poll_map S)(fd \<mapsto> (a, if on_linux S then POLLRDHUP else 0))\<rparr>"
    by (simp add: fdevent_install_def Let_def)
  have fl: "FDE_ACTIVE AND FDE_PENDING = 0" "FDE_ACTIVE AND FDE_READ = 0" "FDE_ACTIVE AND FDE_WRITE = 0"
    "POLLRDHUP AND POLLIN = 0" "POLLRDHUP AND POLLOUT = 0" "POLLRDHUP \<noteq> 0" "FDE_ACTIVE \<noteq> 0"
    by (simp_all add: fde_flags)
  note nofresh = fd_invD(4) [OF inv, of a]
  show ?thesis
  proof (rule fd_invI)
    fix fd' b pe assume "poll_map S' fd' = Some (b, pe)"
    then show "node_ok S' fd' b pe"
      using fd_invD(1) [OF inv, of fd' b pe] fd fresh fl
      by (auto simp: S' node_ok_def fde_idle_def split: if_splits option.splits)
  next
    fix b f assume "fdes S' b = Some f" "flag (fde_state f) FDE_ACTIVE"
    then show "\<exists>pe. poll_map S' (fde_fd f) = Some (b, pe)"
      using fd_invD(2) [OF inv, of b f] new by (auto simp: S' split: if_splits)
  qed (use fd_invD(3-5) [OF inv] nofresh fresh fl in
        \<open>auto simp: S' fde_idle_def split: if_splits option.splits\<close>)
qed

lemma fdevent_remove_inv:
  assumes inv: "fd_inv S" and r: "fdevent_remove a S = Inr S'"
  shows "fd_inv S'"
proof -
  from r obtain f where f: "fdes S a = Some f" by (auto simp: fdevent_remove_def)
  show ?thesis
  proof (cases "flag (fde_state f) FDE_ACTIVE")
    case False
    with r f inv show ?thesis by (auto simp: fdevent_remove_def)
  next
    case True
    from r f True have
      pm: "poll_map S' = (poll_map S)(fde_fd f := None)" and
      fs: "\<exists>g. fdes S' = (fdes S)(a \<mapsto> g) \<and> fde_state g = 0" and
      pd: "pending S' = removeAll a (pending S)" and ln: "on_linux S' = on_linux S"
      using fd_invD(4) [OF inv, of a]
      by (auto simp: fdevent_remove_def Let_def get_fde_def split: if_splits)
    from fs obtain g where g: "fdes S' = (fdes S)(a \<mapsto> g)" "fde_state g = 0" by blast
    have other: "b \<noteq> a" if "poll_map S fd = Some (b, pe)" "fd \<noteq> fde_fd f" for fd b pe
      using fd_invD(1) [OF inv that(1)] that(2) f by (auto simp: node_ok_def split: option.splits)
    have fdne: "fde_fd h \<noteq> fde_fd f" if "fdes S b = Some h" "flag (fde_state h) FDE_ACTIVE" "b \<noteq> a" for b h
      using fd_inv_same_fd [OF inv that(1) f that(2) True] that(3) by blast
    show ?thesis
    proof (rule fd_invI)
      fix fd b pe assume "poll_map S' fd = Some (b, pe)"
      then show "node_ok S' fd b pe"
        using fd_invD(1) [OF inv, of fd b pe] other [of fd b pe]
        by (auto simp: pm g ln node_ok_def split: if_splits option.splits)
    next
      fix b h assume "fdes S' b = Some h" "flag (fde_state h) FDE_ACTIVE"
      then show "\<exists>pe. poll_map S' (fde_fd h) = Some (b, pe)"
        using fd_invD(2) [OF inv, of b h] fdne [of b h] g by (auto simp: pm split: if_splits)
    qed (use fd_invD(3-5) [OF inv] g in \<open>auto simp: pd distinct_removeAll split: if_splits\<close>)
  qed
qed

text \<open>The effect of \<open>fdevent_set\<close> as one update.\<close>

definition set_fde :: "'cb fdevent \<Rightarrow> u16 \<Rightarrow> 'cb fdevent" where
  "set_fde f ev =
    (let f1 = f\<lparr>fde_state := (fde_state f AND FDE_STATEMASK) OR ev\<rparr> in
     if \<not> flag (fde_state f) FDE_PENDING then f1
     else if fde_events f AND ev = 0
       then f1\<lparr>fde_events := 0, fde_state := fde_state f1 AND NOT FDE_PENDING\<rparr>
       else f1\<lparr>fde_events := fde_events f AND ev\<rparr>)"

definition set_pending :: "addr \<Rightarrow> 'cb fdevent \<Rightarrow> u16 \<Rightarrow> addr list \<Rightarrow> addr list" where
  "set_pending a f ev P = (if flag (fde_state f) FDE_PENDING \<and> fde_events f AND ev = 0 then removeAll a P else P)"

lemma fdevent_set_eq:
  assumes "fdes S a = Some f" and "flag (fde_state f) FDE_ACTIVE"
    and "poll_map S (fde_fd f) = Some (n, old)"
    and "fde_state f AND FDE_EVENTMASK \<noteq> e AND FDE_EVENTMASK"
  shows "fdevent_set a e S =
    Inr (put_fde a (set_fde f (e AND FDE_EVENTMASK))
      (S\<lparr>poll_map := (poll_map S)(fde_fd f \<mapsto> (n, poll_events_for old (e AND FDE_EVENTMASK))),
         pending := set_pending a f (e AND FDE_EVENTMASK) (pending S)\<rparr>))"
  using assms
  by (simp add: fdevent_set_def fdevent_update_def Let_def get_fde_def put_fde_def set_fde_def
      set_pending_def state_masks)

lemma fdevent_set_Inr:
  assumes "fdevent_set a e S = Inr S'"
  shows "\<exists>f. fdes S a = Some f \<and>
    (fde_state f AND FDE_EVENTMASK = e AND FDE_EVENTMASK \<and> S' = S \<or>
     flag (fde_state f) FDE_ACTIVE \<and> (\<exists>n old. poll_map S (fde_fd f) = Some (n, old) \<and>
      S' = put_fde a (set_fde f (e AND FDE_EVENTMASK))
      (S\<lparr>poll_map := (poll_map S)(fde_fd f \<mapsto> (n, poll_events_for old (e AND FDE_EVENTMASK))),
         pending := set_pending a f (e AND FDE_EVENTMASK) (pending S)\<rparr>)))"
proof -
  from assms obtain f where f: "fdes S a = Some f" by (auto simp: fdevent_set_def Let_def)
  show ?thesis
  proof (cases "fde_state f AND FDE_EVENTMASK = e AND FDE_EVENTMASK")
    case True
    with assms f show ?thesis by (simp add: fdevent_set_def Let_def get_fde_def)
  next
    case False
    with assms f have act: "flag (fde_state f) FDE_ACTIVE"
      by (simp add: fdevent_set_def Let_def get_fde_def checkR_def split: if_splits)
    obtain n old where pm: "poll_map S (fde_fd f) = Some (n, old)"
      using assms f False act
      by (cases "poll_map S (fde_fd f)") (auto simp: fdevent_set_def Let_def get_fde_def fdevent_update_def)
    from assms fdevent_set_eq [OF f act pm False] f act pm show ?thesis by simp
  qed
qed

lemma set_fde_fields [simp]:
  "fde_fd (set_fde f ev) = fde_fd f"
  "fde_func (set_fde f ev) = fde_func f"
  "force_eof (set_fde f ev) = force_eof f"
  by (simp_all add: set_fde_def Let_def)

lemma set_fde_state:
  "fde_state (set_fde f (e AND FDE_EVENTMASK)) AND FDE_ACTIVE = fde_state f AND FDE_ACTIVE"
  "fde_state (set_fde f (e AND FDE_EVENTMASK)) AND FDE_READ = e AND FDE_READ"
  "fde_state (set_fde f (e AND FDE_EVENTMASK)) AND FDE_WRITE = e AND FDE_WRITE"
  "flag (fde_state (set_fde f (e AND FDE_EVENTMASK))) FDE_PENDING \<longleftrightarrow>
     flag (fde_state f) FDE_PENDING \<and> fde_events f AND (e AND FDE_EVENTMASK) \<noteq> 0"
  by (simp_all add: set_fde_def Let_def state_masks)

lemma set_fde_events:
  "flag (fde_state (set_fde f (e AND FDE_EVENTMASK))) FDE_PENDING \<Longrightarrow>
     fde_events (set_fde f (e AND FDE_EVENTMASK)) \<noteq> 0"
  by (auto simp: set_fde_state) (simp add: set_fde_def Let_def)

lemma fdevent_set_inv:
  assumes inv: "fd_inv S" and r: "fdevent_set a e S = Inr S'"
  shows "fd_inv S'"
proof -
  from fdevent_set_Inr [OF r] obtain f where f: "fdes S a = Some f"
    and c: "S' = S \<or> (flag (fde_state f) FDE_ACTIVE \<and> (\<exists>n old. poll_map S (fde_fd f) = Some (n, old) \<and>
      S' = put_fde a (set_fde f (e AND FDE_EVENTMASK))
      (S\<lparr>poll_map := (poll_map S)(fde_fd f \<mapsto> (n, poll_events_for old (e AND FDE_EVENTMASK))),
         pending := set_pending a f (e AND FDE_EVENTMASK) (pending S)\<rparr>)))" by blast
  from c show ?thesis
  proof
    assume "S' = S" with inv show ?thesis by simp
  next
    assume "flag (fde_state f) FDE_ACTIVE \<and> (\<exists>n old. poll_map S (fde_fd f) = Some (n, old) \<and>
      S' = put_fde a (set_fde f (e AND FDE_EVENTMASK))
      (S\<lparr>poll_map := (poll_map S)(fde_fd f \<mapsto> (n, poll_events_for old (e AND FDE_EVENTMASK))),
         pending := set_pending a f (e AND FDE_EVENTMASK) (pending S)\<rparr>))"
    then obtain n old where act: "flag (fde_state f) FDE_ACTIVE"
      and pm: "poll_map S (fde_fd f) = Some (n, old)"
      and S': "S' = put_fde a (set_fde f (e AND FDE_EVENTMASK))
      (S\<lparr>poll_map := (poll_map S)(fde_fd f \<mapsto> (n, poll_events_for old (e AND FDE_EVENTMASK))),
         pending := set_pending a f (e AND FDE_EVENTMASK) (pending S)\<rparr>)" by blast
    have n: "n = a" using fd_invD(2) [OF inv f act] pm by simp
    have ok: "node_ok S (fde_fd f) a old" using fd_invD(1) [OF inv pm] n by simp
    have other: "b \<noteq> a" if "poll_map S fd = Some (b, pe)" "fd \<noteq> fde_fd f" for fd b pe
      using fd_invD(1) [OF inv that(1)] that(2) f by (auto simp: node_ok_def split: option.splits)
    show ?thesis
    proof (rule fd_invI)
      fix fd b pe assume p: "poll_map S' fd = Some (b, pe)"
      show "node_ok S' fd b pe"
      proof (cases "fd = fde_fd f")
        case True
        with p n have "b = a" "pe = poll_events_for old (e AND FDE_EVENTMASK)" by (simp_all add: S')
        with True ok f show ?thesis
          by (simp add: S' node_ok_def set_fde_state poll_events_for_flags state_masks(5,6))
      next
        case False
        with p have "poll_map S fd = Some (b, pe)" by (simp add: S')
        with fd_invD(1) [OF inv this] other [OF this False] show ?thesis
          by (simp add: S' node_ok_def split: option.splits)
      qed
    next
      fix b h assume "fdes S' b = Some h" "flag (fde_state h) FDE_ACTIVE"
      then show "\<exists>pe. poll_map S' (fde_fd h) = Some (b, pe)"
        using fd_invD(2) [OF inv, of b h] act n pm by (auto simp: S' split: if_splits)
    next
      show "distinct (pending S')"
        using fd_invD(3) [OF inv] by (simp add: S' set_pending_def distinct_removeAll)
    next
      fix b show "b \<in> set (pending S') \<longleftrightarrow> (\<exists>h. fdes S' b = Some h \<and> flag (fde_state h) FDE_PENDING)"
        using fd_invD(4) [OF inv, of b] f by (auto simp: S' set_pending_def set_fde_state)
    next
      fix b h assume "fdes S' b = Some h" "flag (fde_state h) FDE_PENDING"
      then show "flag (fde_state h) FDE_ACTIVE \<and> fde_events h \<noteq> 0"
        using fd_invD(5) [OF inv, of b h] act set_fde_events [of f e]
        by (auto simp: S' set_fde_state split: if_splits)
    qed
  qed
qed

lemma fdevent_add_inv: "fd_inv S \<Longrightarrow> fdevent_add a e S = Inr S' \<Longrightarrow> fd_inv S'"
  by (auto simp: fdevent_add_def dest: fdevent_set_inv)

lemma fdevent_del_inv: "fd_inv S \<Longrightarrow> fdevent_del a e S = Inr S' \<Longrightarrow> fd_inv S'"
  by (auto simp: fdevent_del_def dest: fdevent_set_inv)

lemma revents_flag:
  "flag (events_of_revents l r) FDE_READ \<or> flag (events_of_revents l r) FDE_WRITE"
  if "events_of_revents l r \<noteq> 0"
  using that
  by (auto simp: events_of_revents_def Let_def fde_flags mask_simps split: if_splits)

lemma process_step_inv:
  assumes inv: "fd_inv S" and f: "fdes S a = Some f" and act: "flag (fde_state f) FDE_ACTIVE"
    and np: "a \<notin> set (pending S)" and ev: "ev \<noteq> 0"
  shows "fd_inv ((put_fde a (f\<lparr>fde_events := fde_events f OR ev, fde_state := fde_state f OR FDE_PENDING\<rparr>) S)
     \<lparr>pending := pending S @ [a]\<rparr>)" (is "fd_inv ?S")
proof -
  have ne: "fde_events f OR ev \<noteq> 0" using ev by (simp add: or_eq_0_iff)
  show ?thesis
  proof (rule fd_invI)
    fix fd b pe assume "poll_map ?S fd = Some (b, pe)"
    then show "node_ok ?S fd b pe"
      using fd_invD(1) [OF inv, of fd b pe] f
      by (auto simp: node_ok_def state_masks split: option.splits)
  next
    fix b h assume "fdes ?S b = Some h" "flag (fde_state h) FDE_ACTIVE"
    then show "\<exists>pe. poll_map ?S (fde_fd h) = Some (b, pe)"
      using fd_invD(2) [OF inv, of b] f act by (auto simp: state_masks split: if_splits)
  next
    fix b show "b \<in> set (pending ?S) \<longleftrightarrow> (\<exists>h. fdes ?S b = Some h \<and> flag (fde_state h) FDE_PENDING)"
      using fd_invD(4) [OF inv, of b] by (auto simp: state_masks)
  next
    fix b h assume "fdes ?S b = Some h" "flag (fde_state h) FDE_PENDING"
    then show "flag (fde_state h) FDE_ACTIVE \<and> fde_events h \<noteq> 0"
      using fd_invD(5) [OF inv, of b h] act ne by (auto simp: state_masks split: if_splits)
  qed (use fd_invD(3) [OF inv] np in simp)
qed

lemma fdevent_process_pollfds_ok:
  "fd_inv S \<Longrightarrow> distinct (map fst ps) \<Longrightarrow> (\<forall>fd \<in> fst ` set ps. poll_map S fd \<noteq> None) \<Longrightarrow>
   (\<forall>fd \<in> fst ` set ps. \<forall>a pe. poll_map S fd = Some (a, pe) \<longrightarrow> a \<notin> set (pending S)) \<Longrightarrow>
   \<exists>S'. fdevent_process_pollfds ps S = Inr S' \<and> fd_inv S' \<and> poll_map S' = poll_map S \<and>
     on_linux S' = on_linux S \<and> pending S' = pending S @
       map (\<lambda>(fd, _). fst (the (poll_map S fd)))
         (filter (\<lambda>(fd, re). events_of_revents (on_linux S) re \<noteq> 0) ps)"
proof (induction ps arbitrary: S)
  case Nil
  then show ?case by simp
next
  case (Cons p ps)
  obtain fd re where p: "p = (fd, re)" by force
  let ?ev = "events_of_revents (on_linux S) re"
  show ?case
  proof (cases "?ev = 0")
    case True
    with Cons.IH [of S] Cons.prems p show ?thesis by auto
  next
    case False
    from Cons.prems(3) p obtain a pe where pm: "poll_map S fd = Some (a, pe)" by auto
    from fd_invD(1) [OF Cons.prems(1) pm] obtain f where f: "fdes S a = Some f"
      and ffd: "fde_fd f = fd" and act: "flag (fde_state f) FDE_ACTIVE"
      by (auto simp: node_ok_def split: option.splits)
    have np: "a \<notin> set (pending S)" using Cons.prems(4) p pm by auto
    let ?S = "(put_fde a (f\<lparr>fde_events := fde_events f OR ?ev, fde_state := fde_state f OR FDE_PENDING\<rparr>) S)
     \<lparr>pending := pending S @ [a]\<rparr>"
    have inv: "fd_inv ?S" by (rule process_step_inv [OF Cons.prems(1) f act np False])
    have uniq: "b \<noteq> a" if "poll_map S fd' = Some (b, pe')" "fd' \<noteq> fd" for fd' b pe'
      using fd_invD(1) [OF Cons.prems(1) that(1)] that(2) f ffd
      by (auto simp: node_ok_def split: option.splits)
    have "\<forall>fd' \<in> fst ` set ps. \<forall>b pe'. poll_map ?S fd' = Some (b, pe') \<longrightarrow> b \<notin> set (pending ?S)"
      using Cons.prems(2,4) p uniq by (fastforce simp: image_iff)
    with Cons.IH [OF inv] Cons.prems(2,3) p obtain S' where
      S': "fdevent_process_pollfds ps ?S = Inr S'" "fd_inv S'" "poll_map S' = poll_map S"
        "on_linux S' = on_linux S" "pending S' = pending S @ [a] @
        map (\<lambda>(fd, _). fst (the (poll_map S fd))) (filter (\<lambda>(fd, re). events_of_revents (on_linux S) re \<noteq> 0) ps)"
      by auto
    have "fdevent_process_pollfds (p # ps) S = fdevent_process_pollfds ps ?S"
      using p False pm f ffd by (simp add: Let_def get_fde_def)
    with S' have "fdevent_process_pollfds (p # ps) S = Inr S'" by simp
    with S' p False pm show ?thesis by (auto simp del: fdevent_process_pollfds.simps)
  qed
qed

lemma fdevent_call_inv:
  assumes inv: "fd_inv S" and pend: "pending S = a # rest"
  shows "\<exists>f S'. fdes S a = Some f \<and> fde_events f \<noteq> 0 \<and> flag (fde_state f) FDE_ACTIVE \<and>
    fdevent_call_fdfunc a (S\<lparr>pending := rest\<rparr>) = Inr ((fde_func f, fde_fd f, fde_events f), S') \<and>
    fd_inv S' \<and> pending S' = rest \<and> poll_map S' = poll_map S"
proof -
  from fd_invD(4) [OF inv, of a] pend obtain f where f: "fdes S a = Some f"
    and p: "flag (fde_state f) FDE_PENDING" by auto
  note act = fd_invD(5) [OF inv f p]
  have nr: "a \<notin> set rest" using fd_invD(3) [OF inv] pend by simp
  let ?S = "put_fde a (f\<lparr>fde_events := 0, fde_state := fde_state f AND NOT FDE_PENDING\<rparr>) (S\<lparr>pending := rest\<rparr>)"
  have "fd_inv ?S"
  proof (rule fd_invI)
    fix fd b pe assume "poll_map ?S fd = Some (b, pe)"
    then show "node_ok ?S fd b pe"
      using fd_invD(1) [OF inv, of fd b pe] f by (auto simp: node_ok_def state_masks split: option.splits)
  next
    fix b h assume "fdes ?S b = Some h" "flag (fde_state h) FDE_ACTIVE"
    then show "\<exists>pe. poll_map ?S (fde_fd h) = Some (b, pe)"
      using fd_invD(2) [OF inv, of b] f act by (auto simp: state_masks split: if_splits)
  next
    fix b show "b \<in> set (pending ?S) \<longleftrightarrow> (\<exists>h. fdes ?S b = Some h \<and> flag (fde_state h) FDE_PENDING)"
      using fd_invD(4) [OF inv, of b] pend nr by (auto simp: state_masks)
  next
    fix b h assume "fdes ?S b = Some h" "flag (fde_state h) FDE_PENDING"
    then show "flag (fde_state h) FDE_ACTIVE \<and> fde_events h \<noteq> 0"
      using fd_invD(5) [OF inv, of b h] by (auto simp: state_masks split: if_splits)
  qed (use fd_invD(3) [OF inv] pend in simp)
  with f p act show ?thesis by (simp add: fdevent_call_fdfunc_def get_fde_def)
qed

section \<open>The interface the users of the registry rely on\<close>

text \<open>
  A user of the registry holds fdevents that are active, asks for more or fewer events on them
  and finally removes them. The locale states what it may rely on; the sockets use it through
  the interpretation below.
\<close>

locale event_registry =
  fixes inv :: "'s \<Rightarrow> bool"
    and active :: "addr \<Rightarrow> 's \<Rightarrow> bool"
    and idle :: "addr \<Rightarrow> 's \<Rightarrow> bool"
    and wants :: "addr \<Rightarrow> 's \<Rightarrow> u16"
    and add :: "addr \<Rightarrow> u16 \<Rightarrow> 's \<Rightarrow> 's res"
    and del :: "addr \<Rightarrow> u16 \<Rightarrow> 's \<Rightarrow> 's res"
    and remove :: "addr \<Rightarrow> 's \<Rightarrow> 's res"
  assumes add_ok: "inv S \<Longrightarrow> active a S \<Longrightarrow> \<exists>S'. add a e S = Inr S' \<and> inv S' \<and>
      (\<forall>b. active b S' = active b S) \<and> wants a S' = wants a S OR (e AND FDE_EVENTMASK) \<and>
      (\<forall>b. b \<noteq> a \<longrightarrow> wants b S' = wants b S \<and> idle b S' = idle b S)"
    and del_ok: "inv S \<Longrightarrow> active a S \<Longrightarrow> \<exists>S'. del a e S = Inr S' \<and> inv S' \<and>
      (\<forall>b. active b S' = active b S) \<and> wants a S' = wants a S AND NOT e \<and>
      (\<forall>b. b \<noteq> a \<longrightarrow> wants b S' = wants b S \<and> idle b S' = idle b S)"
    and remove_ok: "inv S \<Longrightarrow> active a S \<Longrightarrow> \<exists>S'. remove a S = Inr S' \<and> inv S' \<and>
      idle a S' \<and> (\<forall>b. b \<noteq> a \<longrightarrow> active b S' = active b S \<and> wants b S' = wants b S \<and> idle b S' = idle b S)"
    and active_not_idle: "active a S \<Longrightarrow> \<not> idle a S"
begin

text \<open>Asking for an event and withdrawing it brings back the set of events wanted before.\<close>

lemma add_then_del:
  assumes "inv S" and "active a S" and "wants a S AND e = 0"
  shows "\<exists>S1 S2. add a e S = Inr S1 \<and> del a e S1 = Inr S2 \<and> inv S2 \<and> wants a S2 = wants a S"
proof -
  from add_ok [OF assms(1,2), of e] obtain S1 where S1: "add a e S = Inr S1" "inv S1"
    "active a S1" "wants a S1 = wants a S OR (e AND FDE_EVENTMASK)" using assms(2) by auto
  from del_ok [OF S1(2,3), of e] obtain S2 where S2: "del a e S1 = Inr S2" "inv S2"
    "wants a S2 = wants a S1 AND NOT e" by auto
  have "wants a S AND NOT e = wants a S"
  proof (rule bit_word_eqI)
    fix n assume "n < LENGTH(16)"
    then show "bit (wants a S AND NOT e) n \<longleftrightarrow> bit (wants a S) n"
      using arg_cong [OF assms(3), of "\<lambda>w. bit w n"] by (auto simp: bit_simps)
  qed
  moreover have "(e AND FDE_EVENTMASK) AND NOT e = 0" by (simp add: and.left_commute and.commute)
  ultimately have "wants a S2 = wants a S" using S1 S2 by (simp add: bit.conj_disj_distrib2)
  with S1 S2 show ?thesis by blast
qed

end

definition fde_active :: "addr \<Rightarrow> 'cb fdsys \<Rightarrow> bool" where
  "fde_active a S \<longleftrightarrow> (\<exists>f. fdes S a = Some f \<and> flag (fde_state f) FDE_ACTIVE)"

definition fde_wants :: "addr \<Rightarrow> 'cb fdsys \<Rightarrow> u16" where
  "fde_wants a S = (case fdes S a of None \<Rightarrow> 0 | Some f \<Rightarrow> fde_state f AND FDE_EVENTMASK)"

lemma set_fde_eventmask:
  "fde_state (set_fde f (e AND FDE_EVENTMASK)) AND FDE_EVENTMASK = e AND FDE_EVENTMASK"
  by (simp add: set_fde_def Let_def fde_flags mask_simps)

lemma fdevent_set_ok:
  assumes inv: "fd_inv S" and act: "fde_active a S"
  shows "\<exists>S'. fdevent_set a e S = Inr S' \<and> fd_inv S' \<and> (\<forall>b. fde_active b S' = fde_active b S) \<and>
    fde_wants a S' = e AND FDE_EVENTMASK \<and> (\<forall>b. b \<noteq> a \<longrightarrow> fdes S' b = fdes S b) \<and>
    dom (fdes S') = dom (fdes S) \<and> closed_fds S' = closed_fds S \<and>
    (\<exists>f g. fdes S a = Some f \<and> fdes S' a = Some g \<and> fde_fd g = fde_fd f \<and> fde_func g = fde_func f)"
proof -
  from act obtain f where f: "fdes S a = Some f" and fa: "flag (fde_state f) FDE_ACTIVE"
    by (auto simp: fde_active_def)
  show ?thesis
  proof (cases "fde_state f AND FDE_EVENTMASK = e AND FDE_EVENTMASK")
    case True
    then have "fdevent_set a e S = Inr S" using f by (simp add: fdevent_set_def Let_def get_fde_def)
    with inv f True show ?thesis by (auto simp: fde_wants_def)
  next
    case False
    from fd_invD(2) [OF inv f fa] obtain pe where pm: "poll_map S (fde_fd f) = Some (a, pe)" by blast
    let ?S = "put_fde a (set_fde f (e AND FDE_EVENTMASK))
      (S\<lparr>poll_map := (poll_map S)(fde_fd f \<mapsto> (a, poll_events_for pe (e AND FDE_EVENTMASK))),
         pending := set_pending a f (e AND FDE_EVENTMASK) (pending S)\<rparr>)"
    have r: "fdevent_set a e S = Inr ?S" by (rule fdevent_set_eq [OF f fa pm False])
    have "fde_active b ?S = fde_active b S" for b
      using f by (auto simp: fde_active_def set_fde_state)
    moreover have "fde_wants a ?S = e AND FDE_EVENTMASK" by (simp add: fde_wants_def set_fde_eventmask)
    ultimately show ?thesis using r fdevent_set_inv [OF inv r] f by auto
  qed
qed

lemma event_mask_idem: "((s AND FDE_EVENTMASK) OR e) AND FDE_EVENTMASK = (s AND FDE_EVENTMASK) OR (e AND FDE_EVENTMASK)"
  "((s AND FDE_EVENTMASK) AND NOT e) AND FDE_EVENTMASK = (s AND FDE_EVENTMASK) AND NOT e"
  by (simp add: bit.conj_disj_distrib2 and.assoc) (simp add: and.assoc and.left_commute and.commute)

lemma fdevent_remove_ok:
  assumes inv: "fd_inv S" and f: "fdes S a = Some f"
  shows "\<exists>S'. fdevent_remove a S = Inr S' \<and> fd_inv S' \<and> \<not> fde_active a S' \<and>
    (\<forall>b. b \<noteq> a \<longrightarrow> fdes S' b = fdes S b) \<and> dom (fdes S') = dom (fdes S) \<and>
    (\<exists>g. fdes S' a = Some g \<and> \<not> flag (fde_state g) FDE_ACTIVE \<and> \<not> flag (fde_state g) FDE_PENDING)"
proof -
  obtain S' where r: "fdevent_remove a S = Inr S'"
    using f by (cases "fdevent_remove a S") (auto simp: fdevent_remove_def get_fde_def Let_def split: if_splits)
  have "\<exists>g. fdes S' = (fdes S)(a \<mapsto> g) \<and> \<not> flag (fde_state g) FDE_ACTIVE \<and> \<not> flag (fde_state g) FDE_PENDING"
  proof (cases "flag (fde_state f) FDE_ACTIVE")
    case True
    with r f show ?thesis
      by (auto simp: fdevent_remove_def get_fde_def Let_def split: if_splits)
  next
    case False
    then have "\<not> flag (fde_state f) FDE_PENDING" using fd_invD(5) [OF inv f] by blast
    with False r f show ?thesis
      by (intro exI [of _ f]) (auto simp: fdevent_remove_def get_fde_def fun_upd_idem)
  qed
  with r fdevent_remove_inv [OF inv r] f show ?thesis
    by (auto simp: fde_active_def split: if_splits)
qed

interpretation fd_reg: event_registry fd_inv fde_active fde_idle fde_wants fdevent_add fdevent_del fdevent_remove
proof unfold_locales
  fix S :: "'a fdsys" and a e
  assume inv: "fd_inv S" and act: "fde_active a S"
  then obtain f where f: "fdes S a = Some f" by (auto simp: fde_active_def)
  have w: "fde_wants a S = fde_state f AND FDE_EVENTMASK" using f by (simp add: fde_wants_def)
  show "\<exists>S'. fdevent_add a e S = Inr S' \<and> fd_inv S' \<and> (\<forall>b. fde_active b S' = fde_active b S) \<and>
      fde_wants a S' = fde_wants a S OR (e AND FDE_EVENTMASK) \<and>
      (\<forall>b. b \<noteq> a \<longrightarrow> fde_wants b S' = fde_wants b S \<and> fde_idle b S' = fde_idle b S)"
    using fdevent_set_ok [OF inv act, of "(fde_state f AND FDE_EVENTMASK) OR e"] f w
    by (auto simp: fdevent_add_def get_fde_def event_mask_idem fde_wants_def fde_idle_def)
  show "\<exists>S'. fdevent_del a e S = Inr S' \<and> fd_inv S' \<and> (\<forall>b. fde_active b S' = fde_active b S) \<and>
      fde_wants a S' = fde_wants a S AND NOT e \<and>
      (\<forall>b. b \<noteq> a \<longrightarrow> fde_wants b S' = fde_wants b S \<and> fde_idle b S' = fde_idle b S)"
    using fdevent_set_ok [OF inv act, of "(fde_state f AND FDE_EVENTMASK) AND NOT e"] f w
    by (auto simp: fdevent_del_def get_fde_def event_mask_idem fde_wants_def fde_idle_def)
  show "\<exists>S'. fdevent_remove a S = Inr S' \<and> fd_inv S' \<and> fde_idle a S' \<and>
      (\<forall>b. b \<noteq> a \<longrightarrow> fde_active b S' = fde_active b S \<and> fde_wants b S' = fde_wants b S \<and>
         fde_idle b S' = fde_idle b S)"
    using fdevent_remove_ok [OF inv f] by (auto simp: fde_active_def fde_wants_def fde_idle_def)
next
  fix S :: "'a fdsys" and a
  assume "fde_active a S"
  then show "\<not> fde_idle a S" by (auto simp: fde_active_def fde_idle_def)
qed

section \<open>Creating, destroying and the shell-exit handler\<close>

text \<open>A change of one fdevent that keeps what the invariant reads of it.\<close>

lemma fd_inv_put_same:
  assumes inv: "fd_inv S" and f: "fdes S a = Some f"
    and same: "fde_fd g = fde_fd f" "fde_state g AND FDE_ACTIVE = fde_state f AND FDE_ACTIVE" "fde_state g AND FDE_READ = fde_state f AND FDE_READ"
      "fde_state g AND FDE_WRITE = fde_state f AND FDE_WRITE" "fde_state g AND FDE_PENDING = fde_state f AND FDE_PENDING"
    and ev: "flag (fde_state f) FDE_PENDING \<Longrightarrow> fde_events g \<noteq> 0"
  shows "fd_inv (put_fde a g S)"
proof (rule fd_invI)
  fix fd b pe assume "poll_map (put_fde a g S) fd = Some (b, pe)"
  then show "node_ok (put_fde a g S) fd b pe"
    using fd_invD(1) [OF inv, of fd b pe] f same by (auto simp: node_ok_def split: option.splits)
next
  fix b h assume "fdes (put_fde a g S) b = Some h" "flag (fde_state h) FDE_ACTIVE"
  then show "\<exists>pe. poll_map (put_fde a g S) (fde_fd h) = Some (b, pe)"
    using fd_invD(2) [OF inv, of b h] fd_invD(2) [OF inv f] same(1,2) by (cases "b = a") simp_all
next
  fix b show "b \<in> set (pending (put_fde a g S)) \<longleftrightarrow> (\<exists>h. fdes (put_fde a g S) b = Some h \<and> flag (fde_state h) FDE_PENDING)"
    using fd_invD(4) [OF inv, of b] f same(5) by (cases "b = a") simp_all
next
  fix b h assume "fdes (put_fde a g S) b = Some h" "flag (fde_state h) FDE_PENDING"
  then show "flag (fde_state h) FDE_ACTIVE \<and> fde_events h \<noteq> 0"
    using fd_invD(5) [OF inv, of b h] fd_invD(5) [OF inv f] same(2,5) ev by (cases "b = a") simp_all
qed (use fd_invD(3) [OF inv] in simp)

lemma fdevent_create_inv:
  assumes "fd_inv S" and "fde_idle a S" and "fdevent_create a fd func S = Inr S'"
  shows "fd_inv S'"
proof -
  from assms(3) obtain S1 f where S1: "fdevent_install a fd func S = Inr S1" "fdes S1 a = Some f"
    and S': "S' = put_fde a (f\<lparr>fde_state := fde_state f OR FDE_CREATED\<rparr>) S1" by (auto simp: fdevent_create_def)
  have inv: "fd_inv S1" by (rule fdevent_install_inv [OF assms(1,2) S1(1)])
  show ?thesis unfolding S' by (rule fd_inv_put_same [OF inv S1(2)]) (use fd_invD(5) [OF inv S1(2)] in \<open>simp_all add: state_masks\<close>)
qed

lemma fdevent_destroy_inv:
  assumes "fd_inv S" and "fdevent_destroy a S = Inr S'"
  shows "fd_inv S'"
proof -
  from assms(2) obtain f S1 where f: "fdes S a = Some f" and S1: "fdevent_remove a S = Inr S1"
    and S': "S' = S1\<lparr>fdes := (fdes S1)(a := None)\<rparr>" by (auto simp: fdevent_destroy_def split: if_splits)
  from fdevent_remove_ok [OF assms(1) f] S1 have "fd_inv S1" "fde_idle a S1" by (auto simp: fde_idle_def)
  then show ?thesis unfolding S' by (rule fd_inv_idle_change) (simp_all add: fde_idle_def)
qed

lemma fdevent_subproc_inv:
  assumes inv: "fd_inv S" and r: "fdevent_subproc_event fd rcount S = Inr (call, S')"
  shows "fd_inv S'"
proof (cases "poll_map S fd")
  case None
  then have S': "S' = S\<lparr>closed_fds := closed_fds S @ [fd]\<rparr>" using r by (simp add: fdevent_subproc_event_def)
  show ?thesis using inv unfolding S' fd_inv_def node_ok_def by (simp cong: option.case_cong)
next
  case (Some e)
  then obtain a pe where pm: "poll_map S fd = Some (a, pe)" by (cases e) auto
  from fd_invD(1) [OF inv pm] obtain f where f: "fdes S a = Some f" "fde_fd f = fd" by (auto simp: node_ok_def split: option.splits)
  have keep: "fd_inv (put_fde a g S)"
    if "fde_fd g = fde_fd f" "fde_state g = fde_state f" "flag (fde_state f) FDE_PENDING \<Longrightarrow> fde_events g \<noteq> 0" for g
    by (rule fd_inv_put_same [OF inv f(1)]) (use that in simp_all)
  show ?thesis
  proof (cases "rcount \<noteq> 0 \<or> flag (fde_state f) FDE_PENDING")
    case True
    have "fde_events f OR FDE_READ \<noteq> 0" by (simp add: fde_flags or_eq_0_iff)
    with True have "\<exists>g. S' = put_fde a g S \<and> fde_fd g = fde_fd f \<and> fde_state g = fde_state f \<and>
        (flag (fde_state f) FDE_PENDING \<longrightarrow> fde_events g \<noteq> 0)"
      using r pm f fd_invD(5) [OF inv f(1)]
      by (auto simp: fdevent_subproc_event_def get_fde_def Let_def put_fde_def split: if_splits)
    then show ?thesis using keep by blast
  next
    case False
    have "((fde_state f OR FDE_PENDING) AND NOT FDE_PENDING) AND m = fde_state f AND m"
      if "m \<in> {FDE_ACTIVE, FDE_READ, FDE_WRITE, FDE_PENDING}" for m using that False by (auto simp: state_masks)
    moreover have "S' = put_fde a (f\<lparr>force_eof := True, fde_events := 0, fde_state := (fde_state f OR FDE_PENDING) AND NOT FDE_PENDING\<rparr>) S"
      using False r pm f by (auto simp: fdevent_subproc_event_def fdevent_call_fdfunc_def get_fde_def Let_def put_fde_def state_masks)
    ultimately show ?thesis using False by (auto intro: fd_inv_put_same [OF inv f(1)])
  qed
qed

section \<open>What a round of polling leaves in the fdevents\<close>

definition polled :: "u16 \<Rightarrow> 'cb fdevent \<Rightarrow> 'cb fdevent" where
  "polled ev f = f\<lparr>fde_events := fde_events f OR ev, fde_state := fde_state f OR FDE_PENDING\<rparr>"

lemma process_pollfds_fdes:
  assumes "fd_inv S" and "distinct (map fst ps)" and "fdevent_process_pollfds ps S = Inr S'"
  shows "(\<forall>fd re a pe. (fd, re) \<in> set ps \<longrightarrow> poll_map S fd = Some (a, pe) \<longrightarrow> fdes S' a =
      (if events_of_revents (on_linux S) re = 0 then fdes S a else map_option (polled (events_of_revents (on_linux S) re)) (fdes S a))) \<and>
    (\<forall>a. (\<forall>fd \<in> fst ` set ps. \<forall>pe. poll_map S fd \<noteq> Some (a, pe)) \<longrightarrow> fdes S' a = fdes S a)"
proof -
  have inj: "fd = fd'" if "poll_map S fd = Some (a, pe)" "poll_map S fd' = Some (a, pe')" for fd fd' a pe pe'
    using fd_invD(1) [OF assms(1) that(1)] fd_invD(1) [OF assms(1) that(2)] by (auto simp: node_ok_def split: option.splits)
  have "poll_map T = poll_map S \<Longrightarrow> on_linux T = on_linux S \<Longrightarrow> distinct (map fst ps) \<Longrightarrow> fdevent_process_pollfds ps T = Inr S' \<Longrightarrow>
    (\<forall>fd re a pe. (fd, re) \<in> set ps \<longrightarrow> poll_map S fd = Some (a, pe) \<longrightarrow> fdes S' a =
      (if events_of_revents (on_linux S) re = 0 then fdes T a else map_option (polled (events_of_revents (on_linux S) re)) (fdes T a))) \<and>
    (\<forall>a. (\<forall>fd \<in> fst ` set ps. \<forall>pe. poll_map S fd \<noteq> Some (a, pe)) \<longrightarrow> fdes S' a = fdes T a)" for T
  proof (induction ps arbitrary: T)
    case Nil
    then show ?case by simp
  next
    case (Cons p ps)
    obtain fd re where p: "p = (fd, re)" by force
    let ?ev = "events_of_revents (on_linux S) re"
    show ?case
    proof (cases "?ev = 0")
      case True
      have other: "\<forall>fd' \<in> fst ` set ps. \<forall>pe'. poll_map S fd' \<noteq> Some (a, pe')" if "poll_map S fd = Some (a, pe)" for a pe
        using inj [OF that] Cons.prems(3) p by auto
      have "fdevent_process_pollfds ps T = Inr S'" using Cons.prems p True by simp
      note IH = Cons.IH [OF Cons.prems(1,2) _ this]
      show ?thesis using IH Cons.prems(3) p True other by auto
    next
      case False
      with Cons.prems p obtain a pe f where pm: "poll_map S fd = Some (a, pe)" and f: "fdes T a = Some f"
        and rest: "fdevent_process_pollfds ps ((put_fde a (polled ?ev f) T)\<lparr>pending := pending T @ [a]\<rparr>) = Inr S'"
        by (auto simp: Let_def polled_def split: option.splits)
      have other: "\<forall>fd' \<in> fst ` set ps. \<forall>pe'. poll_map S fd' \<noteq> Some (a, pe')" using inj [OF pm] Cons.prems(3) p by auto
      from Cons.IH [OF _ _ _ rest] Cons.prems(1-3) p have IH:
        "\<forall>fd re b pe. (fd, re) \<in> set ps \<longrightarrow> poll_map S fd = Some (b, pe) \<longrightarrow> fdes S' b =
          (if events_of_revents (on_linux S) re = 0 then ((fdes T)(a \<mapsto> polled ?ev f)) b
           else map_option (polled (events_of_revents (on_linux S) re)) (((fdes T)(a \<mapsto> polled ?ev f)) b))"
        "\<forall>b. (\<forall>fd \<in> fst ` set ps. \<forall>pe. poll_map S fd \<noteq> Some (b, pe)) \<longrightarrow> fdes S' b = ((fdes T)(a \<mapsto> polled ?ev f)) b" by auto
      have a: "fdes S' a = Some (polled ?ev f)" using IH(2) other by auto
      have ne: "b \<noteq> a" if "(fd', re') \<in> set ps" "poll_map S fd' = Some (b, pe')" for fd' re' b pe' using other that by force
      show ?thesis
      proof (intro conjI allI impI)
        fix fd' re' b pe' assume m: "(fd', re') \<in> set (p # ps)" "poll_map S fd' = Some (b, pe')"
        show "fdes S' b = (if events_of_revents (on_linux S) re' = 0 then fdes T b
            else map_option (polled (events_of_revents (on_linux S) re')) (fdes T b))"
        proof (cases "fd' = fd")
          case True
          then have "re' = re" "b = a" using m pm p Cons.prems(3) by force+
          then show ?thesis using a f False by simp
        next
          case False
          then have "(fd', re') \<in> set ps" using m(1) p by auto
          with IH(1) ne [OF this m(2)] m(2) show ?thesis by fastforce
        qed
      next
        fix b assume none: "\<forall>fd \<in> fst ` set (p # ps). \<forall>pe. poll_map S fd \<noteq> Some (b, pe)"
        then have "b \<noteq> a" using pm p by auto
        then show "fdes S' b = fdes T b" using IH(2) none by auto
      qed
    qed
  qed
  from this [of S] assms(2,3) show ?thesis by simp
qed

text \<open>Outside of the pending list no events are left over from an earlier round.\<close>

definition fd_quiet :: "'cb fdsys \<Rightarrow> bool" where
  "fd_quiet S \<longleftrightarrow> (\<forall>a f. fdes S a = Some f \<longrightarrow> \<not> flag (fde_state f) FDE_PENDING \<longrightarrow> fde_events f = 0)"

lemma fd_quiet_update:
  assumes "fd_quiet S" and "\<And>b. b \<noteq> a \<Longrightarrow> fdes S' b = fdes S b" and "\<And>g. fdes S' a = Some g \<Longrightarrow> \<not> flag (fde_state g) FDE_PENDING \<Longrightarrow> fde_events g = 0"
  shows "fd_quiet S'"
  unfolding fd_quiet_def
proof (intro allI impI)
  fix b f assume "fdes S' b = Some f" "\<not> flag (fde_state f) FDE_PENDING"
  then show "fde_events f = 0" using assms by (cases "b = a") (auto simp: fd_quiet_def)
qed

lemma fdevent_install_quiet: "fd_quiet S \<Longrightarrow> fdevent_install a fd func S = Inr S' \<Longrightarrow> fd_quiet S'"
  by (rule fd_quiet_update [of S a]) (auto simp: fdevent_install_def Let_def split: if_splits)

lemma fdevent_create_quiet:
  assumes "fd_quiet S" and "fdevent_create a fd func S = Inr S'"
  shows "fd_quiet S'"
proof -
  from assms(2) obtain S1 f where S1: "fdevent_install a fd func S = Inr S1" "fdes S1 a = Some f"
    and S': "S' = put_fde a (f\<lparr>fde_state := fde_state f OR FDE_CREATED\<rparr>) S1" by (auto simp: fdevent_create_def)
  show ?thesis by (rule fd_quiet_update [OF fdevent_install_quiet [OF assms(1) S1(1)], of a])
    (use fdevent_install_quiet [OF assms(1) S1(1)] S1(2) in \<open>auto simp: S' fd_quiet_def state_masks\<close>)
qed

lemma fdevent_remove_quiet: "fd_quiet S \<Longrightarrow> fdevent_remove a S = Inr S' \<Longrightarrow> fd_quiet S'"
  by (rule fd_quiet_update [of S a]) (auto simp: fdevent_remove_def Let_def fd_quiet_def split: if_splits)

lemma fdevent_destroy_quiet: "fd_quiet S \<Longrightarrow> fdevent_destroy a S = Inr S' \<Longrightarrow> fd_quiet S'"
  by (auto simp: fdevent_destroy_def fd_quiet_def split: if_splits dest!: fdevent_remove_quiet [unfolded fd_quiet_def, rotated])

lemma fdevent_set_quiet:
  assumes "fd_quiet S" and "fdevent_set a e S = Inr S'"
  shows "fd_quiet S'"
proof -
  from fdevent_set_Inr [OF assms(2)] obtain f where f: "fdes S a = Some f"
    and S': "S' = S \<or> fdes S' = (fdes S)(a \<mapsto> set_fde f (e AND FDE_EVENTMASK))" by auto
  have "fde_events (set_fde f (e AND FDE_EVENTMASK)) = 0" if "\<not> flag (fde_state (set_fde f (e AND FDE_EVENTMASK))) FDE_PENDING"
    using that assms(1) f unfolding set_fde_state by (auto simp: set_fde_def Let_def fd_quiet_def)
  then show ?thesis using S' assms(1) by (auto intro: fd_quiet_update [OF assms(1), of a])
qed

lemma process_quiet: "fd_quiet S \<Longrightarrow> fdevent_process_pollfds ps S = Inr S' \<Longrightarrow> fd_quiet S'"
proof (induction ps arbitrary: S)
  case (Cons p ps)
  obtain fd re where p: "p = (fd, re)" by force
  show ?case
  proof (cases "events_of_revents (on_linux S) re = 0")
    case True
    then show ?thesis using Cons p by simp
  next
    case False
    with Cons.prems(2) p obtain a f where
      rest: "fdevent_process_pollfds ps ((put_fde a (polled (events_of_revents (on_linux S) re) f) S)\<lparr>pending := pending S @ [a]\<rparr>) = Inr S'"
      by (auto simp: Let_def polled_def split: option.splits)
    have "fd_quiet ((put_fde a (polled (events_of_revents (on_linux S) re) f) S)\<lparr>pending := pending S @ [a]\<rparr>)"
      by (rule fd_quiet_update [OF Cons.prems(1), of a]) (auto simp: polled_def state_masks)
    from Cons.IH [OF this rest] show ?thesis .
  qed
qed simp

lemma fdevent_call_quiet: "fd_quiet S \<Longrightarrow> fdevent_call_fdfunc a (S\<lparr>pending := rest\<rparr>) = Inr (call, S') \<Longrightarrow> fd_quiet S'"
  by (rule fd_quiet_update [of S a]) (auto simp: fdevent_call_fdfunc_def)

lemma fdevent_subproc_quiet:
  assumes "fd_quiet S" and "fdevent_subproc_event fd rcount S = Inr (call, S')"
  shows "fd_quiet S'"
proof (cases "poll_map S fd")
  case None
  then show ?thesis using assms by (auto simp: fdevent_subproc_event_def fd_quiet_def)
next
  case (Some e)
  then obtain a pe where pm: "poll_map S fd = Some (a, pe)" by (cases e) auto
  show ?thesis
    by (rule fd_quiet_update [OF assms(1), of a])
      (use assms pm in \<open>auto simp: fdevent_subproc_event_def fdevent_call_fdfunc_def get_fde_def Let_def fd_quiet_def split: if_splits option.splits\<close>)
qed

section \<open>Runs of the registry\<close>

text \<open>
  Everything the main thread does with fdevents: the operations its callbacks call, the shell-exit
  handler of adbd, a round of polling, which comes when nothing is pending and whose results are for
  descriptors of the map, each once, and the delivery of the first pending event. An fdevent is
  installed in memory that is not in use as one.
\<close>

inductive fd_step :: "'cb fdsys \<Rightarrow> 'cb fdsys \<Rightarrow> bool" where
  install: "fde_idle a S \<Longrightarrow> fdevent_install a fd func S = Inr S' \<Longrightarrow> fd_step S S'"
| create: "fde_idle a S \<Longrightarrow> fdevent_create a fd func S = Inr S' \<Longrightarrow> fd_step S S'"
| remove: "fdevent_remove a S = Inr S' \<Longrightarrow> fd_step S S'"
| destroy: "fdevent_destroy a S = Inr S' \<Longrightarrow> fd_step S S'"
| set_events: "fdevent_set a e S = Inr S' \<Longrightarrow> fd_step S S'"
| add: "fdevent_add a e S = Inr S' \<Longrightarrow> fd_step S S'"
| del: "fdevent_del a e S = Inr S' \<Longrightarrow> fd_step S S'"
| subproc: "fdevent_subproc_event fd rcount S = Inr (call, S') \<Longrightarrow> fd_step S S'"
| poll: "pending S = [] \<Longrightarrow> distinct (map fst ps) \<Longrightarrow> (\<forall>fd \<in> fst ` set ps. poll_map S fd \<noteq> None) \<Longrightarrow>
    fdevent_process (Some ps) S = Inr S' \<Longrightarrow> fd_step S S'"
| poll_fails: "pending S = [] \<Longrightarrow> fdevent_process None S = Inr S' \<Longrightarrow> fd_step S S'"
| deliver: "pending S = a # rest \<Longrightarrow> fdevent_call_fdfunc a (S\<lparr>pending := rest\<rparr>) = Inr (call, S') \<Longrightarrow> fd_step S S'"

inductive fd_reachable :: "'cb fdsys \<Rightarrow> bool" where
  init: "fd_reachable (fdsys_init linux)"
| step: "fd_reachable S \<Longrightarrow> fd_step S S' \<Longrightarrow> fd_reachable S'"

lemma fd_step_inv: "fd_step S S' \<Longrightarrow> fd_inv S \<Longrightarrow> fd_inv S'"
proof (induction rule: fd_step.induct)
  case (poll S ps S')
  then show ?case
    using fdevent_process_pollfds_ok [of S ps] by (auto simp: fdevent_process_def split: if_splits)
next
  case (deliver S a rest call S')
  then show ?case using fdevent_call_inv [of S a rest] by auto
next
  case (poll_fails S S')
  then show ?case by (auto simp: fdevent_process_def split: if_splits)
qed (auto intro: fdevent_install_inv fdevent_create_inv fdevent_remove_inv fdevent_destroy_inv fdevent_set_inv fdevent_add_inv
    fdevent_del_inv fdevent_subproc_inv)

lemma fd_step_quiet: "fd_step S S' \<Longrightarrow> fd_quiet S \<Longrightarrow> fd_quiet S'"
proof (induction rule: fd_step.induct)
  case (poll S ps S')
  then show ?case using process_quiet [of S ps S'] by (auto simp: fdevent_process_def split: if_splits)
next
  case (poll_fails S S')
  then show ?case by (auto simp: fdevent_process_def split: if_splits)
next
  case (add a e S S')
  then show ?case by (auto simp: fdevent_add_def dest: fdevent_set_quiet)
next
  case (del a e S S')
  then show ?case by (auto simp: fdevent_del_def dest: fdevent_set_quiet)
qed (auto intro: fdevent_install_quiet fdevent_create_quiet fdevent_remove_quiet fdevent_destroy_quiet fdevent_set_quiet
    fdevent_subproc_quiet fdevent_call_quiet)

lemma fd_reachable_fd_inv: "fd_reachable S \<Longrightarrow> fd_inv S"
  by (induction rule: fd_reachable.induct) (auto intro: fdsys_init_inv fd_step_inv)

lemma fd_reachable_quiet: "fd_reachable S \<Longrightarrow> fd_quiet S"
  by (induction rule: fd_reachable.induct) (auto simp: fdsys_init_def fd_quiet_def dest!: fd_step_quiet [unfolded fd_quiet_def])

text \<open>
  C3: in every state the event loop can reach, by any order of installing, creating, removing and
  destroying fdevents, of changing their events, of notices of ended shells, of polling and of
  deliveries, each descriptor in the poll map belongs to a live, active fdevent with that descriptor
  and is polled for exactly the events the fdevent asks for, every active fdevent is in the map, and
  the pending list holds, without repetition, exactly the fdevents whose pending flag is set, each
  with an event to deliver; no two active fdevents share a descriptor, and an fdevent that is not
  pending has no events left over.
\<close>

theorem fd_reachable_inv:
  assumes "fd_reachable S"
  shows "fd_inv S \<and> (\<forall>a b f g. fdes S a = Some f \<longrightarrow> fdes S b = Some g \<longrightarrow>
    flag (fde_state f) FDE_ACTIVE \<longrightarrow> flag (fde_state g) FDE_ACTIVE \<longrightarrow> fde_fd f = fde_fd g \<longrightarrow> a = b) \<and>
    (\<forall>a f. fdes S a = Some f \<longrightarrow> \<not> flag (fde_state f) FDE_PENDING \<longrightarrow> fde_events f = 0)"
  using fd_reachable_fd_inv [OF assms] fd_inv_same_fd fd_reachable_quiet [OF assms, unfolded fd_quiet_def] by blast

text \<open>A notification fdevent as the loop creates it, and a socket; then data on the first one.\<close>

definition demo_fdsys :: "unit fdsys" where
  "demo_fdsys = \<lparr>fdes = [1 \<mapsto> \<lparr>fde_fd = 5, force_eof = False, fde_state = 0x501, fde_events = 0, fde_func = ()\<rparr>,
       2 \<mapsto> \<lparr>fde_fd = 6, force_eof = False, fde_state = 0x100, fde_events = 0, fde_func = ()\<rparr>],
     poll_map = [5 \<mapsto> (1, 0x2001), 6 \<mapsto> (2, 0x2000)], pending = [], closed_fds = [], on_linux = True\<rparr>"

definition demo_polled :: "unit fdsys" where
  "demo_polled = \<lparr>fdes = [2 \<mapsto> \<lparr>fde_fd = 6, force_eof = False, fde_state = 0x100, fde_events = 0, fde_func = ()\<rparr>,
       1 \<mapsto> \<lparr>fde_fd = 5, force_eof = False, fde_state = 0x701, fde_events = FDE_READ, fde_func = ()\<rparr>],
     poll_map = [5 \<mapsto> (1, 0x2001), 6 \<mapsto> (2, 0x2000)], pending = [1], closed_fds = [], on_linux = True\<rparr>"

lemma demo_fdsys_reachable: "fd_reachable demo_fdsys"
proof -
  define S1 :: "unit fdsys" where "S1 = \<lparr>fdes = [1 \<mapsto> \<lparr>fde_fd = 5, force_eof = False, fde_state = 0x500, fde_events = 0, fde_func = ()\<rparr>],
     poll_map = [5 \<mapsto> (1, 0x2000)], pending = [], closed_fds = [], on_linux = True\<rparr>"
  define S2 :: "unit fdsys" where "S2 = \<lparr>fdes = [1 \<mapsto> \<lparr>fde_fd = 5, force_eof = False, fde_state = 0x501, fde_events = 0, fde_func = ()\<rparr>],
     poll_map = [5 \<mapsto> (1, 0x2001)], pending = [], closed_fds = [], on_linux = True\<rparr>"
  have "fd_step (fdsys_init True) S1"
    by (rule fd_step.create [of 1 _ 5 "()"])
       (simp_all add: fde_idle_def fdsys_init_def fdevent_create_def fdevent_install_def put_fde_def get_fde_def S1_def fde_flags)
  then have "fd_reachable S1" by (rule fd_reachable.step [OF fd_reachable.init])
  moreover have "fd_step S1 S2"
    by (rule fd_step.add [of 1 FDE_READ])
       (simp add: fdevent_add_def fdevent_set_def fdevent_update_def poll_events_for_def get_fde_def put_fde_def S1_def S2_def fde_flags)
  ultimately have "fd_reachable S2" by (rule fd_reachable.step)
  moreover have "fd_step S2 demo_fdsys"
    by (rule fd_step.install [of 2 _ 6 "()"])
       (simp_all add: fde_idle_def S2_def fdevent_install_def put_fde_def demo_fdsys_def fde_flags)
  ultimately show ?thesis by (rule fd_reachable.step)
qed

lemma demo_polled_reachable: "fd_reachable demo_polled"
proof (rule fd_reachable.step [OF demo_fdsys_reachable])
  have "fdevent_process (Some [(5, POLLIN), (6, 0)]) demo_fdsys = Inr demo_polled"
    by (simp add: fdevent_process_def demo_fdsys_def demo_polled_def events_of_revents_def get_fde_def put_fde_def fde_flags)
  then show "fd_step demo_fdsys demo_polled" by (rule fd_step.poll [rotated -1]) (simp_all add: demo_fdsys_def)
qed

lemma demo_polled_simps: "pending demo_polled = [1]"
  "fdes demo_polled 2 = Some \<lparr>fde_fd = 6, force_eof = False, fde_state = 0x100, fde_events = 0, fde_func = ()\<rparr>"
  by (simp_all add: demo_polled_def)

theorem fd_reachable_inv_witness:
  "fd_reachable demo_polled \<and> pending demo_polled = [1] \<and> fd_inv demo_polled \<and>
   (\<exists>f. fdes demo_polled 2 = Some f \<and> \<not> flag (fde_state f) FDE_PENDING \<and> fde_events f = 0)"
proof -
  note inv = fd_reachable_inv [OF demo_polled_reachable]
  have "\<not> flag 0x100 FDE_PENDING" by (simp add: fde_flags)
  then have "\<exists>f. fdes demo_polled 2 = Some f \<and> \<not> flag (fde_state f) FDE_PENDING \<and> fde_events f = 0"
    using inv demo_polled_simps(2) by auto
  then show ?thesis using inv demo_polled_reachable demo_polled_simps(1) by blast
qed



end
