(* ===== verification/Transport_Registry.thy ===== *)
theory Transport_Registry
  imports Packets Fdevent
begin

text \<open>
  The set of transports: the lists of transport.cpp (pending and registered transports, the
  registration socket, reference counts of the two threads of each transport), choosing a
  transport for a client, listing them, and the table of emulator slots and the socket
  functions of transport\_local.cpp.

  Transports are objects by address in \<open>trs\<close>; \<open>delete\<close> removes the object. The registration
  socket pair is the queue \<open>reg_msgs\<close> of (transport, action). A transport's fdevent has the
  transport's address in \<open>reg_fds\<close>. Locks are left out: each operation below runs under
  transport\_lock or on the main thread. The threads started for a transport are the two
  references it gets.
\<close>

record registry =
  trs :: "addr \<rightharpoonup> atransport"
  reg_next :: addr
  transport_list :: "addr list"
  pending_list :: "addr list"
  reg_msgs :: "(addr \<times> nat) list"
  reg_fds :: "addr fdsys"
  local_transports :: "addr option list"
  retry_ports :: "(int \<times> nat) list"
  shut_fds :: "fd list"
  freed_fds :: "fd list"
  usb_kicks :: "nat option list"
  usb_closes :: "nat option list"

definition ADB_LOCAL_TRANSPORT_MAX :: nat where "ADB_LOCAL_TRANSPORT_MAX = 16"
definition LOCAL_PORT_RETRY_COUNT :: nat where "LOCAL_PORT_RETRY_COUNT = 60"

definition registry_init :: "bool \<Rightarrow> registry" where
  "registry_init linux =
    \<lparr>trs = Map.empty, reg_next = 1, transport_list = [], pending_list = [], reg_msgs = [],
     reg_fds = fdsys_init linux, local_transports = replicate ADB_LOCAL_TRANSPORT_MAX None,
     retry_ports = [], shut_fds = [], freed_fds = [], usb_kicks = [], usb_closes = []\<rparr>"

definition get_tr :: "addr \<Rightarrow> registry \<Rightarrow> atransport res" where
  "get_tr a R = (case trs R a of None \<Rightarrow> Inl (InvalidAccess a) | Some t \<Rightarrow> Inr t)"

definition put_tr :: "addr \<Rightarrow> atransport \<Rightarrow> registry \<Rightarrow> registry" where
  "put_tr a t R = R\<lparr>trs := (trs R)(a \<mapsto> t)\<rparr>"

definition zero_fde :: "addr \<Rightarrow> addr fdevent" where
  "zero_fde a = \<lparr>fde_fd = 0, force_eof = False, fde_state = 0, fde_events = 0, fde_func = a\<rparr>"

definition alloc_tr :: "ConnectionState \<Rightarrow> registry \<Rightarrow> addr \<times> registry" where
  "alloc_tr st R =
    (let a = reg_next R in
     (a, (put_tr a (new_atransport st) R)\<lparr>reg_next := a + 1, reg_fds := put_fde a (zero_fde a) (reg_fds R)\<rparr>))"

definition delete_tr :: "addr \<Rightarrow> registry \<Rightarrow> registry" where
  "delete_tr a R =
    R\<lparr>trs := (trs R)(a := None), reg_fds := (reg_fds R)\<lparr>fdes := (fdes (reg_fds R))(a := None)\<rparr>\<rparr>"

section \<open>transport\_local.cpp: slots and socket functions\<close>

fun clear_slot :: "addr \<Rightarrow> addr option list \<Rightarrow> addr option list" where
  "clear_slot a [] = []"
| "clear_slot a (x # xs) = (if x = Some a then None # xs else x # clear_slot a xs)"

definition socket_remote_kick :: "build \<Rightarrow> addr \<Rightarrow> registry \<Rightarrow> registry res" where
  "socket_remote_kick b a R =
    bindR (get_tr a R) (\<lambda>t.
      let fd = sfd t;
          R1 = (put_tr a (t\<lparr>sfd := -1\<rparr>) R)\<lparr>shut_fds := shut_fds R @ [fd], freed_fds := freed_fds R @ [fd]\<rparr>
      in Inr (if ADB_HOST b then R1\<lparr>local_transports := clear_slot a (local_transports R1)\<rparr> else R1))"

definition socket_remote_close :: "build \<Rightarrow> addr \<Rightarrow> registry \<Rightarrow> registry res" where
  "socket_remote_close b a R =
    bindR (get_tr a R) (\<lambda>t.
      let fd = sfd t;
          R1 = (if fd \<noteq> -1 then (put_tr a (t\<lparr>sfd := -1\<rparr>) R)\<lparr>freed_fds := freed_fds R @ [fd]\<rparr> else R)
      in Inr (if ADB_HOST b then
                (case GetLocalPortForEmulator t of
                   Some local_port \<Rightarrow>
                     R1\<lparr>retry_ports := retry_ports R1 @ [(local_port, LOCAL_PORT_RETRY_COUNT)]\<rparr>
                 | None \<Rightarrow> R1)
              else R1))"

fun find_emulator_in :: "registry \<Rightarrow> int \<Rightarrow> addr option list \<Rightarrow> addr option res" where
  "find_emulator_in R port [] = Inr None"
| "find_emulator_in R port (None # xs) = find_emulator_in R port xs"
| "find_emulator_in R port (Some a # xs) =
    bindR (get_tr a R) (\<lambda>t.
      if GetLocalPortForEmulator t = Some port then Inr (Some a) else find_emulator_in R port xs)"

definition find_emulator_transport_by_adb_port :: "int \<Rightarrow> registry \<Rightarrow> addr option res" where
  "find_emulator_transport_by_adb_port adb_port R = find_emulator_in R adb_port (local_transports R)"

definition getEmulatorSerialString :: "int \<Rightarrow> string" where
  "getEmulatorSerialString console_port = ''emulator-'' @ dec_of_int console_port"

fun first_free :: "addr option list \<Rightarrow> nat option" where
  "first_free [] = None"
| "first_free (None # xs) = Some 0"
| "first_free (Some a # xs) = map_option Suc (first_free xs)"

definition get_available_local_transport_index :: "registry \<Rightarrow> nat option" where
  "get_available_local_transport_index R = first_free (local_transports R)"

definition init_socket_transport :: "build \<Rightarrow> addr \<Rightarrow> fd \<Rightarrow> int \<Rightarrow> bool \<Rightarrow> registry \<Rightarrow> (bool \<times> registry) res" where
  "init_socket_transport b a s adb_port local R =
    bindR (get_tr a R) (\<lambda>t0.
      let t = t0\<lparr>funcs := SocketFuncs, sfd := s, sync_token := 1, tr_type := kTransportLocal\<rparr>;
          R1 = put_tr a t R in
      if ADB_HOST b \<and> local then
        bindR (SetLocalPortForEmulator adb_port t) (\<lambda>t1.
        let R2 = put_tr a t1 R in
        bindR (find_emulator_transport_by_adb_port adb_port R2) (\<lambda>existing.
          case existing of
            Some _ \<Rightarrow> Inr (False, R2)
          | None \<Rightarrow>
              (case get_available_local_transport_index R2 of
                 None \<Rightarrow> Inr (False, R2)
               | Some i \<Rightarrow> Inr (True, R2\<lparr>local_transports := (local_transports R2)[i := Some a]\<rparr>))))
      else Inr (True, R1))"

section \<open>Kicking\<close>

definition usb_remote_kick :: "addr \<Rightarrow> registry \<Rightarrow> registry res" where
  "usb_remote_kick a R = bindR (get_tr a R) (\<lambda>t. Inr (R\<lparr>usb_kicks := usb_kicks R @ [usb t]\<rparr>))"

definition usb_remote_close :: "addr \<Rightarrow> registry \<Rightarrow> registry res" where
  "usb_remote_close a R =
    bindR (get_tr a R) (\<lambda>t.
      Inr ((put_tr a (t\<lparr>usb := None\<rparr>) R)\<lparr>usb_closes := usb_closes R @ [usb t]\<rparr>))"

definition Kick :: "build \<Rightarrow> addr \<Rightarrow> registry \<Rightarrow> registry res" where
  "Kick b a R =
    bindR (get_tr a R) (\<lambda>t.
      if \<not> kicked t then
        let R1 = put_tr a (t\<lparr>kicked := True\<rparr>) R in
        (case funcs t of
           NoFuncs \<Rightarrow> Inl (Fatal ''CHECK(kick_func_ != nullptr)'')
         | SocketFuncs \<Rightarrow> socket_remote_kick b a R1
         | UsbFuncs \<Rightarrow> usb_remote_kick a R1)
      else Inr R)"

definition kick_transport :: "build \<Rightarrow> addr \<Rightarrow> registry \<Rightarrow> registry res" where
  "kick_transport b a R = (if a \<in> set (transport_list R) then Kick b a R else Inr R)"

fun kick_each :: "build \<Rightarrow> (atransport \<Rightarrow> bool) \<Rightarrow> addr list \<Rightarrow> registry \<Rightarrow> registry res" where
  "kick_each b P [] R = Inr R"
| "kick_each b P (a # as) R =
    bindR (get_tr a R) (\<lambda>t.
    bindR (if P t then Kick b a R else Inr R) (kick_each b P as))"

definition kick_all_transports :: "build \<Rightarrow> registry \<Rightarrow> registry res" where
  "kick_all_transports b R = kick_each b (\<lambda>t. True) (transport_list R) R"

definition close_usb_devices :: "build \<Rightarrow> (atransport \<Rightarrow> bool) \<Rightarrow> registry \<Rightarrow> registry res" where
  "close_usb_devices b pred R = kick_each b pred (transport_list R) R"

definition kick_all_tcp_devices :: "build \<Rightarrow> registry \<Rightarrow> registry res" where
  "kick_all_tcp_devices b R = kick_each b IsTcpDevice (transport_list R) R"

fun iterate_list :: "registry \<Rightarrow> (atransport \<Rightarrow> bool) \<Rightarrow> addr list \<Rightarrow> bool res" where
  "iterate_list R fn [] = Inr True"
| "iterate_list R fn (a # as) =
    bindR (get_tr a R) (\<lambda>t. if \<not> fn t then Inr False else iterate_list R fn as)"

definition iterate_transports :: "(atransport \<Rightarrow> bool) \<Rightarrow> registry \<Rightarrow> bool res" where
  "iterate_transports fn R =
    bindR (iterate_list R fn (transport_list R)) (\<lambda>ok.
      if \<not> ok then Inr False else iterate_list R fn (pending_list R))"

section \<open>Registering and removing\<close>

definition register_transport :: "addr \<Rightarrow> registry \<Rightarrow> registry" where
  "register_transport a R = R\<lparr>reg_msgs := reg_msgs R @ [(a, 1)]\<rparr>"

definition remove_transport :: "addr \<Rightarrow> registry \<Rightarrow> registry" where
  "remove_transport a R = R\<lparr>reg_msgs := reg_msgs R @ [(a, 0)]\<rparr>"

definition transport_unref :: "build \<Rightarrow> addr \<Rightarrow> registry \<Rightarrow> registry res" where
  "transport_unref b a R =
    bindR (get_tr a R) (\<lambda>t.
      let old = ref_count t in
      if old = 0 then Inl (Fatal ''CHECK_GT(old_refcount, 0u)'')
      else let R1 = put_tr a (t\<lparr>ref_count := old - 1\<rparr>) R in
        if old = 1 then
          bindR (case funcs t of
                   NoFuncs \<Rightarrow> Inl NullDeref
                 | SocketFuncs \<Rightarrow> socket_remote_close b a R1
                 | UsbFuncs \<Rightarrow> usb_remote_close a R1) (\<lambda>R2.
            Inr (remove_transport a R2))
        else Inr R1)"

text \<open>
  \<open>transport_registration_func\<close> on the next message: \<open>sp\<close> is the socket pair adb\_socketpair
  gives. Both branches then call update\_transports().
\<close>

definition transport_registration_func :: "(fd \<times> fd) option \<Rightarrow> registry \<Rightarrow> registry res" where
  "transport_registration_func sp R0 =
    (case reg_msgs R0 of
       [] \<Rightarrow> Inl (Fatal ''cannot read transport registration socket'')
     | (a, action) # rest \<Rightarrow>
         (let R = R0\<lparr>reg_msgs := rest\<rparr> in
          bindR (get_tr a R) (\<lambda>t.
            if action = 0 then
              bindR (fdevent_remove a (reg_fds R)) (\<lambda>F.
                Inr (delete_tr a (R\<lparr>reg_fds := F, freed_fds := freed_fds R @ [at_fd t],
                       transport_list := removeAll a (transport_list R)\<rparr>)))
            else
              bindR (if connection_state t \<noteq> kCsNoPerm then
                       (case sp of
                          None \<Rightarrow> Inl (Fatal ''cannot open transport socketpair'')
                        | Some (s0, s1) \<Rightarrow>
                            bindR (fdevent_install a s0 a (reg_fds R)) (\<lambda>F.
                            bindR (fdevent_set a FDE_READ F) (\<lambda>F1.
                              Inr ((put_tr a (t\<lparr>ref_count := 2, transport_socket := s0, at_fd := s1\<rparr>) R)
                                   \<lparr>reg_fds := F1\<rparr>))))
                     else Inr R) (\<lambda>R1.
              Inr (R1\<lparr>pending_list := removeAll a (pending_list R1),
                      transport_list := a # transport_list R1\<rparr>)))))"

definition serial_in :: "string \<Rightarrow> registry \<Rightarrow> addr \<Rightarrow> bool" where
  "serial_in s R a \<longleftrightarrow> (case trs R a of Some t \<Rightarrow> serial t = Some s | None \<Rightarrow> False)"

fun find_serial :: "string \<Rightarrow> registry \<Rightarrow> addr list \<Rightarrow> addr option res" where
  "find_serial s R [] = Inr None"
| "find_serial s R (a # as) =
    bindR (get_tr a R) (\<lambda>t. if serial t = Some s then Inr (Some a) else find_serial s R as)"

definition register_socket_transport ::
    "build \<Rightarrow> fd \<Rightarrow> string option \<Rightarrow> int \<Rightarrow> bool \<Rightarrow> registry \<Rightarrow> (bool \<times> registry) res" where
  "register_socket_transport b s serial0 port local R0 =
    (case alloc_tr kCsOffline R0 of (a, R) \<Rightarrow>
      let ser = (case serial0 of Some x \<Rightarrow> x | None \<Rightarrow> ''T-0x'' @ hex_of_nat a) in
      bindR (init_socket_transport b a s port local R) (\<lambda>(ok, R1).
        if \<not> ok then Inr (False, delete_tr a R1)
        else bindR (find_serial ser R1 (pending_list R1)) (\<lambda>p.
          case p of
            Some _ \<Rightarrow> Inr (False, delete_tr a R1)
          | None \<Rightarrow>
              bindR (find_serial ser R1 (transport_list R1)) (\<lambda>q.
                case q of
                  Some _ \<Rightarrow> Inr (False, delete_tr a R1)
                | None \<Rightarrow>
                    bindR (get_tr a R1) (\<lambda>t.
                      Inr (True, register_transport a
                        ((put_tr a (t\<lparr>serial := Some ser\<rparr>) R1)
                         \<lparr>pending_list := a # pending_list R1\<rparr>)))))))"

definition find_transport :: "string \<Rightarrow> registry \<Rightarrow> addr option res" where
  "find_transport s R = find_serial s R (transport_list R)"

definition find_emulator_transport_by_console_port :: "int \<Rightarrow> registry \<Rightarrow> addr option res" where
  "find_emulator_transport_by_console_port console_port R =
    find_transport (getEmulatorSerialString console_port) R"

definition init_usb_transport :: "nat \<Rightarrow> atransport \<Rightarrow> atransport" where
  "init_usb_transport h t = t\<lparr>funcs := UsbFuncs, sync_token := 1, tr_type := kTransportUsb, usb := Some h\<rparr>"

definition register_usb_transport ::
    "nat \<Rightarrow> string option \<Rightarrow> string option \<Rightarrow> bool \<Rightarrow> registry \<Rightarrow> registry res" where
  "register_usb_transport h serial0 devpath0 writeable R0 =
    (case alloc_tr (if writeable then kCsOffline else kCsNoPerm) R0 of (a, R) \<Rightarrow>
      bindR (get_tr a R) (\<lambda>t0.
        let t1 = init_usb_transport h t0;
            t2 = (case serial0 of Some s \<Rightarrow> t1\<lparr>serial := Some s\<rparr> | None \<Rightarrow> t1);
            t3 = (case devpath0 of Some s \<Rightarrow> t2\<lparr>devpath := Some s\<rparr> | None \<Rightarrow> t2)
        in Inr (register_transport a ((put_tr a t3 R)\<lparr>pending_list := a # pending_list R\<rparr>))))"

fun drop_noperm :: "registry \<Rightarrow> nat \<Rightarrow> addr list \<Rightarrow> addr list res" where
  "drop_noperm R h [] = Inr []"
| "drop_noperm R h (a # as) =
    bindR (get_tr a R) (\<lambda>t.
    bindR (drop_noperm R h as) (\<lambda>rest.
      Inr (if usb t = Some h \<and> connection_state t = kCsNoPerm then rest else a # rest)))"

definition unregister_usb_transport :: "nat \<Rightarrow> registry \<Rightarrow> registry res" where
  "unregister_usb_transport h R =
    bindR (drop_noperm R h (transport_list R)) (\<lambda>l. Inr (R\<lparr>transport_list := l\<rparr>))"

section \<open>Choosing a transport\<close>

text \<open>
  The environment of \<open>acquire_one_transport\<close>: the build, the answers the help texts need, and the
  value of the variable ADB\_VENDOR\_KEYS. The loop carries (result, error\_out, is\_ambiguous).
\<close>

record acquire_env =
  acq_build :: build
  acq_udev :: udev_info
  ADB_VENDOR_KEYS :: "string option"

definition default_error :: "TransportType \<Rightarrow> string option \<Rightarrow> string" where
  "default_error type serial0 =
    (case serial0 of
       Some s \<Rightarrow> ''device '' @ quoted s @ '' not found''
     | None \<Rightarrow>
         if type = kTransportLocal then ''no emulators found''
         else if type = kTransportAny then ''no devices/emulators found''
         else ''no devices found'')"

definition ambiguous_error :: "TransportType \<Rightarrow> string option \<Rightarrow> string" where
  "ambiguous_error type serial0 =
    (case serial0 of
       Some s \<Rightarrow> ''more than one device''
     | None \<Rightarrow>
         if type = kTransportUsb then ''more than one device''
         else if type = kTransportLocal then ''more than one emulator''
         else ''more than one device/emulator'')"

definition selects :: "libbase \<Rightarrow> TransportType \<Rightarrow> string option \<Rightarrow> atransport \<Rightarrow> bool" where
  "selects B type serial0 t \<longleftrightarrow>
    (case serial0 of
       Some s \<Rightarrow> MatchesTarget B t s
     | None \<Rightarrow>
         if type = kTransportUsb \<and> tr_type t = kTransportUsb then True
         else if type = kTransportLocal \<and> tr_type t = kTransportLocal then True
         else type = kTransportAny)"

fun acquire_loop ::
    "libbase \<Rightarrow> acquire_env \<Rightarrow> registry \<Rightarrow> TransportType \<Rightarrow> string option \<Rightarrow> addr list \<Rightarrow>
     addr option \<times> string \<times> bool \<Rightarrow> (addr option \<times> string \<times> bool) res" where
  "acquire_loop B env R type serial0 [] acc = Inr acc"
| "acquire_loop B env R type serial0 (a # as) (result, err, amb) =
    bindR (get_tr a R) (\<lambda>t.
      if connection_state t = kCsNoPerm then
        acquire_loop B env R type serial0 as
          (result, if ADB_HOST (acq_build env) then UsbNoPermissionsLongHelpText (acq_udev env) else err, amb)
      else if selects B type serial0 t then
        (case result of
           Some _ \<Rightarrow> Inr (None, ambiguous_error type serial0, True)
         | None \<Rightarrow> acquire_loop B env R type serial0 as (Some a, err, amb))
      else acquire_loop B env R type serial0 as (result, err, amb))"

definition unauthorized_error :: "acquire_env \<Rightarrow> string" where
  "unauthorized_error env =
    ''device unauthorized.'' @ [CHR 0x0A] @ ''This adb server'' @ [CHR 0x27] @ ''s $ADB_VENDOR_KEYS is '' @
    (case ADB_VENDOR_KEYS env of Some k \<Rightarrow> k | None \<Rightarrow> ''not set'') @ [CHR 0x0A] @
    ''Try '' @ quoted ''adb kill-server'' @ '' if that seems wrong.'' @ [CHR 0x0A] @
    ''Otherwise check for a confirmation dialog on your device.''"

definition acquire_one_transport ::
    "libbase \<Rightarrow> acquire_env \<Rightarrow> TransportType \<Rightarrow> string option \<Rightarrow> bool \<Rightarrow> registry \<Rightarrow>
     (addr option \<times> string \<times> bool) res" where
  "acquire_one_transport B env type serial0 accept_any_state R =
    bindR (acquire_loop B env R type serial0 (transport_list R) (None, default_error type serial0, False))
      (\<lambda>(result, err, amb).
        case result of
          None \<Rightarrow> Inr (None, err, amb)
        | Some a \<Rightarrow>
            bindR (get_tr a R) (\<lambda>t.
              if connection_state t = kCsUnauthorized \<and> \<not> accept_any_state
              then Inr (None, unauthorized_error env, amb)
              else if connection_state t = kCsOffline \<and> \<not> accept_any_state
              then Inr (None, ''device offline'', amb)
              else Inr (Some a, ''success'', amb)))"

section \<open>Listing transports\<close>

definition append_transport_info :: "string \<Rightarrow> string option \<Rightarrow> bool \<Rightarrow> string" where
  "append_transport_info key val sanitize =
    (case val of
       None \<Rightarrow> []
     | Some v \<Rightarrow> if v = [] then [] else '' '' @ key @ sanitized sanitize v)"

definition pad_right :: "nat \<Rightarrow> string \<Rightarrow> string" where
  "pad_right n s = s @ replicate (n - length s) (CHR '' '')"

definition append_transport :: "udev_info \<Rightarrow> bool \<Rightarrow> atransport \<Rightarrow> string" where
  "append_transport u long_listing t =
    (let ser = (case serial t of Some s \<Rightarrow> if s = [] then ''(no serial number)'' else s
                | None \<Rightarrow> ''(no serial number)'') in
     (if \<not> long_listing then ser @ [CHR 0x09] @ connection_state_name u t
      else pad_right 22 ser @ '' '' @ connection_state_name u t @
           append_transport_info [] (devpath t) False @
           append_transport_info ''product:'' (product t) False @
           append_transport_info ''model:'' (model t) True @
           append_transport_info ''device:'' (device t) False)
     @ [CHR 0x0A])"

fun list_each :: "udev_info \<Rightarrow> bool \<Rightarrow> registry \<Rightarrow> addr list \<Rightarrow> string res" where
  "list_each u long_listing R [] = Inr []"
| "list_each u long_listing R (a # as) =
    bindR (get_tr a R) (\<lambda>t.
    bindR (list_each u long_listing R as) (\<lambda>rest. Inr (append_transport u long_listing t @ rest)))"

definition list_transports :: "udev_info \<Rightarrow> bool \<Rightarrow> registry \<Rightarrow> string res" where
  "list_transports u long_listing R = list_each u long_listing R (transport_list R)"

section \<open>acquire\_one\_transport gives the one match\<close>

lemma get_tr_Inr [simp]: "get_tr a R = Inr t \<longleftrightarrow> trs R a = Some t"
  by (simp add: get_tr_def split: option.splits)

definition matching :: "libbase \<Rightarrow> TransportType \<Rightarrow> string option \<Rightarrow> registry \<Rightarrow> addr list \<Rightarrow> addr list" where
  "matching B type serial0 R as =
    filter (\<lambda>a. case trs R a of None \<Rightarrow> False
      | Some t \<Rightarrow> connection_state t \<noteq> kCsNoPerm \<and> selects B type serial0 t) as"

fun loop_outcome ::
    "string \<Rightarrow> string \<Rightarrow> bool \<Rightarrow> addr option \<Rightarrow> addr list \<Rightarrow> addr option \<times> string \<times> bool" where
  "loop_outcome amb_err err amb r [] = (r, err, amb)"
| "loop_outcome amb_err err amb None [a] = (Some a, err, amb)"
| "loop_outcome amb_err err amb _ _ = (None, amb_err, True)"

lemma loop_outcome_Some [simp]:
  "loop_outcome amb_err err amb (Some r) (a # as) = (None, amb_err, True)"
  "loop_outcome amb_err err amb None (a # as) = loop_outcome amb_err err amb (Some a) as"
  by (cases as; simp)+

text \<open>Whether a listed transport may not be used for lack of permission.\<close>

definition forbidden :: "registry \<Rightarrow> addr list \<Rightarrow> bool" where
  "forbidden R as \<longleftrightarrow> (\<exists>a \<in> set as. connection_state (the (trs R a)) = kCsNoPerm)"

text \<open>The message when nothing is given: it depends on the matches and, when there are none, on the permissions.\<close>

definition acquire_error :: "acquire_env \<Rightarrow> TransportType \<Rightarrow> string option \<Rightarrow> registry \<Rightarrow> addr list \<Rightarrow> string" where
  "acquire_error env type serial0 R ms =
    (case ms of
       [] \<Rightarrow> if ADB_HOST (acq_build env) \<and> forbidden R (transport_list R) then UsbNoPermissionsLongHelpText (acq_udev env)
            else default_error type serial0
     | [a] \<Rightarrow> if connection_state (the (trs R a)) = kCsUnauthorized then unauthorized_error env else ''device offline''
     | _ \<Rightarrow> ambiguous_error type serial0)"

lemma acquire_error_no_success: "acquire_error env type serial0 R ms \<noteq> ''success''"
  by (simp add: acquire_error_def default_error_def ambiguous_error_def unauthorized_error_def UsbNoPermissionsLongHelpText_def
      Let_def split: list.splits option.splits)

lemma acquire_loop_matching:
  "set as \<subseteq> dom (trs R) \<Longrightarrow>
   acquire_loop B env R type serial0 as (result, err, amb) =
     Inr (loop_outcome (ambiguous_error type serial0)
       (if ADB_HOST (acq_build env) \<and> forbidden R as then UsbNoPermissionsLongHelpText (acq_udev env) else err)
       amb result (matching B type serial0 R as))"
proof (induction as arbitrary: result err)
  case Nil
  then show ?case by (cases result) (simp_all add: matching_def forbidden_def)
next
  case (Cons a as)
  then obtain t where t: "trs R a = Some t" and as: "set as \<subseteq> dom (trs R)" by auto
  show ?case
  proof (cases "connection_state t \<noteq> kCsNoPerm \<and> selects B type serial0 t")
    case False
    then have m: "matching B type serial0 R (a # as) = matching B type serial0 R as"
      using t by (simp add: matching_def)
    show ?thesis unfolding m using t False Cons.IH [OF as] by (auto simp: get_tr_def forbidden_def)
  next
    case True
    then have m: "matching B type serial0 R (a # as) = a # matching B type serial0 R as"
      using t by (simp add: matching_def)
    show ?thesis
      unfolding m using True t Cons.IH [OF as, of "Some a" err]
      by (cases result) (simp_all add: get_tr_def forbidden_def)
  qed
qed

lemma acquire_outcome_error:
  assumes "set (transport_list R) \<subseteq> dom (trs R)"
  shows "\<exists>r err amb. acquire_one_transport B env type serial0 any R = Inr (r, err, amb) \<and>
    (\<forall>a. r = Some a \<longleftrightarrow> matching B type serial0 R (transport_list R) = [a] \<and>
       (\<exists>t. trs R a = Some t \<and> (any \<or> connection_state t \<notin> {kCsOffline, kCsUnauthorized}))) \<and>
    (amb \<longleftrightarrow> 2 \<le> length (matching B type serial0 R (transport_list R))) \<and>
    err = (if r \<noteq> None then ''success'' else acquire_error env type serial0 R (matching B type serial0 R (transport_list R)))"
proof -
  let ?m = "matching B type serial0 R (transport_list R)"
  note loop = acquire_loop_matching [OF assms, of B env type serial0 None "default_error type serial0" False]
  show ?thesis
  proof (cases ?m)
    case Nil
    then show ?thesis using loop by (force simp: acquire_one_transport_def acquire_error_def)
  next
    case (Cons a ms)
    then have "a \<in> set ?m" by simp
    then obtain t where t: "trs R a = Some t" by (auto simp: matching_def split: option.splits)
    show ?thesis
    proof (cases ms)
      case Nil
      then show ?thesis using loop Cons t by (auto simp: acquire_one_transport_def get_tr_def acquire_error_def)
    next
      case (Cons a' ms')
      then show ?thesis using loop \<open>?m = a # ms\<close> by (force simp: acquire_one_transport_def acquire_error_def)
    qed
  qed
qed

lemma acquire_outcome:
  assumes "set (transport_list R) \<subseteq> dom (trs R)"
  shows "\<exists>r err amb. acquire_one_transport B env type serial0 any R = Inr (r, err, amb) \<and>
    (\<forall>a. r = Some a \<longleftrightarrow> matching B type serial0 R (transport_list R) = [a] \<and>
       (\<exists>t. trs R a = Some t \<and> (any \<or> connection_state t \<notin> {kCsOffline, kCsUnauthorized}))) \<and>
    (amb \<longleftrightarrow> 2 \<le> length (matching B type serial0 R (transport_list R))) \<and>
    (r \<noteq> None \<longrightarrow> err = ''success'')"
  using acquire_outcome_error [OF assms, of B env type serial0 any] by fastforce


definition demo_registry :: registry where
  "demo_registry =
    (registry_init True)\<lparr>trs := [1 \<mapsto> (new_atransport kCsDevice)\<lparr>tr_type := kTransportUsb, serial := Some ''A1''\<rparr>,
                             2 \<mapsto> (new_atransport kCsOffline)\<lparr>tr_type := kTransportLocal, serial := Some ''B2''\<rparr>],
       transport_list := [2, 1], reg_next := 3\<rparr>"

definition demo_env :: acquire_env where
  "demo_env = \<lparr>acq_build = linux_host, acq_udev = \<lparr>udev_linux = True, has_plugdev = False, in_plugdev = False,
     user_name = None\<rparr>, ADB_VENDOR_KEYS = None\<rparr>"


end
