(* ===== verification/Registry_Life.thy ===== *)
theory Registry_Life
  imports Transport_Registry
begin

text \<open>
  The life of a transport: registration through the message queue, the two thread references,
  removal. The invariant of the registry, that every operation keeps it, that the reference counts of
  a run are the threads that still run, that reachable registries never abort or touch a freed
  transport when their operations run, and the one exception, the emulator slot that a failed
  registration leaves behind.
\<close>

section \<open>The invariant\<close>

text \<open>The transports with a registration message under way, latest first.\<close>

definition reg_pending :: "(addr \<times> nat) list \<Rightarrow> addr list" where
  "reg_pending ms = rev (map fst (filter (\<lambda>m. snd m \<noteq> 0) ms))"

lemma reg_pending_simps [simp]:
  "reg_pending [] = []"
  "reg_pending (ms @ [(a, Suc 0)]) = a # reg_pending ms"
  "reg_pending (ms @ [(a, 0)]) = reg_pending ms"
  "reg_pending ((a, 0) # ms) = reg_pending ms"
  by (simp_all add: reg_pending_def)

lemma reg_pending_head: "x \<noteq> 0 \<Longrightarrow> reg_pending ((a, x) # ms) = reg_pending ms @ [a]"
  by (simp add: reg_pending_def)

lemma set_reg_pending: "set (reg_pending ms) \<subseteq> fst ` set ms"
  by (auto simp: reg_pending_def)

definition life :: "(addr \<times> nat) list \<Rightarrow> addr \<Rightarrow> atransport \<Rightarrow> bool" where
  "life ms a t \<longleftrightarrow>
    (if connection_state t = kCsNoPerm then ref_count t = 0 \<and> (a, 0) \<notin> set ms
     else ref_count t = 0 \<longleftrightarrow> (a, 0) \<in> set ms)"

definition reg_ok ::
    "(addr \<rightharpoonup> atransport) \<Rightarrow> addr \<Rightarrow> addr fdsys \<Rightarrow> addr list \<Rightarrow> addr list \<Rightarrow> (addr \<times> nat) list \<Rightarrow> bool" where
  "reg_ok T nxt F tp pl ms \<longleftrightarrow>
    (\<forall>a t. T a = Some t \<longrightarrow> a < nxt) \<and> dom (fdes F) = dom T \<and> fd_inv F \<and>
    pl = reg_pending ms \<and> distinct (map fst ms) \<and> distinct tp \<and>
    set tp \<subseteq> dom T \<and> set pl \<subseteq> dom T \<and> set tp \<inter> set pl = {} \<and>
    (\<forall>a \<in> set pl. fde_idle a F) \<and> (\<forall>a. (a, 0) \<in> set ms \<longrightarrow> a \<in> set tp) \<and>
    (\<forall>a t. a \<in> set tp \<longrightarrow> T a = Some t \<longrightarrow> life ms a t) \<and>
    (\<forall>a t. a \<in> set tp \<union> set pl \<longrightarrow> T a = Some t \<longrightarrow> funcs t \<noteq> NoFuncs) \<and>
    (\<forall>a t. a \<in> set pl \<longrightarrow> T a = Some t \<longrightarrow> ref_count t = 0)"

definition reg_inv :: "registry \<Rightarrow> bool" where
  "reg_inv R \<longleftrightarrow>
    reg_ok (trs R) (reg_next R) (reg_fds R) (transport_list R) (pending_list R) (reg_msgs R)"

lemma reg_okI:
  assumes "\<And>a t. T a = Some t \<Longrightarrow> a < nxt" and "dom (fdes F) = dom T" and "fd_inv F"
    and "pl = reg_pending ms" and "distinct (map fst ms)" and "distinct tp"
    and "set tp \<subseteq> dom T" and "set pl \<subseteq> dom T" and "set tp \<inter> set pl = {}"
    and "\<And>a. a \<in> set pl \<Longrightarrow> fde_idle a F" and "\<And>a. (a, 0) \<in> set ms \<Longrightarrow> a \<in> set tp"
    and "\<And>a t. a \<in> set tp \<Longrightarrow> T a = Some t \<Longrightarrow> life ms a t"
    and "\<And>a t. a \<in> set tp \<union> set pl \<Longrightarrow> T a = Some t \<Longrightarrow> funcs t \<noteq> NoFuncs"
    and "\<And>a t. a \<in> set pl \<Longrightarrow> T a = Some t \<Longrightarrow> ref_count t = 0"
  shows "reg_ok T nxt F tp pl ms"
  using assms unfolding reg_ok_def by (intro conjI) blast+

lemma reg_okD:
  assumes "reg_ok T nxt F tp pl ms"
  shows "T a = Some t \<Longrightarrow> a < nxt" and "dom (fdes F) = dom T" and "fd_inv F"
    and "pl = reg_pending ms" and "distinct (map fst ms)" and "distinct tp"
    and "set tp \<subseteq> dom T" and "set pl \<subseteq> dom T" and "set tp \<inter> set pl = {}"
    and "a \<in> set pl \<Longrightarrow> fde_idle a F" and "(a, 0) \<in> set ms \<Longrightarrow> a \<in> set tp"
    and "a \<in> set tp \<Longrightarrow> T a = Some t \<Longrightarrow> life ms a t"
    and "a \<in> set tp \<union> set pl \<Longrightarrow> T a = Some t \<Longrightarrow> funcs t \<noteq> NoFuncs"
    and "a \<in> set pl \<Longrightarrow> T a = Some t \<Longrightarrow> ref_count t = 0"
  using assms unfolding reg_ok_def by blast+

lemma reg_init_inv: "reg_inv (registry_init linux)"
  unfolding reg_inv_def
  by (rule reg_okI) (simp_all add: registry_init_def fdsys_init_inv, simp add: fdsys_init_def)

text \<open>A change inside one transport keeps the invariant when it keeps what the invariant reads.\<close>

definition life_same :: "atransport \<Rightarrow> atransport \<Rightarrow> bool" where
  "life_same t t' \<longleftrightarrow> ref_count t' = ref_count t \<and> funcs t' = funcs t \<and>
    (connection_state t' = kCsNoPerm \<longleftrightarrow> connection_state t = kCsNoPerm)"

lemma reg_ok_put:
  assumes ok: "reg_ok T nxt F tp pl ms" and t: "T a = Some t" and same: "life_same t t'"
  shows "reg_ok (T(a \<mapsto> t')) nxt F tp pl ms"
proof (rule reg_okI)
  show "dom (fdes F) = dom (T(a \<mapsto> t'))" using reg_okD(2) [OF ok] t by auto
  show "life ms b u" if "b \<in> set tp" "(T(a \<mapsto> t')) b = Some u" for b u
    using that reg_okD(12) [OF ok, of b] t same by (auto simp: life_def life_same_def split: if_splits)
  show "funcs u \<noteq> NoFuncs" if "b \<in> set tp \<union> set pl" "(T(a \<mapsto> t')) b = Some u" for b u
    using that reg_okD(13) [OF ok, of b] t same by (auto simp: life_same_def split: if_splits)
  show "ref_count u = 0" if "b \<in> set pl" "(T(a \<mapsto> t')) b = Some u" for b u
    using that reg_okD(14) [OF ok, of b] t same by (auto simp: life_same_def split: if_splits)
qed (use reg_okD(1,3-11) [OF ok] t in \<open>auto split: if_splits\<close>)

lemma reg_inv_put_tr:
  "reg_inv R \<Longrightarrow> trs R a = Some t \<Longrightarrow> life_same t t' \<Longrightarrow> reg_inv (put_tr a t' R)"
  unfolding reg_inv_def put_tr_def by (simp add: reg_ok_put)

section \<open>Operations on one transport\<close>

lemma fd_inv_zero: "fd_inv F \<Longrightarrow> fdes F a = None \<Longrightarrow> fd_inv (put_fde a (zero_fde a) F)"
  by (rule fd_inv_idle_change [of F a]) (simp_all add: fde_idle_def zero_fde_def)

lemma fd_inv_free: "fd_inv F \<Longrightarrow> fde_idle a F \<Longrightarrow> fd_inv (F\<lparr>fdes := (fdes F)(a := None)\<rparr>)"
  by (rule fd_inv_idle_change [of F a]) (simp_all add: fde_idle_def)

lemma fdes_put_free: "fdes F a = None \<Longrightarrow>
  (put_fde a f F)\<lparr>fdes := (fdes (put_fde a f F))(a := None)\<rparr> = F"
  by (cases F) (simp add: put_fde_def fun_upd_idem)

lemma life_same_simps [simp]:
  "life_same t (t\<lparr>sfd := x\<rparr>)" "life_same t (t\<lparr>kicked := k\<rparr>)" "life_same t (t\<lparr>usb := u\<rparr>)"
  by (simp_all add: life_same_def)

lemma socket_remote_kick_ok:
  assumes "reg_inv R" and "trs R a = Some t"
  shows "\<exists>R'. socket_remote_kick b a R = Inr R' \<and> reg_inv R' \<and> transport_list R' = transport_list R"
  using assms reg_inv_put_tr [OF assms, of "t\<lparr>sfd := -1\<rparr>"]
  by (auto simp: socket_remote_kick_def get_tr_def Let_def reg_inv_def put_tr_def)

lemma socket_remote_close_effect:
  assumes "trs R a = Some t"
  shows "\<exists>R' t'. socket_remote_close b a R = Inr R' \<and> trs R' = (trs R)(a \<mapsto> t') \<and> life_same t t' \<and>
    reg_next R' = reg_next R \<and> reg_fds R' = reg_fds R \<and> transport_list R' = transport_list R \<and>
    pending_list R' = pending_list R \<and> reg_msgs R' = reg_msgs R"
proof (cases "sfd t = -1")
  case True
  have "trs R = (trs R)(a \<mapsto> t)" using assms by (simp add: fun_upd_idem)
  with True assms show ?thesis
    by (intro exI [of _ "case GetLocalPortForEmulator t of None \<Rightarrow> R | Some p \<Rightarrow>
          if ADB_HOST b then R\<lparr>retry_ports := retry_ports R @ [(p, LOCAL_PORT_RETRY_COUNT)]\<rparr> else R"] exI [of _ t])
       (simp add: socket_remote_close_def get_tr_def life_same_def split: option.splits)
next
  case False
  with assms show ?thesis
    by (auto simp: socket_remote_close_def get_tr_def Let_def put_tr_def life_same_def split: option.splits)
qed

lemma usb_remote_close_effect:
  assumes "trs R a = Some t"
  shows "\<exists>R' t'. usb_remote_close a R = Inr R' \<and> trs R' = (trs R)(a \<mapsto> t') \<and> life_same t t' \<and>
    reg_next R' = reg_next R \<and> reg_fds R' = reg_fds R \<and> transport_list R' = transport_list R \<and>
    pending_list R' = pending_list R \<and> reg_msgs R' = reg_msgs R"
  using assms by (auto simp: usb_remote_close_def get_tr_def put_tr_def life_same_def)

lemma Kick_ok:
  assumes "reg_inv R" and "trs R a = Some t" and "a \<in> set (transport_list R)"
  shows "\<exists>R'. Kick b a R = Inr R' \<and> reg_inv R' \<and> transport_list R' = transport_list R"
proof -
  have fn: "funcs t \<noteq> NoFuncs" using assms reg_okD(13) [of "trs R"] unfolding reg_inv_def by blast
  let ?R = "put_tr a (t\<lparr>kicked := True\<rparr>) R"
  have inv: "reg_inv ?R" and t: "trs ?R a = Some (t\<lparr>kicked := True\<rparr>)"
    using reg_inv_put_tr [OF assms(1,2)] by (simp_all add: put_tr_def)
  show ?thesis
  proof (cases "funcs t")
    case NoFuncs
    with fn show ?thesis by simp
  next
    case SocketFuncs
    then show ?thesis using assms(1,2) socket_remote_kick_ok [OF inv t]
      by (auto simp: Kick_def get_tr_def Let_def put_tr_def)
  next
    case UsbFuncs
    then show ?thesis using assms(1,2) inv t
      by (auto simp: Kick_def get_tr_def Let_def usb_remote_kick_def reg_inv_def put_tr_def)
  qed
qed

lemma kick_each_ok:
  "reg_inv R \<Longrightarrow> set as \<subseteq> set (transport_list R) \<Longrightarrow>
   \<exists>R'. kick_each b P as R = Inr R' \<and> reg_inv R' \<and> transport_list R' = transport_list R"
proof (induction as arbitrary: R)
  case Nil
  then show ?case by simp
next
  case (Cons a as)
  then obtain t where t: "trs R a = Some t" using reg_okD(7) by (fastforce simp: reg_inv_def)
  with Kick_ok [OF Cons.prems(1) t, of b] Cons.prems obtain R1 where
    R1: "(if P t then Kick b a R else Inr R) = Inr R1" "reg_inv R1" "transport_list R1 = transport_list R"
    by (cases "P t") auto
  from Cons.IH [OF R1(2)] Cons.prems R1 t show ?case by (auto simp: get_tr_def)
qed

lemma iterate_list_all:
  "set as \<subseteq> dom (trs R) \<Longrightarrow> iterate_list R fn as = Inr (\<forall>a \<in> set as. fn (the (trs R a)))"
  by (induction as) (auto simp: get_tr_def)

lemma list_each_ok: "set as \<subseteq> dom (trs R) \<Longrightarrow> \<exists>s. list_each u l R as = Inr s"
  by (induction as) (auto simp: get_tr_def)

lemma find_serial_eq:
  "set as \<subseteq> dom (trs R) \<Longrightarrow> find_serial s R as = Inr (find (\<lambda>a. serial (the (trs R a)) = Some s) as)"
  by (induction as) (auto simp: get_tr_def)

section \<open>Registration, thread exit and removal\<close>

lemma reg_ok_msg_live:
  assumes "reg_ok T nxt F tp pl ms" and "(a, x) \<in> set ms"
  shows "a \<in> dom T" and "x \<noteq> 0 \<Longrightarrow> a \<in> set pl" and "x = 0 \<Longrightarrow> a \<in> set tp"
proof -
  show p: "x \<noteq> 0 \<Longrightarrow> a \<in> set pl" using assms(2) reg_okD(4) [OF assms(1)] by (force simp: reg_pending_def)
  show z: "x = 0 \<Longrightarrow> a \<in> set tp" using assms(2) reg_okD(11) [OF assms(1)] by blast
  show "a \<in> dom T" using p z reg_okD(7,8) [OF assms(1)] by (cases "x = 0") auto
qed

lemma reg_ok_Suc: "reg_ok T n F tp pl ms \<Longrightarrow> reg_ok T (Suc n) F tp pl ms"
  unfolding reg_ok_def by (meson less_SucI)

lemma reg_ok_new:
  assumes ok: "reg_ok T n F tp pl ms" and t: "funcs t \<noteq> NoFuncs" "ref_count t = 0"
  shows "reg_ok (T(n \<mapsto> t)) (Suc n) (put_fde n (zero_fde n) F) tp (n # pl) (ms @ [(n, Suc 0)])"
proof -
  have new: "T n = None" using reg_okD(1) [OF ok, of n] by (cases "T n") auto
  then have nd: "n \<notin> set tp" "n \<notin> set pl" "fdes F n = None" "n \<notin> fst ` set ms"
    using reg_okD(2,7,8) [OF ok] reg_ok_msg_live(1) [OF ok] by (auto, blast)
  have idle: "fde_idle b (put_fde n (zero_fde n) F) \<longleftrightarrow> b = n \<or> fde_idle b F" for b
    using nd(3) by (auto simp: fde_idle_def zero_fde_def)
  show ?thesis
  proof (rule reg_okI)
    show "fd_inv (put_fde n (zero_fde n) F)" using fd_inv_zero nd(3) reg_okD(3) [OF ok] by blast
    show "life (ms @ [(n, Suc 0)]) a u" if "a \<in> set tp" "(T(n \<mapsto> t)) a = Some u" for a u
      using that nd reg_okD(12) [OF ok, of a u] by (auto simp: life_def split: if_splits)
    show "a < Suc n" if "(T(n \<mapsto> t)) a = Some u" for a u
      using that reg_okD(1) [OF ok, of a u] by (auto split: if_splits)
    show "funcs u \<noteq> NoFuncs" if "a \<in> set tp \<union> set (n # pl)" "(T(n \<mapsto> t)) a = Some u" for a u
      using that nd t reg_okD(13) [OF ok, of a u] by (auto split: if_splits)
    show "ref_count u = 0" if "a \<in> set (n # pl)" "(T(n \<mapsto> t)) a = Some u" for a u
      using that nd t reg_okD(14) [OF ok, of a u] by (auto split: if_splits)
    show "fde_idle a (put_fde n (zero_fde n) F)" if "a \<in> set (n # pl)" for a
      using that idle reg_okD(10) [OF ok] by auto
  qed (use reg_okD(2,4-9,11) [OF ok] nd in auto)
qed

lemma register_usb_transport_inv:
  assumes "reg_inv R" and "register_usb_transport h s d w R = Inr R'"
  shows "reg_inv R'"
proof -
  have inv: "reg_ok (trs R) (reg_next R) (reg_fds R) (transport_list R) (pending_list R) (reg_msgs R)"
    using assms(1) by (simp add: reg_inv_def)
  let ?t1 = "init_usb_transport h (new_atransport (if w then kCsOffline else kCsNoPerm))"
  let ?t2 = "case s of Some x \<Rightarrow> ?t1\<lparr>serial := Some x\<rparr> | None \<Rightarrow> ?t1"
  let ?t3 = "case d of Some x \<Rightarrow> ?t2\<lparr>devpath := Some x\<rparr> | None \<Rightarrow> ?t2"
  have t: "funcs ?t3 \<noteq> NoFuncs" "ref_count ?t3 = 0"
    by (simp_all add: init_usb_transport_def new_atransport_def split: option.splits)
  show ?thesis
    using assms(2) reg_ok_new [OF inv t]
    by (cases s; cases d)
       (auto simp: register_usb_transport_def alloc_tr_def put_tr_def register_transport_def get_tr_def
          Let_def reg_inv_def)
qed

text \<open>Setting up a socket transport changes only that transport and the slots.\<close>

lemma init_socket_transport_effect:
  assumes "init_socket_transport b a s port local R = Inr (ok, R')" and "trs R a = Some t0"
  shows "\<exists>t. trs R' = (trs R)(a \<mapsto> t) \<and> funcs t = SocketFuncs \<and>
    ref_count t = ref_count t0 \<and> connection_state t = connection_state t0 \<and> reg_next R' = reg_next R \<and>
    reg_fds R' = reg_fds R \<and> transport_list R' = transport_list R \<and>
    pending_list R' = pending_list R \<and> reg_msgs R' = reg_msgs R"
  using assms
  by (auto simp: init_socket_transport_def put_tr_def SetLocalPortForEmulator_def Let_def
      split: if_splits option.splits)

lemma register_socket_transport_inv:
  assumes "reg_inv R" and "register_socket_transport b s ser port local R = Inr (ok, R')"
  shows "reg_inv R'"
proof -
  have inv: "reg_ok (trs R) (reg_next R) (reg_fds R) (transport_list R) (pending_list R) (reg_msgs R)"
    using assms(1) by (simp add: reg_inv_def)
  let ?a = "reg_next R"
  have new: "trs R ?a = None" using reg_okD(1) [OF inv, of ?a] by (cases "trs R ?a") auto
  then have newf: "fdes (reg_fds R) ?a = None" using reg_okD(2) [OF inv] by blast
  let ?R1 = "snd (alloc_tr kCsOffline R)"
  obtain ok1 R2 where init: "init_socket_transport b ?a s port local ?R1 = Inr (ok1, R2)"
    using assms(2) by (auto simp: register_socket_transport_def alloc_tr_def Let_def)
  have t0: "trs ?R1 ?a = Some (new_atransport kCsOffline)" by (simp add: alloc_tr_def put_tr_def Let_def)
  from init_socket_transport_effect [OF init t0] obtain t where
    t: "funcs t = SocketFuncs" "ref_count t = 0"
    and R2': "trs R2 = (trs R)(?a \<mapsto> t)" "reg_next R2 = Suc ?a"
    "reg_fds R2 = put_fde ?a (zero_fde ?a) (reg_fds R)" "transport_list R2 = transport_list R"
    "pending_list R2 = pending_list R" "reg_msgs R2 = reg_msgs R"
    by (auto simp: new_atransport_def alloc_tr_def put_tr_def Let_def)
  have del: "reg_inv (delete_tr ?a R2)"
  proof -
    have "(trs R)(?a := None) = trs R" using new by (simp add: fun_upd_idem)
    then show ?thesis
      using reg_ok_Suc [OF inv] fdes_put_free [OF newf, of "zero_fde ?a"]
      by (simp add: reg_inv_def delete_tr_def R2')
  qed
  have good: "reg_inv (register_transport ?a ((put_tr ?a (t\<lparr>serial := x\<rparr>) R2)\<lparr>pending_list := ?a # pending_list R2\<rparr>))" for x
    using reg_ok_new [OF inv, of "t\<lparr>serial := x\<rparr>"] t
    by (simp add: reg_inv_def register_transport_def put_tr_def R2')
  show ?thesis
    using assms(2) init del good R2'(1)
    by (auto simp: register_socket_transport_def alloc_tr_def Let_def get_tr_def split: if_splits option.splits)
qed

lemma reg_ok_unref:
  assumes ok: "reg_ok T n F tp pl ms" and a: "a \<in> set tp" "T a = Some t" "0 < ref_count t"
    and t': "funcs t' = funcs t" "connection_state t' = kCsNoPerm \<longleftrightarrow> connection_state t = kCsNoPerm"
      "ref_count t' = ref_count t - 1"
  shows "reg_ok (T(a \<mapsto> t')) n F tp pl (if ref_count t = 1 then ms @ [(a, 0)] else ms)"
proof -
  have la: "connection_state t \<noteq> kCsNoPerm" "(a, 0) \<notin> set ms"
    using reg_okD(12) [OF ok a(1,2)] a(3) by (auto simp: life_def split: if_splits)
  have npl: "a \<notin> set pl" using reg_okD(9) [OF ok] a(1) by auto
  have nm: "a \<notin> fst ` set ms"
  proof
    assume "a \<in> fst ` set ms"
    then obtain x where x: "(a, x) \<in> set ms" by auto
    show False using reg_ok_msg_live(2) [OF ok x] npl x la(2) by (cases "x = 0") auto
  qed
  show ?thesis
  proof (rule reg_okI)
    show "life (if ref_count t = 1 then ms @ [(a, 0)] else ms) b u"
      if "b \<in> set tp" "(T(a \<mapsto> t')) b = Some u" for b u
      using that reg_okD(12) [OF ok, of b u] la a(3) t'
      by (cases "b = a") (auto simp: life_def split: if_splits)
    show "funcs u \<noteq> NoFuncs" if "b \<in> set tp \<union> set pl" "(T(a \<mapsto> t')) b = Some u" for b u
      using that reg_okD(13) [OF ok, of b] a t' by (auto split: if_splits)
  qed (use reg_okD(1-11,14) [OF ok] a npl nm in \<open>auto split: if_splits\<close>)
qed

lemma transport_unref_ok:
  assumes inv: "reg_inv R" and a: "a \<in> set (transport_list R)" "trs R a = Some t" "0 < ref_count t"
  shows "\<exists>R'. transport_unref b a R = Inr R' \<and> reg_inv R'"
proof -
  have ok: "reg_ok (trs R) (reg_next R) (reg_fds R) (transport_list R) (pending_list R) (reg_msgs R)"
    using inv by (simp add: reg_inv_def)
  have fn: "funcs t \<noteq> NoFuncs" using reg_okD(13) [OF ok] a by blast
  let ?t = "t\<lparr>ref_count := ref_count t - 1\<rparr>"
  let ?R1 = "put_tr a ?t R"
  have t1: "trs ?R1 a = Some ?t" by (simp add: put_tr_def)
  show ?thesis
  proof (cases "ref_count t = 1")
    case False
    then show ?thesis using a reg_ok_unref [OF ok a, of ?t]
      by (auto simp: transport_unref_def get_tr_def Let_def reg_inv_def put_tr_def)
  next
    case True
    obtain R2 t2 where R2: "(case funcs t of NoFuncs \<Rightarrow> Inl NullDeref
        | SocketFuncs \<Rightarrow> socket_remote_close b a ?R1 | UsbFuncs \<Rightarrow> usb_remote_close a ?R1) = Inr R2"
      and e: "trs R2 = (trs ?R1)(a \<mapsto> t2)" "life_same ?t t2" "reg_next R2 = reg_next ?R1"
        "reg_fds R2 = reg_fds ?R1" "transport_list R2 = transport_list ?R1"
        "pending_list R2 = pending_list ?R1" "reg_msgs R2 = reg_msgs ?R1"
      using fn socket_remote_close_effect [OF t1, of b] usb_remote_close_effect [OF t1]
      by (cases "funcs t") auto
    have "reg_ok ((trs R)(a \<mapsto> t2)) (reg_next R) (reg_fds R) (transport_list R) (pending_list R)
        (reg_msgs R @ [(a, 0)])"
      using reg_ok_unref [OF ok a, of t2] e(2) True by (simp add: life_same_def)
    then have "reg_inv (remove_transport a R2)"
      using e by (simp add: reg_inv_def remove_transport_def put_tr_def)
    then show ?thesis using a R2
      unfolding transport_unref_def Let_def by (simp add: get_tr_def True)
  qed
qed

lemma reg_ok_removed:
  assumes ok: "reg_ok T n F tp pl ((a, 0) # ms)" and F': "fd_inv F'" "\<And>b. b \<noteq> a \<Longrightarrow> fdes F' b = fdes F b"
    "fdes F' a = None"
  shows "reg_ok (T(a := None)) n F' (removeAll a tp) pl ms"
proof -
  have a: "a \<in> set tp" "a \<notin> set pl" "a \<notin> fst ` set ms"
    using reg_okD(5,9,11) [OF ok] by auto
  show ?thesis
  proof (rule reg_okI)
    show "dom (fdes F') = dom (T(a := None))"
    proof -
      have "b \<in> dom (fdes F') \<longleftrightarrow> b \<in> dom (fdes F) - {a}" for b
        using F'(2) [of b] F'(3) by (cases "b = a") (auto simp: domIff)
      then have "dom (fdes F') = dom (fdes F) - {a}" by blast
      then show ?thesis using reg_okD(2) [OF ok] by simp
    qed
    show "fde_idle b F'" if "b \<in> set pl" for b
      using that reg_okD(10) [OF ok that] a F'(2) [of b] by (cases "b = a") (auto simp: fde_idle_def)
    show "life ms b u" if "b \<in> set (removeAll a tp)" "(T(a := None)) b = Some u" for b u
      using that reg_okD(12) [OF ok, of b u] by (auto simp: life_def split: if_splits)
    show "b \<in> set (removeAll a tp)" if "(b, 0) \<in> set ms" for b
      using that reg_okD(11) [OF ok, of b] a(3) by force
    show "funcs u \<noteq> NoFuncs" if "b \<in> set (removeAll a tp) \<union> set pl" "(T(a := None)) b = Some u" for b u
      using that reg_okD(13) [OF ok, of b u] by (auto split: if_splits)
    show "distinct (removeAll a tp)" using reg_okD(6) [OF ok] by (simp add: distinct_removeAll)
  qed (use reg_okD(1,4-9,14) [OF ok] a F'(1) in \<open>auto split: if_splits\<close>)
qed

lemma reg_ok_started:
  assumes ok: "reg_ok T n F tp pl ((a, x) # ms)" and x: "x \<noteq> 0" and F': "fd_inv F'" "dom (fdes F') = dom (fdes F)"
    "\<And>b. b \<noteq> a \<Longrightarrow> fdes F' b = fdes F b"
    and t': "funcs t' \<noteq> NoFuncs" "connection_state t' = kCsNoPerm \<longleftrightarrow> ref_count t' = 0"
  shows "reg_ok (T(a \<mapsto> t')) n F' (a # tp) (removeAll a pl) ms"
proof -
  have pl: "pl = reg_pending ms @ [a]" using reg_okD(4) [OF ok] x by (simp add: reg_pending_head)
  have nm: "a \<notin> fst ` set ms" using reg_okD(5) [OF ok] by auto
  then have "a \<notin> set (reg_pending ms)" using set_reg_pending [of ms] by blast
  then have rm: "removeAll a pl = reg_pending ms" by (simp add: pl)
  have a: "a \<in> dom T" "a \<notin> set tp" using reg_okD(8,9) [OF ok] pl by auto
  show ?thesis unfolding rm
  proof (rule reg_okI)
    show "dom (fdes F') = dom (T(a \<mapsto> t'))" using F'(2) reg_okD(2) [OF ok] a(1) by auto
    show "fde_idle b F'" if "b \<in> set (reg_pending ms)" for b
      using that reg_okD(10) [OF ok, of b] pl nm set_reg_pending [of ms] F'(3) [of b]
      by (cases "b = a") (auto simp: fde_idle_def)
    show "life ms b u" if "b \<in> set (a # tp)" "(T(a \<mapsto> t')) b = Some u" for b u
      using that reg_okD(12) [OF ok, of b u] nm t'(2) x a(2)
      by (cases "b = a") (force simp: life_def split: if_splits)+
    show "funcs u \<noteq> NoFuncs" if "b \<in> set (a # tp) \<union> set (reg_pending ms)" "(T(a \<mapsto> t')) b = Some u" for b u
      using that reg_okD(13) [OF ok, of b u] t'(1) pl by (auto split: if_splits)
    show "b \<in> set (a # tp)" if "(b, 0) \<in> set ms" for b
      using that reg_okD(11) [OF ok, of b] by auto
    show "ref_count u = 0" if "b \<in> set (reg_pending ms)" "(T(a \<mapsto> t')) b = Some u" for b u
      using that reg_okD(14) [OF ok, of b u] pl nm set_reg_pending [of ms] by (auto split: if_splits)
    show "b < n" if "(T(a \<mapsto> t')) b = Some u" for b u
      using that reg_okD(1) [OF ok, of b] a(1) by (auto split: if_splits)
    show "set (a # tp) \<inter> set (reg_pending ms) = {}"
      using reg_okD(9) [OF ok] pl nm set_reg_pending [of ms] by auto
  qed (use reg_okD(5-8) [OF ok] a pl F'(1) in auto)
qed

lemma registration_remove_ok:
  assumes inv: "reg_inv R" and m: "reg_msgs R = (a, 0) # rest"
  shows "\<exists>R'. transport_registration_func sp R = Inr R' \<and> reg_inv R'"
proof -
  have ok: "reg_ok (trs R) (reg_next R) (reg_fds R) (transport_list R) (pending_list R) ((a, 0) # rest)"
    using inv m by (simp add: reg_inv_def)
  obtain t where t: "trs R a = Some t" using reg_ok_msg_live(1) [OF ok, of a 0] by auto
  then obtain f where f: "fdes (reg_fds R) a = Some f" using reg_okD(2) [OF ok] by blast
  from fdevent_remove_ok [OF reg_okD(3) [OF ok] f] obtain F where
    F: "fdevent_remove a (reg_fds R) = Inr F" "fd_inv F" "\<And>b. b \<noteq> a \<Longrightarrow> fdes F b = fdes (reg_fds R) b"
      "fde_idle a F" by (auto simp: fde_idle_def)
  let ?F = "F\<lparr>fdes := (fdes F)(a := None)\<rparr>"
  have "reg_ok ((trs R)(a := None)) (reg_next R) ?F (removeAll a (transport_list R)) (pending_list R) rest"
    using reg_ok_removed [OF ok, of ?F] fd_inv_free [OF F(2,4)] F(3) by simp
  then have "reg_inv (delete_tr a (R\<lparr>reg_msgs := rest, reg_fds := F, freed_fds := freed_fds R @ [at_fd t],
      transport_list := removeAll a (transport_list R)\<rparr>))"
    by (simp add: reg_inv_def delete_tr_def)
  then show ?thesis
    using m t F(1) by (simp add: transport_registration_func_def get_tr_def Let_def)
qed

lemma fdevent_install_effect:
  assumes "fdevent_install a fd func S = Inr S'"
  shows "fdes S' a \<noteq> None" and "fde_active a S'" and "\<And>b. b \<noteq> a \<Longrightarrow> fdes S' b = fdes S b"
  using assms by (auto simp: fdevent_install_def fde_active_def Let_def fde_flags split: if_splits)

lemma registration_start_ok:
  assumes inv: "reg_inv R" and m: "reg_msgs R = (a, x) # rest" and x: "x \<noteq> 0"
    and sp: "0 \<le> s0" "poll_map (reg_fds R) s0 = None"
  shows "\<exists>R'. transport_registration_func (Some (s0, s1)) R = Inr R' \<and> reg_inv R'"
proof -
  have ok: "reg_ok (trs R) (reg_next R) (reg_fds R) (transport_list R) (pending_list R) ((a, x) # rest)"
    using inv m by (simp add: reg_inv_def)
  have pl: "a \<in> set (pending_list R)" using reg_ok_msg_live(2) [OF ok, of a x] x by simp
  then obtain t where t: "trs R a = Some t" using reg_okD(8) [OF ok] by auto
  have ft: "funcs t \<noteq> NoFuncs" "ref_count t = 0"
    using reg_okD(13,14) [OF ok] pl t by blast+
  show ?thesis
  proof (cases "connection_state t = kCsNoPerm")
    case True
    then have "reg_ok ((trs R)(a \<mapsto> t)) (reg_next R) (reg_fds R) (a # transport_list R)
        (removeAll a (pending_list R)) rest"
      using reg_ok_started [OF ok x reg_okD(3) [OF ok] refl refl, of t] ft by simp
    moreover have "(trs R)(a \<mapsto> t) = trs R" using t by (simp add: fun_upd_idem)
    ultimately show ?thesis using m t x True
      by (simp add: transport_registration_func_def get_tr_def Let_def reg_inv_def)
  next
    case False
    obtain F where F: "fdevent_install a s0 a (reg_fds R) = Inr F"
      using sp by (simp add: fdevent_install_def Let_def)
    have Fi: "fd_inv F" using fdevent_install_inv [OF reg_okD(3) [OF ok] reg_okD(10) [OF ok pl] F] .
    note Fe = fdevent_install_effect [OF F]
    from fdevent_set_ok [OF Fi Fe(2), of FDE_READ] obtain F1 where
      F1: "fdevent_set a FDE_READ F = Inr F1" "fd_inv F1" "dom (fdes F1) = dom (fdes F)"
        "\<And>b. b \<noteq> a \<Longrightarrow> fdes F1 b = fdes F b" by blast
    have "a \<in> dom (fdes (reg_fds R))" using reg_okD(2) [OF ok] t by blast
    then have "dom (fdes F) = dom (fdes (reg_fds R))" using Fe(1,3) by (auto simp: dom_def) metis+
    let ?t = "t\<lparr>ref_count := 2, transport_socket := s0, at_fd := s1\<rparr>"
    have "reg_ok ((trs R)(a \<mapsto> ?t)) (reg_next R) F1 (a # transport_list R) (removeAll a (pending_list R)) rest"
      using reg_ok_started [OF ok x F1(2), of ?t] F1(3,4) \<open>dom (fdes F) = _\<close> Fe(3) ft False by simp
    then show ?thesis using m t x False F F1(1)
      by (simp add: transport_registration_func_def get_tr_def Let_def reg_inv_def put_tr_def)
  qed
qed

lemma drop_noperm_eq:
  "set as \<subseteq> dom (trs R) \<Longrightarrow> drop_noperm R h as =
     Inr (filter (\<lambda>a. \<not> (usb (the (trs R a)) = Some h \<and> connection_state (the (trs R a)) = kCsNoPerm)) as)"
  by (induction as) (auto simp: get_tr_def)

lemma unregister_usb_transport_ok:
  assumes inv: "reg_inv R"
  shows "\<exists>R'. unregister_usb_transport h R = Inr R' \<and> reg_inv R'"
proof -
  have ok: "reg_ok (trs R) (reg_next R) (reg_fds R) (transport_list R) (pending_list R) (reg_msgs R)"
    using inv by (simp add: reg_inv_def)
  let ?P = "\<lambda>a. \<not> (usb (the (trs R a)) = Some h \<and> connection_state (the (trs R a)) = kCsNoPerm)"
  have un: "unregister_usb_transport h R = Inr (R\<lparr>transport_list := filter ?P (transport_list R)\<rparr>)"
    using drop_noperm_eq [OF reg_okD(7) [OF ok]] by (simp add: unregister_usb_transport_def)
  have "reg_ok (trs R) (reg_next R) (reg_fds R) (filter ?P (transport_list R)) (pending_list R) (reg_msgs R)"
  proof (rule reg_okI)
    show "a \<in> set (filter ?P (transport_list R))" if "(a, 0) \<in> set (reg_msgs R)" for a
    proof -
      have a: "a \<in> set (transport_list R)" using reg_okD(11) [OF ok that] .
      then obtain t where "trs R a = Some t" using reg_okD(7) [OF ok] by auto
      with reg_okD(12) [OF ok a this] that a show ?thesis by (auto simp: life_def split: if_splits)
    qed
    show "funcs t \<noteq> NoFuncs" if "a \<in> set (filter ?P (transport_list R)) \<union> set (pending_list R)"
      "trs R a = Some t" for a t
      using that reg_okD(13) [OF ok, of a t] by auto
  qed (use reg_okD(1-10,12,14) [OF ok] in auto)
  then show ?thesis using un by (simp add: reg_inv_def)
qed

section \<open>Reference counts\<close>

text \<open>The references that the registered transports count.\<close>

definition refs :: "registry \<Rightarrow> addr \<Rightarrow> nat" where
  "refs R a = (if a \<in> set (transport_list R) then ref_count (the (trs R a)) else 0)"

lemma refs_cong:
  "transport_list R' = transport_list R \<Longrightarrow>
   (\<And>a. a \<in> set (transport_list R) \<Longrightarrow> ref_count (the (trs R' a)) = ref_count (the (trs R a))) \<Longrightarrow> refs R' = refs R"
  by (rule ext) (simp add: refs_def)

lemma refs_put_tr: "trs R a = Some t \<Longrightarrow> life_same t t' \<Longrightarrow> refs (put_tr a t' R) = refs R"
  by (rule refs_cong) (simp_all add: put_tr_def life_same_def)

lemma reg_next_fresh:
  assumes "reg_inv R"
  shows "trs R (reg_next R) = None" and "reg_next R \<notin> set (transport_list R)" and "reg_next R \<notin> set (pending_list R)"
proof -
  show n: "trs R (reg_next R) = None"
    using reg_okD(1) [OF assms [unfolded reg_inv_def], of "reg_next R"] by (cases "trs R (reg_next R)") auto
  show "reg_next R \<notin> set (transport_list R)" "reg_next R \<notin> set (pending_list R)"
    using n reg_okD(7,8) [OF assms [unfolded reg_inv_def]] by auto
qed

lemma register_usb_transport_effect:
  "\<exists>R' t. register_usb_transport h s d w R = Inr R' \<and> trs R' = (trs R)(reg_next R \<mapsto> t) \<and> transport_list R' = transport_list R"
  by (cases s; cases d) (auto simp: register_usb_transport_def alloc_tr_def put_tr_def register_transport_def get_tr_def Let_def)

lemma register_usb_transport_refs:
  assumes "reg_inv R" and "register_usb_transport h s d w R = Inr R'"
  shows "refs R' = refs R"
  using register_usb_transport_effect [of h s d w R] reg_next_fresh(2) [OF assms(1)] assms(2)
  by (intro refs_cong) auto

lemma register_socket_transport_refs:
  assumes "reg_inv R" and "register_socket_transport b s ser port local R = Inr (ok, R')"
  shows "refs R' = refs R"
proof -
  let ?a = "reg_next R"
  note fresh = reg_next_fresh [OF assms(1)]
  let ?R1 = "snd (alloc_tr kCsOffline R)"
  obtain ok1 R2 where init: "init_socket_transport b ?a s port local ?R1 = Inr (ok1, R2)"
    using assms(2) by (auto simp: register_socket_transport_def alloc_tr_def Let_def)
  have t0: "trs ?R1 ?a = Some (new_atransport kCsOffline)" by (simp add: alloc_tr_def put_tr_def Let_def)
  from init_socket_transport_effect [OF init t0] obtain t where
    R2: "trs R2 = (trs R)(?a \<mapsto> t)" "transport_list R2 = transport_list R"
    by (auto simp: alloc_tr_def put_tr_def Let_def)
  have "refs (delete_tr ?a R2) = refs R" using R2 fresh by (intro refs_cong) (auto simp: delete_tr_def)
  moreover have "refs (register_transport ?a ((put_tr ?a u R2)\<lparr>pending_list := pl\<rparr>)) = refs R" for u pl
    using R2 fresh by (intro refs_cong) (auto simp: register_transport_def put_tr_def)
  ultimately show ?thesis
    using assms(2) init by (auto simp: register_socket_transport_def alloc_tr_def Let_def split: if_splits option.splits)
qed

lemma socket_remote_kick_refs: "socket_remote_kick b a R = Inr R' \<Longrightarrow> refs R' = refs R"
  by (auto simp: socket_remote_kick_def get_tr_def Let_def put_tr_def split: option.splits if_splits intro!: refs_cong)

lemma Kick_refs:
  assumes "Kick b a R = Inr R'"
  shows "refs R' = refs R"
proof -
  obtain t where t: "trs R a = Some t" using assms by (auto simp: Kick_def get_tr_def split: option.splits)
  have "refs (put_tr a (t\<lparr>kicked := True\<rparr>) R) = refs R" by (rule refs_put_tr [OF t]) simp
  moreover have "refs (R\<lparr>usb_kicks := k\<rparr>) = refs R" for k and R :: registry by (rule refs_cong) simp_all
  ultimately show ?thesis
    using assms t socket_remote_kick_refs [of b a "put_tr a (t\<lparr>kicked := True\<rparr>) R" R']
    by (auto simp: Kick_def get_tr_def usb_remote_kick_def put_tr_def Let_def split: if_splits transport_funcs.splits)
qed

lemma kick_each_refs: "kick_each b P as R = Inr R' \<Longrightarrow> refs R' = refs R"
  by (induction as arbitrary: R) (auto split: if_splits dest!: Kick_refs)

lemma transport_unref_refs:
  assumes inv: "reg_inv R" and a: "a \<in> set (transport_list R)" and u: "transport_unref b a R = Inr R'"
  shows "refs R' = (refs R)(a := refs R a - 1)"
proof -
  obtain t where t: "trs R a = Some t" using a reg_okD(7) [OF inv [unfolded reg_inv_def]] by auto
  let ?t = "t\<lparr>ref_count := ref_count t - 1\<rparr>"
  let ?R1 = "put_tr a ?t R"
  have r1: "refs ?R1 = (refs R)(a := refs R a - 1)" using a t by (auto simp: refs_def put_tr_def)
  have t1: "trs ?R1 a = Some ?t" by (simp add: put_tr_def)
  have close: "refs (remove_transport a R2) = refs ?R1"
    if "socket_remote_close b a ?R1 = Inr R2 \<or> usb_remote_close a ?R1 = Inr R2" for R2
  proof -
    from that socket_remote_close_effect [OF t1, of b] usb_remote_close_effect [OF t1] obtain t2 where
      "trs R2 = (trs ?R1)(a \<mapsto> t2)" "life_same ?t t2" "transport_list R2 = transport_list ?R1" by auto
    then show ?thesis using t1 by (intro refs_cong) (auto simp: remove_transport_def life_same_def)
  qed
  show ?thesis using u t r1 close
    by (auto simp: transport_unref_def get_tr_def Let_def split: if_splits transport_funcs.splits)
qed

text \<open>
  Whether the next message starts the two threads of its transport: a registration of one that may
  be used.
\<close>

definition starts :: "registry \<Rightarrow> addr option" where
  "starts R = (case reg_msgs R of [] \<Rightarrow> None
     | (a, x) # _ \<Rightarrow> if x \<noteq> 0 \<and> connection_state (the (trs R a)) \<noteq> kCsNoPerm then Some a else None)"

lemma registration_refs:
  assumes inv: "reg_inv R" and r: "transport_registration_func sp R = Inr R'"
  shows "refs R' = (case starts R of None \<Rightarrow> refs R | Some a \<Rightarrow> (refs R)(a := 2))"
proof -
  obtain a x rest where m: "reg_msgs R = (a, x) # rest"
    using r by (cases "reg_msgs R") (auto simp: transport_registration_func_def)
  have ok: "reg_ok (trs R) (reg_next R) (reg_fds R) (transport_list R) (pending_list R) ((a, x) # rest)"
    using inv m by (simp add: reg_inv_def)
  obtain t where t: "trs R a = Some t" using r m by (auto simp: transport_registration_func_def get_tr_def Let_def split: option.splits)
  show ?thesis
  proof (cases "x = 0")
    case True
    then have "a \<in> set (transport_list R)" using reg_ok_msg_live(3) [OF ok, of a x] by simp
    then have "ref_count t = 0" using reg_okD(12) [OF ok _ t] True by (auto simp: life_def split: if_splits)
    moreover obtain F fr where "R' = delete_tr a (R\<lparr>reg_msgs := rest, reg_fds := F, freed_fds := fr,
        transport_list := removeAll a (transport_list R)\<rparr>)"
      using r m t True by (auto simp: transport_registration_func_def get_tr_def Let_def)
    ultimately show ?thesis using t m True by (auto simp: starts_def refs_def delete_tr_def fun_eq_iff)
  next
    case False
    then have pl: "a \<in> set (pending_list R)" using reg_ok_msg_live(2) [OF ok, of a x] by simp
    then have nt: "a \<notin> set (transport_list R)" and rc: "ref_count t = 0" using reg_okD(9,14) [OF ok] t by auto
    show ?thesis
      using r m t False nt rc
      by (cases "connection_state t = kCsNoPerm")
         (auto simp: transport_registration_func_def get_tr_def put_tr_def Let_def starts_def refs_def fun_eq_iff
           split: option.splits)
  qed
qed

section \<open>Runs of the registry\<close>

text \<open>
  A run keeps, beside the registry, the number \<open>th a\<close> of threads of each transport that have not
  ended: the registration message of a usable transport starts two, and each calls
  transport\_unref as the last thing it does.
\<close>

inductive reg_step :: "build \<Rightarrow> registry \<times> (addr \<Rightarrow> nat) \<Rightarrow> registry \<times> (addr \<Rightarrow> nat) \<Rightarrow> bool" for b where
  socket: "register_socket_transport b s ser port local R = Inr (ok, R') \<Longrightarrow> reg_step b (R, th) (R', th)"
| usb: "register_usb_transport h ser path w R = Inr R' \<Longrightarrow> reg_step b (R, th) (R', th)"
| message: "0 \<le> s0 \<Longrightarrow> poll_map (reg_fds R) s0 = None \<Longrightarrow>
    transport_registration_func (Some (s0, s1)) R = Inr R' \<Longrightarrow>
    reg_step b (R, th) (R', case starts R of None \<Rightarrow> th | Some a \<Rightarrow> th(a := 2))"
| thread_exit: "0 < th a \<Longrightarrow> transport_unref b a R = Inr R' \<Longrightarrow> reg_step b (R, th) (R', th(a := th a - 1))"
| kick: "kick_transport b a R = Inr R' \<Longrightarrow> reg_step b (R, th) (R', th)"
| kick_many: "kick_each b P (transport_list R) R = Inr R' \<Longrightarrow> reg_step b (R, th) (R', th)"
| unplug: "unregister_usb_transport h R = Inr R' \<Longrightarrow> reg_step b (R, th) (R', th)"
| change: "trs R a = Some t \<Longrightarrow> life_same t t' \<Longrightarrow> reg_step b (R, th) (put_tr a t' R, th)"

inductive reg_reachable :: "build \<Rightarrow> registry \<Rightarrow> (addr \<Rightarrow> nat) \<Rightarrow> bool" for b where
  start: "reg_reachable b (registry_init linux) (\<lambda>_. 0)"
| step: "reg_reachable b R th \<Longrightarrow> reg_step b (R, th) (R', th') \<Longrightarrow> reg_reachable b R' th'"

lemma registration_ok:
  assumes "reg_inv R" and "reg_msgs R \<noteq> []" and "0 \<le> s0" and "poll_map (reg_fds R) s0 = None"
  shows "\<exists>R'. transport_registration_func (Some (s0, s1)) R = Inr R' \<and> reg_inv R'"
proof -
  obtain a x rest where m: "reg_msgs R = (a, x) # rest" using assms(2) by (cases "reg_msgs R") auto
  show ?thesis
    using registration_remove_ok [OF assms(1), of a rest] registration_start_ok [OF assms(1) m _ assms(3,4)] m
    by (cases "x = 0") auto
qed

lemma kick_transport_ok:
  assumes "reg_inv R"
  shows "\<exists>R'. kick_transport b a R = Inr R' \<and> reg_inv R'"
proof (cases "a \<in> set (transport_list R)")
  case True
  then obtain t where "trs R a = Some t" using assms reg_okD(7) by (fastforce simp: reg_inv_def)
  then show ?thesis using Kick_ok [OF assms, of a t b] True by (auto simp: kick_transport_def)
qed (use assms in \<open>simp add: kick_transport_def\<close>)

lemma refs_live:
  "reg_inv R \<Longrightarrow> 0 < refs R a \<Longrightarrow> a \<in> set (transport_list R) \<and> (\<exists>t. trs R a = Some t \<and> ref_count t = refs R a)"
  using reg_okD(7) [of "trs R"] by (fastforce simp: refs_def reg_inv_def split: if_splits)

lemma thread_exit_ok:
  assumes "reg_inv R" and "0 < refs R a"
  shows "\<exists>R'. transport_unref b a R = Inr R' \<and> reg_inv R' \<and> refs R' = (refs R)(a := refs R a - 1)"
  using refs_live [OF assms] transport_unref_ok [OF assms(1)] transport_unref_refs [OF assms(1)] assms(2) by metis

lemma unregister_usb_transport_refs:
  assumes inv: "reg_inv R" and u: "unregister_usb_transport h R = Inr R'"
  shows "refs R' = refs R"
proof
  fix a
  have ok: "reg_ok (trs R) (reg_next R) (reg_fds R) (transport_list R) (pending_list R) (reg_msgs R)"
    using inv by (simp add: reg_inv_def)
  have R': "R' = R\<lparr>transport_list := filter (\<lambda>a. \<not> (usb (the (trs R a)) = Some h \<and>
      connection_state (the (trs R a)) = kCsNoPerm)) (transport_list R)\<rparr>"
    using u drop_noperm_eq [OF reg_okD(7) [OF ok]] by (simp add: unregister_usb_transport_def)
  show "refs R' a = refs R a"
  proof (cases "a \<in> set (transport_list R)")
    case True
    then obtain t where "trs R a = Some t" using reg_okD(7) [OF ok] by auto
    then show ?thesis using reg_okD(12) [OF ok True] True by (auto simp: refs_def R' life_def)
  qed (simp add: refs_def R')
qed

text \<open>Every step keeps the invariant, and the counts stay those of the running threads.\<close>

lemma reg_step_inv:
  "reg_step b (R, th) (R', th') \<Longrightarrow> reg_inv R \<Longrightarrow> th = refs R \<Longrightarrow> reg_inv R' \<and> th' = refs R'"
proof (induction "(R, th)" "(R', th')" rule: reg_step.induct)
  case (message s0 s1)
  then have "reg_msgs R \<noteq> []" by (auto simp: transport_registration_func_def)
  then show ?case using registration_ok [of R s0 s1] registration_refs [of R "Some (s0, s1)" R'] message by auto
next
  case (thread_exit a)
  then show ?case using thread_exit_ok [of R a b] by auto
next
  case (kick a)
  then show ?case using kick_transport_ok [of R b a] by (auto simp: kick_transport_def split: if_splits dest: Kick_refs)
next
  case (kick_many P)
  then show ?case using kick_each_ok [of R "transport_list R" b P] by (auto dest: kick_each_refs)
next
  case (unplug h)
  then show ?case using unregister_usb_transport_ok [of R h] unregister_usb_transport_refs by auto
qed (auto intro: register_socket_transport_inv register_usb_transport_inv reg_inv_put_tr
      simp: register_socket_transport_refs register_usb_transport_refs refs_put_tr)

lemma reg_reachable_refs: "reg_reachable b R th \<Longrightarrow> reg_inv R \<and> th = refs R"
proof (induction rule: reg_reachable.induct)
  case (start linux)
  show ?case by (auto simp: reg_init_inv) (auto simp: refs_def registry_init_def)
next
  case (step R th R' th')
  then show ?case using reg_step_inv by blast
qed

lemma reg_reachable_reg_inv: "reg_reachable b R th \<Longrightarrow> reg_inv R"
  using reg_reachable_refs by blast

lemma reg_step_two: "reg_step b (R, th) (R', th') \<Longrightarrow> \<forall>a. th a \<le> 2 \<Longrightarrow> th' a \<le> 2"
proof (induction "(R, th)" "(R', th')" rule: reg_step.induct)
  case (thread_exit c)
  then have "th c - 1 \<le> 2" by (meson diff_le_self le_trans)
  with thread_exit show ?case by auto
qed (auto split: option.splits)

lemma reg_reachable_two: "reg_reachable b R th \<Longrightarrow> \<forall>a. th a \<le> 2"
  by (induction rule: reg_reachable.induct) (auto dest: reg_step_two)

text \<open>Registering a socket and searching the emulator slots, as long as the slots hold live transports.\<close>

lemma find_emulator_ok:
  "(\<And>x. Some x \<in> set xs \<Longrightarrow> x \<in> dom (trs R)) \<Longrightarrow> \<exists>r. find_emulator_in R p xs = Inr r"
proof (induction R p xs rule: find_emulator_in.induct)
  case (3 R p x xs)
  then obtain t where "trs R x = Some t" by auto
  then show ?case using 3 by (cases "GetLocalPortForEmulator t = Some p") (auto simp: get_tr_def)
qed simp_all

lemma register_socket_transport_returns:
  assumes inv: "reg_inv R" and slots: "ADB_HOST b \<and> local \<longrightarrow> (\<forall>x. Some x \<in> set (local_transports R) \<longrightarrow> x \<in> dom (trs R))"
  shows "\<exists>r. register_socket_transport b s ser port local R = Inr r"
proof -
  let ?a = "reg_next R" and ?R1 = "snd (alloc_tr kCsOffline R)"
  have al: "alloc_tr kCsOffline R = (?a, ?R1)" by (simp add: alloc_tr_def Let_def)
  have R1: "trs ?R1 = (trs R)(?a \<mapsto> new_atransport kCsOffline)" "local_transports ?R1 = local_transports R"
    "transport_list ?R1 = transport_list R" "pending_list ?R1 = pending_list R"
    by (simp_all add: alloc_tr_def put_tr_def Let_def)
  have "\<exists>r. init_socket_transport b ?a s port local ?R1 = Inr r"
  proof (cases "ADB_HOST b \<and> local")
    case True
    let ?t = "(new_atransport kCsOffline)\<lparr>funcs := SocketFuncs, sfd := s, sync_token := 1,
      tr_type := kTransportLocal, local_port_for_emulator := port\<rparr>"
    from True slots obtain r where r: "find_emulator_in (put_tr ?a ?t ?R1) port (local_transports R) = Inr r"
      using find_emulator_ok [of "local_transports R" "put_tr ?a ?t ?R1" port] by (auto simp: put_tr_def R1)
    have "SetLocalPortForEmulator port ((new_atransport kCsOffline)\<lparr>funcs := SocketFuncs, sfd := s, sync_token := 1,
        tr_type := kTransportLocal\<rparr>) = Inr ?t"
      by (simp add: new_atransport_def SetLocalPortForEmulator_def)
    with True r show ?thesis
      by (cases r; cases "get_available_local_transport_index (put_tr ?a ?t ?R1)")
         (auto simp: init_socket_transport_def get_tr_def Let_def find_emulator_transport_by_adb_port_def R1
           put_tr_def [of _ _ "?R1"])
  qed (use R1 in \<open>auto simp: init_socket_transport_def get_tr_def Let_def\<close>)
  then obtain ok R2 where init: "init_socket_transport b ?a s port local ?R1 = Inr (ok, R2)" by auto
  have t0: "trs ?R1 ?a = Some (new_atransport kCsOffline)" by (simp add: R1)
  from init_socket_transport_effect [OF init t0] obtain t where
    R2: "trs R2 = (trs R)(?a \<mapsto> t)" "transport_list R2 = transport_list R" "pending_list R2 = pending_list R"
    by (auto simp: R1)
  have dom: "set (pending_list R2) \<subseteq> dom (trs R2)" "set (transport_list R2) \<subseteq> dom (trs R2)"
    using reg_okD(7,8) [OF inv [unfolded reg_inv_def]] by (auto simp: R2)
  note find_serial_eq [OF dom(1)] find_serial_eq [OF dom(2)]
  moreover have "trs R2 ?a = Some t" by (simp add: R2)
  ultimately show ?thesis unfolding register_socket_transport_def
    by (subst al) (auto simp: init Let_def get_tr_def split: option.splits)
qed

text \<open>
  C2: in every run of registrations, thread exits, kicks and removals, the two lists hold live
  transports, none of them in both and none twice among the registered ones. The reference count of
  a registered transport is exactly the number of its threads that still run, at most two, a
  transport with a running thread is registered, and its removal is under way, as one message, just
  when its threads have ended (a transport without permission has none and is dropped by unplugging
  it). So the next registration message can always be handled (with a socket pair of unused
  descriptors), a running thread can always give its reference back, and registering a USB
  transport, kicking one or all, unplugging, listing, searching by serial and iterating never touch
  a freed transport and fail no CHECK. Registering a socket and searching the emulator slots do so
  too, for an emulator only as long as its slots hold live transports: after a failed registration
  they need not (\<open>failed_registration_dangling_slot\<close> below).
\<close>

theorem registry_safe:
  assumes "reg_reachable b R th"
  shows "set (transport_list R) \<union> set (pending_list R) \<subseteq> dom (trs R) \<and> distinct (transport_list R) \<and>
    set (transport_list R) \<inter> set (pending_list R) = {} \<and>
    (\<forall>a. th a \<le> 2 \<and> (0 < th a \<longrightarrow> a \<in> set (transport_list R))) \<and>
    (\<forall>a t. a \<in> set (transport_list R) \<longrightarrow> trs R a = Some t \<longrightarrow> ref_count t = th a \<and>
       ((a, 0) \<in> set (reg_msgs R) \<longleftrightarrow> connection_state t \<noteq> kCsNoPerm \<and> th a = 0)) \<and>
    (\<forall>a t. a \<in> set (pending_list R) \<longrightarrow> trs R a = Some t \<longrightarrow> ref_count t = 0) \<and>
    distinct (map fst (reg_msgs R)) \<and>
    (\<forall>s0 s1. reg_msgs R \<noteq> [] \<longrightarrow> 0 \<le> s0 \<longrightarrow> poll_map (reg_fds R) s0 = None \<longrightarrow>
       (\<exists>R'. transport_registration_func (Some (s0, s1)) R = Inr R')) \<and>
    (\<forall>a. 0 < th a \<longrightarrow> (\<exists>R'. transport_unref b a R = Inr R')) \<and>
    (\<exists>R'. register_usb_transport h ser path w R = Inr R') \<and>
    (\<exists>R'. kick_transport b a R = Inr R') \<and> (\<exists>R'. kick_all_transports b R = Inr R') \<and>
    (\<exists>R'. unregister_usb_transport h R = Inr R') \<and>
    (\<exists>s. list_transports u long R = Inr s) \<and> (\<exists>r. find_transport sn R = Inr r) \<and>
    (\<exists>r. iterate_transports fn R = Inr r) \<and>
    (\<exists>r. register_socket_transport b s so port False R = Inr r) \<and>
    ((\<forall>x. Some x \<in> set (local_transports R) \<longrightarrow> x \<in> dom (trs R)) \<longrightarrow>
       (\<exists>r. register_socket_transport b s so port True R = Inr r) \<and>
       (\<exists>r. find_emulator_transport_by_adb_port port R = Inr r))"
proof -
  have inv: "reg_inv R" and th: "th = refs R" using reg_reachable_refs [OF assms] by blast+
  have ok: "reg_ok (trs R) (reg_next R) (reg_fds R) (transport_list R) (pending_list R) (reg_msgs R)"
    using inv by (simp add: reg_inv_def)
  have cnt: "ref_count t = th a \<and> ((a, 0) \<in> set (reg_msgs R) \<longleftrightarrow> connection_state t \<noteq> kCsNoPerm \<and> th a = 0)"
    if "a \<in> set (transport_list R)" "trs R a = Some t" for a t
    using reg_okD(12) [OF ok that] that by (auto simp: th refs_def life_def split: if_splits)
  have kick: "\<exists>R'. kick_all_transports b R = Inr R'"
    using kick_each_ok [OF inv, of "transport_list R" b "\<lambda>_. True"] by (auto simp: kick_all_transports_def)
  have list: "\<exists>s. list_transports u long R = Inr s"
    using list_each_ok [OF reg_okD(7) [OF ok]] by (simp add: list_transports_def)
  have iter: "\<exists>r. iterate_transports fn R = Inr r"
    using iterate_list_all [OF reg_okD(7) [OF ok], of fn] iterate_list_all [OF reg_okD(8) [OF ok], of fn]
    by (cases "\<forall>a \<in> set (transport_list R). fn (the (trs R a))") (auto simp: iterate_transports_def)
  have find: "\<exists>r. find_transport sn R = Inr r"
    using find_serial_eq [OF reg_okD(7) [OF ok]] by (simp add: find_transport_def)
  have emu: "\<exists>r. find_emulator_transport_by_adb_port port R = Inr r"
    if "\<forall>x. Some x \<in> set (local_transports R) \<longrightarrow> x \<in> dom (trs R)"
    using find_emulator_ok [of "local_transports R" R port] that by (auto simp: find_emulator_transport_by_adb_port_def)
  have sock: "\<exists>r. register_socket_transport b s so port False R = Inr r"
    using register_socket_transport_returns [OF inv, of b False] by blast
  have sock1: "\<exists>r. register_socket_transport b s so port True R = Inr r"
    if "\<forall>x. Some x \<in> set (local_transports R) \<longrightarrow> x \<in> dom (trs R)"
    using register_socket_transport_returns [OF inv, of b True] that by blast
  have th_ok: "\<forall>a. th a \<le> 2 \<and> (0 < th a \<longrightarrow> a \<in> set (transport_list R))"
    using reg_reachable_two [OF assms] refs_live [OF inv] th by blast
  have unref: "\<forall>a. 0 < th a \<longrightarrow> (\<exists>R'. transport_unref b a R = Inr R')" using thread_exit_ok [OF inv] th by blast
  have reg: "\<exists>R'. register_usb_transport h ser path w R = Inr R'" using register_usb_transport_effect by blast
  have ops: "\<exists>R'. kick_transport b a R = Inr R'" "\<exists>R'. unregister_usb_transport h R = Inr R'"
    using kick_transport_ok [OF inv] unregister_usb_transport_ok [OF inv] by blast+
  show ?thesis
    using reg_okD(5-9,14) [OF ok] cnt registration_ok [OF inv] kick list iter find emu sock sock1 th_ok unref reg ops
    by (intro conjI) blast+
qed

definition demo_reg :: registry where
  "demo_reg =
   put_tr 1 ((init_usb_transport 7 (new_atransport kCsOffline))\<lparr>serial := Some ''A1'', ref_count := 2,
       transport_socket := 5, at_fd := 6\<rparr>)
   ((registry_init True)\<lparr>reg_next := 2, transport_list := [1],
     reg_fds := put_fde 1 \<lparr>fde_fd = 5, force_eof = False, fde_state = FDE_ACTIVE OR FDE_READ, fde_events = 0, fde_func = 1\<rparr>
       ((fdsys_init True)\<lparr>poll_map := [5 \<mapsto> (1, POLLRDHUP OR POLLIN)]\<rparr>)\<rparr>)"

lemma demo_reg_reachable: "reg_reachable linux_host demo_reg ((\<lambda>_. 0)(1 := 2))"
proof -
  define R1 where "R1 = projr (register_usb_transport 7 (Some ''A1'') None True (registry_init True))"
  have R1: "register_usb_transport 7 (Some ''A1'') None True (registry_init True) = Inr R1"
    by (simp add: R1_def register_usb_transport_def alloc_tr_def put_tr_def get_tr_def Let_def)
  have r1: "reg_reachable linux_host R1 (\<lambda>_. 0)"
    by (rule reg_reachable.step [OF reg_reachable.start reg_step.usb [OF R1]])
  have m: "transport_registration_func (Some (5, 6)) R1 = Inr demo_reg"
    by (simp add: demo_reg_def R1_def register_usb_transport_def alloc_tr_def put_tr_def get_tr_def Let_def
        register_transport_def registry_init_def transport_registration_func_def fdevent_install_def
        fdevent_set_def fdevent_update_def fdsys_init_def init_usb_transport_def new_atransport_def
        get_fde_def put_fde_def fde_flags poll_events_for_def)
  have st: "starts R1 = Some 1"
    by (simp add: starts_def R1_def register_usb_transport_def alloc_tr_def put_tr_def get_tr_def Let_def
        register_transport_def registry_init_def init_usb_transport_def new_atransport_def)
  have "reg_step linux_host (R1, \<lambda>_. 0) (demo_reg, case starts R1 of None \<Rightarrow> \<lambda>_. 0 | Some a \<Rightarrow> (\<lambda>_. 0)(a := 2))"
    by (rule reg_step.message [OF _ _ m])
       (simp_all add: R1_def register_usb_transport_def alloc_tr_def put_tr_def get_tr_def Let_def
          register_transport_def registry_init_def fdsys_init_def)
  then show ?thesis unfolding st option.case by (rule reg_reachable.step [OF r1])
qed

theorem registry_safe_witness:
  "transport_list demo_reg = [1] \<and> reg_reachable linux_host demo_reg ((\<lambda>_. 0)(1 := 2)) \<and>
   (\<exists>t R'. trs demo_reg 1 = Some t \<and> ref_count t = 2 \<and> (1, 0) \<notin> set (reg_msgs demo_reg) \<and>
     transport_unref linux_host 1 demo_reg = Inr R') \<and>
   (\<exists>r. register_socket_transport linux_host 9 (Some ''emulator-5554'') 5555 True demo_reg = Inr r)"
proof -
  obtain t where t: "transport_list demo_reg = [1]" "trs demo_reg 1 = Some t" by (simp add: demo_reg_def put_tr_def)
  have slots: "\<forall>x. Some x \<in> set (local_transports demo_reg) \<longrightarrow> x \<in> dom (trs demo_reg)"
    by (simp add: demo_reg_def put_tr_def registry_init_def)
  note s = registry_safe [OF demo_reg_reachable]
  have "ref_count t = 2 \<and> (1, 0) \<notin> set (reg_msgs demo_reg)" using s t by (metis fun_upd_same list.set_intros(1) zero_neq_numeral)
  moreover have "\<exists>R'. transport_unref linux_host 1 demo_reg = Inr R'" using s by (metis fun_upd_same zero_less_numeral)
  moreover have "\<exists>r. register_socket_transport linux_host 9 (Some ''emulator-5554'') 5555 True demo_reg = Inr r"
    using s slots by blast
  ultimately show ?thesis using t demo_reg_reachable by blast
qed

section \<open>A failed registration leaves a dangling emulator slot\<close>

lemma find_emulator_in_cong:
  "(\<And>x. Some x \<in> set xs \<Longrightarrow> trs R' x = trs R x) \<Longrightarrow> find_emulator_in R' p xs = find_emulator_in R p xs"
proof (induction xs)
  case (Cons y ys)
  then have "find_emulator_in R' p ys = find_emulator_in R p ys" by simp
  then show ?case using Cons.prems by (cases y) (simp_all add: get_tr_def cong: if_cong)
qed simp

lemma find_emulator_dangling:
  "find_emulator_in R p xs = Inr None \<Longrightarrow> first_free xs = Some i \<Longrightarrow> trs R a = None \<Longrightarrow>
   find_emulator_in R p (xs[i := Some a]) = Inl (InvalidAccess a)"
proof (induction R p xs arbitrary: i rule: find_emulator_in.induct)
  case (3 R p x xs)
  then show ?case by (auto simp: get_tr_def split: if_splits option.splits)
qed (auto simp: get_tr_def)

lemma first_free_length: "first_free xs = Some i \<Longrightarrow> i < length xs"
  by (induction xs arbitrary: i rule: first_free.induct) auto

lemma find_serial_found:
  assumes "set as \<subseteq> dom (trs R)" and "a \<in> set as" and "serial (the (trs R a)) = Some s"
  shows "\<exists>x. find_serial s R as = Inr (Some x)"
proof -
  have "find (\<lambda>a. serial (the (trs R a)) = Some s) as \<noteq> None" using assms(2,3) by (auto simp: find_None_iff)
  then show ?thesis using find_serial_eq [OF assms(1), of s] by auto
qed

text \<open>
  When a new emulator connection has a free slot and a port no slot has, but its serial number is
  already in use, register\_socket\_transport fails and deletes the transport, but the slot
  keeps the address of the deleted object: the next search for that port (or any other that is in
  no slot) reads freed memory. init\_socket\_transport takes the slot before the serial number is
  checked, and the failure path does not give it back.
\<close>

theorem failed_registration_dangling_slot:
  assumes "reg_inv R" and "ADB_HOST b" and "\<forall>x. Some x \<in> set (local_transports R) \<longrightarrow> x \<in> dom (trs R)"
    and "find_emulator_transport_by_adb_port port R = Inr None"
    and "get_available_local_transport_index R = Some i"
    and "a \<in> set (transport_list R)" and "serial (the (trs R a)) = Some ser"
  shows "\<exists>R'. register_socket_transport b s (Some ser) port True R = Inr (False, R') \<and>
    local_transports R' ! i = Some (reg_next R) \<and> trs R' (reg_next R) = None \<and>
    find_emulator_transport_by_adb_port port R' = Inl (InvalidAccess (reg_next R))"
proof -
  have ok: "reg_ok (trs R) (reg_next R) (reg_fds R) (transport_list R) (pending_list R) (reg_msgs R)"
    using assms(1) by (simp add: reg_inv_def)
  let ?n = "reg_next R"
  have new: "trs R ?n = None" using reg_okD(1) [OF ok, of ?n] by (cases "trs R ?n") auto
  then have nslot: "Some ?n \<notin> set (local_transports R)" using assms(3) by blast
  let ?t = "(new_atransport kCsOffline)\<lparr>funcs := SocketFuncs, sfd := s, sync_token := 1,
      tr_type := kTransportLocal, local_port_for_emulator := port\<rparr>"
  let ?slots = "(local_transports R)[i := Some ?n]"
  let ?R1 = "(snd (alloc_tr kCsOffline R))\<lparr>trs := (trs R)(?n \<mapsto> ?t), local_transports := ?slots\<rparr>"
  have find: "find_emulator_in (R'\<lparr>trs := (trs R)(?n \<mapsto> t')\<rparr>) port (local_transports R) = Inr None" for R' t'
  proof -
    have "find_emulator_in (R'\<lparr>trs := (trs R)(?n \<mapsto> t')\<rparr>) port (local_transports R) =
        find_emulator_in R port (local_transports R)"
      by (rule find_emulator_in_cong) (use nslot in auto)
    then show ?thesis using assms(4) by (simp add: find_emulator_transport_by_adb_port_def)
  qed
  have init: "init_socket_transport b ?n s port True (snd (alloc_tr kCsOffline R)) = Inr (True, ?R1)"
    using assms(2,5) find [of ?t "snd (alloc_tr kCsOffline R)"]
    by (simp add: init_socket_transport_def alloc_tr_def put_tr_def get_tr_def Let_def new_atransport_def
        SetLocalPortForEmulator_def find_emulator_transport_by_adb_port_def get_available_local_transport_index_def)
  have dom: "set (pending_list ?R1) \<subseteq> dom (trs ?R1)" "set (transport_list ?R1) \<subseteq> dom (trs ?R1)"
    using reg_okD(7,8) [OF ok] by (auto simp: alloc_tr_def put_tr_def Let_def)
  have "a \<noteq> ?n" using assms(6) new reg_okD(7) [OF ok] by auto
  then obtain x where x: "find_serial ser ?R1 (transport_list ?R1) = Inr (Some x)"
    using find_serial_found [OF dom(2), of a ser] assms(6,7) by (auto simp: alloc_tr_def put_tr_def Let_def)
  obtain r where r: "find_serial ser ?R1 (pending_list ?R1) = Inr r"
    using find_serial_eq [OF dom(1)] by blast
  have reg: "register_socket_transport b s (Some ser) port True R = Inr (False, delete_tr ?n ?R1)"
  proof -
    have al: "alloc_tr kCsOffline R = (?n, snd (alloc_tr kCsOffline R))" by (simp add: alloc_tr_def Let_def)
    show ?thesis unfolding register_socket_transport_def
      by (subst al, cases r) (simp_all only: prod.case Let_def option.case init bindR_simps r x if_False
          not_True_eq_False)
  qed
  have del: "trs (delete_tr ?n ?R1) = trs R" "local_transports (delete_tr ?n ?R1) = ?slots"
    using new by (simp_all add: delete_tr_def fun_upd_idem)
  have "find_emulator_in (delete_tr ?n ?R1) port ?slots = find_emulator_in R port ?slots"
    by (rule find_emulator_in_cong) (simp add: del)
  also have "\<dots> = Inl (InvalidAccess ?n)"
    using find_emulator_dangling assms(4,5) new
    by (simp add: find_emulator_transport_by_adb_port_def get_available_local_transport_index_def)
  finally show ?thesis
    using reg del new first_free_length [of "local_transports R" i] assms(5)
    by (auto simp: find_emulator_transport_by_adb_port_def get_available_local_transport_index_def)
qed

theorem failed_registration_dangling_slot_witness:
  "\<exists>R'. register_socket_transport linux_host 9 (Some ''A1'') 5555 True demo_reg = Inr (False, R') \<and>
     find_emulator_transport_by_adb_port 5555 R' = Inl (InvalidAccess 2)"
proof -
  have f: "local_transports demo_reg = replicate 16 None" "reg_next demo_reg = 2" "transport_list demo_reg = [1]"
    "serial (the (trs demo_reg 1)) = Some ''A1''" "ADB_HOST linux_host"
    by (simp_all add: demo_reg_def put_tr_def registry_init_def ADB_LOCAL_TRANSPORT_MAX_def linux_host_def)
  have slots: "find_emulator_transport_by_adb_port 5555 demo_reg = Inr None"
    "get_available_local_transport_index demo_reg = Some 0"
    unfolding find_emulator_transport_by_adb_port_def get_available_local_transport_index_def f(1)
    by (simp_all add: numeral_eq_Suc)
  show ?thesis
    using failed_registration_dangling_slot [OF reg_reachable_reg_inv [OF demo_reg_reachable] f(5) _ slots, of 1 "''A1''" 9]
    unfolding f by auto
qed

end
