(* ===== verification/Sockets.thy ===== *)
theory Sockets
  imports Registry_Life
begin

text \<open>
  sockets.cpp: the asockets that carry the streams of a connection, each bound to a descriptor
  (local), to the protocol engine (remote), to the request parser of the host (smart) or to the
  list of device trackers (transport.cpp), and paired with a peer.

  Objects live in a heap \<open>socks\<close> by address; free removes the object and every access to a
  missing object is a fault. The intrusive lists of local sockets are lists of addresses
  (\<open>s->prev && s->next\<close> is membership in one of them). Function pointers are constructors, run by
  the dispatchers \<open>sock_close\<close>, \<open>sock_shutdown\<close>, \<open>sock_enqueue\<close> and \<open>sock_ready\<close>. A socket's
  fdevent has the socket's address in \<open>sfds\<close>; \<open>fdtab\<close> holds the kernel's descriptors and \<open>sent\<close>
  the packets handed to transports by send\_packet, in order.

  Two things are divided here that are one in the code. The fdevents of fdevent.cpp are one map of
  descriptors and one pending list; in the model each group of objects has its own part of them
  (\<open>sfds\<close> for sockets, \<open>lfds\<close> for listeners, \<open>reg_fds\<close> for transports), so that an operation is
  stated on the part it touches, and that a descriptor is new is required of one part at a time. And
  the sockets of jdwp\_service.cpp, which have close, enqueue and ready functions of their own and
  are on the list of local sockets too, are modelled in Jdwp on a state of their own; the function
  pointers below are those of sockets.cpp and transport.cpp, and the heap holds no jdwp sockets.
\<close>

datatype enqueue_fn = local_socket_enqueue_fn | remote_socket_enqueue_fn | smart_socket_enqueue_fn
  | device_tracker_enqueue_fn

datatype ready_fn = local_socket_ready_fn | local_socket_ready_notify_fn | remote_socket_ready_fn
  | smart_socket_ready_fn | device_tracker_ready_fn

datatype close_fn = local_socket_close_fn | local_socket_close_notify_fn | remote_socket_close_fn
  | smart_socket_close_fn | device_tracker_close_fn

record asocket =
  sk_id :: u32
  closing :: bool
  has_write_error :: bool
  exit_on_close :: bool
  peer :: "addr option"
  sk_fd :: fd
  pkts :: "apacket list"       \<comment> \<open>the chain from pkt\_first to pkt\_last\<close>
  enq_fn :: enqueue_fn
  rdy_fn :: ready_fn
  has_shutdown :: bool         \<comment> \<open>remote\_socket\_shutdown, or null\<close>
  cls_fn :: close_fn
  sk_transport :: "addr option"
  update_needed :: bool        \<comment> \<open>of a device\_tracker\<close>

record sstate =
  socks :: "addr \<rightharpoonup> asocket"
  next_addr :: addr
  local_socket_next_id :: u32
  local_socket_list :: "addr list"
  local_socket_closing_list :: "addr list"
  device_tracker_list :: "addr list"
  fdtab :: "fd \<Rightarrow> fd_state"
  sfds :: "addr fdsys"
  reg :: registry
  sent :: "(addr \<times> apacket) list"

definition blank_socket :: asocket where
  "blank_socket =
    \<lparr>sk_id = 0, closing = False, has_write_error = False, exit_on_close = False, peer = None, sk_fd = 0,
     pkts = [], enq_fn = local_socket_enqueue_fn, rdy_fn = local_socket_ready_fn, has_shutdown = False,
     cls_fn = local_socket_close_fn, sk_transport = None, update_needed = False\<rparr>"

definition sget :: "addr \<Rightarrow> 'x sstate_scheme \<Rightarrow> asocket res" where
  "sget a S = (case socks S a of None \<Rightarrow> Inl (InvalidAccess a) | Some s \<Rightarrow> Inr s)"

definition sput :: "addr \<Rightarrow> asocket \<Rightarrow> 'x sstate_scheme \<Rightarrow> 'x sstate_scheme" where
  "sput a s S = S\<lparr>socks := (socks S)(a \<mapsto> s)\<rparr>"

text \<open>Dereferencing a pointer that may be null.\<close>

definition deref :: "addr option \<Rightarrow> addr res" where
  "deref x = (case x of None \<Rightarrow> Inl NullDeref | Some a \<Rightarrow> Inr a)"

definition salloc :: "asocket \<Rightarrow> 'x sstate_scheme \<Rightarrow> addr \<times> 'x sstate_scheme" where
  "salloc s S = (next_addr S, S\<lparr>socks := (socks S)(next_addr S \<mapsto> s), next_addr := next_addr S + 1\<rparr>)"

definition sfree :: "addr \<Rightarrow> 'x sstate_scheme \<Rightarrow> 'x sstate_scheme" where
  "sfree a S = S\<lparr>socks := (socks S)(a := None), sfds := (sfds S)\<lparr>fdes := (fdes (sfds S))(a := None)\<rparr>\<rparr>"

text \<open>An fdevent operation on a socket's fde.\<close>

definition on_fds :: "(addr fdsys \<Rightarrow> addr fdsys res) \<Rightarrow> 'x sstate_scheme \<Rightarrow> 'x sstate_scheme res" where
  "on_fds f S = bindR (f (sfds S)) (\<lambda>F. Inr (S\<lparr>sfds := F\<rparr>))"

definition send_packet :: "apacket \<Rightarrow> addr option \<Rightarrow> 'x sstate_scheme \<Rightarrow> 'x sstate_scheme res" where
  "send_packet p0 t S =
    bindR (seal_packet p0) (\<lambda>p.
      case t of
        None \<Rightarrow> Inl (Fatal ''Transport is null'')
      | Some a \<Rightarrow> bindR (get_tr a (reg S)) (\<lambda>_. Inr (S\<lparr>sent := sent S @ [(a, p)]\<rparr>)))"

section \<open>The lists\<close>

fun find_in_list :: "'x sstate_scheme \<Rightarrow> u32 \<Rightarrow> u32 \<Rightarrow> addr list \<Rightarrow> addr option res" where
  "find_in_list S local_id peer_id [] = Inr None"
| "find_in_list S local_id peer_id (a # as) =
    bindR (sget a S) (\<lambda>s.
      if sk_id s \<noteq> local_id then find_in_list S local_id peer_id as
      else if peer_id = 0 then Inr (Some a)
      else (case peer s of
              None \<Rightarrow> Inr None
            | Some q \<Rightarrow> bindR (sget q S) (\<lambda>qs. Inr (if sk_id qs = peer_id then Some a else None))))"

definition find_local_socket :: "u32 \<Rightarrow> u32 \<Rightarrow> 'x sstate_scheme \<Rightarrow> addr option res" where
  "find_local_socket local_id peer_id S = find_in_list S local_id peer_id (local_socket_list S)"

definition install_local_socket :: "addr \<Rightarrow> 'x sstate_scheme \<Rightarrow> 'x sstate_scheme res" where
  "install_local_socket a S =
    bindR (sget a S) (\<lambda>s.
      let S1 = (sput a (s\<lparr>sk_id := local_socket_next_id S\<rparr>) S)\<lparr>local_socket_next_id := local_socket_next_id S + 1\<rparr>
      in if local_socket_next_id S1 = 0 then Inl (Fatal ''local socket id overflow'')
         else Inr (S1\<lparr>local_socket_list := local_socket_list S1 @ [a]\<rparr>))"

definition remove_socket :: "addr \<Rightarrow> 'x sstate_scheme \<Rightarrow> 'x sstate_scheme res" where
  "remove_socket a S =
    bindR (sget a S) (\<lambda>s.
      if a \<in> set (local_socket_list S) \<union> set (local_socket_closing_list S) then
        Inr ((sput a (s\<lparr>sk_id := 0\<rparr>) S)
             \<lparr>local_socket_list := removeAll a (local_socket_list S),
              local_socket_closing_list := removeAll a (local_socket_closing_list S)\<rparr>)
      else Inr S)"

section \<open>Closing\<close>

definition local_socket_destroy :: "addr \<Rightarrow> 'x sstate_scheme \<Rightarrow> 'x sstate_scheme res" where
  "local_socket_destroy a S =
    bindR (sget a S) (\<lambda>s.
    bindR (on_fds (fdevent_remove a) S) (\<lambda>S1.
    bindR (remove_socket a S1) (\<lambda>S2.
      if exit_on_close s then Inl (Exit 1) else Inr (sfree a S2))))"

definition remote_socket_shutdown :: "addr \<Rightarrow> 'x sstate_scheme \<Rightarrow> 'x sstate_scheme res" where
  "remote_socket_shutdown a S =
    bindR (sget a S) (\<lambda>s.
    bindR (case peer s of
             None \<Rightarrow> Inr 0
           | Some q \<Rightarrow> bindR (sget q S) (\<lambda>qs. Inr (sk_id qs))) (\<lambda>arg0.
      send_packet (get_apacket\<lparr>msg := zero_message\<lparr>command := A_CLSE, arg0 := arg0, arg1 := sk_id s\<rparr>\<rparr>)
        (sk_transport s) S))"

definition sock_shutdown :: "addr \<Rightarrow> 'x sstate_scheme \<Rightarrow> 'x sstate_scheme res" where
  "sock_shutdown a S =
    bindR (sget a S) (\<lambda>s. if has_shutdown s then remote_socket_shutdown a S else Inr S)"

text \<open>\<open>q->peer = null; q->close(q)\<close>: what every close function does to its peer.\<close>

definition drop_peer :: "(addr \<Rightarrow> 'x sstate_scheme \<Rightarrow> 'x sstate_scheme res) \<Rightarrow> addr \<Rightarrow> 'x sstate_scheme \<Rightarrow> 'x sstate_scheme res" where
  "drop_peer close q S = bindR (sget q S) (\<lambda>qs. close q (sput q (qs\<lparr>peer := None\<rparr>) S))"

text \<open>The part of \<open>local_socket_close\<close> after the peer is gone.\<close>

definition local_socket_finish :: "addr \<Rightarrow> 'x sstate_scheme \<Rightarrow> 'x sstate_scheme res" where
  "local_socket_finish a S =
    bindR (sget a S) (\<lambda>s.
      if closing s \<or> has_write_error s \<or> pkts s = [] then local_socket_destroy a S
      else
        bindR (on_fds (fdevent_del a FDE_READ) (sput a (s\<lparr>closing := True\<rparr>) S)) (\<lambda>S1.
        bindR (remove_socket a S1) (\<lambda>S2.
        let S3 = S2\<lparr>local_socket_closing_list := local_socket_closing_list S2 @ [a]\<rparr> in
        bindR (get_fde a (sfds S3)) (\<lambda>f.
        bindR (checkR (fde_state f AND FDE_WRITE = FDE_WRITE) ''CHECK_EQ(FDE_WRITE, s->fde.state & FDE_WRITE)'')
          (\<lambda>_. Inr S3)))))"

definition local_socket_close :: "(addr \<Rightarrow> 'x sstate_scheme \<Rightarrow> 'x sstate_scheme res) \<Rightarrow> addr \<Rightarrow> 'x sstate_scheme \<Rightarrow> 'x sstate_scheme res" where
  "local_socket_close close a S =
    bindR (sget a S) (\<lambda>s.
      case peer s of
        None \<Rightarrow> local_socket_finish a S
      | Some q \<Rightarrow>
          bindR (sock_shutdown q S) (\<lambda>S1.
          bindR (drop_peer close q S1) (\<lambda>S2.
          bindR (sget a S2) (\<lambda>s2. local_socket_finish a (sput a (s2\<lparr>peer := None\<rparr>) S2)))))"

definition write_fd :: "fd \<Rightarrow> (fd_state \<Rightarrow> (bool \<times> errno_t \<times> fd_state) res) \<Rightarrow> 'x sstate_scheme \<Rightarrow> 'x sstate_scheme res" where
  "write_fd fd w S = bindR (w (fdtab S fd)) (\<lambda>(ok, e, f). Inr (S\<lparr>fdtab := (fdtab S)(fd := f)\<rparr>))"

definition local_socket_close_notify :: "(addr \<Rightarrow> 'x sstate_scheme \<Rightarrow> 'x sstate_scheme res) \<Rightarrow> addr \<Rightarrow> 'x sstate_scheme \<Rightarrow> 'x sstate_scheme res" where
  "local_socket_close_notify close a S =
    bindR (sget a S) (\<lambda>s.
    bindR (write_fd (sk_fd s) (\<lambda>f. SendFail f ''closed'')
      (sput a (s\<lparr>rdy_fn := local_socket_ready_fn, has_shutdown := False, cls_fn := local_socket_close_fn\<rparr>) S))
      (close a))"

definition remote_socket_close :: "(addr \<Rightarrow> 'x sstate_scheme \<Rightarrow> 'x sstate_scheme res) \<Rightarrow> addr \<Rightarrow> 'x sstate_scheme \<Rightarrow> 'x sstate_scheme res" where
  "remote_socket_close close a S =
    bindR (sget a S) (\<lambda>s.
    bindR (case peer s of None \<Rightarrow> Inr S | Some q \<Rightarrow> drop_peer close q S) (\<lambda>S1. Inr (sfree a S1)))"

definition smart_socket_close :: "(addr \<Rightarrow> 'x sstate_scheme \<Rightarrow> 'x sstate_scheme res) \<Rightarrow> addr \<Rightarrow> 'x sstate_scheme \<Rightarrow> 'x sstate_scheme res" where
  "smart_socket_close close a S =
    bindR (sget a S) (\<lambda>s.
    bindR (case peer s of None \<Rightarrow> Inr S | Some q \<Rightarrow> drop_peer close q S) (\<lambda>S1. Inr (sfree a S1)))"

definition device_tracker_close :: "(addr \<Rightarrow> 'x sstate_scheme \<Rightarrow> 'x sstate_scheme res) \<Rightarrow> addr \<Rightarrow> 'x sstate_scheme \<Rightarrow> 'x sstate_scheme res" where
  "device_tracker_close close a S =
    bindR (sget a S) (\<lambda>s.
    bindR (case peer s of None \<Rightarrow> Inr S | Some q \<Rightarrow> drop_peer close q S) (\<lambda>S1.
      Inr (sfree a (S1\<lparr>device_tracker_list := removeAll a (device_tracker_list S1)\<rparr>))))"

text \<open>
  \<open>s->close(s)\<close>. A close function calls at most the close function of its peer, whose peer
  pointer is null by then, and the notifying variant calls the plain one: four nested calls are
  enough.
\<close>

fun sock_close :: "nat \<Rightarrow> addr \<Rightarrow> 'x sstate_scheme \<Rightarrow> 'x sstate_scheme res" where
  "sock_close 0 a S = Inl OutOfFuel"
| "sock_close (Suc n) a S =
    bindR (sget a S) (\<lambda>s.
      case cls_fn s of
        local_socket_close_fn \<Rightarrow> local_socket_close (sock_close n) a S
      | local_socket_close_notify_fn \<Rightarrow> local_socket_close_notify (sock_close n) a S
      | remote_socket_close_fn \<Rightarrow> remote_socket_close (sock_close n) a S
      | smart_socket_close_fn \<Rightarrow> smart_socket_close (sock_close n) a S
      | device_tracker_close_fn \<Rightarrow> device_tracker_close (sock_close n) a S)"

declare sock_close.simps [simp del]

definition CLOSE_DEPTH :: nat where "CLOSE_DEPTH = 4"

abbreviation close_socket :: "addr \<Rightarrow> 'x sstate_scheme \<Rightarrow> 'x sstate_scheme res" where
  "close_socket \<equiv> sock_close CLOSE_DEPTH"

text \<open>One pass of the loop of \<open>close_all_sockets\<close>: the first socket on the transport, if any.\<close>

fun find_on_transport :: "'x sstate_scheme \<Rightarrow> addr option \<Rightarrow> addr list \<Rightarrow> addr option res" where
  "find_on_transport S t [] = Inr None"
| "find_on_transport S t (a # as) =
    bindR (sget a S) (\<lambda>s.
      if sk_transport s = t then Inr (Some a)
      else (case peer s of
              None \<Rightarrow> find_on_transport S t as
            | Some q \<Rightarrow>
                bindR (sget q S) (\<lambda>qs.
                  if sk_transport qs = t then Inr (Some a) else find_on_transport S t as)))"

fun close_all_loop :: "nat \<Rightarrow> addr option \<Rightarrow> 'x sstate_scheme \<Rightarrow> 'x sstate_scheme res" where
  "close_all_loop n t S =
    bindR (find_on_transport S t (local_socket_list S)) (\<lambda>r.
      case r of
        None \<Rightarrow> Inr S
      | Some a \<Rightarrow>
          (case n of
             0 \<Rightarrow> Inl OutOfFuel
           | Suc m \<Rightarrow> bindR (close_socket a S) (close_all_loop m t)))"

declare close_all_loop.simps [simp del]

definition close_all_sockets :: "addr option \<Rightarrow> 'x sstate_scheme \<Rightarrow> 'x sstate_scheme res" where
  "close_all_sockets t S = close_all_loop (length (local_socket_list S)) t S"

section \<open>Writing to a descriptor\<close>

text \<open>
  The write loop shared by \<open>local_socket_enqueue\<close> and the event handler: done, would block, or
  failed (an error other than EAGAIN, or nothing written).
\<close>

datatype wstatus = WDone | WBlocked | WFailed

function write_out :: "apacket \<Rightarrow> fd_state \<Rightarrow> wstatus \<times> apacket \<times> fd_state" where
  "write_out p f =
    (if 0 < p_len p then
       (case adb_write f (take (p_len p) (drop (p_ptr p) (p_data p))) of
          (Ret r, f') \<Rightarrow>
            if 0 < r then write_out (p\<lparr>p_len := p_len p - r, p_ptr := p_ptr p + r\<rparr>) f'
            else (WFailed, p, f')
        | (Err e, f') \<Rightarrow> if e = EAGAIN then (WBlocked, p, f') else (WFailed, p, f'))
     else (WDone, p, f))"
  by pat_completeness auto
termination
  by (relation "measure (\<lambda>(p, f). p_len p)") auto

declare write_out.simps [simp del]

text \<open>The queue: packets are written in order until one blocks or fails.\<close>

fun flush_queue :: "apacket list \<Rightarrow> fd_state \<Rightarrow> wstatus \<times> apacket list \<times> fd_state" where
  "flush_queue [] f = (WDone, [], f)"
| "flush_queue (p # ps) f =
    (case write_out p f of
       (WDone, p', f') \<Rightarrow> flush_queue ps f'
     | (st, p', f') \<Rightarrow> (st, p' # ps, f'))"

text \<open>
  \<open>local_socket_enqueue\<close>: 0 is ready for more, 1 is not ready (backlog, or closed after an error).
\<close>

definition local_socket_enqueue :: "addr \<Rightarrow> apacket \<Rightarrow> 'x sstate_scheme \<Rightarrow> (int \<times> 'x sstate_scheme) res" where
  "local_socket_enqueue a p0 S =
    bindR (sget a S) (\<lambda>s.
      let p = p0\<lparr>p_ptr := 0\<rparr> in
      if p_len p > length (p_data p) then Inl OutOfBounds
      else if pkts s \<noteq> [] then
        bindR (on_fds (fdevent_add a FDE_WRITE) (sput a (s\<lparr>pkts := pkts s @ [p]\<rparr>) S)) (\<lambda>S1. Inr (1, S1))
      else
        (case write_out p (fdtab S (sk_fd s)) of
           (st, p1, f1) \<Rightarrow>
             let S1 = S\<lparr>fdtab := (fdtab S)(sk_fd s := f1)\<rparr> in
             (case st of
                WDone \<Rightarrow> Inr (0, S1)
              | WFailed \<Rightarrow>
                  bindR (close_socket a (sput a (s\<lparr>has_write_error := True\<rparr>) S1)) (\<lambda>S2. Inr (1, S2))
              | WBlocked \<Rightarrow>
                  bindR (on_fds (fdevent_add a FDE_WRITE) (sput a (s\<lparr>pkts := [p1]\<rparr>) S1)) (\<lambda>S2.
                    Inr (1, S2)))))"

definition remote_socket_enqueue :: "addr \<Rightarrow> apacket \<Rightarrow> 'x sstate_scheme \<Rightarrow> (int \<times> 'x sstate_scheme) res" where
  "remote_socket_enqueue a p S =
    bindR (sget a S) (\<lambda>s.
    bindR (deref (peer s)) (\<lambda>q.
    bindR (sget q S) (\<lambda>qs.
    bindR (send_packet
      (p\<lparr>msg := (msg p)\<lparr>command := A_WRTE, arg0 := sk_id qs, arg1 := sk_id s, data_length := of_nat (p_len p)\<rparr>\<rparr>)
      (sk_transport s) S) (\<lambda>S1. Inr (1, S1)))))"

definition device_tracker_enqueue :: "addr \<Rightarrow> 'x sstate_scheme \<Rightarrow> (int \<times> 'x sstate_scheme) res" where
  "device_tracker_enqueue a S = bindR (close_socket a S) (\<lambda>S1. Inr (-1, S1))"

section \<open>Ready\<close>

definition local_socket_ready :: "addr \<Rightarrow> 'x sstate_scheme \<Rightarrow> 'x sstate_scheme res" where
  "local_socket_ready a S = bindR (sget a S) (\<lambda>_. on_fds (fdevent_add a FDE_READ) S)"

definition local_socket_ready_notify :: "addr \<Rightarrow> 'x sstate_scheme \<Rightarrow> 'x sstate_scheme res" where
  "local_socket_ready_notify a S =
    bindR (sget a S) (\<lambda>s.
    bindR (write_fd (sk_fd s) SendOkay
      (sput a (s\<lparr>rdy_fn := local_socket_ready_fn, has_shutdown := False, cls_fn := local_socket_close_fn\<rparr>) S))
      (local_socket_ready a))"

definition remote_socket_ready :: "addr \<Rightarrow> 'x sstate_scheme \<Rightarrow> 'x sstate_scheme res" where
  "remote_socket_ready a S =
    bindR (sget a S) (\<lambda>s.
    bindR (deref (peer s)) (\<lambda>q.
    bindR (sget q S) (\<lambda>qs.
      send_packet (get_apacket\<lparr>msg := zero_message\<lparr>command := A_OKAY, arg0 := sk_id qs, arg1 := sk_id s\<rparr>\<rparr>)
        (sk_transport s) S)))"

text \<open>
  Sending the device list to a tracker's peer: \<open>snprintf\<close> writes at most four hexadecimal digits
  and the text follows, without a bound on its size.
\<close>

definition tracker_packet :: "string \<Rightarrow> apacket res" where
  "tracker_packet text =
    (if 4 + length text \<le> MAX_PAYLOAD
     then Inr (get_apacket\<lparr>p_data := take 4 (pad0 4 (hex_of_nat (length text))) @ text, p_len := 4 + length text\<rparr>)
     else Inl OutOfBounds)"

definition device_tracker_send ::
    "(addr \<Rightarrow> apacket \<Rightarrow> 'x sstate_scheme \<Rightarrow> (int \<times> 'x sstate_scheme) res) \<Rightarrow> addr \<Rightarrow> string \<Rightarrow> 'x sstate_scheme \<Rightarrow> (int \<times> 'x sstate_scheme) res" where
  "device_tracker_send enqueue a text S =
    bindR (sget a S) (\<lambda>s.
    bindR (tracker_packet text) (\<lambda>p.
    bindR (deref (peer s)) (\<lambda>q. enqueue q p S)))"

definition device_tracker_ready ::
    "(addr \<Rightarrow> apacket \<Rightarrow> 'x sstate_scheme \<Rightarrow> (int \<times> 'x sstate_scheme) res) \<Rightarrow> udev_info \<Rightarrow> addr \<Rightarrow> 'x sstate_scheme \<Rightarrow> 'x sstate_scheme res" where
  "device_tracker_ready enqueue u a S =
    bindR (sget a S) (\<lambda>s.
      if update_needed s then
        bindR (list_transports u False (reg S)) (\<lambda>text.
        bindR (device_tracker_send enqueue a text (sput a (s\<lparr>update_needed := False\<rparr>) S)) (\<lambda>(r, S1). Inr S1))
      else Inr S)"

section \<open>Creating sockets\<close>

definition create_local_socket :: "fd \<Rightarrow> 'x sstate_scheme \<Rightarrow> (addr \<times> 'x sstate_scheme) res" where
  "create_local_socket fd S =
    (case salloc (blank_socket\<lparr>sk_fd := fd\<rparr>) S of (a, S1) \<Rightarrow>
      bindR (install_local_socket a S1) (\<lambda>S2.
      bindR (on_fds (fdevent_install a fd a) S2) (\<lambda>S3. Inr (a, S3))))"

definition create_remote_socket :: "u32 \<Rightarrow> addr option \<Rightarrow> 'x sstate_scheme \<Rightarrow> (addr \<times> 'x sstate_scheme) res" where
  "create_remote_socket rid t S =
    (if rid = 0 then Inl (Fatal ''invalid remote socket id (0)'')
     else Inr (salloc (blank_socket\<lparr>sk_id := rid, enq_fn := remote_socket_enqueue_fn,
            rdy_fn := remote_socket_ready_fn, has_shutdown := True, cls_fn := remote_socket_close_fn,
            sk_transport := t\<rparr>) S))"

definition create_smart_socket :: "'x sstate_scheme \<Rightarrow> addr \<times> 'x sstate_scheme" where
  "create_smart_socket S =
    salloc (blank_socket\<lparr>enq_fn := smart_socket_enqueue_fn, rdy_fn := smart_socket_ready_fn,
      cls_fn := smart_socket_close_fn\<rparr>) S"

definition create_device_tracker :: "'x sstate_scheme \<Rightarrow> addr \<times> 'x sstate_scheme" where
  "create_device_tracker S =
    (case salloc (blank_socket\<lparr>enq_fn := device_tracker_enqueue_fn, rdy_fn := device_tracker_ready_fn,
        cls_fn := device_tracker_close_fn, update_needed := True\<rparr>) S of
       (a, S1) \<Rightarrow> (a, S1\<lparr>device_tracker_list := a # device_tracker_list S1\<rparr>))"

definition transport_payload :: "addr option \<Rightarrow> 'x sstate_scheme \<Rightarrow> nat \<Rightarrow> nat res" where
  "transport_payload t S m =
    (case t of None \<Rightarrow> Inr m | Some a \<Rightarrow> bindR (get_tr a (reg S)) (\<lambda>tr. Inr (min m (max_payload tr))))"

definition get_max_payload :: "addr \<Rightarrow> 'x sstate_scheme \<Rightarrow> nat res" where
  "get_max_payload a S =
    bindR (sget a S) (\<lambda>s.
    bindR (transport_payload (sk_transport s) S MAX_PAYLOAD) (\<lambda>m.
      case peer s of
        None \<Rightarrow> Inr m
      | Some q \<Rightarrow> bindR (sget q S) (\<lambda>qs. transport_payload (sk_transport qs) S m)))"

text \<open>\<open>s->get_max_payload() - 1\<close> is computed in size\_t: at 0 it wraps to a huge bound.\<close>

definition connect_to_remote :: "addr \<Rightarrow> string \<Rightarrow> 'x sstate_scheme \<Rightarrow> 'x sstate_scheme res" where
  "connect_to_remote a destination S =
    bindR (sget a S) (\<lambda>s.
    bindR (get_max_payload a S) (\<lambda>m.
      let dest = c_str destination; len = length dest + 1;
          bound = (if m = 0 then 2 ^ 64 - 1 else m - 1) in
      if len > bound then Inl (Fatal ''destination oversized'')
      else
        bindR (put_data (dest @ [CHR 0x00]) (get_apacket\<lparr>msg := zero_message\<lparr>command := A_OPEN,
          arg0 := sk_id s, data_length := of_nat len\<rparr>\<rparr>)) (\<lambda>p.
        send_packet p (sk_transport s) S)))"

section \<open>Requests: lengths and serial numbers\<close>

fun unhex :: "u32 \<Rightarrow> string \<Rightarrow> u32" where
  "unhex n [] = n"
| "unhex n (ch # s) =
    (let c = (of_char ch :: nat) in
     if 48 \<le> c \<and> c \<le> 57 then unhex (push_bit 4 n OR of_nat (c - 48)) s
     else if 97 \<le> c \<and> c \<le> 102 then unhex (push_bit 4 n OR of_nat (c - 97 + 10)) s
     else if 65 \<le> c \<and> c \<le> 70 then unhex (push_bit 4 n OR of_nat (c - 65 + 10)) s
     else 0xffffffff)"

definition strchr_from :: "nat \<Rightarrow> string \<Rightarrow> char \<Rightarrow> nat option" where
  "strchr_from i s c = map_option ((+) i) (strchr (drop i s) c)"

fun skip_digits :: "string \<Rightarrow> nat" where
  "skip_digits [] = 0"
| "skip_digits (c # s) = (if is_digit c then Suc (skip_digits s) else 0)"

text \<open>The result is the offset of the colon before the command, None for a null pointer.\<close>

definition skip_host_serial :: "string \<Rightarrow> nat option" where
  "skip_host_serial service =
    (case find (\<lambda>p. prefix p service) [''usb:'', ''product:'', ''model:'', ''device:''] of
       Some p \<Rightarrow> strchr_from (length p) service (CHR '':'')
     | None \<Rightarrow>
         (let i0 = (if prefix ''tcp:'' service \<or> prefix ''udp:'' service then 4 else 0);
              i1 = (if i0 < length service \<and> service ! i0 = CHR ''[''
                    then (case strchr_from i0 service (CHR '']'') of None \<Rightarrow> i0 | Some e \<Rightarrow> e) else i0)
          in case strchr_from i1 service (CHR '':'') of
               None \<Rightarrow> None
             | Some colon \<Rightarrow>
                 if Suc colon < length service \<and> is_digit (service ! Suc colon) then
                   (let e = Suc colon + skip_digits (drop (Suc colon) service) in
                    if e < length service \<and> service ! e = CHR '':'' then Some e else Some colon)
                 else Some colon))"

text \<open>The host prefixes of a request: the rest of the service, the transport type and the serial.\<close>

definition parse_host_prefix :: "string \<Rightarrow> (string \<times> TransportType \<times> string option) option" where
  "parse_host_prefix service =
    (if prefix ''host-serial:'' service then
       (let rest = drop (length ''host-serial:'') service in
        case skip_host_serial rest of
          Some e \<Rightarrow> Some (drop (Suc e) rest, kTransportAny, Some (take e rest))
        | None \<Rightarrow> Some (rest, kTransportAny, None))
     else if prefix ''host-usb:'' service
     then Some (drop (length ''host-usb:'') service, kTransportUsb, None)
     else if prefix ''host-local:'' service
     then Some (drop (length ''host-local:'') service, kTransportLocal, None)
     else if prefix ''host:'' service
     then Some (drop (length ''host:'') service, kTransportAny, None)
     else None)"

section \<open>Smart sockets\<close>

text \<open>
  What the request parser calls outside this file: handle\_host\_request of adb.cpp and
  host\_service\_to\_socket of services.cpp.
\<close>

record 'x smart_env =
  sm_base :: libbase
  sm_acq :: acquire_env
  handle_host_request_fn :: "string \<Rightarrow> TransportType \<Rightarrow> string option \<Rightarrow> fd \<Rightarrow> addr \<Rightarrow> 'x sstate_scheme \<Rightarrow> (int \<times> 'x sstate_scheme) res"
  host_service_fn :: "string \<Rightarrow> string option \<Rightarrow> 'x sstate_scheme \<Rightarrow> (addr option \<times> 'x sstate_scheme) res"

abbreviation sm_host :: "'x smart_env \<Rightarrow> bool" where
  "sm_host env \<equiv> ADB_HOST (acq_build (sm_acq env))"

definition smart_fail :: "addr \<Rightarrow> 'x sstate_scheme \<Rightarrow> (int \<times> 'x sstate_scheme) res" where
  "smart_fail a S = bindR (close_socket a S) (\<lambda>S1. Inr (-1, S1))"

definition peer_fd :: "addr \<Rightarrow> 'x sstate_scheme \<Rightarrow> fd res" where
  "peer_fd a S = bindR (sget a S) (\<lambda>s. bindR (deref (peer s)) (\<lambda>q. bindR (sget q S) (\<lambda>qs. Inr (sk_fd qs))))"

definition fail_peer :: "addr \<Rightarrow> string \<Rightarrow> 'x sstate_scheme \<Rightarrow> (int \<times> 'x sstate_scheme) res" where
  "fail_peer a reason S =
    bindR (peer_fd a S) (\<lambda>fd. bindR (write_fd fd (\<lambda>f. SendFail f reason) S) (smart_fail a))"

text \<open>Adding a packet to what is collected: the packet to parse, or None on overflow.\<close>

definition smart_collect :: "addr \<Rightarrow> apacket \<Rightarrow> 'x sstate_scheme \<Rightarrow> (apacket option \<times> 'x sstate_scheme) res" where
  "smart_collect a p S =
    bindR (sget a S) (\<lambda>s.
      case pkts s of
        [] \<Rightarrow> Inr (Some p, sput a (s\<lparr>pkts := [p]\<rparr>) S)
      | first # _ \<Rightarrow>
          bindR (get_max_payload a S) (\<lambda>m.
            if p_len first + p_len p > m then Inr (None, S)
            else if p_len p > length (p_data p) \<or> p_len first > length (p_data first) \<or>
                    p_len first + p_len p > MAX_PAYLOAD then Inl OutOfBounds
            else let q = first\<lparr>p_data := take (p_len first) (p_data first) @ take (p_len p) (p_data p) @
                              drop (p_len first + p_len p) (p_data first),
                            p_len := p_len first + p_len p\<rparr>
                 in Inr (Some q, sput a (s\<lparr>pkts := [q]\<rparr>) S)))"

definition smart_host_service ::
    "'x smart_env \<Rightarrow> (addr \<Rightarrow> 'x sstate_scheme \<Rightarrow> 'x sstate_scheme res) \<Rightarrow> addr \<Rightarrow> string \<Rightarrow> string option \<Rightarrow> 'x sstate_scheme \<Rightarrow> (int \<times> 'x sstate_scheme) res" where
  "smart_host_service env ready a service serial0 S =
    bindR (host_service_fn env service serial0 S) (\<lambda>(r, S1).
      case r of
        None \<Rightarrow> fail_peer a ''unknown host service'' S1
      | Some s2 \<Rightarrow>
          bindR (sget a S1) (\<lambda>s.
          bindR (deref (peer s)) (\<lambda>q.
          bindR (sget q S1) (\<lambda>qs0.
          bindR (write_fd (sk_fd qs0) SendOkay S1) (\<lambda>S2.
          bindR (sget q S2) (\<lambda>qs.
          let S3 = sput q (qs\<lparr>rdy_fn := local_socket_ready_fn, has_shutdown := False,
                             cls_fn := local_socket_close_fn, peer := Some s2\<rparr>) S2 in
          bindR (sget s2 S3) (\<lambda>ss2.
          let S4 = sput s2 (ss2\<lparr>peer := Some q\<rparr>) S3 in
          bindR (sget a S4) (\<lambda>s4.
          bindR (close_socket a (sput a (s4\<lparr>peer := None\<rparr>) S4)) (\<lambda>S5.
          bindR (ready s2 S5) (\<lambda>S6. Inr (0, S6)))))))))))"

text \<open>A request for the device: the transport is chosen on the device build, then the connection asked for.\<close>

definition smart_connect :: "'x smart_env \<Rightarrow> addr \<Rightarrow> string \<Rightarrow> 'x sstate_scheme \<Rightarrow> (int \<times> 'x sstate_scheme) res" where
  "smart_connect env a service S0 =
    bindR (sget a S0) (\<lambda>s0.
    bindR (if \<not> sm_host env \<and> sk_transport s0 = None then
             bindR (acquire_one_transport (sm_base env) (sm_acq env) kTransportAny None False (reg S0))
               (\<lambda>(r, err, _). Inr (sput a (s0\<lparr>sk_transport := r\<rparr>) S0, err))
           else Inr (S0, [])) (\<lambda>(S, err).
    bindR (sget a S) (\<lambda>s.
      case sk_transport s of
        None \<Rightarrow> fail_peer a (if sm_host env then ''device offline (no transport)'' else err) S
      | Some t \<Rightarrow>
          bindR (get_tr t (reg S)) (\<lambda>tr.
            if connection_state tr = kCsOffline then fail_peer a ''device offline (transport offline)'' S
            else
              bindR (deref (peer s)) (\<lambda>q.
              bindR (sget q S) (\<lambda>qs.
              let S1 = sput q (qs\<lparr>rdy_fn := local_socket_ready_notify_fn, has_shutdown := False,
                           cls_fn := local_socket_close_notify_fn, peer := None, sk_transport := Some t\<rparr>) S in
              bindR (connect_to_remote q service S1) (\<lambda>S2.
              bindR (sget a S2) (\<lambda>s2.
              bindR (close_socket a (sput a (s2\<lparr>peer := None\<rparr>) S2)) (\<lambda>S3. Inr (1, S3))))))))))"

definition smart_socket_enqueue ::
    "'x smart_env \<Rightarrow> (addr \<Rightarrow> 'x sstate_scheme \<Rightarrow> 'x sstate_scheme res) \<Rightarrow> addr \<Rightarrow> apacket \<Rightarrow> 'x sstate_scheme \<Rightarrow> (int \<times> 'x sstate_scheme) res" where
  "smart_socket_enqueue env ready a p0 S0 =
    bindR (smart_collect a p0 S0) (\<lambda>(r, S).
      case r of
        None \<Rightarrow> smart_fail a S
      | Some p \<Rightarrow>
          if p_len p < 4 then Inr (0, S)
          else
            bindR (packet_bytes p 4) (\<lambda>hdr.
            let len = unat (unhex 0 hdr) in
            if len < 1 \<or> len > MAX_PAYLOAD then smart_fail a S
            else if len + 4 > p_len p then Inr (0, S)
            else if len + 4 \<ge> MAX_PAYLOAD then Inl OutOfBounds
            else
              bindR (packet_bytes p (len + 4)) (\<lambda>bytes.
              let request = c_str (drop 4 bytes) in
              case (if sm_host env then parse_host_prefix request else None) of
                Some (service, type, serial0) \<Rightarrow>
                  bindR (peer_fd a S) (\<lambda>fd.
                  bindR (handle_host_request_fn env service type serial0 fd a S) (\<lambda>(h, S1).
                    if h = 0 then smart_fail a S1
                    else if prefix ''transport'' service then
                      bindR (sget a S1) (\<lambda>s1.
                        Inr (0, sput a (s1\<lparr>pkts := [p\<lparr>p_len := 0\<rparr>]\<rparr>) S1))
                    else smart_host_service env ready a service serial0 S1))
              | None \<Rightarrow> smart_connect env a request S)))"

section \<open>The dispatchers\<close>

definition sock_ready_with ::
    "(addr \<Rightarrow> apacket \<Rightarrow> 'x sstate_scheme \<Rightarrow> (int \<times> 'x sstate_scheme) res) \<Rightarrow> 'x smart_env \<Rightarrow> addr \<Rightarrow> 'x sstate_scheme \<Rightarrow> 'x sstate_scheme res" where
  "sock_ready_with enqueue env a S =
    bindR (sget a S) (\<lambda>s.
      case rdy_fn s of
        local_socket_ready_fn \<Rightarrow> local_socket_ready a S
      | local_socket_ready_notify_fn \<Rightarrow> local_socket_ready_notify a S
      | remote_socket_ready_fn \<Rightarrow> remote_socket_ready a S
      | smart_socket_ready_fn \<Rightarrow> Inr S
      | device_tracker_ready_fn \<Rightarrow> device_tracker_ready enqueue (acq_udev (sm_acq env)) a S)"

text \<open>\<open>fuel\<close> bounds the chain smart socket, device tracker, its peer.\<close>

fun sock_enqueue :: "'x smart_env \<Rightarrow> nat \<Rightarrow> addr \<Rightarrow> apacket \<Rightarrow> 'x sstate_scheme \<Rightarrow> (int \<times> 'x sstate_scheme) res" where
  "sock_enqueue env 0 a p S = Inl OutOfFuel"
| "sock_enqueue env (Suc fuel) a p S =
    bindR (sget a S) (\<lambda>s.
      case enq_fn s of
        local_socket_enqueue_fn \<Rightarrow> local_socket_enqueue a p S
      | remote_socket_enqueue_fn \<Rightarrow> remote_socket_enqueue a p S
      | device_tracker_enqueue_fn \<Rightarrow> device_tracker_enqueue a S
      | smart_socket_enqueue_fn \<Rightarrow>
          smart_socket_enqueue env (sock_ready_with (sock_enqueue env fuel) env) a p S)"

definition sock_ready :: "'x smart_env \<Rightarrow> nat \<Rightarrow> addr \<Rightarrow> 'x sstate_scheme \<Rightarrow> 'x sstate_scheme res" where
  "sock_ready env fuel = sock_ready_with (sock_enqueue env fuel) env"

definition connect_to_smartsocket :: "'x smart_env \<Rightarrow> nat \<Rightarrow> addr \<Rightarrow> 'x sstate_scheme \<Rightarrow> 'x sstate_scheme res" where
  "connect_to_smartsocket env fuel a S =
    (case create_smart_socket S of (ss, S1) \<Rightarrow>
      bindR (sget a S1) (\<lambda>s.
      let S2 = sput a (s\<lparr>peer := Some ss\<rparr>) S1 in
      bindR (sget ss S2) (\<lambda>sss.
        sock_ready env fuel a (sput ss (sss\<lparr>peer := Some a\<rparr>) S2))))"

section \<open>Events on a local socket\<close>

datatype rstatus = RFull | RBlocked | REof

function read_in :: "nat \<Rightarrow> fd_state \<Rightarrow> string \<Rightarrow> rstatus \<times> string \<times> fd_state" where
  "read_in avail f acc =
    (if 0 < avail then
       (case adb_read f avail of
          (Ret r, bs, f') \<Rightarrow> if 0 < r then read_in (avail - r) f' (acc @ bs) else (REof, acc, f')
        | (Err e, bs, f') \<Rightarrow> if e = EAGAIN then (RBlocked, acc, f') else (REof, acc, f'))
     else (RFull, acc, f))"
  by pat_completeness auto
termination
  by (relation "measure (\<lambda>(avail, f, acc). avail)") auto

declare read_in.simps [simp del]

text \<open>
  The FDE\_WRITE half: True when the handler goes on with the other events. The peer pointer is
  dereferenced without a test.
\<close>

definition event_write :: "'x smart_env \<Rightarrow> nat \<Rightarrow> addr \<Rightarrow> fd \<Rightarrow> 'x sstate_scheme \<Rightarrow> (bool \<times> 'x sstate_scheme) res" where
  "event_write env fuel a fd S =
    bindR (sget a S) (\<lambda>s.
      case flush_queue (pkts s) (fdtab S fd) of
        (st, ps, f) \<Rightarrow>
          let S1 = (sput a (s\<lparr>pkts := ps\<rparr>) S)\<lparr>fdtab := (fdtab S)(fd := f)\<rparr> in
          (case st of
             WBlocked \<Rightarrow> Inr (False, S1)
           | WFailed \<Rightarrow>
               bindR (close_socket a (sput a (s\<lparr>pkts := ps, has_write_error := True\<rparr>) S1)) (\<lambda>S2. Inr (False, S2))
           | WDone \<Rightarrow>
               if closing s then bindR (close_socket a S1) (\<lambda>S2. Inr (False, S2))
               else
                 bindR (on_fds (fdevent_del a FDE_WRITE) S1) (\<lambda>S2.
                 bindR (deref (peer s)) (\<lambda>q.
                 bindR (sock_ready env fuel q S2) (\<lambda>S3. Inr (True, S3))))))"

definition event_read :: "'x smart_env \<Rightarrow> nat \<Rightarrow> addr \<Rightarrow> fd \<Rightarrow> 'x sstate_scheme \<Rightarrow> 'x sstate_scheme res" where
  "event_read env fuel a fd S =
    bindR (sget a S) (\<lambda>s.
    bindR (get_max_payload a S) (\<lambda>m.
      case read_in m (fdtab S fd) [] of
        (st, bytes, f) \<Rightarrow>
          let S1 = S\<lparr>fdtab := (fdtab S)(fd := f)\<rparr>;
              eof = (st = REof);
              r0 = (if st = REof then (0 :: int) else if st = RBlocked then -1 else if m = 0 then 0 else 1) in
          bindR (if bytes = [] \<or> peer s = None then Inr (Some r0, S1)
                 else bindR (deref (peer s)) (\<lambda>q.
                      bindR (sock_enqueue env fuel q
                        (get_apacket\<lparr>p_data := bytes, p_len := length bytes\<rparr>) S1) (\<lambda>(r, S2).
                        if r < 0 then Inr (None, S2)
                        else if r > 0
                        then bindR (sget a S2) (\<lambda>_. bindR (on_fds (fdevent_del a FDE_READ) S2) (\<lambda>S3. Inr (Some r, S3)))
                        else Inr (Some r, S2)))) (\<lambda>(r, S4).
            case r of
              None \<Rightarrow> Inr S4
            | Some r \<Rightarrow>
                bindR (sget a S4) (\<lambda>_.
                bindR (get_fde a (sfds S4)) (\<lambda>f.
                  if (force_eof f \<and> r = 0) \<or> eof then close_socket a S4 else Inr S4)))))"

definition local_socket_event_func :: "'x smart_env \<Rightarrow> nat \<Rightarrow> addr \<Rightarrow> fd \<Rightarrow> u16 \<Rightarrow> 'x sstate_scheme \<Rightarrow> 'x sstate_scheme res" where
  "local_socket_event_func env fuel a fd ev S =
    bindR (if flag ev FDE_WRITE then event_write env fuel a fd S else Inr (True, S)) (\<lambda>(go, S1).
      if \<not> go then Inr S1
      else if flag ev FDE_READ then event_read env fuel a fd S1
      else Inr S1)"

end
