(* ===== verification/Sockets_Wf.thy ===== *)
theory Sockets_Wf
  imports Sockets
begin

text \<open>
  The well-formedness of the socket heap and that closing keeps it: peers point at each other, the
  two lists hold exactly the local sockets, and a local socket with a backlog waits for the
  descriptor to become writable. Closing a socket ends with the socket and its peer gone, or
  detached and waiting to write their backlog.
\<close>

definition is_local :: "asocket \<Rightarrow> bool" where
  "is_local s \<longleftrightarrow> cls_fn s = local_socket_close_fn \<or> cls_fn s = local_socket_close_notify_fn"

definition sock_ok :: "'x sstate_scheme \<Rightarrow> addr \<Rightarrow> asocket \<Rightarrow> bool" where
  "sock_ok S a s \<longleftrightarrow>
    a < next_addr S \<and>
    (\<forall>t. sk_transport s = Some t \<longrightarrow> trs (reg S) t \<noteq> None) \<and>
    (has_shutdown s \<longleftrightarrow> cls_fn s = remote_socket_close_fn) \<and>
    (has_shutdown s \<longrightarrow> sk_transport s \<noteq> None) \<and>
    (if is_local s then
       enq_fn s = local_socket_enqueue_fn \<and>
       (rdy_fn s = local_socket_ready_fn \<or> rdy_fn s = local_socket_ready_notify_fn) \<and>
       fde_active a (sfds S) \<and> (pkts s \<noteq> [] \<longrightarrow> flag (fde_wants a (sfds S)) FDE_WRITE) \<and>
       (if closing s then a \<in> set (local_socket_closing_list S) \<and> peer s = None
        else a \<in> set (local_socket_list S))
     else a \<notin> set (local_socket_list S) \<and> a \<notin> set (local_socket_closing_list S) \<and> fde_idle a (sfds S))"

definition peer_ok :: "'x sstate_scheme \<Rightarrow> addr \<Rightarrow> asocket \<Rightarrow> bool" where
  "peer_ok S a s \<longleftrightarrow>
    (case peer s of None \<Rightarrow> True
     | Some q \<Rightarrow> q \<noteq> a \<and> (\<exists>qs. socks S q = Some qs \<and> peer qs = Some a))"

text \<open>\<open>wfx X S\<close>: well-formed, except that the peer pointers of the sockets in \<open>X\<close> may be stale.\<close>

definition wfx :: "addr set \<Rightarrow> 'x sstate_scheme \<Rightarrow> bool" where
  "wfx X S \<longleftrightarrow>
    (\<forall>a s. socks S a = Some s \<longrightarrow> sock_ok S a s \<and> (a \<notin> X \<longrightarrow> peer_ok S a s)) \<and>
    fd_inv (sfds S) \<and> (\<forall>a. socks S a = None \<longrightarrow> fde_idle a (sfds S)) \<and>
    distinct (local_socket_list S) \<and> distinct (local_socket_closing_list S) \<and>
    set (local_socket_list S) \<inter> set (local_socket_closing_list S) = {} \<and>
    set (local_socket_list S) \<subseteq> dom (socks S) \<and> set (local_socket_closing_list S) \<subseteq> dom (socks S) \<and>
    set (device_tracker_list S) \<subseteq> {a. \<exists>s. socks S a = Some s \<and> cls_fn s = device_tracker_close_fn}"

abbreviation wf :: "'x sstate_scheme \<Rightarrow> bool" where
  "wf \<equiv> wfx {}"

lemma wfxD:
  assumes "wfx X S"
  shows "socks S a = Some s \<Longrightarrow> sock_ok S a s" and "socks S a = Some s \<Longrightarrow> a \<notin> X \<Longrightarrow> peer_ok S a s"
    and "fd_inv (sfds S)" and "socks S a = None \<Longrightarrow> fde_idle a (sfds S)"
    and "distinct (local_socket_list S)" and "distinct (local_socket_closing_list S)"
    and "set (local_socket_list S) \<inter> set (local_socket_closing_list S) = {}"
    and "set (local_socket_list S) \<subseteq> dom (socks S)" and "set (local_socket_closing_list S) \<subseteq> dom (socks S)"
    and "a \<in> set (device_tracker_list S) \<Longrightarrow> \<exists>s. socks S a = Some s \<and> cls_fn s = device_tracker_close_fn"
  using assms unfolding wfx_def by blast+

lemma wfxI:
  assumes "\<And>a s. socks S a = Some s \<Longrightarrow> sock_ok S a s"
    and "\<And>a s. socks S a = Some s \<Longrightarrow> a \<notin> X \<Longrightarrow> peer_ok S a s"
    and "fd_inv (sfds S)" and "\<And>a. socks S a = None \<Longrightarrow> fde_idle a (sfds S)"
    and "distinct (local_socket_list S)" and "distinct (local_socket_closing_list S)"
    and "set (local_socket_list S) \<inter> set (local_socket_closing_list S) = {}"
    and "set (local_socket_list S) \<subseteq> dom (socks S)" and "set (local_socket_closing_list S) \<subseteq> dom (socks S)"
    and "\<And>a. a \<in> set (device_tracker_list S) \<Longrightarrow> \<exists>s. socks S a = Some s \<and> cls_fn s = device_tracker_close_fn"
  shows "wfx X S"
  using assms unfolding wfx_def by blast

lemma sget_Inr [simp]: "sget a S = Inr s \<longleftrightarrow> socks S a = Some s"
  by (simp add: sget_def split: option.splits)

lemma sget_eq: "socks S a = Some s \<Longrightarrow> sget a S = Inr s"
  by simp

lemma sput_simps [simp]:
  "socks (sput a s S) = (socks S)(a \<mapsto> s)"
  "next_addr (sput a s S) = next_addr S" "local_socket_next_id (sput a s S) = local_socket_next_id S"
  "local_socket_list (sput a s S) = local_socket_list S"
  "local_socket_closing_list (sput a s S) = local_socket_closing_list S"
  "device_tracker_list (sput a s S) = device_tracker_list S" "fdtab (sput a s S) = fdtab S"
  "sfds (sput a s S) = sfds S" "reg (sput a s S) = reg S" "sent (sput a s S) = sent S"
  "sstate.more (sput a s S) = sstate.more S"
  by (simp_all add: sput_def)

text \<open>A socket outside \<open>X\<close> that points at \<open>a\<close> is what \<open>a\<close> points at.\<close>

lemma wfx_pointed:
  "wfx X S \<Longrightarrow> socks S b = Some t \<Longrightarrow> b \<notin> X \<Longrightarrow> peer t = Some a \<Longrightarrow> \<exists>s. socks S a = Some s \<and> peer s = Some b"
  by (drule (2) wfxD(2)) (simp add: peer_ok_def)

section \<open>Changing and removing one socket\<close>

text \<open>
  The socket \<open>a\<close> changes to \<open>s'\<close> (or goes), everything else in the heap stays; no socket whose
  pointer counts points at it.
\<close>

lemma sock_ok_frame:
  assumes "sock_ok S b t" and "next_addr S \<le> next_addr S'" and "trs (reg S') = trs (reg S)"
    and "fde_active b (sfds S') = fde_active b (sfds S)" and "fde_wants b (sfds S') = fde_wants b (sfds S)"
    and "fde_idle b (sfds S') = fde_idle b (sfds S)"
    and "b \<in> set (local_socket_list S') \<longleftrightarrow> b \<in> set (local_socket_list S)"
    and "b \<in> set (local_socket_closing_list S') \<longleftrightarrow> b \<in> set (local_socket_closing_list S)"
  shows "sock_ok S' b t"
  using assms by (auto simp: sock_ok_def)

lemma wfx_update:
  assumes wf: "wfx X S"
    and heap: "\<And>b. b \<noteq> a \<Longrightarrow> socks S' b = socks S b"
    and sc: "next_addr S \<le> next_addr S'" "trs (reg S') = trs (reg S)"
    and ll: "\<And>b. b \<noteq> a \<Longrightarrow> b \<in> set (local_socket_list S') \<longleftrightarrow> b \<in> set (local_socket_list S)"
      "\<And>b. b \<noteq> a \<Longrightarrow> b \<in> set (local_socket_closing_list S') \<longleftrightarrow> b \<in> set (local_socket_closing_list S)"
      "distinct (local_socket_list S')" "distinct (local_socket_closing_list S')"
      "\<not> (a \<in> set (local_socket_list S') \<and> a \<in> set (local_socket_closing_list S'))"
    and tr: "set (device_tracker_list S') \<subseteq> set (device_tracker_list S)"
    and fds: "fd_inv (sfds S')"
      "\<And>b. b \<noteq> a \<Longrightarrow> fde_active b (sfds S') = fde_active b (sfds S) \<and>
         fde_wants b (sfds S') = fde_wants b (sfds S) \<and> fde_idle b (sfds S') = fde_idle b (sfds S)"
    and gone: "socks S' a = None \<Longrightarrow> fde_idle a (sfds S') \<and> a \<notin> set (local_socket_list S') \<and>
        a \<notin> set (local_socket_closing_list S') \<and> a \<notin> set (device_tracker_list S')"
    and there: "\<And>s'. socks S' a = Some s' \<Longrightarrow> sock_ok S' a s' \<and> (a \<notin> X' \<longrightarrow> peer_ok S' a s') \<and>
        (a \<in> set (device_tracker_list S') \<longrightarrow> cls_fn s' = device_tracker_close_fn)"
    and pt: "\<And>b t. b \<noteq> a \<Longrightarrow> b \<notin> X' \<Longrightarrow> socks S b = Some t \<Longrightarrow> peer t = Some a \<Longrightarrow>
        \<exists>s'. socks S' a = Some s' \<and> peer s' = Some b"
    and X: "X \<subseteq> insert a X'"
  shows "wfx X' S'"
proof (rule wfxI)
  fix b t assume b: "socks S' b = Some t"
  show "sock_ok S' b t"
  proof (cases "b = a")
    case True
    then show ?thesis using b there by blast
  next
    case False
    then have "sock_ok S b t" using wfxD(1) [OF wf, of b t] b heap by simp
    then show ?thesis using sock_ok_frame [OF _ sc] ll fds(2) False by blast
  qed
  show "peer_ok S' b t" if nX: "b \<notin> X'"
  proof (cases "b = a")
    case True
    then show ?thesis using b there nX by blast
  next
    case False
    then have bt: "socks S b = Some t" using b heap by simp
    moreover have "b \<notin> X" using X nX False by blast
    ultimately have "peer_ok S b t" using wfxD(2) [OF wf] by blast
    then show ?thesis using pt [OF False nX bt] heap False
      by (auto simp: peer_ok_def split: option.splits) (metis)+
  qed
next
  fix b assume "b \<in> set (device_tracker_list S')"
  then show "\<exists>s. socks S' b = Some s \<and> cls_fn s = device_tracker_close_fn"
    using tr wfxD(10) [OF wf, of b] heap [of b] gone there by (cases "b = a"; cases "socks S' a") auto
next
  fix b assume "socks S' b = None"
  then show "fde_idle b (sfds S')"
    using gone wfxD(4) [OF wf, of b] heap [of b] fds(2) [of b] by (cases "b = a") auto
next
  show "set (local_socket_list S') \<inter> set (local_socket_closing_list S') = {}"
  proof -
    have "\<not> (b \<in> set (local_socket_list S') \<and> b \<in> set (local_socket_closing_list S'))" for b
      using ll wfxD(7) [OF wf] by (cases "b = a") auto
    then show ?thesis by blast
  qed
  show "set (local_socket_list S') \<subseteq> dom (socks S')"
  proof
    fix b assume "b \<in> set (local_socket_list S')"
    then show "b \<in> dom (socks S')"
      using ll(1) wfxD(8) [OF wf] heap [of b] gone by (cases "b = a"; cases "socks S' a") (auto simp: dom_def)
  qed
  show "set (local_socket_closing_list S') \<subseteq> dom (socks S')"
  proof
    fix b assume "b \<in> set (local_socket_closing_list S')"
    then show "b \<in> dom (socks S')"
      using ll(2) wfxD(9) [OF wf] heap [of b] gone by (cases "b = a"; cases "socks S' a") (auto simp: dom_def)
  qed
qed (use ll fds(1) in auto)

section \<open>Closing\<close>

text \<open>
  A call that returns with \<open>P\<close>, or ends the process (\<open>exit_on_close\<close>), or waits for ever for a
  descriptor that is never drained (SendFail): no memory fault, no failed CHECK, no missing fuel.
\<close>

definition good :: "'a res \<Rightarrow> ('a \<Rightarrow> bool) \<Rightarrow> bool" where
  "good r P \<longleftrightarrow> (case r of Inr x \<Rightarrow> P x | Inl e \<Rightarrow> e = Exit 1 \<or> e = Spin)"

lemma good_simps [simp]: "good (Inr x) P = P x" "good (Inl e) P = (e = Exit 1 \<or> e = Spin)"
  by (simp_all add: good_def)

lemma good_bind: "good m P \<Longrightarrow> (\<And>x. P x \<Longrightarrow> good (f x) Q) \<Longrightarrow> good (bindR m f) Q"
  by (cases m) simp_all

lemma good_mono: "good m P \<Longrightarrow> (\<And>x. P x \<Longrightarrow> Q x) \<Longrightarrow> good m Q"
  by (cases m) simp_all

definition gone_or_closing :: "addr \<Rightarrow> 'x sstate_scheme \<Rightarrow> bool" where
  "gone_or_closing a S \<longleftrightarrow>
    (case socks S a of None \<Rightarrow> True | Some s \<Rightarrow> is_local s \<and> closing s \<and> peer s = None)"

text \<open>What closing a detached socket changes.\<close>

definition closed1 :: "addr \<Rightarrow> 'x sstate_scheme \<Rightarrow> 'x sstate_scheme \<Rightarrow> bool" where
  "closed1 a S S' \<longleftrightarrow>
    (\<forall>b. b \<noteq> a \<longrightarrow> socks S' b = socks S b) \<and> gone_or_closing a S' \<and>
    local_socket_list S' = removeAll a (local_socket_list S) \<and>
    reg S' = reg S \<and> sent S' = sent S \<and> next_addr S' = next_addr S \<and>
    local_socket_next_id S' = local_socket_next_id S \<and> sstate.more S' = sstate.more S"

lemma sfree_simps [simp]:
  "socks (sfree a S) = (socks S)(a := None)" "next_addr (sfree a S) = next_addr S"
  "local_socket_next_id (sfree a S) = local_socket_next_id S"
  "local_socket_list (sfree a S) = local_socket_list S"
  "local_socket_closing_list (sfree a S) = local_socket_closing_list S"
  "device_tracker_list (sfree a S) = device_tracker_list S" "fdtab (sfree a S) = fdtab S"
  "sfds (sfree a S) = (sfds S)\<lparr>fdes := (fdes (sfds S))(a := None)\<rparr>" "reg (sfree a S) = reg S"
  "sent (sfree a S) = sent S" "sstate.more (sfree a S) = sstate.more S"
  by (simp_all add: sfree_def)

lemma fdes_free:
  "b \<noteq> a \<Longrightarrow> fde_active b (F\<lparr>fdes := (fdes F)(a := None)\<rparr>) = fde_active b F"
  "b \<noteq> a \<Longrightarrow> fde_wants b (F\<lparr>fdes := (fdes F)(a := None)\<rparr>) = fde_wants b F"
  "b \<noteq> a \<Longrightarrow> fde_idle b (F\<lparr>fdes := (fdes F)(a := None)\<rparr>) = fde_idle b F"
  "fde_idle a (F\<lparr>fdes := (fdes F)(a := None)\<rparr>)"
  by (simp_all add: fde_active_def fde_wants_def fde_idle_def)

definition unpointed :: "addr set \<Rightarrow> addr \<Rightarrow> 'x sstate_scheme \<Rightarrow> bool" where
  "unpointed X a S \<longleftrightarrow> (\<forall>b t. b \<noteq> a \<longrightarrow> b \<notin> X \<longrightarrow> socks S b = Some t \<longrightarrow> peer t \<noteq> Some a)"

lemma wfx_free:
  assumes wf: "wfx X S" and s: "socks S a = Some s" "\<not> is_local s"
    and pt: "unpointed X a S"
  shows "wfx (X - {a}) (sfree a (S\<lparr>device_tracker_list := removeAll a (device_tracker_list S)\<rparr>))"
proof (rule wfx_update [OF wf, of a])
  have "fde_idle a (sfds S)" and nl: "a \<notin> set (local_socket_list S)" "a \<notin> set (local_socket_closing_list S)"
    using wfxD(1) [OF wf s(1)] s(2) by (auto simp: sock_ok_def)
  then show "fd_inv (sfds (sfree a (S\<lparr>device_tracker_list := removeAll a (device_tracker_list S)\<rparr>)))"
    using fd_inv_free [OF wfxD(3) [OF wf]] by simp
qed (use wfxD(5,6) [OF wf] wfxD(1) [OF wf s(1)] s pt in \<open>auto simp: fdes_free sock_ok_def unpointed_def\<close>)

lemma not_tracker:
  "wfx X S \<Longrightarrow> socks S a = Some s \<Longrightarrow> cls_fn s \<noteq> device_tracker_close_fn \<Longrightarrow>
   S\<lparr>device_tracker_list := removeAll a (device_tracker_list S)\<rparr> = S"
proof -
  assume wf: "wfx X S" and s: "socks S a = Some s" "cls_fn s \<noteq> device_tracker_close_fn"
  have "a \<notin> set (device_tracker_list S)" using wfxD(10) [OF wf, of a] s by auto
  then show ?thesis by (cases S) simp
qed

lemma local_not_tracker: "is_local s \<Longrightarrow> cls_fn s \<noteq> device_tracker_close_fn"
  by (auto simp: is_local_def)

lemma destroy_ok:
  assumes wf: "wfx X S" and s: "socks S a = Some s" "is_local s" and pt: "unpointed X a S"
  shows "good (local_socket_destroy a S) (\<lambda>S'. wfx (X - {a}) S' \<and> closed1 a S S' \<and> socks S' a = None)"
proof -
  have act: "fde_active a (sfds S)" and lists: "a \<in> set (local_socket_list S) \<union> set (local_socket_closing_list S)"
    using wfxD(1) [OF wf s(1)] s(2) by (auto simp: sock_ok_def split: if_splits)
  from fd_reg.remove_ok [OF wfxD(3) [OF wf] act] obtain F where
    F: "fdevent_remove a (sfds S) = Inr F" "fd_inv F" "fde_idle a F"
      "\<And>b. b \<noteq> a \<Longrightarrow> fde_active b F = fde_active b (sfds S) \<and> fde_wants b F = fde_wants b (sfds S) \<and>
         fde_idle b F = fde_idle b (sfds S)" by blast
  let ?S = "sfree a ((sput a (s\<lparr>sk_id := 0\<rparr>) (S\<lparr>sfds := F\<rparr>))
      \<lparr>local_socket_list := removeAll a (local_socket_list S),
       local_socket_closing_list := removeAll a (local_socket_closing_list S)\<rparr>)"
  have run: "local_socket_destroy a S = (if exit_on_close s then Inl (Exit 1) else Inr ?S)"
    using s F(1) lists by (simp add: local_socket_destroy_def on_fds_def remove_socket_def sget_def)
  have tr: "a \<notin> set (device_tracker_list S)"
    using wfxD(10) [OF wf, of a] s local_not_tracker by auto
  have "wfx (X - {a}) ?S"
  proof (rule wfx_update [OF wf, of a])
    show "fd_inv (sfds ?S)" using fd_inv_free [OF F(2,3)] by simp
  qed (use F(4) wfxD(5,6) [OF wf] tr pt in \<open>auto simp: fdes_free distinct_removeAll unpointed_def\<close>)
  moreover have "closed1 a S ?S" by (simp add: closed1_def gone_or_closing_def)
  ultimately show ?thesis unfolding run by simp
qed

lemma wants_write:
  assumes "flag (fde_wants a F) FDE_WRITE"
  shows "\<exists>f. fdes F a = Some f \<and> fde_state f AND FDE_WRITE = FDE_WRITE"
proof -
  from assms obtain f where f: "fdes F a = Some f" "flag (fde_state f AND FDE_EVENTMASK) FDE_WRITE"
    by (cases "fdes F a") (auto simp: fde_wants_def)
  have "(fde_state f AND FDE_EVENTMASK) AND FDE_WRITE = fde_state f AND FDE_WRITE"
    by (simp add: fde_flags and.assoc)
  moreover have "x AND FDE_WRITE = 0 \<or> x AND FDE_WRITE = FDE_WRITE" for x :: u16
  proof -
    have "x AND push_bit 1 1 = (if bit x 1 then push_bit 1 1 else 0)"
      by (rule bit_word_eqI) (auto simp: bit_simps)
    moreover have "FDE_WRITE = push_bit 1 1" by (simp add: FDE_WRITE_def)
    ultimately show ?thesis by auto
  qed
  ultimately show ?thesis using f by auto
qed

lemma wants_write_del_read:
  "flag w FDE_WRITE \<Longrightarrow> flag (w AND NOT FDE_READ) FDE_WRITE"
proof -
  have "(w AND NOT FDE_READ) AND FDE_WRITE = w AND FDE_WRITE"
    by (simp add: fde_flags and.assoc)
  then show "flag w FDE_WRITE \<Longrightarrow> ?thesis" by simp
qed

lemma finish_ok:
  assumes wf: "wfx X S" and s: "socks S a = Some s" "is_local s" "peer s = None"
    and pt: "unpointed X a S"
  shows "good (local_socket_finish a S) (\<lambda>S'. wfx (X - {a}) S' \<and> closed1 a S S')"
proof (cases "closing s \<or> has_write_error s \<or> pkts s = []")
  case True
  then show ?thesis using destroy_ok [OF wf s(1,2) pt] s(1)
    by (simp add: local_socket_finish_def sget_def) (erule good_mono, blast)
next
  case False
  have ok: "fde_active a (sfds S)" "a \<in> set (local_socket_list S)" "flag (fde_wants a (sfds S)) FDE_WRITE"
    using wfxD(1) [OF wf s(1)] s(2) False by (auto simp: sock_ok_def)
  then have ncl: "a \<notin> set (local_socket_closing_list S)" using wfxD(7) [OF wf] by blast
  from fd_reg.del_ok [OF wfxD(3) [OF wf] ok(1), of FDE_READ] obtain F where
    F: "fdevent_del a FDE_READ (sfds S) = Inr F" "fd_inv F" "\<And>b. fde_active b F = fde_active b (sfds S)"
      "fde_wants a F = fde_wants a (sfds S) AND NOT FDE_READ"
      "\<And>b. b \<noteq> a \<Longrightarrow> fde_wants b F = fde_wants b (sfds S) \<and> fde_idle b F = fde_idle b (sfds S)" by blast
  have w: "flag (fde_wants a F) FDE_WRITE" using wants_write_del_read [OF ok(3)] F(4) by simp
  let ?S = "(sput a (s\<lparr>closing := True, sk_id := 0\<rparr>) (S\<lparr>sfds := F\<rparr>))
      \<lparr>local_socket_list := removeAll a (local_socket_list S),
       local_socket_closing_list := local_socket_closing_list S @ [a]\<rparr>"
  have eq: "(sput a (s\<lparr>closing := True, sk_id := 0\<rparr>) ((sput a (s\<lparr>closing := True\<rparr>) S)\<lparr>sfds := F\<rparr>))
      \<lparr>local_socket_list := removeAll a (local_socket_list S),
       local_socket_closing_list := local_socket_closing_list S @ [a]\<rparr> = ?S"
    by (simp add: sput_def)
  obtain f where f: "fdes F a = Some f" "fde_state f AND FDE_WRITE = FDE_WRITE"
    using wants_write [OF w] by blast
  have run: "local_socket_finish a S = Inr ?S"
    using False s(1) F(1) ok(2) ncl f eq
    by (simp add: local_socket_finish_def on_fds_def remove_socket_def sget_def Let_def get_fde_def)
  have "wfx (X - {a}) ?S"
  proof (rule wfx_update [OF wf, of a])
    have "sock_ok S a s" using wfxD(1) [OF wf s(1)] .
    then show "sock_ok ?S a s' \<and> (a \<notin> X - {a} \<longrightarrow> peer_ok ?S a s') \<and>
        (a \<in> set (device_tracker_list ?S) \<longrightarrow> cls_fn s' = device_tracker_close_fn)"
      if "socks ?S a = Some s'" for s'
      using that s F(3) w wfxD(10) [OF wf, of a] by (auto simp: sock_ok_def peer_ok_def is_local_def)
  qed (use F wfxD(5,6) [OF wf] ncl pt s in \<open>auto simp: distinct_removeAll unpointed_def\<close>)
  moreover have "closed1 a S ?S" using s(2,3) by (auto simp: closed1_def gone_or_closing_def is_local_def)
  ultimately show ?thesis unfolding run by simp
qed

lemma WriteFdExactly_good: "WriteFdExactly f buf = Inl e \<Longrightarrow> e = Spin"
proof (induction f buf rule: WriteFdExactly.induct)
  case (1 f buf)
  show ?case
  proof (cases "buf = [] \<or> wscript f = []")
    case True
    then show ?thesis using "1.prems" by (subst (asm) WriteFdExactly.simps) (auto split: if_splits)
  next
    case False
    obtain ret f1 where w: "adb_write f buf = (ret, f1)" by force
    show ?thesis
    proof (cases ret)
      case (Ret r)
      then have "WriteFdExactly f1 (drop r buf) = Inl e"
        using "1.prems" False w by (subst (asm) WriteFdExactly.simps) auto
      from "1.IH"(1) [OF _ _ w [symmetric] _ this] False Ret show ?thesis by simp
    next
      case (Err x)
      then have x: "x = EAGAIN" and "WriteFdExactly f1 buf = Inl e"
        using "1.prems" False w by (subst (asm) WriteFdExactly.simps, auto split: if_splits)+
      from "1.IH"(2) [OF _ _ w [symmetric] _ _ this(2)] False Err x show ?thesis by simp
    qed
  qed
qed

lemma SendFail_good: "SendFail f r = Inl e \<Longrightarrow> e = Spin"
  by (auto simp: SendFail_def SendProtocolString_def bindR_eq_Inl dest: WriteFdExactly_good
      split: if_splits prod.splits)

lemma write_fd_good:
  assumes "\<And>f e. w f = Inl e \<Longrightarrow> e = Spin"
  shows "good (write_fd fd w S) (\<lambda>S'. \<exists>f. S' = S\<lparr>fdtab := (fdtab S)(fd := f)\<rparr>)"
  using assms by (cases "w (fdtab S fd)") (auto simp: write_fd_def)

lemma ok_fdtab [simp]:
  "sock_ok (S\<lparr>fdtab := t\<rparr>) a s = sock_ok S a s" "sock_ok (S\<lparr>sent := x\<rparr>) a s = sock_ok S a s"
  "peer_ok (S\<lparr>fdtab := t\<rparr>) a s = peer_ok S a s" "peer_ok (S\<lparr>sent := x\<rparr>) a s = peer_ok S a s"
  by (simp_all only: sock_ok_def peer_ok_def) (simp_all split: option.splits)

lemma wfx_fdtab [simp]: "wfx X (S\<lparr>fdtab := t\<rparr>) = wfx X S" "wfx X (S\<lparr>sent := x\<rparr>) = wfx X S"
  by (simp_all only: wfx_def ok_fdtab) simp_all

text \<open>Two records of a socket that well-formedness does not tell apart.\<close>

definition wf_same :: "asocket \<Rightarrow> asocket \<Rightarrow> bool" where
  "wf_same s s' \<longleftrightarrow> peer s' = peer s \<and> sk_transport s' = sk_transport s \<and>
    (has_shutdown s' \<longleftrightarrow> cls_fn s' = remote_socket_close_fn) \<and> (has_shutdown s' \<longrightarrow> has_shutdown s) \<and>
    is_local s' = is_local s \<and> closing s' = closing s \<and> (pkts s' \<noteq> [] \<longrightarrow> pkts s \<noteq> []) \<and>
    enq_fn s' = enq_fn s \<and>
    (cls_fn s = device_tracker_close_fn \<longrightarrow> cls_fn s' = device_tracker_close_fn) \<and>
    (is_local s' \<longrightarrow> rdy_fn s' = local_socket_ready_fn \<or> rdy_fn s' = local_socket_ready_notify_fn)"

lemma wfx_sput_same:
  assumes wf: "wfx X S" and s: "socks S a = Some s" and same: "wf_same s s'"
  shows "wfx X (sput a s' S)"
proof (rule wfx_update [OF wf, of a])
  have 1: "sock_ok (sput a s' S) a s'"
    using wfxD(1) [OF wf s] same unfolding sock_ok_def wf_same_def by (simp split: if_splits)
  have 2: "peer_ok (sput a s' S) a s'" if "a \<notin> X"
    using wfxD(2) [OF wf s that] same by (auto simp: peer_ok_def wf_same_def split: option.splits)
  have 3: "cls_fn s' = device_tracker_close_fn" if "a \<in> set (device_tracker_list S)"
    using wfxD(10) [OF wf that] s same by (simp add: wf_same_def)
  show "sock_ok (sput a s' S) a u \<and> (a \<notin> X \<longrightarrow> peer_ok (sput a s' S) a u) \<and>
      (a \<in> set (device_tracker_list (sput a s' S)) \<longrightarrow> cls_fn u = device_tracker_close_fn)"
    if "socks (sput a s' S) a = Some u" for u
    using that 1 2 3 by simp
  show "\<exists>u. socks (sput a s' S) a = Some u \<and> peer u = Some b"
    if "b \<noteq> a" "b \<notin> X" "socks S b = Some t" "peer t = Some a" for b t
    using wfx_pointed [OF wf that(3,2,4)] s same by (simp add: wf_same_def)
qed (use wfxD(3,5,6,7) [OF wf] in auto)

lemma closed1_trans:
  assumes "closed1 a S1 S'" and "\<And>b. b \<noteq> a \<Longrightarrow> socks S1 b = socks S b"
    and "local_socket_list S1 = local_socket_list S" "reg S1 = reg S" "sent S1 = sent S"
      "next_addr S1 = next_addr S" "local_socket_next_id S1 = local_socket_next_id S" "sstate.more S1 = sstate.more S"
  shows "closed1 a S S'"
  using assms by (simp add: closed1_def)

lemma local_close_detached:
  assumes "wfx X S" and "socks S a = Some s" "is_local s" "peer s = None" "unpointed X a S"
  shows "good (local_socket_close close a S) (\<lambda>S'. wfx (X - {a}) S' \<and> closed1 a S S')"
  using finish_ok [OF assms] assms(2,4) by (simp add: local_socket_close_def sget_def)

lemma free_detached:
  assumes wf: "wfx X S" and s: "socks S a = Some s" "\<not> is_local s" "unpointed X a S"
  shows "wfx (X - {a}) (sfree a (S\<lparr>device_tracker_list := removeAll a (device_tracker_list S)\<rparr>))"
    and "cls_fn s \<noteq> device_tracker_close_fn \<Longrightarrow> wfx (X - {a}) (sfree a S)"
    and "closed1 a S (sfree a (S\<lparr>device_tracker_list := x\<rparr>))" and "closed1 a S (sfree a S)"
proof -
  show w: "wfx (X - {a}) (sfree a (S\<lparr>device_tracker_list := removeAll a (device_tracker_list S)\<rparr>))"
    by (rule wfx_free [OF assms])
  show "cls_fn s \<noteq> device_tracker_close_fn \<Longrightarrow> wfx (X - {a}) (sfree a S)"
    using w not_tracker [OF wf s(1)] by simp
  have "a \<notin> set (local_socket_list S)" using wfxD(1) [OF wf s(1)] s(2) by (simp add: sock_ok_def)
  then show "closed1 a S (sfree a (S\<lparr>device_tracker_list := x\<rparr>))" "closed1 a S (sfree a S)"
    by (simp_all add: closed1_def gone_or_closing_def)
qed

lemma sock_close_step:
  "socks S a = Some s \<Longrightarrow> sock_close (Suc n) a S =
    (case cls_fn s of
        local_socket_close_fn \<Rightarrow> local_socket_close (sock_close n) a S
      | local_socket_close_notify_fn \<Rightarrow> local_socket_close_notify (sock_close n) a S
      | remote_socket_close_fn \<Rightarrow> remote_socket_close (sock_close n) a S
      | smart_socket_close_fn \<Rightarrow> smart_socket_close (sock_close n) a S
      | device_tracker_close_fn \<Rightarrow> device_tracker_close (sock_close n) a S)"
  by (simp add: sock_close.simps sget_def)

lemma close_detached:
  assumes wf: "wfx X S" and s: "socks S a = Some s" "peer s = None" and pt: "unpointed X a S"
  shows "good (sock_close (Suc (Suc n)) a S) (\<lambda>S'. wfx (X - {a}) S' \<and> closed1 a S S')"
proof (cases "cls_fn s")
  case local_socket_close_fn
  then show ?thesis using local_close_detached [OF wf s(1) _ s(2) pt]
    by (simp add: sock_close_step [OF s(1)] is_local_def)
next
  case local_socket_close_notify_fn
  let ?s = "s\<lparr>rdy_fn := local_socket_ready_fn, has_shutdown := False, cls_fn := local_socket_close_fn\<rparr>"
  let ?P = "\<lambda>S'. wfx (X - {a}) S' \<and> closed1 a S S'"
  have loc: "is_local s" using local_socket_close_notify_fn by (simp add: is_local_def)
  have w1: "wfx X (sput a ?s S)"
    by (rule wfx_sput_same [OF wf s(1)])
       (use loc wfxD(1) [OF wf s(1)] in \<open>auto simp: wf_same_def is_local_def local_socket_close_notify_fn\<close>)
  have fin: "good (sock_close (Suc n) a S1) ?P" if S1: "S1 = (sput a ?s S)\<lparr>fdtab := t\<rparr>" for S1 t
  proof -
    have a: "socks S1 a = Some ?s" "wfx X S1" "is_local ?s" "peer ?s = None" "unpointed X a S1"
      using w1 s pt S1 by (auto simp: is_local_def unpointed_def)
    have run: "sock_close (Suc n) a S1 = local_socket_close (sock_close n) a S1"
      by (simp add: sock_close_step [OF a(1)])
    show ?thesis unfolding run
      by (rule good_mono [OF local_close_detached [OF a(2,1,3,4,5)]])
         (auto elim!: closed1_trans simp: S1)
  qed
  have "good (write_fd (sk_fd s) (\<lambda>f. SendFail f ''closed'') (sput a ?s S))
      (\<lambda>S1. \<exists>t. S1 = (sput a ?s S)\<lparr>fdtab := t\<rparr>)"
    by (rule good_mono [OF write_fd_good [of "\<lambda>f. SendFail f ''closed''"]]) (auto dest: SendFail_good)
  then have "good (local_socket_close_notify (sock_close (Suc n)) a S) ?P"
    unfolding local_socket_close_notify_def using s(1)
    by (simp add: sget_def) (erule good_bind, use fin in blast)
  then show ?thesis using local_socket_close_notify_fn by (simp add: sock_close_step [OF s(1)])
next
  case remote_socket_close_fn
  then show ?thesis using s free_detached [OF wf s(1) _ pt]
    by (simp add: sock_close_step [OF s(1)] sget_def remote_socket_close_def is_local_def)
next
  case smart_socket_close_fn
  then show ?thesis using s free_detached [OF wf s(1) _ pt]
    by (simp add: sock_close_step [OF s(1)] sget_def smart_socket_close_def is_local_def)
next
  case device_tracker_close_fn
  then show ?thesis using s free_detached [OF wf s(1) _ pt]
    by (simp add: sock_close_step [OF s(1)] sget_def device_tracker_close_def is_local_def)
qed

section \<open>Closing a connected socket\<close>

text \<open>What closing a socket does: it and its peer are gone or closing, all else stays.\<close>

definition closed2 :: "addr \<Rightarrow> asocket \<Rightarrow> 'x sstate_scheme \<Rightarrow> 'x sstate_scheme \<Rightarrow> bool" where
  "closed2 a s S S' \<longleftrightarrow>
    gone_or_closing a S' \<and> (\<forall>q. peer s = Some q \<longrightarrow> gone_or_closing q S') \<and>
    (\<forall>b. b \<noteq> a \<longrightarrow> peer s \<noteq> Some b \<longrightarrow> socks S' b = socks S b) \<and>
    local_socket_list S' = filter (\<lambda>b. b \<noteq> a \<and> peer s \<noteq> Some b) (local_socket_list S) \<and>
    reg S' = reg S \<and> next_addr S' = next_addr S \<and> local_socket_next_id S' = local_socket_next_id S \<and>
    sstate.more S' = sstate.more S"

lemma closed1_closed2: "peer s = None \<Longrightarrow> closed1 a S S' \<Longrightarrow> closed2 a s S S'"
  by (auto simp: closed1_def closed2_def removeAll_filter_not_eq intro: filter_cong)

lemma closed1_twice:
  assumes q: "closed1 q S S1" and a: "closed1 a S2 S'" and ne: "q \<noteq> a" and s: "peer s = Some q"
    and S2: "\<And>b. b \<noteq> a \<Longrightarrow> socks S2 b = socks S1 b" "local_socket_list S2 = local_socket_list S1" "reg S2 = reg S1"
      "next_addr S2 = next_addr S1" "local_socket_next_id S2 = local_socket_next_id S1" "sstate.more S2 = sstate.more S1"
  shows "closed2 a s S S'"
proof -
  have "socks S' q = socks S1 q" using a ne S2(1) by (simp add: closed1_def)
  then have "gone_or_closing q S'" using q by (simp add: closed1_def gone_or_closing_def)
  moreover have "local_socket_list S' = filter (\<lambda>b. b \<noteq> a \<and> peer s \<noteq> Some b) (local_socket_list S)"
    using q a S2(2) s by (auto simp: closed1_def removeAll_filter_not_eq intro!: filter_cong)
  ultimately show ?thesis using q a S2 s by (simp add: closed1_def closed2_def)
qed

lemma send_control_ok:
  assumes "trs (reg S) t \<noteq> None"
  shows "\<exists>p. send_packet (get_apacket\<lparr>msg := zero_message\<lparr>command := c, arg0 := x, arg1 := y\<rparr>\<rparr>) (Some t) S =
    Inr (S\<lparr>sent := sent S @ [(t, p)]\<rparr>) \<and> command (msg p) = c \<and> arg0 (msg p) = x \<and> arg1 (msg p) = y"
  using assms
  by (auto simp: send_packet_def seal_packet_def calculate_apacket_checksum_def packet_bytes_def
      get_apacket_def zero_message_def get_tr_def Let_def)

lemma shutdown_ok:
  assumes wf: "wfx X S" and q: "socks S q = Some qs" "peer qs = Some a" and a: "socks S a = Some s"
  shows "\<exists>x. sock_shutdown q S = Inr (S\<lparr>sent := x\<rparr>)"
proof (cases "has_shutdown qs")
  case False
  have "S = S\<lparr>sent := sent S\<rparr>" by simp
  then show ?thesis using False q by (auto simp: sock_shutdown_def sget_def intro: exI [of _ "sent S"])
next
  case True
  then obtain t where t: "sk_transport qs = Some t" "trs (reg S) t \<noteq> None"
    using wfxD(1) [OF wf q(1)] by (auto simp: sock_ok_def)
  from send_control_ok [OF t(2), where c = A_CLSE and x = "sk_id s" and y = "sk_id qs"] True q a t show ?thesis
    by (auto simp: sock_shutdown_def remote_socket_shutdown_def sget_def)
qed

lemma detach:
  assumes wf: "wf S" and s: "socks S a = Some s" "peer s = Some q"
  shows "\<exists>qs. socks S q = Some qs \<and> peer qs = Some a \<and> q \<noteq> a \<and> wfx {a} (sput q (qs\<lparr>peer := None\<rparr>) S) \<and>
    unpointed {a} q (sput q (qs\<lparr>peer := None\<rparr>) S)"
proof -
  obtain qs where qs: "socks S q = Some qs" "peer qs = Some a" and ne: "q \<noteq> a"
    using wfxD(2) [OF wf s(1)] s(2) by (auto simp: peer_ok_def)
  let ?S = "sput q (qs\<lparr>peer := None\<rparr>) S"
  have un: "b = a" if "b \<noteq> q" "socks S b = Some t" "peer t = Some q" for b t
    using wfx_pointed [OF wf that(2) _ that(3)] qs by simp
  have ok: "sock_ok ?S q (qs\<lparr>peer := None\<rparr>)"
    using wfxD(1) [OF wf qs(1)] by (simp add: sock_ok_def is_local_def split: if_splits)
  have "wfx {a} ?S"
  proof (rule wfx_update [OF wf, of q])
    show "sock_ok ?S q u \<and> (q \<notin> {a} \<longrightarrow> peer_ok ?S q u) \<and>
        (q \<in> set (device_tracker_list ?S) \<longrightarrow> cls_fn u = device_tracker_close_fn)"
      if "socks ?S q = Some u" for u
      using that ok wfxD(10) [OF wf, of q] qs by (auto simp: peer_ok_def)
  qed (use wfxD(3,5,6,7) [OF wf] un in auto)
  moreover have "unpointed {a} q ?S" using un by (auto simp: unpointed_def)
  ultimately show ?thesis using qs ne by blast
qed

lemma drop_peer_ok:
  assumes wf: "wf S" and s: "socks S a = Some s" "peer s = Some q"
  shows "good (drop_peer (sock_close (Suc (Suc n))) q S) (\<lambda>S'. wfx {a} S' \<and> closed1 q S S')"
proof -
  obtain qs where qs: "socks S q = Some qs" "q \<noteq> a"
    and w: "wfx {a} (sput q (qs\<lparr>peer := None\<rparr>) S)" "unpointed {a} q (sput q (qs\<lparr>peer := None\<rparr>) S)"
    using detach [OF assms] by blast
  have run: "drop_peer (sock_close (Suc (Suc n))) q S = sock_close (Suc (Suc n)) q (sput q (qs\<lparr>peer := None\<rparr>) S)"
    using qs(1) by (simp add: drop_peer_def sget_def)
  have ne: "{a} - {q} = {a}" using qs(2) by auto
  show ?thesis unfolding run
    by (rule good_mono [OF close_detached [OF w(1) _ _ w(2)]]) (auto simp: ne elim!: closed1_trans)
qed

text \<open>After the peer is closed nobody points at the socket any more.\<close>

lemma after_drop:
  assumes wf: "wfx {a} S1" and c: "closed1 q S S1" and s: "socks S a = Some s" "peer s = Some q" "q \<noteq> a"
  shows "socks S1 a = Some s" and "unpointed {a} a S1" and "wf (sput a (s\<lparr>peer := None\<rparr>) S1)"
    and "unpointed {} a (sput a (s\<lparr>peer := None\<rparr>) S1)"
proof -
  show a: "socks S1 a = Some s" using c s by (simp add: closed1_def)
  have un: "peer t \<noteq> Some a" if "b \<noteq> a" "socks S1 b = Some t" for b t
  proof
    assume p: "peer t = Some a"
    then have "b = q" using wfx_pointed [OF wf that(2) _ p] that(1) a s(2) by simp
    then show False using c that(2) p by (simp add: closed1_def gone_or_closing_def)
  qed
  then show u: "unpointed {a} a S1" and "unpointed {} a (sput a (s\<lparr>peer := None\<rparr>) S1)"
    by (auto simp: unpointed_def)
  let ?S = "sput a (s\<lparr>peer := None\<rparr>) S1"
  have ok: "sock_ok ?S a (s\<lparr>peer := None\<rparr>)"
    using wfxD(1) [OF wf a] by (simp add: sock_ok_def is_local_def split: if_splits)
  show "wf ?S"
  proof (rule wfx_update [OF wf, of a])
    show "sock_ok ?S a u \<and> (a \<notin> {} \<longrightarrow> peer_ok ?S a u) \<and>
        (a \<in> set (device_tracker_list ?S) \<longrightarrow> cls_fn u = device_tracker_close_fn)"
      if "socks ?S a = Some u" for u
      using that ok wfxD(10) [OF wf, of a] a by (auto simp: peer_ok_def)
  qed (use wfxD(3,5,6,7) [OF wf] un in auto)
qed

lemma local_close_ok:
  assumes wf: "wf S" and s: "socks S a = Some s" "is_local s"
  shows "good (local_socket_close (sock_close (Suc (Suc n))) a S) (\<lambda>S'. wf S' \<and> closed2 a s S S')"
proof (cases "peer s")
  case None
  have "unpointed {} a S" using wfx_pointed [OF wf] s(1) None by (fastforce simp: unpointed_def)
  from local_close_detached [OF wf s None this] show ?thesis
    by (rule good_mono) (use closed1_closed2 [OF None] in auto)
next
  case (Some q)
  obtain qs where qs: "socks S q = Some qs" "peer qs = Some a" "q \<noteq> a" using detach [OF wf s(1) Some] by blast
  obtain x where sh: "sock_shutdown q S = Inr (S\<lparr>sent := x\<rparr>)" using shutdown_ok [OF wf qs(1,2) s(1)] by blast
  let ?S = "S\<lparr>sent := x\<rparr>"
  have w: "wf ?S" and a: "socks ?S a = Some s" using wf s by simp_all
  have run: "local_socket_close (sock_close (Suc (Suc n))) a S =
      bindR (drop_peer (sock_close (Suc (Suc n))) q ?S) (\<lambda>S2.
      bindR (sget a S2) (\<lambda>s2. local_socket_finish a (sput a (s2\<lparr>peer := None\<rparr>) S2)))"
    using s(1) Some sh by (simp add: local_socket_close_def sget_eq)
  show ?thesis unfolding run
  proof (rule good_bind [OF drop_peer_ok [OF w a Some]], elim conjE)
    fix S1 assume w1: "wfx {a} S1" and c1: "closed1 q ?S S1"
    note d = after_drop [OF w1 c1 a Some qs(3)]
    let ?s = "s\<lparr>peer := None\<rparr>"
    have "good (local_socket_finish a (sput a ?s S1)) (\<lambda>S'. wf S' \<and> closed1 a (sput a ?s S1) S')"
      using finish_ok [OF d(3) _ _ _ d(4), of ?s] s(2) by (simp add: is_local_def)
    then have "good (local_socket_finish a (sput a ?s S1)) (\<lambda>S'. wf S' \<and> closed2 a s ?S S')"
      by (rule good_mono) (auto intro: closed1_twice [OF c1 _ qs(3) Some])
    then show "good (bindR (sget a S1)
        (\<lambda>s2. local_socket_finish a (sput a (s2\<lparr>peer := None\<rparr>) S1))) (\<lambda>S'. wf S' \<and> closed2 a s S S')"
      using d(1) by (simp add: closed2_def sget_eq)
  qed
qed

lemma plain_close_ok:
  assumes wf: "wf S" and s: "socks S a = Some s" "\<not> is_local s"
    and tr: "tr = removeAll a \<or> tr = id \<and> cls_fn s \<noteq> device_tracker_close_fn"
  shows "good (bindR (case peer s of None \<Rightarrow> Inr S | Some q \<Rightarrow> drop_peer (sock_close (Suc (Suc n))) q S)
      (\<lambda>S1. Inr (sfree a (S1\<lparr>device_tracker_list := tr (device_tracker_list S1)\<rparr>)))) (\<lambda>S'. wf S' \<and> closed2 a s S S')"
proof (cases "peer s")
  case None
  have "unpointed {} a S" using wfx_pointed [OF wf] s(1) None by (fastforce simp: unpointed_def)
  note f = free_detached [OF wf s this]
  have "wf (sfree a (S\<lparr>device_tracker_list := tr (device_tracker_list S)\<rparr>))" using tr f(1,2) by auto
  then show ?thesis using None closed1_closed2 [OF None f(3)] by simp
next
  case (Some q)
  have ne: "q \<noteq> a" using detach [OF wf s(1) Some] by blast
  show ?thesis unfolding Some option.case
  proof (rule good_bind [OF drop_peer_ok [OF wf s(1) Some]], elim conjE)
    fix S1 assume w1: "wfx {a} S1" and c1: "closed1 q S S1"
    note d = after_drop [OF w1 c1 s(1) Some ne]
    note f = free_detached [OF w1 d(1) s(2) d(2)]
    have "wf (sfree a (S1\<lparr>device_tracker_list := tr (device_tracker_list S1)\<rparr>))" using tr f(1,2) by auto
    moreover have "closed2 a s S (sfree a (S1\<lparr>device_tracker_list := tr (device_tracker_list S1)\<rparr>))"
      by (rule closed1_twice [OF c1 f(3) ne Some]) simp_all
    ultimately show "good (Inr (sfree a (S1\<lparr>device_tracker_list := tr (device_tracker_list S1)\<rparr>)))
        (\<lambda>S'. wf S' \<and> closed2 a s S S')" by simp
  qed
qed

lemma close_ok:
  assumes wf: "wf S" and s: "socks S a = Some s"
  shows "good (close_socket a S) (\<lambda>S'. wf S' \<and> closed2 a s S S')"
proof -
  let ?P = "\<lambda>S'. wf S' \<and> closed2 a s S S'"
  have "good (sock_close (Suc (Suc (Suc (Suc 0)))) a S) ?P"
  proof (cases "cls_fn s")
    case local_socket_close_fn
    then show ?thesis using local_close_ok [OF wf s] by (simp add: sock_close_step [OF s] is_local_def)
  next
    case local_socket_close_notify_fn
    let ?s = "s\<lparr>rdy_fn := local_socket_ready_fn, has_shutdown := False, cls_fn := local_socket_close_fn\<rparr>"
    have loc: "is_local s" using local_socket_close_notify_fn by (simp add: is_local_def)
    have w1: "wf (sput a ?s S)"
      by (rule wfx_sput_same [OF wf s])
         (use loc wfxD(1) [OF wf s] in \<open>auto simp: wf_same_def is_local_def local_socket_close_notify_fn\<close>)
    have fin: "good (sock_close (Suc (Suc (Suc 0))) a S1) ?P" if S1: "S1 = (sput a ?s S)\<lparr>fdtab := t\<rparr>" for S1 t
    proof -
      have a: "socks S1 a = Some ?s" "wf S1" "is_local ?s" using w1 S1 by (simp_all add: is_local_def)
      have run: "sock_close (Suc (Suc (Suc 0))) a S1 = local_socket_close (sock_close (Suc (Suc 0))) a S1"
        by (simp add: sock_close_step [OF a(1)])
      show ?thesis unfolding run
        by (rule good_mono [OF local_close_ok [OF a(2,1,3)]]) (auto simp: closed2_def S1)
    qed
    have "good (write_fd (sk_fd s) (\<lambda>f. SendFail f ''closed'') (sput a ?s S))
        (\<lambda>S1. \<exists>t. S1 = (sput a ?s S)\<lparr>fdtab := t\<rparr>)"
      by (rule good_mono [OF write_fd_good [of "\<lambda>f. SendFail f ''closed''"]]) (auto dest: SendFail_good)
    then have "good (local_socket_close_notify (sock_close (Suc (Suc (Suc 0)))) a S) ?P"
      unfolding local_socket_close_notify_def using s
      by (simp add: sget_def) (erule good_bind, use fin in blast)
    then show ?thesis using local_socket_close_notify_fn by (simp add: sock_close_step [OF s])
  next
    case remote_socket_close_fn
    then show ?thesis using plain_close_ok [OF wf s, of id "Suc 0"] s
      by (simp add: sock_close_step [OF s(1)] sget_def remote_socket_close_def is_local_def)
  next
    case smart_socket_close_fn
    then show ?thesis using plain_close_ok [OF wf s, of id "Suc 0"] s
      by (simp add: sock_close_step [OF s(1)] sget_def smart_socket_close_def is_local_def)
  next
    case device_tracker_close_fn
    then show ?thesis using plain_close_ok [OF wf s, of "removeAll a" "Suc 0"] s
      by (simp add: sock_close_step [OF s(1)] sget_def device_tracker_close_def is_local_def)
  qed
  then show ?thesis by (simp add: CLOSE_DEPTH_def numeral_eq_Suc)
qed

end
