(* ===== verification/Sockets_Props.thy ===== *)
theory Sockets_Props
  imports Sockets_Wf
begin

text \<open>
  Properties of the sockets: closing one and closing all of a transport, identifiers and lookup,
  the order of the bytes a local socket writes, requests of the smart socket, and the access to
  a freed socket when a local socket fails to write what another local socket sends it.
\<close>

section \<open>Closing\<close>

text \<open>
  C1: closing a socket of a well-formed heap is safe and complete. It needs at most four nested
  calls of close functions, follows no stale pointer and passes its CHECK; it returns, unless the
  socket was to end the process (exit on close) or the failure message waits for ever on a
  descriptor nobody drains. Afterwards the heap is well-formed again, the socket and its peer are
  freed, or detached on the closing list with data still to write, no longer found by
  identifier, and every other socket is as it was.
\<close>

theorem close_socket_safe:
  assumes "wf S" and "socks S a = Some s"
  shows "case close_socket a S of
      Inr S' \<Rightarrow> wf S' \<and> gone_or_closing a S' \<and> (\<forall>q. peer s = Some q \<longrightarrow> gone_or_closing q S') \<and>
        (\<forall>b. b \<noteq> a \<longrightarrow> peer s \<noteq> Some b \<longrightarrow> socks S' b = socks S b) \<and>
        local_socket_list S' = filter (\<lambda>b. b \<noteq> a \<and> peer s \<noteq> Some b) (local_socket_list S)
    | Inl e \<Rightarrow> e = Exit 1 \<or> e = Spin"
  using close_ok [OF assms] by (auto simp: good_def closed2_def split: sum.splits)

text \<open>The loop of \<open>close_all_sockets\<close>.\<close>

definition on_transport :: "'x sstate_scheme \<Rightarrow> addr option \<Rightarrow> addr \<Rightarrow> bool" where
  "on_transport S t a \<longleftrightarrow>
    (\<exists>s. socks S a = Some s \<and> (sk_transport s = t \<or>
       (\<exists>q qs. peer s = Some q \<and> socks S q = Some qs \<and> sk_transport qs = t)))"

lemma find_on_transport_eq:
  "wf S \<Longrightarrow> set as \<subseteq> dom (socks S) \<Longrightarrow> find_on_transport S t as = Inr (find (on_transport S t) as)"
proof (induction as)
  case Nil
  then show ?case by simp
next
  case (Cons a as)
  then obtain s where s: "socks S a = Some s" by auto
  have p: "peer_ok S a s" using wfxD(2) [OF Cons.prems(1) s] by simp
  show ?case
  proof (cases "peer s")
    case None
    then show ?thesis using Cons s by (auto simp: sget_eq on_transport_def)
  next
    case (Some q)
    then obtain qs where "socks S q = Some qs" using p by (auto simp: peer_ok_def)
    then show ?thesis using Cons s Some by (auto simp: sget_eq on_transport_def)
  qed
qed

definition ids_ok :: "'x sstate_scheme \<Rightarrow> bool" where
  "ids_ok S \<longleftrightarrow>
    (\<forall>a s. a \<in> set (local_socket_list S) \<longrightarrow> socks S a = Some s \<longrightarrow>
       sk_id s \<noteq> 0 \<and> unat (sk_id s) < unat (local_socket_next_id S)) \<and>
    (\<forall>a b s t. a \<in> set (local_socket_list S) \<longrightarrow> b \<in> set (local_socket_list S) \<longrightarrow> socks S a = Some s \<longrightarrow>
       socks S b = Some t \<longrightarrow> sk_id s = sk_id t \<longrightarrow> a = b) \<and>
    local_socket_next_id S \<noteq> 0"

lemma ids_ok_closed: "ids_ok S \<Longrightarrow> closed2 a s S S' \<Longrightarrow> ids_ok S'"
proof -
  assume i: "ids_ok S" and c: "closed2 a s S S'"
  have l: "b \<in> set (local_socket_list S') \<Longrightarrow> b \<in> set (local_socket_list S) \<and> socks S' b = socks S b" for b
    using c by (auto simp: closed2_def)
  show ?thesis using i c l unfolding ids_ok_def closed2_def by (metis (no_types, lifting))
qed

text \<open>What closing leaves alone: the transports, the rest of the state, and distinct identifiers.\<close>

definition kept :: "'x sstate_scheme \<Rightarrow> 'x sstate_scheme \<Rightarrow> bool" where
  "kept S S' \<longleftrightarrow> reg S' = reg S \<and> sstate.more S' = sstate.more S \<and> (ids_ok S \<longrightarrow> ids_ok S')"

lemma close_all_loop_ok:
  "wf S \<Longrightarrow> length (local_socket_list S) \<le> n \<Longrightarrow>
   good (close_all_loop n t S) (\<lambda>S'. wf S' \<and> (\<forall>a \<in> set (local_socket_list S'). \<not> on_transport S' t a) \<and> kept S S')"
proof (induction n arbitrary: S)
  case 0
  then show ?case by (subst close_all_loop.simps) (simp add: kept_def)
next
  case (Suc n)
  have f: "find_on_transport S t (local_socket_list S) = Inr (find (on_transport S t) (local_socket_list S))"
    using find_on_transport_eq [OF Suc.prems(1)] wfxD(8) [OF Suc.prems(1)] by blast
  show ?case
  proof (cases "find (on_transport S t) (local_socket_list S)")
    case None
    then have "\<forall>a \<in> set (local_socket_list S). \<not> on_transport S t a" by (auto simp: find_None_iff)
    then show ?thesis using Suc.prems(1) f None by (subst close_all_loop.simps) (simp add: kept_def)
  next
    case (Some a)
    then have a: "a \<in> set (local_socket_list S)" by (auto simp: find_Some_iff)
    then obtain s where s: "socks S a = Some s" using wfxD(8) [OF Suc.prems(1)] by auto
    have "good (close_socket a S) (\<lambda>S'. wf S' \<and> length (local_socket_list S') \<le> n \<and> kept S S')"
    proof (rule good_mono [OF close_ok [OF Suc.prems(1) s]], elim conjE, intro conjI)
      fix S' assume "closed2 a s S S'"
      then have "local_socket_list S' = filter (\<lambda>b. b \<noteq> a \<and> peer s \<noteq> Some b) (local_socket_list S)"
        by (simp add: closed2_def)
      moreover have "length (filter (\<lambda>b. b \<noteq> a \<and> peer s \<noteq> Some b) (local_socket_list S)) < length (local_socket_list S)"
        using a by (auto intro!: length_filter_less)
      ultimately show "length (local_socket_list S') \<le> n" using Suc.prems(2) by simp
      show "kept S S'" using \<open>closed2 a s S S'\<close> ids_ok_closed by (auto simp: kept_def closed2_def)
    qed
    then have "good (bindR (close_socket a S) (close_all_loop n t))
        (\<lambda>S'. wf S' \<and> (\<forall>a \<in> set (local_socket_list S'). \<not> on_transport S' t a) \<and> kept S S')"
      by (rule good_bind) (rule good_mono, rule Suc.IH, auto simp: kept_def)
    then show ?thesis using f Some by (subst close_all_loop.simps) simp
  qed
qed


section \<open>Creating sockets and identifiers\<close>

lemma wf_fresh: "wf S \<Longrightarrow> socks S (next_addr S) = None"
  using wfxD(1) [of "{}" S "next_addr S"] by (cases "socks S (next_addr S)") (auto simp: sock_ok_def)

lemma wf_fresh_unpointed: "wf S \<Longrightarrow> socks S b = Some t \<Longrightarrow> peer t \<noteq> Some (next_addr S)"
  using wfx_pointed [of "{}" S b t "next_addr S"] wf_fresh [of S] by auto

lemma wfx_alloc:
  assumes wf: "wf S" and s: "\<not> is_local s" "peer s = None" "has_shutdown s \<longleftrightarrow> cls_fn s = remote_socket_close_fn"
    "has_shutdown s \<longrightarrow> sk_transport s \<noteq> None" "\<forall>t. sk_transport s = Some t \<longrightarrow> trs (reg S) t \<noteq> None"
  shows "wf (snd (salloc s S))"
proof -
  have new: "socks S (next_addr S) = None" using wf_fresh [OF wf] .
  then have "next_addr S \<notin> set (local_socket_list S)" "next_addr S \<notin> set (local_socket_closing_list S)"
    "next_addr S \<notin> set (device_tracker_list S)" "fde_idle (next_addr S) (sfds S)"
    using wfxD(8,9) [OF wf] wfxD(10) [OF wf, of "next_addr S"] wfxD(4) [OF wf] by auto
  then show ?thesis
    by (intro wfx_update [OF wf, of "next_addr S"])
       (use wfxD(3,5,6,7) [OF wf] wf_fresh_unpointed [OF wf] new s in \<open>auto simp: salloc_def sock_ok_def peer_ok_def\<close>)
qed

lemma create_local_socket_ok:
  assumes wf: "wf S" and r: "create_local_socket fd S = Inr (a, S')"
  shows "wf S'" and "a = next_addr S" and "local_socket_list S' = local_socket_list S @ [a]"
    and "\<exists>s. socks S' a = Some s \<and> sk_id s = local_socket_next_id S \<and> peer s = None \<and> sk_fd s = fd"
    and "\<And>b. b \<noteq> a \<Longrightarrow> socks S' b = socks S b"
    and "local_socket_next_id S' = local_socket_next_id S + 1" and "local_socket_next_id S' \<noteq> 0"
proof -
  let ?a = "next_addr S"
  let ?s = "blank_socket\<lparr>sk_fd := fd, sk_id := local_socket_next_id S\<rparr>"
  from r obtain F where a: "a = ?a" and F: "fdevent_install ?a fd ?a (sfds S) = Inr F"
    and nz: "local_socket_next_id S + 1 \<noteq> 0"
    and S': "S' = S\<lparr>socks := (socks S)(?a \<mapsto> ?s), next_addr := ?a + 1,
        local_socket_next_id := local_socket_next_id S + 1,
        local_socket_list := local_socket_list S @ [?a], sfds := F\<rparr>"
    by (auto simp: create_local_socket_def salloc_def install_local_socket_def on_fds_def sget_def sput_def
        Let_def split: if_splits)
  have new: "socks S ?a = None" using wf_fresh [OF wf] .
  have fi: "fd_inv F" using fdevent_install_inv [OF wfxD(3) [OF wf] wfxD(4) [OF wf new] F] .
  have fe: "fde_active b F = fde_active b (sfds S) \<and> fde_wants b F = fde_wants b (sfds S) \<and>
      fde_idle b F = fde_idle b (sfds S)" if "b \<noteq> ?a" for b
    using fdevent_install_effect(3) [OF F that] by (simp add: fde_active_def fde_wants_def fde_idle_def)
  have nl: "?a \<notin> set (local_socket_list S)" "?a \<notin> set (local_socket_closing_list S)"
    "?a \<notin> set (device_tracker_list S)"
    using wfxD(8,9) [OF wf] wfxD(10) [OF wf, of ?a] new by auto
  show "wf S'"
    by (rule wfx_update [OF wf, of ?a])
       (use wfxD(3,5,6,7) [OF wf] wf_fresh_unpointed [OF wf] new nl fi fe fdevent_install_effect(2) [OF F] in
         \<open>auto simp: S' sock_ok_def peer_ok_def is_local_def blank_socket_def\<close>)
  show "a = ?a" "local_socket_list S' = local_socket_list S @ [a]"
    "\<exists>s. socks S' a = Some s \<and> sk_id s = local_socket_next_id S \<and> peer s = None \<and> sk_fd s = fd"
    "\<And>b. b \<noteq> a \<Longrightarrow> socks S' b = socks S b"
    "local_socket_next_id S' = local_socket_next_id S + 1" "local_socket_next_id S' \<noteq> 0"
    using nz by (simp_all add: S' a blank_socket_def)
qed

lemma unat_plus_1: "x + 1 \<noteq> (0 :: u32) \<Longrightarrow> unat (x + 1) = unat x + 1"
proof -
  assume "x + 1 \<noteq> 0"
  then have "unat (1 + x) = Suc (unat x)" by (intro unatSuc) (simp add: add.commute)
  then show ?thesis by (simp add: add.commute)
qed

lemma create_local_socket_ids:
  assumes wf: "wf S" and i: "ids_ok S" and r: "create_local_socket fd S = Inr (a, S')"
  shows "ids_ok S'"
proof -
  note c = create_local_socket_ok [OF wf r]
  obtain s where s: "socks S' a = Some s" "sk_id s = local_socket_next_id S" using c(4) by blast
  have u: "unat (local_socket_next_id S') = unat (local_socket_next_id S) + 1"
    using c(6,7) unat_plus_1 by simp
  have na: "a \<notin> set (local_socket_list S)" using wfxD(8) [OF wf] wf_fresh [OF wf] c(2) by auto
  have old: "b \<noteq> a \<and> socks S b = Some t" if "b \<in> set (local_socket_list S)" "socks S' b = Some t" for b t
    using that na c(5) by metis
  have lt: "sk_id t \<noteq> 0 \<and> unat (sk_id t) < unat (local_socket_next_id S)"
    if "b \<in> set (local_socket_list S)" "socks S' b = Some t" for b t
    using i old [OF that] that(1) unfolding ids_ok_def by blast
  have 1: "sk_id t \<noteq> 0 \<and> unat (sk_id t) < unat (local_socket_next_id S')"
    if "b \<in> set (local_socket_list S')" "socks S' b = Some t" for b t
    using that lt [of b t] s u i c(3) by (cases "b = a") (auto simp: ids_ok_def)
  have 2: "b = d" if "b \<in> set (local_socket_list S')" "d \<in> set (local_socket_list S')"
    "socks S' b = Some t" "socks S' d = Some v" "sk_id t = sk_id v" for b d t v
  proof (rule ccontr)
    assume ne: "b \<noteq> d"
    show False
    proof (cases "b = a \<or> d = a")
      case True
      then show False using ne that lt [of b t] lt [of d v] s c(3) by auto
    next
      case False
      then have "b \<in> set (local_socket_list S)" "d \<in> set (local_socket_list S)" using that c(3) by auto
      then show False using i old that ne unfolding ids_ok_def by metis
    qed
  qed
  show ?thesis using 1 2 c(7) unfolding ids_ok_def by blast
qed

lemma find_local_socket_spec:
  assumes "wf S" and "ids_ok S"
  shows "\<exists>r. find_local_socket i j S = Inr r \<and>
      (\<forall>a. r = Some a \<longleftrightarrow> a \<in> set (local_socket_list S) \<and> (\<exists>s. socks S a = Some s \<and> sk_id s = i \<and>
        (j = 0 \<or> (\<exists>q qs. peer s = Some q \<and> socks S q = Some qs \<and> sk_id qs = j))))"
proof -
  have inj: "sk_id s = sk_id t \<Longrightarrow> a = b"
    if "a \<in> set (local_socket_list S)" "b \<in> set (local_socket_list S)" "socks S a = Some s" "socks S b = Some t"
    for a b s t using assms(2) that unfolding ids_ok_def by blast
  let ?Q = "\<lambda>as a. a \<in> set as \<and> (\<exists>s. socks S a = Some s \<and> sk_id s = i \<and>
        (j = 0 \<or> (\<exists>q qs. peer s = Some q \<and> socks S q = Some qs \<and> sk_id qs = j)))"
  have find: "\<exists>r. find_in_list S i j as = Inr r \<and> (\<forall>a. r = Some a \<longleftrightarrow> ?Q as a)"
    if "set as \<subseteq> set (local_socket_list S)" for as
    using that
  proof (induction as)
    case Nil
    then show ?case by simp
  next
    case (Cons b bs)
    then obtain t where t: "socks S b = Some t" using wfxD(8) [OF assms(1)] by auto
    show ?case
    proof (cases "sk_id t = i")
      case False
      then show ?thesis using Cons t by (auto simp: sget_eq)
    next
      case True
      have only: "?Q (b # bs) a \<longleftrightarrow> a = b \<and> (j = 0 \<or> (\<exists>q qs. peer t = Some q \<and> socks S q = Some qs \<and> sk_id qs = j))" for a
        using inj [of a b] t True Cons.prems by auto
      show ?thesis unfolding only using t True wfxD(2) [OF assms(1) t]
        by (cases "peer t") (auto simp: sget_eq peer_ok_def)
    qed
  qed
  show ?thesis using find [OF order_refl] by (simp add: find_local_socket_def)
qed

text \<open>
  C33: identifiers of listed local sockets are never 0 and never shared: creating a local socket
  (the counter cannot wrap, the process aborts first) and closing any socket keep them so, and
  keep the heap well-formed. Then find\_local\_socket returns the one socket with the identifier,
  provided its peer has the identifier asked for when that is not 0, and never reads a freed
  socket.
\<close>

theorem socket_ids_unique:
  assumes "wf S" and "ids_ok S"
  shows "(\<forall>fd a S'. create_local_socket fd S = Inr (a, S') \<longrightarrow> wf S' \<and> ids_ok S') \<and>
    (\<forall>a s S'. socks S a = Some s \<longrightarrow> close_socket a S = Inr S' \<longrightarrow> wf S' \<and> ids_ok S') \<and>
    (\<exists>r. find_local_socket i j S = Inr r \<and>
      (\<forall>a. r = Some a \<longleftrightarrow> a \<in> set (local_socket_list S) \<and> (\<exists>s. socks S a = Some s \<and> sk_id s = i \<and>
        (j = 0 \<or> (\<exists>q qs. peer s = Some q \<and> socks S q = Some qs \<and> sk_id qs = j)))))"
proof -
  have create: "wf S' \<and> ids_ok S'" if "create_local_socket fd S = Inr (a, S')" for fd a S'
    using create_local_socket_ok(1) [OF assms(1) that] create_local_socket_ids [OF assms that] by blast
  have close: "wf S' \<and> ids_ok S'" if "socks S a = Some s" "close_socket a S = Inr S'" for a s S'
    using close_ok [OF assms(1) that(1)] that(2) ids_ok_closed [OF assms(2)] by auto
  show ?thesis using create close find_local_socket_spec [OF assms] by blast
qed

section \<open>The bytes of a local socket\<close>

definition backlog :: "apacket list \<Rightarrow> string" where
  "backlog ps = concat (map (\<lambda>p. take (p_len p) (drop (p_ptr p) (p_data p))) ps)"

text \<open>What a local socket has written and will still write, in order.\<close>

definition outgoing :: "addr \<Rightarrow> 'x sstate_scheme \<Rightarrow> string" where
  "outgoing a S =
    (case socks S a of None \<Rightarrow> []
     | Some s \<Rightarrow> written (fdtab S (sk_fd s)) @ backlog (pkts s))"

lemma backlog_simps [simp]:
  "backlog [] = []"
  "backlog (p # ps) = take (p_len p) (drop (p_ptr p) (p_data p)) @ backlog ps"
  "backlog (ps @ qs) = backlog ps @ backlog qs"
  by (simp_all add: backlog_def)

lemma write_out_conserves:
  "write_out p f = (st, p', f') \<Longrightarrow>
   written f' @ backlog [p'] = written f @ backlog [p] \<and>
   (st = WDone \<longrightarrow> p_len p' = 0) \<and> (st = WBlocked \<longrightarrow> 0 < p_len p') \<and> p_data p' = p_data p"
proof (induction p f rule: write_out.induct)
  case (1 p f)
  show ?case
  proof (cases "p_len p = 0")
    case True
    then show ?thesis using "1.prems" by (subst (asm) write_out.simps) auto
  next
    case False
    let ?buf = "take (p_len p) (drop (p_ptr p) (p_data p))"
    obtain ret f1 where w: "adb_write f ?buf = (ret, f1)" by force
    from adb_write_prefix [OF w] obtain r where r: "r \<le> length ?buf" "written f1 = written f @ take r ?buf"
      "case ret of Ret k \<Rightarrow> r = k | Err e \<Rightarrow> r = 0" by blast
    show ?thesis
    proof (cases ret)
      case (Err e)
      then show ?thesis using "1.prems" False w r by (subst (asm) write_out.simps) (auto split: if_splits)
    next
      case (Ret k)
      then have k: "r = k" using r(3) by simp
      show ?thesis
      proof (cases "k = 0")
        case True
        then show ?thesis using "1.prems" False w r Ret k by (subst (asm) write_out.simps) auto
      next
        case nz: False
        let ?p = "p\<lparr>p_len := p_len p - k, p_ptr := p_ptr p + k\<rparr>"
        have "write_out ?p f1 = (st, p', f')"
          using "1.prems" False w Ret nz by (subst (asm) write_out.simps) simp
        from "1.IH" [OF _ w [symmetric] _ _ this] False Ret nz have
          ih: "written f' @ backlog [p'] = written f1 @ backlog [?p]"
          "(st = WDone \<longrightarrow> p_len p' = 0) \<and> (st = WBlocked \<longrightarrow> 0 < p_len p') \<and> p_data p' = p_data ?p" by auto
        have "take k ?buf @ take (p_len p - k) (drop (p_ptr p + k) (p_data p)) = ?buf"
        proof -
          have "drop k ?buf = take (p_len p - k) (drop (p_ptr p + k) (p_data p))"
            by (simp add: drop_take add.commute)
          then show ?thesis by (metis append_take_drop_id)
        qed
        then show ?thesis using ih r(2) k by simp
      qed
    qed
  qed
qed

lemma flush_queue_conserves:
  "flush_queue ps f = (st, ps', f') \<Longrightarrow>
   written f' @ backlog ps' = written f @ backlog ps \<and> (st = WDone \<longrightarrow> ps' = [])"
proof (induction ps arbitrary: f)
  case Nil
  then show ?case by simp
next
  case (Cons p ps)
  obtain st1 p1 f1 where w: "write_out p f = (st1, p1, f1)" by (cases "write_out p f") auto
  note c = write_out_conserves [OF w]
  show ?case
  proof (cases st1)
    case WDone
    then have "flush_queue ps f1 = (st, ps', f')" using Cons.prems w by simp
    from Cons.IH [OF this] c WDone show ?thesis by auto
  next
    case WBlocked
    then show ?thesis using Cons.prems w c by auto
  next
    case WFailed
    then show ?thesis using Cons.prems w c by auto
  qed
qed

lemma on_fds_Inr: "on_fds g S = Inr S' \<Longrightarrow> \<exists>F. S' = S\<lparr>sfds := F\<rparr>"
  by (auto simp: on_fds_def)

lemma enqueue_fifo:
  assumes "socks S a = Some s" and "local_socket_enqueue a p S = Inr (r, S')"
    and "wf S" and "\<not> gone_or_closing a S'"
  shows "outgoing a S' = outgoing a S @ take (p_len p) (p_data p) \<and>
    (\<forall>s'. socks S' a = Some s' \<longrightarrow> (r = 0 \<longleftrightarrow> pkts s' = []))"
proof -
  let ?p = "p\<lparr>p_ptr := 0\<rparr>"
  have len: "p_len p \<le> length (p_data p)"
    using assms(1,2) by (auto simp: local_socket_enqueue_def sget_eq Let_def split: if_splits)
  show ?thesis
  proof (cases "pkts s = []")
    case False
    then obtain F where "S' = (sput a (s\<lparr>pkts := pkts s @ [?p]\<rparr>) S)\<lparr>sfds := F\<rparr>" "r = 1"
      using assms(1,2) len by (auto simp: local_socket_enqueue_def sget_eq Let_def dest: on_fds_Inr)
    then show ?thesis using assms(1) by (simp add: outgoing_def)
  next
    case True
    obtain st p1 f1 where w: "write_out ?p (fdtab S (sk_fd s)) = (st, p1, f1)"
      by (cases "write_out ?p (fdtab S (sk_fd s))") auto
    note c = write_out_conserves [OF w]
    let ?S1 = "S\<lparr>fdtab := (fdtab S)(sk_fd s := f1)\<rparr>"
    show ?thesis
    proof (cases st)
      case WDone
      then have "S' = ?S1" "r = 0" using assms(1,2) len True w by (auto simp: local_socket_enqueue_def sget_eq Let_def)
      then show ?thesis using assms(1) c WDone True by (auto simp: outgoing_def)
    next
      case WBlocked
      then obtain F where "S' = (sput a (s\<lparr>pkts := [p1]\<rparr>) ?S1)\<lparr>sfds := F\<rparr>" "r = 1"
        using assms(1,2) len True w by (auto simp: local_socket_enqueue_def sget_eq Let_def dest: on_fds_Inr)
      moreover have "written f1 @ backlog [p1] = written (fdtab S (sk_fd s)) @ backlog [?p]" using c by blast
      ultimately show ?thesis using assms(1) True by (simp add: outgoing_def)
    next
      case WFailed
      let ?S2 = "sput a (s\<lparr>has_write_error := True\<rparr>) ?S1"
      have cl: "close_socket a ?S2 = Inr S'"
        using WFailed assms(1,2) len True w by (auto simp: local_socket_enqueue_def sget_eq Let_def)
      have "wf ?S1" using assms(3) by simp
      then have "wf ?S2"
        by (rule wfx_sput_same) (use assms(1) wfxD(1) [OF assms(3,1)] in
            \<open>auto simp: wf_same_def is_local_def sock_ok_def\<close>)
      from close_ok [OF this, of a "s\<lparr>has_write_error := True\<rparr>"] cl have "gone_or_closing a S'"
        by (simp add: closed2_def)
      then show ?thesis using assms(4) by simp
    qed
  qed
qed

text \<open>
  C7: a local socket is a first-in first-out stream. When local\_socket\_enqueue returns and the
  socket was not closed by a failed write, what it has written and will still write is what it
  was before, followed by the packet's bytes, whole and in order, however the kernel splits the
  writes; 0 (ready for more) is returned exactly when nothing waits, and then everything is
  written.
\<close>

theorem local_socket_enqueue_fifo:
  assumes "socks S a = Some s" and "local_socket_enqueue a p S = Inr (r, S')"
    and "wf S" and "\<not> gone_or_closing a S'"
  shows "outgoing a S' = outgoing a S @ take (p_len p) (p_data p) \<and>
    (\<forall>s'. socks S' a = Some s' \<longrightarrow> (r = 0 \<longleftrightarrow> pkts s' = []))"
  by (rule enqueue_fifo [OF assms])

section \<open>Two connected local sockets\<close>

text \<open>Setting the peer pointers of two unconnected sockets at each other, as every connection does.\<close>

lemma wfx_shrink: "wfx (insert b X) S \<Longrightarrow> (\<And>s. socks S b = Some s \<Longrightarrow> peer_ok S b s) \<Longrightarrow> wfx X S"
  unfolding wfx_def by blast

lemma wf_pair:
  assumes wf: "wf S" and a: "socks S a = Some s" "peer s = None" and b: "socks S b = Some t" "peer t = None"
    and ab: "a \<noteq> b" "\<not> closing s" "\<not> closing t"
  shows "wf (sput a (s\<lparr>peer := Some b\<rparr>) (sput b (t\<lparr>peer := Some a\<rparr>) S))"
proof -
  let ?S1 = "sput b (t\<lparr>peer := Some a\<rparr>) S"
  have un: "peer u \<noteq> Some a \<and> peer u \<noteq> Some b" if "socks S c = Some u" for c u
    using wfx_pointed [OF wf that] a b by fastforce
  have tr: "c \<in> set (device_tracker_list S) \<Longrightarrow> socks S c = Some u \<Longrightarrow> cls_fn u = device_tracker_close_fn" for c u
    using wfxD(10) [OF wf, of c] by simp
  have ok: "sock_ok (sput c v T) d (u\<lparr>peer := x\<rparr>)" if "sock_ok T d u" "\<not> closing u" for c v T d u x
    using that by (auto simp: sock_ok_def is_local_def)
  have 1: "wfx {b} ?S1"
    by (rule wfx_update [OF wf, of b])
       (use wfxD(3,5,6,7) [OF wf] ok [OF wfxD(1) [OF wf b(1)] ab(3)] b un tr in auto)
  have "socks ?S1 a = Some s" using a ab by simp
  from ok [OF wfxD(1) [OF 1 this] ab(2)] have "wfx {b} (sput a (s\<lparr>peer := Some b\<rparr>) ?S1)"
    by (intro wfx_update [OF 1, of a])
       (use wfxD(3,5,6,7) [OF wf] a b ab un tr in \<open>auto simp: peer_ok_def\<close>)
  then show ?thesis using a b ab by (auto intro!: wfx_shrink [of b] simp: peer_ok_def)
qed

definition sstate_init :: "registry \<Rightarrow> (fd \<Rightarrow> fd_state) \<Rightarrow> sstate" where
  "sstate_init R fs =
    \<lparr>socks = Map.empty, next_addr = 1, local_socket_next_id = 1, local_socket_list = [],
     local_socket_closing_list = [], device_tracker_list = [], fdtab = fs, sfds = fdsys_init True,
     reg = R, sent = []\<rparr>"

lemma sstate_init_wf: "wf (sstate_init R fs)" "ids_ok (sstate_init R fs)"
  using fdsys_init_inv [of True]
  by (simp_all add: wfx_def sstate_init_def fde_idle_def fdsys_init_def ids_ok_def)

definition demo_sock :: "u32 \<Rightarrow> fd \<Rightarrow> asocket" where
  "demo_sock i fd = blank_socket\<lparr>sk_fd := fd, sk_id := i\<rparr>"

definition demo_pair :: "(fd \<Rightarrow> fd_state) \<Rightarrow> sstate" where
  "demo_pair fs =
    (let f = \<lambda>fd a. \<lparr>fde_fd = fd, force_eof = False, fde_state = FDE_ACTIVE, fde_events = 0, fde_func = a\<rparr> in
     (sstate_init (registry_init True) fs)
      \<lparr>socks := [2 \<mapsto> (demo_sock 2 6)\<lparr>peer := Some 1\<rparr>, 1 \<mapsto> (demo_sock 1 5)\<lparr>peer := Some 2\<rparr>],
       next_addr := 3, local_socket_next_id := 3, local_socket_list := [1, 2],
       sfds := (fdsys_init True)\<lparr>fdes := [1 \<mapsto> f 5 1, 2 \<mapsto> f 6 2],
         poll_map := [5 \<mapsto> (1, POLLRDHUP), 6 \<mapsto> (2, POLLRDHUP)]\<rparr>\<rparr>)"

lemma demo_pair_wf: "wf (demo_pair fs)" and demo_pair_ids: "ids_ok (demo_pair fs)"
proof -
  define S1 where "S1 = snd (projr (create_local_socket 5 (sstate_init (registry_init True) fs)))"
  have S1: "create_local_socket 5 (sstate_init (registry_init True) fs) = Inr (1, S1)"
    by (simp add: S1_def create_local_socket_def salloc_def install_local_socket_def sstate_init_def sget_def
        on_fds_def fdevent_install_def fdsys_init_def put_fde_def sput_def Let_def)
  define S2 where "S2 = snd (projr (create_local_socket 6 S1))"
  have S2: "create_local_socket 6 S1 = Inr (2, S2)"
    by (simp add: S1_def S2_def create_local_socket_def salloc_def install_local_socket_def sstate_init_def sget_def
        on_fds_def fdevent_install_def fdsys_init_def put_fde_def sput_def Let_def)
  have w1: "wf S1" and i1: "ids_ok S1"
    using create_local_socket_ok(1) [OF sstate_init_wf(1) S1] create_local_socket_ids [OF sstate_init_wf S1] .
  have w2: "wf S2" and i2: "ids_ok S2"
    using create_local_socket_ok(1) [OF w1 S2] create_local_socket_ids [OF w1 i1 S2] .
  have h: "socks S2 1 = Some (demo_sock 1 5)" "socks S2 2 = Some (demo_sock 2 6)" "peer (demo_sock i fd) = None"
    "\<not> closing (demo_sock i fd)" for i fd
    by (simp_all add: S1_def S2_def create_local_socket_def salloc_def install_local_socket_def sstate_init_def sget_def
        on_fds_def fdevent_install_def fdsys_init_def put_fde_def sput_def Let_def demo_sock_def blank_socket_def)
  have d: "demo_pair fs = sput 1 ((demo_sock 1 5)\<lparr>peer := Some 2\<rparr>) (sput 2 ((demo_sock 2 6)\<lparr>peer := Some 1\<rparr>) S2)"
    by (simp add: S1_def S2_def create_local_socket_def salloc_def install_local_socket_def sstate_init_def sget_def
        on_fds_def fdevent_install_def fdsys_init_def put_fde_def sput_def Let_def demo_sock_def blank_socket_def
        demo_pair_def fun_eq_iff)
  show "wf (demo_pair fs)" unfolding d by (rule wf_pair [OF w2 h(1,3,2,3)]) (simp_all add: h)
  have "sk_id (demo_sock i fd) = i" for i fd by (simp add: demo_sock_def)
  with i2 h show "ids_ok (demo_pair fs)" unfolding d ids_ok_def by (auto split: if_splits)
qed

lemma demo_pair_simps [simp]:
  "socks (demo_pair fs) (Suc 0) = Some ((demo_sock 1 5)\<lparr>peer := Some 2\<rparr>)"
  "socks (demo_pair fs) 2 = Some ((demo_sock 2 6)\<lparr>peer := Some 1\<rparr>)"
  "local_socket_list (demo_pair fs) = [1, 2]" "fdtab (demo_pair fs) = fs" "local_socket_closing_list (demo_pair fs) = []"
  by (simp_all add: demo_pair_def sstate_init_def)

definition quiet_fd :: fd_state where
  "quiet_fd = \<lparr>rscript = [], wscript = [], written = []\<rparr>"

theorem close_socket_safe_witness:
  "\<exists>(S :: sstate) s. wf S \<and> socks S 1 = Some s \<and> peer s = Some 2 \<and>
    (case close_socket 1 S of
      Inr S' \<Rightarrow> wf S' \<and> gone_or_closing 1 S' \<and> gone_or_closing 2 S' \<and> local_socket_list S' = []
    | Inl e \<Rightarrow> e = Exit 1 \<or> e = Spin)"
proof -
  let ?S = "demo_pair (\<lambda>_. quiet_fd)"
  have s: "socks ?S 1 = Some ((demo_sock 1 5)\<lparr>peer := Some 2\<rparr>)" by simp
  from close_socket_safe [OF demo_pair_wf s] show ?thesis
    by (intro exI [of _ ?S] exI [of _ "(demo_sock 1 5)\<lparr>peer := Some 2\<rparr>"])
       (auto simp: demo_pair_wf split: sum.splits)
qed


theorem socket_ids_unique_witness:
  "wf (demo_pair (\<lambda>_. quiet_fd)) \<and> ids_ok (demo_pair (\<lambda>_. quiet_fd)) \<and>
   find_local_socket 1 2 (demo_pair (\<lambda>_. quiet_fd)) = Inr (Some 1)"
proof -
  let ?S = "demo_pair (\<lambda>_. quiet_fd)"
  obtain r where r: "find_local_socket 1 2 ?S = Inr r"
    "r = Some 1 \<longleftrightarrow> 1 \<in> set (local_socket_list ?S) \<and> (\<exists>s. socks ?S 1 = Some s \<and> sk_id s = 1 \<and>
        ((2 :: u32) = 0 \<or> (\<exists>q qs. peer s = Some q \<and> socks ?S q = Some qs \<and> sk_id qs = 2)))"
    using socket_ids_unique [OF demo_pair_wf demo_pair_ids, of "\<lambda>_. quiet_fd" 1 2] by blast
  have "r = Some 1" unfolding r(2) by (simp add: demo_sock_def)
  then show ?thesis using r(1) demo_pair_wf demo_pair_ids by blast
qed

theorem local_socket_enqueue_fifo_witness:
  "\<exists>(S :: sstate) S' s s'. wf S \<and> socks S 1 = Some s \<and> local_socket_enqueue 1 (get_apacket\<lparr>p_data := ''abc'', p_len := 3\<rparr>) S = Inr (1, S') \<and>
    \<not> gone_or_closing 1 S' \<and> socks S' 1 = Some s' \<and> written (fdtab S' 5) = ''ab'' \<and> pkts s' \<noteq> [] \<and>
    outgoing 1 S' = outgoing 1 S @ ''abc''"
proof -
  let ?fs = "\<lambda>_. quiet_fd\<lparr>wscript := [WAccept 2]\<rparr>"
  let ?S = "demo_pair ?fs" and ?p = "get_apacket\<lparr>p_data := ''abc'', p_len := 3\<rparr>"
  obtain S' where S': "local_socket_enqueue 1 ?p ?S = Inr (1, S')" "socks S' 1 \<noteq> None"
      "\<not> closing (the (socks S' 1))" "written (fdtab S' 5) = ''ab''" "pkts (the (socks S' 1)) \<noteq> []"
    by (simp add: local_socket_enqueue_def sget_def demo_sock_def blank_socket_def write_out.simps adb_write_def
        quiet_fd_def get_apacket_def on_fds_def demo_pair_def sput_def sstate_init_def fdevent_add_def
        fdevent_set_def fdevent_update_def get_fde_def put_fde_def fdsys_init_def fde_flags poll_events_for_def Let_def)
  then have g: "\<not> gone_or_closing 1 S'" by (auto simp: gone_or_closing_def)
  from local_socket_enqueue_fifo [OF demo_pair_simps(1) [folded One_nat_def] S'(1) demo_pair_wf g] have
    "outgoing 1 S' = outgoing 1 ?S @ ''abc''" by simp
  then show ?thesis using S' g demo_pair_wf [of ?fs] demo_pair_simps(1) [of ?fs, folded One_nat_def] by (metis option.collapse)
qed

section \<open>A failed write between two local sockets\<close>

lemma destroy_returns:
  assumes wf: "wfx X S" and s: "socks S a = Some s" "is_local s" "\<not> exit_on_close s" and pt: "unpointed X a S"
  shows "\<exists>S'. local_socket_destroy a S = Inr S' \<and> wfx (X - {a}) S' \<and> closed1 a S S' \<and> socks S' a = None"
proof -
  have act: "fde_active a (sfds S)" using wfxD(1) [OF wf s(1)] s(2) by (auto simp: sock_ok_def)
  obtain F where "fdevent_remove a (sfds S) = Inr F" using fd_reg.remove_ok [OF wfxD(3) [OF wf] act] by blast
  then have "\<exists>S'. local_socket_destroy a S = Inr S'"
    using s(1,3) by (simp add: local_socket_destroy_def on_fds_def remove_socket_def sget_def)
  then show ?thesis using destroy_ok [OF wf s(1,2) pt] by auto
qed

text \<open>Closing a local socket that has a write error frees its local peer too when that has nothing to write.\<close>

lemma close_pair_frees:
  assumes wf: "wf S" and q: "socks S q = Some qs" "cls_fn qs = local_socket_close_fn" "peer qs = Some a" "has_write_error qs" "\<not> exit_on_close qs"
    and a: "socks S a = Some s" "cls_fn s = local_socket_close_fn" "pkts s = []" "\<not> exit_on_close s"
  shows "\<exists>S'. close_socket q S = Inr S' \<and> socks S' a = None \<and> socks S' q = None"
proof -
  let ?s = "s\<lparr>peer := None\<rparr>" and ?qs = "qs\<lparr>peer := None\<rparr>"
  have d: "a \<noteq> q" "wfx {q} (sput a ?s S)" "unpointed {q} a (sput a ?s S)" using detach [OF wf q(1,3)] a(1) by auto
  have sh: "sock_shutdown a S = Inr S" using wfxD(1) [OF wf a(1)] a(1,2) by (simp add: sock_shutdown_def sget_def sock_ok_def)
  have sa: "socks (sput a ?s S) a = Some ?s" by simp
  obtain S1 where S1: "local_socket_destroy a (sput a ?s S) = Inr S1" "wfx ({q} - {a}) S1" "closed1 a (sput a ?s S) S1" "socks S1 a = None"
    using destroy_returns [OF d(2) sa _ _ d(3)] a(2,4) by (auto simp: is_local_def)
  have close_a: "sock_close (Suc (Suc (Suc 0))) a (sput a ?s S) = Inr S1"
    using S1(1) a(2,3) by (simp add: sock_close_step [OF sa] local_socket_close_def local_socket_finish_def sget_def)
  have w1: "wfx {q} S1" using S1(2) d(1) by (simp add: insert_Diff_if)
  have c1: "closed1 a S S1" using S1(3) by (simp add: closed1_def)
  note e = after_drop [OF w1 c1 q(1,3) d(1)]
  have sq: "socks (sput q ?qs S1) q = Some ?qs" by simp
  obtain S2 where S2: "local_socket_destroy q (sput q ?qs S1) = Inr S2" "closed1 q (sput q ?qs S1) S2" "socks S2 q = None"
    using destroy_returns [OF e(3) sq _ _ e(4)] q(2,5) by (auto simp: is_local_def)
  have "socks S2 a = None" using S2(2) S1(4) d(1) by (simp add: closed1_def)
  moreover have "close_socket q S = Inr S2"
    using S2(1) close_a sh q a(1) e(1)
    by (simp add: CLOSE_DEPTH_def numeral_eq_Suc sock_close_step [OF q(1)] local_socket_close_def drop_peer_def
        local_socket_finish_def sget_def)
  ultimately show ?thesis using S2(3) by blast
qed

text \<open>
  C39: a failed write between two local sockets is a use after free. Whenever a local socket has read
  data for a peer that is a local socket too, neither of them has packets waiting, and the peer's
  write of the data fails, local\_socket\_enqueue closes the peer, which closes and frees the
  reader, and returns 1; the event handler takes the 1 for a backlog and goes on with the freed
  reader. (Sockets whose close is still to notify the client or to end the process are left out.)
\<close>

theorem local_peer_write_error_use_after_free:
  assumes "wf S" and a: "socks S a = Some s" "cls_fn s = local_socket_close_fn" "peer s = Some q" "pkts s = []" "\<not> exit_on_close s"
    and q: "socks S q = Some qs" "cls_fn qs = local_socket_close_fn" "pkts qs = []" "\<not> exit_on_close qs"
    and m: "get_max_payload a S = Inr m" and rd: "read_in m (fdtab S fd) [] = (st, bytes, f)" "bytes \<noteq> []"
    and wr: "write_out (get_apacket\<lparr>p_data := bytes, p_len := length bytes\<rparr>) (((fdtab S)(fd := f)) (sk_fd qs)) = (WFailed, p1, f1)"
  shows "local_socket_event_func env (Suc fuel) a fd FDE_READ S = Inl (InvalidAccess a)"
proof -
  let ?p = "get_apacket\<lparr>p_data := bytes, p_len := length bytes\<rparr>"
  let ?S1 = "S\<lparr>fdtab := (fdtab S)(fd := f)\<rparr>"
  let ?qs = "qs\<lparr>has_write_error := True\<rparr>"
  let ?S2 = "sput q ?qs (?S1\<lparr>fdtab := (fdtab ?S1)(sk_fd qs := f1)\<rparr>)"
  have pq: "peer qs = Some a" "q \<noteq> a" using detach [OF assms(1) a(1,3)] q(1) by auto
  have "wf (?S1\<lparr>fdtab := (fdtab ?S1)(sk_fd qs := f1)\<rparr>)" using assms(1) by simp
  then have "wf ?S2"
    by (rule wfx_sput_same) (use q(1) wfxD(1) [OF assms(1) q(1)] in \<open>auto simp: wf_same_def is_local_def sock_ok_def\<close>)
  then obtain S3 where S3: "close_socket q ?S2 = Inr S3" "socks S3 a = None"
    using close_pair_frees [of ?S2 q ?qs a s] a q pq by auto
  have enq: "enq_fn qs = local_socket_enqueue_fn" using wfxD(1) [OF assms(1) q(1)] q(2) by (simp add: sock_ok_def is_local_def)
  have p0: "?p\<lparr>p_ptr := 0\<rparr> = ?p" by (simp add: get_apacket_def)
  have "local_socket_enqueue q ?p ?S1 = Inr (1, S3)"
    using S3(1) q(1,3) wr unfolding local_socket_enqueue_def p0 by (simp add: sget_def Let_def)
  then have "sock_enqueue env (Suc fuel) q ?p ?S1 = Inr (1, S3)" using q(1) enq by (simp add: sget_def)
  then have "event_read env (Suc fuel) a fd S = Inl (InvalidAccess a)"
    unfolding event_read_def m using rd S3(2) a(1,3) by (simp add: sget_def deref_def Let_def del: sock_enqueue.simps)
  then show ?thesis by (simp add: local_socket_event_func_def fde_flags)
qed

theorem local_peer_write_error_use_after_free_witness:
  "\<exists>S :: sstate. wf S \<and> ids_ok S \<and> 1 \<in> set (local_socket_list S) \<and> wscript (fdtab S 6) = [WErr EPIPE] \<and>
    (\<forall>env fuel. local_socket_event_func env (Suc fuel) 1 5 FDE_READ S = Inl (InvalidAccess 1))"
proof -
  let ?fs = "(\<lambda>_ :: fd. quiet_fd)(5 := quiet_fd\<lparr>rscript := [RData ''x'']\<rparr>, 6 := quiet_fd\<lparr>wscript := [WErr EPIPE]\<rparr>)"
  let ?S = "demo_pair ?fs"
  let ?p = "get_apacket\<lparr>p_data := ''x'', p_len := length ''x''\<rparr>"
  have m: "get_max_payload 1 ?S = Inr MAX_PAYLOAD"
    by (simp add: get_max_payload_def sget_def demo_sock_def blank_socket_def transport_payload_def)
  have rd: "read_in MAX_PAYLOAD (fdtab ?S 5) [] = (RBlocked, ''x'', quiet_fd)"
    by (simp add: read_in.simps adb_read_def quiet_fd_def MAX_PAYLOAD_def MAX_PAYLOAD_V2_def)
  have wr: "write_out ?p (((fdtab ?S)(5 := quiet_fd)) (sk_fd ((demo_sock 2 6)\<lparr>peer := Some 1\<rparr>))) = (WFailed, ?p, quiet_fd)"
    by (simp add: write_out.simps adb_write_def quiet_fd_def demo_sock_def blank_socket_def get_apacket_def)
  have s: "socks ?S 1 = Some ((demo_sock 1 5)\<lparr>peer := Some 2\<rparr>)" "socks ?S 2 = Some ((demo_sock 2 6)\<lparr>peer := Some 1\<rparr>)" by simp_all
  have f: "cls_fn ((demo_sock i fd)\<lparr>peer := x\<rparr>) = local_socket_close_fn" "pkts ((demo_sock i fd)\<lparr>peer := x\<rparr>) = []"
    "\<not> exit_on_close ((demo_sock i fd)\<lparr>peer := x\<rparr>)" for i fd x by (simp_all add: demo_sock_def blank_socket_def)
  have "local_socket_event_func env (Suc fuel) 1 5 FDE_READ ?S = Inl (InvalidAccess 1)" for env fuel
    using local_peer_write_error_use_after_free [OF demo_pair_wf s(1) f(1) _ f(2,3) s(2) f m rd _ wr] by simp
  then show ?thesis using demo_pair_wf [of ?fs] demo_pair_ids [of ?fs] by (intro exI [of _ ?S]) (simp add: quiet_fd_def)
qed

end
