(* ===== verification/Listeners.thy ===== *)
theory Listeners
  imports Sockets_Props
begin

text \<open>
  adb\_listeners.cpp: the listening sockets behind forward and reverse and behind the server's own
  port. listener\_list owns its listeners, so it is a list of objects with their addresses, and
  erasing an element runs the destructor. A listener's fdevent has the listener's address in
  \<open>lfds\<close>; its adisconnect is known by the same address, and 0 is the static usb\_disconnect of
  adbd\_auth.cpp. The state of the sockets is extended by the listeners.
\<close>

datatype InstallStatus =
    INSTALL_STATUS_OK | INSTALL_STATUS_INTERNAL_ERROR | INSTALL_STATUS_CANNOT_BIND
  | INSTALL_STATUS_CANNOT_REBIND | INSTALL_STATUS_LISTENER_NOT_FOUND

record alistener =
  l_fd :: fd
  local_name :: string
  connect_to :: string
  l_transport :: "addr option"

record lstate = sstate +
  listener_list :: "(addr \<times> alistener) list"
  lfds :: "addr fdsys"
  l_next :: addr

record listen_env =
  le_base :: libbase
  le_net :: net_ops
  le_all :: bool
  le_types :: "(string \<times> socket_namespace \<times> bool) list"

definition upd_tr :: "addr \<Rightarrow> (atransport \<Rightarrow> atransport) \<Rightarrow> 'x sstate_scheme \<Rightarrow> 'x sstate_scheme res" where
  "upd_tr t f S = bindR (get_tr t (reg S)) (\<lambda>T. Inr (S\<lparr>reg := put_tr t (f T) (reg S)\<rparr>))"

text \<open>\<open>connect_to[0] == '*'\<close>: the server's own listener.\<close>

definition starred :: "string \<Rightarrow> bool" where
  "starred s \<longleftrightarrow> (case s of [] \<Rightarrow> False | c # _ \<Rightarrow> c = CHR ''*'')"

section \<open>Operations\<close>

text \<open>The destructor: the fdevent goes (and closes the descriptor), then the disconnect entry.\<close>

definition destroy_listener :: "addr \<times> alistener \<Rightarrow> 'x lstate_scheme \<Rightarrow> 'x lstate_scheme res" where
  "destroy_listener x L =
    bindR (fdevent_remove (fst x) (lfds L)) (\<lambda>F.
      let L1 = L\<lparr>lfds := F\<lparr>fdes := (fdes F)(fst x := None)\<rparr>\<rparr> in
      case l_transport (snd x) of
        None \<Rightarrow> Inr L1
      | Some t \<Rightarrow> upd_tr t (RemoveDisconnect (fst x)) L1)"

definition erase_listener :: "addr \<times> alistener \<Rightarrow> 'x lstate_scheme \<Rightarrow> 'x lstate_scheme res" where
  "erase_listener x L = destroy_listener x (L\<lparr>listener_list := remove1 x (listener_list L)\<rparr>)"

definition ss_listener_event_func ::
    "'x lstate_ext smart_env \<Rightarrow> nat \<Rightarrow> u16 \<Rightarrow> fd option \<Rightarrow> 'x lstate_scheme \<Rightarrow> 'x lstate_scheme res" where
  "ss_listener_event_func env fuel ev accepted L =
    (if flag ev FDE_READ then
       (case accepted of
          None \<Rightarrow> Inr L
        | Some fd \<Rightarrow>
            bindR (create_local_socket fd L) (\<lambda>(s, L1). connect_to_smartsocket env fuel s L1))
     else Inr L)"

definition listener_event_func :: "addr \<Rightarrow> u16 \<Rightarrow> fd option \<Rightarrow> 'x lstate_scheme \<Rightarrow> 'x lstate_scheme res" where
  "listener_event_func a ev accepted L =
    (if flag ev FDE_READ then
       (case accepted of
          None \<Rightarrow> Inr L
        | Some fd \<Rightarrow>
            bindR (create_local_socket fd L) (\<lambda>(s, L1).
              case map_of (listener_list L1) a of
                None \<Rightarrow> Inl (InvalidAccess a)
              | Some l \<Rightarrow>
                  bindR (sget s L1) (\<lambda>ss.
                    connect_to_remote s (connect_to l) (sput s (ss\<lparr>sk_transport := l_transport l\<rparr>) L1))))
     else Inr L)"

text \<open>Called by RunDisconnects of a transport: the listener forgets the transport and is erased.\<close>

definition listener_disconnect :: "addr \<Rightarrow> 'x lstate_scheme \<Rightarrow> 'x lstate_scheme res" where
  "listener_disconnect arg L =
    (case map_of (listener_list L) arg of
       None \<Rightarrow> Inr L
     | Some l \<Rightarrow>
         destroy_listener (arg, l\<lparr>l_transport := None\<rparr>)
           (L\<lparr>listener_list := remove1 (arg, l) (listener_list L)\<rparr>))"

fun format_list :: "'x lstate_scheme \<Rightarrow> (addr \<times> alistener) list \<Rightarrow> string res" where
  "format_list L [] = Inr []"
| "format_list L ((a, l) # ls) =
    (if starred (connect_to l) then format_list L ls
     else bindR (deref (l_transport l)) (\<lambda>t.
          bindR (get_tr t (reg L)) (\<lambda>T.
          bindR (format_list L ls) (\<lambda>rest.
            Inr ((case serial T of Some s \<Rightarrow> s | None \<Rightarrow> ''(reverse)'') @ '' '' @ local_name l @ '' '' @
                 connect_to l @ [CHR 0x0A] @ rest)))))"

definition format_listeners :: "'x lstate_scheme \<Rightarrow> string res" where
  "format_listeners L = format_list L (listener_list L)"

definition named :: "string \<Rightarrow> 'x lstate_scheme \<Rightarrow> (addr \<times> alistener) option" where
  "named n L = find (\<lambda>x. local_name (snd x) = n) (listener_list L)"

definition remove_listener :: "string \<Rightarrow> 'x lstate_scheme \<Rightarrow> (InstallStatus \<times> 'x lstate_scheme) res" where
  "remove_listener name L =
    (case named name L of
       Some x \<Rightarrow> bindR (erase_listener x L) (\<lambda>L1. Inr (INSTALL_STATUS_OK, L1))
     | None \<Rightarrow> Inr (INSTALL_STATUS_LISTENER_NOT_FOUND, L))"

fun erase_each :: "(addr \<times> alistener) list \<Rightarrow> 'x lstate_scheme \<Rightarrow> 'x lstate_scheme res" where
  "erase_each [] L = Inr L"
| "erase_each (x # xs) L =
    (if starred (connect_to (snd x)) then erase_each xs L
     else bindR (erase_listener x L) (erase_each xs))"

definition remove_all_listeners :: "'x lstate_scheme \<Rightarrow> 'x lstate_scheme res" where
  "remove_all_listeners L = erase_each (listener_list L) L"

text \<open>
  \<open>erase(remove_if(...))\<close> erases one element at the position remove\_if returns: with no match
  that is end(), which erase must not be given. Names are distinct, so there is at most one match.
\<close>

definition close_smartsockets :: "'x lstate_scheme \<Rightarrow> 'x lstate_scheme res" where
  "close_smartsockets L =
    (case filter (\<lambda>x. local_name (snd x) = ''*smartsocket*'') (listener_list L) of
       [] \<Rightarrow> Inl OutOfBounds
     | [x] \<Rightarrow> erase_listener x L
     | _ \<Rightarrow> Inl NullDeref)"

text \<open>A listener of the name exists already: its target is changed.\<close>

definition rebind_listener ::
    "addr \<times> alistener \<Rightarrow> string \<Rightarrow> addr option \<Rightarrow> bool \<Rightarrow> 'x lstate_scheme \<Rightarrow>
     (InstallStatus \<times> string \<times> int \<times> 'x lstate_scheme) res" where
  "rebind_listener x target transport no_rebind L =
    (case x of (a, l) \<Rightarrow>
      if starred (connect_to l) then Inr (INSTALL_STATUS_INTERNAL_ERROR, ''cannot repurpose smartsocket'', 0, L)
      else if no_rebind then Inr (INSTALL_STATUS_CANNOT_REBIND, ''cannot rebind'', 0, L)
      else
        bindR (if l_transport l \<noteq> transport then
                 bindR (deref (l_transport l)) (\<lambda>t0.
                 bindR (upd_tr t0 (RemoveDisconnect a) L) (\<lambda>L1.
                 bindR (deref transport) (\<lambda>t. upd_tr t (AddDisconnect a) L1)))
               else Inr L) (\<lambda>L2.
          Inr (INSTALL_STATUS_OK, [], 0,
            L2\<lparr>listener_list := map (\<lambda>y. if y = x then (a, l\<lparr>connect_to := target, l_transport := transport\<rparr>) else y)
                 (listener_list L2)\<rparr>)))"

definition new_listener ::
    "listen_env \<Rightarrow> string \<Rightarrow> string \<Rightarrow> addr option \<Rightarrow> 'x lstate_scheme \<Rightarrow>
     (InstallStatus \<times> string \<times> int \<times> 'x lstate_scheme) res" where
  "new_listener env name target transport L =
    (case socket_spec_listen (le_base env) (le_net env) (le_all env) (le_types env) name of
       Inl error \<Rightarrow> Inr (INSTALL_STATUS_CANNOT_BIND, error, 0, L)
     | Inr (fd, resolved) \<Rightarrow>
         if fd < 0 then Inr (INSTALL_STATUS_CANNOT_BIND, [], 0, L)
         else
           let a = l_next L;
               l = \<lparr>l_fd = fd, local_name = (if resolved \<noteq> 0 then ''tcp:'' @ dec_of_int resolved else name),
                    connect_to = target, l_transport = transport\<rparr> in
           bindR (fdevent_install a fd a (lfds L)) (\<lambda>F.
           bindR (fdevent_set a FDE_READ F) (\<lambda>F1.
           let L1 = L\<lparr>lfds := F1, l_next := a + 1\<rparr> in
           bindR (case transport of None \<Rightarrow> Inr L1 | Some t \<Rightarrow> upd_tr t (AddDisconnect a) L1) (\<lambda>L2.
             Inr (INSTALL_STATUS_OK, [], resolved, L2\<lparr>listener_list := listener_list L2 @ [(a, l)]\<rparr>)))))"

definition install_listener ::
    "listen_env \<Rightarrow> string \<Rightarrow> string \<Rightarrow> addr option \<Rightarrow> bool \<Rightarrow> 'x lstate_scheme \<Rightarrow>
     (InstallStatus \<times> string \<times> int \<times> 'x lstate_scheme) res" where
  "install_listener env name target transport no_rebind L =
    (case named name L of
       Some x \<Rightarrow> rebind_listener x target transport no_rebind L
     | None \<Rightarrow> new_listener env name target transport L)"

end
