(* ===== verification/Listeners_Inv.thy ===== *)
theory Listeners_Inv
  imports Listeners
begin

text \<open>
  The invariant of the listeners: every listener has an active fdevent of its own and is entered,
  once, with the transport it forwards to, and transports hold no other listener's entry. It is
  kept by every operation, so that a transport that disconnects takes exactly its own listeners
  with it and no listener points at a transport that is gone.
\<close>

section \<open>Disconnect entries\<close>

definition discs :: "'x lstate_scheme \<Rightarrow> addr \<Rightarrow> addr list" where
  "discs L t = (case trs (reg L) t of None \<Rightarrow> [] | Some T \<Rightarrow> disconnects T)"

definition set_disc :: "(addr \<Rightarrow> addr list) \<Rightarrow> 'x lstate_scheme \<Rightarrow> 'x lstate_scheme" where
  "set_disc D L = L\<lparr>reg := (reg L)\<lparr>trs := (\<lambda>t. map_option (\<lambda>T. T\<lparr>disconnects := D t\<rparr>) (trs (reg L) t))\<rparr>\<rparr>"

lemma set_disc_simps [simp]:
  "listener_list (set_disc D L) = listener_list L" "lfds (set_disc D L) = lfds L" "l_next (set_disc D L) = l_next L"
  "dom (trs (reg (set_disc D L))) = dom (trs (reg L))"
  "trs (reg L) t \<noteq> None \<Longrightarrow> discs (set_disc D L) t = D t"
  by (auto simp: set_disc_def discs_def dom_def)

lemma upd_tr_disc:
  assumes "trs (reg L) t = Some T" and "f T = T\<lparr>disconnects := xs\<rparr>"
  shows "upd_tr t f L = Inr (set_disc ((discs L)(t := xs)) L)"
proof -
  have "(trs (reg L))(t \<mapsto> f T) =
      (\<lambda>u. map_option (\<lambda>T. T\<lparr>disconnects := ((discs L)(t := xs)) u\<rparr>) (trs (reg L) u))"
    using assms by (auto simp: fun_eq_iff discs_def split: option.splits)
  then show ?thesis using assms(1) by (simp add: upd_tr_def get_tr_def set_disc_def put_tr_def)
qed

lemma discs_upd [simp]:
  "discs (L\<lparr>listener_list := ls\<rparr>) = discs L" "discs (L\<lparr>lfds := F\<rparr>) = discs L"
  "discs (L\<lparr>l_next := n\<rparr>) = discs L"
  by (auto simp: discs_def fun_eq_iff split: option.splits)

lemma discs_None [simp]: "trs (reg L) t = None \<Longrightarrow> discs L t = []"
  and discs_Some: "trs (reg L) t = Some T \<Longrightarrow> discs L t = disconnects T"
  by (simp_all add: discs_def)

lemma trs_set_disc_None [simp]: "trs (reg (set_disc D L)) t = None \<longleftrightarrow> trs (reg L) t = None"
  by (simp add: set_disc_def)

lemma discs_set_disc: "discs (set_disc D L) t = (if trs (reg L) t = None then [] else D t)"
  by (auto simp: set_disc_def discs_def split: option.splits)

section \<open>The invariant\<close>

definition listener_ok :: "'x lstate_scheme \<Rightarrow> addr \<times> alistener \<Rightarrow> bool" where
  "listener_ok L x \<longleftrightarrow>
    0 < fst x \<and> fst x < l_next L \<and> fde_active (fst x) (lfds L) \<and>
    (l_transport (snd x) = None \<longleftrightarrow> starred (connect_to (snd x))) \<and>
    local_name (snd x) \<noteq> ''*smartsocket*'' \<and>
    (\<forall>t. l_transport (snd x) = Some t \<longrightarrow>
       t \<in> dom (trs (reg L)) \<and> count_list (discs L t) (fst x) = 1)"

definition linv :: "'x lstate_scheme \<Rightarrow> bool" where
  "linv L \<longleftrightarrow>
    fd_inv (lfds L) \<and> distinct (map fst (listener_list L)) \<and> 0 < l_next L \<and>
    (\<forall>x \<in> set (listener_list L). listener_ok L x) \<and>
    (\<forall>a. a \<notin> fst ` set (listener_list L) \<longrightarrow> fde_idle a (lfds L)) \<and>
    (\<forall>t d. d \<in> set (discs L t) \<longrightarrow> d \<noteq> 0 \<longrightarrow> (\<exists>l. (d, l) \<in> set (listener_list L) \<and> l_transport l = Some t))"

lemma linvD:
  assumes "linv L"
  shows "fd_inv (lfds L)" and "distinct (map fst (listener_list L))" and "0 < l_next L"
    and "x \<in> set (listener_list L) \<Longrightarrow> listener_ok L x"
    and "a \<notin> fst ` set (listener_list L) \<Longrightarrow> fde_idle a (lfds L)"
    and "d \<in> set (discs L t) \<Longrightarrow> d \<noteq> 0 \<Longrightarrow> \<exists>l. (d, l) \<in> set (listener_list L) \<and> l_transport l = Some t"
  using assms unfolding linv_def by blast+

lemma linv_distinct: "linv L \<Longrightarrow> distinct (listener_list L)"
  using linvD(2) by (metis distinct_map)

lemma linv_map_of: "linv L \<Longrightarrow> map_of (listener_list L) a = Some l \<longleftrightarrow> (a, l) \<in> set (listener_list L)"
  using linvD(2) by (auto dest: map_of_SomeD)

lemma linv_same_addr: "linv L \<Longrightarrow> x \<in> set (listener_list L) \<Longrightarrow> y \<in> set (listener_list L) \<Longrightarrow> fst x = fst y \<Longrightarrow> x = y"
  using linvD(2) by (metis distinct_map inj_onD)

lemma count_list_removeAll [simp]: "count_list (removeAll x xs) y = (if x = y then 0 else count_list xs y)"
  by (induction xs) auto

section \<open>Erasing\<close>

text \<open>
  A listener leaves the list; \<open>D\<close> are the disconnect entries afterwards, without the listener's own.
\<close>

lemma linv_erase:
  assumes inv: "linv L" and x: "x \<in> set (listener_list L)"
    and F: "fd_inv F" "fde_idle (fst x) F"
      "\<And>b. b \<noteq> fst x \<Longrightarrow> fde_active b F = fde_active b (lfds L) \<and> fde_idle b F = fde_idle b (lfds L)"
    and L': "listener_list L' = remove1 x (listener_list L)" "lfds L' = F" "l_next L' = l_next L"
      "dom (trs (reg L')) = dom (trs (reg L))"
    and D: "\<And>t. discs L' t = removeAll (fst x) (discs L t) \<or> fst x \<notin> set (discs L t) \<and> discs L' t = discs L t"
  shows "linv L'"
proof -
  have set: "set (listener_list L') = set (listener_list L) - {x}"
    using set_remove1_eq [OF linv_distinct [OF inv]] L'(1) by simp
  have ne: "fst y \<noteq> fst x" if "y \<in> set (listener_list L')" for y
    using that set linv_same_addr [OF inv _ x] by blast
  have count: "count_list (discs L' t) a = count_list (discs L t) a" if "a \<noteq> fst x" for a t
    using D [of t] that by auto
  have ok: "listener_ok L' y" if "y \<in> set (listener_list L')" for y
    using linvD(4) [OF inv, of y] that set ne [OF that] F(3) [OF ne [OF that]] count [OF ne [OF that]] L'
    by (auto simp: listener_ok_def)
  have idle: "fde_idle a (lfds L')" if "a \<notin> fst ` set (listener_list L')" for a
  proof (cases "a = fst x")
    case False
    then have "a \<notin> fst ` set (listener_list L)" using that set by force
    then show ?thesis using linvD(5) [OF inv] F(3) [OF False] L'(2) by simp
  qed (use F(2) L'(2) in simp)
  have entry: "\<exists>l. (d, l) \<in> set (listener_list L') \<and> l_transport l = Some t"
    if d: "d \<in> set (discs L' t)" "d \<noteq> 0" for d t
  proof -
    have dx: "d \<noteq> fst x" and "d \<in> set (discs L t)" using d(1) D [of t] by auto
    then obtain l where "(d, l) \<in> set (listener_list L)" "l_transport l = Some t"
      using linvD(6) [OF inv _ d(2)] by blast
    then show ?thesis using set dx by fastforce
  qed
  have "distinct (map fst (listener_list L'))"
    using linvD(2) [OF inv] L'(1) by (simp add: distinct_map distinct_remove1 set inj_on_diff)
  then show ?thesis using ok idle entry F(1) L' linvD(3) [OF inv] unfolding linv_def by simp
qed

text \<open>Removing the fdevent and its object.\<close>

lemma fde_gone:
  assumes "fd_inv F" and "fde_active a F"
  shows "\<exists>F1. fdevent_remove a F = Inr F1 \<and> fd_inv (F1\<lparr>fdes := (fdes F1)(a := None)\<rparr>) \<and>
    fde_idle a (F1\<lparr>fdes := (fdes F1)(a := None)\<rparr>) \<and>
    (\<forall>b. b \<noteq> a \<longrightarrow> fde_active b (F1\<lparr>fdes := (fdes F1)(a := None)\<rparr>) = fde_active b F \<and>
       fde_idle b (F1\<lparr>fdes := (fdes F1)(a := None)\<rparr>) = fde_idle b F)"
proof -
  from fd_reg.remove_ok [OF assms] obtain F1 where F1: "fdevent_remove a F = Inr F1" "fd_inv F1" "fde_idle a F1"
    "\<And>b. b \<noteq> a \<Longrightarrow> fde_active b F1 = fde_active b F \<and> fde_idle b F1 = fde_idle b F" by blast
  then show ?thesis using fd_inv_free [OF F1(2,3)] by (auto simp: fdes_free)
qed

text \<open>\<open>same_but\<close>: the sockets and transports are as before except for disconnect entries.\<close>

definition same_but :: "'x lstate_scheme \<Rightarrow> 'x lstate_scheme \<Rightarrow> bool" where
  "same_but L L' \<longleftrightarrow> (\<exists>D ls F n. L' = (set_disc D L)\<lparr>listener_list := ls, lfds := F, l_next := n\<rparr>)"

lemma same_butI: "L' = (set_disc D L)\<lparr>listener_list := ls, lfds := F, l_next := n\<rparr> \<Longrightarrow> same_but L L'"
  unfolding same_but_def by blast

lemma set_disc_self: "set_disc (discs L) L = L"
proof -
  have "trs (reg L) = (\<lambda>t. map_option (\<lambda>T. T\<lparr>disconnects := discs L t\<rparr>) (trs (reg L) t))"
    by (auto simp: fun_eq_iff discs_def split: option.splits)
  then show ?thesis by (simp add: set_disc_def)
qed

lemma same_but_own: "same_but L (L\<lparr>listener_list := ls, lfds := F, l_next := n\<rparr>)"
  by (rule same_butI [where D = "discs L"]) (simp add: set_disc_self)

lemma same_but_refl: "same_but L L"
  using same_but_own [where L = L and ls = "listener_list L" and F = "lfds L" and n = "l_next L"] by simp

lemma same_but_trans: "same_but L L1 \<Longrightarrow> same_but L1 L2 \<Longrightarrow> same_but L L2"
proof -
  assume "same_but L L1" "same_but L1 L2"
  then obtain D D' ls F n ls' F' n' where
    "L1 = (set_disc D L)\<lparr>listener_list := ls, lfds := F, l_next := n\<rparr>"
    "L2 = (set_disc D' L1)\<lparr>listener_list := ls', lfds := F', l_next := n'\<rparr>" unfolding same_but_def by blast
  then have "L2 = (set_disc D' L)\<lparr>listener_list := ls', lfds := F', l_next := n'\<rparr>"
    by (simp add: set_disc_def option.map_comp comp_def)
  then show ?thesis by (rule same_butI)
qed

lemma same_but_parts [simp]:
  "same_but L (L\<lparr>listener_list := ls\<rparr>)" "same_but L (L\<lparr>listener_list := ls, lfds := F\<rparr>)"
  "same_but L (L\<lparr>lfds := F, l_next := n\<rparr>)" "same_but L (set_disc D L)"
proof -
  have own: "same_but L L'" if "L' = L\<lparr>listener_list := ls', lfds := F', l_next := n'\<rparr>" for L' ls' F' n'
    using that same_but_own by blast
  show "same_but L (L\<lparr>listener_list := ls\<rparr>)" by (rule own [where F' = "lfds L" and n' = "l_next L"]) simp
  show "same_but L (L\<lparr>listener_list := ls, lfds := F\<rparr>)" by (rule own [where n' = "l_next L"]) simp
  show "same_but L (L\<lparr>lfds := F, l_next := n\<rparr>)" by (rule own [where ls' = "listener_list L"]) simp
  show "same_but L (set_disc D L)"
    by (rule same_butI [where ls = "listener_list L" and F = "lfds L" and n = "l_next L"]) (simp add: set_disc_def)
qed

lemma same_but_dom: "same_but L L' \<Longrightarrow> dom (trs (reg L')) = dom (trs (reg L))"
  unfolding same_but_def using set_disc_simps(4) by force

lemma erase_listener_ok:
  assumes inv: "linv L" and x: "x \<in> set (listener_list L)"
  shows "\<exists>L'. erase_listener x L = Inr L' \<and> linv L' \<and> listener_list L' = remove1 x (listener_list L) \<and> same_but L L'"
proof -
  have ok: "listener_ok L x" using linvD(4) [OF inv x] .
  then have act: "fde_active (fst x) (lfds L)" by (simp add: listener_ok_def)
  from fde_gone [OF linvD(1) [OF inv] act] obtain F1 where F1: "fdevent_remove (fst x) (lfds L) = Inr F1"
    and F: "fd_inv (F1\<lparr>fdes := (fdes F1)(fst x := None)\<rparr>)" "fde_idle (fst x) (F1\<lparr>fdes := (fdes F1)(fst x := None)\<rparr>)"
      "\<And>b. b \<noteq> fst x \<Longrightarrow> fde_active b (F1\<lparr>fdes := (fdes F1)(fst x := None)\<rparr>) = fde_active b (lfds L) \<and>
         fde_idle b (F1\<lparr>fdes := (fdes F1)(fst x := None)\<rparr>) = fde_idle b (lfds L)" by blast
  let ?F = "F1\<lparr>fdes := (fdes F1)(fst x := None)\<rparr>"
  let ?L1 = "L\<lparr>listener_list := remove1 x (listener_list L), lfds := ?F\<rparr>"
  have other: "fst x \<notin> set (discs L t)" if "l_transport (snd x) \<noteq> Some t" for t
  proof
    assume "fst x \<in> set (discs L t)"
    then obtain l where "(fst x, l) \<in> set (listener_list L)" "l_transport l = Some t"
      using linvD(6) [OF inv, of "fst x" t] ok unfolding listener_ok_def by blast
    then show False using linv_same_addr [OF inv x, of "(fst x, l)"] that by (cases x) simp
  qed
  show ?thesis
  proof (cases "l_transport (snd x)")
    case None
    have "linv ?L1" by (rule linv_erase [OF inv x F]) (use other None in auto)
    then show ?thesis using F1 None
      by (auto simp: erase_listener_def destroy_listener_def Let_def )
  next
    case (Some t)
    then obtain T where T: "trs (reg L) t = Some T" using ok by (auto simp: listener_ok_def)
    let ?D = "(discs L)(t := removeAll (fst x) (disconnects T))"
    have up: "upd_tr t (RemoveDisconnect (fst x)) ?L1 = Inr (set_disc ?D ?L1)"
      using upd_tr_disc [of ?L1 t T] T by (simp add: RemoveDisconnect_def)
    have "linv (set_disc ?D ?L1)"
    proof (rule linv_erase [OF inv x F])
      fix u
      show "discs (set_disc ?D ?L1) u = removeAll (fst x) (discs L u) \<or>
          fst x \<notin> set (discs L u) \<and> discs (set_disc ?D ?L1) u = discs L u"
        using T other [of u] Some discs_Some [OF T] by (cases "u = t") (auto simp: discs_set_disc)
    qed (use set_disc_simps(4) in auto)
    moreover have "same_but L (set_disc ?D ?L1)" by (rule same_but_trans [of L ?L1]) simp_all
    ultimately show ?thesis using F1 Some up
      by (auto simp: erase_listener_def destroy_listener_def Let_def)
  qed
qed

section \<open>Adding and changing\<close>

text \<open>
  One listener \<open>(a, l)\<close> is new or changed, the others stay; entries are compared by how often they
  occur with each transport.
\<close>

lemma linv_put:
  assumes inv: "linv L" and a: "0 < a" "a < l_next L'" and nx: "l_next L \<le> l_next L'"
    and set: "set (listener_list L') = insert (a, l) {y \<in> set (listener_list L). fst y \<noteq> a}"
    and dist: "distinct (map fst (listener_list L'))"
    and F: "fd_inv (lfds L')" "fde_active a (lfds L')"
      "\<And>b. b \<noteq> a \<Longrightarrow> fde_active b (lfds L') = fde_active b (lfds L) \<and> fde_idle b (lfds L') = fde_idle b (lfds L)"
    and l: "l_transport l = None \<longleftrightarrow> starred (connect_to l)" "local_name l \<noteq> ''*smartsocket*''"
      "\<And>t. l_transport l = Some t \<Longrightarrow> t \<in> dom (trs (reg L))"
    and D: "\<And>t d. d \<noteq> a \<Longrightarrow> count_list (discs L' t) d = count_list (discs L t) d"
      "\<And>t. count_list (discs L' t) a = (if l_transport l = Some t then 1 else 0)"
    and dom: "dom (trs (reg L')) = dom (trs (reg L))"
  shows "linv L'"
proof -
  have ok: "listener_ok L' y" if y: "y \<in> set (listener_list L')" for y
  proof (cases "fst y = a")
    case True
    then have "y = (a, l)" using y set by auto
    then show ?thesis using a F(2) l D(2) dom by (simp add: listener_ok_def)
  next
    case False
    then have "y \<in> set (listener_list L)" using y set by auto
    then have "listener_ok L y" using linvD(4) [OF inv] by blast
    then show ?thesis using nx F(3) [OF False] D(1) [OF False] dom by (auto simp: listener_ok_def)
  qed
  have idle: "fde_idle b (lfds L')" if "b \<notin> fst ` set (listener_list L')" for b
  proof -
    have "b \<noteq> a" and "b \<notin> fst ` set (listener_list L)" using that set by force+
    then show ?thesis using linvD(5) [OF inv] F(3) by blast
  qed
  have mem: "d \<in> set xs \<longleftrightarrow> count_list xs d \<noteq> 0" for d :: addr and xs by (simp add: count_list_0_iff)
  have entry: "\<exists>l'. (d, l') \<in> set (listener_list L') \<and> l_transport l' = Some t"
    if d: "d \<in> set (discs L' t)" "d \<noteq> 0" for d t
  proof (cases "d = a")
    case True
    then have "l_transport l = Some t" using d(1) D(2) [of t] by (simp add: mem split: if_splits)
    then show ?thesis using True set by blast
  next
    case False
    then have "d \<in> set (discs L t)" using d(1) D(1) by (simp add: mem)
    then show ?thesis using linvD(6) [OF inv _ d(2)] set False by force
  qed
  have "0 < l_next L'" using linvD(3) [OF inv] nx by simp
  with ok idle entry F(1) dist show ?thesis unfolding linv_def by blast
qed

lemma linv_fresh: "linv L \<Longrightarrow> l_next L \<notin> fst ` set (listener_list L)"
  using linvD(4) by (fastforce simp: listener_ok_def)

text \<open>An address that is not listed with the transport has no entry there.\<close>

lemma linv_no_entry:
  assumes inv: "linv L" and "0 < a" and "\<And>l. (a, l) \<in> set (listener_list L) \<Longrightarrow> l_transport l \<noteq> Some t"
  shows "a \<notin> set (discs L t)" and "count_list (discs L t) a = 0"
  using linvD(6) [OF inv, of a t] assms(2,3) by (auto simp: count_list_0_iff)

lemma new_listener_ok:
  assumes inv: "linv L" and tr: "transport = None \<longleftrightarrow> starred target"
    and live: "\<And>t. transport = Some t \<Longrightarrow> t \<in> dom (trs (reg L))"
    and sp: "socket_spec_listen (le_base env) (le_net env) (le_all env) (le_types env) name = Inr (fd, resolved)"
      "0 \<le> fd" "poll_map (lfds L) fd = None" and nm: "name \<noteq> ''*smartsocket*''"
  shows "\<exists>L'. new_listener env name target transport L = Inr (INSTALL_STATUS_OK, [], resolved, L') \<and> linv L' \<and>
    same_but L L' \<and> listener_list L' = listener_list L @ [(l_next L, \<lparr>l_fd = fd,
      local_name = (if resolved \<noteq> 0 then ''tcp:'' @ dec_of_int resolved else name),
      connect_to = target, l_transport = transport\<rparr>)]"
proof -
  let ?a = "l_next L"
  let ?l = "\<lparr>l_fd = fd, local_name = (if resolved \<noteq> 0 then ''tcp:'' @ dec_of_int resolved else name),
      connect_to = target, l_transport = transport\<rparr>"
  have fresh: "?a \<notin> fst ` set (listener_list L)" using linv_fresh [OF inv] .
  have idle: "fde_idle ?a (lfds L)" using linvD(5) [OF inv fresh] .
  obtain F where F: "fdevent_install ?a fd ?a (lfds L) = Inr F"
    using sp(2,3) by (simp add: fdevent_install_def Let_def)
  have Fi: "fd_inv F" using fdevent_install_inv [OF linvD(1) [OF inv] idle F] .
  note Fe = fdevent_install_effect [OF F]
  from fdevent_set_ok [OF Fi Fe(2), of FDE_READ] obtain F1 where F1: "fdevent_set ?a FDE_READ F = Inr F1" "fd_inv F1"
    "fde_active ?a F1" "\<And>b. b \<noteq> ?a \<Longrightarrow> fdes F1 b = fdes F b" using Fe(2) by blast
  have FF: "fde_active b F1 = fde_active b (lfds L) \<and> fde_idle b F1 = fde_idle b (lfds L)" if "b \<noteq> ?a" for b
    using F1(4) [OF that] Fe(3) [OF that] by (simp add: fde_active_def fde_idle_def)
  let ?L1 = "L\<lparr>lfds := F1, l_next := ?a + 1\<rparr>"
  define L2 where "L2 = (case transport of None \<Rightarrow> ?L1 | Some t \<Rightarrow> set_disc ((discs L)(t := discs L t @ [?a])) ?L1)"
  have up: "(case transport of None \<Rightarrow> Inr ?L1 | Some t \<Rightarrow> upd_tr t (AddDisconnect ?a) ?L1) = Inr L2"
  proof (cases transport)
    case (Some t)
    then obtain T where "trs (reg L) t = Some T" using live by blast
    then show ?thesis using Some upd_tr_disc [of ?L1 t T] discs_Some [of L] by (simp add: L2_def AddDisconnect_def)
  qed (simp add: L2_def)
  have none: "count_list (discs L t) ?a = 0" for t
    using linv_no_entry(2) [OF inv linvD(3) [OF inv]] fresh by force
  let ?L' = "L2\<lparr>listener_list := listener_list L2 @ [(?a, ?l)]\<rparr>"
  have L2: "listener_list L2 = listener_list L" "lfds L2 = F1" "l_next L2 = ?a + 1"
    "dom (trs (reg L2)) = dom (trs (reg L))"
    unfolding L2_def using set_disc_simps(4) by (auto split: option.splits)
  have D: "discs L2 t = (if transport = Some t then discs L t @ [?a] else discs L t)" for t
    using live by (cases transport) (auto simp: L2_def discs_set_disc)
  have "linv ?L'"
  proof (rule linv_put [OF inv linvD(3) [OF inv], where l = ?l])
    show "set (listener_list ?L') = insert (?a, ?l) {y \<in> set (listener_list L). fst y \<noteq> ?a}"
      using fresh L2(1) by force
    show "distinct (map fst (listener_list ?L'))" using linvD(2) [OF inv] fresh L2(1) by simp
  qed (use L2 D F1(2,3) FF tr live nm none in \<open>auto simp: count_list_append\<close>)
  moreover have "same_but L L2"
    using same_but_trans [OF same_but_parts(3) same_but_parts(4)] by (auto simp: L2_def split: option.splits)
  then have "same_but L ?L'" by (rule same_but_trans) simp
  moreover have "new_listener env name target transport L = Inr (INSTALL_STATUS_OK, [], resolved, ?L')"
    unfolding new_listener_def Let_def sp(1) sum.case prod.case F F1(1) bindR_simps up using sp(2) by simp
  ultimately show ?thesis using L2(1) by auto
qed

lemma rebind_listener_ok:
  assumes inv: "linv L" and x: "(a, l) \<in> set (listener_list L)" "\<not> starred (connect_to l)"
    and t: "t \<in> dom (trs (reg L))" and target: "\<not> starred target"
  shows "\<exists>L'. rebind_listener (a, l) target (Some t) False L = Inr (INSTALL_STATUS_OK, [], 0, L') \<and> linv L' \<and>
    same_but L L' \<and> listener_list L' = map (\<lambda>y. if y = (a, l) then
      (a, l\<lparr>connect_to := target, l_transport := Some t\<rparr>) else y) (listener_list L)"
proof -
  let ?l = "l\<lparr>connect_to := target, l_transport := Some t\<rparr>"
  define m where "m = map (\<lambda>y. if y = (a, l) then (a, ?l) else y) (listener_list L)"
  have ok: "listener_ok L (a, l)" using linvD(4) [OF inv x(1)] .
  then obtain t0 T0 where t0: "l_transport l = Some t0" "trs (reg L) t0 = Some T0" "count_list (discs L t0) a = 1"
    using x(2) by (auto simp: listener_ok_def)
  have only: "l' = l" if "(a, l') \<in> set (listener_list L)" for l'
    using linv_same_addr [OF inv x(1) that] by simp
  have zero: "count_list (discs L u) a = 0" if "u \<noteq> t0" for u
    using linv_no_entry(2) [OF inv, of a u] ok only that t0(1) by (fastforce simp: listener_ok_def)
  have set: "set m = insert (a, ?l) {y \<in> set (listener_list L). fst y \<noteq> a}"
  proof -
    have "(y = (a, l)) = (fst y = a)" if "y \<in> set (listener_list L)" for y
      using linv_same_addr [OF inv that x(1)] by auto
    then have "set m = (\<lambda>y. if fst y = a then (a, ?l) else y) ` set (listener_list L)"
      unfolding m_def set_map by (intro image_cong) simp_all
    also have "\<dots> = insert (a, ?l) {y \<in> set (listener_list L). fst y \<noteq> a}" using x(1) by force
    finally show ?thesis .
  qed
  have fsts: "map fst m = map fst (listener_list L)" by (auto simp: m_def)
  have put: "linv L'" if L': "listener_list L' = m" "lfds L' = lfds L" "l_next L' = l_next L"
      "dom (trs (reg L')) = dom (trs (reg L))"
      "\<And>u d. d \<noteq> a \<Longrightarrow> count_list (discs L' u) d = count_list (discs L u) d"
      "\<And>u. count_list (discs L' u) a = (if u = t then 1 else 0)" for L'
    by (rule linv_put [OF inv, where a = a and l = ?l])
       (use L' set fsts ok t target linvD(1,2) [OF inv] in \<open>auto simp: listener_ok_def\<close>)
  show ?thesis
  proof (cases "t0 = t")
    case True
    have "linv (L\<lparr>listener_list := m\<rparr>)"
      by (rule put) (use True t0 zero in auto)
    then show ?thesis using True t0 x(2) by (auto simp: rebind_listener_def m_def intro: same_but_refl)
  next
    case False
    obtain T where T: "trs (reg L) t = Some T" using t by blast
    let ?D0 = "(discs L)(t0 := removeAll a (discs L t0))"
    let ?L1 = "set_disc ?D0 L"
    let ?L2 = "set_disc ((discs ?L1)(t := discs ?L1 t @ [a])) ?L1"
    have u1: "upd_tr t0 (RemoveDisconnect a) L = Inr ?L1"
      by (rule upd_tr_disc [OF t0(2)]) (simp add: RemoveDisconnect_def discs_Some [OF t0(2)])
    have T1: "trs (reg ?L1) t = Some (T\<lparr>disconnects := ?D0 t\<rparr>)" using T by (simp add: set_disc_def)
    have u2: "upd_tr t (AddDisconnect a) ?L1 = Inr ?L2"
      by (rule upd_tr_disc [OF T1]) (simp add: AddDisconnect_def discs_Some [OF T1])
    have D: "discs ?L2 u = (if u = t then discs L t @ [a] else if u = t0 then removeAll a (discs L t0) else discs L u)" for u
      using T t0(2) False by (auto simp: discs_set_disc)
    have "linv (?L2\<lparr>listener_list := m\<rparr>)"
      by (rule put) (use False t0 zero set_disc_simps(4) in \<open>auto simp: D count_list_append\<close>)
    moreover have "same_but L (?L2\<lparr>listener_list := m\<rparr>)"
      by (rule same_but_trans [OF same_but_trans [OF same_but_parts(4) same_but_parts(4)] same_but_parts(1)])
    ultimately show ?thesis using False t0(1) x(2) u1 u2
      by (auto simp: rebind_listener_def deref_def m_def)
  qed
qed

text \<open>A name that can be listened on is not that of the server's listener.\<close>

lemma listen_name:
  assumes "libbase_spec B" and "socket_spec_listen B N la (kLocalSocketTypes b) name = Inr r"
  shows "name \<noteq> ''*smartsocket*''"
  using assms(2) libbase_spec.StartsWith_iff [OF assms(1)]
  by (auto simp: socket_spec_listen_def kLocalSocketTypes_def)

text \<open>What the callers of \<open>install_listener\<close> give it: a transport that is there, and a target that is not
  the server's; only the server's own listener has no transport.\<close>

definition install_pre :: "string \<Rightarrow> addr option \<Rightarrow> 'x lstate_scheme \<Rightarrow> bool" where
  "install_pre target transport L \<longleftrightarrow>
    (transport = None \<longleftrightarrow> starred target) \<and> (\<forall>t. transport = Some t \<longrightarrow> t \<in> dom (trs (reg L)))"

definition fresh_fds :: "listen_env \<Rightarrow> string \<Rightarrow> 'x lstate_scheme \<Rightarrow> bool" where
  "fresh_fds env name L \<longleftrightarrow>
    (\<forall>fd r. socket_spec_listen (le_base env) (le_net env) (le_all env) (le_types env) name = Inr (fd, r) \<longrightarrow>
       poll_map (lfds L) fd = None)"

lemma named_Some: "named n L = Some x \<Longrightarrow> x \<in> set (listener_list L) \<and> local_name (snd x) = n"
  by (auto simp: named_def find_Some_iff)

lemma install_listener_ok:
  assumes inv: "linv L" and B: "libbase_spec (le_base env)" "le_types env = kLocalSocketTypes b"
    and pre: "install_pre target transport L" "fresh_fds env name L"
    and star: "transport = None \<Longrightarrow> named name L = None"
  shows "\<exists>st err r L'. install_listener env name target transport no_rebind L = Inr (st, err, r, L') \<and> linv L' \<and>
    same_but L L' \<and> (st \<noteq> INSTALL_STATUS_OK \<longrightarrow> L' = L) \<and>
    (st = INSTALL_STATUS_OK \<longrightarrow> (\<exists>a l. (a, l) \<in> set (listener_list L') \<and> connect_to l = target \<and>
       l_transport l = transport \<and> local_name l = (if r \<noteq> 0 then ''tcp:'' @ dec_of_int r else name)))"
proof (cases "named name L")
  case None
  show ?thesis
  proof (cases "socket_spec_listen (le_base env) (le_net env) (le_all env) (le_types env) name")
    case (Inl e)
    then show ?thesis using inv None by (simp add: install_listener_def new_listener_def same_but_refl)
  next
    case (Inr q)
    obtain fd r where q: "q = (fd, r)" by force
    show ?thesis
    proof (cases "fd < 0")
      case True
      then show ?thesis using Inr q inv None by (simp add: install_listener_def new_listener_def same_but_refl)
    next
      case False
      have "name \<noteq> ''*smartsocket*''" using listen_name [OF B(1)] Inr B(2) by metis
      moreover have "poll_map (lfds L) fd = None" using pre(2) Inr q by (auto simp: fresh_fds_def)
      ultimately show ?thesis
        using new_listener_ok [OF inv, of transport target env name fd r] pre(1) Inr q False None
        by (fastforce simp: install_listener_def install_pre_def)
    qed
  qed
next
  case (Some x)
  obtain a l where x: "x = (a, l)" by force
  have m: "(a, l) \<in> set (listener_list L)" "local_name l = name" using named_Some [OF Some] x by auto
  obtain t where t: "transport = Some t" using star Some by (cases transport) auto
  show ?thesis
  proof (cases "starred (connect_to l) \<or> no_rebind")
    case True
    then show ?thesis using Some x inv
      by (auto simp: install_listener_def rebind_listener_def intro: same_but_refl)
  next
    case False
    have "t \<in> dom (trs (reg L))" "\<not> starred target" using pre(1) t by (auto simp: install_pre_def)
    from rebind_listener_ok [OF inv m(1) _ this] False obtain L' where
      L': "rebind_listener (a, l) target (Some t) False L = Inr (INSTALL_STATUS_OK, [], 0, L')" "linv L'" "same_but L L'"
        "listener_list L' = map (\<lambda>y. if y = (a, l) then
           (a, l\<lparr>connect_to := target, l_transport := Some t\<rparr>) else y) (listener_list L)" by auto
    have "(a, l\<lparr>connect_to := target, l_transport := Some t\<rparr>) \<in> set (listener_list L')"
      unfolding L'(4) using m(1) by force
    then show ?thesis using L' Some x t False m(2) by (fastforce simp: install_listener_def)
  qed
qed

section \<open>Removing and listing\<close>

lemma erase_each_ok:
  "linv L \<Longrightarrow> listener_list L = ys @ xs \<Longrightarrow>
   \<exists>L'. erase_each xs L = Inr L' \<and> linv L' \<and> same_but L L' \<and>
     listener_list L' = ys @ filter (\<lambda>x. starred (connect_to (snd x))) xs"
proof (induction xs arbitrary: L ys)
  case Nil
  then show ?case by (simp add: same_but_refl)
next
  case (Cons x xs)
  show ?case
  proof (cases "starred (connect_to (snd x))")
    case True
    then show ?thesis using Cons.IH [of L "ys @ [x]"] Cons.prems by simp
  next
    case False
    from erase_listener_ok [OF Cons.prems(1), of x] Cons.prems(2) obtain L1 where
      L1: "erase_listener x L = Inr L1" "linv L1" "listener_list L1 = remove1 x (listener_list L)" "same_but L L1" by auto
    have "x \<notin> set ys" using linv_distinct [OF Cons.prems(1)] Cons.prems(2) by simp
    then have "listener_list L1 = ys @ xs" using L1(3) Cons.prems(2) by (simp add: remove1_append)
    from Cons.IH [OF L1(2) this] obtain L' where "erase_each xs L1 = Inr L'" "linv L'" "same_but L1 L'"
      "listener_list L' = ys @ filter (\<lambda>x. starred (connect_to (snd x))) xs" by blast
    then show ?thesis using L1 False same_but_trans by auto
  qed
qed

lemma format_list_ok: "(\<forall>x \<in> set xs. listener_ok L x) \<Longrightarrow> \<exists>s. format_list L xs = Inr s"
proof (induction xs)
  case (Cons x xs)
  then obtain s where s: "format_list L xs = Inr s" by auto
  obtain a l where x: "x = (a, l)" by force
  show ?case
  proof (cases "starred (connect_to l)")
    case False
    then obtain t T where "l_transport l = Some t" "trs (reg L) t = Some T"
      using Cons.prems x by (auto simp: listener_ok_def)
    then show ?thesis using s x False by (auto simp: get_tr_def deref_def)
  qed (use s x in simp)
qed simp

text \<open>
  C17: the operations on listeners keep their invariant (each listener is entered exactly once
  with the live transport it forwards to, transports have no stale entry, every listener has an
  active fdevent of its own) and meet no freed transport. Installing with a live transport either
  leaves everything as it was or ends with a listener for the name (or the resolved port) and
  target; remove\_listener removes the first listener of the name and reports a missing one;
  remove\_all\_listeners leaves exactly the server's own; the listing always succeeds.
\<close>

theorem listeners_safe:
  assumes "linv L" and "libbase_spec (le_base env)" and "le_types env = kLocalSocketTypes b"
    and "t \<in> dom (trs (reg L))" and "\<not> starred target" and "fresh_fds env name L"
  shows "(\<exists>st err r L'. install_listener env name target (Some t) no_rebind L = Inr (st, err, r, L') \<and> linv L' \<and>
      (st \<noteq> INSTALL_STATUS_OK \<longrightarrow> L' = L) \<and>
      (st = INSTALL_STATUS_OK \<longrightarrow> (\<exists>a l. (a, l) \<in> set (listener_list L') \<and> connect_to l = target \<and>
         l_transport l = Some t \<and> local_name l = (if r \<noteq> 0 then ''tcp:'' @ dec_of_int r else name)))) \<and>
    (\<exists>st L'. remove_listener name L = Inr (st, L') \<and> linv L' \<and>
      (case named name L of
         None \<Rightarrow> st = INSTALL_STATUS_LISTENER_NOT_FOUND \<and> L' = L
       | Some x \<Rightarrow> st = INSTALL_STATUS_OK \<and> listener_list L' = remove1 x (listener_list L))) \<and>
    (\<exists>L'. remove_all_listeners L = Inr L' \<and> linv L' \<and>
      listener_list L' = filter (\<lambda>x. starred (connect_to (snd x))) (listener_list L)) \<and>
    (\<exists>s. format_listeners L = Inr s)"
proof -
  have "install_pre target (Some t) L" using assms(4,5) by (simp add: install_pre_def)
  note 1 = install_listener_ok [OF assms(1-3) this assms(6), of no_rebind]
  have 2: "\<exists>st L'. remove_listener name L = Inr (st, L') \<and> linv L' \<and>
      (case named name L of
         None \<Rightarrow> st = INSTALL_STATUS_LISTENER_NOT_FOUND \<and> L' = L
       | Some x \<Rightarrow> st = INSTALL_STATUS_OK \<and> listener_list L' = remove1 x (listener_list L))"
  proof (cases "named name L")
    case None
    then show ?thesis using assms(1) by (simp add: remove_listener_def)
  next
    case (Some x)
    then show ?thesis using erase_listener_ok [OF assms(1), of x] named_Some [OF Some]
      by (auto simp: remove_listener_def)
  qed
  have 3: "\<exists>L'. remove_all_listeners L = Inr L' \<and> linv L' \<and>
      listener_list L' = filter (\<lambda>x. starred (connect_to (snd x))) (listener_list L)"
    using erase_each_ok [OF assms(1), of "[]"] by (auto simp: remove_all_listeners_def)
  have 4: "\<exists>s. format_listeners L = Inr s"
    using format_list_ok [of "listener_list L" L] linvD(4) [OF assms(1)] by (simp add: format_listeners_def)
  show ?thesis using 1 2 3 4 by (intro conjI) blast+
qed

text \<open>
  Close\_smartsockets, run when the server shuts down, looks for listeners named
  *smartsocket*, but that is what the server's listener connects to, not its name, and nothing
  else can listen under such a name either. So remove\_if finds no listener and the end iterator
  is erased, which is undefined.
\<close>

theorem close_smartsockets_undefined:
  assumes "linv L"
  shows "close_smartsockets L = Inl OutOfBounds"
proof -
  have "filter (\<lambda>x. local_name (snd x) = ''*smartsocket*'') (listener_list L) = []"
    using linvD(4) [OF assms] by (simp add: filter_empty_conv listener_ok_def)
  then show ?thesis by (simp add: close_smartsockets_def)
qed

section \<open>A server with one forward\<close>

definition lstate_init :: "sstate \<Rightarrow> lstate" where
  "lstate_init S = sstate.extend S (lstate.fields [] (fdsys_init True) 1)"

lemma lstate_init_linv: "(\<forall>t T. trs (reg S) t = Some T \<longrightarrow> disconnects T = []) \<Longrightarrow> linv (lstate_init S)"
  using fdsys_init_inv [of True]
  by (auto simp: linv_def lstate_init_def sstate.defs lstate.defs discs_def fde_idle_def fdsys_init_def split: option.splits)

definition demo_listen :: listen_env where
  "demo_listen = \<lparr>le_base = libbase_ref, le_net = demo_net, le_all = False, le_types = kLocalSocketTypes linux_host\<rparr>"

definition demo_lstate :: lstate where
  "demo_lstate = lstate_init (sstate_init demo_reg (\<lambda>_. quiet_fd))"

lemma demo_lstate_linv: "linv demo_lstate"
  unfolding demo_lstate_def
  by (rule lstate_init_linv)
     (auto simp: sstate_init_def demo_reg_def put_tr_def init_usb_transport_def new_atransport_def registry_init_def
       split: if_splits)

lemma demo_lstate_live: "1 \<in> dom (trs (reg demo_lstate))"
  by (simp add: demo_lstate_def lstate_init_def sstate.defs lstate.defs sstate_init_def demo_reg_def put_tr_def)

theorem listeners_safe_witness:
  "\<exists>st err r L'. install_listener demo_listen ''tcp:8000'' ''tcp:9000'' (Some 1) False demo_lstate = Inr (st, err, r, L') \<and>
     linv L'"
proof -
  have "libbase_spec (le_base demo_listen)" unfolding demo_listen_def by simp unfold_locales
  moreover have "fresh_fds demo_listen ''tcp:8000'' demo_lstate"
    by (simp add: fresh_fds_def demo_lstate_def lstate_init_def sstate.defs lstate.defs fdsys_init_def)
  ultimately show ?thesis
    using listeners_safe [OF demo_lstate_linv _ _ demo_lstate_live, of demo_listen linux_host "''tcp:9000''" "''tcp:8000''" False]
    by (auto simp: demo_listen_def starred_def)
qed

theorem close_smartsockets_undefined_witness: "linv demo_lstate \<and> close_smartsockets demo_lstate = Inl OutOfBounds"
  using close_smartsockets_undefined [OF demo_lstate_linv] demo_lstate_linv by blast

end
