(* ===== verification/Adb_Auth.thy ===== *)
theory Adb_Auth
  imports Listeners_Inv
begin

text \<open>
  Authentication. adbd\_auth.cpp on the device: checking a signature against the stored keys, asking
  the framework about an unknown key, sending tokens; adb\_auth\_host.cpp on the host: answering a
  token with one key after the other and then with the public key; and what both use of adb.cpp
  (\<open>handle_online\<close>, \<open>send_connect\<close>, \<open>send_ready\<close>, \<open>send_close\<close>).

  The cryptographic library, the key files and the random tokens are parameters. An RSA key is
  known by a number, 0 is the null pointer. \<open>tokens\<close> are the results of the reads of /dev/urandom
  still to come. The fdevent of the framework connection has address 1 in \<open>auth_fds\<close>, the one of
  the listening socket address 2.
\<close>

record auth_env =
  ae_build :: build
  ae_base :: libbase
  ae_prop :: "string \<Rightarrow> string"
  adb_device_banner :: string
  ae_features :: "string list"
  read_key_text :: "string \<Rightarrow> string option"   \<comment> \<open>content of a readable key file\<close>
  b64_pton :: "string \<Rightarrow> string option"
  android_pubkey_decode :: "string \<Rightarrow> nat option"
  RSA_verify :: "nat \<Rightarrow> string \<Rightarrow> string \<Rightarrow> bool"
  RSA_sign :: "nat \<Rightarrow> string \<Rightarrow> string option"
  PEM_read :: "string \<Rightarrow> (string \<times> nat) option"  \<comment> \<open>fingerprint and key of a private key file\<close>
  userkey_text :: "string option"                \<comment> \<open>content of the user's public key file\<close>

record astate = lstate +
  auth_required :: bool
  framework_fd :: fd
  usb_transport :: "addr option"
  needs_retry :: bool
  auth_fds :: "addr fdsys"
  tokens :: "(bool \<times> string) list"
  g_keys :: "(string \<times> nat) list"
  device_scan_complete :: bool
  transports_ready :: bool

definition ADB_AUTH_TOKEN :: u32 where "ADB_AUTH_TOKEN = 1"
definition ADB_AUTH_SIGNATURE :: u32 where "ADB_AUTH_SIGNATURE = 2"
definition ADB_AUTH_RSAPUBLICKEY :: u32 where "ADB_AUTH_RSAPUBLICKEY = 3"
definition TOKEN_SIZE :: nat where "TOKEN_SIZE = 20"
definition ANDROID_PUBKEY_ENCODED_SIZE :: nat where "ANDROID_PUBKEY_ENCODED_SIZE = 524"

lemmas auth_types = ADB_AUTH_TOKEN_def ADB_AUTH_SIGNATURE_def ADB_AUTH_RSAPUBLICKEY_def

section \<open>adb.cpp: messages and going online\<close>

definition control_packet :: "u32 \<Rightarrow> u32 \<Rightarrow> u32 \<Rightarrow> apacket" where
  "control_packet c x y = get_apacket\<lparr>msg := zero_message\<lparr>command := c, arg0 := x, arg1 := y\<rparr>\<rparr>"

definition send_ready :: "u32 \<Rightarrow> u32 \<Rightarrow> addr \<Rightarrow> 'x sstate_scheme \<Rightarrow> 'x sstate_scheme res" where
  "send_ready lid rid t S = send_packet (control_packet A_OKAY lid rid) (Some t) S"

definition send_close :: "u32 \<Rightarrow> u32 \<Rightarrow> addr \<Rightarrow> 'x sstate_scheme \<Rightarrow> 'x sstate_scheme res" where
  "send_close lid rid t S = send_packet (control_packet A_CLSE lid rid) (Some t) S"

definition handle_online :: "addr \<Rightarrow> 'x sstate_scheme \<Rightarrow> 'x sstate_scheme res" where
  "handle_online t S = upd_tr t (\<lambda>T. T\<lparr>online := True\<rparr>) S"

definition send_connect :: "auth_env \<Rightarrow> addr \<Rightarrow> 'x sstate_scheme \<Rightarrow> 'x sstate_scheme res" where
  "send_connect env t S =
    bindR (get_tr t (reg S)) (\<lambda>T.
      let s = get_connection_string (ae_base env) (ae_build env) (ae_prop env) (adb_device_banner env) (ae_features env) in
      if length s > MAX_PAYLOAD_V1 then Inl (Fatal ''Connection banner is too long'')
      else
        bindR (put_data s (get_apacket\<lparr>msg := zero_message\<lparr>command := A_CNXN, arg0 := of_int (protocol_version T),
            arg1 := of_nat (max_payload T), data_length := of_nat (length s)\<rparr>\<rparr>)) (\<lambda>p.
          send_packet p (Some t) S))"

definition SendConnectOnHost :: "auth_env \<Rightarrow> addr \<Rightarrow> 'x sstate_scheme \<Rightarrow> 'x sstate_scheme res" where
  "SendConnectOnHost env t S =
    bindR (send_packet get_apacket (Some t) S) (send_connect env t)"

section \<open>The device: adbd\_auth.cpp\<close>

definition key_paths :: "string list" where
  "key_paths = [''/adb_keys'', ''/data/misc/adb/adb_keys'']"

text \<open>A line up to its first blank (or NUL), decoded to a key of the right size.\<close>

definition line_key :: "auth_env \<Rightarrow> string \<Rightarrow> nat option" where
  "line_key env line =
    (case b64_pton env (takeWhile (\<lambda>c. c \<noteq> CHR '' '' \<and> c \<noteq> CHR 0x09 \<and> c \<noteq> CHR 0x00) line) of
       None \<Rightarrow> None
     | Some bytes \<Rightarrow> if length bytes \<noteq> ANDROID_PUBKEY_ENCODED_SIZE then None else android_pubkey_decode env bytes)"

definition stored_keys :: "auth_env \<Rightarrow> string \<Rightarrow> nat list" where
  "stored_keys env content = List.map_filter (line_key env) (Split (ae_base env) content [CHR 0x0A])"

definition adbd_auth_verify :: "auth_env \<Rightarrow> string \<Rightarrow> string \<Rightarrow> bool" where
  "adbd_auth_verify env tok sig \<longleftrightarrow>
    list_ex (\<lambda>path. case read_key_text env path of
        None \<Rightarrow> False
      | Some content \<Rightarrow> list_ex (\<lambda>key. RSA_verify env key tok sig) (stored_keys env content)) key_paths"

text \<open>\<open>adbd_auth_generate_token\<close>: whether the read was complete, and the buffer after it.\<close>

definition adbd_auth_generate_token :: "'x astate_scheme \<Rightarrow> (bool \<times> string) option \<times> 'x astate_scheme" where
  "adbd_auth_generate_token A =
    (case tokens A of [] \<Rightarrow> (None, A) | r # rs \<Rightarrow> (Some r, A\<lparr>tokens := rs\<rparr>))"

definition send_auth_request :: "addr \<Rightarrow> 'x astate_scheme \<Rightarrow> 'x astate_scheme res" where
  "send_auth_request t A =
    bindR (get_tr t (reg A)) (\<lambda>T.
      case adbd_auth_generate_token A of
        (None, A1) \<Rightarrow> Inr A1
      | (Some (ok, tok), A1) \<Rightarrow>
          bindR (upd_tr t (\<lambda>T. T\<lparr>token := tok\<rparr>) A1) (\<lambda>A2.
            if \<not> ok then Inr A2
            else bindR (put_data tok (get_apacket\<lparr>msg := zero_message\<lparr>command := A_AUTH, arg0 := ADB_AUTH_TOKEN,
                   data_length := of_nat TOKEN_SIZE\<rparr>\<rparr>)) (\<lambda>p. send_packet p (Some t) A2)))"

definition adbd_auth_verified :: "auth_env \<Rightarrow> addr \<Rightarrow> 'x sstate_scheme \<Rightarrow> 'x sstate_scheme res" where
  "adbd_auth_verified env t S = bindR (handle_online t S) (send_connect env t)"

definition usb_disconnected :: "'x astate_scheme \<Rightarrow> 'x astate_scheme" where
  "usb_disconnected A = A\<lparr>usb_transport := None, needs_retry := False\<rparr>"

definition framework_disconnected :: "'x astate_scheme \<Rightarrow> 'x astate_scheme res" where
  "framework_disconnected A =
    bindR (fdevent_remove 1 (auth_fds A)) (\<lambda>F. Inr (A\<lparr>auth_fds := F, framework_fd := -1\<rparr>))"

definition adbd_auth_event :: "auth_env \<Rightarrow> fd \<Rightarrow> u16 \<Rightarrow> 'x astate_scheme \<Rightarrow> 'x astate_scheme res" where
  "adbd_auth_event env fd ev A =
    (if flag ev FDE_READ then
       (case adb_read (fdtab A fd) 2 of
          (r, response, f) \<Rightarrow>
            let A1 = A\<lparr>fdtab := (fdtab A)(fd := f)\<rparr> in
            (case r of
               Err e \<Rightarrow> framework_disconnected A1
             | Ret n \<Rightarrow>
                 if n = 0 then framework_disconnected A1
                 else if n = 2 \<and> response = ''OK'' then
                   (case usb_transport A1 of None \<Rightarrow> Inr A1 | Some t \<Rightarrow> adbd_auth_verified env t A1)
                 else Inr A1))
     else Inr A)"

text \<open>\<open>key[len - 1]\<close> is read before the buffer when the packet is empty.\<close>

definition adbd_auth_confirm_key :: "string \<Rightarrow> addr \<Rightarrow> 'x astate_scheme \<Rightarrow> 'x astate_scheme res" where
  "adbd_auth_confirm_key key t A =
    bindR (if usb_transport A = None then upd_tr t (AddDisconnect 0) (A\<lparr>usb_transport := Some t\<rparr>) else Inr A) (\<lambda>A1.
      if framework_fd A1 < 0 then Inr (A1\<lparr>needs_retry := True\<rparr>)
      else if key = [] then Inl OutOfBounds
      else if last key \<noteq> CHR 0x00 then Inr A1
      else let m = ''PK'' @ c_str key in
        if length m \<ge> MAX_PAYLOAD_V1 then Inr A1
        else (case adb_write (fdtab A1 (framework_fd A1)) m of
                (_, f) \<Rightarrow> Inr (A1\<lparr>fdtab := (fdtab A1)(framework_fd A1 := f)\<rparr>)))"

definition adbd_auth_listener :: "fd option \<Rightarrow> 'x astate_scheme \<Rightarrow> 'x astate_scheme res" where
  "adbd_auth_listener accepted A =
    (case accepted of
       None \<Rightarrow> Inr A
     | Some s \<Rightarrow>
         bindR (if framework_fd A \<ge> 0 then framework_disconnected A else Inr A) (\<lambda>A1.
         bindR (fdevent_install 1 s 1 (auth_fds A1)) (\<lambda>F.
         bindR (fdevent_add 1 FDE_READ F) (\<lambda>F1.
         let A2 = A1\<lparr>framework_fd := s, auth_fds := F1\<rparr> in
           if needs_retry A2
           then bindR (deref (usb_transport A2)) (\<lambda>t. send_auth_request t (A2\<lparr>needs_retry := False\<rparr>))
           else Inr A2))))"

definition adbd_auth_init :: "fd option \<Rightarrow> bool \<Rightarrow> 'x astate_scheme \<Rightarrow> 'x astate_scheme res" where
  "adbd_auth_init control listening A =
    (case control of
       None \<Rightarrow> Inr A
     | Some fd \<Rightarrow>
         if \<not> listening then Inr A
         else bindR (fdevent_install 2 fd 2 (auth_fds A)) (\<lambda>F.
              bindR (fdevent_add 2 FDE_READ F) (\<lambda>F1. Inr (A\<lparr>auth_fds := F1\<rparr>))))"

section \<open>The host: adb\_auth\_host.cpp\<close>

text \<open>std::map keeps the fingerprints in order; a fingerprint that is there already is kept.\<close>

fun str_less :: "string \<Rightarrow> string \<Rightarrow> bool" where
  "str_less xs [] = False"
| "str_less [] (y # ys) = True"
| "str_less (x # xs) (y # ys) = ((of_char x :: nat) < of_char y \<or> x = y \<and> str_less xs ys)"

fun key_insert :: "string \<times> nat \<Rightarrow> (string \<times> nat) list \<Rightarrow> (string \<times> nat) list" where
  "key_insert k [] = [k]"
| "key_insert k (x # xs) =
    (if fst k = fst x then x # xs
     else if str_less (fst k) (fst x) then k # x # xs
     else x # key_insert k xs)"

definition read_key_file :: "auth_env \<Rightarrow> string \<Rightarrow> 'x astate_scheme \<Rightarrow> bool \<times> 'x astate_scheme" where
  "read_key_file env file A =
    (case PEM_read env file of
       None \<Rightarrow> (False, A)
     | Some k \<Rightarrow> (True, A\<lparr>g_keys := key_insert k (g_keys A)\<rparr>))"

datatype path_kind = NoPath | RegularFile | Directory "string list option" | OtherKind

text \<open>\<open>Directory\<close> gives the names readdir returns, None when the directory cannot be opened.\<close>

fun read_dir_keys :: "auth_env \<Rightarrow> string \<Rightarrow> string list \<Rightarrow> bool \<Rightarrow> 'x astate_scheme \<Rightarrow> bool \<times> 'x astate_scheme" where
  "read_dir_keys env path [] result A = (result, A)"
| "read_dir_keys env path (name # names) result A =
    (if name = ''.'' \<or> name = ''..'' \<or> \<not> suffix ''.adb_key'' name then read_dir_keys env path names result A
     else (case read_key_file env (path @ ''/'' @ name) A of
             (ok, A1) \<Rightarrow> read_dir_keys env path names (result \<or> ok) A1))"

definition read_keys :: "auth_env \<Rightarrow> (string \<Rightarrow> path_kind) \<Rightarrow> string \<Rightarrow> bool \<Rightarrow> 'x astate_scheme \<Rightarrow> bool \<times> 'x astate_scheme" where
  "read_keys env stat path allow_dir A =
    (case stat path of
       NoPath \<Rightarrow> (False, A)
     | RegularFile \<Rightarrow> read_key_file env path A
     | Directory names \<Rightarrow>
         if \<not> allow_dir then (False, A)
         else (case names of None \<Rightarrow> (False, A) | Some ns \<Rightarrow> read_dir_keys env path ns False A)
     | OtherKind \<Rightarrow> (False, A))"

definition adb_auth_get_private_keys :: "'x astate_scheme \<Rightarrow> nat list" where
  "adb_auth_get_private_keys A = map snd (g_keys A) @ [0]"

definition adb_auth_sign :: "auth_env \<Rightarrow> nat \<Rightarrow> string \<Rightarrow> string option" where
  "adb_auth_sign env key tok = (if length tok \<noteq> TOKEN_SIZE then None else RSA_sign env key tok)"

definition adb_auth_get_userkey :: "auth_env \<Rightarrow> string" where
  "adb_auth_get_userkey env = (case userkey_text env of None \<Rightarrow> [] | Some s \<Rightarrow> s)"

definition auth_packet :: "u32 \<Rightarrow> string \<Rightarrow> apacket res" where
  "auth_packet kind data =
    put_data data (get_apacket\<lparr>msg := zero_message\<lparr>command := A_AUTH, arg0 := kind,
      data_length := of_nat (length data)\<rparr>\<rparr>)"

definition send_auth_publickey :: "auth_env \<Rightarrow> addr \<Rightarrow> 'x sstate_scheme \<Rightarrow> 'x sstate_scheme res" where
  "send_auth_publickey env t S =
    (let key = adb_auth_get_userkey env in
     if key = [] \<or> length key \<ge> MAX_PAYLOAD_V1 then Inr S
     else bindR (auth_packet ADB_AUTH_RSAPUBLICKEY (key @ [CHR 0x00])) (\<lambda>p. send_packet p (Some t) S))"

text \<open>\<open>RSA_sign\<close> with an empty signature counts as a failure, as adb\_auth\_sign returns its length.\<close>

definition send_auth_response :: "auth_env \<Rightarrow> string \<Rightarrow> addr \<Rightarrow> 'x astate_scheme \<Rightarrow> 'x astate_scheme res" where
  "send_auth_response env tok t A =
    bindR (get_tr t (reg A)) (\<lambda>T.
    bindR (NextKey (adb_auth_get_private_keys A) T) (\<lambda>(key, T1).
    let A1 = A\<lparr>reg := put_tr t T1 (reg A)\<rparr> in
      if key = 0 then send_auth_publickey env t A1
      else (case adb_auth_sign env key tok of
              None \<Rightarrow> Inr A1
            | Some sig \<Rightarrow>
                if sig = [] then Inr A1
                else bindR (auth_packet ADB_AUTH_SIGNATURE sig) (\<lambda>p. send_packet p (Some t) A1))))"

end
