(* ===== verification/Adb_Core.thy ===== *)
theory Adb_Core
  imports Adb_Auth
begin

text \<open>
  adb.cpp: what becomes of a packet that comes from a transport, of a transport that goes offline,
  of a request of a client of the server, and the notification of device trackers (transport.cpp).
\<close>

text \<open>
  What these use from elsewhere: service\_to\_fd of services.cpp (modelled in Services), the sockets
  of jdwp\_service.cpp, the user id and whether the build can be debugged.
  \<open>ce_fuel\<close> bounds chains of enqueue calls.
\<close>

record 'x core_env =
  ce_auth :: auth_env
  ce_smart :: "'x smart_env"
  ce_listen :: listen_env
  ce_fuel :: nat
  service_to_fd_fn :: "string \<Rightarrow> addr \<Rightarrow> 'x sstate_scheme \<Rightarrow> (fd \<times> 'x sstate_scheme) res"
  create_jdwp_service_socket_fn :: "'x sstate_scheme \<Rightarrow> (addr option \<times> 'x sstate_scheme) res"
  create_jdwp_tracker_fn :: "'x sstate_scheme \<Rightarrow> (addr option \<times> 'x sstate_scheme) res"
  uid_is_root :: bool
  log_is_debuggable :: bool

abbreviation ce_host :: "'x core_env \<Rightarrow> bool" where
  "ce_host env \<equiv> ADB_HOST (ae_build (ce_auth env))"

section \<open>Transports going offline, device trackers\<close>

text \<open>The callbacks of \<open>RunDisconnects\<close>; 0 is usb\_disconnect.\<close>

fun run_disconnects :: "addr list \<Rightarrow> 'x astate_scheme \<Rightarrow> 'x astate_scheme res" where
  "run_disconnects [] A = Inr A"
| "run_disconnects (d # ds) A =
    bindR (if d = 0 then Inr (usb_disconnected A) else listener_disconnect d A) (run_disconnects ds)"

definition handle_offline :: "addr \<Rightarrow> 'x astate_scheme \<Rightarrow> 'x astate_scheme res" where
  "handle_offline t A =
    bindR (upd_tr t (\<lambda>T. T\<lparr>online := False\<rparr>) A) (\<lambda>A1.
    bindR (close_all_sockets (Some t) A1) (\<lambda>A2.
    bindR (get_tr t (reg A2)) (\<lambda>T.
    bindR (run_disconnects (fst (RunDisconnects T)) A2) (\<lambda>A3.
      upd_tr t (\<lambda>T. snd (RunDisconnects T)) A3))))"

definition update_transport_status :: "'x astate_scheme \<Rightarrow> 'x astate_scheme res" where
  "update_transport_status A =
    bindR (iterate_transports (\<lambda>t. \<not> (tr_type t = kTransportUsb \<and> \<not> online t)) (reg A)) (\<lambda>result.
      Inr (A\<lparr>transports_ready := result\<rparr>))"

definition adb_notify_device_scan_complete :: "'x astate_scheme \<Rightarrow> 'x astate_scheme res" where
  "adb_notify_device_scan_complete A =
    (if device_scan_complete A then Inr A
     else update_transport_status (A\<lparr>device_scan_complete := True\<rparr>))"

definition device_initialized :: "'x astate_scheme \<Rightarrow> bool" where
  "device_initialized A \<longleftrightarrow> device_scan_complete A \<and> transports_ready A"

text \<open>
  The loop of \<open>update_transports\<close> reads \<open>tracker->next\<close> before the tracker is used, then goes on
  with that pointer; the list may change meanwhile.
\<close>

fun tracker_next :: "addr \<Rightarrow> addr list \<Rightarrow> addr option" where
  "tracker_next a [] = None"
| "tracker_next a (x # xs) =
    (if x = a then (case xs of [] \<Rightarrow> None | y # _ \<Rightarrow> Some y) else tracker_next a xs)"

fun notify_trackers ::
    "(addr \<Rightarrow> apacket \<Rightarrow> 'x sstate_scheme \<Rightarrow> (int \<times> 'x sstate_scheme) res) \<Rightarrow> string \<Rightarrow> nat \<Rightarrow> addr option \<Rightarrow>
     'x sstate_scheme \<Rightarrow> 'x sstate_scheme res" where
  "notify_trackers enqueue text n None S = Inr S"
| "notify_trackers enqueue text 0 (Some a) S = Inl OutOfFuel"
| "notify_trackers enqueue text (Suc n) (Some a) S =
    bindR (sget a S) (\<lambda>_.
      let nx = tracker_next a (device_tracker_list S) in
      bindR (device_tracker_send enqueue a text S) (\<lambda>(r, S1). notify_trackers enqueue text n nx S1))"

definition update_transports :: "'x astate_ext lstate_ext core_env \<Rightarrow> 'x astate_scheme \<Rightarrow> 'x astate_scheme res" where
  "update_transports env A =
    (if \<not> ce_host env then Inr A
     else
       bindR (update_transport_status A) (\<lambda>A1.
       bindR (list_transports (acq_udev (sm_acq (ce_smart env))) False (reg A1)) (\<lambda>text.
         notify_trackers (sock_enqueue (ce_smart env) (ce_fuel env)) text (length (device_tracker_list A1))
           (case device_tracker_list A1 of [] \<Rightarrow> None | a # _ \<Rightarrow> Some a) A1)))"

section \<open>handle\_packet\<close>

definition handle_new_connection ::
    "'x astate_ext lstate_ext core_env \<Rightarrow> addr \<Rightarrow> apacket \<Rightarrow> 'x astate_scheme \<Rightarrow> 'x astate_scheme res" where
  "handle_new_connection env t p A =
    bindR (get_tr t (reg A)) (\<lambda>T.
    bindR (if connection_state T \<noteq> kCsOffline
           then bindR (upd_tr t (\<lambda>T. T\<lparr>connection_state := kCsOffline\<rparr>) A) (handle_offline t)
           else Inr A) (\<lambda>A1.
    bindR (get_tr t (reg A1)) (\<lambda>T1.
    bindR (packet_bytes p (pay_len p)) (\<lambda>banner.
    bindR (parse_banner (ae_base (ce_auth env)) banner
        (update_version (sint (arg0 (msg p))) (unat (arg1 (msg p))) T1)) (\<lambda>T2.
    let A2 = A1\<lparr>reg := put_tr t T2 (reg A1)\<rparr> in
    bindR (if ce_host env then handle_online t A2
           else if \<not> auth_required A2
           then bindR (handle_online t A2) (send_connect (ce_auth env) t)
           else send_auth_request t A2)
      (update_transports env))))))"

definition create_local_service_socket ::
    "'x core_env \<Rightarrow> string \<Rightarrow> addr \<Rightarrow> 'x sstate_scheme \<Rightarrow> (addr option \<times> 'x sstate_scheme) res" where
  "create_local_service_socket env name t S =
    (if \<not> ce_host env \<and> name = ''jdwp'' then create_jdwp_service_socket_fn env S
     else if \<not> ce_host env \<and> name = ''track-jdwp'' then create_jdwp_tracker_fn env S
     else
       bindR (service_to_fd_fn env name t S) (\<lambda>(fd, S1).
         if fd < 0 then Inr (None, S1)
         else
           bindR (create_local_socket fd S1) (\<lambda>(a, S2).
             if \<not> ce_host env \<and>
                ((prefix ''root:'' name \<and> \<not> uid_is_root env \<and> log_is_debuggable env) \<or>
                 (prefix ''unroot:'' name \<and> uid_is_root env) \<or> prefix ''usb:'' name \<or> prefix ''tcpip:'' name)
             then bindR (sget a S2) (\<lambda>s. Inr (Some a, sput a (s\<lparr>exit_on_close := True\<rparr>) S2))
             else Inr (Some a, S2))))"

text \<open>\<open>name[len > 0 ? len - 1 : 0] = 0\<close>: the last byte is replaced by NUL.\<close>

definition open_name :: "apacket \<Rightarrow> string res" where
  "open_name p = bindR (packet_bytes p (pay_len p - 1)) (\<lambda>bytes. Inr (c_str bytes))"

definition connect_peer :: "addr \<Rightarrow> u32 \<Rightarrow> addr \<Rightarrow> 'x sstate_scheme \<Rightarrow> (addr \<times> 'x sstate_scheme) res" where
  "connect_peer a rid t S =
    bindR (create_remote_socket rid (Some t) S) (\<lambda>(q, S1).
    bindR (sget a S1) (\<lambda>s.
    let S2 = sput a (s\<lparr>peer := Some q\<rparr>) S1 in
    bindR (sget q S2) (\<lambda>qs. Inr (q, sput q (qs\<lparr>peer := Some a\<rparr>) S2))))"

definition handle_open :: "'x core_env \<Rightarrow> apacket \<Rightarrow> addr \<Rightarrow> 'x sstate_scheme \<Rightarrow> 'x sstate_scheme res" where
  "handle_open env p t S =
    bindR (open_name p) (\<lambda>name.
    bindR (create_local_service_socket env name t S) (\<lambda>(r, S1).
      case r of
        None \<Rightarrow> send_close 0 (arg0 (msg p)) t S1
      | Some a \<Rightarrow>
          bindR (connect_peer a (arg0 (msg p)) t S1) (\<lambda>(q, S2).
          bindR (sget a S2) (\<lambda>s.
          bindR (sget q S2) (\<lambda>qs.
          bindR (send_ready (sk_id s) (sk_id qs) t S2) (sock_ready (ce_smart env) (ce_fuel env) a))))))"

definition handle_okay :: "'x core_env \<Rightarrow> apacket \<Rightarrow> addr \<Rightarrow> 'x sstate_scheme \<Rightarrow> 'x sstate_scheme res" where
  "handle_okay env p t S =
    bindR (find_local_socket (arg1 (msg p)) 0 S) (\<lambda>r.
      case r of
        None \<Rightarrow> send_close (arg1 (msg p)) (arg0 (msg p)) t S
      | Some a \<Rightarrow>
          bindR (sget a S) (\<lambda>s.
            case peer s of
              None \<Rightarrow>
                bindR (connect_peer a (arg0 (msg p)) t S) (\<lambda>(q, S1). sock_ready (ce_smart env) (ce_fuel env) a S1)
            | Some q \<Rightarrow>
                bindR (sget q S) (\<lambda>qs.
                  if sk_id qs = arg0 (msg p) then sock_ready (ce_smart env) (ce_fuel env) a S else Inr S)))"

definition handle_close :: "apacket \<Rightarrow> addr \<Rightarrow> 'x sstate_scheme \<Rightarrow> 'x sstate_scheme res" where
  "handle_close p t S =
    bindR (find_local_socket (arg1 (msg p)) (arg0 (msg p)) S) (\<lambda>r.
      case r of
        None \<Rightarrow> Inr S
      | Some a \<Rightarrow>
          bindR (sget a S) (\<lambda>s.
          bindR (if arg0 (msg p) = 0
                 then (case peer s of
                         None \<Rightarrow> Inr False
                       | Some q \<Rightarrow> bindR (sget q S) (\<lambda>qs. Inr (sk_transport qs \<noteq> Some t)))
                 else Inr False) (\<lambda>refused. if refused then Inr S else close_socket a S)))"

definition handle_write :: "'x core_env \<Rightarrow> apacket \<Rightarrow> addr \<Rightarrow> 'x sstate_scheme \<Rightarrow> 'x sstate_scheme res" where
  "handle_write env p t S =
    bindR (find_local_socket (arg1 (msg p)) (arg0 (msg p)) S) (\<lambda>r.
      case r of
        None \<Rightarrow> Inr S
      | Some a \<Rightarrow>
          bindR (sock_enqueue (ce_smart env) (ce_fuel env) a (p\<lparr>p_len := pay_len p\<rparr>) S) (\<lambda>(n, S1).
            if n = 0 then bindR (sget a S1) (\<lambda>s. send_ready (sk_id s) (arg0 (msg p)) t S1) else Inr S1))"

definition handle_auth ::
    "'x astate_ext lstate_ext core_env \<Rightarrow> apacket \<Rightarrow> addr \<Rightarrow> 'x astate_scheme \<Rightarrow> 'x astate_scheme res" where
  "handle_auth env p t A =
    bindR (get_tr t (reg A)) (\<lambda>T.
      if ce_host env \<and> arg0 (msg p) = ADB_AUTH_TOKEN then
        bindR (if connection_state T = kCsOffline
               then upd_tr t (\<lambda>T. T\<lparr>connection_state := kCsUnauthorized\<rparr>) A else Inr A) (\<lambda>A1.
        bindR (packet_bytes p (pay_len p)) (\<lambda>tok. send_auth_response (ce_auth env) tok t A1))
      else if \<not> ce_host env \<and> arg0 (msg p) = ADB_AUTH_SIGNATURE then
        bindR (packet_bytes p (pay_len p)) (\<lambda>sig.
          if adbd_auth_verify (ce_auth env) (token T) sig then
            bindR (adbd_auth_verified (ce_auth env) t A) (upd_tr t (\<lambda>T. T\<lparr>failed_auth_attempts := 0\<rparr>))
          else
            bindR (upd_tr t (\<lambda>T. T\<lparr>failed_auth_attempts := failed_auth_attempts T + 1\<rparr>) A) (send_auth_request t))
      else if \<not> ce_host env \<and> arg0 (msg p) = ADB_AUTH_RSAPUBLICKEY then
        bindR (packet_bytes p (pay_len p)) (\<lambda>key. adbd_auth_confirm_key key t A)
      else bindR (upd_tr t (\<lambda>T. T\<lparr>connection_state := kCsOffline\<rparr>) A) (handle_offline t))"

definition handle_sync ::
    "'x astate_ext lstate_ext core_env \<Rightarrow> apacket \<Rightarrow> addr \<Rightarrow> 'x astate_scheme \<Rightarrow> 'x astate_scheme res" where
  "handle_sync env p t A =
    (if arg0 (msg p) \<noteq> 0 then
       bindR (send_packet p (Some t) A) (\<lambda>A1.
         if ce_host env then SendConnectOnHost (ce_auth env) t A1 else Inr A1)
     else
       bindR (upd_tr t (\<lambda>T. T\<lparr>connection_state := kCsOffline\<rparr>) A) (\<lambda>A1.
       bindR (handle_offline t A1) (send_packet p (Some t))))"

definition handle_packet ::
    "'x astate_ext lstate_ext core_env \<Rightarrow> apacket \<Rightarrow> addr \<Rightarrow> 'x astate_scheme \<Rightarrow> 'x astate_scheme res" where
  "handle_packet env p t A =
    (let c = command (msg p); x = arg0 (msg p); y = arg1 (msg p) in
     if c = A_SYNC then handle_sync env p t A
     else if c = A_CNXN then handle_new_connection env t p A
     else if c = A_AUTH then handle_auth env p t A
     else
       bindR (get_tr t (reg A)) (\<lambda>T.
         if c = A_OPEN then if online T \<and> x \<noteq> 0 \<and> y = 0 then handle_open env p t A else Inr A
         else if c = A_OKAY then if online T \<and> x \<noteq> 0 \<and> y \<noteq> 0 then handle_okay env p t A else Inr A
         else if c = A_CLSE then if online T \<and> y \<noteq> 0 then handle_close p t A else Inr A
         else if c = A_WRTE then if online T \<and> x \<noteq> 0 \<and> y \<noteq> 0 then handle_write env p t A else Inr A
         else Inr A))"

end
