(* ===== verification/Core_Auth.thy ===== *)
theory Core_Auth
  imports Adb_Core
begin

text \<open>
  What the packet handler does to transports: closing sockets touches no transport, and on a device
  that requires authentication only a verified signature takes a transport online.
\<close>

section \<open>Frames\<close>

text \<open>\<open>same_reg\<close>: the operation leaves the transports and the rest of the program's state alone.\<close>

definition same_reg :: "'x sstate_scheme \<Rightarrow> 'x sstate_scheme \<Rightarrow> bool" where
  "same_reg S S' \<longleftrightarrow> reg S' = reg S \<and> sstate.more S' = sstate.more S"

lemma same_reg_refl [simp]: "same_reg S S"
  by (simp add: same_reg_def)

lemma same_reg_trans [trans]: "same_reg S S1 \<Longrightarrow> same_reg S1 S2 \<Longrightarrow> same_reg S S2"
  by (simp add: same_reg_def)

lemma same_reg_sput [simp]: "same_reg S (sput a s S') = same_reg S S'" "same_reg (sput a s S) S' = same_reg S S'"
  "same_reg S (sfree a S') = same_reg S S'" "same_reg S (S'\<lparr>fdtab := f\<rparr>) = same_reg S S'" 
  "same_reg S (S'\<lparr>sent := x\<rparr>) = same_reg S S'" "same_reg S (S'\<lparr>sfds := F\<rparr>) = same_reg S S'"
  "same_reg S (S'\<lparr>local_socket_list := l\<rparr>) = same_reg S S'" "same_reg S (S'\<lparr>local_socket_closing_list := l\<rparr>) = same_reg S S'"
  "same_reg S (S'\<lparr>device_tracker_list := l\<rparr>) = same_reg S S'"
  by (simp_all add: same_reg_def)

lemma on_fds_same_reg: "on_fds g S = Inr S' \<Longrightarrow> same_reg S S'"
  by (auto dest: on_fds_Inr simp: same_reg_def)

lemma send_packet_same_reg: "send_packet p t S = Inr S' \<Longrightarrow> same_reg S S'"
  by (auto simp: send_packet_def split: option.splits)

lemma remove_socket_same_reg: "remove_socket a S = Inr S' \<Longrightarrow> same_reg S S'"
  by (auto simp: remove_socket_def same_reg_def split: if_splits)

lemma destroy_same_reg: "local_socket_destroy a S = Inr S' \<Longrightarrow> same_reg S S'"
  by (auto simp: local_socket_destroy_def split: if_splits dest!: on_fds_same_reg remove_socket_same_reg intro: same_reg_trans)

lemma finish_same_reg: "local_socket_finish a S = Inr S' \<Longrightarrow> same_reg S S'"
  by (auto simp: local_socket_finish_def Let_def split: if_splits
      dest!: on_fds_same_reg remove_socket_same_reg destroy_same_reg intro: same_reg_trans)

lemma shutdown_same_reg: "sock_shutdown a S = Inr S' \<Longrightarrow> same_reg S S'"
  by (auto simp: sock_shutdown_def remote_socket_shutdown_def split: if_splits dest!: send_packet_same_reg)

lemma write_fd_same_reg: "write_fd fd w S = Inr S' \<Longrightarrow> same_reg S S'"
  by (auto simp: write_fd_def)

lemma drop_peer_same_reg:
  "(\<And>a S S'. close a S = Inr S' \<Longrightarrow> same_reg S S') \<Longrightarrow> drop_peer close q S = Inr S' \<Longrightarrow> same_reg S S'"
  by (auto simp: drop_peer_def) (metis same_reg_sput(2))

lemma sock_close_same_reg: "sock_close n a S = Inr S' \<Longrightarrow> same_reg S S'" for S S' :: "'x sstate_scheme"
proof (induction n arbitrary: a S S')
  case 0
  then show ?case by (simp add: sock_close.simps)
next
  case (Suc n)
  have drop: "drop_peer (sock_close n) q S0 = Inr S1 \<Longrightarrow> same_reg S0 S1" for q and S0 S1 :: "'x sstate_scheme"
    by (rule drop_peer_same_reg [OF Suc.IH])
  obtain s where s: "socks S a = Some s" using Suc.prems by (auto simp: sock_close.simps)
  have plain: "same_reg S S1"
    if "(case peer s of None \<Rightarrow> Inr S | Some q \<Rightarrow> drop_peer (sock_close n) q S) = Inr S1" for S1
    using that drop by (auto split: option.splits)
  show ?case
  proof (cases "cls_fn s")
    case local_socket_close_fn
    then have "local_socket_close (sock_close n) a S = Inr S'" using Suc.prems s by (simp add: sock_close.simps sget_eq)
    then show ?thesis using s
      by (auto simp: local_socket_close_def sget_eq split: option.splits
          dest!: shutdown_same_reg drop finish_same_reg intro: same_reg_trans)
  next
    case local_socket_close_notify_fn
    then have "local_socket_close_notify (sock_close n) a S = Inr S'" using Suc.prems s by (simp add: sock_close.simps sget_eq)
    then show ?thesis using s
      by (auto simp: local_socket_close_notify_def sget_eq dest!: write_fd_same_reg Suc.IH intro: same_reg_trans)
  qed (use Suc.prems s plain in \<open>auto simp: sock_close.simps sget_eq remote_socket_close_def smart_socket_close_def
      device_tracker_close_def\<close>)
qed

lemma close_all_loop_same_reg: "close_all_loop n t S = Inr S' \<Longrightarrow> same_reg S S'"
proof (induction n arbitrary: S)
  case 0
  then show ?case by (subst (asm) close_all_loop.simps) (auto split: option.splits)
next
  case (Suc n)
  from Suc.prems show ?case
    by (subst (asm) close_all_loop.simps)
       (auto split: option.splits dest!: sock_close_same_reg Suc.IH intro: same_reg_trans)
qed

lemma close_all_same_reg: "close_all_sockets t S = Inr S' \<Longrightarrow> same_reg S S'"
  unfolding close_all_sockets_def by (rule close_all_loop_same_reg)

section \<open>Which transports are online\<close>

definition onl :: "'x sstate_scheme \<Rightarrow> addr \<Rightarrow> bool option" where
  "onl S u = map_option online (trs (reg S) u)"

lemma onl_reg: "reg S' = reg S \<Longrightarrow> onl S' = onl S"
  by (simp add: onl_def fun_eq_iff)

lemma onl_same_reg: "same_reg S S' \<Longrightarrow> onl S' = onl S"
  by (rule onl_reg) (simp add: same_reg_def)

lemma upd_tr_Inr: "upd_tr t f S = Inr S' \<longleftrightarrow> (\<exists>T. trs (reg S) t = Some T \<and> S' = S\<lparr>reg := put_tr t (f T) (reg S)\<rparr>)"
  by (simp add: upd_tr_def get_tr_def split: option.splits) blast

lemma onl_put: "onl (S\<lparr>reg := put_tr t T (reg S)\<rparr>) = (onl S)(t \<mapsto> online T)"
  by (simp add: onl_def put_tr_def fun_eq_iff)

lemma upd_tr_onl: "upd_tr t f S = Inr S' \<Longrightarrow> (\<And>T. online (f T) = b) \<Longrightarrow> onl S' = (onl S)(t \<mapsto> b)"
  by (auto simp: upd_tr_Inr onl_put)

lemma upd_tr_onl_same: "upd_tr t f S = Inr S' \<Longrightarrow> (\<And>T. online (f T) = online T) \<Longrightarrow> onl S' = onl S"
  by (auto simp: upd_tr_Inr onl_put) (simp add: onl_def fun_eq_iff)

lemma upd_tr_auth: "upd_tr t f A = Inr A' \<Longrightarrow> auth_required A' = auth_required A"
  by (auto simp: upd_tr_Inr)

lemma listener_disconnect_frame:
  "listener_disconnect d A = Inr A' \<Longrightarrow> reg A' = reg A \<and> auth_required A' = auth_required A"
  by (auto simp: listener_disconnect_def destroy_listener_def Let_def split: option.splits)

lemma run_disconnects_frame:
  "run_disconnects ds A = Inr A' \<Longrightarrow> reg A' = reg A \<and> auth_required A' = auth_required A"
  by (induction ds arbitrary: A)
     (auto simp: usb_disconnected_def split: if_splits dest!: listener_disconnect_frame)

lemma same_reg_auth: "same_reg A A' \<Longrightarrow> auth_required A' = auth_required A"
proof -
  assume "same_reg A A'"
  then have "auth_required (sstate.extend (sstate.truncate A) (sstate.more A')) = auth_required A"
    by (cases A; cases A') (simp add: same_reg_def sstate.defs)
  then show ?thesis by (cases A; cases A') (simp add: sstate.defs)
qed

lemma handle_offline_onl:
  assumes "handle_offline t A = Inr A'"
  shows "onl A' = (onl A)(t \<mapsto> False)" and "auth_required A' = auth_required A"
proof -
  from assms obtain A1 A2 T A3 where
    1: "upd_tr t (\<lambda>T. T\<lparr>online := False\<rparr>) A = Inr A1" and 2: "close_all_sockets (Some t) A1 = Inr A2"
    and 3: "run_disconnects (fst (RunDisconnects T)) A2 = Inr A3"
    and 4: "upd_tr t (\<lambda>T. snd (RunDisconnects T)) A3 = Inr A'"
    by (auto simp: handle_offline_def)
  note r = close_all_same_reg [OF 2] run_disconnects_frame [OF 3]
  have "onl A' = onl A3" by (rule upd_tr_onl_same [OF 4]) (simp add: RunDisconnects_def)
  also have "\<dots> = onl A2" using r(2) by (intro onl_reg) simp
  also have "\<dots> = onl A1" using onl_same_reg [OF r(1)] .
  also have "\<dots> = (onl A)(t \<mapsto> False)" using upd_tr_onl [OF 1, of False] by simp
  finally show "onl A' = (onl A)(t \<mapsto> False)" .
  show "auth_required A' = auth_required A"
    using upd_tr_auth [OF 1] upd_tr_auth [OF 4] r(2) same_reg_auth [OF r(1)] by simp
qed

lemma banner_prop_online: "online (banner_prop B x T) = online T"
  by (auto simp: banner_prop_def SetFeatures_def split: list.splits)

lemma parse_banner_online: "parse_banner B s T = Inr T' \<Longrightarrow> online T' = online T"
proof -
  have "online (fold (banner_prop B) xs T) = online T" for xs T
    by (induction xs arbitrary: T) (simp_all add: banner_prop_online)
  then show "parse_banner B s T = Inr T' \<Longrightarrow> online T' = online T"
    by (auto simp: parse_banner_def Let_def SetFeatures_def split: list.splits if_splits)
qed

lemma onl_upd [simp]: "onl (A\<lparr>tokens := x\<rparr>) = onl A" "onl (A\<lparr>usb_transport := u\<rparr>) = onl A"
  "onl (A\<lparr>needs_retry := b\<rparr>) = onl A" "onl (A\<lparr>fdtab := f\<rparr>) = onl A"
  by (simp_all add: onl_def fun_eq_iff)

lemma send_packet_onl: "send_packet p t S = Inr S' \<Longrightarrow> onl S' = onl S"
  by (rule onl_same_reg) (rule send_packet_same_reg)

lemma send_auth_request_onl:
  assumes "send_auth_request t A = Inr A'"
  shows "onl A' = onl A"
proof (cases "tokens A")
  case Nil
  then show ?thesis using assms by (auto simp: send_auth_request_def adbd_auth_generate_token_def)
next
  case (Cons r rs)
  obtain ok tok where r: "r = (ok, tok)" by force
  from assms Cons r obtain A2 where A2: "upd_tr t (\<lambda>T. T\<lparr>token := tok\<rparr>) (A\<lparr>tokens := rs\<rparr>) = Inr A2"
    and A': "A' = A2 \<or> (\<exists>p. send_packet p (Some t) A2 = Inr A')"
    by (auto simp: send_auth_request_def adbd_auth_generate_token_def split: if_splits)
  have "onl A2 = onl A" using upd_tr_onl_same [OF A2] by simp
  then show ?thesis using A' send_packet_onl by fastforce
qed

lemma confirm_key_onl:
  assumes "adbd_auth_confirm_key key t A = Inr A'"
  shows "onl A' = onl A"
proof -
  from assms obtain A1 where A1: "(if usb_transport A = None then upd_tr t (AddDisconnect 0) (A\<lparr>usb_transport := Some t\<rparr>)
      else Inr A) = Inr A1" and A': "A' = A1 \<or> A' = A1\<lparr>needs_retry := True\<rparr> \<or> (\<exists>f. A' = A1\<lparr>fdtab := f\<rparr>)"
    by (auto simp: adbd_auth_confirm_key_def Let_def split: if_splits prod.splits)
  have "onl A1 = onl A"
  proof (cases "usb_transport A = None")
    case True
    then have "upd_tr t (AddDisconnect 0) (A\<lparr>usb_transport := Some t\<rparr>) = Inr A1" using A1 by simp
    from upd_tr_onl_same [OF this] show ?thesis by (simp add: AddDisconnect_def)
  next
    case False
    then show ?thesis using A1 by (simp only: if_False) simp
  qed
  then show ?thesis using A' by auto
qed

lemma send_connect_onl: "send_connect env t S = Inr S' \<Longrightarrow> onl S' = onl S"
  by (auto simp: send_connect_def Let_def split: if_splits intro: send_packet_onl)

lemma verified_onl: "adbd_auth_verified env t S = Inr S' \<Longrightarrow> onl S' = (onl S)(t \<mapsto> True)"
  unfolding adbd_auth_verified_def handle_online_def bindR_eq_Inr
  by (elim exE conjE) (simp add: send_connect_onl upd_tr_onl [where b = True])

lemma offline_again_onl:
  assumes "trs (reg A) t = Some T" and "\<not> online T"
    and "bindR (upd_tr t (\<lambda>T. T\<lparr>connection_state := kCsOffline\<rparr>) A) (handle_offline t) = Inr A1"
  shows "onl A1 = onl A \<and> auth_required A1 = auth_required A"
proof -
  have "(onl A)(t \<mapsto> False) = onl A" using assms(1,2) by (auto simp: onl_def fun_eq_iff)
  then show ?thesis
    using assms(3) handle_offline_onl upd_tr_onl_same [of t "\<lambda>T. T\<lparr>connection_state := kCsOffline\<rparr>" A] upd_tr_auth by fastforce
qed

lemma new_connection_onl:
  assumes "\<not> ce_host env" and "auth_required A" and T: "trs (reg A) t = Some T" "\<not> online T"
    and h: "handle_new_connection env t p A = Inr A'"
  shows "onl A' = onl A"
proof -
  from h assms(1) T obtain A1 T1 T2 b where
    A1: "(if connection_state T \<noteq> kCsOffline
         then bindR (upd_tr t (\<lambda>T. T\<lparr>connection_state := kCsOffline\<rparr>) A) (handle_offline t) else Inr A) = Inr A1"
    and T1: "trs (reg A1) t = Some T1"
    and T2: "parse_banner (ae_base (ce_auth env)) b (update_version (sint (arg0 (msg p))) (unat (arg1 (msg p))) T1) = Inr T2"
    and A': "(if \<not> auth_required A1
         then bindR (handle_online t (A1\<lparr>reg := put_tr t T2 (reg A1)\<rparr>)) (send_connect (ce_auth env) t)
         else send_auth_request t (A1\<lparr>reg := put_tr t T2 (reg A1)\<rparr>)) = Inr A'"
    by (auto simp: handle_new_connection_def get_tr_def update_transports_def Let_def split: option.splits)
  have same: "onl A1 = onl A \<and> auth_required A1 = auth_required A" using A1 offline_again_onl [OF T] by (auto split: if_splits)
  then have "send_auth_request t (A1\<lparr>reg := put_tr t T2 (reg A1)\<rparr>) = Inr A'" using A' assms(2) by simp
  then have "onl A' = onl (A1\<lparr>reg := put_tr t T2 (reg A1)\<rparr>)" by (rule send_auth_request_onl)
  moreover have "online T2 = online T1" using parse_banner_online [OF T2] by (simp add: update_version_def)
  then have "onl (A1\<lparr>reg := put_tr t T2 (reg A1)\<rparr>) = onl A1" unfolding onl_put using T1 by (auto simp: onl_def fun_eq_iff)
  ultimately show ?thesis using same by simp
qed

lemma handle_auth_onl:
  assumes "\<not> ce_host env" and T: "trs (reg A) t = Some T" "\<not> online T" and h: "handle_auth env p t A = Inr A'"
  shows "onl A' =
    (if arg0 (msg p) = ADB_AUTH_SIGNATURE \<and> adbd_auth_verify (ce_auth env) (token T) (take (pay_len p) (p_data p))
     then (onl A)(t \<mapsto> True) else onl A)"
proof (cases "arg0 (msg p) = ADB_AUTH_SIGNATURE")
  case False
  then show ?thesis using h assms(1) T(1) offline_again_onl [OF T] confirm_key_onl
    by (auto simp: handle_auth_def get_tr_def packet_bytes_def auth_types split: if_splits)
next
  case sig: True
  show ?thesis
  proof (cases "adbd_auth_verify (ce_auth env) (token T) (take (pay_len p) (p_data p))")
    case True
    with sig obtain A1 where "adbd_auth_verified (ce_auth env) t A = Inr A1"
      "upd_tr t (\<lambda>T. T\<lparr>failed_auth_attempts := 0\<rparr>) A1 = Inr A'"
      using h assms(1) T by (auto simp: handle_auth_def get_tr_def packet_bytes_def split: if_splits)
    then have "onl A' = (onl A)(t \<mapsto> True)" using verified_onl upd_tr_onl_same by fastforce
    then show ?thesis using True sig by simp
  next
    case False
    with sig obtain A1 where "upd_tr t (\<lambda>T. T\<lparr>failed_auth_attempts := failed_auth_attempts T + 1\<rparr>) A = Inr A1"
      "send_auth_request t A1 = Inr A'"
      using h assms(1) T by (auto simp: handle_auth_def get_tr_def packet_bytes_def split: if_splits)
    then have "onl A' = onl A" using send_auth_request_onl upd_tr_onl_same by fastforce
    then show ?thesis using False by simp
  qed
qed

text \<open>
  C8: on a device that requires authentication, a packet that arrives on a transport that is not
  online changes whether a transport is online only in one case: it is a signature, and the
  signature verifies the token that transport was sent, under a key stored on the device; then
  this transport goes online and no other.
\<close>

theorem auth_gate:
  assumes "\<not> ce_host env" and "auth_required A" and "trs (reg A) t = Some T" and "\<not> online T"
    and "handle_packet env p t A = Inr A'"
  shows "onl A' = onl A \<or>
    command (msg p) = A_AUTH \<and> arg0 (msg p) = ADB_AUTH_SIGNATURE \<and>
    adbd_auth_verify (ce_auth env) (token T) (take (pay_len p) (p_data p)) \<and> onl A' = (onl A)(t \<mapsto> True)"
proof -
  note T = assms(3,4)
  consider (sync) "command (msg p) = A_SYNC" | (cnxn) "command (msg p) \<noteq> A_SYNC" "command (msg p) = A_CNXN"
    | (auth) "command (msg p) \<noteq> A_SYNC" "command (msg p) \<noteq> A_CNXN" "command (msg p) = A_AUTH"
    | (stream) "command (msg p) \<notin> {A_SYNC, A_CNXN, A_AUTH}" by blast
  then show ?thesis
  proof cases
    case sync
    then have "handle_sync env p t A = Inr A'" using assms(5) by (simp add: handle_packet_def Let_def)
    then have "onl A' = onl A"
      using assms(1) offline_again_onl [OF T] send_packet_onl unfolding handle_sync_def by (fastforce split: if_splits)
    then show ?thesis by blast
  next
    case cnxn
    then have "handle_new_connection env t p A = Inr A'" using assms(5) by (simp add: handle_packet_def Let_def)
    from new_connection_onl [OF assms(1,2) T this] show ?thesis by blast
  next
    case auth
    then have "handle_auth env p t A = Inr A'" using assms(5) by (simp add: handle_packet_def Let_def)
    from handle_auth_onl [OF assms(1) T this] show ?thesis using auth(3) by simp
  next
    case stream
    then have "A' = A" using assms(3-5) by (auto simp: handle_packet_def Let_def get_tr_def split: if_splits)
    then show ?thesis by simp
  qed
qed

section \<open>A small device\<close>

definition demo_auth :: auth_env where
  "demo_auth =
    \<lparr>ae_build = \<lparr>ADB_HOST = False, ADB_LINUX = True, ADB_WINDOWS = False\<rparr>, ae_base = libbase_ref\<lparr>Join := (\<lambda>_ _. [])\<rparr>,
     ae_prop = (\<lambda>_. []), adb_device_banner = ''device'', ae_features = [], read_key_text = (\<lambda>_. None),
     b64_pton = (\<lambda>_. None), android_pubkey_decode = (\<lambda>_. None), RSA_verify = (\<lambda>_ _ _. False),
     RSA_sign = (\<lambda>k tok. Some [char_of k]), PEM_read = (\<lambda>_. None), userkey_text = Some ''pub''\<rparr>"

definition demo_registry2 :: registry where
  "demo_registry2 = (registry_init True)\<lparr>trs := [1 \<mapsto> new_atransport kCsOffline, 2 \<mapsto> new_atransport kCsOffline],
     reg_next := 3, transport_list := [2, 1]\<rparr>"

definition demo_astate :: "(fd \<Rightarrow> fd_state) \<Rightarrow> fd \<Rightarrow> addr option \<Rightarrow> (string \<times> nat) list \<Rightarrow> astate" where
  "demo_astate fs fw u ks =
    lstate.extend (lstate_init (sstate_init demo_registry2 fs))
      (astate.fields True fw u False (fdsys_init True) [] ks True False)"

lemmas demo_astate_defs = demo_astate_def lstate_init_def sstate_init_def sstate.defs lstate.defs astate.defs

lemma demo_astate_simps [simp]:
  "reg (demo_astate fs fw u ks) = demo_registry2" "fdtab (demo_astate fs fw u ks) = fs"
  "auth_required (demo_astate fs fw u ks)" "framework_fd (demo_astate fs fw u ks) = fw"
  "usb_transport (demo_astate fs fw u ks) = u" "tokens (demo_astate fs fw u ks) = []" "g_keys (demo_astate fs fw u ks) = ks"
  "sent (demo_astate fs fw u ks) = []"
  by (simp_all add: demo_astate_defs)

lemma demo_registry2_simps [simp]:
  "trs demo_registry2 (Suc 0) = Some (new_atransport kCsOffline)" "trs demo_registry2 2 = Some (new_atransport kCsOffline)"
  by (simp_all add: demo_registry2_def)

definition demo_core :: "'x core_env" where
  "demo_core =
    \<lparr>ce_auth = demo_auth,
     ce_smart = \<lparr>sm_base = libbase_ref, sm_acq = demo_env, handle_host_request_fn = (\<lambda>_ _ _ _ _ S. Inr (-1, S)),
       host_service_fn = (\<lambda>_ _ S. Inr (None, S))\<rparr>,
     ce_listen = demo_listen, ce_fuel = 4, service_to_fd_fn = (\<lambda>_ _ S. Inr (-1, S)),
     create_jdwp_service_socket_fn = (\<lambda>S. Inr (None, S)), create_jdwp_tracker_fn = (\<lambda>S. Inr (None, S)),
     uid_is_root = False, log_is_debuggable = False\<rparr>"

definition auth_message :: "u32 \<Rightarrow> string \<Rightarrow> apacket" where
  "auth_message kind d = get_apacket\<lparr>msg := zero_message\<lparr>command := A_AUTH, arg0 := kind,
     data_length := of_nat (length d)\<rparr>, p_data := d\<rparr>"

theorem auth_gate_witness:
  "\<exists>A'. handle_packet demo_core (auth_message ADB_AUTH_SIGNATURE ''x'') 1 (demo_astate (\<lambda>_. quiet_fd) 7 None []) = Inr A' \<and>
    onl A' = onl (demo_astate (\<lambda>_. quiet_fd) 7 None [])"
proof -
  let ?A = "demo_astate (\<lambda>_. quiet_fd) 7 None []" and ?p = "auth_message ADB_AUTH_SIGNATURE ''x''"
  have h: "\<not> ce_host (demo_core :: unit astate_ext lstate_ext core_env)" by (simp add: demo_core_def demo_auth_def)
  have v: "\<not> adbd_auth_verify (ce_auth (demo_core :: unit astate_ext lstate_ext core_env)) tok sig" for tok sig
    by (simp add: demo_core_def demo_auth_def adbd_auth_verify_def key_paths_def)
  have T: "trs (reg ?A) 1 = Some (new_atransport kCsOffline)" "\<not> online (new_atransport kCsOffline)"
    by (simp_all add: new_atransport_def)
  obtain A' where A': "handle_packet demo_core ?p 1 ?A = Inr A'"
    using h v by (simp add: handle_packet_def handle_auth_def auth_message_def A_SYNC_def A_CNXN_def A_AUTH_def auth_types
        get_tr_def packet_bytes_def upd_tr_def send_auth_request_def adbd_auth_generate_token_def put_tr_def)
  from auth_gate [OF h _ T A'] v have "onl A' = onl ?A" by simp
  with A' show ?thesis by blast
qed

section \<open>Confirming keys\<close>

text \<open>
  A key is confirmed for whichever transport asked first, not for the one whose key the user
  was shown. While \<open>a\<close> still waits for a confirmation, the key another transport \<open>t\<close> sends is passed
  on to the framework, and the framework's OK takes \<open>a\<close> online; \<open>t\<close> stays as it was.
\<close>

theorem confirmation_goes_to_first_transport:
  assumes "usb_transport A = Some a" and "a \<noteq> t" and "framework_fd A = fd" and "0 \<le> fd"
    and "k \<noteq> []" and "CHR 0x00 \<notin> set k" and "length k + 2 < MAX_PAYLOAD_V1"
    and "wscript (fdtab A fd) = [WAccept (length k + 2)]" and "rscript (fdtab A fd) = [RData ''OK'']"
    and "adbd_auth_confirm_key (k @ [CHR 0x00]) t A = Inr A1" and "adbd_auth_event env fd FDE_READ A1 = Inr A2"
  shows "written (fdtab A1 fd) = written (fdtab A fd) @ ''PK'' @ k \<and> onl A2 = (onl A)(a \<mapsto> True) \<and> onl A2 t = onl A t"
proof -
  have k: "c_str (k @ [CHR 0x00]) = k" using assms(6) by (simp add: c_str_def takeWhile_append)
  have A1: "A1 = A\<lparr>fdtab := (fdtab A)(fd := (fdtab A fd)\<lparr>wscript := [], written := written (fdtab A fd) @ ''PK'' @ k\<rparr>)\<rparr>"
    using assms(10) unfolding adbd_auth_confirm_key_def k using assms(1,3-8)
    by (simp add: Let_def adb_write_def)
  let ?A = "A1\<lparr>fdtab := (fdtab A1)(fd := (fdtab A1 fd)\<lparr>rscript := []\<rparr>)\<rparr>"
  have "adbd_auth_verified env a ?A = Inr A2"
    using assms(11) A1 assms(1,9) by (simp add: adbd_auth_event_def adb_read_def fde_flags Let_def)
  from verified_onl [OF this] have "onl A2 = (onl A)(a \<mapsto> True)" using A1 by simp
  then show ?thesis using A1 assms(2) by simp
qed

theorem confirmation_goes_to_first_transport_witness:
  "\<exists>(A :: astate) A1 A2. adbd_auth_confirm_key (''k'' @ [CHR 0x00]) 2 A = Inr A1 \<and> adbd_auth_event demo_auth 7 FDE_READ A1 = Inr A2 \<and>
    onl A 1 = Some False \<and> onl A2 1 = Some True \<and> onl A2 2 = Some False"
proof -
  let ?fs = "(\<lambda>_ :: fd. quiet_fd)(7 := quiet_fd\<lparr>wscript := [WAccept (length ''k'' + 2)], rscript := [RData ''OK'']\<rparr>)"
  let ?A = "demo_astate ?fs 7 (Some 1) []"
  obtain A1 where A1: "adbd_auth_confirm_key (''k'' @ [CHR 0x00]) 2 ?A = Inr A1"
    by (simp add: adbd_auth_confirm_key_def Let_def c_str_def adb_write_def quiet_fd_def MAX_PAYLOAD_V1_def)
  obtain A2 where A2: "adbd_auth_event demo_auth 7 FDE_READ A1 = Inr A2"
    using A1 by (simp add: adbd_auth_confirm_key_def Let_def c_str_def adb_write_def quiet_fd_def MAX_PAYLOAD_V1_def)
      (auto simp: adbd_auth_event_def adb_read_def fde_flags Let_def adbd_auth_verified_def handle_online_def upd_tr_def
        get_tr_def send_connect_def put_tr_def demo_auth_def get_connection_string_def send_packet_def seal_packet_def
        put_data_def calculate_apacket_checksum_def packet_bytes_def get_apacket_def zero_message_def new_atransport_def
        MAX_PAYLOAD_V1_def MAX_PAYLOAD_def MAX_PAYLOAD_V2_def c_str_def)
  have "onl A2 = (onl ?A)(1 \<mapsto> True) \<and> onl A2 2 = onl ?A 2"
    using confirmation_goes_to_first_transport [OF _ _ _ _ _ _ _ _ _ A1 A2, of 1]
    by (simp add: MAX_PAYLOAD_V1_def quiet_fd_def)
  moreover have "onl ?A 1 = Some False" "onl ?A 2 = Some False" by (simp_all add: onl_def new_atransport_def)
  ultimately show ?thesis using A1 A2 by (intro exI [of _ ?A] exI [of _ A1] exI [of _ A2]) simp
qed

text \<open>
  A public-key packet without payload, which any client may send before it is authenticated,
  makes the device read the byte before the packet's buffer, as soon as the framework is
  connected.
\<close>

theorem empty_public_key_out_of_bounds:
  assumes "\<not> ce_host env" and "trs (reg A) t = Some T" and "0 \<le> framework_fd A"
    and "command (msg p) = A_AUTH" and "arg0 (msg p) = ADB_AUTH_RSAPUBLICKEY" and "data_length (msg p) = 0"
  shows "handle_packet env p t A = Inl OutOfBounds"
proof -
  have "adbd_auth_confirm_key [] t A = Inl OutOfBounds"
    using assms(2,3) by (simp add: adbd_auth_confirm_key_def upd_tr_def get_tr_def)
  then show ?thesis using assms(1,2,4-6)
    by (simp add: handle_packet_def handle_auth_def A_SYNC_def A_CNXN_def A_AUTH_def auth_types get_tr_def packet_bytes_def)
qed

theorem empty_public_key_out_of_bounds_witness:
  "handle_packet demo_core (auth_message ADB_AUTH_RSAPUBLICKEY []) 1 (demo_astate (\<lambda>_. quiet_fd) 7 None []) = Inl OutOfBounds"
  by (rule empty_public_key_out_of_bounds [where T = "new_atransport kCsOffline"])
     (simp_all add: demo_core_def demo_auth_def auth_message_def)

section \<open>The host's answers\<close>

fun answer_tokens :: "auth_env \<Rightarrow> string list \<Rightarrow> addr \<Rightarrow> 'x astate_scheme \<Rightarrow> 'x astate_scheme res" where
  "answer_tokens env [] t A = Inr A"
| "answer_tokens env (tok # toks) t A = bindR (send_auth_response env tok t A) (answer_tokens env toks t)"

lemma answer_tokens_snoc:
  "answer_tokens env (xs @ [y]) t A = bindR (answer_tokens env xs t A) (send_auth_response env y t)"
proof (induction xs arbitrary: A)
  case Nil
  show ?case by (cases "send_auth_response env y t A") simp_all
next
  case (Cons x xs)
  show ?case by (cases "send_auth_response env x t A") (simp_all add: Cons)
qed

text \<open>What a sent packet tells: the transport, the kind of message and its payload.\<close>

definition answer_of :: "addr \<times> apacket \<Rightarrow> addr \<times> u32 \<times> u32 \<times> string" where
  "answer_of x = (fst x, command (msg (snd x)), arg0 (msg (snd x)), take (pay_len (snd x)) (p_data (snd x)))"

lemma send_auth_packet:
  assumes "trs (reg S) t \<noteq> None" and "length d \<le> MAX_PAYLOAD"
  shows "\<exists>q. bindR (auth_packet kind d) (\<lambda>p. send_packet p (Some t) S) = Inr (S\<lparr>sent := sent S @ [(t, q)]\<rparr>) \<and>
    answer_of (t, q) = (t, A_AUTH, kind, d)"
proof -
  have "length d < 2 ^ 32" using assms(2) by (simp add: MAX_PAYLOAD_def MAX_PAYLOAD_V2_def)
  then have "unat (of_nat (length d) :: u32) = length d" by (simp add: unat_of_nat)
  then show ?thesis using assms
    by (auto simp: auth_packet_def put_data_def send_packet_def seal_packet_def calculate_apacket_checksum_def
        packet_bytes_def get_apacket_def zero_message_def get_tr_def Let_def answer_of_def)
qed

definition sig_ok :: "auth_env \<Rightarrow> nat \<Rightarrow> string \<Rightarrow> bool" where
  "sig_ok env key tok \<longleftrightarrow> key \<noteq> 0 \<and> (\<exists>s. RSA_sign env key tok = Some s \<and> s \<noteq> [] \<and> length s \<le> MAX_PAYLOAD)"

lemma answer_with_key:
  assumes T: "trs (reg A) t = Some T" and ks: "(if keys T = [] then adb_auth_get_private_keys A else keys T) = k # ks"
    and sig: "sig_ok env k tok" "length tok = TOKEN_SIZE"
  shows "\<exists>q. send_auth_response env tok t A =
      Inr (A\<lparr>reg := put_tr t (T\<lparr>keys := ks\<rparr>) (reg A), sent := sent A @ [(t, q)]\<rparr>) \<and>
    answer_of (t, q) = (t, A_AUTH, ADB_AUTH_SIGNATURE, the (RSA_sign env k tok))"
proof -
  obtain s where s: "RSA_sign env k tok = Some s" "s \<noteq> []" "length s \<le> MAX_PAYLOAD" "k \<noteq> 0"
    using sig(1) by (auto simp: sig_ok_def)
  let ?A = "A\<lparr>reg := put_tr t (T\<lparr>keys := ks\<rparr>) (reg A)\<rparr>"
  have "trs (reg ?A) t \<noteq> None" by (simp add: put_tr_def)
  from send_auth_packet [OF this s(3), of ADB_AUTH_SIGNATURE] obtain q where
    q: "bindR (auth_packet ADB_AUTH_SIGNATURE s) (\<lambda>p. send_packet p (Some t) ?A) = Inr (?A\<lparr>sent := sent ?A @ [(t, q)]\<rparr>)"
      "answer_of (t, q) = (t, A_AUTH, ADB_AUTH_SIGNATURE, s)" by blast
  show ?thesis
  proof (rule exI [of _ q], rule conjI)
    have nk: "NextKey (adb_auth_get_private_keys A) T = Inr (k, T\<lparr>keys := ks\<rparr>)"
      unfolding NextKey_def Let_def ks by simp
    show "send_auth_response env tok t A =
      Inr (A\<lparr>reg := put_tr t (T\<lparr>keys := ks\<rparr>) (reg A), sent := sent A @ [(t, q)]\<rparr>)"
      using T nk s sig(2) q(1) by (simp add: send_auth_response_def get_tr_def adb_auth_sign_def)
  qed (use q(2) s(1) in simp)
qed

lemma answer_tokens_keys:
  assumes "trs (reg A) t = Some T"
    and "(if keys T = [] then adb_auth_get_private_keys A else keys T) = ks @ [0]"
    and "length toks = length ks" and "\<forall>tok \<in> set toks. length tok = TOKEN_SIZE \<and> (\<forall>k \<in> set ks. sig_ok env k tok)"
  shows "\<exists>A' T'. answer_tokens env toks t A = Inr A' \<and> trs (reg A') t = Some T' \<and>
    (if keys T' = [] then adb_auth_get_private_keys A' else keys T') = [0] \<and>
    map answer_of (sent A') = map answer_of (sent A) @
      map2 (\<lambda>k tok. (t, A_AUTH, ADB_AUTH_SIGNATURE, the (RSA_sign env k tok))) ks toks"
  using assms
proof (induction ks arbitrary: A T toks)
  case Nil
  then show ?case by simp
next
  case (Cons k ks)
  then obtain tok toks' where toks: "toks = tok # toks'" by (cases toks) auto
  from answer_with_key [OF Cons.prems(1), of k "ks @ [0]" env tok] Cons.prems toks obtain q where
    q: "send_auth_response env tok t A =
      Inr (A\<lparr>reg := put_tr t (T\<lparr>keys := ks @ [0]\<rparr>) (reg A), sent := sent A @ [(t, q)]\<rparr>)"
      "answer_of (t, q) = (t, A_AUTH, ADB_AUTH_SIGNATURE, the (RSA_sign env k tok))" by auto
  let ?A = "A\<lparr>reg := put_tr t (T\<lparr>keys := ks @ [0]\<rparr>) (reg A), sent := sent A @ [(t, q)]\<rparr>"
  have "trs (reg ?A) t = Some (T\<lparr>keys := ks @ [0]\<rparr>)" by (simp add: put_tr_def)
  from Cons.IH [OF this, of toks'] Cons.prems(3,4) toks obtain A' T' where
    "answer_tokens env toks' t ?A = Inr A'" "trs (reg A') t = Some T'"
    "(if keys T' = [] then adb_auth_get_private_keys A' else keys T') = [0]"
    "map answer_of (sent A') = map answer_of (sent ?A) @
      map2 (\<lambda>k tok. (t, A_AUTH, ADB_AUTH_SIGNATURE, the (RSA_sign env k tok))) ks toks'"
    by auto
  then show ?case using q toks by auto
qed

text \<open>
  C24: the host answers the tokens of one transport with a signature by each of its keys, once and
  in the order of the keys, and when they are used up with the user's public key, terminated by
  NUL.
\<close>

theorem host_tries_every_key:
  assumes "trs (reg A) t = Some T" and "keys T = []" and "length toks = length (g_keys A)"
    and "\<forall>tok \<in> set toks. length tok = TOKEN_SIZE \<and> (\<forall>k \<in> snd ` set (g_keys A). sig_ok env k tok)"
    and "userkey_text env = Some u" and "u \<noteq> []" and "length u < MAX_PAYLOAD_V1"
  shows "\<exists>A'. answer_tokens env (toks @ [last_tok]) t A = Inr A' \<and>
    map answer_of (sent A') = map answer_of (sent A) @
      map2 (\<lambda>k tok. (t, A_AUTH, ADB_AUTH_SIGNATURE, the (RSA_sign env k tok))) (map snd (g_keys A)) toks @
      [(t, A_AUTH, ADB_AUTH_RSAPUBLICKEY, u @ [CHR 0x00])]"
proof -
  have "(if keys T = [] then adb_auth_get_private_keys A else keys T) = map snd (g_keys A) @ [0]"
    using assms(2) by (simp add: adb_auth_get_private_keys_def)
  from answer_tokens_keys [OF assms(1) this, of toks env] assms(3,4) obtain A' T' where
    A': "answer_tokens env toks t A = Inr A'" "trs (reg A') t = Some T'"
      "(if keys T' = [] then adb_auth_get_private_keys A' else keys T') = [0]"
      "map answer_of (sent A') = map answer_of (sent A) @
        map2 (\<lambda>k tok. (t, A_AUTH, ADB_AUTH_SIGNATURE, the (RSA_sign env k tok))) (map snd (g_keys A)) toks" by auto
  let ?A = "A'\<lparr>reg := put_tr t (T'\<lparr>keys := []\<rparr>) (reg A')\<rparr>"
  have live: "trs (reg ?A) t \<noteq> None" by (simp add: put_tr_def)
  have len: "length (u @ [CHR 0x00]) \<le> MAX_PAYLOAD"
    using assms(7) by (simp add: MAX_PAYLOAD_def MAX_PAYLOAD_V1_def MAX_PAYLOAD_V2_def)
  from send_auth_packet [OF live len, of ADB_AUTH_RSAPUBLICKEY] obtain q where
    q: "bindR (auth_packet ADB_AUTH_RSAPUBLICKEY (u @ [CHR 0x00])) (\<lambda>p. send_packet p (Some t) ?A) =
        Inr (?A\<lparr>sent := sent ?A @ [(t, q)]\<rparr>)"
      "answer_of (t, q) = (t, A_AUTH, ADB_AUTH_RSAPUBLICKEY, u @ [CHR 0x00])" by blast
  have nk: "NextKey (adb_auth_get_private_keys A') T' = Inr (0, T'\<lparr>keys := []\<rparr>)"
    unfolding NextKey_def Let_def A'(3) by simp
  have "send_auth_response env last_tok t A' = Inr (?A\<lparr>sent := sent ?A @ [(t, q)]\<rparr>)"
    using A'(2) nk q(1) assms(5-7)
    by (simp add: send_auth_response_def get_tr_def send_auth_publickey_def adb_auth_get_userkey_def Let_def)
  then show ?thesis using A'(1,4) q(2) by (auto simp: answer_tokens_snoc)
qed

theorem host_tries_every_key_witness:
  "\<exists>A'. answer_tokens demo_auth (replicate 3 (replicate 20 (CHR ''t''))) 1
      (demo_astate (\<lambda>_. quiet_fd) 7 None [(''f1'', 65), (''f2'', 66)]) = Inr A' \<and>
    map answer_of (sent A') = [(1, A_AUTH, ADB_AUTH_SIGNATURE, ''A''), (1, A_AUTH, ADB_AUTH_SIGNATURE, ''B''),
      (1, A_AUTH, ADB_AUTH_RSAPUBLICKEY, ''pub'' @ [CHR 0x00])]"
proof -
  let ?A = "demo_astate (\<lambda>_. quiet_fd) 7 None [(''f1'', 65), (''f2'', 66)]"
  let ?tok = "replicate 20 (CHR ''t'')"
  have ok: "sig_ok demo_auth k tok" if "k = 65 \<or> k = 66" for k tok
    using that by (auto simp: sig_ok_def demo_auth_def MAX_PAYLOAD_def MAX_PAYLOAD_V2_def)
  have "\<exists>A'. answer_tokens demo_auth ([?tok, ?tok] @ [?tok]) 1 ?A = Inr A' \<and>
    map answer_of (sent A') = map answer_of (sent ?A) @
      map2 (\<lambda>k tok. (1, A_AUTH, ADB_AUTH_SIGNATURE, the (RSA_sign demo_auth k tok))) (map snd (g_keys ?A)) [?tok, ?tok] @
      [(1, A_AUTH, ADB_AUTH_RSAPUBLICKEY, ''pub'' @ [CHR 0x00])]"
    by (rule host_tries_every_key [where T = "new_atransport kCsOffline"])
       (use ok in \<open>auto simp: new_atransport_def TOKEN_SIZE_def demo_auth_def MAX_PAYLOAD_V1_def\<close>)
  moreover have "RSA_sign demo_auth k tok = Some [char_of k]" for k tok by (simp add: demo_auth_def)
  moreover have "char_of (65 :: nat) = CHR ''A''" "char_of (66 :: nat) = CHR ''B''" by code_simp+
  ultimately show ?thesis by (simp add: numeral_3_eq_3 del: answer_tokens.simps)
qed

end
