(* ===== verification/Core_Packets.thy ===== *)
theory Core_Packets
  imports Core_Auth
begin

text \<open>
  The packet handler and the sockets: what comes from a transport that is online keeps the heap of
  sockets well-formed, follows no stale pointer and touches no transport; a transport that goes
  offline takes its sockets and its listeners with it.
\<close>

lemma same_reg_left [simp]:
  "same_reg (S\<lparr>fdtab := f\<rparr>) S' = same_reg S S'" "same_reg (S\<lparr>sent := x\<rparr>) S' = same_reg S S'"
  "same_reg (S\<lparr>sfds := F\<rparr>) S' = same_reg S S'"
  by (simp_all add: same_reg_def)

section \<open>Operations of local sockets keep the heap well-formed\<close>

lemma ids_ok_same:
  assumes "ids_ok S" and "local_socket_list S' = local_socket_list S" and "local_socket_next_id S' = local_socket_next_id S"
    and "\<And>a. a \<in> set (local_socket_list S) \<Longrightarrow> map_option sk_id (socks S' a) = map_option sk_id (socks S a)"
  shows "ids_ok S'"
proof -
  have m: "\<exists>u. socks S a = Some u \<and> sk_id u = sk_id v" if "a \<in> set (local_socket_list S)" "socks S' a = Some v" for a v
    using assms(4) [OF that(1)] that(2) by (cases "socks S a") auto
  have lt: "sk_id u \<noteq> 0 \<and> unat (sk_id u) < unat (local_socket_next_id S)"
    if "a \<in> set (local_socket_list S)" "socks S a = Some u" for a u
    using assms(1) that unfolding ids_ok_def by blast
  have inj: "a = b" if "a \<in> set (local_socket_list S)" "b \<in> set (local_socket_list S)" "socks S a = Some u"
    "socks S b = Some v" "sk_id u = sk_id v" for a b u v
    using assms(1) that unfolding ids_ok_def by blast
  have "local_socket_next_id S \<noteq> 0" using assms(1) unfolding ids_ok_def by blast
  then show ?thesis unfolding ids_ok_def assms(2,3) using m lt inj by (intro conjI allI impI) metis+
qed

text \<open>Asking for an event, perhaps with new packets in the queue of the socket.\<close>

lemma wf_add_event:
  assumes wf: "wf S" and s: "socks S a = Some s" "is_local s"
    and q: "s' = s\<lparr>pkts := ps\<rparr>" "ps \<noteq> [] \<longrightarrow> pkts s \<noteq> [] \<or> e = FDE_WRITE"
  shows "\<exists>F. on_fds (fdevent_add a e) (sput a s' S) = Inr ((sput a s' S)\<lparr>sfds := F\<rparr>) \<and>
    wf ((sput a s' S)\<lparr>sfds := F\<rparr>)"
proof -
  have ok: "sock_ok S a s" using wfxD(1) [OF wf s(1)] .
  then have act: "fde_active a (sfds S)" using s(2) by (simp add: sock_ok_def)
  from fd_reg.add_ok [OF wfxD(3) [OF wf] act, of e] obtain F where
    F: "fdevent_add a e (sfds S) = Inr F" "fd_inv F" "\<And>b. fde_active b F = fde_active b (sfds S)"
      "fde_wants a F = fde_wants a (sfds S) OR (e AND FDE_EVENTMASK)"
      "\<And>b. b \<noteq> a \<Longrightarrow> fde_wants b F = fde_wants b (sfds S) \<and> fde_idle b F = fde_idle b (sfds S)" by blast
  let ?S = "(sput a s' S)\<lparr>sfds := F\<rparr>"
  have "flag (fde_wants a F) FDE_WRITE" if "ps \<noteq> []"
  proof (cases "pkts s \<noteq> []")
    case True
    then have "flag (fde_wants a (sfds S)) FDE_WRITE" using ok s(2) by (simp add: sock_ok_def)
    then show ?thesis unfolding F(4) by (auto simp: bit.conj_disj_distrib2 or_eq_0_iff)
  next
    case False
    then have "e = FDE_WRITE" using q(2) that by blast
    then show ?thesis unfolding F(4) by (simp add: bit.conj_disj_distrib2 or_eq_0_iff fde_flags)
  qed
  then have ok': "sock_ok ?S a s'" using ok s(2) F(3) q(1) by (auto simp: sock_ok_def is_local_def)
  have nt: "a \<notin> set (device_tracker_list S)" using wfxD(10) [OF wf, of a] s local_not_tracker [OF s(2)] by auto
  have "wf ?S"
  proof (rule wfx_update [OF wf, of a])
    show "sock_ok ?S a u \<and> (a \<notin> {} \<longrightarrow> peer_ok ?S a u) \<and>
        (a \<in> set (device_tracker_list ?S) \<longrightarrow> cls_fn u = device_tracker_close_fn)" if "socks ?S a = Some u" for u
    proof -
      have u: "u = s'" using that by simp
      have "peer_ok S a s" using wfxD(2) [OF wf s(1)] by simp
      then have "peer_ok ?S a s'" using q(1) by (auto simp: peer_ok_def split: option.splits)
      then show ?thesis using u ok' nt by simp
    qed
    show "\<exists>u. socks ?S a = Some u \<and> peer u = Some b"
      if "b \<noteq> a" "b \<notin> {}" "socks S b = Some t" "peer t = Some a" for b t
      using wfx_pointed [OF wf that(3,2,4)] s(1) q(1) by simp
  qed (use wfxD(5,6,7) [OF wf] F in auto)
  moreover have "on_fds (fdevent_add a e) (sput a s' S) = Inr ?S" using F(1) by (simp add: on_fds_def)
  ultimately show ?thesis by blast
qed

text \<open>\<open>okay S S'\<close>: the heap is well-formed and identifiers are distinct, transports and the rest are untouched.\<close>

definition okay :: "'x sstate_scheme \<Rightarrow> 'x sstate_scheme \<Rightarrow> bool" where
  "okay S S' \<longleftrightarrow> wf S' \<and> ids_ok S' \<and> same_reg S S'"

lemma okay_trans: "okay S S1 \<Longrightarrow> okay S1 S2 \<Longrightarrow> okay S S2"
  by (auto simp: okay_def intro: same_reg_trans)

lemma close_okay:
  assumes "wf S" and "ids_ok S" and "socks S a = Some s"
  shows "good (close_socket a S) (okay S)"
  by (rule good_mono [OF close_ok [OF assms(1,3)]])
     (use assms(2) ids_ok_closed in \<open>auto simp: okay_def same_reg_def closed2_def\<close>)

lemma add_event_okay:
  assumes "wf S" and "ids_ok S" and "socks S a = Some s" and "is_local s"
    and "s' = s\<lparr>pkts := ps\<rparr>" and "ps \<noteq> [] \<longrightarrow> pkts s \<noteq> [] \<or> e = FDE_WRITE"
  shows "good (on_fds (fdevent_add a e) (sput a s' S)) (okay S)"
proof -
  from wf_add_event [OF assms(1,3-6)] obtain F where
    F: "on_fds (fdevent_add a e) (sput a s' S) = Inr ((sput a s' S)\<lparr>sfds := F\<rparr>)" "wf ((sput a s' S)\<lparr>sfds := F\<rparr>)" by blast
  have "ids_ok ((sput a s' S)\<lparr>sfds := F\<rparr>)"
    by (rule ids_ok_same [OF assms(2)]) (use assms(3,5) in auto)
  then show ?thesis using F by (simp add: okay_def)
qed

lemma local_enqueue_okay:
  assumes wf: "wf S" "ids_ok S" and s: "socks S a = Some s" "is_local s"
    and len: "p_len p \<le> length (p_data p)"
  shows "good (local_socket_enqueue a p S) (\<lambda>(r, S'). okay S S' \<and> (r = 0 \<longrightarrow> socks S' a = Some s))"
proof (cases "pkts s = []")
  case False
  have "good (on_fds (fdevent_add a FDE_WRITE) (sput a (s\<lparr>pkts := pkts s @ [p\<lparr>p_ptr := 0\<rparr>]\<rparr>) S)) (okay S)"
    by (rule add_event_okay [OF wf s refl]) simp
  then show ?thesis using False s len
    by (auto simp: local_socket_enqueue_def sget_eq Let_def intro: good_bind)
next
  case True
  obtain st p1 f1 where w: "write_out (p\<lparr>p_ptr := 0\<rparr>) (fdtab S (sk_fd s)) = (st, p1, f1)"
    by (cases "write_out (p\<lparr>p_ptr := 0\<rparr>) (fdtab S (sk_fd s))") auto
  let ?S = "S\<lparr>fdtab := (fdtab S)(sk_fd s := f1)\<rparr>"
  have S: "wf ?S" "ids_ok ?S" "socks ?S a = Some s" "same_reg S ?S" using wf s by (simp_all add: ids_ok_def)
  have step: "good (bindR m (\<lambda>S2. Inr (1 :: int, S2))) (\<lambda>(r, S'). okay S S' \<and> (r = 0 \<longrightarrow> socks S' a = Some s))"
    if "good m (okay ?S)" for m
    by (rule good_bind [OF that]) (use S in \<open>auto simp: okay_def intro: same_reg_trans\<close>)
  show ?thesis
  proof (cases st)
    case WDone
    then show ?thesis using S True s len w by (simp add: local_socket_enqueue_def sget_eq Let_def okay_def)
  next
    case WBlocked
    have "good (on_fds (fdevent_add a FDE_WRITE) (sput a (s\<lparr>pkts := [p1]\<rparr>) ?S)) (okay ?S)"
      by (rule add_event_okay [OF S(1-3) s(2) refl]) simp
    from step [OF this] show ?thesis using WBlocked True s len w by (simp add: local_socket_enqueue_def sget_eq Let_def)
  next
    case WFailed
    let ?s = "s\<lparr>has_write_error := True\<rparr>"
    have "wf (sput a ?s ?S)"
      by (rule wfx_sput_same [OF S(1,3)]) (use wfxD(1) [OF wf(1) s(1)] in \<open>auto simp: wf_same_def is_local_def sock_ok_def\<close>)
    moreover have "ids_ok (sput a ?s ?S)" by (rule ids_ok_same [OF S(2)]) (use s in auto)
    ultimately have "good (close_socket a (sput a ?s ?S)) (okay (sput a ?s ?S))" by (rule close_okay) simp
    then have "good (close_socket a (sput a ?s ?S)) (okay ?S)" by (rule good_mono) (simp add: okay_def)
    from step [OF this] show ?thesis using WFailed True s len w by (simp add: local_socket_enqueue_def sget_eq Let_def)
  qed
qed

lemma sput_self: "socks S a = Some s \<Longrightarrow> sput a s S = S"
  by (simp add: sput_def fun_upd_idem)

lemma local_ready_okay:
  assumes "wf S" and "ids_ok S" and "socks S a = Some s" and "is_local s"
  shows "good (local_socket_ready a S) (okay S)"
  using add_event_okay [OF assms, of s "pkts s" FDE_READ] assms(3)
  by (simp add: local_socket_ready_def sget_eq sput_self)

lemma SendOkay_fd: "good (write_fd fd SendOkay S) (\<lambda>S1. \<exists>t. S1 = S\<lparr>fdtab := t\<rparr>)"
  by (rule good_mono [OF write_fd_good [of SendOkay]]) (auto simp: SendOkay_def dest: WriteFdExactly_good)

text \<open>\<open>s->ready(s)\<close> of a local socket.\<close>

lemma sock_ready_okay:
  assumes wf: "wf S" "ids_ok S" and s: "socks S a = Some s" "is_local s"
  shows "good (sock_ready env fuel a S) (okay S)"
proof -
  consider "rdy_fn s = local_socket_ready_fn" | "rdy_fn s = local_socket_ready_notify_fn"
    using wfxD(1) [OF wf(1) s(1)] s(2) by (auto simp: sock_ok_def)
  then show ?thesis
  proof cases
    case 1
    then show ?thesis using local_ready_okay [OF wf s] s by (simp add: sock_ready_def sock_ready_with_def sget_eq)
  next
    case 2
    let ?s = "s\<lparr>rdy_fn := local_socket_ready_fn, has_shutdown := False, cls_fn := local_socket_close_fn\<rparr>"
    have w: "wf (sput a ?s S)"
      by (rule wfx_sput_same [OF wf(1) s(1)])
         (use s(2) wfxD(1) [OF wf(1) s(1)] in \<open>auto simp: wf_same_def is_local_def sock_ok_def\<close>)
    have i: "ids_ok (sput a ?s S)" by (rule ids_ok_same [OF wf(2)]) (use s in auto)
    have "good (local_socket_ready a S1) (okay S)" if "\<exists>t. S1 = (sput a ?s S)\<lparr>fdtab := t\<rparr>" for S1
    proof -
      from that obtain t where t: "S1 = (sput a ?s S)\<lparr>fdtab := t\<rparr>" by blast
      have "good (local_socket_ready a S1) (okay S1)"
        by (rule local_ready_okay [where s = ?s]) (use w i t in \<open>auto simp: is_local_def ids_ok_def\<close>)
      then show ?thesis by (rule good_mono) (simp add: t okay_def)
    qed
    from good_bind [OF SendOkay_fd this] show ?thesis using 2 s
      by (simp add: sock_ready_def sock_ready_with_def sget_eq local_socket_ready_notify_def)
  qed
qed

lemma connect_peer_okay:
  assumes wf: "wf S" "ids_ok S" and s: "socks S a = Some s" "peer s = None" "\<not> closing s"
    and t: "trs (reg S) t \<noteq> None" and rid: "rid \<noteq> 0"
  shows "\<exists>q S'. connect_peer a rid t S = Inr (q, S') \<and> okay S S' \<and> socks S' a = Some (s\<lparr>peer := Some q\<rparr>)"
proof -
  let ?q = "next_addr S"
  let ?r = "blank_socket\<lparr>sk_id := rid, enq_fn := remote_socket_enqueue_fn, rdy_fn := remote_socket_ready_fn,
      has_shutdown := True, cls_fn := remote_socket_close_fn, sk_transport := Some t\<rparr>"
  let ?S1 = "snd (salloc ?r S)"
  have w1: "wf ?S1" by (rule wfx_alloc [OF wf(1)]) (use t in \<open>auto simp: is_local_def blank_socket_def\<close>)
  have ne: "a \<noteq> ?q" using wf_fresh [OF wf(1)] s(1) by auto
  have S1: "socks ?S1 a = Some s" "socks ?S1 ?q = Some ?r" using ne s(1) by (simp_all add: salloc_def)
  let ?S' = "sput a (s\<lparr>peer := Some ?q\<rparr>) (sput ?q (?r\<lparr>peer := Some a\<rparr>) ?S1)"
  have "wf ?S'" by (rule wf_pair [OF w1 S1(1) s(2) S1(2) _ ne s(3)]) (simp_all add: blank_socket_def)
  moreover have "ids_ok ?S'"
  proof (rule ids_ok_same [OF wf(2)])
    fix b assume "b \<in> set (local_socket_list S)"
    then have "b \<noteq> ?q" using wfxD(8) [OF wf(1)] wf_fresh [OF wf(1)] by auto
    then show "map_option sk_id (socks ?S' b) = map_option sk_id (socks S b)" using s(1) by (simp add: salloc_def)
  qed (simp_all add: salloc_def)
  moreover have "same_reg S ?S'" by (simp add: salloc_def same_reg_def)
  moreover have "connect_peer a rid t S = Inr (?q, ?S')"
  proof -
    have "create_remote_socket rid (Some t) S = Inr (?q, ?S1)"
      using rid by (simp add: create_remote_socket_def salloc_def)
    moreover have "sput ?q x (sput a y ?S1) = sput a y (sput ?q x ?S1)" for x y
      using ne by (simp add: sput_def fun_upd_twist)
    ultimately show ?thesis using S1 ne by (simp add: connect_peer_def sget_eq Let_def)
  qed
  ultimately show ?thesis using ne by (intro exI [of _ ?q] exI [of _ ?S']) (simp add: okay_def)
qed

lemma send_control_okay:
  assumes "wf S" and "ids_ok S" and "trs (reg S) t \<noteq> None"
  shows "good (send_packet (control_packet c x y) (Some t) S) (okay S)"
  using send_control_ok [OF assms(3), where c = c and x = x and y = y] assms(1,2)
  by (auto simp: control_packet_def okay_def ids_ok_def)

section \<open>Packets of open streams\<close>

text \<open>What \<open>find_local_socket\<close> finds is a listed local socket.\<close>

lemma found_local:
  assumes wf: "wf S" "ids_ok S"
  shows "\<exists>r. find_local_socket i j S = Inr r \<and>
    (\<forall>a. r = Some a \<longrightarrow> (\<exists>s. socks S a = Some s \<and> is_local s \<and> \<not> closing s \<and> sk_id s = i))"
proof -
  from find_local_socket_spec [OF wf, of i j] obtain r where r: "find_local_socket i j S = Inr r"
    and iff: "\<forall>a. r = Some a \<longleftrightarrow> a \<in> set (local_socket_list S) \<and> (\<exists>s. socks S a = Some s \<and> sk_id s = i \<and>
        (j = 0 \<or> (\<exists>q qs. peer s = Some q \<and> socks S q = Some qs \<and> sk_id qs = j)))" by (elim exE conjE) (rule that)
  have "\<exists>s. socks S a = Some s \<and> is_local s \<and> \<not> closing s \<and> sk_id s = i" if ra: "r = Some a" for a
  proof -
    obtain s where s: "socks S a = Some s" "sk_id s = i" and l: "a \<in> set (local_socket_list S)" using iff [rule_format, of a] ra by (elim iffE) blast
    have "a \<notin> set (local_socket_closing_list S)" using l wfxD(7) [OF wf(1)] by blast
    then show ?thesis using wfxD(1) [OF wf(1) s(1)] s l by (auto simp: sock_ok_def split: if_splits)
  qed
  then show ?thesis using r by blast
qed

lemma handle_okay_okay:
  assumes wf: "wf S" "ids_ok S" and t: "trs (reg S) t \<noteq> None" and p: "arg0 (msg p) \<noteq> 0"
  shows "good (handle_okay env p t S) (okay S)"
proof -
  obtain r where r: "find_local_socket (arg1 (msg p)) 0 S = Inr r"
    "\<And>a. r = Some a \<Longrightarrow> \<exists>s. socks S a = Some s \<and> is_local s \<and> \<not> closing s" using found_local [OF wf] by blast
  show ?thesis
  proof (cases r)
    case None
    then show ?thesis using r(1) send_control_okay [OF wf t] by (simp add: handle_okay_def send_close_def)
  next
    case (Some a)
    then obtain s where s: "socks S a = Some s" "is_local s" "\<not> closing s" using r(2) by blast
    show ?thesis
    proof (cases "peer s")
      case None
      from connect_peer_okay [OF wf s(1) None s(3) t p] obtain q S1 where
        S1: "connect_peer a (arg0 (msg p)) t S = Inr (q, S1)" "okay S S1" "socks S1 a = Some (s\<lparr>peer := Some q\<rparr>)" by blast
      have "good (sock_ready (ce_smart env) (ce_fuel env) a S1) (okay S1)"
        by (rule sock_ready_okay [OF _ _ S1(3)]) (use S1(2) s(2) in \<open>auto simp: okay_def is_local_def\<close>)
      then have "good (sock_ready (ce_smart env) (ce_fuel env) a S1) (okay S)"
        by (rule good_mono) (use okay_trans [OF S1(2)] in blast)
      then show ?thesis using r(1) Some s None S1(1) by (simp add: handle_okay_def sget_eq)
    next
      case q: (Some q)
      then obtain qs where "socks S q = Some qs" using wfxD(2) [OF wf(1) s(1)] by (auto simp: peer_ok_def)
      then show ?thesis using r(1) Some s q sock_ready_okay [OF wf s(1,2)] wf by (simp add: handle_okay_def sget_eq okay_def)
    qed
  qed
qed

lemma handle_close_okay:
  assumes wf: "wf S" "ids_ok S"
  shows "good (handle_close p t S) (okay S)"
proof -
  obtain r where r: "find_local_socket (arg1 (msg p)) (arg0 (msg p)) S = Inr r"
    "\<And>a. r = Some a \<Longrightarrow> \<exists>s. socks S a = Some s" using found_local [OF wf] by blast
  show ?thesis
  proof (cases r)
    case None
    then show ?thesis using r(1) wf by (simp add: handle_close_def okay_def)
  next
    case (Some a)
    then obtain s where s: "socks S a = Some s" using r(2) by blast
    have "\<exists>b. (if arg0 (msg p) = 0
                 then (case peer s of
                         None \<Rightarrow> Inr False
                       | Some q \<Rightarrow> bindR (sget q S) (\<lambda>qs. Inr (sk_transport qs \<noteq> Some t)))
                 else Inr False) = Inr b"
      using wfxD(2) [OF wf(1) s] by (auto simp: peer_ok_def sget_def split: option.splits)
    then show ?thesis using r(1) Some s close_okay [OF wf s] wf by (auto simp: handle_close_def sget_eq okay_def)
  qed
qed

lemma handle_write_okay:
  assumes wf: "wf S" "ids_ok S" and t: "trs (reg S) t \<noteq> None" and p: "pay_len p \<le> length (p_data p)"
    and fuel: "0 < ce_fuel env"
  shows "good (handle_write env p t S) (okay S)"
proof -
  obtain r where r: "find_local_socket (arg1 (msg p)) (arg0 (msg p)) S = Inr r"
    "\<And>a. r = Some a \<Longrightarrow> \<exists>s. socks S a = Some s \<and> is_local s" using found_local [OF wf] by blast
  show ?thesis
  proof (cases r)
    case None
    then show ?thesis using r(1) wf by (simp add: handle_write_def okay_def)
  next
    case (Some a)
    then obtain s where s: "socks S a = Some s" "is_local s" using r(2) by blast
    have "enq_fn s = local_socket_enqueue_fn" using wfxD(1) [OF wf(1) s(1)] s(2) by (simp add: sock_ok_def)
    then have enq: "sock_enqueue (ce_smart env) (ce_fuel env) a q S = local_socket_enqueue a q S" for q
      using s(1) fuel by (cases "ce_fuel env") (simp_all add: sget_eq)
    have "good (bindR (local_socket_enqueue a (p\<lparr>p_len := pay_len p\<rparr>) S) (\<lambda>(n, S1).
        if n = 0 then bindR (sget a S1) (\<lambda>s. send_ready (sk_id s) (arg0 (msg p)) t S1) else Inr S1)) (okay S)"
    proof (rule good_bind [OF local_enqueue_okay [OF wf s]], use p in simp, clarify)
      fix n S1 assume S1: "okay S S1" "n = 0 \<longrightarrow> socks S1 a = Some s"
      have w1: "wf S1" "ids_ok S1" "trs (reg S1) t \<noteq> None" using S1(1) t by (simp_all add: okay_def same_reg_def)
      have "good (send_ready x y t S1) (okay S)" for x y
        unfolding send_ready_def by (rule good_mono [OF send_control_okay [OF w1]]) (use okay_trans [OF S1(1)] in blast)
      then show "good (if n = 0 then bindR (sget a S1) (\<lambda>s. send_ready (sk_id s) (arg0 (msg p)) t S1) else Inr S1) (okay S)"
        using S1 by (simp add: sget_eq)
    qed
    then show ?thesis using r(1) Some enq by (simp add: handle_write_def)
  qed
qed

text \<open>
  C16: whatever a connected transport sends on its streams, the packet handler keeps the heap of
  sockets well-formed and identifiers distinct, never follows a stale pointer or fails a CHECK,
  and touches no transport and nothing outside the sockets: OKAY, CLSE and WRTE packets with
  any identifiers, with a payload of the announced size. It returns, except where a socket was
  to end the process or a client does not drain its socket.
\<close>

theorem stream_packets_safe:
  assumes "wf A" and "ids_ok A" and "trs (reg A) t = Some T" and "pay_len p \<le> length (p_data p)"
    and "command (msg p) \<in> {A_OKAY, A_CLSE, A_WRTE}" and "0 < ce_fuel env"
  shows "case handle_packet env p t A of
      Inr A' \<Rightarrow> wf A' \<and> ids_ok A' \<and> reg A' = reg A \<and> sstate.more A' = sstate.more A
    | Inl e \<Rightarrow> e = Exit 1 \<or> e = Spin"
proof -
  have live: "trs (reg A) t \<noteq> None" using assms(3) by simp
  have "good (handle_packet env p t A) (okay A)"
    using assms handle_okay_okay [OF assms(1,2) live] handle_close_okay [OF assms(1,2)]
      handle_write_okay [OF assms(1,2) live assms(4,6)]
    by (auto simp: handle_packet_def get_tr_def okay_def Let_def A_SYNC_def A_CNXN_def A_AUTH_def A_OPEN_def
        A_OKAY_def A_CLSE_def A_WRTE_def)
  then show ?thesis by (auto simp: good_def okay_def same_reg_def split: sum.splits)
qed

text \<open>A connected transport whose key is to be confirmed.\<close>

definition demo_pending :: astate where
  "demo_pending = (demo_astate (\<lambda>_. quiet_fd) 7 (Some 1) [])\<lparr>reg := put_tr 1 ((new_atransport kCsOffline)\<lparr>online := True,
     disconnects := [0]\<rparr>) demo_registry2\<rparr>"

lemma demo_pending_tr: "trs (reg demo_pending) 1 = Some ((new_atransport kCsOffline)\<lparr>online := True, disconnects := [0]\<rparr>)"
  by (simp add: demo_pending_def put_tr_def)

lemma demo_pending_ok: "wf demo_pending" "ids_ok demo_pending" "linv demo_pending"
proof -
  show "wf demo_pending"
    using fdsys_init_inv [of True]
    by (simp add: demo_pending_def demo_astate_defs wfx_def fdsys_init_def fde_idle_def)
  show "ids_ok demo_pending" by (simp add: demo_pending_def demo_astate_defs ids_ok_def)
  show "linv demo_pending"
    using fdsys_init_inv [of True]
    by (auto simp: demo_pending_def demo_astate_defs linv_def discs_def fde_idle_def fdsys_init_def put_tr_def
        demo_registry2_def new_atransport_def split: option.splits if_splits)
qed

theorem stream_packets_safe_witness:
  "\<exists>A'. handle_packet demo_core (control_packet A_OKAY 5 6) 1 demo_pending = Inr A' \<and> wf A' \<and> sent A' \<noteq> sent demo_pending"
proof -
  let ?p = "control_packet A_OKAY 5 6"
  obtain A' where A': "handle_packet demo_core ?p 1 demo_pending = Inr A'" "sent A' \<noteq> sent demo_pending"
    by (simp add: handle_packet_def control_packet_def A_SYNC_def A_CNXN_def A_AUTH_def A_OPEN_def A_OKAY_def get_tr_def
        demo_pending_def demo_astate_defs put_tr_def get_apacket_def zero_message_def handle_okay_def find_local_socket_def
        send_close_def send_packet_def seal_packet_def calculate_apacket_checksum_def packet_bytes_def)
  have "case handle_packet demo_core ?p 1 demo_pending of
      Inr A' \<Rightarrow> wf A' \<and> ids_ok A' \<and> reg A' = reg demo_pending \<and> sstate.more A' = sstate.more demo_pending
    | Inl e \<Rightarrow> e = Exit 1 \<or> e = Spin"
    by (rule stream_packets_safe [OF demo_pending_ok(1,2) demo_pending_tr])
       (simp_all add: control_packet_def get_apacket_def zero_message_def demo_core_def)
  then show ?thesis using A' by simp
qed

end
