(* ===== verification/Core_Offline.thy ===== *)
theory Core_Offline
  imports Core_Packets
begin

text \<open>
  A transport that goes offline: its sockets are closed, its listeners erased, and the pending
  confirmation of its key forgotten.
\<close>

section \<open>Parts of the state that do not matter\<close>

lemma wfx_reg:
  assumes "dom (trs R) = dom (trs (reg S))"
  shows "wfx X (S\<lparr>reg := R\<rparr>) = wfx X S"
proof -
  have "sock_ok (S\<lparr>reg := R\<rparr>) a s = sock_ok S a s" for a s
    using assms by (simp add: sock_ok_def domIff set_eq_iff)
  moreover have "peer_ok (S\<lparr>reg := R\<rparr>) a s = peer_ok S a s" for a s by (simp add: peer_ok_def split: option.splits)
  ultimately show ?thesis by (simp add: wfx_def)
qed

text \<open>Two states with the same sockets.\<close>

definition same_socks :: "'x sstate_scheme \<Rightarrow> 'x sstate_scheme \<Rightarrow> bool" where
  "same_socks S S' \<longleftrightarrow> socks S' = socks S \<and> next_addr S' = next_addr S \<and>
    local_socket_next_id S' = local_socket_next_id S \<and> local_socket_list S' = local_socket_list S \<and>
    local_socket_closing_list S' = local_socket_closing_list S \<and> device_tracker_list S' = device_tracker_list S \<and>
    sfds S' = sfds S \<and> dom (trs (reg S')) = dom (trs (reg S))"

lemma same_socks_wf: "same_socks S S' \<Longrightarrow> wfx X S' = wfx X S"
proof -
  assume a: "same_socks S S'"
  have "sock_ok S' a s = sock_ok S a s" for a s
    using a by (simp add: same_socks_def sock_ok_def domIff set_eq_iff)
  moreover have "peer_ok S' a s = peer_ok S a s" for a s using a by (simp add: same_socks_def peer_ok_def split: option.splits)
  ultimately show ?thesis using a by (simp add: wfx_def same_socks_def)
qed

lemma same_socks_ids: "same_socks S S' \<Longrightarrow> ids_ok S' = ids_ok S"
  by (simp add: same_socks_def ids_ok_def)

lemma same_socks_on_transport: "same_socks S S' \<Longrightarrow> on_transport S' t a = on_transport S t a"
  by (simp add: same_socks_def on_transport_def)

lemma same_socks_trans: "same_socks S S1 \<Longrightarrow> same_socks S1 S2 \<Longrightarrow> same_socks S S2"
  by (simp add: same_socks_def)

lemma more_lstate: "sstate.more L' = sstate.more L \<Longrightarrow>
  listener_list L' = listener_list L \<and> lfds L' = lfds L \<and> l_next L' = l_next L"
proof -
  assume m: "sstate.more L' = sstate.more L"
  have "listener_list X = listener_list (sstate.extend undefined (sstate.more X)) \<and>
    lfds X = lfds (sstate.extend undefined (sstate.more X)) \<and> l_next X = l_next (sstate.extend undefined (sstate.more X))"
    for X :: "'x lstate_scheme" by (cases X) (simp add: sstate.defs)
  then show ?thesis using m by metis
qed

lemma more_astate: "sstate.more A' = sstate.more A \<Longrightarrow> usb_transport A' = usb_transport A"
proof -
  assume m: "sstate.more A' = sstate.more A"
  have "usb_transport X = usb_transport (sstate.extend undefined (sstate.more X))" for X :: "'x astate_scheme"
    by (cases X) (simp add: sstate.defs)
  then show ?thesis using m by metis
qed

lemma linv_cong:
  assumes "linv L" and "listener_list L' = listener_list L" and "lfds L' = lfds L" and "l_next L' = l_next L"
    and "discs L' = discs L" and "dom (trs (reg L')) = dom (trs (reg L))"
  shows "linv L'"
proof -
  have "listener_ok L' x = listener_ok L x" for x using assms(2-6) by (simp add: listener_ok_def)
  then show ?thesis using assms by (simp add: linv_def)
qed

section \<open>Running the callbacks\<close>

text \<open>
  While the callbacks run, the transport still holds the entries of listeners that are gone; the
  invariant holds for the entries that are still to be run.
\<close>

abbreviation pend :: "addr \<Rightarrow> addr list \<Rightarrow> 'x lstate_scheme \<Rightarrow> 'x lstate_scheme" where
  "pend t ds L \<equiv> set_disc ((discs L)(t := ds)) L"

lemma pend_discs: "trs (reg L) t \<noteq> None \<Longrightarrow> discs (pend t ds L) = (discs L)(t := ds)"
  by (auto simp: fun_eq_iff discs_set_disc)

lemma listener_disconnect_step:
  assumes inv: "linv (pend t (d # ds) L)" and t: "trs (reg L) t \<noteq> None" and d: "d \<noteq> 0"
  shows "\<exists>l F. listener_disconnect d L = Inr (L\<lparr>listener_list := remove1 (d, l) (listener_list L), lfds := F\<rparr>) \<and>
    l_transport l = Some t \<and> linv (pend t ds (L\<lparr>listener_list := remove1 (d, l) (listener_list L), lfds := F\<rparr>))"
proof -
  let ?V = "pend t (d # ds) L"
  have D: "discs ?V = (discs L)(t := d # ds)" using pend_discs [OF t] .
  have "d \<in> set (discs ?V t)" by (simp add: D)
  then obtain l where l: "(d, l) \<in> set (listener_list ?V)" "l_transport l = Some t" using linvD(6) [OF inv _ d] by blast
  have ok: "listener_ok ?V (d, l)" using linvD(4) [OF inv l(1)] .
  then have act: "fde_active d (lfds ?V)" and one: "count_list (d # ds) d = 1"
    using l(2) D by (auto simp: listener_ok_def)
  from fde_gone [OF linvD(1) [OF inv] act] obtain F1 where F1: "fdevent_remove d (lfds ?V) = Inr F1"
    and F: "fd_inv (F1\<lparr>fdes := (fdes F1)(d := None)\<rparr>)" "fde_idle d (F1\<lparr>fdes := (fdes F1)(d := None)\<rparr>)"
      "\<And>b. b \<noteq> d \<Longrightarrow> fde_active b (F1\<lparr>fdes := (fdes F1)(d := None)\<rparr>) = fde_active b (lfds ?V) \<and>
         fde_idle b (F1\<lparr>fdes := (fdes F1)(d := None)\<rparr>) = fde_idle b (lfds ?V)" by blast
  let ?F = "F1\<lparr>fdes := (fdes F1)(d := None)\<rparr>"
  let ?L = "L\<lparr>listener_list := remove1 (d, l) (listener_list L), lfds := ?F\<rparr>"
  have run: "listener_disconnect d L = Inr ?L"
    using l(1) linv_map_of [OF inv, of d l] F1 by (simp add: listener_disconnect_def destroy_listener_def Let_def)
  have D': "discs (pend t ds ?L) = (discs L)(t := ds)" using pend_discs [where L = ?L and t = t and ds = ds] t by simp
  have other: "d \<notin> set (discs L u)" if "u \<noteq> t" for u
  proof -
    have "d \<notin> set (discs ?V u)"
      using linv_no_entry(1) [OF inv, of d u] linv_same_addr [OF inv l(1)] l(2) that d by fastforce
    then show ?thesis using that by (simp add: D)
  qed
  have "linv (pend t ds ?L)"
    by (rule linv_erase [OF inv l(1), of ?F])
       (use F one other D D' set_disc_simps(4) in \<open>auto simp: count_list_0_iff\<close>)
  then show ?thesis using run l(2) by blast
qed

lemma linv_pend_zero:
  assumes inv: "linv (pend t (0 # ds) L)" and t: "trs (reg L) t \<noteq> None"
  shows "linv (pend t ds L)"
proof -
  let ?V = "pend t (0 # ds) L" and ?W = "pend t ds L"
  have D: "discs ?V = (discs L)(t := 0 # ds)" "discs ?W = (discs L)(t := ds)" using pend_discs [OF t] by blast+
  have "listener_ok ?W x" if "x \<in> set (listener_list ?W)" for x
    using linvD(4) [OF inv, of x] that set_disc_simps(4) [of "(discs L)(t := ds)" L] set_disc_simps(4) [of "(discs L)(t := 0 # ds)" L]
    by (auto simp: listener_ok_def D)
  moreover have "\<exists>l. (d, l) \<in> set (listener_list ?W) \<and> l_transport l = Some u" if "d \<in> set (discs ?W u)" "d \<noteq> 0" for d u
    using linvD(6) [OF inv, of d u] that by (auto simp: D split: if_splits)
  ultimately show ?thesis using inv by (simp add: linv_def)
qed

lemma run_disconnects_ok:
  assumes "linv (pend t ds A)" and "trs (reg A) t \<noteq> None"
  shows "\<exists>A'. run_disconnects ds A = Inr A' \<and> linv (pend t [] A') \<and> reg A' = reg A \<and> same_socks A A' \<and>
    filter (\<lambda>x. l_transport (snd x) \<noteq> Some t) (listener_list A') =
      filter (\<lambda>x. l_transport (snd x) \<noteq> Some t) (listener_list A) \<and>
    usb_transport A' = (if 0 \<in> set ds then None else usb_transport A)"
  using assms
proof (induction ds arbitrary: A)
  case Nil
  then show ?case by (simp add: same_socks_def)
next
  case (Cons d ds)
  show ?case
  proof (cases "d = 0")
    case True
    have z: "linv (pend t ds A)" by (rule linv_pend_zero [OF Cons.prems(1) [unfolded True] Cons.prems(2)])
    have "linv (pend t ds (usb_disconnected A))"
      by (rule linv_cong [OF z]) (auto simp: usb_disconnected_def set_disc_def discs_def fun_eq_iff split: option.splits)
    from Cons.IH [OF this] Cons.prems(2) obtain A' where
      "run_disconnects ds (usb_disconnected A) = Inr A'" "linv (pend t [] A')" "reg A' = reg A" "same_socks (usb_disconnected A) A'"
      "filter (\<lambda>x. l_transport (snd x) \<noteq> Some t) (listener_list A') = filter (\<lambda>x. l_transport (snd x) \<noteq> Some t) (listener_list A)"
      "usb_transport A' = None" by (auto simp: usb_disconnected_def simp del: fun_upd_apply split: if_splits)
    then show ?thesis using True same_socks_trans [of A "usb_disconnected A"]
      by (auto simp: usb_disconnected_def same_socks_def simp del: fun_upd_apply)
  next
    case False
    from listener_disconnect_step [OF Cons.prems False] obtain l F where
      l: "listener_disconnect d A = Inr (A\<lparr>listener_list := remove1 (d, l) (listener_list A), lfds := F\<rparr>)"
        "l_transport l = Some t" "linv (pend t ds (A\<lparr>listener_list := remove1 (d, l) (listener_list A), lfds := F\<rparr>))" by blast
    let ?A = "A\<lparr>listener_list := remove1 (d, l) (listener_list A), lfds := F\<rparr>"
    have f: "filter (\<lambda>x. l_transport (snd x) \<noteq> Some t) (remove1 (d, l) xs) = filter (\<lambda>x. l_transport (snd x) \<noteq> Some t) xs" for xs
      by (induction xs) (use l(2) in auto)
    from Cons.IH [OF l(3)] Cons.prems(2) obtain A' where
      "run_disconnects ds ?A = Inr A'" "linv (pend t [] A')" "reg A' = reg A" "same_socks ?A A'"
      "filter (\<lambda>x. l_transport (snd x) \<noteq> Some t) (listener_list A') = filter (\<lambda>x. l_transport (snd x) \<noteq> Some t) (listener_list A)"
      "usb_transport A' = (if 0 \<in> set ds then None else usb_transport A)" by (auto simp: f simp del: fun_upd_apply split: if_splits)
    moreover have "same_socks A ?A" by (simp add: same_socks_def)
    ultimately show ?thesis using False l(1) same_socks_trans by (auto simp del: fun_upd_apply)
  qed
qed

section \<open>handle\_offline\<close>

lemma pend_self: "trs (reg L) t = Some T \<Longrightarrow> pend t (disconnects T) L = L"
proof -
  assume T: "trs (reg L) t = Some T"
  have "map_option (\<lambda>U. U\<lparr>disconnects := ((discs L)(t := disconnects T)) u\<rparr>) (trs (reg L) u) = trs (reg L) u" for u
    using T by (cases "trs (reg L) u") (auto simp: discs_def)
  then show ?thesis by (simp add: set_disc_def)
qed

text \<open>A listener of a transport has an entry there.\<close>

lemma linv_no_listener:
  assumes "linv L" and "discs L t = []"
  shows "filter (\<lambda>x. l_transport (snd x) \<noteq> Some t) (listener_list L) = listener_list L"
proof -
  have "l_transport (snd x) \<noteq> Some t" if "x \<in> set (listener_list L)" for x
    using linvD(4) [OF assms(1) that] assms(2) by (auto simp: listener_ok_def)
  then show ?thesis by (simp add: filter_id_conv)
qed

text \<open>The state once transport \<open>t\<close> is offline and nothing refers to it.\<close>

definition gone :: "addr \<Rightarrow> atransport \<Rightarrow> 'x astate_scheme \<Rightarrow> 'x astate_scheme \<Rightarrow> bool" where
  "gone t T A A' \<longleftrightarrow> wf A' \<and> ids_ok A' \<and> linv A' \<and>
    (\<forall>a \<in> set (local_socket_list A'). \<not> on_transport A' (Some t) a) \<and>
    listener_list A' = filter (\<lambda>x. l_transport (snd x) \<noteq> Some t) (listener_list A) \<and>
    reg A' = put_tr t (T\<lparr>online := False, disconnects := []\<rparr>) (reg A) \<and>
    usb_transport A' = (if 0 \<in> set (disconnects T) then None else usb_transport A)"

lemma handle_offline_ok:
  assumes wf: "wf A" "ids_ok A" and inv: "linv A" and T: "trs (reg A) t = Some T"
  shows "good (handle_offline t A) (\<lambda>A'. wf A' \<and> ids_ok A' \<and> linv A' \<and>
      (\<forall>a \<in> set (local_socket_list A'). \<not> on_transport A' (Some t) a) \<and>
      listener_list A' = filter (\<lambda>x. l_transport (snd x) \<noteq> Some t) (listener_list A) \<and>
      reg A' = put_tr t (T\<lparr>online := False, disconnects := []\<rparr>) (reg A) \<and>
      usb_transport A' = (if 0 \<in> set (disconnects T) then None else usb_transport A))"
proof -
  let ?T = "T\<lparr>online := False\<rparr>"
  let ?A1 = "A\<lparr>reg := put_tr t ?T (reg A)\<rparr>"
  have dom1: "dom (trs (put_tr t ?T (reg A))) = dom (trs (reg A))" using T by (auto simp: put_tr_def)
  have w1: "wf ?A1" "ids_ok ?A1" using wf dom1 by (simp_all add: wfx_reg ids_ok_def)
  have d1: "discs ?A1 = discs A" using T by (auto simp: discs_def fun_eq_iff put_tr_def)
  have i1: "linv ?A1" by (rule linv_cong [OF inv]) (use d1 dom1 in simp_all)
  have up: "upd_tr t (\<lambda>T. T\<lparr>online := False\<rparr>) A = Inr ?A1" using T by (simp add: upd_tr_def get_tr_def)
  have "good (close_all_sockets (Some t) ?A1) (\<lambda>A2. wf A2 \<and>
      (\<forall>a \<in> set (local_socket_list A2). \<not> on_transport A2 (Some t) a) \<and> kept ?A1 A2)"
    using close_all_loop_ok [OF w1(1) order_refl, of "Some t"] by (simp add: close_all_sockets_def)
  then have "good (bindR (close_all_sockets (Some t) ?A1) (\<lambda>A2. bindR (get_tr t (reg A2)) (\<lambda>T.
      bindR (run_disconnects (fst (RunDisconnects T)) A2) (\<lambda>A3. upd_tr t (\<lambda>T. snd (RunDisconnects T)) A3))))
    (\<lambda>A'. wf A' \<and> ids_ok A' \<and> linv A' \<and>
      (\<forall>a \<in> set (local_socket_list A'). \<not> on_transport A' (Some t) a) \<and>
      listener_list A' = filter (\<lambda>x. l_transport (snd x) \<noteq> Some t) (listener_list A) \<and>
      reg A' = put_tr t (T\<lparr>online := False, disconnects := []\<rparr>) (reg A) \<and>
      usb_transport A' = (if 0 \<in> set (disconnects T) then None else usb_transport A))"
  proof (rule good_bind, elim conjE)
    fix A2 assume w2: "wf A2" "\<forall>a \<in> set (local_socket_list A2). \<not> on_transport A2 (Some t) a" "kept ?A1 A2"
    have k: "reg A2 = put_tr t ?T (reg A)" "ids_ok A2" "sstate.more A2 = sstate.more ?A1"
      using w2(3) w1(2) by (auto simp: kept_def)
    have m: "listener_list A2 = listener_list A" "lfds A2 = lfds A" "l_next A2 = l_next A" "usb_transport A2 = usb_transport A"
      using more_lstate [OF k(3)] more_astate [OF k(3)] by simp_all
    have T2: "trs (reg A2) t = Some ?T" by (simp add: k put_tr_def)
    have "linv A2" by (rule linv_cong [OF i1]) (use m k in \<open>simp_all add: discs_def fun_eq_iff\<close>)
    then have "linv (pend t (disconnects T) A2)" using pend_self [OF T2] by simp
    from run_disconnects_ok [OF this] T2 obtain A3 where A3: "run_disconnects (disconnects T) A2 = Inr A3"
      "linv (pend t [] A3)" "reg A3 = reg A2" "same_socks A2 A3"
      "filter (\<lambda>x. l_transport (snd x) \<noteq> Some t) (listener_list A3) = filter (\<lambda>x. l_transport (snd x) \<noteq> Some t) (listener_list A)"
      "usb_transport A3 = (if 0 \<in> set (disconnects T) then None else usb_transport A)" using m by auto
    have T3: "trs (reg A3) t = Some ?T" using A3(3) T2 by simp
    let ?A4 = "pend t [] A3"
    have up4: "upd_tr t (\<lambda>T. snd (RunDisconnects T)) A3 = Inr ?A4"
      by (rule upd_tr_disc [OF T3]) (simp add: RunDisconnects_def)
    have r4: "reg ?A4 = put_tr t (T\<lparr>online := False, disconnects := []\<rparr>) (reg A)"
    proof -
      have "?A4 = A3\<lparr>reg := put_tr t (T\<lparr>online := False, disconnects := []\<rparr>) (reg A)\<rparr>"
        using up4 T3 A3(3) k(1) by (simp add: upd_tr_def get_tr_def RunDisconnects_def put_tr_def)
      then show ?thesis by simp
    qed
    have s4: "same_socks A2 ?A4" using A3(4) set_disc_simps(4) [of _ A3] by (simp add: same_socks_def set_disc_def)
    have "listener_list ?A4 = filter (\<lambda>x. l_transport (snd x) \<noteq> Some t) (listener_list A)"
      using linv_no_listener [OF A3(2), of t] A3(5) T3 by simp
    moreover have "usb_transport ?A4 = usb_transport A3" by (simp add: set_disc_def)
    ultimately show "good (bindR (get_tr t (reg A2)) (\<lambda>T.
        bindR (run_disconnects (fst (RunDisconnects T)) A2) (\<lambda>A3. upd_tr t (\<lambda>T. snd (RunDisconnects T)) A3)))
      (\<lambda>A'. wf A' \<and> ids_ok A' \<and> linv A' \<and>
        (\<forall>a \<in> set (local_socket_list A'). \<not> on_transport A' (Some t) a) \<and>
        listener_list A' = filter (\<lambda>x. l_transport (snd x) \<noteq> Some t) (listener_list A) \<and>
        reg A' = put_tr t (T\<lparr>online := False, disconnects := []\<rparr>) (reg A) \<and>
        usb_transport A' = (if 0 \<in> set (disconnects T) then None else usb_transport A))"
      using T2 A3 up4 r4 w2(1,2) k(2) same_socks_wf [OF s4, of "{}"] same_socks_ids [OF s4] same_socks_on_transport [OF s4] s4
      by (simp add: get_tr_def RunDisconnects_def same_socks_def gone_def)
  qed
  then show ?thesis using up by (simp add: handle_offline_def)
qed

text \<open>
  C15: a transport that goes offline loses its streams, listeners and callbacks. handle\_offline
  returns (except where a socket was to end the process or a client does not drain its socket), and
  after it no socket of the list of local sockets is bound to the transport or to a socket that is,
  exactly the transport's listeners are erased, each with its entry in the event loop, no callback
  is left registered at the transport, no other transport is touched, and a key confirmation that
  was pending is dropped if its callback was registered at the transport (and only then). Sockets
  that were closed before and still wait in the closing list to write out their data are not
  visited, so they may keep their pointer to the transport.
\<close>

theorem offline_leaves_nothing:
  assumes "wf A" and "ids_ok A" and "linv A" and "trs (reg A) t = Some T"
  shows "case handle_offline t A of
      Inr A' \<Rightarrow> wf A' \<and> ids_ok A' \<and> linv A' \<and>
        (\<forall>a \<in> set (local_socket_list A'). \<not> on_transport A' (Some t) a) \<and>
        listener_list A' = filter (\<lambda>x. l_transport (snd x) \<noteq> Some t) (listener_list A) \<and>
        reg A' = put_tr t (T\<lparr>online := False, disconnects := []\<rparr>) (reg A) \<and>
        usb_transport A' = (if 0 \<in> set (disconnects T) then None else usb_transport A)
    | Inl e \<Rightarrow> e = Exit 1 \<or> e = Spin"
  using handle_offline_ok [OF assms] by (auto simp: good_def gone_def split: sum.splits)

section \<open>Witnesses\<close>

theorem offline_leaves_nothing_witness:
  "\<exists>A'. handle_offline 1 demo_pending = Inr A' \<and> usb_transport demo_pending = Some 1 \<and> usb_transport A' = None"
proof -
  obtain A' where A': "handle_offline 1 demo_pending = Inr A'"
    by (simp add: handle_offline_def upd_tr_def get_tr_def close_all_sockets_def demo_pending_def demo_astate_defs
        put_tr_def RunDisconnects_def usb_disconnected_def close_all_loop.simps)
  then show ?thesis using offline_leaves_nothing [OF demo_pending_ok demo_pending_tr]
    by (simp add: demo_pending_def)
qed

end
