(* ===== verification/Core_Isolation.thy ===== *)
theory Core_Isolation
  imports Core_Packets
begin

text \<open>
  Streams of different transports: what the packet handler checks before a packet of one transport
  acts on a socket that belongs to another.
\<close>

section \<open>Being ready changes no other socket\<close>

definition same_but_one :: "addr \<Rightarrow> 'x sstate_scheme \<Rightarrow> 'x sstate_scheme \<Rightarrow> bool" where
  "same_but_one a S S' \<longleftrightarrow>
    (\<forall>b. b \<noteq> a \<longrightarrow> socks S' b = socks S b) \<and> map_option peer (socks S' a) = map_option peer (socks S a)"

lemma local_ready_same:
  assumes "wf S" and "socks S a = Some s" and "is_local s"
  shows "good (local_socket_ready a S) (\<lambda>S'. socks S' = socks S)"
proof -
  from wf_add_event [OF assms, of s "pkts s" FDE_READ] obtain F where
    "on_fds (fdevent_add a FDE_READ) (sput a s S) = Inr ((sput a s S)\<lparr>sfds := F\<rparr>)" by auto
  then show ?thesis using assms(2) by (simp add: local_socket_ready_def sget_eq sput_self)
qed

lemma sock_ready_same:
  assumes wf: "wf S" and s: "socks S a = Some s" "is_local s"
  shows "good (sock_ready env fuel a S) (same_but_one a S)"
proof -
  consider "rdy_fn s = local_socket_ready_fn" | "rdy_fn s = local_socket_ready_notify_fn"
    using wfxD(1) [OF wf s(1)] s(2) by (auto simp: sock_ok_def)
  then show ?thesis
  proof cases
    case 1
    have "good (local_socket_ready a S) (same_but_one a S)"
      by (rule good_mono [OF local_ready_same [OF wf s]]) (simp add: same_but_one_def)
    then show ?thesis using 1 s by (simp add: sock_ready_def sock_ready_with_def sget_eq)
  next
    case 2
    let ?s = "s\<lparr>rdy_fn := local_socket_ready_fn, has_shutdown := False, cls_fn := local_socket_close_fn\<rparr>"
    have w: "wf (sput a ?s S)"
      by (rule wfx_sput_same [OF wf s(1)])
         (use s(2) wfxD(1) [OF wf s(1)] in \<open>auto simp: wf_same_def is_local_def sock_ok_def\<close>)
    have "good (local_socket_ready a S1) (same_but_one a S)" if "\<exists>t. S1 = (sput a ?s S)\<lparr>fdtab := t\<rparr>" for S1
    proof -
      from that obtain t where t: "S1 = (sput a ?s S)\<lparr>fdtab := t\<rparr>" by blast
      have "good (local_socket_ready a S1) (\<lambda>S'. socks S' = socks S1)"
        by (rule local_ready_same [where s = ?s]) (use w t s in \<open>auto simp: is_local_def\<close>)
      then show ?thesis by (rule good_mono) (use s in \<open>simp add: t same_but_one_def\<close>)
    qed
    from good_bind [OF SendOkay_fd this] show ?thesis using 2 s
      by (simp add: sock_ready_def sock_ready_with_def sget_eq local_socket_ready_notify_def)
  qed
qed

section \<open>OKAY and CLSE from another transport\<close>

lemma listed_found:
  assumes "wf S" and "ids_ok S" and "a \<in> set (local_socket_list S)" and "socks S a = Some s"
  shows "find_local_socket (sk_id s) 0 S = Inr (Some a)"
  using find_local_socket_spec [OF assms(1,2), of "sk_id s" 0] assms(3,4) by auto

lemma listed_local:
  assumes "wf S" and "a \<in> set (local_socket_list S)" and "socks S a = Some s"
  shows "is_local s" and "\<not> closing s"
proof -
  have "a \<notin> set (local_socket_closing_list S)" using assms(2) wfxD(7) [OF assms(1)] by blast
  then show "is_local s" "\<not> closing s"
    using wfxD(1) [OF assms(1,3)] assms(2) by (auto simp: sock_ok_def split: if_splits)
qed

text \<open>
  A socket that waits for the answer to an OPEN it sent on one transport can be taken over by
  another: an OKAY packet from any connected transport that names the socket's identifier connects
  the socket to that transport, with the identifier the sender chose. Nothing compares the
  transport of the packet with the one the connection was opened on.
\<close>

theorem okay_from_other_transport:
  assumes "wf A" and "ids_ok A" and "a \<in> set (local_socket_list A)" and "socks A a = Some s"
    and "peer s = None" and "sk_transport s = Some t0" and "trs (reg A) t = Some T" and "online T" and "t \<noteq> t0"
    and "msg p = m" and "command m = A_OKAY" and "arg1 m = sk_id s" and "arg0 m \<noteq> 0"
  shows "case handle_packet env p t A of
      Inr A' \<Rightarrow> (\<exists>s' q qs. socks A' a = Some s' \<and> peer s' = Some q \<and> socks A' q = Some qs \<and>
        sk_transport qs = Some t \<and> sk_id qs = arg0 m)
    | Inl e \<Rightarrow> e = Exit 1 \<or> e = Spin"
proof -
  have id: "sk_id s \<noteq> 0" using assms(2-4) unfolding ids_ok_def by blast
  have loc: "is_local s" "\<not> closing s" using listed_local [OF assms(1,3,4)] by blast+
  have "trs (reg A) t \<noteq> None" using assms(7) by simp
  from connect_peer_okay [OF assms(1,2,4,5) loc(2) this assms(13)] obtain q A1 where
    A1: "connect_peer a (arg0 m) t A = Inr (q, A1)" "okay A A1" "socks A1 a = Some (s\<lparr>peer := Some q\<rparr>)" by blast
  have ne: "next_addr A \<noteq> a" using wf_fresh [OF assms(1)] assms(4) by auto
  have q: "q \<noteq> a \<and> (\<exists>qs. socks A1 q = Some qs \<and> sk_transport qs = Some t \<and> sk_id qs = arg0 m)"
    using A1(1) assms(4,13) ne ne [symmetric]
    by (auto simp: connect_peer_def create_remote_socket_def salloc_def sget_eq Let_def)
  have "good (sock_ready (ce_smart env) (ce_fuel env) a A1) (same_but_one a A1)"
    by (rule sock_ready_same [OF _ A1(3)]) (use A1(2) loc in \<open>auto simp: okay_def is_local_def\<close>)
  then have "good (sock_ready (ce_smart env) (ce_fuel env) a A1) (\<lambda>A'. \<exists>s' q qs. socks A' a = Some s' \<and>
      peer s' = Some q \<and> socks A' q = Some qs \<and> sk_transport qs = Some t \<and> sk_id qs = arg0 m)"
    by (rule good_mono) (use q A1(3) in \<open>auto simp: same_but_one_def\<close>)
  moreover have "handle_packet env p t A = sock_ready (ce_smart env) (ce_fuel env) a A1"
    using assms A1(1) id listed_found [OF assms(1-4)]
    by (simp add: handle_packet_def Let_def get_tr_def handle_okay_def sget_eq A_SYNC_def A_CNXN_def A_AUTH_def
        A_OPEN_def A_OKAY_def)
  ultimately show ?thesis by (auto simp: good_def split: sum.splits)
qed

text \<open>
  C23: a CLSE without a local identifier cannot close a stream of another transport: when the
  socket it names is connected to a remote socket of a transport other than the sender, the packet
  is dropped and nothing changes.
\<close>

theorem close_zero_isolated:
  assumes "wf A" and "ids_ok A" and "a \<in> set (local_socket_list A)" and "socks A a = Some s"
    and "peer s = Some q" and "socks A q = Some qs" and "sk_transport qs \<noteq> Some t" and "trs (reg A) t = Some T"
    and "msg p = m" and "command m = A_CLSE" and "arg0 m = 0" and "arg1 m = sk_id s"
  shows "handle_packet env p t A = Inr A"
  using assms listed_found [OF assms(1-4)]
  by (simp add: handle_packet_def Let_def get_tr_def handle_close_def sget_eq A_SYNC_def A_CNXN_def A_AUTH_def
      A_OPEN_def A_OKAY_def A_CLSE_def)

lemma wf_set_transport:
  assumes wf: "wf S" and s: "socks S a = Some s" and t: "trs (reg S) t \<noteq> None"
  shows "wf (sput a (s\<lparr>sk_transport := Some t\<rparr>) S)"
proof (rule wfx_update [OF wf, of a])
  let ?s = "s\<lparr>sk_transport := Some t\<rparr>"
  have 1: "sock_ok (sput a ?s S) a ?s"
    using wfxD(1) [OF wf s] t unfolding sock_ok_def by (simp add: is_local_def split: if_splits)
  have 2: "peer_ok (sput a ?s S) a ?s" using wfxD(2) [OF wf s] by (auto simp: peer_ok_def split: option.splits)
  show "sock_ok (sput a ?s S) a u \<and> (a \<notin> {} \<longrightarrow> peer_ok (sput a ?s S) a u) \<and>
      (a \<in> set (device_tracker_list (sput a ?s S)) \<longrightarrow> cls_fn u = device_tracker_close_fn)"
    if "socks (sput a ?s S) a = Some u" for u
    using that 1 2 wfxD(10) [OF wf, of a] s by auto
  show "\<exists>u. socks (sput a ?s S) a = Some u \<and> peer u = Some b"
    if "b \<noteq> a" "b \<notin> {}" "socks S b = Some u" "peer u = Some a" for b u
    using wfx_pointed [OF wf that(3,2,4)] s by simp
qed (use wfxD(3,5,6,7) [OF wf] in auto)

section \<open>Witnesses\<close>

text \<open>Two transports, the second connected, and a socket that waits on the first.\<close>

definition demo_two :: astate where
  "demo_two = (demo_astate (\<lambda>_. quiet_fd) 7 None [])\<lparr>reg := put_tr 2 ((new_atransport kCsDevice)\<lparr>online := True\<rparr>) demo_registry2\<rparr>"

lemma demo_two_ok: "wf demo_two" "ids_ok demo_two"
  using fdsys_init_inv [of True]
  by (simp_all add: demo_two_def demo_astate_defs wfx_def fdsys_init_def fde_idle_def ids_ok_def)

lemma demo_waiting:
  "\<exists>(A :: astate) s. wf A \<and> ids_ok A \<and> 1 \<in> set (local_socket_list A) \<and> socks A 1 = Some s \<and> peer s = None \<and> \<not> closing s \<and>
     sk_transport s = Some 1 \<and> sk_id s = 1 \<and> reg A = reg demo_two \<and> next_addr A = 2"
proof -
  define A1 where "A1 = snd (projr (create_local_socket 5 demo_two))"
  have A1: "create_local_socket 5 demo_two = Inr (1, A1)" "reg A1 = reg demo_two" "next_addr A1 = 2"
    "socks A1 1 = Some (blank_socket\<lparr>sk_fd := 5, sk_id := 1\<rparr>)" "local_socket_list A1 = [1]"
    by (simp_all add: A1_def demo_two_def demo_astate_defs create_local_socket_def salloc_def install_local_socket_def
        sget_def on_fds_def fdevent_install_def fdsys_init_def put_fde_def sput_def Let_def)
  have w: "wf A1" "ids_ok A1" using create_local_socket_ok(1) [OF demo_two_ok(1) A1(1)] create_local_socket_ids [OF demo_two_ok A1(1)] .
  let ?s = "blank_socket\<lparr>sk_fd := 5, sk_id := 1, sk_transport := Some 1\<rparr>"
  have w2: "wf (sput 1 ?s A1)"
    using wf_set_transport [OF w(1) A1(4), of 1] A1(2) by (simp add: demo_two_def put_tr_def)
  have i2: "ids_ok (sput 1 ?s A1)" by (rule ids_ok_same [OF w(2)]) (use A1(4) in auto)
  show ?thesis using w2 i2 A1 by (intro exI [of _ "sput 1 ?s A1"] exI [of _ ?s]) (simp add: blank_socket_def)
qed

theorem okay_from_other_transport_witness:
  "\<exists>A s. socks (A :: astate) 1 = Some s \<and> sk_transport s = Some 1 \<and>
     (case handle_packet demo_core (control_packet A_OKAY 9 1) 2 A of
        Inr A' \<Rightarrow> (\<exists>s' q qs. socks A' 1 = Some s' \<and> peer s' = Some q \<and> socks A' q = Some qs \<and> sk_transport qs = Some 2 \<and>
          sk_id qs = arg0 (msg (control_packet A_OKAY 9 1)))
      | Inl e \<Rightarrow> e = Exit 1 \<or> e = Spin)"
proof -
  obtain A :: astate and s where A: "wf A" "ids_ok A" "1 \<in> set (local_socket_list A)" "socks A 1 = Some s" "peer s = None"
    "sk_transport s = Some 1" "sk_id s = 1" "reg A = reg demo_two" using demo_waiting by blast
  have T: "trs (reg A) 2 = Some ((new_atransport kCsDevice)\<lparr>online := True\<rparr>)" using A(8) by (simp add: demo_two_def put_tr_def)
  have "case handle_packet demo_core (control_packet A_OKAY 9 1) 2 A of
        Inr A' \<Rightarrow> (\<exists>s' q qs. socks A' 1 = Some s' \<and> peer s' = Some q \<and> socks A' q = Some qs \<and> sk_transport qs = Some 2 \<and>
          sk_id qs = arg0 (msg (control_packet A_OKAY 9 1)))
      | Inl e \<Rightarrow> e = Exit 1 \<or> e = Spin"
    by (rule okay_from_other_transport [OF A(1-6) T]) (simp_all add: A(7) control_packet_def)
  then show ?thesis using A(4,6) by blast
qed

theorem close_zero_isolated_witness:
  "\<exists>(A :: astate) s q qs. socks A 1 = Some s \<and> peer s = Some q \<and> socks A q = Some qs \<and> sk_transport qs = Some 1 \<and>
     handle_packet demo_core (control_packet A_CLSE 0 1) 2 A = Inr A"
proof -
  obtain A0 :: astate and s where A0: "wf A0" "ids_ok A0" "1 \<in> set (local_socket_list A0)" "socks A0 1 = Some s" "peer s = None"
    "\<not> closing s" "sk_id s = 1" "reg A0 = reg demo_two" "next_addr A0 = 2" using demo_waiting by blast
  have "trs (reg A0) 1 \<noteq> None" by (simp add: A0(8) demo_two_def put_tr_def)
  from connect_peer_okay [OF A0(1,2,4,5,6) this, of 9] obtain q A where
    c: "connect_peer 1 9 1 A0 = Inr (q, A)" "okay A0 A" "socks A 1 = Some (s\<lparr>peer := Some q\<rparr>)" by auto
  obtain qs where qs: "socks A q = Some qs" "sk_transport qs = Some 1" "1 \<in> set (local_socket_list A)"
    using c(1) A0(3,4,9) by (auto simp: connect_peer_def create_remote_socket_def salloc_def sget_eq Let_def)
  have w: "wf A" "ids_ok A" "reg A = reg demo_two" using c(2) A0(8) by (auto simp: okay_def same_reg_def)
  have T: "trs (reg A) 2 = Some ((new_atransport kCsDevice)\<lparr>online := True\<rparr>)" using w(3) by (simp add: demo_two_def put_tr_def)
  have "handle_packet demo_core (control_packet A_CLSE 0 1) 2 A = Inr A"
    by (rule close_zero_isolated [OF w(1,2) qs(3) c(3) _ qs(1) _ T refl]) (simp_all add: qs(2) A0(7) control_packet_def)
  then show ?thesis using c(3) qs by (intro exI [of _ A] exI [of _ "s\<lparr>peer := Some q\<rparr>"] exI [of _ q] exI [of _ qs]) simp
qed

end
