(* ===== verification/Transport_Local.thy ===== *)
theory Transport_Local
  imports Registry_Life Socket_Spec
begin

text \<open>
  transport\_local.cpp: connecting to devices and emulators over TCP on the host, accepting
  connections on the device, and the thread that retries the ports of emulators that went away.

  The network is the record \<open>net_ops\<close> (libcutils and sysdeps), the value of ADBHOST an argument.
  A descriptor the code closes goes to \<open>freed_fds\<close> of the registry.
\<close>

definition DEFAULT_ADB_LOCAL_TRANSPORT_PORT :: int where "DEFAULT_ADB_LOCAL_TRANSPORT_PORT = 5555"

definition free_fd :: "fd \<Rightarrow> registry \<Rightarrow> registry" where
  "free_fd fd R = R\<lparr>freed_fds := freed_fds R @ [fd]\<rparr>"

section \<open>Connecting\<close>

text \<open>The descriptor of \<open>local_connect_arbitrary_ports\<close>, or the last error message.\<close>

definition connect_emulator_fd :: "build \<Rightarrow> net_ops \<Rightarrow> string option \<Rightarrow> int \<Rightarrow> string + fd" where
  "connect_emulator_fd b net adbhost adb_port =
    (case (if ADB_HOST b then adbhost else None) of
       None \<Rightarrow> network_loopback_client net adb_port
     | Some host \<Rightarrow>
         (case network_connect net host adb_port of
            Inr fd \<Rightarrow> if fd < 0 then network_loopback_client net adb_port else Inr fd
          | Inl _ \<Rightarrow> network_loopback_client net adb_port))"

text \<open>True is the return value 0; the string is what the code leaves in \<open>error\<close>.\<close>

definition local_connect_arbitrary_ports ::
    "build \<Rightarrow> net_ops \<Rightarrow> string option \<Rightarrow> int \<Rightarrow> int \<Rightarrow> registry \<Rightarrow> (bool \<times> string \<times> registry) res" where
  "local_connect_arbitrary_ports b net adbhost console_port adb_port R =
    bindR (if \<not> ADB_HOST b then Inr False
           else bindR (find_emulator_transport_by_adb_port adb_port R) (\<lambda>x.
                if x \<noteq> None then Inr True
                else bindR (find_emulator_transport_by_console_port console_port R) (\<lambda>y. Inr (y \<noteq> None))))
      (\<lambda>known.
        if known then Inr (False, [], R)
        else
          (case connect_emulator_fd b net adbhost adb_port of
             Inl error \<Rightarrow> Inr (False, error, R)
           | Inr fd \<Rightarrow>
               if fd < 0 then Inr (False, [], R)
               else
                 bindR (register_socket_transport b fd (Some (getEmulatorSerialString console_port)) adb_port True R)
                   (\<lambda>(ok, R1). if ok then Inr (True, [], R1) else Inr (False, [], free_fd fd R1))))"

definition local_connect :: "build \<Rightarrow> net_ops \<Rightarrow> string option \<Rightarrow> int \<Rightarrow> registry \<Rightarrow> (bool \<times> registry) res" where
  "local_connect b net adbhost port R =
    bindR (local_connect_arbitrary_ports b net adbhost (port - 1) port R) (\<lambda>(ok, _, R1). Inr (ok, R1))"

definition connect_device :: "libbase \<Rightarrow> build \<Rightarrow> net_ops \<Rightarrow> string \<Rightarrow> registry \<Rightarrow> (string \<times> registry) res" where
  "connect_device B b net address R =
    (if address = [] then Inr (''empty address'', R)
     else
       (case ParseNetAddress B address DEFAULT_ADB_LOCAL_TRANSPORT_PORT of
          Inl response \<Rightarrow> Inr (response, R)
        | Inr (host, port, serial0) \<Rightarrow>
            (case network_connect net host port of
               Inl error \<Rightarrow> Inr (''unable to connect to '' @ serial0 @ '': '' @ error, R)
             | Inr fd \<Rightarrow>
                 bindR (register_socket_transport b fd (Some serial0) port False R) (\<lambda>(ok, R1).
                   if ok then Inr (''connected to '' @ serial0, R1)
                   else Inr (''already connected to '' @ serial0, free_fd fd R1)))))"

section \<open>The client thread of the host\<close>

fun poll_ports :: "build \<Rightarrow> net_ops \<Rightarrow> string option \<Rightarrow> nat \<Rightarrow> int \<Rightarrow> registry \<Rightarrow> registry res" where
  "poll_ports b net adbhost 0 port R = Inr R"
| "poll_ports b net adbhost (Suc count) port R =
    bindR (local_connect b net adbhost port R) (\<lambda>(_, R1). poll_ports b net adbhost count (port + 2) R1)"

definition PollAllLocalPortsForEmulator :: "build \<Rightarrow> net_ops \<Rightarrow> string option \<Rightarrow> registry \<Rightarrow> registry res" where
  "PollAllLocalPortsForEmulator b net adbhost R =
    poll_ports b net adbhost ADB_LOCAL_TRANSPORT_MAX DEFAULT_ADB_LOCAL_TRANSPORT_PORT R"

text \<open>The ports to try again after one pass: \<open>--retry_count\<close> is on 32 bits.\<close>

fun retry_each ::
    "build \<Rightarrow> net_ops \<Rightarrow> string option \<Rightarrow> (int \<times> nat) list \<Rightarrow> registry \<Rightarrow> ((int \<times> nat) list \<times> registry) res" where
  "retry_each b net adbhost [] R = Inr ([], R)"
| "retry_each b net adbhost ((port, retry_count) # ports) R =
    bindR (local_connect b net adbhost port R) (\<lambda>(ok, R1).
    bindR (retry_each b net adbhost ports R1) (\<lambda>(next_ports, R2).
      let c = (if retry_count = 0 then 2 ^ 32 - 1 else retry_count - 1) in
      Inr ((if \<not> ok \<and> 0 < c then [(port, c)] else []) @ next_ports, R2)))"

text \<open>One turn of the loop of client\_socket\_thread, once there are ports to retry.\<close>

definition client_socket_round :: "build \<Rightarrow> net_ops \<Rightarrow> string option \<Rightarrow> registry \<Rightarrow> registry res" where
  "client_socket_round b net adbhost R =
    bindR (retry_each b net adbhost (retry_ports R) (R\<lparr>retry_ports := []\<rparr>)) (\<lambda>(next_ports, R1).
      Inr (R1\<lparr>retry_ports := retry_ports R1 @ next_ports\<rparr>))"

section \<open>The server threads of the device\<close>

text \<open>A connection accepted by server\_socket\_thread.\<close>

definition server_socket_accept :: "build \<Rightarrow> int \<Rightarrow> fd \<Rightarrow> registry \<Rightarrow> registry res" where
  "server_socket_accept b port fd R =
    (if fd < 0 then Inr R
     else bindR (register_socket_transport b fd (Some (''host-'' @ dec_of_int fd)) port True R) (\<lambda>(ok, R1).
       Inr (if ok then R1 else free_fd fd R1)))"

text \<open>
  One turn of qemu\_socket\_thread on descriptor \<open>fd\<close>, whose state is \<open>f\<close>; \<open>reopened\<close> is what
  qemu\_pipe\_open gives next. The result is the descriptor to go on with.
\<close>

definition qemu_socket_round ::
    "build \<Rightarrow> int \<Rightarrow> fd \<Rightarrow> fd_state \<Rightarrow> fd \<Rightarrow> registry \<Rightarrow> (fd option \<times> fd_state \<times> registry) res" where
  "qemu_socket_round b port fd f reopened R =
    bindR (WriteFdExactly f ''accept'') (\<lambda>(sent, _, f1).
      if \<not> sent then Inr (None, f1, R)
      else
        (case ReadFdExactly f1 2 [] of (got, _, tmp, f2) \<Rightarrow>
          bindR (if \<not> got \<or> tmp \<noteq> ''ok'' then Inr (f2, free_fd fd R)
                 else
                   bindR (register_socket_transport b fd (Some (''host-'' @ dec_of_int fd)) port True R) (\<lambda>(ok, R1).
                     if \<not> ok then Inr (f2, free_fd fd R1)
                     else bindR (WriteFdExactly f2 ''start'') (\<lambda>(started, _, f3).
                       Inr (f3, if started then R1 else free_fd fd R1)))) (\<lambda>(f4, R2).
            Inr (if reopened < 0 then None else Some reopened, f4, R2))))"

definition use_qemu_goldfish :: "bool \<Rightarrow> string \<Rightarrow> bool" where
  "use_qemu_goldfish ro_kernel_qemu service_adb_transport \<longleftrightarrow>
    ro_kernel_qemu \<or> service_adb_transport = ''goldfish''"

datatype local_thread = client_socket_thread | qemu_socket_thread | server_socket_thread

definition local_init :: "build \<Rightarrow> bool \<Rightarrow> string \<Rightarrow> local_thread" where
  "local_init b ro_kernel_qemu service_adb_transport =
    (if ADB_HOST b then client_socket_thread
     else if use_qemu_goldfish ro_kernel_qemu service_adb_transport then qemu_socket_thread
     else server_socket_thread)"

section \<open>Retrying ends\<close>

lemma alloc_tr_retry: "alloc_tr st R = (a, R1) \<Longrightarrow> retry_ports R1 = retry_ports R"
  by (auto simp: alloc_tr_def put_tr_def Let_def)

lemma init_socket_transport_retry:
  "init_socket_transport b a s port l R = Inr (ok, R') \<Longrightarrow> retry_ports R' = retry_ports R"
  by (auto simp: init_socket_transport_def put_tr_def Let_def split: option.splits if_splits)

lemma register_socket_transport_retry:
  "register_socket_transport b s ser port l R = Inr (ok, R') \<Longrightarrow> retry_ports R' = retry_ports R"
  by (auto simp: register_socket_transport_def delete_tr_def register_transport_def put_tr_def Let_def
      split: option.splits if_splits prod.splits dest!: alloc_tr_retry init_socket_transport_retry)

lemma local_connect_retry: "local_connect b net h port R = Inr (ok, R') \<Longrightarrow> retry_ports R' = retry_ports R"
  by (auto simp: local_connect_def local_connect_arbitrary_ports_def free_fd_def
      split: option.splits if_splits prod.splits sum.splits dest!: register_socket_transport_retry)

lemma retry_each_left:
  assumes "retry_each b net h ports R = Inr (next_ports, R')"
  shows "retry_ports R' = retry_ports R" and
    "x \<in> set next_ports \<Longrightarrow> \<exists>c. (fst x, c) \<in> set ports \<and> 0 < snd x \<and> (0 < c \<longrightarrow> c = Suc (snd x))"
  using assms
proof (induction ports arbitrary: R next_ports R')
  case (Cons p ports)
  obtain port c where p: "p = (port, c)" by (cases p)
  { case 1
    then show ?case using Cons.IH(1) by (fastforce simp: p Let_def dest: local_connect_retry)
  next
    case 2
    then obtain ok R1 rest R2 where r: "local_connect b net h port R = Inr (ok, R1)"
      "retry_each b net h ports R1 = Inr (rest, R2)"
      "next_ports = (if \<not> ok \<and> 0 < (if c = 0 then 2 ^ 32 - 1 else c - 1)
         then [(port, if c = 0 then 2 ^ 32 - 1 else c - 1)] else []) @ rest"
      by (auto simp: p Let_def)
    show ?case using Cons.IH(2) [OF _ r(2)] 2(1) r(3) by (fastforce simp: p split: if_splits)
  }
qed simp_all

fun rounds :: "build \<Rightarrow> string option \<Rightarrow> net_ops list \<Rightarrow> registry \<Rightarrow> registry res" where
  "rounds b h [] R = Inr R"
| "rounds b h (net # nets) R = bindR (client_socket_round b net h R) (rounds b h nets)"

lemma rounds_left:
  "rounds b h nets R = Inr R' \<Longrightarrow> \<forall>x \<in> set (retry_ports R). 0 < snd x \<Longrightarrow>
   x \<in> set (retry_ports R') \<Longrightarrow> \<exists>c. (fst x, c) \<in> set (retry_ports R) \<and> 0 < snd x \<and> c = snd x + length nets"
proof (induction nets arbitrary: R)
  case (Cons net nets)
  obtain next_ports R1 where r: "retry_each b net h (retry_ports R) (R\<lparr>retry_ports := []\<rparr>) = Inr (next_ports, R1)"
    "rounds b h nets (R1\<lparr>retry_ports := retry_ports R1 @ next_ports\<rparr>) = Inr R'"
    using Cons.prems(1) by (auto simp: client_socket_round_def)
  have R1: "retry_ports R1 = []" using retry_each_left(1) [OF r(1)] by simp
  have step: "\<exists>c. (fst y, c) \<in> set (retry_ports R) \<and> 0 < snd y \<and> c = Suc (snd y)" if "y \<in> set next_ports" for y
    using retry_each_left(2) [OF r(1) that] Cons.prems(2) by fastforce
  obtain c where "(fst x, c) \<in> set next_ports" "0 < snd x" "c = snd x + length nets"
    using Cons.IH [OF r(2)] R1 step Cons.prems(3) by (auto simp: Ball_def)
  then show ?case using step [of "(fst x, c)"] by auto
qed auto

text \<open>
  C25: an emulator that went away is retried for at most 60 turns of the client thread. Whatever
  the network answers in each turn, after as many turns as the largest count in the queue (60 for
  a port that remote\_close queued) nothing is left to retry, and with fewer turns every port
  left has been tried in each of them: the count it was queued with has gone down by the number
  of turns.
\<close>

theorem emulator_retries_bounded:
  assumes "\<forall>x \<in> set (retry_ports R). 0 < snd x \<and> snd x \<le> LOCAL_PORT_RETRY_COUNT"
    and "rounds b h nets R = Inr R'"
  shows "(LOCAL_PORT_RETRY_COUNT \<le> length nets \<longrightarrow> retry_ports R' = []) \<and>
    (\<forall>port c. (port, c) \<in> set (retry_ports R') \<longrightarrow> 0 < c \<and> (port, c + length nets) \<in> set (retry_ports R))"
proof -
  have left: "0 < c \<and> (port, c + length nets) \<in> set (retry_ports R)" if "(port, c) \<in> set (retry_ports R')" for port c
    using rounds_left [OF assms(2) _ that] assms(1) by auto
  have "retry_ports R' = []" if "LOCAL_PORT_RETRY_COUNT \<le> length nets"
  proof (rule ccontr)
    assume "retry_ports R' \<noteq> []"
    then obtain port c where "(port, c) \<in> set (retry_ports R')" by (cases "retry_ports R'") auto
    from left [OF this] assms(1) that show False by fastforce
  qed
  with left show ?thesis by blast
qed

definition dead_net :: net_ops where
  "dead_net = \<lparr>network_loopback_client = (\<lambda>_. Inl ''refused''), network_connect = (\<lambda>_ _. Inl ''refused''),
     network_local_client = (\<lambda>_ _. Inl ''refused''), network_inaddr_any_server = (\<lambda>_. Inl ''refused''),
     network_loopback_server = (\<lambda>_. Inl ''refused''), network_local_server = (\<lambda>_ _. Inl ''refused''),
     adb_socket_get_local_port = (\<lambda>_. -1)\<rparr>"

lemma find_emulator_in_none: "find_emulator_in R port (replicate n None) = Inr None"
  by (induction n) simp_all

lemma dead_net_round:
  "client_socket_round linux_host dead_net None ((registry_init True)\<lparr>retry_ports := [(5555, Suc c)]\<rparr>) =
     Inr ((registry_init True)\<lparr>retry_ports := (if c = 0 then [] else [(5555, c)])\<rparr>)"
  by (simp add: client_socket_round_def local_connect_def local_connect_arbitrary_ports_def
      find_emulator_transport_by_adb_port_def find_emulator_in_none find_emulator_transport_by_console_port_def
      find_transport_def registry_init_def connect_emulator_fd_def dead_net_def linux_host_def)

theorem emulator_retries_bounded_witness:
  "\<exists>R'. rounds linux_host None [dead_net, dead_net] ((registry_init True)\<lparr>retry_ports := [(5555, 3)]\<rparr>) = Inr R' \<and>
     (5555, 1) \<in> set (retry_ports R') \<and> (\<forall>port c. (port, c) \<in> set (retry_ports R') \<longrightarrow> (port, c) = (5555, 1))"
proof -
  let ?R = "(registry_init True)\<lparr>retry_ports := [(5555, 3)]\<rparr>"
  obtain R' where R': "rounds linux_host None [dead_net, dead_net] ?R = Inr R'" "(5555, 1) \<in> set (retry_ports R')"
    using dead_net_round [of 2] dead_net_round [of 1] by (simp flip: numeral_2_eq_2)
  have ok: "\<forall>x \<in> set (retry_ports ?R). 0 < snd x \<and> snd x \<le> LOCAL_PORT_RETRY_COUNT"
    by (simp add: LOCAL_PORT_RETRY_COUNT_def)
  have "(port, c) = (5555, 1)" if "(port, c) \<in> set (retry_ports R')" for port c
  proof -
    have "(port, c + length [dead_net, dead_net]) \<in> set (retry_ports ?R)"
      using emulator_retries_bounded [OF ok R'(1)] that by blast
    then show ?thesis by simp
  qed
  with R' show ?thesis by blast
qed

end
