(* ===== verification/C_Numbers.thy ===== *)
theory C_Numbers
  imports Adb_Prelude
begin

text \<open>
  What the code uses of the C library to read numbers: strtol with base 10 and with base 0 on a
  platform with 64-bit long, and atoi.
\<close>

text \<open>The value of the longest prefix of digits of base \<open>b\<close>.\<close>

fun digits_prefix :: "nat \<Rightarrow> nat \<Rightarrow> string \<Rightarrow> nat" where
  "digits_prefix b acc [] = acc"
| "digits_prefix b acc (c # s) =
    (case hex_val c of
       Some d \<Rightarrow> if d < b then digits_prefix b (b * acc + d) s else acc
     | None \<Rightarrow> acc)"

text \<open>The base and the rest of the text after a prefix, for base 0.\<close>

definition auto_base :: "string \<Rightarrow> nat \<times> string" where
  "auto_base s =
    (if skip_0x s \<noteq> s then (16, skip_0x s)
     else if s \<noteq> [] \<and> hd s = CHR ''0'' then (8, s) else (10, s))"

definition strtol_with :: "(string \<Rightarrow> nat \<times> string) \<Rightarrow> string \<Rightarrow> int" where
  "strtol_with base s =
    (let t = dropWhile is_space (c_str s);
         neg = (t \<noteq> [] \<and> hd t = CHR ''-'');
         u = (if t \<noteq> [] \<and> (hd t = CHR ''-'' \<or> hd t = CHR ''+'') then tl t else t);
         v = (case base u of (b, w) \<Rightarrow> int (digits_prefix b 0 w))
     in if neg then max (- v) (- (2 ^ 63)) else min v (2 ^ 63 - 1))"

definition strtol10 :: "string \<Rightarrow> int" where
  "strtol10 = strtol_with (\<lambda>s. (10, s))"

definition strtol0 :: "string \<Rightarrow> int" where
  "strtol0 = strtol_with auto_base"

text \<open>strtoul with base 0: the value, and whether errno is set to ERANGE.\<close>

definition strtoul0 :: "string \<Rightarrow> nat \<times> bool" where
  "strtoul0 s =
    (let t = dropWhile is_space (c_str s);
         neg = (t \<noteq> [] \<and> hd t = CHR ''-'');
         u = (if t \<noteq> [] \<and> (hd t = CHR ''-'' \<or> hd t = CHR ''+'') then tl t else t);
         v = (case auto_base u of (b, w) \<Rightarrow> digits_prefix b 0 w)
     in if 2 ^ 64 \<le> v then (2 ^ 64 - 1, True) else (if neg then (2 ^ 64 - v) mod 2 ^ 64 else v, False))"

text \<open>The conversion of a long to int.\<close>

definition to_int32 :: "int \<Rightarrow> int" where
  "to_int32 i = signed_take_bit 31 i"

definition atoi :: "string \<Rightarrow> int" where
  "atoi s = to_int32 (strtol10 s)"

lemma to_int32_id: "- (2 ^ 31) \<le> i \<Longrightarrow> i < 2 ^ 31 \<Longrightarrow> to_int32 i = i"
  by (simp add: to_int32_def signed_take_bit_int_eq_self)

text \<open>\<open>sscanf(s, "%d", &i)\<close>: None where no number can be read.\<close>

definition sscanf_d :: "string \<Rightarrow> int option" where
  "sscanf_d s =
    (let t = dropWhile is_space (c_str s);
         u = (if t \<noteq> [] \<and> (hd t = CHR ''-'' \<or> hd t = CHR ''+'') then tl t else t)
     in if u \<noteq> [] \<and> is_digit (hd u) then Some (to_int32 (strtol10 s)) else None)"

text \<open>
  \<open>sscanf(s, "%04x", &i)\<close>: at most four characters after white space, a sign and 0x among them.
\<close>

definition sscanf_x4 :: "string \<Rightarrow> int option" where
  "sscanf_x4 s =
    (let t = take 4 (dropWhile is_space (c_str s));
         neg = (t \<noteq> [] \<and> hd t = CHR ''-'');
         u = (if t \<noteq> [] \<and> (hd t = CHR ''-'' \<or> hd t = CHR ''+'') then tl t else t);
         w = skip_0x u
     in if w \<noteq> [] \<and> hex_val (hd w) \<noteq> None
        then Some (to_int32 (if neg then - int (digits_prefix 16 0 w) else int (digits_prefix 16 0 w))) else None)"

section \<open>Digits\<close>

lemma digit_facts: "is_digit c \<Longrightarrow> \<not> is_space c \<and> c \<noteq> CHR ''-'' \<and> c \<noteq> CHR ''+'' \<and> c \<noteq> CHR ''x'' \<and> c \<noteq> CHR ''X'' \<and>
    c \<noteq> CHR '','' \<and> c \<noteq> CHR 0x00"
  by (auto simp: is_digit_def is_space_def Let_def)

lemma hex_val_digit: "is_digit c \<Longrightarrow> hex_val c = Some (of_char c - 48) \<and> (of_char c - 48 :: nat) < 10"
  by (auto simp: is_digit_def hex_val_def Let_def)

lemma digits_prefix_dec:
  "\<forall>c \<in> set s. is_digit c \<Longrightarrow> digits_prefix 10 a s = foldl (\<lambda>a c. 10 * a + (of_char c - 48)) a s"
  by (induction s arbitrary: a) (auto simp: hex_val_digit)

text \<open>strtol reads decimal digits, with any number of zeros in front.\<close>

lemma foldl_zeros: "foldl (\<lambda>a c. 10 * a + (of_char c - 48)) 0 (replicate k (CHR ''0'')) = (0 :: nat)"
  by (induction k) simp_all

lemma strtol10_dec:
  assumes "n < 2 ^ 63"
  shows "strtol10 (pad0 w (dec_of_nat n)) = int n"
proof -
  let ?s = "pad0 w (dec_of_nat n)"
  have d: "\<forall>c \<in> set ?s. is_digit c" using dec_of_nat_digits [of n] by (auto simp: pad0_def is_digit_def)
  have ne: "?s \<noteq> []" using dec_of_nat_nonempty by (simp add: pad0_def)
  then have h: "is_digit (hd ?s)" using d by simp
  have "c_str ?s = ?s" using d digit_facts by (intro c_str_id) blast
  moreover have "dropWhile is_space ?s = ?s" using ne digit_facts [OF h] by (cases ?s) auto
  moreover have "digits_prefix 10 0 ?s = n" using digits_prefix_dec [OF d] by (simp add: pad0_def foldl_zeros dec_of_nat_value)
  ultimately show ?thesis using ne digit_facts [OF h] assms by (simp add: strtol10_def strtol_with_def Let_def)
qed

end
