(* ===== verification/Host_Request.thy ===== *)
theory Host_Request
  imports Listeners_Inv Transport_Local C_Numbers
begin

text \<open>
  adb.cpp, the requests of clients of the server: handle\_forward\_request, shared with the
  reverse service of the device, and handle\_host\_request. A request is answered on the
  descriptor \<open>reply_fd\<close>; the return value tells smart\_socket\_enqueue what is left to do.
\<close>

record host_env =
  he_base :: libbase
  he_acq :: acquire_env
  he_listen :: listen_env
  he_order :: "FeatureSet \<Rightarrow> string list"   \<comment> \<open>the order in which an unordered set is walked\<close>
  should_use_libusb :: bool
  ADBHOST :: "string option"

abbreviation he_build :: "host_env \<Rightarrow> build" where
  "he_build env \<equiv> acq_build (he_acq env)"

definition ADB_SERVER_VERSION :: nat where "ADB_SERVER_VERSION = 39"

text \<open>A reply, with the value the sending function returns.\<close>

definition reply :: "fd \<Rightarrow> (fd_state \<Rightarrow> (bool \<times> errno_t \<times> fd_state) res) \<Rightarrow> 'x sstate_scheme \<Rightarrow> (int \<times> 'x sstate_scheme) res" where
  "reply fd w S =
    bindR (w (fdtab S fd)) (\<lambda>(ok, e, f). Inr (if ok then 1 else 0, S\<lparr>fdtab := (fdtab S)(fd := f)\<rparr>))"

definition reply_okay :: "fd \<Rightarrow> 'x sstate_scheme \<Rightarrow> 'x sstate_scheme res" where
  "reply_okay fd S = write_fd fd SendOkay S"

text \<open>\<open>SendFail(reply_fd, ...); return 1;\<close>\<close>

definition fail_1 :: "fd \<Rightarrow> string \<Rightarrow> 'x sstate_scheme \<Rightarrow> (int \<times> 'x sstate_scheme) res" where
  "fail_1 fd reason S = bindR (write_fd fd (\<lambda>f. SendFail f reason) S) (\<lambda>S1. Inr (1, S1))"

text \<open>\<open>return SendFail(...);\<close>: a bool as int.\<close>

definition return_SendFail :: "fd \<Rightarrow> string \<Rightarrow> 'x sstate_scheme \<Rightarrow> (int \<times> 'x sstate_scheme) res" where
  "return_SendFail fd reason S = reply fd (\<lambda>f. SendFail f reason) S"

text \<open>The static \<open>SendOkay(fd, s)\<close> of adb.cpp: the results of both writes are ignored.\<close>

definition SendOkay_string :: "fd \<Rightarrow> string \<Rightarrow> 'x sstate_scheme \<Rightarrow> (int \<times> 'x sstate_scheme) res" where
  "SendOkay_string fd s S =
    bindR (reply_okay fd S) (\<lambda>S1. bindR (write_fd fd (\<lambda>f. SendProtocolString f s) S1) (\<lambda>S2. Inr (0, S2)))"

section \<open>handle\_forward\_request\<close>

definition install_message :: "InstallStatus \<Rightarrow> string \<Rightarrow> string \<Rightarrow> string" where
  "install_message r error service =
    (case r of
       INSTALL_STATUS_OK \<Rightarrow> ''success (!)''
     | INSTALL_STATUS_INTERNAL_ERROR \<Rightarrow> ''internal error''
     | INSTALL_STATUS_CANNOT_BIND \<Rightarrow> ''cannot bind listener: '' @ error
     | INSTALL_STATUS_CANNOT_REBIND \<Rightarrow> ''cannot rebind existing socket''
     | INSTALL_STATUS_LISTENER_NOT_FOUND \<Rightarrow> ''listener '' @ quoted service @ '' not found'')"

text \<open>On the host an OKAY for the connection precedes the OKAY for the status.\<close>

definition okays :: "host_env \<Rightarrow> fd \<Rightarrow> 'x sstate_scheme \<Rightarrow> 'x sstate_scheme res" where
  "okays env fd S =
    bindR (if ADB_HOST (he_build env) then reply_okay fd S else Inr S) (reply_okay fd)"

definition forward_reply ::
    "host_env \<Rightarrow> fd \<Rightarrow> string \<Rightarrow> InstallStatus \<Rightarrow> string \<Rightarrow> int \<Rightarrow> 'x sstate_scheme \<Rightarrow> (int \<times> 'x sstate_scheme) res" where
  "forward_reply env fd service r error resolved S =
    (if r = INSTALL_STATUS_OK then
       bindR (okays env fd S) (\<lambda>S1.
         if resolved \<noteq> 0
         then bindR (write_fd fd (\<lambda>f. SendProtocolString f (dec_of_int resolved)) S1) (\<lambda>S2. Inr (1, S2))
         else Inr (1, S1))
     else fail_1 fd (install_message r error service) S)"

text \<open>
  The part for one listener: \<open>service\<close> is what follows forward:, forward:norebind: or
  killforward:.
\<close>

definition forward_one ::
    "host_env \<Rightarrow> bool \<Rightarrow> bool \<Rightarrow> string \<Rightarrow> TransportType \<Rightarrow> string option \<Rightarrow> fd \<Rightarrow> 'x lstate_scheme \<Rightarrow>
     (int \<times> 'x lstate_scheme) res" where
  "forward_one env kill_forward no_rebind service type serial0 fd L =
    (let pieces = Split (he_base env) service '';'' in
     if kill_forward \<and> (length pieces \<noteq> 1 \<or> pieces ! 0 = [])
     then fail_1 fd (''bad killforward: '' @ service) L
     else if \<not> kill_forward \<and> (length pieces \<noteq> 2 \<or> pieces ! 0 = [] \<or> pieces ! 1 = [] \<or> starred (pieces ! 1))
     then fail_1 fd (''bad forward: '' @ service) L
     else
       bindR (acquire_one_transport (he_base env) (he_acq env) type serial0 False (reg L)) (\<lambda>(r, error_msg, _).
         case r of
           None \<Rightarrow> fail_1 fd error_msg L
         | Some t \<Rightarrow>
             if kill_forward then
               bindR (remove_listener (pieces ! 0) L) (\<lambda>(st, L1). forward_reply env fd service st [] 0 L1)
             else
               bindR (install_listener (he_listen env) (pieces ! 0) (c_str (pieces ! 1)) (Some t) no_rebind L)
                 (\<lambda>(st, error, resolved, L1). forward_reply env fd service st error resolved L1)))"

definition handle_forward_request ::
    "host_env \<Rightarrow> string \<Rightarrow> TransportType \<Rightarrow> string option \<Rightarrow> fd \<Rightarrow> 'x lstate_scheme \<Rightarrow> (int \<times> 'x lstate_scheme) res" where
  "handle_forward_request env service type serial0 fd L =
    (if service = ''list-forward'' then
       bindR (format_listeners L) (\<lambda>listeners.
       bindR (if ADB_HOST (he_build env) then reply_okay fd L else Inr L) (\<lambda>L1.
         reply fd (\<lambda>f. SendProtocolString f listeners) L1))
     else if service = ''killforward-all'' then
       bindR (remove_all_listeners L) (\<lambda>L1. bindR (okays env fd L1) (\<lambda>L2. Inr (1, L2)))
     else if prefix ''killforward:'' service then
       forward_one env True False (drop 12 service) type serial0 fd L
     else if prefix ''forward:'' service then
       (let rest = drop 8 service in
        if StartsWith (he_base env) rest ''norebind:''
        then forward_one env False True (drop 9 rest) type serial0 fd L
        else forward_one env False False rest type serial0 fd L)
     else Inr (0, L))"

section \<open>handle\_host\_request\<close>

definition transport_request :: "string \<Rightarrow> string option \<Rightarrow> TransportType \<times> string option" where
  "transport_request service serial0 =
    (if prefix ''transport-usb'' service then (kTransportUsb, serial0)
     else if prefix ''transport-local'' service then (kTransportLocal, serial0)
     else if prefix ''transport-any'' service then (kTransportAny, serial0)
     else if prefix ''transport:'' service then (kTransportAny, Some (drop 10 service))
     else (kTransportAny, serial0))"

definition host_transport ::
    "host_env \<Rightarrow> string \<Rightarrow> string option \<Rightarrow> fd \<Rightarrow> addr \<Rightarrow> 'x sstate_scheme \<Rightarrow> (int \<times> 'x sstate_scheme) res" where
  "host_transport env service serial0 fd a S =
    (case transport_request service serial0 of (type, ser) \<Rightarrow>
      bindR (acquire_one_transport (he_base env) (he_acq env) type ser False (reg S)) (\<lambda>(r, error, _).
        case r of
          Some t \<Rightarrow>
            bindR (sget a S) (\<lambda>s.
            bindR (reply_okay fd (sput a (s\<lparr>sk_transport := Some t\<rparr>) S)) (\<lambda>S1. Inr (1, S1)))
        | None \<Rightarrow> fail_1 fd error S))"

text \<open>The callback of reconnect-offline, over the listed transports.\<close>

definition reconnectable :: "atransport \<Rightarrow> bool" where
  "reconnectable t \<longleftrightarrow> connection_state t = kCsOffline \<or> connection_state t = kCsUnauthorized"

fun reconnect_response :: "registry \<Rightarrow> addr list \<Rightarrow> string res" where
  "reconnect_response R [] = Inr []"
| "reconnect_response R (a # as) =
    bindR (get_tr a R) (\<lambda>t.
    bindR (reconnect_response R as) (\<lambda>rest.
      Inr ((if reconnectable t then ''reconnecting '' @ serial_name t @ [CHR 0x0A] else []) @ rest)))"

definition host_reconnect_offline :: "host_env \<Rightarrow> fd \<Rightarrow> 'x sstate_scheme \<Rightarrow> (int \<times> 'x sstate_scheme) res" where
  "host_reconnect_offline env fd S =
    bindR (reconnect_response (reg S) (transport_list (reg S))) (\<lambda>response.
    bindR (close_usb_devices (he_build env) reconnectable (reg S)) (\<lambda>R.
    bindR (SendOkay_string fd (butlast response) (S\<lparr>reg := R\<rparr>)) (\<lambda>(_, S1). Inr (0, S1))))"

definition host_features :: "host_env \<Rightarrow> TransportType \<Rightarrow> string option \<Rightarrow> fd \<Rightarrow> 'x sstate_scheme \<Rightarrow> (int \<times> 'x sstate_scheme) res" where
  "host_features env type serial0 fd S =
    bindR (acquire_one_transport (he_base env) (he_acq env) type serial0 False (reg S)) (\<lambda>(r, error, _).
      case r of
        Some t \<Rightarrow>
          bindR (get_tr t (reg S)) (\<lambda>T.
          bindR (SendOkay_string fd (FeatureSetToString (he_base env) (he_order env (features T))) S) (\<lambda>(_, S1). Inr (0, S1)))
      | None \<Rightarrow> bindR (write_fd fd (\<lambda>f. SendFail f error) S) (\<lambda>S1. Inr (0, S1)))"

definition own_features :: "host_env \<Rightarrow> FeatureSet" where
  "own_features env =
    insert kFeaturePushSync ((if should_use_libusb env then {kFeatureLibusb} else {}) \<union> supported_features)"

definition host_disconnect :: "host_env \<Rightarrow> string \<Rightarrow> fd \<Rightarrow> 'x sstate_scheme \<Rightarrow> (int \<times> 'x sstate_scheme) res" where
  "host_disconnect env address fd S =
    (if address = [] then
       bindR (kick_all_tcp_devices (he_build env) (reg S)) (\<lambda>R.
         SendOkay_string fd ''disconnected everything'' (S\<lparr>reg := R\<rparr>))
     else
       (case ParseNetAddress (he_base env) address DEFAULT_ADB_LOCAL_TRANSPORT_PORT of
          Inl error \<Rightarrow> return_SendFail fd (''couldn't parse '' @ quoted address @ '': '' @ error) S
        | Inr (_, _, serial1) \<Rightarrow>
            bindR (find_transport serial1 (reg S)) (\<lambda>r.
              case r of
                None \<Rightarrow> return_SendFail fd (''no such device '' @ quoted serial1) S
              | Some t \<Rightarrow>
                  bindR (kick_transport (he_build env) t (reg S)) (\<lambda>R.
                    SendOkay_string fd (''disconnected '' @ address) (S\<lparr>reg := R\<rparr>)))))"

text \<open>get-serialno, get-devpath and get-state: something of the chosen transport, or its error.\<close>

definition host_get ::
    "host_env \<Rightarrow> (atransport \<Rightarrow> string) \<Rightarrow> TransportType \<Rightarrow> string option \<Rightarrow> fd \<Rightarrow> 'x sstate_scheme \<Rightarrow>
     (int \<times> 'x sstate_scheme) res" where
  "host_get env what type serial0 fd S =
    bindR (acquire_one_transport (he_base env) (he_acq env) type serial0 False (reg S)) (\<lambda>(r, error, _).
      case r of
        Some t \<Rightarrow> bindR (get_tr t (reg S)) (\<lambda>T. SendOkay_string fd (what T) S)
      | None \<Rightarrow> return_SendFail fd error S)"

definition or_unknown :: "string option \<Rightarrow> string" where
  "or_unknown x = (case x of Some s \<Rightarrow> s | None \<Rightarrow> ''unknown'')"

definition host_reconnect :: "host_env \<Rightarrow> TransportType \<Rightarrow> string option \<Rightarrow> fd \<Rightarrow> 'x sstate_scheme \<Rightarrow> (int \<times> 'x sstate_scheme) res" where
  "host_reconnect env type serial0 fd S =
    bindR (acquire_one_transport (he_base env) (he_acq env) type serial0 True (reg S)) (\<lambda>(r, response, _).
      case r of
        Some t \<Rightarrow>
          bindR (kick_transport (he_build env) t (reg S)) (\<lambda>R.
          bindR (get_tr t R) (\<lambda>T.
            SendOkay_string fd (''reconnecting '' @ serial_name T @ '' ['' @
              connection_state_name (acq_udev (he_acq env)) T @ '']'' @ [CHR 0x0A]) (S\<lparr>reg := R\<rparr>)))
      | None \<Rightarrow> SendOkay_string fd response S)"

definition handle_host_request ::
    "host_env \<Rightarrow> string \<Rightarrow> TransportType \<Rightarrow> string option \<Rightarrow> fd \<Rightarrow> addr \<Rightarrow> 'x lstate_scheme \<Rightarrow> (int \<times> 'x lstate_scheme) res" where
  "handle_host_request env service type serial0 fd a L =
    (if service = ''kill'' then bindR (reply_okay fd L) (\<lambda>_. Inl (Exit 0))
     else if prefix ''transport'' service then host_transport env service serial0 fd a L
     else if prefix ''devices'' service then
       (if drop 7 service = ''-l'' \<or> drop 7 service = []
        then bindR (list_transports (acq_udev (he_acq env)) (drop 7 service = ''-l'') (reg L)) (\<lambda>device_list.
               SendOkay_string fd device_list L)
        else Inr (1, L))
     else if service = ''reconnect-offline'' then host_reconnect_offline env fd L
     else if service = ''features'' then host_features env type serial0 fd L
     else if service = ''host-features'' then
       bindR (SendOkay_string fd (FeatureSetToString (he_base env) (he_order env (own_features env))) L) (\<lambda>(_, L1). Inr (0, L1))
     else if prefix ''disconnect:'' service then host_disconnect env (drop 11 service) fd L
     else if service = ''version'' then SendOkay_string fd (pad0 4 (hex_of_nat ADB_SERVER_VERSION)) L
     else if service = ''get-serialno'' then host_get env (\<lambda>t. or_unknown (serial t)) type serial0 fd L
     else if service = ''get-devpath'' then host_get env (\<lambda>t. or_unknown (devpath t)) type serial0 fd L
     else if service = ''get-state'' then
       host_get env (connection_state_name (acq_udev (he_acq env))) type serial0 fd L
     else if prefix ''emulator:'' service then
       bindR (local_connect (he_build env) (le_net (he_listen env)) (ADBHOST env) (atoi (drop 9 service)) (reg L))
         (\<lambda>(_, R). Inr (0, L\<lparr>reg := R\<rparr>))
     else if service = ''reconnect'' then host_reconnect env type serial0 fd L
     else
       bindR (handle_forward_request env service type serial0 fd L) (\<lambda>(ret, L1).
         Inr (if 0 \<le> ret then ret - 1 else -1, L1)))"

end
