(* ===== verification/Services.thy ===== *)
theory Services
  imports Adb_Core Host_Request
begin

text \<open>
  services.cpp: the services behind OPEN requests on the device and behind requests of clients on
  the host. A service thread is started with one end of a socket pair; the state records the
  threads that were started, and the functions below give what each of them does to its
  descriptor. adb\_socketpair answers from the script \<open>socketpairs\<close>.
\<close>

section \<open>State\<close>

datatype SubprocessType = kPty | kRaw

datatype SubprocessProtocol = kNone | kShell

record state_info =
  si_type :: TransportType
  si_serial :: string
  si_state :: ConnectionState

text \<open>The function of a service thread with its cookie.\<close>

datatype service_func =
    framebuffer_service | file_sync_service | remount_service | reboot_service string
  | restart_root_service | restart_unroot_service | restart_tcp_service int | restart_usb_service
  | set_verity_enabled_state_service bool | reconnect_service addr
  | wait_for_state state_info | connect_service string

record pstate = astate +
  socketpairs :: "(fd \<times> fd) option list"
  service_threads :: "(service_func \<times> fd) list"
  subprocesses :: "(string \<times> string option \<times> SubprocessType \<times> SubprocessProtocol) list"
  properties :: "(string \<times> string) list"   \<comment> \<open>SetProperty calls, in order\<close>
  closed_fds :: "fd list"

text \<open>
  The system: \<open>StartSubprocess_fd\<close> is what fork and exec of shell\_service.cpp give for the
  subprocess that is asked for, \<open>jdwp_fd\<close> what create\_jdwp\_connection\_fd gives for a process.
\<close>

record svc_env =
  se_host :: host_env
  se_root :: bool
  se_debuggable :: bool
  unix_open :: "string \<Rightarrow> fd"
  jdwp_fd :: "int \<Rightarrow> fd"
  StartSubprocess_fd :: "string \<Rightarrow> fd"
  SetProperty_ok :: "string \<Rightarrow> string \<Rightarrow> bool"
  ANDROID_RB_PROPERTY :: string
  write_bootloader_message :: "string list \<Rightarrow> bool"

abbreviation se_base :: "svc_env \<Rightarrow> libbase" where "se_base env \<equiv> he_base (se_host env)"
abbreviation se_build :: "svc_env \<Rightarrow> build" where "se_build env \<equiv> he_build (se_host env)"

definition socketpair :: "'x pstate_scheme \<Rightarrow> (fd \<times> fd) option \<times> 'x pstate_scheme" where
  "socketpair P =
    (case socketpairs P of [] \<Rightarrow> (None, P) | s # ss \<Rightarrow> (s, P\<lparr>socketpairs := ss\<rparr>))"

definition close_fd :: "fd \<Rightarrow> 'x pstate_scheme \<Rightarrow> 'x pstate_scheme" where
  "close_fd fd P = P\<lparr>closed_fds := closed_fds P @ [fd]\<rparr>"

definition set_property :: "string \<Rightarrow> string \<Rightarrow> 'x pstate_scheme \<Rightarrow> 'x pstate_scheme" where
  "set_property k v P = P\<lparr>properties := properties P @ [(k, v)]\<rparr>"

section \<open>Starting services\<close>

definition create_service_thread :: "service_func \<Rightarrow> 'x pstate_scheme \<Rightarrow> fd \<times> 'x pstate_scheme" where
  "create_service_thread func P =
    (case socketpair P of
       (None, P1) \<Rightarrow> (-1, P1)
     | (Some (s0, s1), P1) \<Rightarrow> (s0, P1\<lparr>service_threads := service_threads P1 @ [(func, s1)]\<rparr>))"

definition StartSubprocess ::
    "svc_env \<Rightarrow> string \<Rightarrow> string option \<Rightarrow> SubprocessType \<Rightarrow> SubprocessProtocol \<Rightarrow> 'x pstate_scheme \<Rightarrow> fd \<times> 'x pstate_scheme" where
  "StartSubprocess env name terminal_type type protocol P =
    (StartSubprocess_fd env name, P\<lparr>subprocesses := subprocesses P @ [(name, terminal_type, type, protocol)]\<rparr>)"

definition kShellServiceArgRaw :: string where "kShellServiceArgRaw = ''raw''"
definition kShellServiceArgPty :: string where "kShellServiceArgPty = ''pty''"
definition kShellServiceArgShellProtocol :: string where "kShellServiceArgShellProtocol = ''v2''"

text \<open>The loop over the arguments of a shell service.\<close>

fun shell_args ::
    "libbase \<Rightarrow> string list \<Rightarrow> SubprocessType \<times> SubprocessProtocol \<times> string \<Rightarrow>
     SubprocessType \<times> SubprocessProtocol \<times> string" where
  "shell_args B [] acc = acc"
| "shell_args B (arg # rest) (type, protocol, terminal) =
    shell_args B rest
      (if arg = kShellServiceArgRaw then (kRaw, protocol, terminal)
       else if arg = kShellServiceArgPty then (kPty, protocol, terminal)
       else if arg = kShellServiceArgShellProtocol then (type, kShell, terminal)
       else if StartsWith B arg ''TERM='' then (type, protocol, drop 5 arg)
       else (type, protocol, terminal))"

definition ShellService :: "svc_env \<Rightarrow> string \<Rightarrow> 'x pstate_scheme \<Rightarrow> fd \<times> 'x pstate_scheme" where
  "ShellService env args P =
    (case strchr args (CHR '':'') of
       None \<Rightarrow> (-1, P)
     | Some i \<Rightarrow>
         let service_args = take i args; cmd = drop (i + 1) args in
         (case shell_args (se_base env) (Split (se_base env) service_args '','')
             (if cmd = [] then kPty else kRaw, kNone, ''dumb'') of
            (type, protocol, terminal) \<Rightarrow> StartSubprocess env cmd (Some terminal) type protocol P))"

definition reverse_service :: "svc_env \<Rightarrow> string \<Rightarrow> 'x pstate_scheme \<Rightarrow> (fd \<times> 'x pstate_scheme) res" where
  "reverse_service env cmd P =
    (case socketpair P of
       (None, P1) \<Rightarrow> Inr (-1, P1)
     | (Some (s0, s1), P1) \<Rightarrow>
         bindR (handle_forward_request (se_host env) cmd kTransportAny None s1 P1) (\<lambda>(r, P2).
         bindR (if r < 0 then write_fd s1 (\<lambda>f. SendFail f ''not a reverse forwarding command'') P2 else Inr P2) (\<lambda>P3.
           Inr (s0, close_fd s1 P3))))"

text \<open>The chain of service names of the device.\<close>

definition device_service :: "svc_env \<Rightarrow> string \<Rightarrow> addr \<Rightarrow> 'x pstate_scheme \<Rightarrow> (fd \<times> 'x pstate_scheme) res" where
  "device_service env name t P =
    (if prefix ''dev:'' name then Inr (unix_open env (drop 4 name), P)
     else if prefix ''framebuffer:'' name then Inr (create_service_thread framebuffer_service P)
     else if prefix ''jdwp:'' name then Inr (jdwp_fd env (atoi (drop 5 name)), P)
     else if prefix ''shell'' name then Inr (ShellService env (drop 5 name) P)
     else if prefix ''exec:'' name then Inr (StartSubprocess env (drop 5 name) None kRaw kNone P)
     else if prefix ''sync:'' name then Inr (create_service_thread file_sync_service P)
     else if prefix ''remount:'' name then Inr (create_service_thread remount_service P)
     else if prefix ''reboot:'' name then Inr (create_service_thread (reboot_service (drop 7 name)) P)
     else if prefix ''root:'' name then Inr (create_service_thread restart_root_service P)
     else if prefix ''unroot:'' name then Inr (create_service_thread restart_unroot_service P)
     else if prefix ''backup:'' name then
       Inr (StartSubprocess env (''/system/bin/bu backup '' @ drop 7 name) None kRaw kNone P)
     else if prefix ''restore:'' name then Inr (StartSubprocess env ''/system/bin/bu restore'' None kRaw kNone P)
     else if prefix ''tcpip:'' name then
       (case sscanf_d (drop 6 name) of
          None \<Rightarrow> Inr (-1, P)
        | Some port \<Rightarrow> Inr (create_service_thread (restart_tcp_service port) P))
     else if prefix ''usb:'' name then Inr (create_service_thread restart_usb_service P)
     else if prefix ''reverse:'' name then reverse_service env (drop 8 name) P
     else if prefix ''disable-verity:'' name then Inr (create_service_thread (set_verity_enabled_state_service False) P)
     else if prefix ''enable-verity:'' name then Inr (create_service_thread (set_verity_enabled_state_service True) P)
     else if name = ''reconnect'' then Inr (create_service_thread (reconnect_service t) P)
     else Inr (-1, P))"

definition service_to_fd :: "svc_env \<Rightarrow> string \<Rightarrow> addr \<Rightarrow> 'x pstate_scheme \<Rightarrow> (fd \<times> 'x pstate_scheme) res" where
  "service_to_fd env name t P =
    (if is_socket_spec (se_base env) (se_build env) name then
       Inr (case socket_spec_connect (se_base env) (se_build env) (le_net (he_listen (se_host env)))
               (kLocalSocketTypes (se_build env)) name of
              Inl _ \<Rightarrow> -1 | Inr fd \<Rightarrow> fd, P)
     else if ADB_HOST (se_build env) then Inr (-1, P)
     else device_service env name t P)"

section \<open>Service threads of the device\<close>

text \<open>WriteFdExactly with its result ignored, then adb\_close.\<close>

definition write_and_close :: "fd \<Rightarrow> string \<Rightarrow> 'x pstate_scheme \<Rightarrow> 'x pstate_scheme res" where
  "write_and_close fd text P =
    bindR (write_fd fd (\<lambda>f. WriteFdExactly f text) P) (\<lambda>P1. Inr (close_fd fd P1))"

definition run_restart_root_service :: "svc_env \<Rightarrow> fd \<Rightarrow> 'x pstate_scheme \<Rightarrow> 'x pstate_scheme res" where
  "run_restart_root_service env fd P =
    (if se_root env then write_and_close fd (''adbd is already running as root'' @ [CHR 0x0A]) P
     else if \<not> se_debuggable env then write_and_close fd (''adbd cannot run as root in production builds'' @ [CHR 0x0A]) P
     else write_and_close fd (''restarting adbd as root'' @ [CHR 0x0A]) (set_property ''service.adb.root'' ''1'' P))"

definition run_restart_unroot_service :: "svc_env \<Rightarrow> fd \<Rightarrow> 'x pstate_scheme \<Rightarrow> 'x pstate_scheme res" where
  "run_restart_unroot_service env fd P =
    (if \<not> se_root env then write_and_close fd (''adbd not running as root'' @ [CHR 0x0A]) P
     else write_and_close fd (''restarting adbd as non root'' @ [CHR 0x0A]) (set_property ''service.adb.root'' ''0'' P))"

definition run_restart_tcp_service :: "int \<Rightarrow> fd \<Rightarrow> 'x pstate_scheme \<Rightarrow> 'x pstate_scheme res" where
  "run_restart_tcp_service port fd P =
    (if port \<le> 0 then write_and_close fd (''invalid port '' @ dec_of_int port @ [CHR 0x0A]) P
     else write_and_close fd (''restarting in TCP mode port: '' @ dec_of_int port @ [CHR 0x0A])
       (set_property ''service.adb.tcp.port'' (dec_of_int port) P))"

definition run_restart_usb_service :: "fd \<Rightarrow> 'x pstate_scheme \<Rightarrow> 'x pstate_scheme res" where
  "run_restart_usb_service fd P =
    write_and_close fd (''restarting in USB mode'' @ [CHR 0x0A]) (set_property ''service.adb.tcp.port'' ''0'' P)"

definition reboot_service_impl :: "svc_env \<Rightarrow> fd \<Rightarrow> string \<Rightarrow> 'x pstate_scheme \<Rightarrow> (bool \<times> 'x pstate_scheme) res" where
  "reboot_service_impl env fd arg P =
    (let auto_reboot = (arg = ''sideload-auto-reboot'');
         reboot_arg = (if auto_reboot then ''sideload'' else arg) in
     if reboot_arg = ''sideload'' \<and> \<not> se_root env then
       bindR (write_fd fd (\<lambda>f. WriteFdExactly f (quoted ''adb root'' @ '' is required for '' @ quoted ''adb reboot sideload'' @ ''.'' @ [CHR 0x0A])) P)
         (\<lambda>P1. Inr (False, P1))
     else if reboot_arg = ''sideload'' \<and>
         \<not> write_bootloader_message env [if auto_reboot then ''--sideload_auto_reboot'' else ''--sideload'']
     then Inr (False, P)
     else
       (let reboot_string = ''reboot,'' @ (if reboot_arg = ''sideload'' then ''recovery'' else reboot_arg) in
        if SetProperty_ok env (ANDROID_RB_PROPERTY env) reboot_string
        then Inr (True, set_property (ANDROID_RB_PROPERTY env) reboot_string P)
        else bindR (write_fd fd (\<lambda>f. WriteFdExactly f (''reboot ('' @ reboot_string @ '') failed'' @ [CHR 0x0A])) P)
               (\<lambda>P1. Inr (False, P1))))"

text \<open>After a successful request the thread pauses for ever, with the descriptor open.\<close>

definition run_reboot_service :: "svc_env \<Rightarrow> string \<Rightarrow> fd \<Rightarrow> 'x pstate_scheme \<Rightarrow> 'x pstate_scheme res" where
  "run_reboot_service env arg fd P =
    bindR (reboot_service_impl env fd arg P) (\<lambda>(ok, P1). Inr (if ok then P1 else close_fd fd P1))"

definition run_reconnect_service :: "svc_env \<Rightarrow> addr \<Rightarrow> fd \<Rightarrow> 'x pstate_scheme \<Rightarrow> 'x pstate_scheme res" where
  "run_reconnect_service env t fd P =
    bindR (write_and_close fd ''done'' P) (\<lambda>P1.
    bindR (kick_transport (se_build env) t (reg P1)) (\<lambda>R. Inr (P1\<lparr>reg := R\<rparr>)))"

section \<open>Service threads of the host\<close>

text \<open>What \<open>adb_poll\<close> says about the client while nothing matches.\<close>

datatype poll_answer = PollError | PollHangup | PollOther

datatype wait_result = WaitOkay | WaitFail string | WaitGone

text \<open>
  The loop of wait\_for\_state. The main thread goes on meanwhile, so each turn sees a registry of
  its own; \<open>obs\<close> is what the turns see, and None that the loop is still waiting after them. Within a
  turn the registry does not change: the code releases transport\_lock between choosing the
  transport and reading its state, and that the main thread could free it in between is not
  represented.
\<close>

fun wait_loop :: "svc_env \<Rightarrow> state_info \<Rightarrow> (registry \<times> poll_answer) list \<Rightarrow> wait_result option res" where
  "wait_loop env si [] = Inr None"
| "wait_loop env si ((R, poll) # obs) =
    bindR (acquire_one_transport (se_base env) (he_acq (se_host env)) (si_type si)
        (if si_serial si = [] then None else Some (si_serial si)) False R) (\<lambda>(r, error, is_ambiguous).
    bindR (case r of
             None \<Rightarrow> Inr False
           | Some t \<Rightarrow> bindR (get_tr t R) (\<lambda>T. Inr (si_state si = kCsAny \<or> si_state si = connection_state T)))
      (\<lambda>there.
        if there then Inr (Some WaitOkay)
        else if is_ambiguous then Inr (Some (WaitFail error))
        else (case poll of
                PollError \<Rightarrow> Inr (Some (WaitFail error))
              | PollHangup \<Rightarrow> Inr (Some WaitGone)
              | PollOther \<Rightarrow> wait_loop env si obs)))"

definition run_wait_for_state ::
    "svc_env \<Rightarrow> state_info \<Rightarrow> (registry \<times> poll_answer) list \<Rightarrow> fd \<Rightarrow> 'x pstate_scheme \<Rightarrow> 'x pstate_scheme option res" where
  "run_wait_for_state env si obs fd P =
    bindR (wait_loop env si obs) (\<lambda>r.
      case r of
        None \<Rightarrow> Inr None
      | Some WaitOkay \<Rightarrow> bindR (write_fd fd SendOkay P) (\<lambda>P1. Inr (Some (close_fd fd P1)))
      | Some (WaitFail error) \<Rightarrow> bindR (write_fd fd (\<lambda>f. SendFail f error) P) (\<lambda>P1. Inr (Some (close_fd fd P1)))
      | Some WaitGone \<Rightarrow> Inr (Some (close_fd fd P)))"

definition connect_emulator :: "svc_env \<Rightarrow> string \<Rightarrow> registry \<Rightarrow> (string \<times> registry) res" where
  "connect_emulator env port_spec R =
    (case Split (se_base env) port_spec '','' of
       [p0, p1] \<Rightarrow>
         let console_port = to_int32 (strtol0 p0); adb_port = to_int32 (strtol0 p1);
             ports = dec_of_int console_port @ '','' @ dec_of_int adb_port in
         if console_port \<le> 0 \<or> adb_port \<le> 0 then Inr (''Invalid port numbers: '' @ port_spec, R)
         else
           bindR (find_emulator_transport_by_adb_port adb_port R) (\<lambda>known.
             if known \<noteq> None then Inr (''Emulator already registered on port '' @ dec_of_int adb_port, R)
             else if get_available_local_transport_index R = None then Inr (''Cannot accept more emulators'', R)
             else
               bindR (local_connect_arbitrary_ports (se_build env) (le_net (he_listen (se_host env)))
                   (ADBHOST (se_host env)) console_port adb_port R) (\<lambda>(ok, error, R1).
                 Inr (if ok then ''Connected to emulator on ports '' @ ports
                      else ''Could not connect to emulator on ports '' @ ports @ '': '' @ error, R1)))
     | _ \<Rightarrow> Inr (''unable to parse '' @ quoted port_spec @ '' as <console port>,<adb port>'', R))"

definition run_connect_service :: "svc_env \<Rightarrow> string \<Rightarrow> fd \<Rightarrow> 'x pstate_scheme \<Rightarrow> 'x pstate_scheme res" where
  "run_connect_service env host fd P =
    bindR (if prefix ''emu:'' host then connect_emulator env (drop 4 host) (reg P)
           else connect_device (se_base env) (se_build env) (le_net (he_listen (se_host env))) host (reg P))
      (\<lambda>(response, R).
        bindR (write_fd fd (\<lambda>f. SendProtocolString f response) (P\<lparr>reg := R\<rparr>)) (\<lambda>P1. Inr (close_fd fd P1)))"

section \<open>host\_service\_to\_socket\<close>

text \<open>The name of a wait-for service without its prefix: the kind of transport and the state.\<close>

definition wait_spec :: "string \<Rightarrow> (TransportType \<times> ConnectionState) option" where
  "wait_spec name =
    (case (if prefix ''local'' name then Some (kTransportLocal, drop 5 name)
           else if prefix ''usb'' name then Some (kTransportUsb, drop 3 name)
           else if prefix ''any'' name then Some (kTransportAny, drop 3 name) else None) of
       None \<Rightarrow> None
     | Some (type, rest) \<Rightarrow>
         if rest = ''-device'' then Some (type, kCsDevice)
         else if rest = ''-recovery'' then Some (type, kCsRecovery)
         else if rest = ''-sideload'' then Some (type, kCsSideload)
         else if rest = ''-bootloader'' then Some (type, kCsBootloader)
         else if rest = ''-any'' then Some (type, kCsAny)
         else None)"

definition thread_socket :: "service_func \<Rightarrow> 'x pstate_scheme \<Rightarrow> (addr option \<times> 'x pstate_scheme) res" where
  "thread_socket func P =
    (case create_service_thread func P of (fd, P1) \<Rightarrow>
      bindR (create_local_socket fd P1) (\<lambda>(a, P2). Inr (Some a, P2)))"

definition host_service_to_socket :: "string \<Rightarrow> string option \<Rightarrow> 'x pstate_scheme \<Rightarrow> (addr option \<times> 'x pstate_scheme) res" where
  "host_service_to_socket name serial0 P =
    (if name = ''track-devices'' then (case create_device_tracker P of (a, P1) \<Rightarrow> Inr (Some a, P1))
     else if prefix ''wait-for-'' name then
       (case wait_spec (drop 9 name) of
          None \<Rightarrow> Inr (None, P)
        | Some (type, state) \<Rightarrow>
            thread_socket (wait_for_state \<lparr>si_type = type,
              si_serial = (case serial0 of Some s \<Rightarrow> s | None \<Rightarrow> []), si_state = state\<rparr>) P)
     else if prefix ''connect:'' name then thread_socket (connect_service (drop 8 name)) P
     else Inr (None, P))"

section \<open>The whole server\<close>

text \<open>The parameters of the sockets and of the packet handler, given by the definitions above.\<close>

definition server_smart :: "svc_env \<Rightarrow> 'x pstate_ext astate_ext lstate_ext smart_env" where
  "server_smart env =
    \<lparr>sm_base = se_base env, sm_acq = he_acq (se_host env),
     handle_host_request_fn = handle_host_request (se_host env),
     host_service_fn = host_service_to_socket\<rparr>"

definition server_core :: "svc_env \<Rightarrow> auth_env \<Rightarrow> nat \<Rightarrow> 'x pstate_ext astate_ext lstate_ext core_env \<Rightarrow> 'x pstate_ext astate_ext lstate_ext core_env" where
  "server_core env auth fuel jdwp =
    \<lparr>ce_auth = auth, ce_smart = server_smart env, ce_listen = he_listen (se_host env), ce_fuel = fuel,
     service_to_fd_fn = service_to_fd env,
     create_jdwp_service_socket_fn = create_jdwp_service_socket_fn jdwp,
     create_jdwp_tracker_fn = create_jdwp_tracker_fn jdwp,
     uid_is_root = se_root env, log_is_debuggable = se_debuggable env\<rparr>"

end
