(* ===== verification/Services_Props.thy ===== *)
theory Services_Props
  imports Services
begin

text \<open>
  The services: when waiting for a device ends and how, and what a client hears of a reverse command
  the device does not know.
\<close>

section \<open>Waiting for a state\<close>

definition wait_serial :: "state_info \<Rightarrow> string option" where
  "wait_serial si = (if si_serial si = [] then None else Some (si_serial si))"

abbreviation wait_matches :: "svc_env \<Rightarrow> state_info \<Rightarrow> registry \<Rightarrow> addr list" where
  "wait_matches env si R \<equiv> matching (se_base env) (si_type si) (wait_serial si) R (transport_list R)"

text \<open>The one transport that matches is usable and in the state that is waited for.\<close>

definition in_state :: "svc_env \<Rightarrow> state_info \<Rightarrow> registry \<Rightarrow> bool" where
  "in_state env si R \<longleftrightarrow>
    (\<exists>t T. wait_matches env si R = [t] \<and> trs R t = Some T \<and> connection_state T \<notin> {kCsOffline, kCsUnauthorized} \<and>
       (si_state si = kCsAny \<or> si_state si = connection_state T))"

definition undecided :: "svc_env \<Rightarrow> state_info \<Rightarrow> registry \<times> poll_answer \<Rightarrow> bool" where
  "undecided env si x \<longleftrightarrow> \<not> in_state env si (fst x) \<and> length (wait_matches env si (fst x)) \<le> 1 \<and> snd x = PollOther"

lemma wait_turn:
  assumes "set (transport_list R) \<subseteq> dom (trs R)"
  shows "\<exists>r. wait_loop env si ((R, poll) # obs) =
      (if undecided env si (R, poll) then wait_loop env si obs else Inr (Some r)) \<and>
    (\<not> undecided env si (R, poll) \<longrightarrow> (r = WaitOkay \<longleftrightarrow> in_state env si R))"
proof -
  from acquire_outcome [OF assms, of "se_base env" "he_acq (se_host env)" "si_type si" "wait_serial si" False]
  obtain r err amb where a: "acquire_one_transport (se_base env) (he_acq (se_host env)) (si_type si) (wait_serial si) False R =
      Inr (r, err, amb)"
    and r: "\<And>t. r = Some t \<longleftrightarrow> wait_matches env si R = [t] \<and>
      (\<exists>T. trs R t = Some T \<and> connection_state T \<notin> {kCsOffline, kCsUnauthorized})"
    and amb: "amb \<longleftrightarrow> 2 \<le> length (wait_matches env si R)" by auto
  have there: "(case r of None \<Rightarrow> Inr False
      | Some t \<Rightarrow> bindR (get_tr t R) (\<lambda>T. Inr (si_state si = kCsAny \<or> si_state si = connection_state T))) = Inr (in_state env si R)"
  proof (cases r)
    case None
    then have "\<not> in_state env si R" using r by (auto simp: in_state_def)
    then show ?thesis using None by simp
  next
    case (Some t)
    then obtain T where "trs R t = Some T" "wait_matches env si R = [t]" "connection_state T \<notin> {kCsOffline, kCsUnauthorized}" using r by blast
    then show ?thesis using Some by (auto simp: in_state_def get_tr_def)
  qed
  have amb_in: "\<not> (amb \<and> in_state env si R)" using amb by (auto simp: in_state_def)
  show ?thesis
    using a there amb amb_in by (cases poll) (auto simp: undecided_def wait_serial_def)
qed

text \<open>
  C26: wait-for-device and its kin answer OKAY at the right moment. Whatever the registry is in each
  turn of the loop, as long as the listed transports are live, the loop touches no freed transport; it
  is still waiting exactly when in no turn the wanted state was seen, more than one transport matched
  or the client was gone; and it answers OKAY exactly when the one transport that matches is in the
  wanted state (and neither offline nor unauthorized) in the first turn that decides.
\<close>

theorem wait_for_state_spec:
  assumes "\<forall>x \<in> set obs. set (transport_list (fst x)) \<subseteq> dom (trs (fst x))"
  shows "\<exists>r. wait_loop env si obs = Inr r \<and>
    (r = None \<longleftrightarrow> (\<forall>x \<in> set obs. undecided env si x)) \<and>
    (r = Some WaitOkay \<longleftrightarrow> (\<exists>i < length obs. in_state env si (fst (obs ! i)) \<and> (\<forall>j < i. undecided env si (obs ! j))))"
  using assms
proof (induction obs)
  case Nil
  then show ?case by simp
next
  case (Cons x obs)
  obtain R poll where x: "x = (R, poll)" by force
  from wait_turn [of R env si poll obs] Cons.prems x obtain r where
    t: "wait_loop env si (x # obs) = (if undecided env si x then wait_loop env si obs else Inr (Some r))"
    "\<not> undecided env si x \<longrightarrow> (r = WaitOkay \<longleftrightarrow> in_state env si R)" by auto
  show ?case
  proof (cases "undecided env si x")
    case True
    then have "\<not> in_state env si (fst x)" by (simp add: undecided_def)
    then have "(\<exists>i < length (x # obs). in_state env si (fst ((x # obs) ! i)) \<and> (\<forall>j < i. undecided env si ((x # obs) ! j))) \<longleftrightarrow>
        (\<exists>i < length obs. in_state env si (fst (obs ! i)) \<and> (\<forall>j < i. undecided env si (obs ! j)))"
      using True by (simp add: Ex_less_Suc2 All_less_Suc2)
    with Cons t True show ?thesis by auto
  next
    case False
    then have "(\<exists>i < length (x # obs). in_state env si (fst ((x # obs) ! i)) \<and> (\<forall>j < i. undecided env si ((x # obs) ! j))) \<longleftrightarrow>
        in_state env si R"
      using x by (simp add: Ex_less_Suc2 All_less_Suc2)
    with t False show ?thesis by auto
  qed
qed

section \<open>Reverse commands\<close>

definition forward_command :: "string \<Rightarrow> bool" where
  "forward_command s \<longleftrightarrow> s = ''list-forward'' \<or> s = ''killforward-all'' \<or> prefix ''killforward:'' s \<or> prefix ''forward:'' s"

text \<open>
  A reverse command the device does not know is answered with nothing. reverse\_service means to send
  a failure when handle\_forward\_request says that the command is not its own, but it tests for a
  negative result and the function returns 0: the client's end of the socket pair is handed out, the
  other end is closed, and no byte has been written to it.
\<close>

theorem reverse_unknown_no_reply:
  assumes "\<not> forward_command cmd" and "socketpairs P = Some (s0, s1) # ss"
  shows "\<exists>P'. reverse_service env cmd P = Inr (s0, P') \<and> fdtab P' = fdtab P \<and> closed_fds P' = closed_fds P @ [s1]"
  using assms by (simp add: reverse_service_def socketpair_def handle_forward_request_def forward_command_def close_fd_def)

section \<open>Witnesses\<close>

definition demo_svc :: "bool \<Rightarrow> svc_env" where
  "demo_svc host =
    \<lparr>se_host = \<lparr>he_base = libbase_ref, he_acq = demo_env\<lparr>acq_build := \<lparr>ADB_HOST = host, ADB_LINUX = True, ADB_WINDOWS = False\<rparr>\<rparr>,
       he_listen = demo_listen, he_order = (\<lambda>_. []), should_use_libusb = False, ADBHOST = None\<rparr>,
     se_root = False, se_debuggable = True, unix_open = (\<lambda>_. -1), jdwp_fd = (\<lambda>_. -1), StartSubprocess_fd = (\<lambda>_. 9),
     SetProperty_ok = (\<lambda>_ _. True), ANDROID_RB_PROPERTY = ''reboot'', write_bootloader_message = (\<lambda>_. True)\<rparr>"

lemma demo_svc_simps [simp]:
  "he_base (se_host (demo_svc h)) = libbase_ref" "ADB_HOST (acq_build (he_acq (se_host (demo_svc h)))) = h"
  by (simp_all add: demo_svc_def)

definition demo_pstate :: "(fd \<times> fd) option list \<Rightarrow> pstate" where
  "demo_pstate sp = astate.extend
    (lstate.extend (lstate_init (sstate_init (registry_init True) (\<lambda>_. quiet_fd)))
      (astate.fields True 7 None False (fdsys_init True) [] [] True False)) (pstate.fields sp [] [] [] [])"

lemmas demo_pstate_defs = demo_pstate_def lstate_init_def sstate_init_def sstate.defs lstate.defs astate.defs pstate.defs

theorem wait_for_state_spec_witness:
  "wait_loop (demo_svc True) \<lparr>si_type = kTransportUsb, si_serial = [], si_state = kCsDevice\<rparr>
     [(registry_init True, PollOther), (demo_registry, PollOther)] = Inr (Some WaitOkay)"
proof -
  let ?si = "\<lparr>si_type = kTransportUsb, si_serial = [], si_state = kCsDevice\<rparr>"
  let ?obs = "[(registry_init True, PollOther), (demo_registry, PollOther)]"
  have live: "\<forall>x \<in> set ?obs. set (transport_list (fst x)) \<subseteq> dom (trs (fst x))"
    by (simp add: registry_init_def demo_registry_def)
  have u: "undecided (demo_svc True) ?si (registry_init True, PollOther)"
    by (simp add: undecided_def in_state_def matching_def registry_init_def)
  have i: "in_state (demo_svc True) ?si demo_registry"
    by (simp add: in_state_def matching_def demo_registry_def selects_def wait_serial_def new_atransport_def)
  have "\<exists>i < length ?obs. in_state (demo_svc True) ?si (fst (?obs ! i)) \<and> (\<forall>j < i. undecided (demo_svc True) ?si (?obs ! j))"
    using u i by (intro exI [of _ 1]) simp
  with wait_for_state_spec [OF live, of "demo_svc True" ?si] show ?thesis by auto
qed

theorem reverse_unknown_no_reply_witness:
  "\<exists>P'. reverse_service (demo_svc False) ''bogus'' (demo_pstate [Some (3, 4)]) = Inr (3, P') \<and>
     fdtab P' = fdtab (demo_pstate [Some (3, 4)]) \<and> closed_fds P' = [4]"
proof -
  have "\<not> forward_command ''bogus''" by (simp add: forward_command_def)
  moreover have "socketpairs (demo_pstate [Some (3, 4)]) = Some (3, 4) # []" "closed_fds (demo_pstate [Some (3, 4)]) = []"
    by (simp_all add: demo_pstate_defs)
  ultimately show ?thesis using reverse_unknown_no_reply [of "''bogus''" "demo_pstate [Some (3, 4)]" 3 4 "[]" "demo_svc False"] by simp
qed

end
