(* ===== verification/Host_Safe.thy ===== *)
theory Host_Safe
  imports Core_Offline Core_Isolation Services_Props
begin

text \<open>
  No request to the server itself breaks it: handle\_host\_request and, for the requests it leaves,
  host\_service\_to\_socket keep sockets, listeners and transports consistent and follow no stale pointer.
\<close>

section \<open>The state of a server\<close>

definition server_ok :: "'x lstate_scheme \<Rightarrow> bool" where
  "server_ok L \<longleftrightarrow> wf L \<and> ids_ok L \<and> linv L \<and> reg_inv (reg L)"

lemma server_ok_live: "server_ok L \<Longrightarrow> set (transport_list (reg L)) \<subseteq> dom (trs (reg L))"
  unfolding server_ok_def reg_inv_def by (elim conjE) (rule reg_okD(7))

lemma linv_fdtab: "linv (L\<lparr>fdtab := t\<rparr>) = linv L"
proof
  show "linv L" if "linv (L\<lparr>fdtab := t\<rparr>)" by (rule linv_cong [OF that]) (simp_all add: discs_def fun_eq_iff)
  show "linv (L\<lparr>fdtab := t\<rparr>)" if "linv L" by (rule linv_cong [OF that]) (simp_all add: discs_def fun_eq_iff)
qed

lemma server_ok_fdtab [simp]: "server_ok (L\<lparr>fdtab := t\<rparr>) = server_ok L"
  by (simp add: server_ok_def linv_fdtab ids_ok_def)

text \<open>Transports that changed in nothing the listeners know of.\<close>

definition same_disc :: "registry \<Rightarrow> registry \<Rightarrow> bool" where
  "same_disc R R' \<longleftrightarrow> (\<forall>a. map_option disconnects (trs R' a) = map_option disconnects (trs R a))"

lemma same_disc_trans: "same_disc R R1 \<Longrightarrow> same_disc R1 R2 \<Longrightarrow> same_disc R R2"
  by (simp add: same_disc_def)

lemma same_disc_dom: "same_disc R R' \<Longrightarrow> dom (trs R') = dom (trs R)"
  unfolding same_disc_def by (metis (no_types) domIff map_option_is_None subsetI subset_antisym)

lemma server_ok_reg:
  assumes "server_ok L" and "reg_inv R" and "same_disc (reg L) R"
  shows "server_ok (L\<lparr>reg := R\<rparr>)"
proof -
  have d: "discs (L\<lparr>reg := R\<rparr>) = discs L"
  proof
    fix a show "discs (L\<lparr>reg := R\<rparr>) a = discs L a"
      using assms(3) unfolding same_disc_def discs_def
      by (cases "trs R a"; cases "trs (reg L) a") (auto dest: spec [of _ a])
  qed
  have "linv (L\<lparr>reg := R\<rparr>)"
    by (rule linv_cong [of L]) (use assms(1) d same_disc_dom [OF assms(3)] in \<open>simp_all add: server_ok_def\<close>)
  then show ?thesis
    using assms(1,2) wfx_reg [OF same_disc_dom [OF assms(3)], of "{}"] by (simp add: server_ok_def ids_ok_def)
qed

lemma same_disc_put: "trs R a = Some t \<Longrightarrow> disconnects t' = disconnects t \<Longrightarrow> same_disc R (put_tr a t' R)"
  by (simp add: same_disc_def put_tr_def)

lemma same_disc_fields [simp]:
  "same_disc R (R'\<lparr>shut_fds := x\<rparr>) = same_disc R R'" "same_disc R (R'\<lparr>freed_fds := x\<rparr>) = same_disc R R'"
  "same_disc R (R'\<lparr>local_transports := y\<rparr>) = same_disc R R'" "same_disc R (R'\<lparr>usb_kicks := z\<rparr>) = same_disc R R'"
  by (simp_all add: same_disc_def)

lemma Kick_same_disc: "Kick b a R = Inr R' \<Longrightarrow> same_disc R R'"
  by (auto simp: Kick_def socket_remote_kick_def usb_remote_kick_def Let_def put_tr_def same_disc_def
      split: if_splits transport_funcs.splits)

lemma kick_each_same_disc: "kick_each b P as R = Inr R' \<Longrightarrow> same_disc R R'"
proof (induction as arbitrary: R)
  case Nil
  then show ?case by (simp add: same_disc_def)
next
  case (Cons a as)
  then obtain t R1 where "trs R a = Some t" "(if P t then Kick b a R else Inr R) = Inr R1" "kick_each b P as R1 = Inr R'" by auto
  moreover have "same_disc R R1" using calculation(2) Kick_same_disc by (cases "P t") (auto simp: same_disc_def)
  ultimately show ?case using Cons.IH same_disc_trans by blast
qed

lemma server_ok_kick_each:
  assumes "server_ok L" and "set as \<subseteq> set (transport_list (reg L))"
  shows "\<exists>R. kick_each b P as (reg L) = Inr R \<and> server_ok (L\<lparr>reg := R\<rparr>)"
  using kick_each_ok [of "reg L" as b P] assms server_ok_reg kick_each_same_disc by (fastforce simp: server_ok_def)

lemma server_ok_kick:
  assumes "server_ok L"
  shows "\<exists>R. kick_transport b t (reg L) = Inr R \<and> server_ok (L\<lparr>reg := R\<rparr>) \<and> dom (trs R) = dom (trs (reg L))"
proof (cases "t \<in> set (transport_list (reg L))")
  case False
  then show ?thesis using assms by (simp add: kick_transport_def)
next
  case True
  then obtain T where T: "trs (reg L) t = Some T" using server_ok_live [OF assms] by auto
  from Kick_ok [OF _ T True, of b] assms obtain R where R: "Kick b t (reg L) = Inr R" "reg_inv R" by (auto simp: server_ok_def)
  then show ?thesis using True server_ok_reg [OF assms R(2)] Kick_same_disc [OF R(1)] same_disc_dom
    by (auto simp: kick_transport_def)
qed

text \<open>Changes of the disconnect entries alone.\<close>

lemma reg_inv_disc: "reg_inv R \<Longrightarrow> reg_inv (R\<lparr>trs := (\<lambda>t. map_option (\<lambda>T. T\<lparr>disconnects := D t\<rparr>) (trs R t))\<rparr>)"
proof -
  assume r: "reg_inv R"
  let ?T = "\<lambda>t. map_option (\<lambda>T. T\<lparr>disconnects := D t\<rparr>) (trs R t)"
  have d: "dom ?T = dom (trs R)" by (auto simp: dom_def)
  note D = reg_okD [OF r [unfolded reg_inv_def]]
  have "reg_ok ?T (reg_next R) (reg_fds R) (transport_list R) (pending_list R) (reg_msgs R)"
  proof (rule reg_okI)
    fix a t assume "?T a = Some t"
    then obtain T where T: "trs R a = Some T" "t = T\<lparr>disconnects := D a\<rparr>" by auto
    show "a < reg_next R" using D(1) T(1) .
    show "life (reg_msgs R) a t" if "a \<in> set (transport_list R)" using D(12) [OF that T(1)] T(2) by (simp add: life_def)
    show "funcs t \<noteq> NoFuncs" if "a \<in> set (transport_list R) \<union> set (pending_list R)" using D(13) [OF that T(1)] T(2) by simp
    show "ref_count t = 0" if "a \<in> set (pending_list R)" using D(14) [OF that T(1)] T(2) by simp
  qed (use D(2-11) d in simp_all)
  then show ?thesis by (simp add: reg_inv_def)
qed

lemma server_ok_same_but:
  assumes "server_ok L" and "same_but L L'" and "linv L'"
  shows "server_ok L'"
proof -
  obtain D ls F n where L': "L' = (set_disc D L)\<lparr>listener_list := ls, lfds := F, l_next := n\<rparr>" using assms(2) by (auto simp: same_but_def)
  have s: "same_socks L L'" unfolding L' same_socks_def using set_disc_simps(4) [of D L] by (simp add: set_disc_def)
  have "reg_inv (reg L')" using assms(1) reg_inv_disc [of "reg L" D] unfolding L' by (simp add: server_ok_def set_disc_def)
  then show ?thesis using assms(1,3) same_socks_wf [OF s, of "{}"] same_socks_ids [OF s] by (simp add: server_ok_def)
qed

section \<open>Replies\<close>

text \<open>
  What a request handler may do for the socket \<open>a\<close>: the state stays consistent, and of the sockets
  only the transport of \<open>a\<close> changes.
\<close>

definition unharmed :: "addr \<Rightarrow> 'x lstate_scheme \<Rightarrow> 'x lstate_scheme \<Rightarrow> bool" where
  "unharmed a L L' \<longleftrightarrow> server_ok L' \<and>
    (socks L' = socks L \<or> (\<exists>s t. socks L a = Some s \<and> socks L' = (socks L)(a \<mapsto> s\<lparr>sk_transport := t\<rparr>))) \<and>
    next_addr L' = next_addr L \<and> local_socket_next_id L' = local_socket_next_id L \<and>
    local_socket_list L' = local_socket_list L \<and> local_socket_closing_list L' = local_socket_closing_list L \<and>
    device_tracker_list L' = device_tracker_list L \<and> sfds L' = sfds L"

lemma unharmed_refl: "server_ok L \<Longrightarrow> unharmed a L L"
  by (simp add: unharmed_def)

lemma unharmed_fdtab [simp]: "unharmed a L (L'\<lparr>fdtab := t\<rparr>) = unharmed a L L'"
  by (simp add: unharmed_def)

lemma unharmed_reg: "server_ok (L\<lparr>reg := R\<rparr>) \<Longrightarrow> unharmed a L (L\<lparr>reg := R\<rparr>)"
  by (simp add: unharmed_def)

lemma unharmed_same_but: "server_ok L \<Longrightarrow> same_but L L' \<Longrightarrow> linv L' \<Longrightarrow> unharmed a L L'"
  using server_ok_same_but [of L L'] unfolding same_but_def unharmed_def by (auto simp: set_disc_def)

abbreviation answered :: "addr \<Rightarrow> 'x lstate_scheme \<Rightarrow> (int \<times> 'x lstate_scheme) res \<Rightarrow> bool" where
  "answered a L m \<equiv> good m (\<lambda>x. unharmed a L (snd x))"

text \<open>A sending function fails in no other way than by waiting for ever.\<close>

definition patient :: "(fd_state \<Rightarrow> 'r res) \<Rightarrow> bool" where
  "patient w \<longleftrightarrow> (\<forall>f e. w f = Inl e \<longrightarrow> e = Spin)"

lemma patient_sends [simp]: "patient SendOkay" "patient (\<lambda>f. SendFail f s)" "patient (\<lambda>f. SendProtocolString f s)"
  unfolding patient_def
  by (auto simp: SendProtocolString_def SendOkay_def dest: WriteFdExactly_good SendFail_good split: if_splits)

lemma write_unharmed:
  assumes "unharmed a L L1" and "patient w"
  shows "good (write_fd fd w L1) (unharmed a L)"
  by (rule good_mono [OF write_fd_good]) (use assms in \<open>auto simp: patient_def\<close>)

lemma reply_answered: "unharmed a L L1 \<Longrightarrow> patient w \<Longrightarrow> answered a L (reply fd w L1)"
  unfolding patient_def reply_def by (cases "w (fdtab L1 fd)") (auto simp del: fun_upd_apply)

lemma reply_okay_good: "unharmed a L L1 \<Longrightarrow> good (reply_okay fd L1) (unharmed a L)"
  unfolding reply_okay_def by (rule write_unharmed) simp_all

lemma fail_1_answered: "unharmed a L L1 \<Longrightarrow> answered a L (fail_1 fd reason L1)"
  unfolding fail_1_def by (rule good_bind, erule write_unharmed) simp_all

lemma return_SendFail_answered: "unharmed a L L1 \<Longrightarrow> answered a L (return_SendFail fd reason L1)"
  unfolding return_SendFail_def by (rule reply_answered) simp_all

lemma SendOkay_string_answered: "unharmed a L L1 \<Longrightarrow> answered a L (SendOkay_string fd s L1)"
  unfolding SendOkay_string_def
  by (rule good_bind, erule reply_okay_good, rule good_bind, erule write_unharmed) simp_all

lemma okays_good: "unharmed a L L1 \<Longrightarrow> good (okays env fd L1) (unharmed a L)"
  unfolding okays_def
  by (rule good_bind [where P = "unharmed a L"]) (simp_all add: reply_okay_good)

lemmas answers = fail_1_answered return_SendFail_answered SendOkay_string_answered

lemma answered_0: "answered a L m \<Longrightarrow> answered a L (bindR m (\<lambda>(_, L1). Inr (0, L1)))"
  by (erule good_bind) (simp add: case_prod_beta)

section \<open>Forwarding\<close>

text \<open>What the server's environment has to give: new descriptors, and the types of the platform.\<close>

definition env_ok :: "host_env \<Rightarrow> 'x lstate_scheme \<Rightarrow> bool" where
  "env_ok env L \<longleftrightarrow> libbase_spec (he_base env) \<and> libbase_spec (le_base (he_listen env)) \<and>
    (\<exists>b. le_types (he_listen env) = kLocalSocketTypes b) \<and> (\<forall>name. fresh_fds (he_listen env) name L)"

lemma forward_reply_answered:
  assumes "unharmed a L L1"
  shows "answered a L (forward_reply env fd service r error resolved L1)"
proof (cases "r = INSTALL_STATUS_OK")
  case False
  then show ?thesis using fail_1_answered [OF assms] by (simp add: forward_reply_def)
next
  case True
  have "answered a L (if resolved \<noteq> 0
         then bindR (write_fd fd (\<lambda>f. SendProtocolString f (dec_of_int resolved)) L2) (\<lambda>L3. Inr (1, L3)) else Inr (1, L2))"
    if "unharmed a L L2" for L2
  proof (cases "resolved = 0")
    case False
    show ?thesis unfolding if_P [OF False] by (rule good_bind [OF write_unharmed [OF that]]) simp_all
  qed (use that in simp)
  from good_bind [OF okays_good [OF assms] this] show ?thesis using True by (simp add: forward_reply_def)
qed

lemma acquired_live:
  assumes "server_ok L"
  shows "\<exists>r err amb. acquire_one_transport B aenv type serial0 any (reg L) = Inr (r, err, amb) \<and>
    (\<forall>t. r = Some t \<longrightarrow> trs (reg L) t \<noteq> None)"
  using acquire_outcome [OF server_ok_live [OF assms], of B aenv type serial0 any]
  by (elim exE conjE) (intro exI conjI, assumption, auto)

lemma starred_c_str: "\<not> starred s \<Longrightarrow> \<not> starred (c_str s)"
  by (cases s) (auto simp: starred_def c_str_def)

lemma forward_one_answered:
  assumes ok: "server_ok L" and env: "env_ok env L"
  shows "answered a L (forward_one env kill no_rebind service type serial0 fd L)"
proof -
  let ?ps = "Split (he_base env) service '';''"
  obtain r err amb where acq: "acquire_one_transport (he_base env) (he_acq env) type serial0 False (reg L) = Inr (r, err, amb)"
    and live: "\<And>t. r = Some t \<Longrightarrow> trs (reg L) t \<noteq> None" using acquired_live [OF ok] by blast
  have bad: "answered a L (fail_1 fd m L)" for m by (rule fail_1_answered [OF unharmed_refl [OF ok]])
  have inv: "linv L" using ok by (simp add: server_ok_def)
  have remove: "answered a L (bindR (remove_listener n L) (\<lambda>(st, L1). forward_reply env fd service st [] 0 L1))" for n
  proof (cases "named n L")
    case None
    then show ?thesis using forward_reply_answered [OF unharmed_refl [OF ok]] by (simp add: remove_listener_def)
  next
    case (Some x)
    then obtain L' where "erase_listener x L = Inr L'" "linv L'" "same_but L L'"
      using erase_listener_ok [OF inv, of x] named_Some [OF Some] by blast
    then show ?thesis using Some forward_reply_answered [OF unharmed_same_but [OF ok]] by (simp add: remove_listener_def)
  qed
  have install: "answered a L (bindR (install_listener (he_listen env) n target (Some t) no_rebind L)
      (\<lambda>(st, error, resolved, L1). forward_reply env fd service st error resolved L1))"
    if "trs (reg L) t \<noteq> None" "\<not> starred target" for n target t
  proof -
    obtain b where b: "le_types (he_listen env) = kLocalSocketTypes b" "libbase_spec (le_base (he_listen env))"
      "fresh_fds (he_listen env) n L" using env by (auto simp: env_ok_def)
    have "install_pre target (Some t) L" using that by (auto simp: install_pre_def)
    from install_listener_ok [OF inv b(2,1) this b(3), of no_rebind] obtain st er rs L' where
      "install_listener (he_listen env) n target (Some t) no_rebind L = Inr (st, er, rs, L')" "linv L'" "same_but L L'" by blast
    then show ?thesis using forward_reply_answered [OF unharmed_same_but [OF ok]] by simp
  qed
  have body: "answered a L (case (r, err, amb) of (r, error_msg, _) \<Rightarrow> case r of
        None \<Rightarrow> fail_1 fd error_msg L
      | Some t \<Rightarrow> if kill then bindR (remove_listener (?ps ! 0) L) (\<lambda>(st, L1). forward_reply env fd service st [] 0 L1)
          else bindR (install_listener (he_listen env) (?ps ! 0) (c_str (?ps ! 1)) (Some t) no_rebind L)
                 (\<lambda>(st, error, resolved, L1). forward_reply env fd service st error resolved L1))"
    if "kill \<or> \<not> starred (?ps ! 1)"
  proof (cases r)
    case (Some t)
    show ?thesis
    proof (cases kill)
      case False
      then have "\<not> starred (c_str (?ps ! 1))" using that starred_c_str by blast
      from install [OF live [OF Some] this] show ?thesis using Some False by simp
    qed (use Some remove in simp)
  qed (use bad in simp)
  show ?thesis unfolding forward_one_def Let_def acq bindR_simps using bad body by (simp split: if_split)
qed

lemma forward_request_answered:
  assumes ok: "server_ok L" and env: "env_ok env L"
  shows "answered a L (handle_forward_request env service type serial0 fd L)"
proof -
  have inv: "linv L" using ok by (simp add: server_ok_def)
  have one: "answered a L (forward_one env k n s type serial0 fd L)" for k n s by (rule forward_one_answered [OF ok env])
  obtain s where s: "format_listeners L = Inr s"
    using format_list_ok [of "listener_list L" L] linvD(4) [OF inv] by (auto simp: format_listeners_def)
  have list: "answered a L (bindR (format_listeners L) (\<lambda>listeners.
       bindR (if ADB_HOST (he_build env) then reply_okay fd L else Inr L) (\<lambda>L1.
         reply fd (\<lambda>f. SendProtocolString f listeners) L1)))"
    unfolding s bindR_simps
  proof (rule good_bind)
    show "good (if ADB_HOST (he_build env) then reply_okay fd L else Inr L) (unharmed a L)"
      using reply_okay_good [OF unharmed_refl [OF ok]] unharmed_refl [OF ok] by simp
    show "answered a L (reply fd (\<lambda>f. SendProtocolString f s) L1)" if "unharmed a L L1" for L1
      using that by (rule reply_answered) simp
  qed
  obtain L' where L': "remove_all_listeners L = Inr L'" "linv L'" "same_but L L'"
    using erase_each_ok [OF inv, of "[]" "listener_list L"] by (auto simp: remove_all_listeners_def)
  have all: "answered a L (bindR (remove_all_listeners L) (\<lambda>L1. bindR (okays env fd L1) (\<lambda>L2. Inr (1, L2))))"
    unfolding L'(1) bindR_simps by (rule good_bind [OF okays_good [OF unharmed_same_but [OF ok L'(3,2)]]]) simp
  have none: "answered a L (Inr (0, L))" using unharmed_refl [OF ok] by simp
  show ?thesis unfolding handle_forward_request_def Let_def using list all one none by (simp split: if_split)
qed

section \<open>The other requests\<close>

lemma host_transport_answered:
  assumes ok: "server_ok L" and a: "socks L a = Some s"
  shows "answered a L (host_transport env service serial0 fd a L)"
proof -
  obtain ty ser where q: "transport_request service serial0 = (ty, ser)" by force
  obtain r err amb where acq: "acquire_one_transport (he_base env) (he_acq env) ty ser False (reg L) = Inr (r, err, amb)"
    and live: "\<And>t. r = Some t \<Longrightarrow> trs (reg L) t \<noteq> None" using acquired_live [OF ok] by blast
  show ?thesis
  proof (cases r)
    case None
    then show ?thesis using q acq fail_1_answered [OF unharmed_refl [OF ok]] by (simp add: host_transport_def)
  next
    case (Some t)
    let ?L = "sput a (s\<lparr>sk_transport := Some t\<rparr>) L"
    have "wf ?L" using ok wf_set_transport [OF _ a live [OF Some]] by (simp add: server_ok_def)
    moreover have "ids_ok ?L" by (rule ids_ok_same [of L]) (use ok a in \<open>simp_all add: server_ok_def sput_def\<close>)
    moreover have "linv ?L" by (rule linv_cong [of L]) (use ok in \<open>simp_all add: server_ok_def sput_def discs_def fun_eq_iff\<close>)
    ultimately have "unharmed a L ?L" using ok a by (auto simp: unharmed_def server_ok_def sput_def)
    then have "answered a L (bindR (reply_okay fd ?L) (\<lambda>S1. Inr (1, S1)))" by (rule good_bind [OF reply_okay_good]) simp
    then show ?thesis using Some q acq a by (simp add: host_transport_def sget_eq)
  qed
qed

lemma reconnect_response_ok: "set as \<subseteq> dom (trs R) \<Longrightarrow> \<exists>s. reconnect_response R as = Inr s"
proof (induction as)
  case (Cons a as)
  then obtain s t where "reconnect_response R as = Inr s" "trs R a = Some t" by auto
  then show ?case by (simp add: get_tr_def)
qed simp

lemma host_reconnect_offline_answered:
  assumes ok: "server_ok L"
  shows "answered a L (host_reconnect_offline env fd L)"
proof -
  obtain s where s: "reconnect_response (reg L) (transport_list (reg L)) = Inr s"
    using reconnect_response_ok [OF server_ok_live [OF ok]] by blast
  obtain R where R: "close_usb_devices (he_build env) reconnectable (reg L) = Inr R" "server_ok (L\<lparr>reg := R\<rparr>)"
    using server_ok_kick_each [OF ok subset_refl] by (auto simp: close_usb_devices_def)
  show ?thesis unfolding host_reconnect_offline_def s R(1) bindR_simps
    by (rule answered_0 [OF SendOkay_string_answered [OF unharmed_reg [OF R(2)]]])
qed

lemma host_features_answered:
  assumes ok: "server_ok L"
  shows "answered a L (host_features env type serial0 fd L)"
proof -
  note u = unharmed_refl [OF ok, of a]
  obtain r err amb where acq: "acquire_one_transport (he_base env) (he_acq env) type serial0 False (reg L) = Inr (r, err, amb)"
    and live: "\<And>t. r = Some t \<Longrightarrow> trs (reg L) t \<noteq> None" using acquired_live [OF ok] by blast
  show ?thesis
  proof (cases r)
    case None
    have "answered a L (bindR (write_fd fd (\<lambda>f. SendFail f err) L) (\<lambda>S1. Inr (0, S1)))"
      by (rule good_bind [OF write_unharmed [OF u]]) simp_all
    then show ?thesis using None acq by (simp add: host_features_def)
  next
    case (Some t)
    then obtain T where "trs (reg L) t = Some T" using live by blast
    then show ?thesis using Some acq answered_0 [OF SendOkay_string_answered [OF u]]
      by (simp add: host_features_def get_tr_def)
  qed
qed

lemma host_get_answered:
  assumes ok: "server_ok L"
  shows "answered a L (host_get env what type serial0 fd L)"
proof -
  note u = unharmed_refl [OF ok, of a]
  obtain r err amb where acq: "acquire_one_transport (he_base env) (he_acq env) type serial0 False (reg L) = Inr (r, err, amb)"
    and live: "\<And>t. r = Some t \<Longrightarrow> trs (reg L) t \<noteq> None" using acquired_live [OF ok] by blast
  show ?thesis
  proof (cases r)
    case None
    then show ?thesis using acq return_SendFail_answered [OF u] by (simp add: host_get_def)
  next
    case (Some t)
    then obtain T where "trs (reg L) t = Some T" using live by blast
    then show ?thesis using Some acq SendOkay_string_answered [OF u] by (simp add: host_get_def get_tr_def)
  qed
qed

lemma host_disconnect_answered:
  assumes ok: "server_ok L"
  shows "answered a L (host_disconnect env address fd L)"
proof -
  note u = unharmed_refl [OF ok, of a]
  obtain R where R: "kick_all_tcp_devices (he_build env) (reg L) = Inr R" "server_ok (L\<lparr>reg := R\<rparr>)"
    using server_ok_kick_each [OF ok subset_refl] by (auto simp: kick_all_tcp_devices_def)
  have all: "answered a L (bindR (kick_all_tcp_devices (he_build env) (reg L)) (\<lambda>R.
         SendOkay_string fd ''disconnected everything'' (L\<lparr>reg := R\<rparr>)))"
    unfolding R(1) bindR_simps by (rule SendOkay_string_answered [OF unharmed_reg [OF R(2)]])
  have kick: "answered a L (bindR (kick_transport (he_build env) t (reg L)) (\<lambda>R.
                    SendOkay_string fd (''disconnected '' @ address) (L\<lparr>reg := R\<rparr>)))" for t
    using server_ok_kick [OF ok, of "he_build env" t] SendOkay_string_answered [OF unharmed_reg] by auto
  have found: "\<exists>r. find_transport n (reg L) = Inr r" for n
    using find_serial_eq [OF server_ok_live [OF ok]] by (simp add: find_transport_def)
  have one: "answered a L (bindR (find_transport n (reg L)) (\<lambda>r. case r of
                None \<Rightarrow> return_SendFail fd (''no such device '' @ quoted n) L
              | Some t \<Rightarrow> bindR (kick_transport (he_build env) t (reg L)) (\<lambda>R.
                    SendOkay_string fd (''disconnected '' @ address) (L\<lparr>reg := R\<rparr>))))" for n
  proof -
    obtain r where "find_transport n (reg L) = Inr r" using found by blast
    then show ?thesis using kick return_SendFail_answered [OF u] by (cases r) simp_all
  qed
  show ?thesis
  proof (cases "address = []")
    case True
    then show ?thesis using all by (simp add: host_disconnect_def)
  next
    case False
    then show ?thesis using one return_SendFail_answered [OF u]
      by (cases "ParseNetAddress (he_base env) address DEFAULT_ADB_LOCAL_TRANSPORT_PORT") (auto simp: host_disconnect_def)
  qed
qed

lemma host_reconnect_answered:
  assumes ok: "server_ok L"
  shows "answered a L (host_reconnect env type serial0 fd L)"
proof -
  obtain r err amb where acq: "acquire_one_transport (he_base env) (he_acq env) type serial0 True (reg L) = Inr (r, err, amb)"
    and live: "\<And>t. r = Some t \<Longrightarrow> trs (reg L) t \<noteq> None" using acquired_live [OF ok] by blast
  show ?thesis
  proof (cases r)
    case None
    then show ?thesis using acq SendOkay_string_answered [OF unharmed_refl [OF ok]] by (simp add: host_reconnect_def)
  next
    case (Some t)
    obtain R where R: "kick_transport (he_build env) t (reg L) = Inr R" "server_ok (L\<lparr>reg := R\<rparr>)"
      and "dom (trs R) = dom (trs (reg L))" using server_ok_kick [OF ok] by blast
    then obtain T where "trs R t = Some T" using live [OF Some] by blast
    then show ?thesis using Some acq R(1) SendOkay_string_answered [OF unharmed_reg [OF R(2)]]
      by (simp add: host_reconnect_def get_tr_def)
  qed
qed

lemma host_devices_answered:
  assumes ok: "server_ok L"
  shows "answered a L (bindR (list_transports u long (reg L)) (\<lambda>device_list. SendOkay_string fd device_list L))"
proof -
  obtain s where "list_transports u long (reg L) = Inr s"
    using list_each_ok [OF server_ok_live [OF ok]] by (auto simp: list_transports_def)
  then show ?thesis using SendOkay_string_answered [OF unharmed_refl [OF ok]] by simp
qed

lemma host_forward_answered:
  assumes "server_ok L" and "env_ok env L"
  shows "answered a L (bindR (handle_forward_request env service type serial0 fd L) (\<lambda>(ret, L1).
         Inr (if 0 \<le> ret then ret - 1 else -1, L1)))"
  by (rule good_bind [OF forward_request_answered [OF assms]]) (simp add: case_prod_beta)

lemma good_if: "good x P \<Longrightarrow> good y P \<Longrightarrow> good (if b then x else y) P"
  by simp

lemma host_request_answered:
  assumes ok: "server_ok L" and env: "env_ok env L" and a: "socks L a = Some s"
    and "service \<noteq> ''kill''" and "\<not> prefix ''emulator:'' service"
  shows "answered a L (handle_host_request env service type serial0 fd a L)"
proof -
  note u = unharmed_refl [OF ok, of a]
  have strange: "answered a L (Inr (1, L))" using u by simp
  show ?thesis
    unfolding handle_host_request_def if_not_P [OF assms(4)] if_not_P [OF assms(5)]
    apply (rule good_if, rule host_transport_answered [OF ok a])
    apply (rule good_if, rule good_if, rule host_devices_answered [OF ok], rule strange)
    apply (rule good_if, rule host_reconnect_offline_answered [OF ok])
    apply (rule good_if, rule host_features_answered [OF ok])
    apply (rule good_if, rule answered_0 [OF SendOkay_string_answered [OF u]])
    apply (rule good_if, rule host_disconnect_answered [OF ok])
    apply (rule good_if, rule SendOkay_string_answered [OF u])
    apply (rule good_if, rule host_get_answered [OF ok])+
    apply (rule good_if, rule host_reconnect_answered [OF ok])
    apply (rule host_forward_answered [OF ok env])
    done
qed

section \<open>The host services\<close>

lemma server_ok_more:
  "server_ok (P\<lparr>socketpairs := x\<rparr>) = server_ok P" "server_ok (P\<lparr>service_threads := y\<rparr>) = server_ok P" for P :: "'x pstate_scheme"
proof -
  have w: "wf (P\<lparr>socketpairs := x\<rparr>) = wf P" "wf (P\<lparr>service_threads := y\<rparr>) = wf P"
    by (simp_all add: wfx_def sock_ok_def peer_ok_def cong: option.case_cong)
  have "linv (P\<lparr>socketpairs := x\<rparr>) = linv P" "linv (P\<lparr>service_threads := y\<rparr>) = linv P"
    by (simp_all add: linv_def listener_ok_def discs_def)
  then show "server_ok (P\<lparr>socketpairs := x\<rparr>) = server_ok P" "server_ok (P\<lparr>service_threads := y\<rparr>) = server_ok P"
    using w by (simp_all add: server_ok_def ids_ok_def)
qed

lemma create_local_socket_keeps:
  assumes "create_local_socket fd L = Inr (a, L')" and "linv L"
  shows "linv L' \<and> reg L' = reg L"
proof -
  have e: "listener_list L' = listener_list L" "lfds L' = lfds L" "l_next L' = l_next L" "reg L' = reg L"
    using assms(1) by (auto simp: create_local_socket_def salloc_def install_local_socket_def on_fds_def sget_def sput_def
        Let_def split: if_splits)
  show ?thesis using linv_cong [OF assms(2) e(1-3)] e(4) by (simp add: discs_def fun_eq_iff)
qed

lemma create_local_socket_server_ok:
  assumes ok: "server_ok L" and fd: "0 \<le> fd" "poll_map (sfds L) fd = None" and i: "local_socket_next_id L + 1 \<noteq> 0"
  shows "\<exists>L' s. create_local_socket fd L = Inr (next_addr L, L') \<and> server_ok L' \<and> socks L' (next_addr L) = Some s \<and>
    peer s = None \<and> (\<forall>b. b \<noteq> next_addr L \<longrightarrow> socks L' b = socks L b)"
proof -
  obtain L' where L': "create_local_socket fd L = Inr (next_addr L, L')"
    using fd i by (auto simp: create_local_socket_def salloc_def install_local_socket_def on_fds_def sget_def sput_def
        fdevent_install_def Let_def)
  have w: "wf L" "ids_ok L" "linv L" using ok by (simp_all add: server_ok_def)
  have "server_ok L'"
    using create_local_socket_ok(1) [OF w(1) L'] create_local_socket_ids [OF w(1,2) L'] create_local_socket_keeps [OF L' w(3)] ok
    by (simp add: server_ok_def)
  then show ?thesis using L' create_local_socket_ok(4,5) [OF w(1) L'] by blast
qed

lemma wf_tracked:
  assumes "wf S" and "socks S a = Some s" and "cls_fn s = device_tracker_close_fn"
  shows "wf (S\<lparr>device_tracker_list := a # device_tracker_list S\<rparr>)"
proof -
  have "sock_ok (S\<lparr>device_tracker_list := a # device_tracker_list S\<rparr>) b t = sock_ok S b t" for b t by (simp add: sock_ok_def)
  moreover have "peer_ok (S\<lparr>device_tracker_list := a # device_tracker_list S\<rparr>) b t = peer_ok S b t" for b t
    by (simp add: peer_ok_def cong: option.case_cong)
  ultimately show ?thesis using assms unfolding wfx_def by simp
qed

lemma create_device_tracker_server_ok:
  assumes ok: "server_ok (L :: 'x lstate_scheme)"
  shows "\<exists>L' s. create_device_tracker L = (next_addr L, L') \<and> server_ok L' \<and> socks L' (next_addr L) = Some s \<and>
    peer s = None \<and> (\<forall>b. b \<noteq> next_addr L \<longrightarrow> socks L' b = socks L b)"
proof -
  let ?s = "blank_socket\<lparr>enq_fn := device_tracker_enqueue_fn, rdy_fn := device_tracker_ready_fn,
        cls_fn := device_tracker_close_fn, update_needed := True\<rparr>"
  let ?L1 = "snd (salloc ?s L)"
  let ?L2 = "?L1\<lparr>device_tracker_list := next_addr L # device_tracker_list ?L1\<rparr>"
  have w: "wf L" "ids_ok L" "linv L" "reg_inv (reg L)" using ok by (simp_all add: server_ok_def)
  have w1: "wf ?L1" by (rule wfx_alloc [OF w(1)]) (simp_all add: blank_socket_def is_local_def)
  have L1: "socks ?L1 (next_addr L) = Some ?s" "reg ?L1 = reg L" by (simp_all add: salloc_def Let_def)
  have "wf ?L2" by (rule wf_tracked [OF w1 L1(1)]) simp
  moreover have "ids_ok ?L2" using w(2) wf_fresh [OF w(1)] wfxD(8) [OF w(1)] by (auto simp: ids_ok_def salloc_def Let_def)
  moreover have "linv ?L2" by (rule linv_cong [OF w(3)]) (simp_all add: salloc_def Let_def discs_def fun_eq_iff)
  ultimately have "server_ok ?L2" using w(4) L1(2) by (simp add: server_ok_def)
  then show ?thesis by (auto simp: create_device_tracker_def salloc_def Let_def blank_socket_def)
qed

text \<open>A host service adds at most one socket, not yet connected.\<close>

definition one_more :: "addr option \<Rightarrow> 'x pstate_scheme \<Rightarrow> 'x pstate_scheme \<Rightarrow> bool" where
  "one_more r P P' \<longleftrightarrow> server_ok P' \<and> (\<forall>b. socks P b \<noteq> None \<longrightarrow> socks P' b = socks P b) \<and>
    (\<forall>q. r = Some q \<longrightarrow> socks P q = None \<and> (\<exists>s. socks P' q = Some s \<and> peer s = None))"

lemma one_moreI:
  assumes "server_ok P'" and "socks P q = None" and "socks P' q = Some s" and "peer s = None"
    and "\<And>b. b \<noteq> q \<Longrightarrow> socks P' b = socks P b"
  shows "one_more (Some q) P P'"
proof -
  have "socks P' b = socks P b" if "socks P b \<noteq> None" for b using assms(2) assms(5) [of b] that by (cases "b = q") auto
  then show ?thesis using assms by (simp add: one_more_def)
qed

lemma thread_socket_safe:
  assumes ok: "server_ok (P :: 'x pstate_scheme)" and sp: "socketpairs P = Some (s0, s1) # rest"
    and fd: "0 \<le> s0" "poll_map (sfds P) s0 = None" and i: "local_socket_next_id P + 1 \<noteq> 0"
  shows "\<exists>q P'. thread_socket func P = Inr (Some q, P') \<and> one_more (Some q) P P'"
proof -
  let ?P1 = "P\<lparr>socketpairs := rest, service_threads := service_threads P @ [(func, s1)]\<rparr>"
  have c: "create_service_thread func P = (s0, ?P1)" using sp by (simp add: create_service_thread_def socketpair_def)
  have "server_ok ?P1" using ok by (simp add: server_ok_more)
  then obtain P' s where P': "create_local_socket s0 ?P1 = Inr (next_addr P, P')" "server_ok P'" "socks P' (next_addr P) = Some s"
    "peer s = None" "\<forall>b. b \<noteq> next_addr P \<longrightarrow> socks P' b = socks P b"
    using create_local_socket_server_ok [of ?P1 s0] fd i by auto
  have "socks P (next_addr P) = None" using ok wf_fresh [of P] by (simp add: server_ok_def)
  then have "one_more (Some (next_addr P)) P P'" using P'(2-5) by (intro one_moreI) auto
  then show ?thesis using P'(1) c by (simp add: thread_socket_def)
qed

lemma host_service_safe:
  assumes ok: "server_ok (P :: 'x pstate_scheme)" and sp: "socketpairs P = Some (s0, s1) # rest"
    and fd: "0 \<le> s0" "poll_map (sfds P) s0 = None" and i: "local_socket_next_id P + 1 \<noteq> 0"
  shows "\<exists>r P'. host_service_to_socket name serial0 P = Inr (r, P') \<and> one_more r P P'"
proof -
  note t = thread_socket_safe [OF assms]
  have none: "one_more None P P" using ok by (simp add: one_more_def)
  show ?thesis
  proof (cases "name = ''track-devices''")
    case True
    obtain P' s where P': "create_device_tracker P = (next_addr P, P')" "server_ok P'" "socks P' (next_addr P) = Some s"
      "peer s = None" "\<forall>b. b \<noteq> next_addr P \<longrightarrow> socks P' b = socks P b" using create_device_tracker_server_ok [OF ok] by blast
    have "socks P (next_addr P) = None" using ok wf_fresh [of P] by (simp add: server_ok_def)
    then have "one_more (Some (next_addr P)) P P'" using P'(2-5) by (intro one_moreI) auto
    then show ?thesis using P'(1) True by (auto simp: host_service_to_socket_def)
  next
    case False
    then show ?thesis using t none
      by (cases "prefix ''wait-for-'' name"; cases "wait_spec (drop 9 name)"; cases "prefix ''connect:'' name")
         (auto simp: host_service_to_socket_def split: prod.splits, metis+)
  qed
qed

section \<open>The requests are safe\<close>

text \<open>
  C5: no request to the server itself (one with a host prefix, as smart\_socket\_enqueue takes them)
  breaks it. On a consistent server with a live client socket, handle\_host\_request ends for every
  request but kill and emulator:, unless it waits for the client without end or exits, in a
  consistent server again: no stale pointer is followed, no CHECK fails, the sockets are those of
  before, and of them at most the client's own has another transport. The requests it leaves to
  host\_service\_to\_socket (track-devices, wait-for-, connect:) then return too, in a consistent
  server with at most one new socket and every other socket unchanged, when the service's thread
  can get a socket pair with a descriptor that is not watched yet and the identifiers have not run out.
  Requests for a device (smart\_connect) are not covered.
\<close>

theorem host_request_safe:
  assumes "server_ok (L :: 'x pstate_scheme)" and "env_ok env L" and "socks L a = Some s"
    and "service \<noteq> ''kill''" and "\<not> prefix ''emulator:'' service"
  shows "case handle_host_request env service type serial0 fd a L of
      Inr (r, L') \<Rightarrow> server_ok L' \<and> local_socket_list L' = local_socket_list L \<and>
        (\<forall>b. b \<noteq> a \<longrightarrow> socks L' b = socks L b) \<and> (\<exists>t. socks L' a = Some (s\<lparr>sk_transport := t\<rparr>)) \<and>
        (\<forall>s0 s1 rest. socketpairs L' = Some (s0, s1) # rest \<longrightarrow> 0 \<le> s0 \<longrightarrow> poll_map (sfds L') s0 = None \<longrightarrow>
          local_socket_next_id L' + 1 \<noteq> 0 \<longrightarrow>
          (\<exists>q L2. host_service_to_socket service serial0 L' = Inr (q, L2) \<and> server_ok L2 \<and>
             (\<forall>b. socks L' b \<noteq> None \<longrightarrow> socks L2 b = socks L' b) \<and>
             (\<forall>c. q = Some c \<longrightarrow> socks L' c = None \<and> (\<exists>sc. socks L2 c = Some sc \<and> peer sc = None))))
    | Inl e \<Rightarrow> e = Exit 1 \<or> e = Spin"
proof -
  have same: "s = s\<lparr>sk_transport := sk_transport s\<rparr>" by simp
  have u: "server_ok L' \<and> local_socket_list L' = local_socket_list L \<and>
        (\<forall>b. b \<noteq> a \<longrightarrow> socks L' b = socks L b) \<and> (\<exists>t. socks L' a = Some (s\<lparr>sk_transport := t\<rparr>))"
    if "unharmed a L L'" for L' using that assms(3) same unfolding unharmed_def by (elim conjE disjE exE) (auto intro: exI [of _ "sk_transport s"])
  note ans = host_request_answered [OF assms, of type serial0 fd]
  show ?thesis
  proof (cases "handle_host_request env service type serial0 fd a L")
    case (Inl e)
    then show ?thesis using ans by (simp add: good_def)
  next
    case (Inr x)
    obtain r L' where x: "x = (r, L')" by fastforce
    have L': "unharmed a L L'" using ans Inr x by (simp add: good_def)
    show ?thesis unfolding Inr x sum.case prod.case
      using u [OF L'] host_service_safe [of L' _ _ _ service serial0, unfolded one_more_def] by (intro conjI) blast+
  qed
qed

definition demo_host :: host_env where
  "demo_host = \<lparr>he_base = libbase_ref, he_acq = demo_env, he_listen = demo_listen, he_order = (\<lambda>_. []),
     should_use_libusb = False, ADBHOST = None\<rparr>"

text \<open>A server with one client and a socket pair for a service.\<close>

definition demo_server :: pstate where
  "demo_server = snd (projr (create_local_socket 5 (demo_pstate [Some (7, 8)])))"

lemma fdsys_init_idle: "fde_idle a (fdsys_init l)" "fdes (fdsys_init l) a = None"
  by (simp_all add: fde_idle_def fdsys_init_def)

lemma demo_pstate_ok: "server_ok (demo_pstate sp)"
proof -
  have w: "wf (demo_pstate sp)" "ids_ok (demo_pstate sp)"
    by (simp_all add: demo_pstate_defs wfx_def ids_ok_def fdsys_init_inv fdsys_init_idle)
  have "linv (demo_pstate sp)"
    by (simp add: linv_def demo_pstate_defs discs_def registry_init_def fdsys_init_inv fdsys_init_idle)
  then show ?thesis using w reg_init_inv by (simp add: server_ok_def demo_pstate_defs)
qed

lemma demo_server_ok:
  "server_ok demo_server" "env_ok demo_host demo_server" "\<exists>s. socks demo_server 1 = Some s"
  "socketpairs demo_server = [Some (7, 8)]" "poll_map (sfds demo_server) 7 = None" "local_socket_next_id demo_server + 1 \<noteq> 0"
proof -
  let ?P = "demo_pstate [Some (7, 8)]"
  have p: "next_addr ?P = 1" "local_socket_next_id ?P = 1" "poll_map (sfds ?P) = Map.empty" "lfds ?P = fdsys_init True"
    "socketpairs ?P = [Some (7, 8)]" "on_linux (sfds ?P)" by (simp_all add: demo_pstate_defs fdsys_init_def)
  obtain s where c: "create_local_socket 5 ?P = Inr (1, demo_server)" and ok: "server_ok demo_server" and s: "socks demo_server 1 = Some s"
    using create_local_socket_server_ok [OF demo_pstate_ok, of 5 "[Some (7, 8)]"] p by (auto simp: demo_server_def)
  show "server_ok demo_server" "\<exists>s. socks demo_server 1 = Some s" using ok s by blast+
  have k: "lfds demo_server = fdsys_init True" "socketpairs demo_server = [Some (7, 8)]"
    "poll_map (sfds demo_server) = [5 \<mapsto> (1, POLLRDHUP)]" "local_socket_next_id demo_server = 2"
    by (simp_all add: demo_server_def create_local_socket_def salloc_def install_local_socket_def on_fds_def sget_def sput_def
        fdevent_install_def Let_def p)
  show "socketpairs demo_server = [Some (7, 8)]" "poll_map (sfds demo_server) 7 = None" "local_socket_next_id demo_server + 1 \<noteq> 0"
    using k by simp_all
  have "fresh_fds demo_listen n demo_server" for n using k(1) by (simp add: fresh_fds_def fdsys_init_def)
  moreover have "libbase_spec libbase_ref" by unfold_locales
  ultimately show "env_ok demo_host demo_server" by (auto simp: env_ok_def demo_host_def demo_listen_def)
qed

text \<open>The request connect: is left by handle\_host\_request, and the service gives it a socket.\<close>

lemma demo_connect: "handle_host_request demo_host ''connect:10.0.0.1'' kTransportAny None 5 1 demo_server = Inr (-1, demo_server)"
  by (simp add: handle_host_request_def handle_forward_request_def)

theorem host_request_safe_witness:
  "server_ok demo_server \<and> env_ok demo_host demo_server \<and>
   handle_host_request demo_host ''connect:10.0.0.1'' kTransportAny None 5 1 demo_server = Inr (-1, demo_server) \<and>
   (\<exists>q L2. host_service_to_socket ''connect:10.0.0.1'' None demo_server = Inr (q, L2) \<and> server_ok L2 \<and>
      socks L2 1 = socks demo_server 1)"
proof -
  obtain s where s: "socks demo_server 1 = Some s" using demo_server_ok(3) by blast
  have n: "''connect:10.0.0.1'' \<noteq> ''kill''" "\<not> prefix ''emulator:'' ''connect:10.0.0.1''" by simp_all
  from host_request_safe [OF demo_server_ok(1,2) s n, where type = kTransportAny and ?serial0.0 = None and fd = 5] demo_server_ok(4-6)
  have "\<exists>q L2. host_service_to_socket ''connect:10.0.0.1'' None demo_server = Inr (q, L2) \<and> server_ok L2 \<and>
      (\<forall>b. socks demo_server b \<noteq> None \<longrightarrow> socks L2 b = socks demo_server b)"
    unfolding demo_connect sum.case prod.case by fastforce
  then show ?thesis using s demo_connect demo_server_ok(1,2) by fastforce
qed

end
