(* ===== verification/Adb_Client.thy ===== *)
theory Adb_Client
  imports Host_Request
begin

text \<open>
  adb\_client.cpp: the client's side of the server's protocol. A connection is a descriptor
  \<open>fd_state\<close>; \<open>conns\<close> is what the attempts to connect to the server give, in order, and \<open>launches\<close>
  whether launch\_server succeeds. A descriptor that is closed is no longer passed on.
\<close>

record client =
  adb_transport :: TransportType
  adb_serial :: "string option"
  adb_server_socket_spec :: "string option"
  conns :: "(string + fd_state) list"
  launches :: "bool list"
  kills :: nat   \<comment> \<open>calls of adb\_kill\_server\<close>

record client_env =
  cl_base :: libbase
  cl_build :: build
  strerror :: "errno_t \<Rightarrow> string"

datatype conn = Conn fd_state | NoConn int   \<comment> \<open>a descriptor, or a negative return value\<close>

definition perror_str :: "client_env \<Rightarrow> string \<Rightarrow> errno_t \<Rightarrow> string" where
  "perror_str env m e = m @ '': '' @ strerror env e"

definition adb_set_transport :: "TransportType \<Rightarrow> string option \<Rightarrow> client \<Rightarrow> client" where
  "adb_set_transport type serial0 C = C\<lparr>adb_transport := type, adb_serial := serial0\<rparr>"

definition adb_set_socket_spec :: "string \<Rightarrow> client \<Rightarrow> client res" where
  "adb_set_socket_spec spec C =
    (if adb_server_socket_spec C \<noteq> None then Inl (Fatal ''attempted to reinitialize adb_server_socket_spec'')
     else Inr (C\<lparr>adb_server_socket_spec := Some spec\<rparr>))"

section \<open>Status and switching\<close>

text \<open>\<open>%02x\<close> of a signed char.\<close>

definition hex2 :: "char \<Rightarrow> string" where
  "hex2 c = (let n = of_char c :: nat in pad0 2 (hex_of_nat (if n < 128 then n else 2 ^ 32 - 256 + n)))"

definition adb_status :: "client_env \<Rightarrow> fd_state \<Rightarrow> (bool \<times> string \<times> fd_state) res" where
  "adb_status env f =
    (case ReadFdExactly f 4 [] of
       (False, e, buf, f1) \<Rightarrow> Inr (False, perror_str env ''protocol fault (couldn't read status)'' e, f1)
     | (True, e, buf, f1) \<Rightarrow>
         if buf = ''OKAY'' then Inr (True, [], f1)
         else if buf \<noteq> ''FAIL'' then
           Inr (False, ''protocol fault (status '' @ hex2 (buf ! 0) @ '' '' @ hex2 (buf ! 1) @ '' '' @ hex2 (buf ! 2) @ '' '' @
             hex2 (buf ! 3) @ ''?!)'', f1)
         else
           bindR (ReadProtocolString f1) (\<lambda>(ok, s, error, f2). Inr (False, if ok then s else error, f2)))"

definition switch_service :: "TransportType \<Rightarrow> string option \<Rightarrow> string option" where
  "switch_service type serial0 =
    (case serial0 of
       Some s \<Rightarrow> Some (''host:transport:'' @ s)
     | None \<Rightarrow>
         (case type of
            kTransportUsb \<Rightarrow> Some ''host:transport-usb''
          | kTransportLocal \<Rightarrow> Some ''host:transport-local''
          | kTransportAny \<Rightarrow> Some ''host:transport-any''
          | kTransportHost \<Rightarrow> None))"

text \<open>A request and its status, as both functions below send them.\<close>

definition request_status :: "client_env \<Rightarrow> string \<Rightarrow> fd_state \<Rightarrow> (bool \<times> string \<times> fd_state) res" where
  "request_status env service f =
    bindR (SendProtocolString f service) (\<lambda>(ok, e, f1).
      if \<not> ok then Inr (False, perror_str env ''write failure during connection'' e, f1)
      else adb_status env f1)"

definition switch_socket_transport :: "client_env \<Rightarrow> client \<Rightarrow> fd_state \<Rightarrow> (bool \<times> string \<times> fd_state) res" where
  "switch_socket_transport env C f =
    (case switch_service (adb_transport C) (adb_serial C) of
       None \<Rightarrow> Inr (True, [], f)
     | Some service \<Rightarrow> request_status env service f)"

section \<open>Connecting\<close>

definition next_conn :: "client \<Rightarrow> (string + fd_state) \<times> client" where
  "next_conn C = (case conns C of [] \<Rightarrow> (Inl [], C) | c # cs \<Rightarrow> (c, C\<lparr>conns := cs\<rparr>))"

definition spec_of :: "client \<Rightarrow> string" where
  "spec_of C = (case adb_server_socket_spec C of Some s \<Rightarrow> s | None \<Rightarrow> [])"

definition adb_connect1 :: "client_env \<Rightarrow> string \<Rightarrow> client \<Rightarrow> (conn \<times> string \<times> client) res" where
  "adb_connect1 env service C =
    (if service = [] \<or> length service > MAX_PAYLOAD then
       Inr (NoConn (-1), ''bad service name length ('' @ dec_of_nat (length service) @ '')'', C)
     else
       (case next_conn C of
          (Inl reason, C1) \<Rightarrow>
            Inr (NoConn (-2), ''cannot connect to daemon at '' @ spec_of C @ '': '' @ reason, C1)
        | (Inr f, C1) \<Rightarrow>
            bindR (if prefix ''host'' service then Inr (True, [], f) else switch_socket_transport env C1 f) (\<lambda>(ok, error, f1).
              if \<not> ok then Inr (NoConn (-1), error, C1)
              else
                bindR (request_status env service f1) (\<lambda>(ok, error, f2).
                  if ok then Inr (Conn f2, [], C1) else Inr (NoConn (-1), error, C1)))))"

definition adb_kill_server :: "client_env \<Rightarrow> client \<Rightarrow> (bool \<times> client) res" where
  "adb_kill_server env C0 =
    (let C = C0\<lparr>kills := kills C0 + 1\<rparr> in
     case next_conn C of
       (Inl reason, C1) \<Rightarrow> Inr (True, C1)
     | (Inr f, C1) \<Rightarrow>
         bindR (SendProtocolString f ''host:kill'') (\<lambda>(ok, e, f1).
           if \<not> ok then Inr (False, C1)
           else bindR (ReadOrderlyShutdown f1) (\<lambda>_. Inr (True, C1))))"

text \<open>From the label start\_server on: None where the server could not be started.\<close>

definition start_server :: "client \<Rightarrow> client option" where
  "start_server C =
    (case launches C of [] \<Rightarrow> None | ok # ls \<Rightarrow> if ok then Some (C\<lparr>launches := ls\<rparr>) else None)"

text \<open>The end of adb\_connect; for host:start-server it returns 0, which stands for no descriptor.\<close>

definition connect_service_now :: "client_env \<Rightarrow> string \<Rightarrow> client \<Rightarrow> (conn \<times> string \<times> client) res" where
  "connect_service_now env service C =
    (if service = ''host:start-server'' then Inr (NoConn 0, [], C) else adb_connect1 env service C)"

definition after_launch :: "client_env \<Rightarrow> string \<Rightarrow> client \<Rightarrow> (conn \<times> string \<times> client) res" where
  "after_launch env service C =
    (case start_server C of
       None \<Rightarrow> Inr (NoConn (-1), ''cannot connect to daemon'', C)
     | Some C1 \<Rightarrow> connect_service_now env service C1)"

text \<open>The answer to host:version: the version, or what adb\_connect returns at once.\<close>

definition server_version ::
    "client_env \<Rightarrow> conn \<Rightarrow> string \<Rightarrow> client \<Rightarrow> ((conn \<times> string \<times> client) + int) res" where
  "server_version env r error C =
    (case r of
       Conn f \<Rightarrow>
         bindR (ReadProtocolString f) (\<lambda>(ok, version_string, err, f1).
           if \<not> ok then Inr (Inl (NoConn (-1), err, C))
           else
             bindR (ReadOrderlyShutdown f1) (\<lambda>_.
               case sscanf_x4 version_string of
                 None \<Rightarrow> Inr (Inl (NoConn (-1), ''cannot parse version string: '' @ version_string, C))
               | Some v \<Rightarrow> Inr (Inr v)))
     | NoConn n \<Rightarrow>
         if error \<noteq> ''unknown host service'' then Inr (Inl (NoConn n, error, C))
         else Inr (Inr (int ADB_SERVER_VERSION - 1)))"

definition adb_connect :: "client_env \<Rightarrow> string \<Rightarrow> client \<Rightarrow> (conn \<times> string \<times> client) res" where
  "adb_connect env service C =
    bindR (adb_connect1 env ''host:version'' C) (\<lambda>(r, error, C1).
      if r = NoConn (-2) then
        if \<not> is_local_socket_spec (cl_base env) (cl_build env) (spec_of C) then Inr (r, error, C1)
        else after_launch env service C1
      else
        bindR (server_version env r error C1) (\<lambda>v.
          case v of
            Inl done \<Rightarrow> Inr done
          | Inr version \<Rightarrow>
              if version \<noteq> int ADB_SERVER_VERSION
              then bindR (adb_kill_server env C1) (\<lambda>(_, C2). after_launch env service C2)
              else connect_service_now env service C1))"

section \<open>Commands and queries\<close>

definition adb_command :: "client_env \<Rightarrow> string \<Rightarrow> client \<Rightarrow> (bool \<times> string \<times> client) res" where
  "adb_command env service C =
    bindR (adb_connect env service C) (\<lambda>(r, error, C1).
      case r of
        NoConn n \<Rightarrow> if n < 0 then Inr (False, error, C1) else Inl (Fatal ''no descriptor'')
      | Conn f \<Rightarrow>
          bindR (adb_status env f) (\<lambda>(ok, err, f1).
            if \<not> ok then Inr (False, err, C1)
            else bindR (ReadOrderlyShutdown f1) (\<lambda>_. Inr (True, [], C1))))"

definition adb_query :: "client_env \<Rightarrow> string \<Rightarrow> client \<Rightarrow> (bool \<times> string \<times> string \<times> client) res" where
  "adb_query env service C =
    bindR (adb_connect env service C) (\<lambda>(r, error, C1).
      case r of
        NoConn n \<Rightarrow> if n < 0 then Inr (False, [], error, C1) else Inl (Fatal ''no descriptor'')
      | Conn f \<Rightarrow>
          bindR (ReadProtocolString f) (\<lambda>(ok, result, err, f1).
            if \<not> ok then Inr (False, result, err, C1)
            else bindR (ReadOrderlyShutdown f1) (\<lambda>_. Inr (True, result, error, C1))))"

definition format_host_command :: "string \<Rightarrow> TransportType \<Rightarrow> string option \<Rightarrow> string" where
  "format_host_command cmd type serial0 =
    (case serial0 of
       Some s \<Rightarrow> ''host-serial:'' @ s @ '':'' @ cmd
     | None \<Rightarrow>
         (if type = kTransportUsb then ''host-usb''
          else if type = kTransportLocal then ''host-local'' else ''host'') @ '':'' @ cmd)"

definition adb_get_feature_set :: "client_env \<Rightarrow> client \<Rightarrow> (FeatureSet option \<times> string \<times> client) res" where
  "adb_get_feature_set env C =
    bindR (adb_query env (format_host_command ''features'' (adb_transport C) (adb_serial C)) C) (\<lambda>(ok, result, error, C1).
      Inr (if ok then Some (StringToFeatureSet (cl_base env) result) else None, error, C1))"

end
