(* ===== verification/Commandline.thy ===== *)
theory Commandline
  imports Services Adb_Client
begin

text \<open>
  commandline.cpp, the parts of the client that build service names and pass data on: the shell
  service string, the choice of a pty, the wait-for command, and the loop that copies the
  terminal's input to a shell.
\<close>

section \<open>Shell services\<close>

text \<open>\<open>terminal\<close> is the value of TERM.\<close>

definition shell_string_args :: "bool \<Rightarrow> string option \<Rightarrow> string \<Rightarrow> string list" where
  "shell_string_args use_shell_protocol terminal type_arg =
    (if use_shell_protocol
     then kShellServiceArgShellProtocol # (case terminal of Some t \<Rightarrow> [''TERM='' @ t] | None \<Rightarrow> []) else []) @
    (if type_arg \<noteq> [] then [type_arg] else [])"

definition ShellServiceString :: "libbase \<Rightarrow> bool \<Rightarrow> string option \<Rightarrow> string \<Rightarrow> string \<Rightarrow> string" where
  "ShellServiceString B use_shell_protocol terminal type_arg cmd =
    (let args = shell_string_args use_shell_protocol terminal type_arg in
     ''shell'' @ (if args = [] then [] else '','') @ Join B args (CHR '','') @ '':'' @ cmd)"

text \<open>The options of adb shell as getopt gives them; any other option ends the command.\<close>

datatype PtyAllocationMode = kPtyAuto | kPtyNo | kPtyYes | kPtyDefinitely

datatype shell_opt = opt_e string | opt_n | opt_x | opt_t | opt_T | opt_other

record shell_options =
  so_escape :: char
  so_protocol :: bool
  so_tty :: PtyAllocationMode
  so_stdin_closed :: bool

fun shell_opts :: "shell_opt list \<Rightarrow> shell_options \<Rightarrow> shell_options option" where
  "shell_opts [] so = Some so"
| "shell_opts (opt_e arg # os) so =
    (if arg = ''none'' then shell_opts os (so\<lparr>so_escape := CHR 0x00\<rparr>)
     else (case arg of [c] \<Rightarrow> shell_opts os (so\<lparr>so_escape := c\<rparr>) | _ \<Rightarrow> None))"
| "shell_opts (opt_n # os) so = shell_opts os (so\<lparr>so_stdin_closed := True\<rparr>)"
| "shell_opts (opt_x # os) so = shell_opts os (so\<lparr>so_protocol := False, so_tty := kPtyDefinitely, so_escape := CHR ''~''\<rparr>)"
| "shell_opts (opt_t # os) so =
    shell_opts os (so\<lparr>so_tty := (if so_tty so = kPtyYes \<or> so_tty so = kPtyDefinitely then kPtyDefinitely else kPtyYes)\<rparr>)"
| "shell_opts (opt_T # os) so = shell_opts os (so\<lparr>so_tty := kPtyNo\<rparr>)"
| "shell_opts (opt_other # os) so = None"

definition shell_type_arg :: "bool \<Rightarrow> bool \<Rightarrow> PtyAllocationMode \<Rightarrow> string" where
  "shell_type_arg is_tty is_interactive tty =
    (case tty of
       kPtyNo \<Rightarrow> kShellServiceArgRaw
     | kPtyAuto \<Rightarrow> if \<not> is_tty \<or> \<not> is_interactive then kShellServiceArgRaw else kShellServiceArgPty
     | kPtyYes \<Rightarrow> if \<not> is_tty then kShellServiceArgRaw else kShellServiceArgPty
     | kPtyDefinitely \<Rightarrow> kShellServiceArgPty)"

text \<open>
  adb\_shell up to RemoteShell: the protocol, the type argument, the escape character and the
  command, or None where it ends with 1. \<open>words\<close> are the arguments after the options.
\<close>

definition adb_shell ::
    "libbase \<Rightarrow> FeatureSet \<Rightarrow> shell_opt list \<Rightarrow> string list \<Rightarrow> bool \<Rightarrow> (bool \<times> string \<times> char \<times> string) option" where
  "adb_shell B fs os words is_tty =
    (let sp = CanUseFeature fs kFeatureShell2 in
     case shell_opts os \<lparr>so_escape = CHR ''~'', so_protocol = sp,
         so_tty = (if sp then kPtyAuto else kPtyDefinitely), so_stdin_closed = False\<rparr> of
       None \<Rightarrow> None
     | Some so \<Rightarrow>
         let arg = shell_type_arg (is_tty \<and> \<not> so_stdin_closed so) (words = []) (so_tty so);
             cmd = Join B words (CHR '' '') in
         if so_protocol so then Some (True, arg, so_escape so, cmd)
         else if arg \<noteq> kShellServiceArgPty then None
         else Some (False, [], so_escape so, cmd))"

text \<open>RemoteShell up to the connection: the service string and whether the terminal is made raw.\<close>

definition RemoteShell_request ::
    "libbase \<Rightarrow> string option \<Rightarrow> bool \<Rightarrow> string \<Rightarrow> string \<Rightarrow> (string \<times> bool) option" where
  "RemoteShell_request B terminal use_shell_protocol type_arg cmd =
    (let service_string = ShellServiceString B use_shell_protocol terminal type_arg cmd in
     if length service_string > MAX_PAYLOAD_V1 \<and> \<not> use_shell_protocol then None
     else Some (service_string, type_arg = kShellServiceArgPty \<or> (type_arg = [] \<and> cmd = [])))"

section \<open>The terminal's input\<close>

datatype EscapeState = kMidFlow | kStartOfLine | kInEscape

text \<open>
  One character of raw input: what is sent on, and the next state; None where the client exits.
\<close>

definition escape_step :: "char \<Rightarrow> EscapeState \<Rightarrow> char \<Rightarrow> (string \<times> EscapeState) option" where
  "escape_step escape_char state ch =
    (if ch = escape_char then
       (if state = kStartOfLine then Some ([], kInEscape) else Some ([ch], kMidFlow))
     else if state = kInEscape \<and> ch = CHR ''.'' then None
     else Some (if state = kInEscape then [escape_char, ch] else [ch],
                if ch = CHR 0x0A \<or> ch = CHR 0x0D then kStartOfLine else kMidFlow))"

text \<open>
  The loop over raw input: what is sent on, and whether the user asked to disconnect. With
  shell protocol each piece is one packet, so the pieces are kept.
\<close>

fun stdin_loop :: "char \<Rightarrow> EscapeState \<Rightarrow> string \<Rightarrow> string list \<times> bool" where
  "stdin_loop escape_char state [] = ([], False)"
| "stdin_loop escape_char state (ch # cs) =
    (case escape_step escape_char state ch of
       None \<Rightarrow> ([], True)
     | Some ([], state') \<Rightarrow> stdin_loop escape_char state' cs
     | Some (out, state') \<Rightarrow> (case stdin_loop escape_char state' cs of (rest, x) \<Rightarrow> (out # rest, x)))"

section \<open>Waiting for a device\<close>

text \<open>The request of wait\_for\_device, or None where it refuses the command.\<close>

definition wait_for_device_components :: "libbase \<Rightarrow> string \<Rightarrow> TransportType \<Rightarrow> string list option" where
  "wait_for_device_components B service t =
    (let components = Split B service ''-'' in
     if length components < 3 \<or> 4 < length components then None
     else
       (let cs = (if length components = 3
                  then take 2 components @
                       [if t = kTransportUsb then ''usb'' else if t = kTransportLocal then ''local'' else ''any''] @
                       drop 2 components
                  else components) in
        if cs ! 2 \<notin> {''any'', ''local'', ''usb''} then None
        else if cs ! 3 \<notin> {''any'', ''bootloader'', ''device'', ''recovery'', ''sideload''} then None
        else Some cs))"

definition wait_for_device_request :: "libbase \<Rightarrow> string \<Rightarrow> TransportType \<Rightarrow> string option \<Rightarrow> string option" where
  "wait_for_device_request B service t serial0 =
    map_option (\<lambda>cs. format_host_command (Join B cs (CHR ''-'')) t serial0) (wait_for_device_components B service t)"

end
