(* ===== verification/Client_Props.thy ===== *)
theory Client_Props
  imports Commandline Services_Props
begin

text \<open>
  The client against the server and the device: service names the client builds mean on the other
  side what the client meant, replies of the server arrive as what the client returns, and the
  escape characters of an interactive shell.
\<close>

section \<open>Shell services\<close>

lemma not_socket_spec_shell:
  assumes "libbase_spec B"
  shows "\<not> is_socket_spec B b (''shell'' @ rest)"
  using libbase_spec.StartsWith_iff [OF assms]
  by (simp add: is_socket_spec_def kLocalSocketTypes_def)

lemma join_no_char:
  "(\<forall>x \<in> set xs. c \<notin> set x) \<Longrightarrow> c \<noteq> d \<Longrightarrow> c \<notin> set (join_with d xs)"
  by (induction d xs rule: join_with.induct) auto

lemma split_first_colon:
  assumes "CHR '':'' \<notin> set xs"
  shows "strchr (xs @ CHR '':'' # ys) (CHR '':'') = Some (length xs)"
  using strchr_append [OF assms, of "CHR '':'' # ys"] by simp

lemma shell_args_split:
  assumes B: "libbase_spec B" "libbase_spec B'" and args: "\<forall>x \<in> set args. CHR '','' \<notin> set x"
  shows "shell_args B' (Split B' ((if args = [] then [] else '','') @ Join B args (CHR '','')) '','') acc = shell_args B' args acc"
proof -
  have skip: "shell_args B' ([] # xs) acc = shell_args B' xs acc" for xs
    using libbase_spec.StartsWith_iff [OF B(2)]
    by (cases acc) (simp add: kShellServiceArgRaw_def kShellServiceArgPty_def kShellServiceArgShellProtocol_def)
  have "Split B' ((if args = [] then [] else '','') @ Join B args (CHR '','')) '','' = [] # args"
    using args libbase_spec.Split_eq [OF B(2)] libbase_spec.Join_eq [OF B(1)] split_join [of args "CHR '',''"] by simp
  then show ?thesis by (simp only: skip)
qed

text \<open>The device's side of a shell service, for arguments without a colon before the command.\<close>

lemma ShellService_parts:
  assumes "libbase_spec B" and "libbase_spec (se_base env)" and "\<not> ADB_HOST (se_build env)"
    and "\<forall>x \<in> set args. CHR '','' \<notin> set x \<and> CHR '':'' \<notin> set x"
  shows "service_to_fd env (''shell'' @ (if args = [] then [] else '','') @ Join B args (CHR '','') @ '':'' @ cmd) t P =
    Inr (case shell_args (se_base env) args (if cmd = [] then kPty else kRaw, kNone, ''dumb'') of
      (type, protocol, terminal) \<Rightarrow> StartSubprocess env cmd (Some terminal) type protocol P)"
proof -
  let ?a = "(if args = [] then [] else '','') @ Join B args (CHR '','')"
  have colon: "CHR '':'' \<notin> set ?a"
    using assms(4) join_no_char [of args "CHR '':''" "CHR '',''"] libbase_spec.Join_eq [OF assms(1)] by auto
  have "ShellService env (?a @ '':'' @ cmd) P =
    (case shell_args (se_base env) args (if cmd = [] then kPty else kRaw, kNone, ''dumb'') of
      (type, protocol, terminal) \<Rightarrow> StartSubprocess env cmd (Some terminal) type protocol P)"
    using split_first_colon [OF colon, of cmd] shell_args_split [OF assms(1,2), of args] assms(4)
    by (simp add: ShellService_def Let_def del: append_assoc)
  then show ?thesis
    using not_socket_spec_shell [OF assms(2)] assms(3) by (simp add: service_to_fd_def device_service_def)
qed

text \<open>
  C28: the shell service string round trip. What the client asks for with ShellServiceString is what
  the device starts: the same command, the terminal type of the client (dumb without the shell
  protocol or without TERM), the type of the argument or, without one, a pty exactly for an
  interactive shell, and the shell protocol exactly when asked for; provided TERM holds no comma
  and no colon. The command may hold anything.
\<close>

theorem shell_service_roundtrip:
  assumes "libbase_spec B" and "libbase_spec (se_base env)" and "\<not> ADB_HOST (se_build env)"
    and "type_arg \<in> {[], kShellServiceArgRaw, kShellServiceArgPty}"
    and "\<forall>x. terminal = Some x \<longrightarrow> CHR '','' \<notin> set x \<and> CHR '':'' \<notin> set x"
  shows "service_to_fd env (ShellServiceString B use terminal type_arg cmd) t P =
    Inr (StartSubprocess env cmd
      (Some (if use then (case terminal of Some x \<Rightarrow> x | None \<Rightarrow> ''dumb'') else ''dumb''))
      (if type_arg = kShellServiceArgRaw then kRaw else if type_arg = kShellServiceArgPty then kPty
       else if cmd = [] then kPty else kRaw)
      (if use then kShell else kNone) P)"
proof -
  let ?args = "shell_string_args use terminal type_arg"
  have ok: "\<forall>x \<in> set ?args. CHR '','' \<notin> set x \<and> CHR '':'' \<notin> set x"
    using assms(4,5) by (auto simp: shell_string_args_def kShellServiceArgRaw_def kShellServiceArgPty_def
        kShellServiceArgShellProtocol_def split: option.splits)
  have "shell_args (se_base env) ?args (if cmd = [] then kPty else kRaw, kNone, ''dumb'') =
    (if type_arg = kShellServiceArgRaw then kRaw else if type_arg = kShellServiceArgPty then kPty
       else if cmd = [] then kPty else kRaw, if use then kShell else kNone,
     if use then (case terminal of Some x \<Rightarrow> x | None \<Rightarrow> ''dumb'') else ''dumb'')"
    using assms(4) libbase_spec.StartsWith_iff [OF assms(2)]
    by (auto simp: shell_string_args_def kShellServiceArgRaw_def kShellServiceArgPty_def
        kShellServiceArgShellProtocol_def split: option.splits)
  then show ?thesis
    using ShellService_parts [OF assms(1-3) ok, of cmd t P] by (simp add: ShellServiceString_def Let_def)
qed

text \<open>
  A colon in TERM ends the arguments of the shell service. The device then takes what follows the
  colon, with the type argument and the user's command appended, for the command: a value such as
  \<open>x:reboot;\<close> of TERM makes adb shell run reboot on the device.
\<close>

theorem terminal_colon_runs_command:
  assumes "libbase_spec B" and "libbase_spec (se_base env)" and "\<not> ADB_HOST (se_build env)"
    and "CHR '','' \<notin> set x" and "CHR '':'' \<notin> set x"
  shows "service_to_fd env (ShellServiceString B True (Some (x @ '':'' @ y)) type_arg cmd) t P =
    Inr (StartSubprocess env (y @ (if type_arg = [] then [] else '','' @ type_arg) @ '':'' @ cmd) (Some x) kRaw kShell P)"
proof -
  let ?args = "[kShellServiceArgShellProtocol, ''TERM='' @ x]"
  let ?cmd = "y @ (if type_arg = [] then [] else '','' @ type_arg) @ '':'' @ cmd"
  have eq: "ShellServiceString B True (Some (x @ '':'' @ y)) type_arg cmd =
      ''shell'' @ (if ?args = [] then [] else '','') @ Join B ?args (CHR '','') @ '':'' @ ?cmd"
    using libbase_spec.Join_eq [OF assms(1)] by (simp add: ShellServiceString_def shell_string_args_def Let_def)
  have ok: "\<forall>a \<in> set ?args. CHR '','' \<notin> set a \<and> CHR '':'' \<notin> set a"
    using assms(4,5) by (simp add: kShellServiceArgShellProtocol_def)
  have "shell_args (se_base env) ?args (if ?cmd = [] then kPty else kRaw, kNone, ''dumb'') = (kRaw, kShell, x)"
    using libbase_spec.StartsWith_iff [OF assms(2)]
    by (auto simp: kShellServiceArgRaw_def kShellServiceArgPty_def kShellServiceArgShellProtocol_def)
  then show ?thesis unfolding eq using ShellService_parts [OF assms(1-3) ok, of ?cmd t P] by simp
qed

section \<open>Replies of the server\<close>

lemma read_protocol_string:
  assumes "CHR 0x00 \<notin> set s" and "length s < 65536" and "stream (rscript g) = protocol_string s @ rest"
  shows "\<exists>g'. ReadProtocolString g = Inr (True, s, [], g') \<and> stream (rscript g') = rest"
proof -
  have p: "protocol_string s = pad0 4 (hex_of_nat (length s)) @ s"
    using assms(1,2) by (simp add: protocol_string_def Let_def c_str_id)
  have hdr: "length (pad0 4 (hex_of_nat (length s))) = 4" "strtoul16 (pad0 4 (hex_of_nat (length s))) = length s"
    using pad0_hex_strtoul16 [of "length s"] assms(2) by simp_all
  show ?thesis
    using ReadProtocolString_stream [of g "pad0 4 (hex_of_nat (length s))" "s @ rest"] hdr assms(2,3) by (simp add: p)
qed

lemma status_okay:
  assumes "stream (rscript g) = ''OKAY'' @ rest"
  shows "\<exists>g'. adb_status env g = Inr (True, [], g') \<and> stream (rscript g') = rest"
proof -
  from ReadFdExactly_available [of 4 g "[]"] assms obtain g' where
    "ReadFdExactly g 4 [] = (True, ENONE, ''OKAY'', g')" "stream (rscript g') = rest" by auto
  then show ?thesis by (simp add: adb_status_def)
qed

lemma status_fail:
  assumes "CHR 0x00 \<notin> set s" and "length s < 65536" and "stream (rscript g) = ''FAIL'' @ protocol_string s @ rest"
  shows "\<exists>g'. adb_status env g = Inr (False, s, g') \<and> stream (rscript g') = rest"
proof -
  from ReadFdExactly_available [of 4 g "[]"] assms(3) obtain g1 where
    g1: "ReadFdExactly g 4 [] = (True, ENONE, ''FAIL'', g1)" "stream (rscript g1) = protocol_string s @ rest" by auto
  from read_protocol_string [OF assms(1,2) g1(2)] g1(1) show ?thesis by (auto simp: adb_status_def)
qed

lemma SendFail_written:
  assumes "SendFail f reason = Inr (True, e, f')"
  shows "written f' = written f @ ''FAIL'' @ protocol_string reason"
proof -
  from assms obtain e1 f1 where "WriteFdExactly f ''FAIL'' = Inr (True, e1, f1)" "SendProtocolString f1 reason = Inr (True, e, f')"
    by (auto simp: SendFail_def split: if_splits)
  then show ?thesis using SendProtocolString_written(2) [of f1 reason e f'] WriteFdExactly_prefix [of f "''FAIL''" True e1 f1] by auto
qed

text \<open>
  C29: replies arrive as they were meant. Whatever pieces the kernel cuts the bytes into: when the server
  reports that SendFail wrote a reason without NUL bytes shorter than 64 KiB, the client's adb\_status
  fails with exactly this reason; when the server sent OKAY and a protocol string, adb\_status succeeds
  and reading the string gives it back. In both cases nothing of the reply is left in the stream.
\<close>

theorem replies_roundtrip:
  assumes "CHR 0x00 \<notin> set s" and "length s < 65536"
  shows "(SendFail f s = Inr (True, e, f') \<and> written f' = written f @ w \<and> stream (rscript g) = w @ rest \<longrightarrow>
      (\<exists>g'. adb_status env g = Inr (False, s, g') \<and> stream (rscript g') = rest)) \<and>
    (SendOkay f = Inr (True, e1, f1) \<and> SendProtocolString f1 s = Inr (True, e, f') \<and> written f' = written f @ w \<and>
       stream (rscript g) = w @ rest \<longrightarrow>
      (\<exists>g1 g'. adb_status env g = Inr (True, [], g1) \<and> ReadProtocolString g1 = Inr (True, s, [], g') \<and>
         stream (rscript g') = rest))"
proof (intro conjI impI; elim conjE)
  assume "SendFail f s = Inr (True, e, f')" "written f' = written f @ w" "stream (rscript g) = w @ rest"
  with SendFail_written have "stream (rscript g) = ''FAIL'' @ protocol_string s @ rest" by fastforce
  then show "\<exists>g'. adb_status env g = Inr (False, s, g') \<and> stream (rscript g') = rest" by (rule status_fail [OF assms])
next
  assume a: "SendOkay f = Inr (True, e1, f1)" "SendProtocolString f1 s = Inr (True, e, f')" "written f' = written f @ w"
    "stream (rscript g) = w @ rest"
  have "written f1 = written f @ ''OKAY''"
    using WriteFdExactly_prefix [of f "''OKAY''" True e1 f1] a(1) by (auto simp: SendOkay_def)
  then have "w = ''OKAY'' @ protocol_string s" using SendProtocolString_written(2) [OF a(2)] a(3) by simp
  with a(4) have st: "stream (rscript g) = ''OKAY'' @ protocol_string s @ rest" by simp
  from status_okay [OF st, where env = env] obtain g1 where
    g1: "adb_status env g = Inr (True, [], g1)" "stream (rscript g1) = protocol_string s @ rest" by blast
  from read_protocol_string [OF assms g1(2)] g1(1) show
    "\<exists>g1 g'. adb_status env g = Inr (True, [], g1) \<and> ReadProtocolString g1 = Inr (True, s, [], g') \<and> stream (rscript g') = rest"
    by blast
qed

section \<open>The escape character\<close>

definition newline :: "char \<Rightarrow> bool" where
  "newline c \<longleftrightarrow> c = CHR 0x0A \<or> c = CHR 0x0D"

text \<open>The text as a user types it: the escape character is doubled where a line starts with it.\<close>

fun typed :: "char \<Rightarrow> bool \<Rightarrow> string \<Rightarrow> string" where
  "typed e bol [] = []"
| "typed e bol (c # cs) = (if bol \<and> c = e then [c, c] else [c]) @ typed e (c \<noteq> e \<and> newline c) cs"

text \<open>Whether the next character starts a line.\<close>

definition bol_after :: "char \<Rightarrow> bool \<Rightarrow> string \<Rightarrow> bool" where
  "bol_after e bol s = (if s = [] then bol else last s \<noteq> e \<and> newline (last s))"

lemma escape_step_cases:
  "escape_step e kStartOfLine e = Some ([], kInEscape)" "escape_step e kInEscape e = Some ([e], kMidFlow)"
  "escape_step e kMidFlow e = Some ([e], kMidFlow)"
  "c \<noteq> e \<Longrightarrow> st \<noteq> kInEscape \<Longrightarrow> escape_step e st c = Some ([c], if newline c then kStartOfLine else kMidFlow)"
  by (simp_all add: escape_step_def newline_def)

lemma stdin_loop_typed:
  "stdin_loop e (if bol then kStartOfLine else kMidFlow) (typed e bol s @ cs) =
     (case stdin_loop e (if bol_after e bol s then kStartOfLine else kMidFlow) cs of
        (rest, x) \<Rightarrow> (map (\<lambda>c. [c]) s @ rest, x))"
proof (induction s arbitrary: bol)
  case Nil
  then show ?case by (simp add: bol_after_def split: prod.splits)
next
  case (Cons c s)
  have b: "bol_after e (c \<noteq> e \<and> newline c) s = bol_after e bol (c # s)" by (simp add: bol_after_def)
  note ih = Cons.IH [of "c \<noteq> e \<and> newline c", unfolded b]
  show ?case
  proof (cases "c = e")
    case True
    then show ?thesis using ih by (cases bol) (simp_all add: escape_step_cases split: prod.splits)
  next
    case False
    then show ?thesis using ih by (cases "newline c") (simp_all add: escape_step_cases split: prod.splits)
  qed
qed

text \<open>
  C30: every text can be sent through an interactive shell, and the way out works. Typed with the
  escape character doubled at the start of a line, a text arrives unchanged and character by
  character, and the client does not disconnect; typing the escape character and a dot at the start
  of a line after it disconnects, with exactly the text sent and nothing of what follows.
\<close>

theorem escape_roundtrip:
  "stdin_loop e kStartOfLine (typed e True s) = (map (\<lambda>c. [c]) s, False) \<and>
   (e \<noteq> CHR ''.'' \<and> bol_after e True s \<longrightarrow>
      stdin_loop e kStartOfLine (typed e True s @ e # CHR ''.'' # cs) = (map (\<lambda>c. [c]) s, True))"
proof
  show "stdin_loop e kStartOfLine (typed e True s) = (map (\<lambda>c. [c]) s, False)"
    using stdin_loop_typed [of e True s "[]"] by simp
  show "e \<noteq> CHR ''.'' \<and> bol_after e True s \<longrightarrow>
      stdin_loop e kStartOfLine (typed e True s @ e # CHR ''.'' # cs) = (map (\<lambda>c. [c]) s, True)"
    using stdin_loop_typed [of e True s "e # CHR ''.'' # cs"] by (auto simp: escape_step_def)
qed

section \<open>Waiting for a device\<close>

definition wait_types :: "(string \<times> TransportType) list" where
  "wait_types = [(''any'', kTransportAny), (''local'', kTransportLocal), (''usb'', kTransportUsb)]"

definition wait_states :: "(string \<times> ConnectionState) list" where
  "wait_states = [(''any'', kCsAny), (''bootloader'', kCsBootloader), (''device'', kCsDevice),
     (''recovery'', kCsRecovery), (''sideload'', kCsSideload)]"

lemma wait_spec_names:
  "(ty, type) \<in> set wait_types \<Longrightarrow> (st, state) \<in> set wait_states \<Longrightarrow> wait_spec (ty @ ''-'' @ st) = Some (type, state)"
  unfolding wait_types_def wait_states_def list.set insert_iff empty_iff
  by (elim disjE FalseE; simp add: wait_spec_def)

lemma wait_prefix_split:
  assumes "prefix ''wait-for-'' service"
  shows "split_at {CHR ''-''} service = ''wait'' # ''for'' # split_at {CHR ''-''} (drop 9 service)"
proof -
  from assms obtain r where "service = ''wait-for-'' @ r" by (auto simp: prefix_def)
  then show ?thesis by simp
qed

text \<open>
  Every wait-for command the client accepts is one the server understands, and as it was meant.
  For a command that starts with wait-for-, when wait\_for\_device sends a request at all, the
  server's parser of the host prefix and host\_service\_to\_socket give a thread that waits for the
  named kind of transport (the one of the -d and -e options where the command names none) and the
  named state.
\<close>

theorem wait_for_understood:
  assumes "libbase_spec B" and "prefix ''wait-for-'' service"
    and "wait_for_device_request B service t None = Some req" and "t \<noteq> kTransportHost"
  shows "\<exists>cmd ptype ty type st state. parse_host_prefix req = Some (cmd, ptype, None) \<and>
    (ty, type) \<in> set wait_types \<and> (st, state) \<in> set wait_states \<and>
    (service = ''wait-for-'' @ ty @ ''-'' @ st \<or> service = ''wait-for-'' @ st \<and> type = t) \<and>
    (\<forall>P :: 'x pstate_scheme. host_service_to_socket cmd None P =
       thread_socket (wait_for_state \<lparr>si_type = type, si_serial = [], si_state = state\<rparr>) P)"
proof -
  let ?parts = "split_at {CHR ''-''} (drop 9 service)"
  obtain cs where cs: "wait_for_device_components B service t = Some cs"
    and req: "req = format_host_command (Join B cs (CHR ''-'')) t None"
    using assms(3) by (auto simp: wait_for_device_request_def)
  have sp: "Split B service ''-'' = ''wait'' # ''for'' # ?parts"
    using libbase_spec.Split_eq [OF assms(1)] wait_prefix_split [OF assms(2)] by simp
  define ps where "ps = ?parts"
  let ?d = "if t = kTransportUsb then ''usb'' else if t = kTransportLocal then ''local'' else ''any''"
  obtain ty st where parts: "cs = [''wait'', ''for'', ty, st]" "ty \<in> {''any'', ''local'', ''usb''}"
    "st \<in> {''any'', ''bootloader'', ''device'', ''recovery'', ''sideload''}"
    and src: "?parts = [ty, st] \<or> ?parts = [st] \<and> ty = ?d"
  proof -
    have "length (Split B service ''-'') \<le> 4" using cs unfolding wait_for_device_components_def Let_def by (meson not_less option.distinct(1))
    moreover have "ps \<noteq> []" by (simp add: ps_def)
    ultimately have "length ps = 1 \<or> length ps = 2" using sp [folded ps_def] by (cases ps) (auto simp: le_Suc_eq)
    then consider x where "ps = [x]" | x y where "ps = [x, y]" by (auto simp: length_Suc_conv numeral_2_eq_2)
    then show ?thesis
    proof cases
      case (1 x)
      then have "cs = [''wait'', ''for'', ?d, x] \<and> x \<in> {''any'', ''bootloader'', ''device'', ''recovery'', ''sideload''}"
        using cs sp [folded ps_def] unfolding wait_for_device_components_def Let_def by (simp split: if_splits)
      then show ?thesis using 1 ps_def by (intro that [of ?d x]) auto
    next
      case (2 x y)
      then have "cs = [''wait'', ''for'', x, y] \<and> x \<in> {''any'', ''local'', ''usb''} \<and>
          y \<in> {''any'', ''bootloader'', ''device'', ''recovery'', ''sideload''}"
        using cs sp [folded ps_def] unfolding wait_for_device_components_def Let_def by (simp split: if_splits)
      then show ?thesis using 2 ps_def by (intro that [of x y]) auto
    qed
  qed
  have "ty \<in> fst ` set wait_types" "st \<in> fst ` set wait_states"
    using parts(2,3) by (simp_all add: wait_types_def wait_states_def)
  then obtain type state where m: "(ty, type) \<in> set wait_types" "(st, state) \<in> set wait_states" by force
  have cmd: "Join B cs (CHR ''-'') = ''wait-for-'' @ ty @ ''-'' @ st"
    using libbase_spec.Join_eq [OF assms(1)] parts(1) by simp
  have "drop 9 service = join_with (CHR ''-'') ?parts" by (simp add: join_split)
  moreover have "service = ''wait-for-'' @ drop 9 service" using assms(2) by (auto simp: prefix_def)
  ultimately have "service = ''wait-for-'' @ ty @ ''-'' @ st \<or> service = ''wait-for-'' @ st \<and> type = t"
    using src m(1) assms(4) by (cases t) (auto simp: wait_types_def)
  moreover have "\<exists>ptype. parse_host_prefix req = Some (''wait-for-'' @ ty @ ''-'' @ st, ptype, None)"
    unfolding req cmd by (cases t) (simp_all add: format_host_command_def parse_host_prefix_def)
  moreover have "host_service_to_socket (''wait-for-'' @ ty @ ''-'' @ st) None P =
      thread_socket (wait_for_state \<lparr>si_type = type, si_serial = [], si_state = state\<rparr>) P" for P :: "'x pstate_scheme"
    using wait_spec_names [OF m] by (simp add: host_service_to_socket_def)
  ultimately show ?thesis using m by blast
qed

section \<open>Witnesses\<close>

theorem shell_service_roundtrip_witness:
  "service_to_fd (demo_svc False) (ShellServiceString libbase_ref True (Some ''xterm'') ''raw'' ''ls -l a:b'') 1 (demo_pstate []) =
     Inr (9, (demo_pstate [])\<lparr>subprocesses := [(''ls -l a:b'', Some ''xterm'', kRaw, kShell)]\<rparr>)"
  using shell_service_roundtrip [OF base_ref.libbase_spec_axioms, of "demo_svc False" "''raw''" "Some ''xterm''" True "''ls -l a:b''" 1
      "demo_pstate []"] base_ref.libbase_spec_axioms
  by (simp add: kShellServiceArgRaw_def StartSubprocess_def demo_svc_def demo_pstate_defs)

theorem terminal_colon_runs_command_witness:
  "service_to_fd (demo_svc False) (ShellServiceString libbase_ref True (Some ''x:reboot;'') ''pty'' []) 1 (demo_pstate []) =
     Inr (9, (demo_pstate [])\<lparr>subprocesses := [(''reboot;,pty:'', Some ''x'', kRaw, kShell)]\<rparr>)"
  using terminal_colon_runs_command [OF base_ref.libbase_spec_axioms, of "demo_svc False" "''x''" "''reboot;''" "''pty''" "[]" 1
      "demo_pstate []"] base_ref.libbase_spec_axioms
  by (simp add: StartSubprocess_def demo_svc_def demo_pstate_defs)

definition demo_client_env :: client_env where
  "demo_client_env = \<lparr>cl_base = libbase_ref, cl_build = linux_host, strerror = (\<lambda>_. ''error'')\<rparr>"

theorem replies_roundtrip_witness:
  "\<exists>g'. adb_status demo_client_env (demo_fd [RData ''FAIL00'', RData ''05hel'', RData ''lo''] []) = Inr (False, ''hello'', g')"
proof -
  have p: "protocol_string ''hello'' = ''0005hello''"
    unfolding protocol_string_def
    by simp (simp add: pad0_def hex_of_nat.simps [of 5] hex_digit_lits c_str_def numeral_3_eq_3)
  let ?f = "demo_fd [] [WAccept 4, WAccept 9]"
  have send: "SendFail ?f ''hello'' = Inr (True, ENONE, (demo_fd [] [])\<lparr>written := ''FAIL0005hello''\<rparr>)"
    by (simp add: SendFail_def SendProtocolString_def MAX_PAYLOAD_eval demo_fd_def WriteFdExactly_steps p)
  have "\<exists>g'. adb_status demo_client_env (demo_fd [RData ''FAIL00'', RData ''05hel'', RData ''lo''] []) = Inr (False, ''hello'', g') \<and>
      stream (rscript g') = []"
    using replies_roundtrip [of "''hello''" ?f ENONE "(demo_fd [] [])\<lparr>written := ''FAIL0005hello''\<rparr>" "''FAIL0005hello''"
        "demo_fd [RData ''FAIL00'', RData ''05hel'', RData ''lo''] []" "[]" demo_client_env]
    by (simp add: send) (simp add: demo_fd_def)
  then show ?thesis by blast
qed

theorem escape_roundtrip_witness:
  "stdin_loop (CHR ''~'') kStartOfLine (''~~a'' @ [CHR 0x0A] @ ''~.rest'') = ([''~'', ''a'', [CHR 0x0A]], True)"
  using escape_roundtrip [of "CHR ''~''" "''~a'' @ [CHR 0x0A]" "''rest''"] by (simp add: bol_after_def newline_def)

theorem wait_for_understood_witness:
  "\<exists>req cmd ptype. wait_for_device_request libbase_ref ''wait-for-device'' kTransportUsb None = Some req \<and>
     parse_host_prefix req = Some (cmd, ptype, None) \<and>
     host_service_to_socket cmd None (demo_pstate [Some (3, 4)]) =
       thread_socket (wait_for_state \<lparr>si_type = kTransportUsb, si_serial = [], si_state = kCsDevice\<rparr>) (demo_pstate [Some (3, 4)])"
proof -
  obtain req where req: "wait_for_device_request libbase_ref ''wait-for-device'' kTransportUsb None = Some req"
    by (simp add: wait_for_device_request_def wait_for_device_components_def libbase_ref_def Let_def)
  have p: "prefix ''wait-for-'' ''wait-for-device''" by simp
  from wait_for_understood [OF base_ref.libbase_spec_axioms p req] obtain cmd ptype ty type st state where
    w: "parse_host_prefix req = Some (cmd, ptype, None)" "(ty, type) \<in> set wait_types" "(st, state) \<in> set wait_states"
    "''wait-for-device'' = ''wait-for-'' @ ty @ ''-'' @ st \<or> ''wait-for-device'' = ''wait-for-'' @ st \<and> type = kTransportUsb"
    "host_service_to_socket cmd None (demo_pstate [Some (3, 4)]) =
       thread_socket (wait_for_state \<lparr>si_type = type, si_serial = [], si_state = state\<rparr>) (demo_pstate [Some (3, 4)])" by blast
  have "type = kTransportUsb \<and> state = kCsDevice" using w(2-4) by (auto simp: wait_types_def wait_states_def)
  with req w(1,5) show ?thesis by blast
qed

end
