(* ===== verification/Shell_Protocol.thy ===== *)
theory Shell_Protocol
  imports Adb_IO Adb_Bytes
begin

text \<open>
  shell_service_protocol.cpp and the class declaration in shell_service.h: the framing of the
  shell_v2 protocol. A packet is one byte of identifier, a four-byte length in the byte order of
  the machine (little-endian on every platform adb is built for) and the data; a reader with a
  small buffer receives a long packet in several pieces.
\<close>

definition kIdStdin :: nat where "kIdStdin = 0"
definition kIdStdout :: nat where "kIdStdout = 1"
definition kIdStderr :: nat where "kIdStderr = 2"
definition kIdExit :: nat where "kIdExit = 3"
definition kIdCloseStdin :: nat where "kIdCloseStdin = 4"
definition kIdWindowSizeChange :: nat where "kIdWindowSizeChange = 5"
definition kIdInvalid :: nat where "kIdInvalid = 255"

definition kHeaderSize :: nat where "kHeaderSize = 5"

text \<open>
  \<open>sp_hdr\<close> is the first \<open>kHeaderSize\<close> bytes of \<open>buffer_\<close> and \<open>sp_data\<close> what follows them;
  \<open>sp_capacity\<close> is \<open>buffer_end_ - data()\<close>.
\<close>

record shell_protocol =
  sp_fd :: fd_state
  sp_hdr :: string
  sp_data :: string
  sp_capacity :: nat
  data_len :: nat
  bytes_left :: nat

definition shell_protocol_new :: "fd_state \<Rightarrow> shell_protocol" where
  "shell_protocol_new f =
    \<lparr>sp_fd = f, sp_hdr = [char_of kIdInvalid], sp_data = [], sp_capacity = MAX_PAYLOAD - kHeaderSize,
     data_len = 0, bytes_left = 0\<rparr>"

definition sp_id :: "shell_protocol \<Rightarrow> nat" where
  "sp_id p = of_char (hd (sp_hdr p))"

definition sp_read_data :: "shell_protocol \<Rightarrow> bool \<times> shell_protocol" where
  "sp_read_data p =
    (let read_length = min (bytes_left p) (sp_capacity p) in
     if read_length \<noteq> 0 then
       (case ReadFdExactly (sp_fd p) read_length [] of
          (False, e, bs, f) \<Rightarrow> (False, p\<lparr>sp_fd := f, sp_data := bs\<rparr>)
        | (True, e, bs, f) \<Rightarrow>
            (True, p\<lparr>sp_fd := f, sp_data := bs, bytes_left := bytes_left p - read_length,
                     data_len := read_length\<rparr>))
     else (True, p\<lparr>data_len := 0\<rparr>))"

definition sp_Read :: "shell_protocol \<Rightarrow> bool \<times> shell_protocol" where
  "sp_Read p =
    (if bytes_left p = 0 then
       (case ReadFdExactly (sp_fd p) kHeaderSize [] of
          (False, e, bs, f) \<Rightarrow> (False, p\<lparr>sp_fd := f, sp_hdr := bs @ drop (length bs) (sp_hdr p)\<rparr>)
        | (True, e, bs, f) \<Rightarrow>
            sp_read_data (p\<lparr>sp_fd := f, sp_hdr := bs, bytes_left := le32_val (drop 1 bs),
                            data_len := 0\<rparr>))
     else sp_read_data p)"

definition sp_Write :: "shell_protocol \<Rightarrow> nat \<Rightarrow> nat \<Rightarrow> (bool \<times> shell_protocol) res" where
  "sp_Write p pid len =
    (let hdr = char_of pid # le32 (len mod 2 ^ 32) in
     if len > length (sp_data p) then Inl OutOfBounds
     else bindR (WriteFdExactly (sp_fd p) (hdr @ take len (sp_data p)))
       (\<lambda>(ok, e, f). Inr (ok, p\<lparr>sp_fd := f, sp_hdr := hdr\<rparr>)))"

text \<open>The bytes from \<open>data()\<close> on, \<open>data_length()\<close> of them.\<close>

definition packet_data :: "shell_protocol \<Rightarrow> string" where
  "packet_data p = take (data_len p) (sp_data p)"

section \<open>Writing, then reading in pieces\<close>

definition shell_packet :: "nat \<Rightarrow> string \<Rightarrow> string" where
  "shell_packet pid d = char_of pid # le32 (length d) @ d"

lemma sp_Write_packet:
  assumes "sp_Write p pid (length d) = Inr (True, p')" and "take (length d) (sp_data p) = d"
    and "length d < 2 ^ 32"
  shows "written (sp_fd p') = written (sp_fd p) @ shell_packet pid d"
  using assms
  by (auto simp: sp_Write_def shell_packet_def Let_def split: if_splits dest!: WriteFdExactly_prefix)

text \<open>\<open>sp_Reads n p\<close>: \<open>n\<close> successful reads in a row, and the data of each.\<close>

fun sp_Reads :: "nat \<Rightarrow> shell_protocol \<Rightarrow> (string list \<times> shell_protocol) option" where
  "sp_Reads 0 p = Some ([], p)"
| "sp_Reads (Suc n) p =
     (case sp_Read p of
        (False, p') \<Rightarrow> None
      | (True, p') \<Rightarrow>
          map_option (\<lambda>(ds, q). (take (data_len p') (sp_data p') # ds, q)) (sp_Reads n p'))"

lemma sp_read_data_step:
  assumes "stream (rscript (sp_fd p)) = d @ rest" and "bytes_left p = length d"
  shows "\<exists>p'. sp_read_data p = (True, p') \<and>
    take (data_len p') (sp_data p') = take (sp_capacity p) d \<and>
    data_len p' = min (length d) (sp_capacity p) \<and>
    bytes_left p' = length (drop (sp_capacity p) d) \<and>
    stream (rscript (sp_fd p')) = drop (sp_capacity p) d @ rest \<and>
    sp_hdr p' = sp_hdr p \<and> sp_capacity p' = sp_capacity p"
proof -
  let ?r = "min (length d) (sp_capacity p)"
  have tk: "take ?r (d @ rest) = take (sp_capacity p) d"
    and dr: "drop ?r (d @ rest) = drop (sp_capacity p) d @ rest"
    by (auto simp: min_def)
  have "?r \<le> length (stream (rscript (sp_fd p)))" using assms(1) by simp
  from ReadFdExactly_available [OF this, of "[]"] obtain f where
    f: "ReadFdExactly (sp_fd p) ?r [] = (True, ENONE, take (sp_capacity p) d, f)"
      "stream (rscript f) = drop (sp_capacity p) d @ rest"
    unfolding assms(1) tk dr by auto
  show ?thesis
  proof (cases "?r = 0")
    case True
    then have "d = [] \<or> sp_capacity p = 0" by (auto simp: min_def split: if_splits)
    with True assms show ?thesis by (auto simp: sp_read_data_def Let_def)
  next
    case False
    have "take ?r d = take (sp_capacity p) d" by (simp add: min_def)
    with False f assms show ?thesis by (auto simp: sp_read_data_def Let_def)
  qed
qed

lemma sp_Reads_data:
  "0 < sp_capacity p \<Longrightarrow> d \<noteq> [] \<Longrightarrow> stream (rscript (sp_fd p)) = d @ rest \<Longrightarrow>
   bytes_left p = length d \<Longrightarrow>
   \<exists>ds p'. sp_Reads ((length d + sp_capacity p - 1) div sp_capacity p) p = Some (ds, p') \<and>
     concat ds = d \<and> (\<forall>x \<in> set ds. length x \<le> sp_capacity p) \<and> bytes_left p' = 0 \<and>
     stream (rscript (sp_fd p')) = rest \<and> sp_hdr p' = sp_hdr p \<and> sp_capacity p' = sp_capacity p"
proof (induction "length d" arbitrary: d p rule: less_induct)
  case less
  let ?c = "sp_capacity p"
  have rd: "sp_Read p = sp_read_data p"
    using less.prems by (simp add: sp_Read_def)
  obtain p1 where p1: "sp_read_data p = (True, p1)"
    "take (data_len p1) (sp_data p1) = take ?c d"
    "bytes_left p1 = length (drop ?c d)" "stream (rscript (sp_fd p1)) = drop ?c d @ rest"
    "sp_hdr p1 = sp_hdr p" "sp_capacity p1 = ?c"
    using sp_read_data_step [OF less.prems(3,4)] by blast
  have count: "(length d + ?c - 1) div ?c = Suc ((length (drop ?c d) + ?c - 1) div ?c)"
  proof (cases "length d \<le> ?c")
    case True
    have eq: "length d + ?c - 1 = (length d - 1) + ?c" using less.prems(2) by (cases d) auto
    have "?c \<noteq> 0" using less.prems(1) by simp
    then have "(length d + ?c - 1) div ?c = Suc ((length d - 1) div ?c)"
      unfolding eq Suc_eq_plus1 by (rule div_add_self2)
    moreover have "length d - 1 < ?c" and "?c - 1 < ?c"
      using True less.prems(1,2) by (cases d; simp)+
    then have "(length d - 1) div ?c = 0" and "(?c - 1) div ?c = 0" by simp_all
    ultimately show ?thesis using True by simp
  next
    case False
    then have eq: "length d + ?c - 1 = (length (drop ?c d) + ?c - 1) + ?c" using less.prems(1) by simp
    have "?c \<noteq> 0" using less.prems(1) by simp
    then show ?thesis unfolding eq Suc_eq_plus1 by (rule div_add_self2)
  qed
  show ?case
  proof (cases "drop ?c d = []")
    case True
    then show ?thesis using p1 rd count less.prems(1) by (auto simp: div_less)
  next
    case False
    have "length (drop ?c d) < length d" using less.prems(1,2) by simp
    from less.hyps [OF this, of p1] False p1 less.prems(1) obtain ds p2 where
      "sp_Reads ((length (drop ?c d) + ?c - 1) div ?c) p1 = Some (ds, p2)" "concat ds = drop ?c d"
      "\<forall>x \<in> set ds. length x \<le> ?c" "bytes_left p2 = 0" "stream (rscript (sp_fd p2)) = rest"
      "sp_hdr p2 = sp_hdr p" "sp_capacity p2 = ?c" by auto
    with p1 rd count show ?thesis by auto
  qed
qed

text \<open>
  A packet that ShellProtocol::Write sends arrives whole at a reader with any buffer size:
  the reader's successive calls of Read all succeed, report the packet's identifier, never
  overrun the buffer, and the pieces put together are the data; the stream is then at the next
  packet.
\<close>

theorem shell_protocol_roundtrip:
  assumes "sp_Write w pid (length d) = Inr (True, w')" and "take (length d) (sp_data w) = d"
    and "pid < 256" and "length d < 2 ^ 32"
    and "written (sp_fd w') = written (sp_fd w) @ bytes"
    and "stream (rscript (sp_fd p)) = bytes @ rest" and "bytes_left p = 0" and "0 < sp_capacity p"
  shows "\<exists>n ds p'. sp_Reads n p = Some (ds, p') \<and> concat ds = d \<and> sp_id p' = pid \<and>
    (\<forall>x \<in> set ds. length x \<le> sp_capacity p) \<and> bytes_left p' = 0 \<and>
    stream (rscript (sp_fd p')) = rest \<and>
    n = max 1 ((length d + sp_capacity p - 1) div sp_capacity p)"
proof -
  have bytes: "bytes = char_of pid # le32 (length d) @ d"
    using sp_Write_packet [OF assms(1,2,4)] assms(5) by (simp add: shell_packet_def)
  let ?hdr = "char_of pid # le32 (length d)"
  from ReadFdExactly_available [of kHeaderSize "sp_fd p" "[]"] assms(6) obtain f where
    f: "ReadFdExactly (sp_fd p) kHeaderSize [] = (True, ENONE, ?hdr, f)"
      "stream (rscript f) = d @ rest" by (auto simp: bytes kHeaderSize_def)
  let ?q = "p\<lparr>sp_fd := f, sp_hdr := ?hdr, bytes_left := length d, data_len := 0\<rparr>"
  have rd: "sp_Read p = sp_read_data ?q"
    using assms(4,7) f by (simp add: sp_Read_def le32_val_le32)
  have id: "sp_hdr p' = ?hdr \<Longrightarrow> sp_id p' = pid" for p'
    using assms(3) by (simp add: sp_id_def)
  show ?thesis
  proof (cases "d = []")
    case True
    then have "(length d + sp_capacity p - 1) div sp_capacity p = 0" using assms(8) by simp
    moreover have "sp_read_data ?q = (True, ?q)" using True by (simp add: sp_read_data_def)
    ultimately show ?thesis using True rd f id [of ?q]
      by (intro exI [of _ 1] exI [of _ "[[]]"] exI [of _ ?q]) auto
  next
    case False
    let ?n = "(length d + sp_capacity p - 1) div sp_capacity p"
    from sp_Reads_data [of ?q d rest] False f assms(8) obtain ds p' where
      r: "sp_Reads ?n ?q = Some (ds, p')" "concat ds = d" "\<forall>x \<in> set ds. length x \<le> sp_capacity p"
        "bytes_left p' = 0" "stream (rscript (sp_fd p')) = rest" "sp_hdr p' = ?hdr" by auto
    have "length d + sp_capacity p - 1 \<ge> sp_capacity p" using False by (cases d) auto
    then have "0 < ?n" using assms(8) by (simp add: div_greater_zero_iff)
    then obtain m where m: "?n = Suc m" using gr0_implies_Suc by blast
    have "sp_Read ?q = sp_read_data ?q" using False by (simp add: sp_Read_def)
    with rd have "sp_Reads ?n p = sp_Reads ?n ?q" unfolding m by simp
    with r id [OF r(6)] m show ?thesis by (intro exI [of _ ?n]) auto
  qed
qed

definition demo_sp :: "fd_state \<Rightarrow> string \<Rightarrow> nat \<Rightarrow> shell_protocol" where
  "demo_sp f d c = (shell_protocol_new f)\<lparr>sp_data := d, sp_capacity := c\<rparr>"

theorem shell_protocol_roundtrip_witness:
  "\<exists>ds p'. sp_Reads 3 (demo_sp (demo_fd [RData (shell_packet 1 ''hello'' @ ''X'')] []) [] 2) = Some (ds, p') \<and>
     concat ds = ''hello'' \<and> sp_id p' = 1 \<and> stream (rscript (sp_fd p')) = ''X''"
proof -
  let ?w = "demo_sp (demo_fd [] [WAccept 100]) ''hello'' 100"
  let ?p = "demo_sp (demo_fd [RData (shell_packet 1 ''hello'' @ ''X'')] []) [] 2"
  have five: "Suc (Suc (Suc (Suc (Suc 0)))) = 5" by simp
  obtain w' where w: "sp_Write ?w 1 (length ''hello'') = Inr (True, w')"
    and wr: "written (sp_fd w') = written (sp_fd ?w) @ shell_packet 1 ''hello''"
    by (simp add: sp_Write_def demo_sp_def demo_fd_def shell_protocol_new_def shell_packet_def
        WriteFdExactly_steps five)
  have st: "stream (rscript (sp_fd ?p)) = shell_packet 1 ''hello'' @ ''X''"
    by (simp add: demo_sp_def demo_fd_def shell_protocol_new_def shell_packet_def)
  have cap: "sp_capacity ?p = 2" "bytes_left ?p = 0" "sp_data ?w = ''hello''"
    by (simp_all add: demo_sp_def shell_protocol_new_def)
  have three: "(max 1 ((length ''hello'' + sp_capacity ?p - 1) div sp_capacity ?p)) = (3::nat)"
    unfolding cap by simp
  have h: "take (length ''hello'') (sp_data ?w) = ''hello''" "(1::nat) < 256"
    "length ''hello'' < 2 ^ 32" "0 < sp_capacity ?p" unfolding cap by simp_all
  from shell_protocol_roundtrip [OF w h(1,2,3) wr st cap(2) h(4)]
  show ?thesis unfolding three by blast
qed

section \<open>A reader with the buffer of a writer\<close>

lemma ReadFdExactly_len: "ReadFdExactly f n acc = (True, e, bs, f') \<Longrightarrow> length bs = length acc + n"
  using ReadFdExactly_available [of n f acc] ReadFdExactly_short [of f n acc] by (cases "n \<le> length (stream (rscript f))") auto

lemma sp_Read_packet:
  assumes "stream (rscript (sp_fd p)) = shell_packet pid d @ rest" and "bytes_left p = 0" and "length d \<le> sp_capacity p"
    and "length d < 2 ^ 32" and "pid < 256"
  shows "\<exists>p'. sp_Read p = (True, p') \<and> sp_id p' = pid \<and> packet_data p' = d \<and> bytes_left p' = 0 \<and>
    stream (rscript (sp_fd p')) = rest \<and> sp_capacity p' = sp_capacity p"
proof -
  let ?hdr = "char_of pid # le32 (length d)"
  from ReadFdExactly_available [of kHeaderSize "sp_fd p" "[]"] assms(1) obtain f where
    f: "ReadFdExactly (sp_fd p) kHeaderSize [] = (True, ENONE, ?hdr, f)" "stream (rscript f) = d @ rest"
    by (auto simp: shell_packet_def kHeaderSize_def)
  let ?q = "p\<lparr>sp_fd := f, sp_hdr := ?hdr, bytes_left := length d, data_len := 0\<rparr>"
  have rd: "sp_Read p = sp_read_data ?q" using assms(2,4) f by (simp add: sp_Read_def le32_val_le32)
  from sp_read_data_step [of ?q d rest] f(2) obtain p' where
    p': "sp_read_data ?q = (True, p')" "packet_data p' = take (sp_capacity p) d" "bytes_left p' = length (drop (sp_capacity p) d)"
      "stream (rscript (sp_fd p')) = drop (sp_capacity p) d @ rest" "sp_hdr p' = ?hdr" "sp_capacity p' = sp_capacity p"
    by (auto simp: packet_data_def)
  then show ?thesis using rd assms(3,5) by (auto simp: sp_id_def)
qed

lemma sp_Read_end:
  assumes "stream (rscript (sp_fd p)) = []" and "bytes_left p = 0"
  shows "\<exists>p'. sp_Read p = (False, p')"
  using ReadFdExactly_short [of "sp_fd p" kHeaderSize "[]"] assms by (auto simp: sp_Read_def kHeaderSize_def)

text \<open>A successful read uses up some of what there is to read.\<close>

lemma ReadFdExactly_some:
  assumes "ReadFdExactly f n [] = (True, e, bs, f')" and "0 < n"
  shows "rsize f' < rsize f"
  using ReadFdExactly_rsize [OF assms(1)] ReadFdExactly_empty [of n f "[]"] assms by (cases "rscript f = []") auto

lemma sp_read_data_rsize:
  assumes "sp_read_data p = (ok, p')"
  shows "rsize (sp_fd p') \<le> rsize (sp_fd p) \<and> sp_capacity p' = sp_capacity p \<and>
    (ok \<and> 0 < bytes_left p \<and> 0 < sp_capacity p \<longrightarrow> rsize (sp_fd p') < rsize (sp_fd p))"
proof (cases "min (bytes_left p) (sp_capacity p) = 0")
  case True
  then show ?thesis using assms by (auto simp: sp_read_data_def Let_def)
next
  case False
  obtain b e bs f where r: "ReadFdExactly (sp_fd p) (min (bytes_left p) (sp_capacity p)) [] = (b, e, bs, f)" by (cases "ReadFdExactly (sp_fd p) (min (bytes_left p) (sp_capacity p)) []") auto
  then have "sp_fd p' = f" "sp_capacity p' = sp_capacity p" "ok = b"
    using assms False by (auto simp: sp_read_data_def Let_def split: bool.splits)
  moreover have "b \<Longrightarrow> rsize f < rsize (sp_fd p)" using ReadFdExactly_some r False by auto
  ultimately show ?thesis using ReadFdExactly_rsize [OF r] by auto
qed

lemma sp_Read_rsize:
  assumes "sp_Read p = (True, p')" and "0 < sp_capacity p"
  shows "rsize (sp_fd p') < rsize (sp_fd p) \<and> sp_capacity p' = sp_capacity p"
proof (cases "bytes_left p = 0")
  case True
  obtain b e bs f where r: "ReadFdExactly (sp_fd p) kHeaderSize [] = (b, e, bs, f)" by (cases "ReadFdExactly (sp_fd p) kHeaderSize []") auto
  then have b: "b" and d: "sp_read_data (p\<lparr>sp_fd := f, sp_hdr := bs, bytes_left := le32_val (drop 1 bs), data_len := 0\<rparr>) = (True, p')"
    using assms(1) True by (auto simp: sp_Read_def split: bool.splits)
  have "rsize f < rsize (sp_fd p)" using ReadFdExactly_some r b by (simp add: kHeaderSize_def)
  then show ?thesis using sp_read_data_rsize [OF d] by simp
next
  case False
  then have "sp_read_data p = (True, p')" using assms(1) by (simp add: sp_Read_def)
  from sp_read_data_rsize [OF this] show ?thesis using False assms(2) by simp
qed

end
