(* ===== verification/Subprocess.thy ===== *)
theory Subprocess
  imports Services Shell_Protocol C_Numbers
begin

text \<open>
  shell\_service.cpp: a command on the device with its streams. ForkAndExec is modelled on the
  parent's side, with what the system answers as a record; the loop that passes data between the
  client, over the shell protocol, and the streams of the child is modelled whole. What select
  reports is a script; where the script ends, the loop is still waiting.
\<close>

section \<open>State\<close>

datatype sub_call = Kill_HUP | Kill_KILL | Set_winsize "16 word" "16 word" "16 word" "16 word" | Shut_wr

text \<open>One answer of select: an error, or whether protocol, stdout and stderr can be read and stdin written.\<close>

datatype select_result = SelectErr errno_t | Ready bool bool bool bool

record subprocess =
  sub_type :: SubprocessType
  make_pty_raw :: bool
  protocol_sfd :: "fd_state option"     \<comment> \<open>None is -1\<close>
  stdinout_sfd :: "fd_state option"
  stderr_sfd :: "fd_state option"
  sub_input :: shell_protocol           \<comment> \<open>\<open>input_\<close> and \<open>output_\<close> share the descriptor above\<close>
  sub_output :: shell_protocol
  input_bytes_left :: nat
  in_protocol :: bool                   \<comment> \<open>the sets of select: master\_read\_set\<close>
  in_stdout :: bool
  in_stderr :: bool
  in_stdin :: bool                      \<comment> \<open>stdinout in master\_write\_set\<close>
  sub_calls :: "sub_call list"

text \<open>The system: whether shutdown succeeds, and what is in the buffer behind a packet.\<close>

record sub_env =
  se_shutdown :: bool
  se_stale :: string

text \<open>A descriptor that failed.\<close>

datatype sfd = Protocol | Stdinout | Stderr

section \<open>Passing data\<close>

text \<open>\<open>%d\<close> of sscanf, with the rest of the text.\<close>

definition scan_int :: "string \<Rightarrow> (int \<times> string) option" where
  "scan_int s =
    (let t = dropWhile is_space s;
         neg = (t \<noteq> [] \<and> hd t = CHR ''-'');
         u = (if t \<noteq> [] \<and> (hd t = CHR ''-'' \<or> hd t = CHR ''+'') then tl t else t);
         ds = takeWhile is_digit u; v = int (digits_prefix 10 0 ds) in
     if ds = [] then None
     else Some (to_int32 (if neg then max (- v) (- (2 ^ 63)) else min v (2 ^ 63 - 1)), dropWhile is_digit u))"

definition scan_char :: "char \<Rightarrow> string \<Rightarrow> string option" where
  "scan_char c s = (case s of d # r \<Rightarrow> if d = c then Some r else None | [] \<Rightarrow> None)"

text \<open>\<open>sscanf(data, "%dx%d,%dx%d", ...)\<close>, None where fewer than four numbers are read.\<close>

definition scan_winsize :: "string \<Rightarrow> (int \<times> int \<times> int \<times> int) option" where
  "scan_winsize s =
    Option.bind (scan_int s) (\<lambda>(rows, s1). Option.bind (scan_char (CHR ''x'') s1) (\<lambda>s2.
    Option.bind (scan_int s2) (\<lambda>(cols, s3). Option.bind (scan_char (CHR '','') s3) (\<lambda>s4.
    Option.bind (scan_int s4) (\<lambda>(x, s5). Option.bind (scan_char (CHR ''x'') s5) (\<lambda>s6.
    map_option (\<lambda>(y, _). (rows, cols, x, y)) (scan_int s6)))))))"

text \<open>What PassInput does with a new packet while stdin is open: the bytes to write, or an early end.\<close>

definition handle_input_packet :: "sub_env \<Rightarrow> subprocess \<Rightarrow> (subprocess \<times> sfd option option) res" where
  "handle_input_packet env P =
    (let i = sub_input P; pid = sp_id i in
     if pid = kIdWindowSizeChange then
       (let text = packet_data i @ se_stale env in
        if CHR 0x00 \<notin> set text then Inl OutOfBounds
        else (case scan_winsize (c_str text) of
                Some (rows, cols, x, y) \<Rightarrow>
                  Inr (P\<lparr>sub_calls := sub_calls P @ [Set_winsize (of_int rows) (of_int cols) (of_int x) (of_int y)]\<rparr>, None)
              | None \<Rightarrow> Inr (P, None)))
     else if pid = kIdStdin then Inr (P\<lparr>input_bytes_left := data_len i\<rparr>, None)
     else if pid = kIdCloseStdin \<and> sub_type P = kRaw then
       Inr (P\<lparr>sub_calls := sub_calls P @ [Shut_wr]\<rparr>, Some (if se_shutdown env then None else Some Stdinout))
     else Inr (P, None))"

definition write_stdin :: "subprocess \<Rightarrow> sfd option \<times> subprocess" where
  "write_stdin P =
    (if input_bytes_left P = 0 then (None, P)
     else
       (let d = packet_data (sub_input P); index = data_len (sub_input P) - input_bytes_left P in
        case (case stdinout_sfd P of None \<Rightarrow> (Err (EOTHER 9), P)
              | Some f \<Rightarrow> (case adb_write f (drop index d) of (r, f1) \<Rightarrow> (r, P\<lparr>stdinout_sfd := Some f1\<rparr>))) of
          (Ret k, P1) \<Rightarrow>
            if k = 0 then (Some Stdinout, P1\<lparr>input_bytes_left := 0\<rparr>)
            else (None, P1\<lparr>input_bytes_left := input_bytes_left P1 - k\<rparr>)
        | (Err e, P1) \<Rightarrow>
            if e = EAGAIN then (None, P1) else (Some Stdinout, P1\<lparr>input_bytes_left := 0\<rparr>)))"

definition read_input :: "subprocess \<Rightarrow> bool \<times> subprocess" where
  "read_input P =
    (case protocol_sfd P of
       None \<Rightarrow> (False, P)
     | Some f \<Rightarrow>
         (case sp_Read ((sub_input P)\<lparr>sp_fd := f\<rparr>) of (ok, i) \<Rightarrow>
           (ok, P\<lparr>sub_input := i, protocol_sfd := Some (sp_fd i)\<rparr>)))"

definition PassInput :: "sub_env \<Rightarrow> subprocess \<Rightarrow> (sfd option \<times> subprocess) res" where
  "PassInput env P =
    (if input_bytes_left P \<noteq> 0 then Inr (write_stdin P)
     else
       (case read_input P of
          (False, P1) \<Rightarrow> Inr (Some Protocol, P1)
        | (True, P1) \<Rightarrow>
            if stdinout_sfd P1 = None then Inr (write_stdin P1)
            else
              bindR (handle_input_packet env P1) (\<lambda>(P2, early).
                case early of Some d \<Rightarrow> Inr (d, P2) | None \<Rightarrow> Inr (write_stdin P2))))"

definition stream_fd :: "sfd \<Rightarrow> subprocess \<Rightarrow> fd_state option" where
  "stream_fd x P = (case x of Protocol \<Rightarrow> protocol_sfd P | Stdinout \<Rightarrow> stdinout_sfd P | Stderr \<Rightarrow> stderr_sfd P)"

definition set_stream :: "sfd \<Rightarrow> fd_state option \<Rightarrow> subprocess \<Rightarrow> subprocess" where
  "set_stream x f P =
    (case x of Protocol \<Rightarrow> P\<lparr>protocol_sfd := f\<rparr> | Stdinout \<Rightarrow> P\<lparr>stdinout_sfd := f\<rparr> | Stderr \<Rightarrow> P\<lparr>stderr_sfd := f\<rparr>)"

definition write_output :: "nat \<Rightarrow> string \<Rightarrow> subprocess \<Rightarrow> (bool \<times> subprocess) res" where
  "write_output pid bs P =
    (case protocol_sfd P of
       None \<Rightarrow> Inr (False, P)
     | Some f \<Rightarrow>
         bindR (sp_Write ((sub_output P)\<lparr>sp_fd := f, sp_data := bs\<rparr>) pid (length bs)) (\<lambda>(ok, out).
           Inr (ok, P\<lparr>sub_output := out, protocol_sfd := Some (sp_fd out)\<rparr>)))"

definition PassOutput :: "sfd \<Rightarrow> nat \<Rightarrow> subprocess \<Rightarrow> (sfd option \<times> subprocess) res" where
  "PassOutput x pid P =
    (case stream_fd x P of
       None \<Rightarrow> Inr (Some x, P)
     | Some f \<Rightarrow>
         (case adb_read f (sp_capacity (sub_output P)) of
            (Err e, bs, f1) \<Rightarrow> Inr (if e = EAGAIN then None else Some x, set_stream x (Some f1) P)
          | (Ret k, bs, f1) \<Rightarrow>
              let P1 = set_stream x (Some f1) P in
              if k = 0 then Inr (Some x, P1)
              else bindR (write_output pid bs P1) (\<lambda>(ok, P2). Inr (if ok then None else Some Protocol, P2))))"

section \<open>The loop\<close>

text \<open>One turn of the loop of SelectLoop, after select has reported.\<close>

definition select_turn :: "sub_env \<Rightarrow> bool \<times> bool \<times> bool \<times> bool \<Rightarrow> subprocess \<Rightarrow> (sfd option \<times> subprocess) res" where
  "select_turn env ready P =
    (case ready of (p, out, err, inp) \<Rightarrow>
      bindR (if stdinout_sfd P \<noteq> None \<and> out then PassOutput Stdinout kIdStdout P else Inr (None, P)) (\<lambda>(dead1, P1).
      bindR (if dead1 = None \<and> stderr_sfd P1 \<noteq> None \<and> err then PassOutput Stderr kIdStderr P1 else Inr (dead1, P1)) (\<lambda>(dead2, P2).
      bindR (if dead2 = None \<and> protocol_sfd P2 \<noteq> None \<and> p then
               bindR (PassInput env P2) (\<lambda>(d, Q).
                 Inr (d, if input_bytes_left Q \<noteq> 0 then Q\<lparr>in_protocol := False, in_stdin := True\<rparr> else Q))
             else Inr (dead2, P2)) (\<lambda>(dead3, P3).
        if dead3 = None \<and> stdinout_sfd P3 \<noteq> None \<and> inp then
          bindR (PassInput env P3) (\<lambda>(d, Q).
            Inr (d, if input_bytes_left Q = 0 then Q\<lparr>in_protocol := True, in_stdin := False\<rparr> else Q))
        else Inr (dead3, P3)))))"

text \<open>The descriptor that died, or None where select failed; the third part is what is left of the script.\<close>

datatype select_end = Dead sfd | SelectFailed | StillWaiting

fun SelectLoop :: "sub_env \<Rightarrow> select_result list \<Rightarrow> subprocess \<Rightarrow> (select_end \<times> subprocess \<times> select_result list) res" where
  "SelectLoop env [] P = Inr (StillWaiting, P, [])"
| "SelectLoop env (SelectErr e # rs) P =
    (if e = EOTHER 4 then SelectLoop env rs P
     else Inr (SelectFailed, P\<lparr>stdinout_sfd := None, stderr_sfd := None\<rparr>, rs))"
| "SelectLoop env (Ready p out err inp # rs) P =
    bindR (select_turn env (p \<and> in_protocol P, out \<and> in_stdout P, err \<and> in_stderr P, inp \<and> in_stdin P) P) (\<lambda>(d, P1).
      case d of Some x \<Rightarrow> Inr (Dead x, P1, rs) | None \<Rightarrow> SelectLoop env rs P1)"

definition clear_sets :: "sfd \<Rightarrow> subprocess \<Rightarrow> subprocess" where
  "clear_sets x P =
    (case x of Protocol \<Rightarrow> P\<lparr>in_protocol := False\<rparr> | Stdinout \<Rightarrow> P\<lparr>in_stdout := False, in_stdin := False\<rparr>
     | Stderr \<Rightarrow> P\<lparr>in_stderr := False\<rparr>)"

definition close_dead :: "sfd \<Rightarrow> subprocess \<Rightarrow> subprocess" where
  "close_dead x P =
    set_stream x None
      (if x = Protocol then (clear_sets x P)\<lparr>sub_calls := sub_calls P @ [Kill_HUP], stdinout_sfd := None, stderr_sfd := None\<rparr>
       else clear_sets x P)"

lemma SelectLoop_shorter: "SelectLoop env rs P = Inr (e, P', rs') \<Longrightarrow> e \<noteq> StillWaiting \<Longrightarrow> length rs' < length rs"
proof (induction env rs P rule: SelectLoop.induct)
  case (3 env p out err inp rs P)
  from "3.prems"(1) obtain d P1 where t: "select_turn env (p \<and> in_protocol P, out \<and> in_stdout P, err \<and> in_stderr P, inp \<and> in_stdin P) P = Inr (d, P1)"
    and r: "(case d of Some x \<Rightarrow> Inr (Dead x, P1, rs) | None \<Rightarrow> SelectLoop env rs P1) = Inr (e, P', rs')" by auto
  show ?case
  proof (cases d)
    case None
    then have "length rs' < length rs" using "3.IH" [OF t refl None] r "3.prems"(2) by simp
    then show ?thesis by simp
  qed (use r in simp)
qed (auto split: if_splits)

text \<open>The loop of PassDataStreams: whether it ended.\<close>

function pass_loop :: "sub_env \<Rightarrow> select_result list \<Rightarrow> subprocess \<Rightarrow> (bool \<times> subprocess) res" where
  "pass_loop env rs P =
    (if protocol_sfd P = None \<or> (stdinout_sfd P = None \<and> stderr_sfd P = None) then Inr (True, P)
     else bindR (SelectLoop env rs P) (\<lambda>(e, P1, rs1).
       case e of
         StillWaiting \<Rightarrow> Inr (False, P1)
       | SelectFailed \<Rightarrow> pass_loop env rs1 P1
       | Dead x \<Rightarrow> pass_loop env rs1 (close_dead x P1)))"
  by pat_completeness auto
termination
  by (relation "measure (\<lambda>(env, rs, P). length rs)") (auto dest!: SelectLoop_shorter)

declare pass_loop.simps [simp del]

definition PassDataStreams :: "sub_env \<Rightarrow> select_result list \<Rightarrow> subprocess \<Rightarrow> (bool \<times> subprocess) res" where
  "PassDataStreams env rs P =
    (if protocol_sfd P = None then Inr (True, P)
     else pass_loop env rs (P\<lparr>in_protocol := True, in_stdout := (stdinout_sfd P \<noteq> None), in_stderr := (stderr_sfd P \<noteq> None), in_stdin := False\<rparr>))"

section \<open>The end of the child\<close>

text \<open>What waitpid gives: another value, which is tried again, or a status.\<close>

datatype waitpid_result = WaitFailed | Exited nat | Signaled nat | NotExited

fun wait_exit :: "waitpid_result list \<Rightarrow> nat option" where
  "wait_exit [] = None"
| "wait_exit (WaitFailed # ws) = wait_exit ws"
| "wait_exit (Exited n # ws) = Some n"
| "wait_exit (Signaled n # ws) = Some (unat ((0x80 :: 32 word) OR of_nat n))"
| "wait_exit (NotExited # ws) = Some 1"

text \<open>
  WaitForExit up to the message to the shell exit notifier: whether the exit packet was sent and
  the protocol descriptor as it is closed; None where the child has not ended.
\<close>

definition WaitForExit :: "waitpid_result list \<Rightarrow> subprocess \<Rightarrow> (bool \<times> fd_state option \<times> subprocess) option res" where
  "WaitForExit ws P =
    (case wait_exit ws of
       None \<Rightarrow> Inr None
     | Some exit_code \<Rightarrow>
         bindR (write_output kIdExit [char_of exit_code] P) (\<lambda>(ok, P1).
           Inr (Some (ok, protocol_sfd P1, P1\<lparr>protocol_sfd := None\<rparr>))))"

section \<open>Starting a command\<close>

text \<open>
  The constructor: without the shell protocol there has to be a pty.
\<close>

definition new_subprocess :: "SubprocessType \<Rightarrow> SubprocessProtocol \<Rightarrow> SubprocessType \<times> bool" where
  "new_subprocess type protocol = (if protocol = kNone \<and> type = kRaw then (kPty, True) else (type, False))"

text \<open>The variables of the child; a variable of the parent without = is dropped.\<close>

definition add_var :: "(string \<rightharpoonup> string) \<Rightarrow> string \<Rightarrow> (string \<rightharpoonup> string)" where
  "add_var E s = (if CHR ''='' \<in> set s then E(takeWhile (\<lambda>c. c \<noteq> CHR ''='') s \<mapsto> tl (dropWhile (\<lambda>c. c \<noteq> CHR ''='') s)) else E)"

definition child_env :: "string list \<Rightarrow> (string \<times> string \<times> string) option \<Rightarrow> string \<Rightarrow> (string \<rightharpoonup> string)" where
  "child_env environ pw terminal_type =
    (let E = foldl add_var Map.empty environ;
         E1 = (case pw of None \<Rightarrow> E
               | Some (pw_dir, pw_name, pw_shell) \<Rightarrow>
                   E(''HOME'' \<mapsto> pw_dir, ''LOGNAME'' \<mapsto> pw_name, ''USER'' \<mapsto> pw_name, ''SHELL'' \<mapsto> pw_shell)) in
     if terminal_type \<noteq> [] then E1(''TERM'' \<mapsto> terminal_type) else E1)"

text \<open>The arguments of exec.\<close>

definition child_argv :: "string \<Rightarrow> string list" where
  "child_argv cmd = (if cmd = [] then [''/system/bin/sh'', ''-''] else [''/system/bin/sh'', ''-c'', cmd])"

text \<open>
  The child before exec: what the system answers to it, and what it writes to its error
  descriptor. Nothing is written when the shell is started; \<open>_PATH_BSHELL\<close> is the shell.
\<close>

record child_sys =
  cs_open :: "errno_t option"
  cs_getattr :: "errno_t option"
  cs_setattr :: "errno_t option"
  cs_exec :: "errno_t option"
  cs_strerror :: "errno_t \<Rightarrow> string"

definition OpenPtyChildFd :: "child_sys \<Rightarrow> bool \<Rightarrow> string \<Rightarrow> string option" where
  "OpenPtyChildFd cs raw pts_name =
    (case cs_open cs of
       Some e \<Rightarrow> Some (''child failed to open pseudo-term slave '' @ pts_name @ '': '' @ cs_strerror cs e)
     | None \<Rightarrow>
         if raw then
           (case cs_getattr cs of
              Some e \<Rightarrow> Some (''tcgetattr failed: '' @ cs_strerror cs e)
            | None \<Rightarrow> map_option (\<lambda>e. ''tcsetattr failed: '' @ cs_strerror cs e) (cs_setattr cs))
         else None)"

definition child_report :: "child_sys \<Rightarrow> SubprocessType \<Rightarrow> bool \<Rightarrow> string \<Rightarrow> string" where
  "child_report cs type raw pts_name =
    (case (if type = kPty then OpenPtyChildFd cs raw pts_name else None) of
       Some m \<Rightarrow> m
     | None \<Rightarrow> (case cs_exec cs of Some e \<Rightarrow> ''exec '' @ [CHR 0x27] @ ''/system/bin/sh'' @ [CHR 0x27] @ '' failed: '' @ cs_strerror cs e | None \<Rightarrow> []))"

text \<open>What the system answers to ForkAndExec; \<open>fk_error\<close> is what the child reports before exec, the result of \<open>child_report\<close>.\<close>

record fork_env =
  fk_error_pair :: "errno_t option"
  fk_stdinout :: "errno_t + fd_state"    \<comment> \<open>the socket pair, or the pty of forkpty\<close>
  fk_stderr :: "errno_t + fd_state"
  fk_fork :: "errno_t option"
  fk_error :: string
  fk_protocol :: "errno_t + fd_state"
  fk_nonblock :: "bool \<times> bool"
  fk_strerror :: "errno_t \<Rightarrow> string"

text \<open>
  ForkAndExec in the parent: the error message, without the number of a descriptor in it, and the
  signals sent to the child, or the object.
\<close>

definition fork_streams :: "fork_env \<Rightarrow> SubprocessType \<Rightarrow> SubprocessProtocol \<Rightarrow> string + (fd_state \<times> fd_state option)" where
  "fork_streams env type protocol =
    (let forked = (\<lambda>x. case fk_fork env of Some e \<Rightarrow> Inl (''fork failed: '' @ fk_strerror env e) | None \<Rightarrow> Inr x) in
     if type = kPty then (case fk_stdinout env of Inl e \<Rightarrow> Inl (''fork failed: '' @ fk_strerror env e) | Inr f \<Rightarrow> Inr (f, None))
     else
       (case fk_stdinout env of
          Inl e \<Rightarrow> Inl (''failed to create socketpair for stdin/out: '' @ fk_strerror env e)
        | Inr f \<Rightarrow>
            if protocol = kShell then
              (case fk_stderr env of
                 Inl e \<Rightarrow> Inl (''failed to create socketpair for stderr: '' @ fk_strerror env e)
               | Inr g \<Rightarrow> forked (f, Some g))
            else forked (f, None)))"

definition ForkAndExec :: "fork_env \<Rightarrow> SubprocessType \<Rightarrow> SubprocessProtocol \<Rightarrow> (string \<times> sub_call list) + subprocess" where
  "ForkAndExec env type0 protocol =
    (case new_subprocess type0 protocol of (type, raw) \<Rightarrow>
      case fk_error_pair env of
        Some e \<Rightarrow> Inl (''failed to create pipe for subprocess error reporting: '' @ fk_strerror env e, [])
      | None \<Rightarrow>
          (case fork_streams env type protocol of
             Inl m \<Rightarrow> Inl (m, [])
           | Inr (f, g) \<Rightarrow>
               if fk_error env \<noteq> [] then Inl (fk_error env, [])
               else
                 (let P = \<lparr>sub_type = type, make_pty_raw = raw, protocol_sfd = None, stdinout_sfd = Some f, stderr_sfd = g,
                        sub_input = shell_protocol_new f, sub_output = shell_protocol_new f, input_bytes_left = 0,
                        in_protocol = False, in_stdout = False, in_stderr = False, in_stdin = False, sub_calls = []\<rparr> in
                  if protocol = kNone then Inr (P\<lparr>stdinout_sfd := None\<rparr>)
                  else
                    (case fk_protocol env of
                       Inl e \<Rightarrow> Inl (''failed to create socketpair to intercept data: '' @ fk_strerror env e, [Kill_KILL])
                     | Inr h \<Rightarrow>
                         if \<not> fst (fk_nonblock env) \<or> (g \<noteq> None \<and> \<not> snd (fk_nonblock env))
                         then Inl (''failed to set non-blocking mode'', [Kill_KILL])
                         else Inr (P\<lparr>protocol_sfd := Some h, sub_input := shell_protocol_new h, sub_output := shell_protocol_new h\<rparr>)))))"

text \<open>The bytes ReportError puts into the pipe the client reads.\<close>

definition ReportError :: "SubprocessProtocol \<Rightarrow> string \<Rightarrow> string" where
  "ReportError protocol message =
    (let buf = ''error: '' @ message @ [CHR 0x0A] in
     if protocol = kShell then shell_packet kIdStderr buf @ shell_packet kIdExit [char_of (126 :: nat)] else buf)"

text \<open>StartSubprocess: the bytes of the error pipe, or the object that the new thread runs.\<close>

definition start_subprocess :: "fork_env \<Rightarrow> SubprocessType \<Rightarrow> SubprocessProtocol \<Rightarrow> string + subprocess" where
  "start_subprocess env type protocol =
    (case ForkAndExec env type protocol of Inl (m, _) \<Rightarrow> Inl (ReportError protocol m) | Inr P \<Rightarrow> Inr P)"

text \<open>
  The last step of WaitForExit: the number of the local socket for the exit notifier, where there
  is one; whether the socket is now the notifier's.
\<close>

definition notify_exit :: "nat \<Rightarrow> fd_state option \<Rightarrow> (bool \<times> fd_state option) res" where
  "notify_exit local_socket notify =
    (case notify of
       None \<Rightarrow> Inr (False, None)
     | Some f \<Rightarrow> bindR (WriteFdExactly f (le32 local_socket)) (\<lambda>(ok, _, f1). Inr (ok, Some f1)))"

text \<open>The thread: pass the data, then delete the object, which waits for the child; None where it is still busy.\<close>

definition ThreadHandler ::
  "sub_env \<Rightarrow> select_result list \<Rightarrow> waitpid_result list \<Rightarrow> nat \<Rightarrow> fd_state option \<Rightarrow> subprocess \<Rightarrow> (fd_state option \<times> bool \<times> fd_state option) option res" where
  "ThreadHandler env rs ws local_socket notify P =
    bindR (PassDataStreams env rs P) (\<lambda>(ended, P1).
      if ended then
        bindR (WaitForExit ws P1) (\<lambda>w.
          case w of None \<Rightarrow> Inr None
          | Some (_, f, _) \<Rightarrow> bindR (notify_exit local_socket notify) (\<lambda>(given, n). Inr (Some (f, given, n))))
      else Inr None)"

end
