(* ===== verification/Shell_Client.thy ===== *)
theory Shell_Client
  imports Shell_Protocol
begin

text \<open>
  The client's end of a command: the callbacks of commandline.h and the loop of commandline.cpp
  that reads the connection, hands the output on and finds the exit code.
\<close>

section \<open>Callbacks\<close>

text \<open>StandardStreamsCallbackInterface over a state.\<close>

record 's streams_callback =
  OnStdout :: "string \<Rightarrow> 's \<Rightarrow> 's"
  OnStderr :: "string \<Rightarrow> 's \<Rightarrow> 's"
  Done :: "int \<Rightarrow> 's \<Rightarrow> int \<times> 's"

text \<open>The strings of DefaultStandardStreamsCallback, where it has them, and the host's streams.\<close>

record std_streams =
  stdout_str :: "string option"
  stderr_str :: "string option"
  host_stdout :: string
  host_stderr :: string

definition OnStream :: "string option \<Rightarrow> string \<Rightarrow> string \<Rightarrow> string option \<times> string" where
  "OnStream str out buffer = (case str of Some s \<Rightarrow> (Some (s @ buffer), out) | None \<Rightarrow> (None, out @ buffer))"

definition default_callback :: "std_streams streams_callback" where
  "default_callback =
    \<lparr>OnStdout = (\<lambda>buffer st. case OnStream (stdout_str st) (host_stdout st) buffer of (s, out) \<Rightarrow> st\<lparr>stdout_str := s, host_stdout := out\<rparr>),
     OnStderr = (\<lambda>buffer st. case OnStream (stderr_str st) (host_stderr st) buffer of (s, out) \<Rightarrow> st\<lparr>stderr_str := s, host_stderr := out\<rparr>),
     Done = (\<lambda>status st. (status, st))\<rparr>"

section \<open>Reading the connection\<close>

text \<open>\<open>char\<close> is signed on the machines the client is built for.\<close>

definition signed_char :: "char \<Rightarrow> int" where
  "signed_char c = (if of_char c < (128 :: int) then of_char c else of_char c - 256)"

text \<open>
  The loop with the shell protocol: the exit code and the state. The buffer is never empty, so a
  read cannot succeed for ever. An exit packet without data gives the byte that happens to be in
  the buffer, \<open>stray\<close> where nothing has been read into it.
\<close>

function dump_shell :: "'s streams_callback \<Rightarrow> char \<Rightarrow> shell_protocol \<Rightarrow> int \<Rightarrow> 's \<Rightarrow> (int \<times> 's) res" where
  "dump_shell cb stray p exit_code st =
    (if sp_capacity p = 0 then Inl Spin
     else
       (case sp_Read p of
          (False, _) \<Rightarrow> Inr (exit_code, st)
        | (True, p1) \<Rightarrow>
            if sp_id p1 = kIdStdout then dump_shell cb stray p1 exit_code (OnStdout cb (packet_data p1) st)
            else if sp_id p1 = kIdStderr then dump_shell cb stray p1 exit_code (OnStderr cb (packet_data p1) st)
            else if sp_id p1 = kIdExit then dump_shell cb stray p1 (signed_char (hd (sp_data p1 @ [stray]))) st
            else dump_shell cb stray p1 exit_code st))"
  by pat_completeness auto
termination
  by (relation "measure (\<lambda>(cb, stray, p, exit_code, st). rsize (sp_fd p))") (auto dest!: sp_Read_rsize [OF sym])

declare dump_shell.simps [simp del]

text \<open>Without it, everything is stdout; \<open>bufsiz\<close> is BUFSIZ.\<close>

function dump_raw :: "'s streams_callback \<Rightarrow> nat \<Rightarrow> fd_state \<Rightarrow> 's \<Rightarrow> 's" where
  "dump_raw cb bufsiz f st =
    (case adb_read f bufsiz of
       (Ret k, bs, f1) \<Rightarrow> if k = 0 then st else dump_raw cb bufsiz f1 (OnStdout cb bs st)
     | (Err e, _, _) \<Rightarrow> st)"
  by pat_completeness auto
termination
  by (relation "measure (\<lambda>(cb, bufsiz, f, st). rsize f)") (auto dest!: adb_read_some [OF sym])

declare dump_raw.simps [simp del]

definition read_and_dump :: "'s streams_callback \<Rightarrow> nat \<Rightarrow> char \<Rightarrow> fd_state option \<Rightarrow> bool \<Rightarrow> 's \<Rightarrow> (int \<times> 's) res" where
  "read_and_dump cb bufsiz stray fd use_shell_protocol st =
    (case fd of
       None \<Rightarrow> Inr (0, st)
     | Some f \<Rightarrow>
         if use_shell_protocol
         then bindR (dump_shell cb stray (shell_protocol_new f) 0 st) (\<lambda>(exit_code, st1). Inr (Done cb exit_code st1))
         else Inr (Done cb 0 (dump_raw cb bufsiz f st)))"

lemma signed_char_of: "signed_char (char_of n) = (if n mod 256 < 128 then int (n mod 256) else int (n mod 256) - 256)"
proof -
  have "(of_char (char_of n) :: int) = int (of_char (char_of n))" by (rule of_nat_of_char [symmetric])
  then show ?thesis by (auto simp: signed_char_def)
qed

section \<open>What a callback sees\<close>

definition packets :: "(nat \<times> string) list \<Rightarrow> string" where
  "packets ps = concat (map (\<lambda>(i, d). shell_packet i d) ps)"

definition data_of :: "nat \<Rightarrow> (nat \<times> string) list \<Rightarrow> string" where
  "data_of i ps = concat (map snd (filter (\<lambda>p. fst p = i) ps))"

definition frames :: "nat \<Rightarrow> (nat \<times> string) list \<Rightarrow> bool" where
  "frames c ps \<longleftrightarrow> (\<forall>(i, d) \<in> set ps. (i = kIdStdout \<or> i = kIdStderr) \<and> d \<noteq> [] \<and> length d \<le> c)"

lemma packets_append [simp]: "packets (ps @ qs) = packets ps @ packets qs"
  by (simp add: packets_def)

lemma data_of_append [simp]: "data_of i (ps @ qs) = data_of i ps @ data_of i qs"
  by (simp add: data_of_def)

lemma packets_simps [simp]: "packets [] = []" "packets [(i, d)] = shell_packet i d"
  by (simp_all add: packets_def)

lemma data_of_simps [simp]: "data_of i [] = []" "data_of i [(j, d)] = (if i = j then d else [])"
  by (simp_all add: data_of_def)

lemma frames_append [simp]: "frames c (ps @ qs) \<longleftrightarrow> frames c ps \<and> frames c qs"
  by (auto simp: frames_def)

lemma kIds_neq [simp]: "kIdStdout \<noteq> kIdStderr" "kIdStderr \<noteq> kIdStdout" "kIdExit \<noteq> kIdStdout" "kIdExit \<noteq> kIdStderr"
  "kIdStdout \<noteq> kIdExit" "kIdStderr \<noteq> kIdExit"
  by (simp_all add: kIdStdout_def kIdStderr_def kIdExit_def)

definition deliver :: "'s streams_callback \<Rightarrow> nat \<times> string \<Rightarrow> 's \<Rightarrow> 's" where
  "deliver cb p st = (if fst p = kIdStdout then OnStdout cb (snd p) st else if fst p = kIdStderr then OnStderr cb (snd p) st else st)"

lemma dump_shell_exit:
  assumes "stream (rscript (sp_fd p)) = shell_packet kIdExit [c]" and "bytes_left p = 0" and "0 < sp_capacity p"
  shows "dump_shell cb stray p x st = Inr (signed_char c, st)"
proof -
  from sp_Read_packet [of p kIdExit "[c]" "[]"] assms obtain p' where
    p': "sp_Read p = (True, p')" "sp_id p' = kIdExit" "packet_data p' = [c]" "bytes_left p' = 0" "stream (rscript (sp_fd p')) = []" "sp_capacity p' = sp_capacity p"
    by (auto simp: kIdExit_def)
  have hd: "hd (sp_data p' @ [stray]) = c" using p'(3) by (cases "sp_data p'") (auto simp: packet_data_def take_Cons split: nat.splits)
  obtain p2 where "sp_Read p' = (False, p2)" using sp_Read_end [OF p'(5,4)] by blast
  then have "dump_shell cb stray p' (signed_char c) st = Inr (signed_char c, st)" using p'(6) assms(3) by (subst dump_shell.simps) simp
  then show ?thesis using p'(1,2) hd assms(3) by (subst dump_shell.simps) simp
qed

lemma dump_shell_packets:
  "stream (rscript (sp_fd p)) = packets ps @ shell_packet kIdExit [c] \<Longrightarrow> bytes_left p = 0 \<Longrightarrow> 0 < sp_capacity p \<Longrightarrow>
   sp_capacity p < 2 ^ 32 \<Longrightarrow> frames (sp_capacity p) ps \<Longrightarrow> dump_shell cb stray p x st = Inr (signed_char c, fold (deliver cb) ps st)"
proof (induction ps arbitrary: p st)
  case Nil
  then show ?case by (simp add: dump_shell_exit)
next
  case (Cons q ps)
  obtain i d where q: "q = (i, d)" by force
  have i: "i = kIdStdout \<or> i = kIdStderr" "length d \<le> sp_capacity p" and fr: "frames (sp_capacity p) ps" using Cons.prems(5) q by (auto simp: frames_def)
  have st: "stream (rscript (sp_fd p)) = shell_packet i d @ packets ps @ shell_packet kIdExit [c]" using Cons.prems(1) q by (simp add: packets_def)
  have "length d < 2 ^ 32" "i < 256" using i Cons.prems(4) by (auto simp: kIdStdout_def kIdStderr_def)
  from sp_Read_packet [OF st Cons.prems(2) i(2) this] obtain p' where
    p': "sp_Read p = (True, p')" "sp_id p' = i" "packet_data p' = d" "bytes_left p' = 0"
      "stream (rscript (sp_fd p')) = packets ps @ shell_packet kIdExit [c]" "sp_capacity p' = sp_capacity p" by blast
  have IH: "dump_shell cb stray p' x st = Inr (signed_char c, fold (deliver cb) ps st)" for st
    using Cons.IH [OF p'(5,4)] p'(6) Cons.prems(3,4) fr by simp
  show ?case
    using i(1) p' Cons.prems(3) q by (subst dump_shell.simps) (auto simp: IH deliver_def)
qed

lemma deliver_default:
  "stdout_str st = None \<Longrightarrow> stderr_str st = None \<Longrightarrow> frames n ps \<Longrightarrow>
   fold (deliver default_callback) ps st = st\<lparr>host_stdout := host_stdout st @ data_of kIdStdout ps, host_stderr := host_stderr st @ data_of kIdStderr ps\<rparr>"
proof (induction ps arbitrary: st)
  case (Cons q ps)
  obtain i d where q: "q = (i, d)" by force
  have i: "i = kIdStdout \<or> i = kIdStderr" and fr: "frames n ps" using Cons.prems(3) q by (auto simp: frames_def)
  let ?st = "deliver default_callback q st"
  have 1: "?st = st\<lparr>host_stdout := host_stdout st @ data_of kIdStdout [q], host_stderr := host_stderr st @ data_of kIdStderr [q]\<rparr>"
    using i q Cons.prems(1,2) by (auto simp: deliver_def default_callback_def OnStream_def)
  then have "stdout_str ?st = None" "stderr_str ?st = None" using Cons.prems(1,2) by simp_all
  from Cons.IH [OF this fr] show ?case using 1 by (simp add: data_of_def)
qed simp

end
