(* ===== verification/Subprocess_Props.thy ===== *)
theory Subprocess_Props
  imports Subprocess Shell_Client
begin

text \<open>
  What passes through the loop of a subprocess: every byte the command writes to stdout and
  stderr goes to the client, in order and framed in packets, as long as the client is there and
  stdin takes what it is given; and the loop ends once both streams do.
\<close>

section \<open>Descriptors that do not block\<close>

text \<open>What a reader that tries again after EAGAIN gets before the end of file or an error.\<close>

fun nb_stream :: "rresp list \<Rightarrow> string" where
  "nb_stream (RData (b # bs) # rs) = b # bs @ nb_stream rs"
| "nb_stream (RErr EAGAIN # rs) = nb_stream rs"
| "nb_stream _ = []"

lemma nb_stream_data: "bs \<noteq> [] \<Longrightarrow> nb_stream (RData bs # rs) = bs @ nb_stream rs"
  by (cases bs) auto

lemma nb_stream_err: "e \<noteq> EAGAIN \<Longrightarrow> nb_stream (RErr e # rs) = []"
  by (cases e) auto

lemma adb_read_nb:
  assumes "adb_read f n = (r, bs, f')" and "0 < n"
  shows "(r = Ret (length bs) \<and> bs \<noteq> [] \<and> length bs \<le> n \<and> nb_stream (rscript f) = bs @ nb_stream (rscript f')) \<or>
    (r = Err EAGAIN \<and> nb_stream (rscript f') = nb_stream (rscript f)) \<or>
    (r = Ret 0 \<or> (\<exists>e. r = Err e \<and> e \<noteq> EAGAIN)) \<and> nb_stream (rscript f) = []"
proof (cases "rscript f")
  case Nil
  then show ?thesis using assms by (auto simp: adb_read_def)
next
  case (Cons a rs)
  show ?thesis
  proof (cases a)
    case (RData d)
    consider "d = []" | "d \<noteq> []" "length d \<le> n" | "n < length d" by linarith
    then show ?thesis
    proof cases
      case 3
      then have "d \<noteq> []" "drop n d \<noteq> []" "take n d \<noteq> []" using assms(2) by auto
      then show ?thesis using 3 assms RData Cons by (auto simp: adb_read_def nb_stream_data)
    qed (use assms RData Cons in \<open>auto simp: adb_read_def nb_stream_data\<close>)
  next
    case (RErr e)
    then have "r = Err e" "rscript f' = rs" using assms(1) Cons by (auto simp: adb_read_def)
    then show ?thesis unfolding Cons RErr by (cases "e = EAGAIN") (simp_all add: nb_stream_err)
  qed
qed

section \<open>What has passed\<close>

definition sent_bytes :: "subprocess \<Rightarrow> string" where
  "sent_bytes P = (case protocol_sfd P of None \<Rightarrow> [] | Some f \<Rightarrow> written f)"

definition left_in :: "sfd \<Rightarrow> subprocess \<Rightarrow> string" where
  "left_in x P = (case stream_fd x P of None \<Rightarrow> [] | Some f \<Rightarrow> nb_stream (rscript f))"

text \<open>Stdin takes something or asks to try again.\<close>

definition stdin_ok :: "subprocess \<Rightarrow> bool" where
  "stdin_ok P \<longleftrightarrow> (\<forall>f. stdinout_sfd P = Some f \<longrightarrow> (\<forall>w \<in> set (wscript f). w \<noteq> WAccept 0 \<and> (\<forall>e. w = WErr e \<longrightarrow> e = EAGAIN)))"

text \<open>What is still to be written to stdin is in the buffer.\<close>

definition stdin_pending :: "subprocess \<Rightarrow> bool" where
  "stdin_pending P \<longleftrightarrow> input_bytes_left P \<le> data_len (sub_input P) \<and> data_len (sub_input P) \<le> length (sp_data (sub_input P))"

definition passed :: "subprocess \<Rightarrow> subprocess \<Rightarrow> (nat \<times> string) list \<Rightarrow> bool" where
  "passed P P' ps \<longleftrightarrow>
    sent_bytes P' = sent_bytes P @ packets ps \<and>
    left_in Stdinout P = data_of kIdStdout ps @ left_in Stdinout P' \<and>
    left_in Stderr P = data_of kIdStderr ps @ left_in Stderr P' \<and>
    frames (sp_capacity (sub_output P)) ps \<and> sp_capacity (sub_output P') = sp_capacity (sub_output P) \<and>
    (stdin_ok P \<longrightarrow> stdin_ok P') \<and> (stdin_pending P \<longrightarrow> stdin_pending P') \<and> (protocol_sfd P' = None \<longleftrightarrow> protocol_sfd P = None)"

lemma passed_refl [simp]: "passed P P []"
  by (simp add: passed_def frames_def)

lemma passed_trans: "passed P Q ps \<Longrightarrow> passed Q R qs \<Longrightarrow> passed P R (ps @ qs)"
  by (auto simp: passed_def)

text \<open>The flags of select and the calls made do not matter to what has passed.\<close>

definition same_streams :: "subprocess \<Rightarrow> subprocess \<Rightarrow> bool" where
  "same_streams P Q \<longleftrightarrow> protocol_sfd Q = protocol_sfd P \<and> stdinout_sfd Q = stdinout_sfd P \<and> stderr_sfd Q = stderr_sfd P \<and>
    sp_capacity (sub_output Q) = sp_capacity (sub_output P) \<and> sub_input Q = sub_input P \<and> input_bytes_left Q = input_bytes_left P"

lemma same_streams_eq:
  assumes "same_streams P Q"
  shows "sent_bytes Q = sent_bytes P" "left_in x Q = left_in x P" "stdin_ok Q = stdin_ok P" "stdin_pending Q = stdin_pending P"
    "(protocol_sfd Q = None) = (protocol_sfd P = None)" "sp_capacity (sub_output Q) = sp_capacity (sub_output P)"
  using assms by (cases x; simp add: same_streams_def sent_bytes_def left_in_def stream_fd_def stdin_ok_def stdin_pending_def)+

lemma passed_same: "passed P Q ps \<Longrightarrow> same_streams Q R \<Longrightarrow> passed P R ps"
  unfolding passed_def by (simp only: same_streams_eq simp_thms) blast

definition closed :: "sfd option \<Rightarrow> subprocess \<Rightarrow> subprocess" where
  "closed d P = (case d of None \<Rightarrow> P | Some x \<Rightarrow> set_stream x None P)"

lemma closed_same: "same_streams P Q \<Longrightarrow> same_streams (closed d P) (closed d Q)"
  by (cases d) (auto simp: closed_def same_streams_def set_stream_def split: sfd.splits)

lemma stdin_ok_cong: "stdin_ok P \<Longrightarrow> stdinout_sfd P = Some f \<Longrightarrow> set (wscript f') \<subseteq> set (wscript f) \<Longrightarrow>
    stdinout_sfd Q = Some f' \<Longrightarrow> stdin_ok Q"
  by (auto simp: stdin_ok_def)

section \<open>Output\<close>

lemma write_output_passed:
  assumes "write_output pid bs P = Inr (True, P')" and "length bs < 2 ^ 32"
  shows "sent_bytes P' = sent_bytes P @ shell_packet pid bs \<and> stdinout_sfd P' = stdinout_sfd P \<and> stderr_sfd P' = stderr_sfd P \<and>
    sp_capacity (sub_output P') = sp_capacity (sub_output P) \<and> protocol_sfd P' \<noteq> None \<and> protocol_sfd P \<noteq> None \<and>
    (stdin_pending P \<longrightarrow> stdin_pending P')"
proof -
  from assms(1) obtain f out where f: "protocol_sfd P = Some f"
    and w: "sp_Write ((sub_output P)\<lparr>sp_fd := f, sp_data := bs\<rparr>) pid (length bs) = Inr (True, out)"
    and P': "P' = P\<lparr>sub_output := out, protocol_sfd := Some (sp_fd out)\<rparr>"
    by (auto simp: write_output_def split: option.splits)
  have "written (sp_fd out) = written f @ shell_packet pid bs" using sp_Write_packet [OF w _ assms(2)] by simp
  moreover have "sp_capacity out = sp_capacity (sub_output P)" using w by (auto simp: sp_Write_def Let_def split: if_splits)
  ultimately show ?thesis using f P' by (simp add: sent_bytes_def stdin_pending_def)
qed

definition output_stream :: "sfd \<Rightarrow> nat \<Rightarrow> bool" where
  "output_stream x pid \<longleftrightarrow> x = Stdinout \<and> pid = kIdStdout \<or> x = Stderr \<and> pid = kIdStderr"

lemma stdin_ok_read: "stdin_ok P \<Longrightarrow> stdinout_sfd P = Some f \<Longrightarrow> wscript f' = wscript f \<Longrightarrow> stdinout_sfd Q = Some f' \<Longrightarrow> stdin_ok Q"
  by (erule stdin_ok_cong) auto

lemma stdin_ok_same: "stdin_ok P \<Longrightarrow> stdinout_sfd Q = stdinout_sfd P \<Longrightarrow> stdin_ok Q"
  by (simp add: stdin_ok_def)

lemma stdin_ok_None: "stdinout_sfd Q = None \<Longrightarrow> stdin_ok Q"
  by (simp add: stdin_ok_def)

lemma set_stream_simps [simp]:
  "protocol_sfd (set_stream Stdinout f P) = protocol_sfd P" "protocol_sfd (set_stream Stderr f P) = protocol_sfd P"
  "stdinout_sfd (set_stream Stdinout f P) = f" "stdinout_sfd (set_stream Stderr f P) = stdinout_sfd P"
  "stderr_sfd (set_stream Stdinout f P) = stderr_sfd P" "stderr_sfd (set_stream Stderr f P) = f"
  "sub_output (set_stream x f P) = sub_output P" "sub_input (set_stream x f P) = sub_input P"
  "stdinout_sfd (set_stream Protocol f P) = stdinout_sfd P" "stderr_sfd (set_stream Protocol f P) = stderr_sfd P"
  "protocol_sfd (set_stream Protocol f P) = f"
  by (simp_all add: set_stream_def split: sfd.splits)

lemma pending_set_stream [simp]: "stdin_pending (set_stream x f P) = stdin_pending P"
  by (simp add: stdin_pending_def set_stream_def split: sfd.splits)

lemma PassOutput_passed:
  assumes po: "PassOutput x pid P = Inr (d, P')" "d \<noteq> Some Protocol" and x: "output_stream x pid"
    and cap: "0 < sp_capacity (sub_output P)" "sp_capacity (sub_output P) < 2 ^ 32" and op: "stream_fd x P = Some f"
  shows "\<exists>ps. passed P (closed d P') ps"
proof -
  obtain r bs f1 where r: "adb_read f (sp_capacity (sub_output P)) = (r, bs, f1)" by (cases "adb_read f (sp_capacity (sub_output P))") auto
  note ws = adb_read_written [OF r]
  let ?P1 = "set_stream x (Some f1) P"
  consider (data) "r = Ret (length bs)" "bs \<noteq> []" "length bs \<le> sp_capacity (sub_output P)" "nb_stream (rscript f) = bs @ nb_stream (rscript f1)"
    | (again) "r = Err EAGAIN" "nb_stream (rscript f1) = nb_stream (rscript f)"
    | (dead) "r = Ret 0 \<or> (\<exists>e. r = Err e \<and> e \<noteq> EAGAIN)" "nb_stream (rscript f) = []"
    using adb_read_nb [OF r cap(1)] by blast
  then show ?thesis
  proof cases
    case data
    with po op r obtain ok P2 where w: "write_output pid bs ?P1 = Inr (ok, P2)" and "d = (if ok then None else Some Protocol)" "P' = P2"
      by (auto simp: PassOutput_def Let_def)
    with po(2) have w: "write_output pid bs ?P1 = Inr (True, P2)" and d: "d = None" "P' = P2" by (auto split: if_splits)
    have "length bs < 2 ^ 32" using data(3) cap(2) by simp
    note wo = write_output_passed [OF w this]
    have "passed P P2 [(pid, bs)]"
      using x op data wo ws
      by (auto simp: passed_def output_stream_def stream_fd_def left_in_def sent_bytes_def frames_def
          elim: stdin_ok_read stdin_ok_same)
    then show ?thesis using d by (auto simp: closed_def)
  next
    case again
    then have d: "d = None" "P' = ?P1" using po op r by (auto simp: PassOutput_def)
    have "passed P ?P1 []"
      using x op again ws by (auto simp: passed_def output_stream_def stream_fd_def left_in_def sent_bytes_def frames_def elim: stdin_ok_read stdin_ok_same)
    then show ?thesis using d by (auto simp: closed_def)
  next
    case dead
    then have d: "d = Some x" "P' = ?P1" using po op r by (auto simp: PassOutput_def)
    have "passed P (set_stream x None ?P1) []"
      using x op dead(2) by (auto simp: passed_def output_stream_def stream_fd_def left_in_def sent_bytes_def frames_def elim: stdin_ok_same intro: stdin_ok_None)
    then show ?thesis using d by (auto simp: closed_def)
  qed
qed

section \<open>Input\<close>

text \<open>Reading a packet and writing to stdin leave the output streams alone.\<close>

definition keeps_output :: "subprocess \<Rightarrow> subprocess \<Rightarrow> bool" where
  "keeps_output P Q \<longleftrightarrow> sent_bytes Q = sent_bytes P \<and> (protocol_sfd Q = None \<longleftrightarrow> protocol_sfd P = None) \<and>
    sub_output Q = sub_output P \<and> stderr_sfd Q = stderr_sfd P \<and> in_stdout Q = in_stdout P \<and> in_stderr Q = in_stderr P \<and>
    (case stdinout_sfd P of None \<Rightarrow> stdinout_sfd Q = None
     | Some f \<Rightarrow> (\<exists>f'. stdinout_sfd Q = Some f' \<and> rscript f' = rscript f \<and> set (wscript f') \<subseteq> set (wscript f)))"

lemma keeps_output_trans: "keeps_output P Q \<Longrightarrow> keeps_output Q R \<Longrightarrow> keeps_output P R"
  by (auto simp: keeps_output_def split: option.splits)

lemma keeps_output_same:
  "protocol_sfd Q = protocol_sfd P \<Longrightarrow> sub_output Q = sub_output P \<Longrightarrow> stderr_sfd Q = stderr_sfd P \<Longrightarrow> stdinout_sfd Q = stdinout_sfd P \<Longrightarrow>
   in_stdout Q = in_stdout P \<Longrightarrow> in_stderr Q = in_stderr P \<Longrightarrow> keeps_output P Q"
  by (auto simp: keeps_output_def sent_bytes_def split: option.splits)

lemma keeps_output_passed: "keeps_output P Q \<Longrightarrow> (stdin_pending P \<longrightarrow> stdin_pending Q) \<Longrightarrow> passed P Q []"
  by (auto simp: keeps_output_def passed_def left_in_def stream_fd_def frames_def stdin_ok_def split: option.splits)

lemma sp_Read_written: "sp_Read p = (ok, p') \<Longrightarrow> written (sp_fd p') = written (sp_fd p)"
  by (auto simp: sp_Read_def sp_read_data_def Let_def split: prod.splits bool.splits if_splits dest!: ReadFdExactly_written)

lemma read_input_keeps: "read_input P = (ok, P') \<Longrightarrow> keeps_output P P'"
  by (auto simp: read_input_def keeps_output_def sent_bytes_def split: option.splits prod.splits dest!: sp_Read_written)

lemma adb_write_keeps: "adb_write f bs = (r, f') \<Longrightarrow> rscript f' = rscript f \<and> set (wscript f') \<subseteq> set (wscript f)"
  by (auto simp: adb_write_def Let_def split: list.splits wresp.splits)

lemma write_stdin_keeps: "write_stdin P = (d, P') \<Longrightarrow> keeps_output P P'"
  by (auto simp: write_stdin_def Let_def keeps_output_def sent_bytes_def
      split: option.splits prod.splits io_ret.splits if_splits dest!: adb_write_keeps)

lemma handle_input_keeps: "handle_input_packet env P = Inr (P', e) \<Longrightarrow> keeps_output P P'"
  by (auto simp: handle_input_packet_def Let_def split: option.splits prod.splits if_splits intro!: keeps_output_same)

lemma PassInput_keeps:
  assumes "PassInput env P = Inr (d, P')"
  shows "keeps_output P P'"
proof (cases "input_bytes_left P \<noteq> 0")
  case True
  then show ?thesis using assms write_stdin_keeps by (auto simp: PassInput_def)
next
  case False
  obtain ok P1 where r: "read_input P = (ok, P1)" by force
  have "P' = P1 \<or> (\<exists>d. write_stdin P1 = (d, P')) \<or> (\<exists>P2 e. handle_input_packet env P1 = Inr (P2, e) \<and> (P' = P2 \<or> (\<exists>d. write_stdin P2 = (d, P'))))"
    using assms False r by (auto simp: PassInput_def split: bool.splits if_splits option.splits)
  moreover have "keeps_output P P1" by (rule read_input_keeps [OF r])
  ultimately show ?thesis by (blast dest: write_stdin_keeps handle_input_keeps intro: keeps_output_trans)
qed

text \<open>Stdin does not die of a write.\<close>

lemma adb_write_ok:
  assumes "adb_write f bs = (r, f')" and "bs \<noteq> []" and "\<forall>w \<in> set (wscript f). w \<noteq> WAccept 0 \<and> (\<forall>e. w = WErr e \<longrightarrow> e = EAGAIN)"
  shows "r = Err EAGAIN \<or> (\<exists>k. r = Ret k \<and> 0 < k)"
  using assms by (auto simp: adb_write_def Let_def split: list.splits wresp.splits)

lemma write_stdin_pending: "write_stdin P = (d, P') \<Longrightarrow> stdin_pending P \<Longrightarrow> stdin_pending P'"
  by (auto simp: write_stdin_def Let_def stdin_pending_def split: option.splits prod.splits io_ret.splits if_splits)

lemma sp_Read_data_len: "sp_Read p = (True, p') \<Longrightarrow> data_len p' \<le> length (sp_data p')"
  by (auto simp: sp_Read_def sp_read_data_def Let_def split: prod.splits bool.splits if_splits dest!: ReadFdExactly_len)

lemma PassInput_pending:
  assumes "PassInput env P = Inr (d, P')" and "d \<noteq> Some Protocol" and "stdin_pending P"
  shows "stdin_pending P'"
proof (cases "input_bytes_left P \<noteq> 0")
  case True
  then show ?thesis using assms write_stdin_pending by (auto simp: PassInput_def)
next
  case False
  with assms obtain P1 where r: "read_input P = (True, P1)"
    by (cases "read_input P") (auto simp: PassInput_def split: bool.splits)
  then have p1: "stdin_pending P1" "input_bytes_left P1 = 0"
    using False by (auto simp: read_input_def stdin_pending_def split: option.splits prod.splits dest!: sp_Read_data_len)
  have h: "handle_input_packet env P1 = Inr (P2, e) \<Longrightarrow> stdin_pending P2" for P2 e
    using p1 by (auto simp: handle_input_packet_def Let_def stdin_pending_def split: option.splits prod.splits if_splits)
  have "(\<exists>d. write_stdin P1 = (d, P')) \<or> (\<exists>P2 e. handle_input_packet env P1 = Inr (P2, e) \<and> (P' = P2 \<or> (\<exists>d. write_stdin P2 = (d, P'))))"
    using assms(1) False r by (auto simp: PassInput_def split: bool.splits if_splits option.splits)
  then show ?thesis using p1 h write_stdin_pending by blast
qed

lemma write_stdin_alive:
  assumes "write_stdin P = (d, P')" and "stdin_ok P" and "stdin_pending P"
  shows "d = None \<or> d = Some Stdinout \<and> stdinout_sfd P = None"
proof (cases "input_bytes_left P = 0 \<or> stdinout_sfd P = None")
  case True
  then show ?thesis using assms(1) by (auto simp: write_stdin_def Let_def split: if_splits)
next
  case False
  then obtain f where f: "stdinout_sfd P = Some f" by auto
  let ?d = "drop (data_len (sub_input P) - input_bytes_left P) (packet_data (sub_input P))"
  obtain r f' where w: "adb_write f ?d = (r, f')" by force
  have "?d \<noteq> []" using False assms(3) by (auto simp: stdin_pending_def packet_data_def)
  then have "r = Err EAGAIN \<or> (\<exists>k. r = Ret k \<and> 0 < k)"
    using adb_write_ok [OF w] assms(2) f by (auto simp: stdin_ok_def)
  then show ?thesis using assms(1) f w False by (auto simp: write_stdin_def Let_def)
qed

lemma PassInput_passed:
  assumes pi: "PassInput env P = Inr (d, P')" "d \<noteq> Some Protocol" and ok: "stdin_ok P" "stdin_pending P" "se_shutdown env"
  shows "passed P (closed d P') []"
proof -
  have "(\<exists>Q. write_stdin Q = (d, P') \<and> keeps_output P Q \<and> (stdin_pending P \<longrightarrow> stdin_pending Q)) \<or> d = None"
  proof (cases "input_bytes_left P \<noteq> 0")
    case True
    then show ?thesis using pi(1) by (auto simp: PassInput_def intro!: exI [of _ P] keeps_output_same)
  next
    case False
    with pi obtain P1 where r: "read_input P = (True, P1)"
      by (cases "read_input P") (auto simp: PassInput_def split: bool.splits)
    then have p1: "stdin_pending P1" "input_bytes_left P1 = 0"
      using False by (auto simp: read_input_def stdin_pending_def split: option.splits prod.splits dest!: sp_Read_data_len)
    note k = read_input_keeps [OF r]
    have h: "handle_input_packet env P1 = Inr (P2, e) \<Longrightarrow> stdin_pending P2 \<and> (e = None \<or> e = Some None)" for P2 e
      using p1 ok(3) by (auto simp: handle_input_packet_def Let_def stdin_pending_def split: option.splits prod.splits if_splits)
    have "write_stdin P1 = (d, P') \<or> (\<exists>P2. handle_input_packet env P1 = Inr (P2, None) \<and> write_stdin P2 = (d, P')) \<or> d = None"
      using pi(1) False r by (auto simp: PassInput_def split: bool.splits if_splits option.splits dest: h)
    then show ?thesis using p1 k h by (blast dest: handle_input_keeps intro: keeps_output_trans)
  qed
  moreover have kp: "passed P P' []" using keeps_output_passed [OF PassInput_keeps [OF pi(1)]] PassInput_pending [OF pi ok(2)] by blast
  moreover have cl: "same_streams P' (closed d P')" if "d = None \<or> d = Some Stdinout \<and> stdinout_sfd P' = None"
    using that by (auto simp: closed_def set_stream_def same_streams_def)
  ultimately show ?thesis
  proof (elim disjE exE conjE)
    fix Q
    assume w: "write_stdin Q = (d, P')" and Q: "keeps_output P Q" "stdin_pending P \<longrightarrow> stdin_pending Q"
    have "stdin_ok Q" using keeps_output_passed [OF Q] ok(1) by (simp add: passed_def)
    then have "d = None \<or> d = Some Stdinout \<and> stdinout_sfd Q = None" using write_stdin_alive [OF w] Q(2) ok(2) by blast
    then have "d = None \<or> d = Some Stdinout \<and> stdinout_sfd P' = None" using write_stdin_keeps [OF w] by (auto simp: keeps_output_def)
    then show ?thesis using cl passed_same [OF kp] by blast
  qed (use kp in \<open>simp add: closed_def\<close>)
qed

section \<open>The loop\<close>

definition caps :: "subprocess \<Rightarrow> bool" where
  "caps P \<longleftrightarrow> 0 < sp_capacity (sub_output P) \<and> sp_capacity (sub_output P) < 2 ^ 32 \<and> stdin_ok P \<and> stdin_pending P"

lemma passed_caps: "passed P Q ps \<Longrightarrow> caps P \<Longrightarrow> caps Q"
  by (simp add: passed_def caps_def)

text \<open>One handler of a turn after another.\<close>

lemma step_output:
  assumes "(if dead = None \<and> stream_fd x P \<noteq> None \<and> b then PassOutput x pid P else Inr (dead, P)) = Inr (d, P')"
    and "d \<noteq> Some Protocol" and "output_stream x pid" and "caps P0" and p: "passed P0 (closed dead P) ps"
  shows "\<exists>qs. passed P0 (closed d P') qs"
proof (cases "dead = None \<and> stream_fd x P \<noteq> None \<and> b")
  case True
  then obtain f where f: "stream_fd x P = Some f" and po: "PassOutput x pid P = Inr (d, P')" using assms(1) by auto
  have p: "passed P0 P ps" using p True by (simp add: closed_def)
  with assms(4) have "caps P" by (blast intro: passed_caps)
  then show ?thesis using PassOutput_passed [OF po assms(2,3) _ _ f] passed_trans [OF p] by (auto simp: caps_def)
qed (use assms in auto)

lemma step_input:
  assumes "(if dead = None \<and> c then bindR (PassInput env P) (\<lambda>(d, Q). Inr (d, g Q)) else Inr (dead, P)) = Inr (d, P')"
    and "d \<noteq> Some Protocol" and "caps P0" and p: "passed P0 (closed dead P) ps" and "se_shutdown env" and g: "\<And>Q. same_streams Q (g Q)"
  shows "\<exists>qs. passed P0 (closed d P') qs"
proof (cases "dead = None \<and> c")
  case True
  then obtain Q where Q: "PassInput env P = Inr (d, Q)" "P' = g Q" using assms(1) by auto
  have p: "passed P0 P ps" using p True by (simp add: closed_def)
  then have "caps P" using assms(3) by (rule passed_caps)
  then have "passed P (closed d Q) []" using PassInput_passed [OF Q(1) assms(2)] assms(5) by (simp add: caps_def)
  from passed_trans [OF p this] show ?thesis using passed_same [OF _ closed_same [OF g]] Q(2) by blast
qed (use assms in auto)

lemma select_turn_passed:
  assumes t: "select_turn env ready P = Inr (d, P')" "d \<noteq> Some Protocol" and c: "caps P" "se_shutdown env"
  shows "\<exists>ps. passed P (closed d P') ps"
proof -
  obtain p out err inp where r: "ready = (p, out, err, inp)" by (cases ready) auto
  let ?g1 = "\<lambda>Q. if input_bytes_left Q \<noteq> 0 then Q\<lparr>in_protocol := False, in_stdin := True\<rparr> else Q"
  let ?g2 = "\<lambda>Q. if input_bytes_left Q = 0 then Q\<lparr>in_protocol := True, in_stdin := False\<rparr> else Q"
  from t(1) obtain d1 P1 d2 P2 d3 P3 where
    1: "(if stdinout_sfd P \<noteq> None \<and> out then PassOutput Stdinout kIdStdout P else Inr (None, P)) = Inr (d1, P1)"
    and 2: "(if d1 = None \<and> stderr_sfd P1 \<noteq> None \<and> err then PassOutput Stderr kIdStderr P1 else Inr (d1, P1)) = Inr (d2, P2)"
    and 3: "(if d2 = None \<and> protocol_sfd P2 \<noteq> None \<and> p then bindR (PassInput env P2) (\<lambda>(d, Q). Inr (d, ?g1 Q)) else Inr (d2, P2)) = Inr (d3, P3)"
    and 4: "(if d3 = None \<and> stdinout_sfd P3 \<noteq> None \<and> inp then bindR (PassInput env P3) (\<lambda>(d, Q). Inr (d, ?g2 Q)) else Inr (d3, P3)) = Inr (d, P')"
    unfolding select_turn_def r by (auto simp del: not_None_eq)
  have nd: "d3 \<noteq> Some Protocol" "d2 \<noteq> Some Protocol" "d1 \<noteq> Some Protocol"
    using t(2) 4 3 2 by (auto split: if_splits)
  have g: "same_streams Q (?g1 Q)" "same_streams Q (?g2 Q)" for Q by (simp_all add: same_streams_def)
  obtain ps1 where p1: "passed P (closed d1 P1) ps1"
    using step_output [of None Stdinout P out kIdStdout d1 P1 P "[]"] 1 nd(3) c(1) by (auto simp: stream_fd_def output_stream_def closed_def)
  obtain ps2 where p2: "passed P (closed d2 P2) ps2"
    using step_output [OF _ nd(2) _ c(1) p1, of Stderr err kIdStderr P2] 2 by (auto simp: stream_fd_def output_stream_def)
  obtain ps3 where p3: "passed P (closed d3 P3) ps3"
    using step_input [OF 3 nd(1) c(1) p2 c(2) g(1)] by blast
  show ?thesis by (rule step_input [OF 4 t(2) c(1) p3 c(2) g(2)])
qed

text \<open>select fails only because of a signal.\<close>

definition only_signals :: "select_result list \<Rightarrow> bool" where
  "only_signals rs \<longleftrightarrow> (\<forall>e. SelectErr e \<in> set rs \<longrightarrow> e = EOTHER 4)"

lemma SelectLoop_passed:
  "SelectLoop env rs P = Inr (e, P', rs') \<Longrightarrow> e \<noteq> Dead Protocol \<Longrightarrow> caps P \<Longrightarrow> se_shutdown env \<Longrightarrow> only_signals rs \<Longrightarrow>
   e \<noteq> SelectFailed \<and> set rs' \<subseteq> set rs \<and> (\<exists>ps. passed P (closed (case e of Dead x \<Rightarrow> Some x | _ \<Rightarrow> None) P') ps)"
proof (induction env rs P rule: SelectLoop.induct)
  case (3 env p out err inp rs P)
  from "3.prems"(1) obtain d P1 where t: "select_turn env (p \<and> in_protocol P, out \<and> in_stdout P, err \<and> in_stderr P, inp \<and> in_stdin P) P = Inr (d, P1)"
    and r: "(case d of Some x \<Rightarrow> Inr (Dead x, P1, rs) | None \<Rightarrow> SelectLoop env rs P1) = Inr (e, P', rs')" by auto
  have "d \<noteq> Some Protocol" using r "3.prems"(2) by auto
  from select_turn_passed [OF t this "3.prems"(3,4)] obtain ps where ps: "passed P (closed d P1) ps" ..
  show ?case
  proof (cases d)
    case None
    then have p1: "passed P P1 ps" using ps by (simp add: closed_def)
    have "only_signals rs" using "3.prems"(5) by (auto simp: only_signals_def)
    with "3.IH" [OF t refl None] r None "3.prems"(2,4) passed_caps [OF p1 "3.prems"(3)] p1
    show ?thesis by (auto intro: passed_trans)
  next
    case (Some x)
    then show ?thesis using r ps by auto
  qed
qed (auto simp: closed_def only_signals_def split: if_splits intro: passed_refl)

lemma close_dead_same: "x \<noteq> Protocol \<Longrightarrow> same_streams (closed (Some x) P) (close_dead x P)"
  by (cases x) (simp_all add: close_dead_def closed_def clear_sets_def set_stream_def same_streams_def)

lemma pass_loop_passed:
  "pass_loop env rs P = Inr (b, P') \<Longrightarrow> protocol_sfd P' \<noteq> None \<Longrightarrow> caps P \<Longrightarrow> se_shutdown env \<Longrightarrow> only_signals rs \<Longrightarrow>
   (\<exists>ps. passed P P' ps) \<and> (b \<longrightarrow> stdinout_sfd P' = None \<and> stderr_sfd P' = None)"
proof (induction env rs P rule: pass_loop.induct)
  case (1 env rs P)
  show ?case
  proof (cases "protocol_sfd P = None \<or> (stdinout_sfd P = None \<and> stderr_sfd P = None)")
    case True
    then show ?thesis using "1.prems"(1,2) by (subst (asm) pass_loop.simps) (auto intro: passed_refl)
  next
    case False
    then obtain e P1 rs1 where s: "SelectLoop env rs P = Inr (e, P1, rs1)"
      and r: "(case e of StillWaiting \<Rightarrow> Inr (False, P1) | SelectFailed \<Rightarrow> pass_loop env rs1 P1 | Dead x \<Rightarrow> pass_loop env rs1 (close_dead x P1)) = Inr (b, P')"
      using "1.prems"(1) by (subst (asm) pass_loop.simps) auto
    have e: "e \<noteq> Dead Protocol"
    proof
      assume "e = Dead Protocol"
      then have "pass_loop env rs1 (close_dead Protocol P1) = Inr (b, P')" using r by simp
      then have "P' = close_dead Protocol P1" by (subst (asm) pass_loop.simps) (simp add: close_dead_def)
      then show False using "1.prems"(2) by (simp add: close_dead_def)
    qed
    from SelectLoop_passed [OF s e "1.prems"(3-5)] obtain ps where ps: "e \<noteq> SelectFailed" "set rs1 \<subseteq> set rs"
      "passed P (closed (case e of Dead x \<Rightarrow> Some x | _ \<Rightarrow> None) P1) ps" by blast
    show ?thesis
    proof (cases e)
      case (Dead x)
      then have p1: "passed P (close_dead x P1) ps" using ps(3) passed_same [OF _ close_dead_same] e by auto
      have "only_signals rs1" using ps(2) "1.prems"(5) by (auto simp: only_signals_def)
      with "1.IH"(1) [OF False s refl refl Dead] r Dead "1.prems"(2,4) passed_caps [OF p1 "1.prems"(3)] p1
      show ?thesis by (auto intro: passed_trans)
    qed (use ps r in \<open>auto simp: closed_def\<close>)
  qed
qed

section \<open>The loop ends\<close>

definition ends :: "fd_state \<Rightarrow> bool" where
  "ends f \<longleftrightarrow> (\<exists>r \<in> set (rscript f). r = RData [] \<or> (\<exists>e. r = RErr e \<and> e \<noteq> EAGAIN))"

lemma ends_Cons: "rscript f = a # rs \<Longrightarrow> ends f \<longleftrightarrow> a = RData [] \<or> (\<exists>e. a = RErr e \<and> e \<noteq> EAGAIN) \<or> (\<exists>r \<in> set rs. r = RData [] \<or> (\<exists>e. r = RErr e \<and> e \<noteq> EAGAIN))"
  by (simp add: ends_def)

lemma adb_read_ends:
  assumes "adb_read f n = (r, bs, f')" and "0 < n" and "ends f"
  shows "rsize f' < rsize f \<and> (r = Err EAGAIN \<or> (\<exists>k. r = Ret k \<and> 0 < k) \<longrightarrow> ends f')"
proof -
  from assms(3) obtain a rs where f: "rscript f = a # rs" by (cases "rscript f") (auto simp: ends_def)
  have "r = Err EAGAIN \<or> (\<exists>k. r = Ret k \<and> 0 < k) \<longrightarrow> ends f'"
  proof (cases a)
    case (RData d)
    then have "(\<exists>c. rscript f' = c # rs) \<or> rscript f' = rs" "r = Ret 0 \<or> a \<noteq> RData []"
      using assms(1,2) f by (auto simp: adb_read_def split: if_splits)
    moreover have "a \<noteq> RData [] \<Longrightarrow> \<exists>r \<in> set rs. r = RData [] \<or> (\<exists>e. r = RErr e \<and> e \<noteq> EAGAIN)"
      using assms(3) unfolding ends_Cons [OF f] RData by simp
    ultimately have "r = Ret 0 \<or> ends f'" unfolding ends_def by (metis list.set_intros(2))
    then show ?thesis using RData assms(1) f by (auto simp: adb_read_def split: if_splits)
  next
    case (RErr e)
    then have "rscript f' = rs" "r = Err e" using assms(1) f by (auto simp: adb_read_def)
    moreover have "e = EAGAIN \<Longrightarrow> \<exists>r \<in> set rs. r = RData [] \<or> (\<exists>e. r = RErr e \<and> e \<noteq> EAGAIN)" using assms(3) unfolding ends_Cons [OF f] RErr by simp
    ultimately show ?thesis unfolding ends_def by simp
  qed
  then show ?thesis using adb_read_rsize [OF assms(1)] assms(2) f by auto
qed

definition to_read :: "fd_state option \<Rightarrow> nat" where
  "to_read f = (case f of None \<Rightarrow> 0 | Some f \<Rightarrow> Suc (rsize f))"

definition work :: "subprocess \<Rightarrow> nat" where
  "work P = to_read (stdinout_sfd P) + to_read (stderr_sfd P)"

definition live :: "subprocess \<Rightarrow> bool" where
  "live P \<longleftrightarrow> 0 < sp_capacity (sub_output P) \<and> (\<forall>f. stdinout_sfd P = Some f \<longrightarrow> in_stdout P \<and> ends f) \<and>
    (\<forall>f. stderr_sfd P = Some f \<longrightarrow> in_stderr P \<and> ends f)"

lemma write_output_keeps: "write_output pid bs P = Inr (ok, P') \<Longrightarrow>
  stdinout_sfd P' = stdinout_sfd P \<and> stderr_sfd P' = stderr_sfd P \<and> in_stdout P' = in_stdout P \<and> in_stderr P' = in_stderr P \<and>
  sp_capacity (sub_output P') = sp_capacity (sub_output P)"
  by (auto simp: write_output_def sp_Write_def Let_def split: option.splits if_splits)

lemma set_stream_flags [simp]: "in_stdout (set_stream x f P) = in_stdout P" "in_stderr (set_stream x f P) = in_stderr P"
  by (simp_all add: set_stream_def split: sfd.splits)

lemma PassOutput_live:
  assumes po: "PassOutput x pid P = Inr (d, P')" "d \<noteq> Some Protocol" and x: "x \<noteq> Protocol" "stream_fd x P = Some f" and l: "live P"
  shows "work (closed d P') < work P \<and> live (closed d P')"
proof -
  have cap: "0 < sp_capacity (sub_output P)" and e: "ends f" using l x by (cases x; auto simp: live_def stream_fd_def)+
  obtain r bs f1 where r: "adb_read f (sp_capacity (sub_output P)) = (r, bs, f1)" by (cases "adb_read f (sp_capacity (sub_output P))") auto
  note rd = adb_read_ends [OF r cap e]
  let ?P1 = "set_stream x (Some f1) P"
  have alive: "work ?P1 < work P \<and> live ?P1" if "r = Err EAGAIN \<or> (\<exists>k. r = Ret k \<and> 0 < k)"
    using that rd x l by (cases x) (auto simp: work_def to_read_def live_def stream_fd_def)
  have dead: "work (set_stream x None Q) < work P \<and> live (set_stream x None Q)" if "Q = ?P1" for Q
    using that x l by (cases x) (auto simp: work_def to_read_def live_def stream_fd_def)
  have "(d = None \<and> (r = Err EAGAIN \<or> (\<exists>k. r = Ret k \<and> 0 < k)) \<and> (P' = ?P1 \<or> (\<exists>ok. write_output pid bs ?P1 = Inr (ok, P')))) \<or> (d = Some x \<and> P' = ?P1)"
    using po r x by (auto simp: PassOutput_def Let_def split: io_ret.splits if_splits)
  then consider (same) "d = None" "work ?P1 < work P \<and> live ?P1" "P' = ?P1"
    | (written) ok where "d = None" "work ?P1 < work P \<and> live ?P1" "write_output pid bs ?P1 = Inr (ok, P')"
    | (dead) "d = Some x" "P' = ?P1" using alive by blast
  then show ?thesis
  proof cases
    case written
    then show ?thesis using write_output_keeps [OF written(3)] by (simp add: closed_def work_def live_def)
  qed (use dead in \<open>simp_all add: closed_def\<close>)
qed

text \<open>Input does not add work.\<close>

lemma PassInput_live:
  assumes "PassInput env P = Inr (d, P')" and "live P" and "d \<noteq> Some Protocol"
  shows "work (closed d P') \<le> work P \<and> live (closed d P')"
proof -
  have "work P' = work P \<and> live P'"
    using PassInput_keeps [OF assms(1)] assms(2)
    by (cases "stdinout_sfd P") (auto simp: keeps_output_def work_def to_read_def live_def ends_def rsize_def)
  then show ?thesis
    using assms(3) by (cases d) (auto simp: closed_def set_stream_def work_def to_read_def live_def split: sfd.splits)
qed

lemma live_same: "same_streams P Q \<Longrightarrow> in_stdout Q = in_stdout P \<Longrightarrow> in_stderr Q = in_stderr P \<Longrightarrow> work Q = work P \<and> live Q = live P"
  by (simp add: same_streams_def work_def live_def)

lemma live_input:
  assumes "(if dead = None \<and> c then bindR (PassInput env P) (\<lambda>(d, Q). Inr (d, g Q)) else Inr (dead, P)) = Inr (d, P')"
    and "d \<noteq> Some Protocol" and "work (closed dead P) < n \<and> live (closed dead P)"
    and g: "\<And>Q. same_streams Q (g Q) \<and> in_stdout (g Q) = in_stdout Q \<and> in_stderr (g Q) = in_stderr Q"
  shows "work (closed d P') < n \<and> live (closed d P')"
proof (cases "dead = None \<and> c")
  case True
  then obtain Q where Q: "PassInput env P = Inr (d, Q)" "P' = g Q" using assms(1) by auto
  have fl: "in_stdout (closed d Q) = in_stdout Q" "in_stderr (closed d Q) = in_stderr Q" for Q
    by (auto simp: closed_def split: option.splits)
  have l: "live P" "work P < n" using assms(3) True by (simp_all add: closed_def)
  from PassInput_live [OF Q(1) l(1) assms(2)] l(2) have "work (closed d Q) < n" "live (closed d Q)" by auto
  then show ?thesis using live_same [OF closed_same, of Q "g Q" d] g [of Q] Q(2) fl by metis
qed (use assms in auto)

lemma select_turn_live:
  assumes t: "select_turn env (p, in_stdout P, in_stderr P, i) P = Inr (d, P')" "d \<noteq> Some Protocol"
    and l: "live P" and some: "stdinout_sfd P \<noteq> None \<or> stderr_sfd P \<noteq> None"
  shows "work (closed d P') < work P \<and> live (closed d P')"
proof -
  let ?g1 = "\<lambda>Q. if input_bytes_left Q \<noteq> 0 then Q\<lparr>in_protocol := False, in_stdin := True\<rparr> else Q"
  let ?g2 = "\<lambda>Q. if input_bytes_left Q = 0 then Q\<lparr>in_protocol := True, in_stdin := False\<rparr> else Q"
  from t(1) obtain d1 P1 d2 P2 d3 P3 where
    1: "(if stdinout_sfd P \<noteq> None \<and> in_stdout P then PassOutput Stdinout kIdStdout P else Inr (None, P)) = Inr (d1, P1)"
    and 2: "(if d1 = None \<and> stderr_sfd P1 \<noteq> None \<and> in_stderr P then PassOutput Stderr kIdStderr P1 else Inr (d1, P1)) = Inr (d2, P2)"
    and 3: "(if d2 = None \<and> protocol_sfd P2 \<noteq> None \<and> p then bindR (PassInput env P2) (\<lambda>(d, Q). Inr (d, ?g1 Q)) else Inr (d2, P2)) = Inr (d3, P3)"
    and 4: "(if d3 = None \<and> stdinout_sfd P3 \<noteq> None \<and> i then bindR (PassInput env P3) (\<lambda>(d, Q). Inr (d, ?g2 Q)) else Inr (d3, P3)) = Inr (d, P')"
    unfolding select_turn_def by (auto simp del: not_None_eq)
  have nd: "d3 \<noteq> Some Protocol" "d2 \<noteq> Some Protocol" "d1 \<noteq> Some Protocol"
    using t(2) 4 3 2 by (auto split: if_splits)
  have g: "same_streams Q (?g1 Q) \<and> in_stdout (?g1 Q) = in_stdout Q \<and> in_stderr (?g1 Q) = in_stderr Q"
    "same_streams Q (?g2 Q) \<and> in_stdout (?g2 Q) = in_stdout Q \<and> in_stderr (?g2 Q) = in_stderr Q" for Q by (simp_all add: same_streams_def)
  have 5: "work (closed d2 P2) < work P \<and> live (closed d2 P2)"
  proof (cases "stdinout_sfd P")
    case None
    then have 6: "d1 = None" "P1 = P" using 1 by auto
    from some None obtain f where f: "stderr_sfd P = Some f" by auto
    then have "in_stderr P" using l by (simp add: live_def)
    then show ?thesis using 2 6 f PassOutput_live [OF _ nd(2) _ _ l, of Stderr kIdStderr P2 f] by (simp add: stream_fd_def)
  next
    case (Some f)
    then have "in_stdout P" using l by (simp add: live_def)
    then have po: "PassOutput Stdinout kIdStdout P = Inr (d1, P1)" using 1 Some by simp
    note 7 = PassOutput_live [OF po nd(3) _ _ l, of f]
    show ?thesis
    proof (cases "d1 = None \<and> stderr_sfd P1 \<noteq> None \<and> in_stderr P")
      case True
      then obtain h where h: "stderr_sfd P1 = Some h" by auto
      have "work P1 < work P" "live P1" using 7 Some True by (simp_all add: stream_fd_def closed_def)
      then show ?thesis using 2 True h PassOutput_live [OF _ nd(2) _ _ \<open>live P1\<close>, of Stderr kIdStderr P2 h] by (simp add: stream_fd_def)
    qed (use 2 7 Some in \<open>auto simp: stream_fd_def\<close>)
  qed
  have 8: "work (closed d3 P3) < work P \<and> live (closed d3 P3)" by (rule live_input [OF 3 nd(1) 5 g(1)])
  show ?thesis by (rule live_input [OF 4 t(2) 8 g(2)])
qed

text \<open>A turn closes nothing.\<close>

definition same_open :: "subprocess \<Rightarrow> subprocess \<Rightarrow> bool" where
  "same_open P Q \<longleftrightarrow> (stdinout_sfd Q = None \<longleftrightarrow> stdinout_sfd P = None) \<and> (stderr_sfd Q = None \<longleftrightarrow> stderr_sfd P = None)"

lemma PassOutput_open: "PassOutput x pid P = Inr (d, P') \<Longrightarrow> x \<noteq> Protocol \<Longrightarrow> same_open P P'"
  by (cases x) (auto simp: PassOutput_def stream_fd_def same_open_def Let_def split: option.splits prod.splits io_ret.splits if_splits dest!: write_output_keeps)

lemma PassInput_open: "PassInput env P = Inr (d, P') \<Longrightarrow> same_open P P'"
  by (auto simp: same_open_def keeps_output_def split: option.splits dest!: PassInput_keeps)

lemma select_turn_open:
  assumes "select_turn env ready P = Inr (d, P')"
  shows "same_open P P'"
proof -
  have tr: "same_open P Q \<Longrightarrow> same_open Q R \<Longrightarrow> same_open P R" for P Q R by (auto simp: same_open_def)
  have g: "same_open P Q \<Longrightarrow> same_open P (Q\<lparr>in_protocol := a, in_stdin := b\<rparr>)" for P Q a b by (simp add: same_open_def)
  have r: "same_open P P" for P by (simp add: same_open_def)
  obtain p out err inp where rd: "ready = (p, out, err, inp)" by (cases ready) auto
  from assms obtain d1 P1 d2 P2 d3 P3 where
    1: "(if stdinout_sfd P \<noteq> None \<and> out then PassOutput Stdinout kIdStdout P else Inr (None, P)) = Inr (d1, P1)"
    and 2: "(if d1 = None \<and> stderr_sfd P1 \<noteq> None \<and> err then PassOutput Stderr kIdStderr P1 else Inr (d1, P1)) = Inr (d2, P2)"
    and 3: "(if d2 = None \<and> protocol_sfd P2 \<noteq> None \<and> p then bindR (PassInput env P2) (\<lambda>(d, Q).
        Inr (d, if input_bytes_left Q \<noteq> 0 then Q\<lparr>in_protocol := False, in_stdin := True\<rparr> else Q)) else Inr (d2, P2)) = Inr (d3, P3)"
    and 4: "(if d3 = None \<and> stdinout_sfd P3 \<noteq> None \<and> inp then bindR (PassInput env P3) (\<lambda>(d, Q).
        Inr (d, if input_bytes_left Q = 0 then Q\<lparr>in_protocol := True, in_stdin := False\<rparr> else Q)) else Inr (d3, P3)) = Inr (d, P')"
    unfolding select_turn_def rd by (auto simp del: not_None_eq)
  have "same_open P P1" using 1 by (auto split: if_splits intro: r PassOutput_open)
  moreover have "same_open P1 P2" using 2 by (auto split: if_splits intro: r PassOutput_open)
  moreover have "same_open P2 P3" using 3 by (auto split: if_splits intro!: r g elim: PassInput_open)
  moreover have "same_open P3 P'" using 4 by (auto split: if_splits intro!: r g elim: PassInput_open)
  ultimately show ?thesis by (blast intro: tr)
qed

text \<open>select reports the output streams every time.\<close>

definition busy :: "select_result list \<Rightarrow> bool" where
  "busy rs \<longleftrightarrow> (\<forall>r \<in> set rs. \<exists>p i. r = Ready p True True i)"

lemma SelectLoop_live:
  "SelectLoop env rs P = Inr (e, P', rs') \<Longrightarrow> e \<noteq> Dead Protocol \<Longrightarrow> busy rs \<Longrightarrow> live P \<Longrightarrow> stdinout_sfd P \<noteq> None \<or> stderr_sfd P \<noteq> None \<Longrightarrow>
   work P \<le> length rs \<Longrightarrow> busy rs' \<and> (\<exists>x. e = Dead x \<and> work (closed (Some x) P') \<le> length rs' \<and> live (closed (Some x) P'))"
proof (induction env rs P rule: SelectLoop.induct)
  case (1 env P)
  then show ?case by (auto simp: work_def to_read_def)
next
  case (2 env e rs P)
  then show ?case by (auto simp: busy_def)
next
  case (3 env p out err inp rs P)
  have b: "busy rs" "out" "err" using "3.prems"(3) by (auto simp: busy_def)
  from "3.prems"(1) b obtain d P1 where t: "select_turn env (p \<and> in_protocol P, in_stdout P, in_stderr P, inp \<and> in_stdin P) P = Inr (d, P1)"
    and r: "(case d of Some x \<Rightarrow> Inr (Dead x, P1, rs) | None \<Rightarrow> SelectLoop env rs P1) = Inr (e, P', rs')" by auto
  have "d \<noteq> Some Protocol" using r "3.prems"(2) by auto
  note l = select_turn_live [OF t this "3.prems"(4,5)]
  show ?case
  proof (cases d)
    case None
    then have "work P1 \<le> length rs" "live P1" using l "3.prems"(6) by (auto simp: closed_def)
    moreover have "stdinout_sfd P1 \<noteq> None \<or> stderr_sfd P1 \<noteq> None"
      using select_turn_open [OF t] "3.prems"(5) by (auto simp: same_open_def)
    ultimately show ?thesis using "3.IH" [OF _ refl None] t b r None "3.prems"(2) by simp
  next
    case (Some x)
    then have "e = Dead x" "P' = P1" "rs' = rs" using r by auto
    then show ?thesis using l Some b "3.prems"(6) by auto
  qed
qed

lemma pass_loop_live:
  "pass_loop env rs P = Inr (b, P') \<Longrightarrow> busy rs \<Longrightarrow> live P \<Longrightarrow> work P \<le> length rs \<Longrightarrow> b"
proof (induction env rs P rule: pass_loop.induct)
  case (1 env rs P)
  show ?case
  proof (cases "protocol_sfd P = None \<or> (stdinout_sfd P = None \<and> stderr_sfd P = None)")
    case True
    then show ?thesis using "1.prems"(1) by (subst (asm) pass_loop.simps) auto
  next
    case False
    then obtain e P1 rs1 where s: "SelectLoop env rs P = Inr (e, P1, rs1)"
      and r: "(case e of StillWaiting \<Rightarrow> Inr (False, P1) | SelectFailed \<Rightarrow> pass_loop env rs1 P1 | Dead x \<Rightarrow> pass_loop env rs1 (close_dead x P1)) = Inr (b, P')"
      using "1.prems"(1) by (subst (asm) pass_loop.simps) auto
    show ?thesis
    proof (cases "e = Dead Protocol")
      case True
      then have "pass_loop env rs1 (close_dead Protocol P1) = Inr (b, P')" using r by simp
      then show ?thesis by (subst (asm) pass_loop.simps) (simp add: close_dead_def)
    next
      case e: False
      from SelectLoop_live [OF s e "1.prems"(2,3) _ "1.prems"(4)] False obtain x where
        x: "busy rs1" "e = Dead x" "work (closed (Some x) P1) \<le> length rs1" "live (closed (Some x) P1)" by auto
      have "x \<noteq> Protocol" using e x(2) by simp
      then have "work (close_dead x P1) = work (closed (Some x) P1)" "live (closed (Some x) P1) \<longrightarrow> live (close_dead x P1)"
        by (cases x; simp add: close_dead_def closed_def clear_sets_def set_stream_def work_def live_def)+
      then show ?thesis using "1.IH"(1) [OF False s refl refl x(2)] r x by simp
    qed
  qed
qed

section \<open>A client that only listens\<close>

text \<open>The connection takes all the output there can be: a packet is at most six times its data.\<close>

definition takes :: "subprocess \<Rightarrow> bool" where
  "takes P \<longleftrightarrow> (\<exists>h. protocol_sfd P = Some h \<and> willing h (6 * work P))"

definition silent :: "select_result list \<Rightarrow> bool" where
  "silent rs \<longleftrightarrow> (\<forall>r \<in> set rs. r = Ready False True True False)"

lemma silent_busy: "silent rs \<Longrightarrow> busy rs"
  by (auto simp: silent_def busy_def)

lemma willing_mono: "willing f n \<Longrightarrow> m \<le> n \<Longrightarrow> willing f m"
  unfolding willing_def by fastforce

lemma adb_read_data_rsize: "adb_read f n = (Ret k, bs, f') \<Longrightarrow> rsize f' + k \<le> rsize f \<and> k = length bs"
  by (auto simp: adb_read_def rsize_def split: list.splits rresp.splits if_splits)

lemma write_output_willing:
  assumes "protocol_sfd P = Some h" and "willing h n" and "5 + length bs \<le> n"
  shows "\<exists>P' h'. write_output pid bs P = Inr (True, P') \<and> protocol_sfd P' = Some h' \<and> willing h' (n - (5 + length bs))"
proof -
  let ?b = "(char_of pid # le32 (length bs mod 2 ^ 32)) @ bs"
  have len: "length ?b = 5 + length bs" by simp
  then obtain h' where "WriteFdExactly h ?b = Inr (True, ENONE, h')" "willing h' (n - (5 + length bs))"
    using WriteFdExactly_willing [OF assms(2), of ?b] assms(3) by metis
  then show ?thesis using assms(1) by (simp add: write_output_def sp_Write_def Let_def)
qed

lemma PassOutput_total:
  assumes l: "live P" and t: "takes P" and x: "x \<noteq> Protocol" "stream_fd x P = Some f"
  shows "\<exists>d P'. PassOutput x pid P = Inr (d, P') \<and> d \<noteq> Some Protocol \<and> takes (closed d P')"
proof -
  obtain h where h: "protocol_sfd P = Some h" "willing h (6 * work P)" using t by (auto simp: takes_def)
  obtain r bs f1 where r: "adb_read f (sp_capacity (sub_output P)) = (r, bs, f1)" by (cases "adb_read f (sp_capacity (sub_output P))") auto
  let ?P1 = "set_stream x (Some f1) P"
  have proto: "protocol_sfd ?P1 = Some h" "protocol_sfd (set_stream x None ?P1) = Some h" using h x by (cases x; simp)+
  show ?thesis
  proof (cases "\<exists>k. r = Ret k \<and> 0 < k")
    case True
    then obtain k where k: "r = Ret k" "0 < k" by blast
    have rs: "rsize f1 + k \<le> rsize f" "k = length bs" using adb_read_data_rsize r k by auto
    have w: "work ?P1 + k \<le> work P" using rs x by (cases x) (auto simp: work_def to_read_def stream_fd_def)
    have n: "5 + length bs \<le> 6 * work P" using w rs(2) k(2) by linarith
    obtain P2 h' where P2: "write_output pid bs ?P1 = Inr (True, P2)" "protocol_sfd P2 = Some h'" "willing h' (6 * work P - (5 + length bs))"
      using write_output_willing [OF proto(1) h(2) n] by blast
    have "work P2 = work ?P1" using write_output_keeps [OF P2(1)] by (simp add: work_def)
    then have "6 * work P2 \<le> 6 * work P - (5 + length bs)" using w rs(2) k(2) by linarith
    then have "takes P2" using P2(2) willing_mono [OF P2(3)] by (auto simp: takes_def)
    then show ?thesis using P2 r k x by (auto simp: PassOutput_def Let_def closed_def)
  next
    case False
    then have "\<exists>d. PassOutput x pid P = Inr (d, ?P1) \<and> (d = None \<or> d = Some x)"
      using r x by (cases r) (auto simp: PassOutput_def Let_def)
    then obtain d where d: "PassOutput x pid P = Inr (d, ?P1)" "d = None \<or> d = Some x" by blast
    then have nd: "d \<noteq> Some Protocol" using x by auto
    have "work (closed d ?P1) \<le> work P" using PassOutput_live [OF d(1) nd x l] by simp
    moreover have "protocol_sfd (closed d ?P1) = Some h" using d(2) proto by (auto simp: closed_def)
    ultimately show ?thesis using d nd willing_mono [OF h(2)] by (auto simp: takes_def)
  qed
qed

lemma select_turn_total:
  assumes l: "live P" and t: "takes P"
  shows "\<exists>d P'. select_turn env (False, in_stdout P, in_stderr P, False) P = Inr (d, P') \<and> d \<noteq> Some Protocol \<and> takes (closed d P')"
proof -
  have "\<exists>d1 P1. (if stdinout_sfd P \<noteq> None \<and> in_stdout P then PassOutput Stdinout kIdStdout P else Inr (None, P)) = Inr (d1, P1) \<and>
      d1 \<noteq> Some Protocol \<and> takes (closed d1 P1) \<and> live (closed d1 P1)"
  proof (cases "stdinout_sfd P \<noteq> None \<and> in_stdout P")
    case True
    then obtain f where f: "stream_fd Stdinout P = Some f" by (auto simp: stream_fd_def)
    from PassOutput_total [OF l t _ f] obtain d1 P1 where 1: "PassOutput Stdinout kIdStdout P = Inr (d1, P1)" "d1 \<noteq> Some Protocol" "takes (closed d1 P1)" by blast
    then show ?thesis using True PassOutput_live [OF 1(1,2) _ f l] by auto
  qed (use l t in \<open>auto simp: closed_def\<close>)
  then obtain d1 P1 where 1: "(if stdinout_sfd P \<noteq> None \<and> in_stdout P then PassOutput Stdinout kIdStdout P else Inr (None, P)) = Inr (d1, P1)"
    "d1 \<noteq> Some Protocol" "takes (closed d1 P1)" "live (closed d1 P1)" by blast
  have "\<exists>d2 P2. (if d1 = None \<and> stderr_sfd P1 \<noteq> None \<and> in_stderr P then PassOutput Stderr kIdStderr P1 else Inr (d1, P1)) = Inr (d2, P2) \<and>
      d2 \<noteq> Some Protocol \<and> takes (closed d2 P2)"
  proof (cases "d1 = None \<and> stderr_sfd P1 \<noteq> None \<and> in_stderr P")
    case True
    then obtain f where f: "stream_fd Stderr P1 = Some f" by (auto simp: stream_fd_def)
    have "live P1" "takes P1" using 1(3,4) True by (simp_all add: closed_def)
    from PassOutput_total [OF this _ f] show ?thesis using True by auto
  qed (use 1 in auto)
  then obtain d2 P2 where 2: "(if d1 = None \<and> stderr_sfd P1 \<noteq> None \<and> in_stderr P then PassOutput Stderr kIdStderr P1 else Inr (d1, P1)) = Inr (d2, P2)"
    "d2 \<noteq> Some Protocol" "takes (closed d2 P2)" by blast
  show ?thesis using 2(2,3) unfolding select_turn_def prod.case 1(1) bindR_simps 2(1) by simp
qed

lemma SelectLoop_total:
  "silent rs \<Longrightarrow> live P \<Longrightarrow> takes P \<Longrightarrow> \<exists>e P' rs'. SelectLoop env rs P = Inr (e, P', rs') \<and> e \<noteq> Dead Protocol \<and> silent rs' \<and>
   takes (closed (case e of Dead x \<Rightarrow> Some x | _ \<Rightarrow> None) P')"
proof (induction env rs P rule: SelectLoop.induct)
  case (3 env p out err inp rs P)
  then have r: "\<not> p" "out" "err" "\<not> inp" "silent rs" by (auto simp: silent_def)
  from select_turn_total [OF "3.prems"(2,3)] obtain d P1 where
    t: "select_turn env (False, in_stdout P, in_stderr P, False) P = Inr (d, P1)" "d \<noteq> Some Protocol" "takes (closed d P1)" by blast
  have t': "select_turn env (p \<and> in_protocol P, out \<and> in_stdout P, err \<and> in_stderr P, inp \<and> in_stdin P) P = Inr (d, P1)" using t(1) r by simp
  show ?case
  proof (cases d)
    case None
    have "live P1"
    proof (cases "stdinout_sfd P = None \<and> stderr_sfd P = None")
      case True
      then show ?thesis using "3.prems"(2) t(1) by (auto simp: select_turn_def)
    next
      case False
      then show ?thesis using select_turn_live [OF t(1,2) "3.prems"(2)] None by (auto simp: closed_def)
    qed
    moreover have "takes P1" using t(3) None by (simp add: closed_def)
    ultimately show ?thesis using "3.IH" [OF t' refl None r(5)] t' None by simp
  qed (use t' t r in \<open>auto simp: silent_def\<close>)
qed (auto simp: silent_def closed_def)

lemma pass_loop_total:
  "silent rs \<Longrightarrow> live P \<Longrightarrow> takes P \<Longrightarrow> work P \<le> length rs \<Longrightarrow> \<exists>P'. pass_loop env rs P = Inr (True, P') \<and> protocol_sfd P' \<noteq> None"
proof (induction env rs P rule: pass_loop.induct)
  case (1 env rs P)
  show ?case
  proof (cases "protocol_sfd P = None \<or> (stdinout_sfd P = None \<and> stderr_sfd P = None)")
    case True
    then show ?thesis using "1.prems"(3) by (subst pass_loop.simps) (auto simp: takes_def)
  next
    case False
    from SelectLoop_total [OF "1.prems"(1-3)] obtain e P1 rs1 where s: "SelectLoop env rs P = Inr (e, P1, rs1)" "e \<noteq> Dead Protocol" "silent rs1"
      "takes (closed (case e of Dead x \<Rightarrow> Some x | _ \<Rightarrow> None) P1)" by blast
    from SelectLoop_live [OF s(1,2) silent_busy [OF "1.prems"(1)] "1.prems"(2) _ "1.prems"(4)] False obtain x where
      x: "e = Dead x" "work (closed (Some x) P1) \<le> length rs1" "live (closed (Some x) P1)" by auto
    have nx: "x \<noteq> Protocol" using s(2) x(1) by simp
    have same: "work (close_dead x P1) = work (closed (Some x) P1)" "live (closed (Some x) P1) \<longrightarrow> live (close_dead x P1)"
      "protocol_sfd (close_dead x P1) = protocol_sfd (closed (Some x) P1)"
      using nx by (cases x; simp add: close_dead_def closed_def clear_sets_def set_stream_def work_def live_def)+
    then have "takes (close_dead x P1)" using s(4) x(1) by (simp add: takes_def)
    then show ?thesis using "1.IH"(1) [OF False s(1) refl refl x(1) s(3)] same x s(1) False by (subst pass_loop.simps) simp
  qed
qed

section \<open>From the command to the terminal\<close>

lemma ForkAndExec_shell:
  assumes "ForkAndExec env type kShell = Inr P" and "fk_protocol env = Inr h"
  shows "protocol_sfd P = Some h \<and> sp_capacity (sub_output P) = MAX_PAYLOAD - kHeaderSize \<and> stdin_pending P"
  using assms
  by (auto simp: ForkAndExec_def new_subprocess_def stdin_pending_def shell_protocol_new_def Let_def
      split: option.splits sum.splits if_splits)

lemma cap_bounds: "0 < MAX_PAYLOAD - kHeaderSize" "MAX_PAYLOAD - kHeaderSize < 2 ^ 32"
  by (simp_all add: MAX_PAYLOAD_eval kHeaderSize_def)

text \<open>
  C12: adb shell shows what the command prints. A command is started with the shell protocol and
  its streams are passed on until they end, with any input for it, any signals and any splitting
  of reads and writes, while the client stays connected and the command's stdin takes what it is
  given; then the exit packet is sent. A client that reads the bytes sent prints exactly what the
  command wrote to stdout on its stdout, and what it wrote to stderr on its stderr, and returns
  the command's exit code as a char.
\<close>

theorem shell_end_to_end:
  assumes fork: "ForkAndExec fenv type kShell = Inr P" "fk_protocol fenv = Inr h" "written h = []"
    and quiet: "stdin_ok P" "se_shutdown senv" "only_signals rs"
    and run: "PassDataStreams senv rs P = Inr (True, P1)" "protocol_sfd P1 \<noteq> None"
    and exit: "wait_exit ws = Some n" "WaitForExit ws P1 = Inr (Some (True, Some h', P2))"
    and conn: "stream (rscript c) = written h'"
    and st: "stdout_str st = None" "stderr_str st = None"
  shows "read_and_dump default_callback bufsiz stray (Some c) True st =
    Inr (signed_char (char_of n), st\<lparr>host_stdout := host_stdout st @ left_in Stdinout P, host_stderr := host_stderr st @ left_in Stderr P\<rparr>)"
proof -
  from ForkAndExec_shell [OF fork(1,2)] have P: "protocol_sfd P = Some h" "sp_capacity (sub_output P) = MAX_PAYLOAD - kHeaderSize" "stdin_pending P" by auto
  let ?P = "P\<lparr>in_protocol := True, in_stdout := (stdinout_sfd P \<noteq> None), in_stderr := (stderr_sfd P \<noteq> None), in_stdin := False\<rparr>"
  have same: "same_streams P ?P" by (simp add: same_streams_def)
  have "caps P" using P quiet(1) cap_bounds by (simp add: caps_def)
  then have "caps ?P" by (rule passed_caps [OF passed_same [OF passed_refl same]])
  moreover have "pass_loop senv rs ?P = Inr (True, P1)" using run(1) P(1) by (simp add: PassDataStreams_def)
  ultimately obtain ps where ps: "passed ?P P1 ps" and closed: "stdinout_sfd P1 = None" "stderr_sfd P1 = None"
    using pass_loop_passed [OF _ run(2) _ quiet(2,3)] by blast
  have ps: "passed P P1 ps" using passed_trans [OF passed_same [OF passed_refl same] ps] by simp
  from exit(1,2) obtain P3 where w: "write_output kIdExit [char_of n] P1 = Inr (True, P3)" and h': "protocol_sfd P3 = Some h'"
    by (auto simp: WaitForExit_def)
  have "sent_bytes P3 = sent_bytes P1 @ shell_packet kIdExit [char_of n]" using write_output_passed [OF w] by simp
  then have h'w: "written h' = packets ps @ shell_packet kIdExit [char_of n]"
    using ps P(1) fork(3) h' by (simp add: passed_def sent_bytes_def)
  have fr: "frames (MAX_PAYLOAD - kHeaderSize) ps" using ps P(2) by (simp add: passed_def)
  let ?p = "shell_protocol_new c"
  have new: "sp_fd ?p = c" "bytes_left ?p = 0" "sp_capacity ?p = MAX_PAYLOAD - kHeaderSize" by (simp_all add: shell_protocol_new_def)
  have "dump_shell default_callback stray ?p 0 st = Inr (signed_char (char_of n), fold (deliver default_callback) ps st)"
    by (rule dump_shell_packets) (use conn h'w new cap_bounds fr in auto)
  moreover have "left_in Stdinout P = data_of kIdStdout ps" "left_in Stderr P = data_of kIdStderr ps"
    using ps closed by (simp_all add: passed_def left_in_def [of _ P1] stream_fd_def)
  ultimately show ?thesis using deliver_default [OF st fr] by (simp add: read_and_dump_def default_callback_def)
qed

text \<open>Three turns: what both streams have, then the end of one and of the other.\<close>

definition demo_fork :: fork_env where
  "demo_fork = \<lparr>fk_error_pair = None, fk_stdinout = Inr (demo_fd [RData ''hi'', RData []] []), fk_stderr = Inr (demo_fd [RData ''no'', RData []] []),
     fk_fork = None, fk_error = [], fk_protocol = Inr (demo_fd [] [WAccept 9, WAccept 9, WAccept 9]), fk_nonblock = (True, True), fk_strerror = (\<lambda>_. [])\<rparr>"

definition demo_child :: subprocess where
  "demo_child = (case ForkAndExec demo_fork kRaw kShell of Inr P \<Rightarrow> P)"

lemma demo_child_fork: "ForkAndExec demo_fork kRaw kShell = Inr demo_child"
  by (simp add: demo_child_def ForkAndExec_def new_subprocess_def demo_fork_def fork_streams_def Let_def)

definition demo_turns :: "select_result list" where
  "demo_turns = [Ready False True True False, Ready False True True False, Ready False True True False]"

definition demo_senv :: sub_env where
  "demo_senv = \<lparr>se_shutdown = True, se_stale = []\<rparr>"

lemmas demo_child_eval = demo_child_def ForkAndExec_def new_subprocess_def demo_fork_def fork_streams_def Let_def demo_fd_def shell_protocol_new_def

lemma demo_run:
  "\<exists>P1 P2 h'. PassDataStreams demo_senv demo_turns demo_child = Inr (True, P1) \<and> protocol_sfd P1 \<noteq> None \<and>
     WaitForExit [Exited 7] P1 = Inr (Some (True, Some h', P2)) \<and> written h' \<noteq> []"
  by (simp add: demo_child_eval PassDataStreams_def demo_turns_def pass_loop.simps select_turn_def PassOutput_def stream_fd_def
      set_stream_def adb_read_def MAX_PAYLOAD_eval kHeaderSize_def write_output_def sp_Write_def WriteFdExactly_steps
      close_dead_def clear_sets_def WaitForExit_def) blast

definition demo_terminal :: std_streams where
  "demo_terminal = \<lparr>stdout_str = None, stderr_str = None, host_stdout = [], host_stderr = []\<rparr>"

theorem shell_end_to_end_witness:
  "\<exists>P1 P2 h'. PassDataStreams demo_senv demo_turns demo_child = Inr (True, P1) \<and>
     WaitForExit [Exited 7] P1 = Inr (Some (True, Some h', P2)) \<and>
     read_and_dump default_callback 8192 (CHR ''?'') (Some (demo_fd [RData (written h')] [])) True demo_terminal =
       Inr (7, demo_terminal\<lparr>host_stdout := ''hi'', host_stderr := ''no''\<rparr>)"
proof -
  from demo_run obtain P1 P2 h' where run: "PassDataStreams demo_senv demo_turns demo_child = Inr (True, P1)" "protocol_sfd P1 \<noteq> None"
    "WaitForExit [Exited 7] P1 = Inr (Some (True, Some h', P2))" and w: "written h' \<noteq> []" by blast
  have h: "fk_protocol demo_fork = Inr (demo_fd [] [WAccept 9, WAccept 9, WAccept 9])" "written (demo_fd [] [WAccept 9, WAccept 9, WAccept 9]) = []"
    by (simp_all add: demo_fork_def demo_fd_def)
  have ok: "stdin_ok demo_child" "se_shutdown demo_senv" "only_signals demo_turns" "wait_exit [Exited 7] = Some 7"
    "stdout_str demo_terminal = None" "stderr_str demo_terminal = None"
    by (simp_all add: stdin_ok_def demo_child_eval demo_senv_def only_signals_def demo_turns_def demo_terminal_def)
  have c: "stream (rscript (demo_fd [RData (written h')] [])) = written h'" using w by (cases "written h'") (simp_all add: demo_fd_def)
  have "left_in Stdinout demo_child = ''hi''" "left_in Stderr demo_child = ''no''" "signed_char (char_of (7 :: nat)) = 7"
    by (simp_all add: left_in_def stream_fd_def demo_child_eval signed_char_of)
  then have "read_and_dump default_callback 8192 (CHR ''?'') (Some (demo_fd [RData (written h')] [])) True demo_terminal =
       Inr (7, demo_terminal\<lparr>host_stdout := ''hi'', host_stderr := ''no''\<rparr>)"
    using shell_end_to_end [OF demo_child_fork h ok(1-3) run(1,2) ok(4) run(3) c ok(5,6), of 8192 "CHR ''?''"] by (simp add: demo_terminal_def)
  with run show ?thesis by blast
qed

text \<open>
  C13: the loop of a command ends once the command does. Both streams end sooner or later, the
  client sends nothing and takes what it is sent, and select reports the streams in each of
  enough turns: then PassDataStreams returns, with the connection to the client still open for
  the exit code.
\<close>

theorem shell_loop_completes:
  assumes "protocol_sfd P = Some h" and "willing h (6 * work P)" and "0 < sp_capacity (sub_output P)"
    and "\<And>f. stdinout_sfd P = Some f \<Longrightarrow> ends f" and "\<And>f. stderr_sfd P = Some f \<Longrightarrow> ends f"
    and "silent rs" and "work P \<le> length rs"
  shows "\<exists>P'. PassDataStreams env rs P = Inr (True, P') \<and> protocol_sfd P' \<noteq> None"
proof -
  let ?P = "P\<lparr>in_protocol := True, in_stdout := (stdinout_sfd P \<noteq> None), in_stderr := (stderr_sfd P \<noteq> None), in_stdin := False\<rparr>"
  have "work ?P = work P" "live ?P" "takes ?P" using assms(1-5) by (auto simp: work_def live_def takes_def)
  then show ?thesis using pass_loop_total [OF assms(6), of ?P env] assms(1,7) by (simp add: PassDataStreams_def)
qed

theorem shell_loop_completes_witness:
  "\<exists>P'. PassDataStreams demo_senv (replicate 20 (Ready False True True False))
      (demo_child\<lparr>protocol_sfd := Some (demo_fd [] (replicate 99 (WAccept 1)))\<rparr>) = Inr (True, P') \<and> protocol_sfd P' \<noteq> None"
proof (rule shell_loop_completes)
  let ?P = "demo_child\<lparr>protocol_sfd := Some (demo_fd [] (replicate 99 (WAccept 1)))\<rparr>"
  have w: "work ?P = 10" by (simp add: work_def to_read_def demo_child_eval rsize_def)
  show "willing (demo_fd [] (replicate 99 (WAccept 1))) (6 * work ?P)"
    unfolding w unfolding willing_def demo_fd_def by (rule exI [of _ "replicate 99 1"], rule exI [of _ "[]"]) (simp add: map_replicate)
  show "work ?P \<le> length (replicate 20 (Ready False True True False))" unfolding w by simp
qed (simp_all add: demo_child_eval silent_def ends_def MAX_PAYLOAD_eval kHeaderSize_def)

end
