(* ===== verification/Jdwp.thy ===== *)
theory Jdwp
  imports Adb_IO C_Numbers
begin

text \<open>
  jdwp\_service.cpp: the processes of the device that a debugger can connect to. Each keeps a
  connection to adbd, on which it announces its pid and receives the descriptors of debuggers; the
  list of pids is sent to clients once (jdwp) or after every change (track-jdwp). Objects are
  addressed by numbers; what is handed to the peers of the sockets, and what happens to
  descriptors, is recorded in order.
\<close>

section \<open>State\<close>

definition PID_LEN :: nat where "PID_LEN = 4"

record JdwpProcess =
  jp_addr :: nat
  jp_pid :: int
  jp_socket :: nat
  jp_conn :: fd_state              \<comment> \<open>what recv gives on the socket\<close>
  jp_out_fds :: "nat list"
  jp_write :: bool                 \<comment> \<open>FDE\_WRITE in the events of fde\<close>

text \<open>\<open>jt_max\<close> is get\_max\_payload() of the socket.\<close>

record JdwpTracker =
  jt_addr :: nat
  jt_peer :: "nat option"
  jt_max :: nat
  need_initial :: bool

datatype jdwp_act =
    Enqueue nat string             \<comment> \<open>\<open>peer->enqueue(peer, p)\<close>\<close>
  | LeakPacket                     \<comment> \<open>a packet that is neither enqueued nor freed\<close>
  | ClosePeer nat                  \<comment> \<open>\<open>peer->close(peer)\<close>\<close>
  | ShutdownFd nat
  | CloseFd nat
  | SendFd nat nat                 \<comment> \<open>sendmsg of a descriptor on a socket\<close>

record jdwp =
  jdwp_list :: "JdwpProcess list"
  jdwp_trackers :: "JdwpTracker list"
  jdwp_next :: nat
  jdwp_acts :: "jdwp_act list"

definition jdwp_do :: "jdwp_act list \<Rightarrow> jdwp \<Rightarrow> jdwp" where
  "jdwp_do as J = J\<lparr>jdwp_acts := jdwp_acts J @ as\<rparr>"

section \<open>The list of processes\<close>

definition pid_line :: "int \<Rightarrow> string" where
  "pid_line pid = dec_of_int pid @ [CHR 0x0A]"

fun pid_lines :: "nat \<Rightarrow> int list \<Rightarrow> string \<Rightarrow> string" where
  "pid_lines bufferlen [] temp = temp"
| "pid_lines bufferlen (pid # pids) temp =
    (if pid < 0 then pid_lines bufferlen pids temp
     else if length temp + length (pid_line pid) > bufferlen then temp
     else pid_lines bufferlen pids (temp @ pid_line pid))"

definition jdwp_process_list :: "nat \<Rightarrow> jdwp \<Rightarrow> string" where
  "jdwp_process_list bufferlen J = pid_lines bufferlen (map jp_pid (jdwp_list J)) []"

definition jdwp_process_list_msg :: "nat \<Rightarrow> jdwp \<Rightarrow> string res" where
  "jdwp_process_list_msg bufferlen J =
    (if bufferlen < 4 then Inl (Fatal ''invalid JDWP process list buffer size'')
     else
       (let l = jdwp_process_list (bufferlen - 4) J in
        Inr (take 4 (pad0 4 (hex_of_nat (length l))) @ l)))"

text \<open>Every tracker gets the list; where it has no peer yet, the packet is lost.\<close>

definition jdwp_process_list_updated :: "jdwp \<Rightarrow> jdwp res" where
  "jdwp_process_list_updated J =
    bindR (jdwp_process_list_msg 1024 J) (\<lambda>msg.
      Inr (jdwp_do (map (\<lambda>t. case jt_peer t of Some q \<Rightarrow> Enqueue q msg | None \<Rightarrow> LeakPacket) (jdwp_trackers J)) J))"

section \<open>Processes\<close>

definition get_proc :: "nat \<Rightarrow> jdwp \<Rightarrow> JdwpProcess res" where
  "get_proc a J = (case find (\<lambda>p. jp_addr p = a) (jdwp_list J) of Some p \<Rightarrow> Inr p | None \<Rightarrow> Inl (InvalidAccess a))"

definition put_proc :: "JdwpProcess \<Rightarrow> jdwp \<Rightarrow> jdwp" where
  "put_proc p J = J\<lparr>jdwp_list := map (\<lambda>q. if jp_addr q = jp_addr p then p else q) (jdwp_list J)\<rparr>"

text \<open>The destructor, and the removal from the list, which runs it.\<close>

definition delete_proc :: "JdwpProcess \<Rightarrow> jdwp_act list" where
  "delete_proc p = [ShutdownFd (jp_socket p), CloseFd (jp_socket p)] @ map CloseFd (jp_out_fds p)"

definition RemoveFromList :: "nat \<Rightarrow> jdwp \<Rightarrow> jdwp" where
  "RemoveFromList a J =
    jdwp_do (concat (map delete_proc (filter (\<lambda>p. jp_addr p = a) (jdwp_list J))))
      (J\<lparr>jdwp_list := filter (\<lambda>p. jp_addr p \<noteq> a) (jdwp_list J)\<rparr>)"

definition CloseProcess :: "nat \<Rightarrow> jdwp \<Rightarrow> jdwp res" where
  "CloseProcess a J = jdwp_process_list_updated (RemoveFromList a J)"

text \<open>
  recv on a socket of packets, tried again after a signal: what does not fit is lost.
\<close>

fun recv_packet :: "rresp list \<Rightarrow> nat \<Rightarrow> io_ret \<times> string \<times> rresp list" where
  "recv_packet [] n = (Err EAGAIN, [], [])"
| "recv_packet (RData bs # rs) n = (Ret (length (take n bs)), take n bs, rs)"
| "recv_packet (RErr e # rs) n = (if e = EOTHER 4 then recv_packet rs n else (Err e, [], rs))"

text \<open>The loop that waits for the end of the connection: whether it has ended.\<close>

fun drain_control :: "rresp list \<Rightarrow> bool \<times> rresp list" where
  "drain_control [] = (False, [])"
| "drain_control (RData bs # rs) = (if bs = [] then (True, rs) else drain_control rs)"
| "drain_control (RErr e # rs) = (if e = EOTHER 4 then drain_control rs else (e \<noteq> EAGAIN, rs))"

text \<open>What the read part does: go on to the write part, return, or close the process.\<close>

datatype jdwp_next_step = GoOn | Return | CloseIt

definition jdwp_read :: "JdwpProcess \<Rightarrow> JdwpProcess \<times> bool \<times> jdwp_next_step" where
  "jdwp_read p =
    (if jp_pid p < 0 then
       (case recv_packet (rscript (jp_conn p)) PID_LEN of (r, buf, rs) \<Rightarrow>
         let p1 = p\<lparr>jp_conn := (jp_conn p)\<lparr>rscript := rs\<rparr>\<rparr> in
         if r \<noteq> Ret PID_LEN then (p1, False, CloseIt)
         else (case sscanf_x4 buf of
                 None \<Rightarrow> (p1, False, CloseIt)
               | Some pid \<Rightarrow> (p1\<lparr>jp_pid := pid\<rparr>, True, GoOn)))
     else
       (case drain_control (rscript (jp_conn p)) of (ended, rs) \<Rightarrow>
         (p\<lparr>jp_conn := (jp_conn p)\<lparr>rscript := rs\<rparr>\<rparr>, False, if ended then CloseIt else Return)))"

text \<open>What the system answers when a descriptor is handed over.\<close>

record send_sys =
  ss_block :: bool
  ss_sendmsg :: bool
  ss_nonblock :: bool

definition jdwp_write :: "send_sys \<Rightarrow> JdwpProcess \<Rightarrow> JdwpProcess \<times> jdwp_act list \<times> bool" where
  "jdwp_write sys p =
    (if jp_out_fds p = [] then (p, [], False)
     else
       (let fd = last (jp_out_fds p); rest = butlast (jp_out_fds p) in
        if \<not> ss_block sys then (p, [], True)
        else if \<not> ss_sendmsg sys then (p, [], True)
        else
          (p\<lparr>jp_out_fds := rest, jp_write := (if ss_nonblock sys \<and> rest = [] then False else jp_write p)\<rparr>,
           [SendFd (jp_socket p) fd, CloseFd fd, CloseFd fd], \<not> ss_nonblock sys)))"

definition jdwp_process_event :: "send_sys \<Rightarrow> nat \<Rightarrow> bool \<Rightarrow> bool \<Rightarrow> jdwp \<Rightarrow> jdwp res" where
  "jdwp_process_event sys a readable writable J =
    bindR (get_proc a J) (\<lambda>p.
      case (if readable then jdwp_read p else (p, False, GoOn)) of (p1, announced, next) \<Rightarrow>
        bindR (if announced then jdwp_process_list_updated (put_proc p1 J) else Inr (put_proc p1 J)) (\<lambda>J1.
          case next of
            Return \<Rightarrow> Inr J1
          | CloseIt \<Rightarrow> CloseProcess a J1
          | GoOn \<Rightarrow>
              if writable then
                (case jdwp_write sys p1 of (p2, acts, close) \<Rightarrow>
                  let J2 = jdwp_do acts (put_proc p2 J1) in if close then CloseProcess a J2 else Inr J2)
              else Inr J1))"

text \<open>A debugger for a process; the result of socketpair is a parameter, -1 is None.\<close>

fun connect_proc :: "int \<Rightarrow> nat \<Rightarrow> JdwpProcess list \<Rightarrow> JdwpProcess list" where
  "connect_proc pid fd [] = []"
| "connect_proc pid fd (p # ps) =
    (if jp_pid p = pid
     then p\<lparr>jp_out_fds := jp_out_fds p @ [fd], jp_write := (jp_write p \<or> length (jp_out_fds p @ [fd]) = 1)\<rparr> # ps
     else p # connect_proc pid fd ps)"

definition create_jdwp_connection_fd :: "(nat \<times> nat) option \<Rightarrow> int \<Rightarrow> jdwp \<Rightarrow> nat option \<times> jdwp" where
  "create_jdwp_connection_fd pair pid J =
    (if pid \<notin> set (map jp_pid (jdwp_list J)) then (None, J)
     else (case pair of
             None \<Rightarrow> (None, J)
           | Some (a, b) \<Rightarrow> (Some a, J\<lparr>jdwp_list := connect_proc pid b (jdwp_list J)\<rparr>)))"

text \<open>A process connects to the control socket; None where accept fails.\<close>

definition jdwp_control_event :: "(nat \<times> fd_state) option \<Rightarrow> jdwp \<Rightarrow> jdwp" where
  "jdwp_control_event accepted J =
    (case accepted of
       None \<Rightarrow> J
     | Some (s, conn) \<Rightarrow>
         J\<lparr>jdwp_next := Suc (jdwp_next J),
           jdwp_list := jdwp_list J @ [\<lparr>jp_addr = jdwp_next J, jp_pid = -1, jp_socket = s, jp_conn = conn, jp_out_fds = [], jp_write = False\<rparr>]\<rparr>)"

text \<open>jdwp\_control\_init up to listen: the socket, or what is closed again. \<open>maxpath\<close> is the size of sun\_path.\<close>

definition jdwp_control_init :: "nat \<Rightarrow> nat option \<Rightarrow> bool \<Rightarrow> bool \<Rightarrow> string \<Rightarrow> nat option \<times> jdwp_act list" where
  "jdwp_control_init maxpath socket_result bind_ok listen_ok sockname =
    (if length sockname \<ge> maxpath then (None, [])
     else (case socket_result of
             None \<Rightarrow> (None, [])
           | Some s \<Rightarrow> if \<not> bind_ok \<or> \<not> listen_ok then (None, [CloseFd s]) else (Some s, [])))"

section \<open>The service that sends the list once\<close>

record JdwpSocket =
  js_peer :: "nat option"
  js_max :: nat
  js_pass :: bool

definition jdwp_socket_close :: "JdwpSocket \<Rightarrow> jdwp \<Rightarrow> jdwp" where
  "jdwp_socket_close s J = jdwp_do (case js_peer s of Some q \<Rightarrow> [ClosePeer q] | None \<Rightarrow> []) J"

definition jdwp_socket_enqueue :: "JdwpSocket \<Rightarrow> jdwp \<Rightarrow> jdwp res" where
  "jdwp_socket_enqueue s J = (case js_peer s of Some q \<Rightarrow> Inr (jdwp_do [ClosePeer q] J) | None \<Rightarrow> Inl NullDeref)"

definition jdwp_socket_ready :: "JdwpSocket \<Rightarrow> jdwp \<Rightarrow> (JdwpSocket \<times> jdwp) res" where
  "jdwp_socket_ready s J =
    (case js_peer s of
       None \<Rightarrow> Inl NullDeref
     | Some q \<Rightarrow>
         if \<not> js_pass s then Inr (s\<lparr>js_pass := True\<rparr>, jdwp_do [Enqueue q (jdwp_process_list (js_max s) J)] J)
         else Inr (s, jdwp_do [ClosePeer q] J))"

definition create_jdwp_service_socket :: "nat option \<Rightarrow> nat \<Rightarrow> JdwpSocket" where
  "create_jdwp_service_socket peer max_payload = \<lparr>js_peer = peer, js_max = max_payload, js_pass = False\<rparr>"

section \<open>Trackers\<close>

definition create_jdwp_tracker_service_socket :: "nat \<Rightarrow> jdwp \<Rightarrow> nat \<times> jdwp" where
  "create_jdwp_tracker_service_socket max_payload J =
    (jdwp_next J,
     J\<lparr>jdwp_next := Suc (jdwp_next J),
       jdwp_trackers := jdwp_trackers J @ [\<lparr>jt_addr = jdwp_next J, jt_peer = None, jt_max = max_payload, need_initial = True\<rparr>]\<rparr>)"

definition get_tracker :: "nat \<Rightarrow> jdwp \<Rightarrow> JdwpTracker res" where
  "get_tracker a J = (case find (\<lambda>t. jt_addr t = a) (jdwp_trackers J) of Some t \<Rightarrow> Inr t | None \<Rightarrow> Inl (InvalidAccess a))"

definition put_tracker :: "JdwpTracker \<Rightarrow> jdwp \<Rightarrow> jdwp" where
  "put_tracker t J = J\<lparr>jdwp_trackers := map (\<lambda>u. if jt_addr u = jt_addr t then t else u) (jdwp_trackers J)\<rparr>"

definition jdwp_tracker_ready :: "nat \<Rightarrow> jdwp \<Rightarrow> jdwp res" where
  "jdwp_tracker_ready a J =
    bindR (get_tracker a J) (\<lambda>t.
      if need_initial t then
        bindR (jdwp_process_list_msg (jt_max t) J) (\<lambda>msg.
          case jt_peer t of
            None \<Rightarrow> Inl NullDeref
          | Some q \<Rightarrow> Inr (jdwp_do [Enqueue q msg] (put_tracker (t\<lparr>need_initial := False\<rparr>) J)))
      else Inr J)"

definition jdwp_tracker_enqueue :: "nat \<Rightarrow> jdwp \<Rightarrow> jdwp res" where
  "jdwp_tracker_enqueue a J =
    bindR (get_tracker a J) (\<lambda>t. case jt_peer t of Some q \<Rightarrow> Inr (jdwp_do [ClosePeer q] J) | None \<Rightarrow> Inl NullDeref)"

definition jdwp_tracker_close :: "nat \<Rightarrow> jdwp \<Rightarrow> jdwp res" where
  "jdwp_tracker_close a J =
    bindR (get_tracker a J) (\<lambda>t.
      Inr (jdwp_do (case jt_peer t of Some q \<Rightarrow> [ClosePeer q] | None \<Rightarrow> [])
        (J\<lparr>jdwp_trackers := filter (\<lambda>u. jt_addr u \<noteq> a) (jdwp_trackers J)\<rparr>)))"

end
