(* ===== verification/Jdwp_Props.thy ===== *)
theory Jdwp_Props
  imports Jdwp
begin

text \<open>
  The trackers of the list of debuggable processes are always told the current list, the
  descriptors of debuggers wait only for processes that are watched, and a client reads the list
  as it is.
\<close>

section \<open>The list depends on the announced processes\<close>

definition visible :: "jdwp \<Rightarrow> int list" where
  "visible J = filter (\<lambda>pid. 0 \<le> pid) (map jp_pid (jdwp_list J))"

lemma pid_lines_filter: "pid_lines n (filter (\<lambda>pid. 0 \<le> pid) pids) temp = pid_lines n pids temp"
  by (induction n pids temp rule: pid_lines.induct) auto

lemma jdwp_process_list_visible: "jdwp_process_list n J = pid_lines n (visible J) []"
  by (simp add: jdwp_process_list_def visible_def pid_lines_filter)

lemma list_msg_visible: "visible J' = visible J \<Longrightarrow> jdwp_process_list_msg n J' = jdwp_process_list_msg n J"
  by (simp add: jdwp_process_list_msg_def jdwp_process_list_visible)

text \<open>The list is cut at a process boundary, where the next one does not fit.\<close>

lemma pid_lines_prefix:
  "\<forall>pid \<in> set pids. 0 \<le> pid \<Longrightarrow> length temp \<le> n \<Longrightarrow>
   \<exists>k \<le> length pids. pid_lines n pids temp = temp @ concat (map pid_line (take k pids)) \<and> length (pid_lines n pids temp) \<le> n \<and>
     (k < length pids \<longrightarrow> n < length (pid_lines n pids temp) + length (pid_line (pids ! k)))"
proof (induction n pids temp rule: pid_lines.induct)
  case (2 n pid pids temp)
  have nn: "\<not> pid < 0" using "2.prems" by auto
  show ?case
  proof (cases "length temp + length (pid_line pid) > n")
    case True
    then show ?thesis using nn "2.prems"(2) by (intro exI [of _ 0]) auto
  next
    case False
    have "\<forall>pid \<in> set pids. 0 \<le> pid" "length (temp @ pid_line pid) \<le> n" using "2.prems" False by auto
    from "2.IH"(2) [OF nn False this] obtain k where
      k: "k \<le> length pids" "pid_lines n pids (temp @ pid_line pid) = (temp @ pid_line pid) @ concat (map pid_line (take k pids))"
        "length (pid_lines n pids (temp @ pid_line pid)) \<le> n"
        "k < length pids \<longrightarrow> n < length (pid_lines n pids (temp @ pid_line pid)) + length (pid_line (pids ! k))" by blast
    then show ?thesis using nn False by (intro exI [of _ "Suc k"]) auto
  qed
qed auto

section \<open>What the trackers were told\<close>

definition sent_to :: "nat \<Rightarrow> jdwp_act list \<Rightarrow> string list" where
  "sent_to q as = concat (map (\<lambda>a. case a of Enqueue r m \<Rightarrow> if r = q then [m] else [] | _ \<Rightarrow> []) as)"

lemma sent_to_append [simp]: "sent_to q (as @ bs) = sent_to q as @ sent_to q bs"
  by (simp add: sent_to_def)

definition current :: "jdwp \<Rightarrow> JdwpTracker \<Rightarrow> bool" where
  "current J t \<longleftrightarrow> (\<forall>q. jt_peer t = Some q \<longrightarrow> \<not> need_initial t \<longrightarrow>
     sent_to q (jdwp_acts J) \<noteq> [] \<and>
     (jdwp_process_list_msg 1024 J = Inr (last (sent_to q (jdwp_acts J))) \<or>
      jdwp_process_list_msg (jt_max t) J = Inr (last (sent_to q (jdwp_acts J)))))"

definition watched :: "JdwpProcess \<Rightarrow> bool" where
  "watched p \<longleftrightarrow> (jp_write p \<longleftrightarrow> jp_out_fds p \<noteq> [])"

definition jdwp_wf :: "jdwp \<Rightarrow> bool" where
  "jdwp_wf J \<longleftrightarrow> distinct (map jp_addr (jdwp_list J)) \<and> distinct (map jt_addr (jdwp_trackers J)) \<and>
     (\<forall>p \<in> set (jdwp_list J). jp_addr p < jdwp_next J) \<and> (\<forall>t \<in> set (jdwp_trackers J). jt_addr t < jdwp_next J) \<and>
     (\<forall>t \<in> set (jdwp_trackers J). \<forall>u \<in> set (jdwp_trackers J). jt_peer t = jt_peer u \<longrightarrow> jt_peer t = None \<or> t = u) \<and>
     (\<forall>t \<in> set (jdwp_trackers J). jt_peer t = None \<longrightarrow> need_initial t) \<and>
     (\<forall>p \<in> set (jdwp_list J). watched p)"

definition jdwp_inv :: "jdwp \<Rightarrow> bool" where
  "jdwp_inv J \<longleftrightarrow> jdwp_wf J \<and> (\<forall>t \<in> set (jdwp_trackers J). current J t)"

text \<open>An update tells every tracker, whatever was true before.\<close>

lemma updated_current:
  assumes "jdwp_process_list_updated J = Inr J'"
  shows "jdwp_list J' = jdwp_list J \<and> jdwp_trackers J' = jdwp_trackers J \<and> jdwp_next J' = jdwp_next J \<and> (\<forall>t \<in> set (jdwp_trackers J'). current J' t)"
proof -
  let ?acts = "\<lambda>msg. map (\<lambda>t. case jt_peer t of Some q \<Rightarrow> Enqueue q msg | None \<Rightarrow> LeakPacket) (jdwp_trackers J)"
  from assms obtain msg where m: "jdwp_process_list_msg 1024 J = Inr msg" and J': "J' = jdwp_do (?acts msg) J"
    by (auto simp: jdwp_process_list_updated_def)
  have "visible J' = visible J" using J' by (simp add: visible_def jdwp_do_def)
  from list_msg_visible [OF this] have v: "jdwp_process_list_msg 1024 J' = Inr msg" using m by simp
  have all: "\<forall>x \<in> set (sent_to q (?acts msg)). x = msg" for q
    by (auto simp: sent_to_def split: option.splits if_splits)
  have "current J' t" if t: "t \<in> set (jdwp_trackers J)" for t
  proof -
    have "sent_to q (?acts msg) \<noteq> []" if "jt_peer t = Some q" for q
      using t that by (force simp: sent_to_def)
    moreover have "last (sent_to q (?acts msg)) = msg" if "sent_to q (?acts msg) \<noteq> []" for q
      using all [of q] last_in_set [OF that] by blast
    ultimately show ?thesis using v J' by (auto simp: current_def jdwp_do_def)
  qed
  then show ?thesis using J' by (simp add: jdwp_do_def)
qed

text \<open>What does not touch the announced list, the trackers or their messages keeps them current.\<close>

lemma current_same:
  assumes "current J t" and "visible J' = visible J" and "\<And>q. jt_peer t = Some q \<Longrightarrow> sent_to q (jdwp_acts J') = sent_to q (jdwp_acts J)"
  shows "current J' t"
  using assms(1) list_msg_visible [OF assms(2)] assms(3) by (simp add: current_def)

lemma sent_to_none: "(\<And>r m. Enqueue r m \<in> set as \<Longrightarrow> r \<noteq> q) \<Longrightarrow> sent_to q as = []"
  by (auto simp: sent_to_def split: jdwp_act.splits)

section \<open>Every step keeps the invariant\<close>

inductive jdwp_step :: "jdwp \<Rightarrow> jdwp \<Rightarrow> bool" where
  accepted: "jdwp_step J (jdwp_control_event acc J)"
| event: "jdwp_process_event sys a readable writable J = Inr J' \<Longrightarrow> jdwp_step J J'"
| debug: "create_jdwp_connection_fd pair pid J = (fd, J') \<Longrightarrow> jdwp_step J J'"
| track: "create_jdwp_tracker_service_socket max_payload J = (t, J') \<Longrightarrow> jdwp_step J J'"
| connect: "get_tracker a J = Inr t \<Longrightarrow> jt_peer t = None \<Longrightarrow> q \<notin> {r. \<exists>u \<in> set (jdwp_trackers J). jt_peer u = Some r} \<Longrightarrow>
    jdwp_step J (put_tracker (t\<lparr>jt_peer := Some q\<rparr>) J)"
| tracker_ready: "jdwp_tracker_ready a J = Inr J' \<Longrightarrow> jdwp_step J J'"
| tracker_enqueue: "jdwp_tracker_enqueue a J = Inr J' \<Longrightarrow> jdwp_step J J'"
| tracker_close: "jdwp_tracker_close a J = Inr J' \<Longrightarrow> jdwp_step J J'"
| socket_ready: "jdwp_socket_ready s J = Inr (s', J') \<Longrightarrow> js_peer s \<notin> jt_peer ` set (jdwp_trackers J) \<Longrightarrow> jdwp_step J J'"
| socket_enqueue: "jdwp_socket_enqueue s J = Inr J' \<Longrightarrow> jdwp_step J J'"
| socket_close: "jdwp_step J (jdwp_socket_close s J)"

inductive jdwp_reachable :: "jdwp \<Rightarrow> bool" where
  start: "jdwp_reachable \<lparr>jdwp_list = [], jdwp_trackers = [], jdwp_next = 0, jdwp_acts = []\<rparr>"
| step: "jdwp_reachable J \<Longrightarrow> jdwp_step J J' \<Longrightarrow> jdwp_reachable J'"

lemma get_proc_in: "get_proc a J = Inr p \<Longrightarrow> p \<in> set (jdwp_list J) \<and> jp_addr p = a"
  by (auto simp: get_proc_def find_Some_iff split: option.splits)

lemma get_tracker_in: "get_tracker a J = Inr t \<Longrightarrow> t \<in> set (jdwp_trackers J) \<and> jt_addr t = a"
  by (auto simp: get_tracker_def find_Some_iff split: option.splits)

text \<open>Replacing a process by one with the same address.\<close>

lemma put_proc_wf:
  assumes "jdwp_wf J" and "get_proc (jp_addr p) J = Inr p0" and "watched p"
  shows "jdwp_wf (put_proc p J)"
proof -
  have "map jp_addr (map (\<lambda>q. if jp_addr q = jp_addr p then p else q) ps) = map jp_addr ps" for ps by (induction ps) auto
  then have "map jp_addr (jdwp_list (put_proc p J)) = map jp_addr (jdwp_list J)" unfolding put_proc_def by simp
  moreover have "jp_addr p < jdwp_next J" using assms(1) get_proc_in [OF assms(2)] by (auto simp: jdwp_wf_def)
  then have "\<forall>q \<in> set (jdwp_list (put_proc p J)). jp_addr q < jdwp_next J \<and> watched q"
    using assms(1,3) by (auto simp: put_proc_def jdwp_wf_def)
  moreover have "jdwp_trackers (put_proc p J) = jdwp_trackers J" "jdwp_next (put_proc p J) = jdwp_next J" by (simp_all add: put_proc_def)
  ultimately show ?thesis using assms(1) unfolding jdwp_wf_def by simp
qed

lemma get_put_proc: "get_proc (jp_addr p) J = Inr p0 \<Longrightarrow> get_proc (jp_addr p) (put_proc p J) = Inr p"
proof -
  have "find (\<lambda>q. jp_addr q = jp_addr p) ps \<noteq> None \<Longrightarrow>
      find (\<lambda>q. jp_addr q = jp_addr p) (map (\<lambda>q. if jp_addr q = jp_addr p then p else q) ps) = Some p" for ps
    by (induction ps) auto
  then show "get_proc (jp_addr p) J = Inr p0 \<Longrightarrow> get_proc (jp_addr p) (put_proc p J) = Inr p"
    by (auto simp: get_proc_def put_proc_def split: option.splits)
qed

lemma put_proc_visible:
  assumes "jdwp_wf J" and "get_proc (jp_addr p) J = Inr p0" and "jp_pid p = jp_pid p0"
  shows "visible (put_proc p J) = visible J"
proof -
  have "jp_pid (if jp_addr q = jp_addr p then p else q) = jp_pid q" if "q \<in> set (jdwp_list J)" for q
    using that assms get_proc_in [OF assms(2)] by (auto simp: jdwp_wf_def distinct_map inj_on_def)
  then have "map jp_pid (map (\<lambda>q. if jp_addr q = jp_addr p then p else q) (jdwp_list J)) = map jp_pid (jdwp_list J)" by simp
  then show ?thesis by (simp add: visible_def put_proc_def del: map_map)
qed

lemma acts_current:
  assumes "jdwp_wf J" and "\<forall>t \<in> set (jdwp_trackers J). current J t" and "\<And>r m. Enqueue r m \<notin> set as"
  shows "jdwp_wf (jdwp_do as J) \<and> (\<forall>t \<in> set (jdwp_trackers (jdwp_do as J)). current (jdwp_do as J) t)"
proof -
  have "current (jdwp_do as J) t" if "current J t" for t
  proof (rule current_same)
    show "sent_to q (jdwp_acts (jdwp_do as J)) = sent_to q (jdwp_acts J)" for q
      using sent_to_none [of as q] assms(3) by (auto simp: jdwp_do_def)
  qed (use that in \<open>simp_all add: visible_def jdwp_do_def\<close>)
  then show ?thesis using assms(1,2) by (simp add: jdwp_wf_def jdwp_do_def)
qed

lemma CloseProcess_inv:
  assumes "CloseProcess a J = Inr J'" and "jdwp_wf (J\<lparr>jdwp_list := filter (\<lambda>p. jp_addr p \<noteq> a) (jdwp_list J)\<rparr>)"
  shows "jdwp_inv J'"
proof -
  have u: "jdwp_process_list_updated (RemoveFromList a J) = Inr J'" using assms(1) by (simp add: CloseProcess_def)
  have "jdwp_wf (RemoveFromList a J)" using assms(2) by (simp add: RemoveFromList_def jdwp_wf_def jdwp_do_def)
  then show ?thesis using updated_current [OF u] by (simp add: jdwp_inv_def jdwp_wf_def)
qed

lemma wf_remove: "jdwp_wf J \<Longrightarrow> jdwp_wf (J\<lparr>jdwp_list := filter P (jdwp_list J)\<rparr>)"
  by (auto simp: jdwp_wf_def distinct_map_filter)

lemma wf_remove_put: "jdwp_wf J \<Longrightarrow> jdwp_wf ((put_proc p J)\<lparr>jdwp_list := filter (\<lambda>q. jp_addr q \<noteq> jp_addr p) (jdwp_list (put_proc p J))\<rparr>)"
proof -
  assume w: "jdwp_wf J"
  have "filter (\<lambda>q. jp_addr q \<noteq> jp_addr p) (map (\<lambda>q. if jp_addr q = jp_addr p then p else q) ps) = filter (\<lambda>q. jp_addr q \<noteq> jp_addr p) ps" for ps
    by (induction ps) auto
  then show ?thesis using wf_remove [OF w, of "\<lambda>q. jp_addr q \<noteq> jp_addr p"] by (simp add: put_proc_def jdwp_wf_def)
qed

lemma put_proc_inv:
  assumes "jdwp_inv J" and "get_proc (jp_addr p) J = Inr p0" and "jp_pid p = jp_pid p0" and "watched p"
  shows "jdwp_inv (put_proc p J)"
proof -
  have w: "jdwp_wf J" using assms(1) by (simp add: jdwp_inv_def)
  have "current (put_proc p J) t" if "current J t" for t
    by (rule current_same [OF that put_proc_visible [OF w assms(2,3)]]) (simp add: put_proc_def)
  then show ?thesis using assms(1) put_proc_wf [OF w assms(2,4)] by (auto simp: jdwp_inv_def put_proc_def)
qed

lemma jdwp_read_keeps:
  assumes "jdwp_read p = (p1, ann, next)"
  shows "jp_addr p1 = jp_addr p \<and> jp_out_fds p1 = jp_out_fds p \<and> jp_write p1 = jp_write p \<and> (ann \<or> jp_pid p1 = jp_pid p)"
  using assms by (auto simp: jdwp_read_def Let_def split: prod.splits if_splits option.splits)

lemma jdwp_write_keeps:
  assumes "jdwp_write sys p = (p2, acts, close)"
  shows "jp_addr p2 = jp_addr p \<and> jp_pid p2 = jp_pid p \<and> (watched p \<and> \<not> close \<longrightarrow> watched p2) \<and> (\<forall>r m. Enqueue r m \<notin> set acts)"
  using assms by (auto simp: jdwp_write_def Let_def watched_def split: if_splits)

lemma jdwp_process_event_inv:
  assumes J: "jdwp_inv J" and e: "jdwp_process_event sys a readable writable J = Inr J'"
  shows "jdwp_inv J'"
proof -
  from e obtain p where p: "get_proc a J = Inr p" by (auto simp: jdwp_process_event_def)
  obtain p1 ann nxt where r: "(if readable then jdwp_read p else (p, False, GoOn)) = (p1, ann, nxt)" by (cases "if readable then jdwp_read p else (p, False, GoOn)") auto
  have a: "jp_addr p = a" "watched p" using get_proc_in [OF p] J by (auto simp: jdwp_inv_def jdwp_wf_def)
  have p1: "jp_addr p1 = a" "watched p1" "ann \<or> jp_pid p1 = jp_pid p"
    using r a jdwp_read_keeps [of p p1 ann nxt] by (auto simp: watched_def split: if_splits)
  have w0: "jdwp_wf (put_proc p1 J)" using J p p1 by (auto simp: jdwp_inv_def intro: put_proc_wf)
  from e p r obtain J1 where J1: "(if ann then jdwp_process_list_updated (put_proc p1 J) else Inr (put_proc p1 J)) = Inr J1"
    and n: "(case nxt of Return \<Rightarrow> Inr J1 | CloseIt \<Rightarrow> CloseProcess a J1 | GoOn \<Rightarrow> if writable then (case jdwp_write sys p1 of (p2, acts, close) \<Rightarrow>
                  let J2 = jdwp_do acts (put_proc p2 J1) in if close then CloseProcess a J2 else Inr J2) else Inr J1) = Inr J'"
    by (auto simp: jdwp_process_event_def)
  have inv1: "jdwp_inv J1 \<and> get_proc a J1 = Inr p1"
  proof (cases ann)
    case True
    then have u: "jdwp_process_list_updated (put_proc p1 J) = Inr J1" using J1 by simp
    then show ?thesis using updated_current [OF u] w0 get_put_proc [of p1 J p] p p1(1)
      by (auto simp: jdwp_inv_def jdwp_wf_def get_proc_def)
  next
    case False
    then have "J1 = put_proc p1 J" using J1 by simp
    then show ?thesis using put_proc_inv [OF J, of p1 p] False p p1 get_put_proc [of p1 J p] by simp
  qed
  have cl: "jdwp_inv J'" if "CloseProcess a J1 = Inr J'"
    using CloseProcess_inv [OF that wf_remove] inv1 by (simp add: jdwp_inv_def)
  show ?thesis
  proof (cases "nxt = GoOn \<and> writable")
    case True
    obtain p2 acts close where w: "jdwp_write sys p1 = (p2, acts, close)" by (cases "jdwp_write sys p1") auto
    note k = jdwp_write_keeps [OF w]
    show ?thesis
    proof (cases close)
      case True
      let ?J = "put_proc p2 J1"
      have "CloseProcess a (jdwp_do acts ?J) = Inr J'" using n w True \<open>nxt = GoOn \<and> writable\<close> by (simp add: Let_def)
      moreover have "jdwp_wf (?J\<lparr>jdwp_list := filter (\<lambda>q. jp_addr q \<noteq> a) (jdwp_list ?J)\<rparr>)"
        using wf_remove_put [of J1 p2] inv1 k p1(1) by (simp add: jdwp_inv_def)
      then have "jdwp_wf ((jdwp_do acts ?J)\<lparr>jdwp_list := filter (\<lambda>q. jp_addr q \<noteq> a) (jdwp_list (jdwp_do acts ?J))\<rparr>)"
        by (simp add: jdwp_wf_def jdwp_do_def)
      ultimately show ?thesis by (rule CloseProcess_inv)
    next
      case False
      then have "J' = jdwp_do acts (put_proc p2 J1)" using n w True by (simp add: Let_def)
      moreover have "jdwp_inv (put_proc p2 J1)" using put_proc_inv [of J1 p2 p1] inv1 k p1 False by simp
      ultimately show ?thesis using acts_current [of "put_proc p2 J1" acts] k by (simp add: jdwp_inv_def)
    qed
  next
    case False
    then show ?thesis using n inv1 cl by (auto split: jdwp_next_step.splits)
  qed
qed

lemma connect_proc_keeps:
  "map jp_pid (connect_proc pid fd ps) = map jp_pid ps \<and> map jp_addr (connect_proc pid fd ps) = map jp_addr ps \<and>
   ((\<forall>p \<in> set ps. watched p) \<longrightarrow> (\<forall>p \<in> set (connect_proc pid fd ps). watched p))"
  by (induction ps) (auto simp: watched_def)

lemma list_wf:
  assumes "jdwp_wf J" and "map jp_addr ps = map jp_addr (jdwp_list J)" and "\<forall>p \<in> set ps. watched p"
  shows "jdwp_wf (J\<lparr>jdwp_list := ps\<rparr>)"
proof -
  have "jp_addr ` set ps = jp_addr ` set (jdwp_list J)" using assms(2) by (metis set_map)
  then have "\<forall>p \<in> set ps. jp_addr p < jdwp_next J" using assms(1) by (auto simp: jdwp_wf_def) (metis imageE imageI)
  then show ?thesis using assms by (simp add: jdwp_wf_def)
qed

lemma same_lists_current:
  assumes "jdwp_inv J" and "jdwp_wf J'" and "visible J' = visible J" and "jdwp_acts J' = jdwp_acts J"
    and "set (jdwp_trackers J') \<subseteq> {t. need_initial t} \<union> set (jdwp_trackers J)"
  shows "jdwp_inv J'"
proof -
  have "current J' t" if "t \<in> set (jdwp_trackers J')" for t
  proof (cases "need_initial t")
    case False
    then have "current J t" using that assms(1,5) by (auto simp: jdwp_inv_def)
    then show ?thesis by (rule current_same [OF _ assms(3)]) (simp add: assms(4))
  qed (simp add: current_def)
  then show ?thesis using assms(2) by (simp add: jdwp_inv_def)
qed

lemma create_connection_inv:
  assumes "jdwp_inv J" and "create_jdwp_connection_fd pair pid J = (fd, J')"
  shows "jdwp_inv J'"
proof (cases "J' = J")
  case False
  then obtain x where J': "J' = J\<lparr>jdwp_list := connect_proc pid x (jdwp_list J)\<rparr>"
    using assms(2) by (auto simp: create_jdwp_connection_fd_def split: if_splits option.splits)
  note k = connect_proc_keeps [of pid x "jdwp_list J"]
  have w: "jdwp_wf J" using assms(1) by (simp add: jdwp_inv_def)
  then have "jdwp_wf J'" unfolding J' by (rule list_wf) (use w k in \<open>auto simp: jdwp_wf_def\<close>)
  then show ?thesis using k by (intro same_lists_current [OF assms(1)]) (auto simp: J' visible_def)
qed (use assms in simp)

lemma control_event_inv: "jdwp_inv J \<Longrightarrow> jdwp_inv (jdwp_control_event acc J)"
proof -
  assume J: "jdwp_inv J"
  then have w: "jdwp_wf (jdwp_control_event acc J)"
    by (auto simp: jdwp_inv_def jdwp_wf_def jdwp_control_event_def watched_def less_Suc_eq split: option.splits)
  show "jdwp_inv (jdwp_control_event acc J)"
    by (rule same_lists_current [OF J w]) (auto simp: jdwp_control_event_def visible_def split: option.splits)
qed

lemma create_tracker_inv: "jdwp_inv J \<Longrightarrow> create_jdwp_tracker_service_socket n J = (t, J') \<Longrightarrow> jdwp_inv J'"
proof -
  assume J: "jdwp_inv J" and c: "create_jdwp_tracker_service_socket n J = (t, J')"
  then have w: "jdwp_wf J'"
    by (auto simp: jdwp_inv_def jdwp_wf_def create_jdwp_tracker_service_socket_def less_Suc_eq; fastforce)
  show "jdwp_inv J'"
    by (rule same_lists_current [OF J w]) (use c in \<open>auto simp: create_jdwp_tracker_service_socket_def visible_def\<close>)
qed

text \<open>Replacing a tracker.\<close>

lemma put_tracker_wf:
  assumes "jdwp_wf J" and "get_tracker (jt_addr t) J = Inr t0" and "jt_peer t = jt_peer t0 \<or> jt_peer t \<notin> jt_peer ` set (jdwp_trackers J)"
    and "jt_peer t = None \<longrightarrow> need_initial t"
  shows "jdwp_wf (put_tracker t J)"
proof -
  let ?ts = "jdwp_trackers J" and ?f = "\<lambda>u. if jt_addr u = jt_addr t then t else u"
  have t0: "t0 \<in> set ?ts" "jt_addr t0 = jt_addr t" using get_tracker_in [OF assms(2)] by auto
  have one: "u = t0" if "u \<in> set ?ts" "jt_addr u = jt_addr t" for u
    using that t0 assms(1) by (auto simp: jdwp_wf_def distinct_map inj_on_def)
  have new: "jt_peer t = jt_peer t0 \<or> (\<forall>u \<in> set ?ts. jt_peer u \<noteq> jt_peer t)" using assms(3) unfolding image_iff by metis
  have "map jt_addr (map ?f ts) = map jt_addr ts" for ts by (induction ts) auto
  then have "distinct (map jt_addr (map ?f ?ts))" using assms(1) unfolding jdwp_wf_def by metis
  moreover have "\<forall>u \<in> set (map ?f ?ts). jt_addr u < jdwp_next J" using assms(1) t0 by (auto simp: jdwp_wf_def)
  moreover have "\<forall>u \<in> set (map ?f ?ts). \<forall>v \<in> set (map ?f ?ts). jt_peer u = jt_peer v \<longrightarrow> jt_peer u = None \<or> u = v"
  proof (intro ballI impI)
    fix u v assume "u \<in> set (map ?f ?ts)" "v \<in> set (map ?f ?ts)" and e: "jt_peer u = jt_peer v"
    then obtain u0 v0 where u0: "u0 \<in> set ?ts" "u = ?f u0" and v0: "v0 \<in> set ?ts" "v = ?f v0" by auto
    have old: "jt_peer x = jt_peer y \<Longrightarrow> jt_peer x = None \<or> x = y" if "x \<in> set ?ts" "y \<in> set ?ts" for x y
      using that assms(1) by (auto simp: jdwp_wf_def)
    show "jt_peer u = None \<or> u = v"
      using e u0 v0 old [OF u0(1) v0(1)] old [OF t0(1) v0(1)] old [OF u0(1) t0(1)] one [of u0] one [of v0] new t0
      by (auto split: if_splits)
  qed
  moreover have "\<forall>u \<in> set (map ?f ?ts). jt_peer u = None \<longrightarrow> need_initial u" using assms(1,4) by (auto simp: jdwp_wf_def)
  ultimately show ?thesis using assms(1) by (simp add: jdwp_wf_def put_tracker_def del: map_map)
qed

lemma put_tracker_in: "u \<in> set (jdwp_trackers (put_tracker t J)) \<Longrightarrow> u = t \<or> u \<in> set (jdwp_trackers J) \<and> jt_addr u \<noteq> jt_addr t"
  by (auto simp: put_tracker_def split: if_splits)

lemma tracker_ready_inv:
  assumes J: "jdwp_inv J" and r: "jdwp_tracker_ready a J = Inr J'"
  shows "jdwp_inv J'"
proof -
  from r obtain t where t: "get_tracker a J = Inr t" by (auto simp: jdwp_tracker_ready_def)
  show ?thesis
  proof (cases "need_initial t")
    case False
    then show ?thesis using r t J by (simp add: jdwp_tracker_ready_def)
  next
    case True
    then obtain msg q where m: "jdwp_process_list_msg (jt_max t) J = Inr msg" "jt_peer t = Some q"
      and J': "J' = jdwp_do [Enqueue q msg] (put_tracker (t\<lparr>need_initial := False\<rparr>) J)"
      using r t by (auto simp: jdwp_tracker_ready_def split: option.splits)
    let ?t = "t\<lparr>need_initial := False\<rparr>"
    have ta: "t \<in> set (jdwp_trackers J)" "jt_addr t = a" using get_tracker_in [OF t] by auto
    have w: "jdwp_wf J" using J by (simp add: jdwp_inv_def)
    have "jdwp_wf (put_tracker ?t J)" by (rule put_tracker_wf [OF w, of _ t]) (use t ta m(2) in simp_all)
    then have w': "jdwp_wf J'" by (simp add: J' jdwp_wf_def jdwp_do_def)
    have v: "visible J' = visible J" by (simp add: J' visible_def jdwp_do_def put_tracker_def)
    have acts: "sent_to x (jdwp_acts J') = sent_to x (jdwp_acts J) @ (if x = q then [msg] else [])" for x
      by (simp add: J' jdwp_do_def put_tracker_def sent_to_def)
    have "current J' u" if u: "u \<in> set (jdwp_trackers J')" for u
    proof -
      have "u \<in> set (jdwp_trackers (put_tracker ?t J))" using u by (simp add: J' jdwp_do_def)
      from put_tracker_in [OF this] show ?thesis
      proof (elim disjE conjE)
        assume "u = ?t"
        then show ?thesis using m acts list_msg_visible [OF v] by (simp add: current_def)
      next
        assume uJ: "u \<in> set (jdwp_trackers J)" "jt_addr u \<noteq> jt_addr ?t"
        have "\<not> (jt_peer u = jt_peer t \<and> jt_peer t \<noteq> None \<and> u \<noteq> t)" using w ta uJ(1) unfolding jdwp_wf_def by metis
        then have "jt_peer u \<noteq> Some q" using uJ(2) m(2) by auto
        moreover have "current J u" using J uJ by (simp add: jdwp_inv_def)
        ultimately show ?thesis by (intro current_same [OF _ v]) (auto simp: acts)
      qed
    qed
    then show ?thesis using w' by (simp add: jdwp_inv_def)
  qed
qed

lemma connect_tracker_inv:
  assumes J: "jdwp_inv J" and t: "get_tracker a J = Inr t" "jt_peer t = None" and q: "q \<notin> {r. \<exists>u \<in> set (jdwp_trackers J). jt_peer u = Some r}"
  shows "jdwp_inv (put_tracker (t\<lparr>jt_peer := Some q\<rparr>) J)"
proof -
  let ?t = "t\<lparr>jt_peer := Some q\<rparr>"
  have w: "jdwp_wf J" using J by (simp add: jdwp_inv_def)
  have ta: "t \<in> set (jdwp_trackers J)" "jt_addr t = a" using get_tracker_in [OF t(1)] by auto
  have "Some q \<notin> jt_peer ` set (jdwp_trackers J)" using q unfolding image_iff by (auto simp: eq_commute)
  then have "jdwp_wf (put_tracker ?t J)" by (intro put_tracker_wf [OF w, of _ t]) (use t ta in auto)
  moreover have "need_initial ?t" using w ta t(2) by (simp add: jdwp_wf_def)
  ultimately show ?thesis
    by (intro same_lists_current [OF J]) (auto simp: put_tracker_def visible_def dest: put_tracker_in)
qed

lemma acts_inv: "jdwp_inv J \<Longrightarrow> (\<And>r m. Enqueue r m \<notin> set as) \<Longrightarrow> jdwp_inv (jdwp_do as J)"
  using acts_current [of J as] by (simp add: jdwp_inv_def)

lemma tracker_close_inv:
  assumes J: "jdwp_inv J" and c: "jdwp_tracker_close a J = Inr J'"
  shows "jdwp_inv J'"
proof -
  let ?J = "J\<lparr>jdwp_trackers := filter (\<lambda>u. jt_addr u \<noteq> a) (jdwp_trackers J)\<rparr>"
  have "jdwp_wf ?J" using J by (auto simp: jdwp_inv_def jdwp_wf_def distinct_map_filter)
  then have i: "jdwp_inv ?J" by (rule same_lists_current [OF J]) (auto simp: visible_def)
  from c obtain as where "J' = jdwp_do as ?J" and "\<And>r m. Enqueue r m \<notin> set as"
    by (auto simp: jdwp_tracker_close_def split: option.splits)
  then show ?thesis using acts_inv [OF i] by simp
qed

lemma socket_ready_inv:
  assumes J: "jdwp_inv J" and r: "jdwp_socket_ready s J = Inr (s', J')" and q: "js_peer s \<notin> jt_peer ` set (jdwp_trackers J)"
  shows "jdwp_inv J'"
proof -
  from r obtain p where p0: "js_peer s = Some p" by (auto simp: jdwp_socket_ready_def split: option.splits)
  define as where "as = (if js_pass s then [ClosePeer p] else [Enqueue p (jdwp_process_list (js_max s) J)])"
  have p: "js_peer s = Some p" "J' = jdwp_do as J" "\<And>x m. Enqueue x m \<in> set as \<Longrightarrow> x = p"
    using r p0 by (auto simp: jdwp_socket_ready_def as_def split: if_splits)
  have "current J' t" if t: "t \<in> set (jdwp_trackers J)" for t
  proof (rule current_same)
    show "current J t" using J t by (simp add: jdwp_inv_def)
    show "visible J' = visible J" by (simp add: p(2) visible_def jdwp_do_def)
    fix x assume "jt_peer t = Some x"
    then have "x \<noteq> p" using q t p(1) by (auto simp: image_iff)
    then show "sent_to x (jdwp_acts J') = sent_to x (jdwp_acts J)" using sent_to_none [of as x] p by (auto simp: jdwp_do_def)
  qed
  then show ?thesis using J by (simp add: jdwp_inv_def p(2) jdwp_wf_def jdwp_do_def)
qed

lemma jdwp_step_inv: "jdwp_step J J' \<Longrightarrow> jdwp_inv J \<Longrightarrow> jdwp_inv J'"
proof (induction rule: jdwp_step.induct)
  case (tracker_enqueue a J J')
  then show ?case by (auto simp: jdwp_tracker_enqueue_def split: option.splits intro!: acts_inv)
next
  case (socket_enqueue s J J')
  then show ?case by (auto simp: jdwp_socket_enqueue_def split: option.splits intro!: acts_inv)
next
  case (socket_close J s)
  then show ?case by (auto simp: jdwp_socket_close_def split: option.splits intro!: acts_inv)
qed (blast intro: control_event_inv jdwp_process_event_inv create_connection_inv create_tracker_inv connect_tracker_inv
    tracker_ready_inv tracker_close_inv socket_ready_inv)+

text \<open>
  C18: in every state the service of the debuggers can get into, a tracker that had its first list
  was last told exactly the processes that are announced now, and a process is watched for
  writing exactly while descriptors of debuggers wait for it.
\<close>

theorem jdwp_reachable_inv:
  assumes "jdwp_reachable J"
  shows "(\<forall>t \<in> set (jdwp_trackers J). \<forall>q. jt_peer t = Some q \<and> \<not> need_initial t \<longrightarrow>
      (\<exists>n \<in> {1024, jt_max t}. jdwp_process_list_msg n J = Inr (last (sent_to q (jdwp_acts J))))) \<and>
    (\<forall>p \<in> set (jdwp_list J). jp_write p \<longleftrightarrow> jp_out_fds p \<noteq> [])"
proof -
  have "jdwp_inv J" using assms
  proof induction
    case start
    show ?case by (simp add: jdwp_inv_def jdwp_wf_def)
  qed (rule jdwp_step_inv)
  then show ?thesis by (auto simp: jdwp_inv_def current_def jdwp_wf_def watched_def)
qed

definition demo_proc :: JdwpProcess where
  "demo_proc = \<lparr>jp_addr = 1, jp_pid = 0xab, jp_socket = 5, jp_conn = demo_fd [] [], jp_out_fds = [], jp_write = False\<rparr>"

definition demo_jdwp :: jdwp where
  "demo_jdwp = \<lparr>jdwp_list = [demo_proc], jdwp_trackers = [\<lparr>jt_addr = 0, jt_peer = Some 7, jt_max = 4096, need_initial = False\<rparr>],
     jdwp_next = 2, jdwp_acts = [Enqueue 7 ''0000'', Enqueue 7 (''0004171'' @ [CHR 0x0A])]\<rparr>"

lemma pid_line_171: "pid_line 171 = ''171'' @ [CHR 0x0A]"
  by (simp add: pid_line_def dec_of_int_def dec_of_nat.simps [of 171] dec_of_nat.simps [of 17] dec_of_nat.simps [of "Suc 0"] hex_digit_def char_of_def bit_0)

lemma msg_heads: "pad0 4 (hex_of_nat 0) = ''0000''" "pad0 4 (hex_of_nat (Suc (Suc (Suc (Suc 0))))) = ''0004''"
  by code_simp+

lemma demo_jdwp_reachable: "jdwp_reachable demo_jdwp"
proof -
  let ?t = "\<lparr>jt_addr = 0, jt_peer = None, jt_max = 4096, need_initial = True\<rparr>"
  let ?u = "\<lparr>jt_addr = 0, jt_peer = Some 7, jt_max = 4096, need_initial = False\<rparr>"
  let ?J1 = "\<lparr>jdwp_list = [], jdwp_trackers = [?t], jdwp_next = 1, jdwp_acts = []\<rparr>"
  let ?J2 = "?J1\<lparr>jdwp_trackers := [?t\<lparr>jt_peer := Some 7\<rparr>]\<rparr>"
  let ?J3 = "\<lparr>jdwp_list = [], jdwp_trackers = [?u], jdwp_next = 1, jdwp_acts = [Enqueue 7 ''0000'']\<rparr>"
  let ?p = "\<lparr>jp_addr = 1, jp_pid = -1, jp_socket = 5, jp_conn = demo_fd [RData ''00ab''] [], jp_out_fds = [], jp_write = False\<rparr>"
  let ?J4 = "\<lparr>jdwp_list = [?p], jdwp_trackers = [?u], jdwp_next = 2, jdwp_acts = [Enqueue 7 ''0000'']\<rparr>"
  have 1: "jdwp_reachable ?J1"
    by (rule jdwp_reachable.step [OF jdwp_reachable.start], rule jdwp_step.track [of 4096 _ 0])
      (simp add: create_jdwp_tracker_service_socket_def)
  have g: "get_tracker 0 ?J1 = Inr ?t" "put_tracker (?t\<lparr>jt_peer := Some 7\<rparr>) ?J1 = ?J2" by (simp_all add: get_tracker_def put_tracker_def)
  have 2: "jdwp_reachable ?J2"
    using jdwp_reachable.step [OF 1 jdwp_step.connect [OF g(1), of 7]] g(2) by simp
  have 3: "jdwp_reachable ?J3"
    by (rule jdwp_reachable.step [OF 2], rule jdwp_step.tracker_ready [of 0])
      (simp add: jdwp_tracker_ready_def get_tracker_def put_tracker_def jdwp_do_def jdwp_process_list_msg_def jdwp_process_list_def msg_heads)
  have "jdwp_control_event (Some (5, demo_fd [RData ''00ab''] [])) ?J3 = ?J4" by (simp add: jdwp_control_event_def)
  then have 4: "jdwp_reachable ?J4" using jdwp_reachable.step [OF 3 jdwp_step.accepted [of ?J3 "Some (5, demo_fd [RData ''00ab''] [])"]] by simp
  have x: "sscanf_x4 ''00ab'' = Some 0xab" by code_simp
  have "jdwp_process_event \<lparr>ss_block = True, ss_sendmsg = True, ss_nonblock = True\<rparr> 1 True False ?J4 = Inr demo_jdwp"
    by (simp add: jdwp_process_event_def get_proc_def jdwp_read_def PID_LEN_def demo_fd_def x put_proc_def jdwp_process_list_updated_def
      jdwp_process_list_msg_def jdwp_process_list_def pid_line_171 jdwp_do_def demo_jdwp_def demo_proc_def msg_heads)
  then show ?thesis by (rule jdwp_reachable.step [OF 4 jdwp_step.event])
qed

theorem jdwp_reachable_inv_witness:
  "jdwp_reachable demo_jdwp \<and> (\<exists>n \<in> {1024, 4096}. jdwp_process_list_msg n demo_jdwp = Inr (''0004171'' @ [CHR 0x0A]))"
  using jdwp_reachable_inv [OF demo_jdwp_reachable] demo_jdwp_reachable by (simp add: demo_jdwp_def sent_to_def)

text \<open>
  C19: a client of track-jdwp reads the list as it is. The message for a buffer within 64 KiB is
  read back, however it is cut on the way, as the lines of the first announced processes, in
  order and none in part; all of them where they fit, and otherwise up to the first that does not.
\<close>

theorem jdwp_list_roundtrip:
  assumes msg: "jdwp_process_list_msg n J = Inr msg" and n: "n \<le> 65539" and g: "stream (rscript g) = msg @ rest"
  shows "\<exists>k g'. ReadProtocolString g = Inr (True, concat (map pid_line (take k (visible J))), [], g') \<and> stream (rscript g') = rest \<and>
    (k < length (visible J) \<longrightarrow> n - 4 < length (concat (map pid_line (take (Suc k) (visible J)))))"
proof -
  let ?l = "jdwp_process_list (n - 4) J"
  have vis: "\<forall>pid \<in> set (visible J). 0 \<le> pid" by (auto simp: visible_def)
  have "\<exists>k. ?l = concat (map pid_line (take k (visible J))) \<and> length ?l \<le> n - 4 \<and>
      (k < length (visible J) \<longrightarrow> n - 4 < length ?l + length (pid_line (visible J ! k)))"
    using pid_lines_prefix [OF vis, of "[]" "n - 4"] unfolding jdwp_process_list_visible by (metis append_Nil list.size(3) zero_le)
  then obtain k where
    k: "?l = concat (map pid_line (take k (visible J)))" "length ?l \<le> n - 4"
      "k < length (visible J) \<longrightarrow> n - 4 < length ?l + length (pid_line (visible J ! k))" by blast
  have len: "length ?l < 16 ^ 4" using k(2) n by simp
  note h = pad0_hex_strtoul16 [OF len]
  have "msg = pad0 4 (hex_of_nat (length ?l)) @ ?l" using msg h(1) by (auto simp: jdwp_process_list_msg_def Let_def split: if_splits)
  then have st: "stream (rscript g) = pad0 4 (hex_of_nat (length ?l)) @ (?l @ rest)" using g by simp
  obtain g' where "ReadProtocolString g = Inr (True, ?l, [], g')" "stream (rscript g') = rest"
    using ReadProtocolString_stream [OF st h(1)] h(2) len by auto
  moreover have "k < length (visible J) \<longrightarrow> n - 4 < length (concat (map pid_line (take (Suc k) (visible J))))"
    using k(1,3) by (simp add: take_Suc_conv_app_nth)
  ultimately show ?thesis using k(1) by auto
qed

theorem jdwp_list_roundtrip_witness:
  "\<exists>k g'. ReadProtocolString (demo_fd [RData ''00'', RData ''04171'', RData [CHR 0x0A, CHR ''x'']] []) =
      Inr (True, concat (map pid_line (take k [171])), [], g') \<and> stream (rscript g') = ''x'' \<and>
    (k < length [171 :: int] \<longrightarrow> (1020 :: nat) < length (concat (map pid_line (take (Suc k) [171]))))"
proof -
  have m: "jdwp_process_list_msg 1024 demo_jdwp = Inr (''0004171'' @ [CHR 0x0A])"
    by (simp add: demo_jdwp_def demo_proc_def jdwp_process_list_msg_def jdwp_process_list_def pid_line_171 msg_heads)
  have v: "visible demo_jdwp = [171]" by (simp add: visible_def demo_jdwp_def demo_proc_def)
  show ?thesis
    using jdwp_list_roundtrip [OF m, of "demo_fd [RData ''00'', RData ''04171'', RData [CHR 0x0A, CHR ''x'']] []" "''x''"] unfolding v
    by (simp add: demo_fd_def)
qed

text \<open>
  A descriptor that was handed to a process is closed twice: adb\_close(fd), and the destructor of
  the unique\_fd that pop\_back removes. In between, another thread may have got the number.
\<close>

lemma handed_over_closed_twice:
  assumes "get_proc a J = Inr p" and "jp_out_fds p = fds @ [fd]" and "ss_block sys" "ss_sendmsg sys" "ss_nonblock sys"
  shows "\<exists>J'. jdwp_process_event sys a False True J = Inr J' \<and> jdwp_acts J' = jdwp_acts J @ [SendFd (jp_socket p) fd, CloseFd fd, CloseFd fd]"
  using assms by (simp add: jdwp_process_event_def jdwp_write_def Let_def jdwp_do_def put_proc_def)

end
