(* ===== verification/Line_Printer.thy ===== *)
theory Line_Printer
  imports Adb_Prelude
begin

text \<open>
  line\_printer.cpp on a POSIX host: lines that overwrite each other on a terminal. The output is
  all that went to stdout; \<open>lp_cols\<close> is what ioctl TIOCGWINSZ reports, None when it fails.
\<close>

text \<open>
  \<open>width - kMargin\<close> is computed in size\_t; \<open>substr\<close> throws std::out\_of\_range when the position is
  behind the end, and an exception ends the program.
\<close>

definition substr :: "string \<Rightarrow> nat \<Rightarrow> nat \<Rightarrow> string res" where
  "substr s pos n = (if length s < pos then Inl (Fatal ''std::out_of_range'') else Inr (take n (drop pos s)))"

definition size_minus :: "nat \<Rightarrow> nat \<Rightarrow> nat" where
  "size_minus a b = (if b \<le> a then a - b else 2 ^ 64 + a - b)"

definition ElideMiddle :: "string \<Rightarrow> nat \<Rightarrow> string res" where
  "ElideMiddle str width =
    (if width < length str + 3 then
       (let elide_size = size_minus width 3 div 2 in
        bindR (substr str 0 elide_size) (\<lambda>a.
        bindR (substr str (size_minus (length str) elide_size) elide_size) (\<lambda>b. Inr (a @ ''...'' @ b))))
     else Inr str)"

datatype LineType = INFO | WARNING | ERROR

record line_printer =
  smart_terminal :: bool
  have_blank_line :: bool
  lp_cols :: "nat option"
  lp_out :: string

definition new_line_printer :: "bool \<Rightarrow> string option \<Rightarrow> nat option \<Rightarrow> line_printer" where
  "new_line_printer isatty term cols =
    \<lparr>smart_terminal = (isatty \<and> term \<noteq> None \<and> term \<noteq> Some ''dumb''), have_blank_line = True, lp_cols = cols, lp_out = []\<rparr>"

definition lp_write :: "string \<Rightarrow> line_printer \<Rightarrow> line_printer" where
  "lp_write s lp = lp\<lparr>lp_out := lp_out lp @ s\<rparr>"

definition lp_Print :: "string \<Rightarrow> LineType \<Rightarrow> line_printer \<Rightarrow> line_printer res" where
  "lp_Print to_print type lp =
    (if \<not> smart_terminal lp then Inr (lp_write (to_print @ [CHR 0x0A]) lp)
     else
       (let lp1 = lp_write [CHR 0x0D] lp in
        if type = INFO then
          bindR (case lp_cols lp of
                   Some w \<Rightarrow> if w \<noteq> 0 then ElideMiddle to_print w else Inr to_print
                 | None \<Rightarrow> Inr to_print) (\<lambda>text.
            Inr ((lp_write (text @ [CHR 0x1B] @ ''[K'') lp1)\<lparr>have_blank_line := False\<rparr>))
        else Inr ((lp_write (to_print @ [CHR 0x0A]) lp1)\<lparr>have_blank_line := True\<rparr>)))"

definition KeepInfoLine :: "line_printer \<Rightarrow> line_printer" where
  "KeepInfoLine lp = (if \<not> have_blank_line lp then lp_write [CHR 0x0A] lp else lp)\<lparr>have_blank_line := True\<rparr>"

section \<open>Lines fit the terminal\<close>

lemma ElideMiddle_short: "length s + 3 \<le> w \<Longrightarrow> ElideMiddle s w = Inr s"
  by (simp add: ElideMiddle_def)

lemma ElideMiddle_long:
  assumes "3 \<le> w" and "w < length s + 3"
  shows "ElideMiddle s w = Inr (take ((w - 3) div 2) s @ ''...'' @ drop (length s - (w - 3) div 2) s)"
proof -
  have "(w - 3) div 2 \<le> length s" using assms by linarith
  then show ?thesis using assms by (simp add: ElideMiddle_def substr_def size_minus_def Let_def)
qed

text \<open>
  What ElideMiddle gives fits the width. On a terminal with at least three columns the result is
  never wider than the terminal and keeps the start and the end of the text; on a terminal with one
  or two columns any text of fewer than 2 to the 62 bytes ends the program by an exception.
\<close>

theorem ElideMiddle_fits:
  "(3 \<le> w \<longrightarrow> (\<exists>t. ElideMiddle s w = Inr t \<and> length t \<le> w \<and>
      (t = s \<or> (\<exists>k. t = take k s @ ''...'' @ drop (length s - k) s \<and> k \<le> length s)))) \<and>
   (w \<in> {1, 2} \<and> length s < 2 ^ 62 \<longrightarrow> ElideMiddle s w = Inl (Fatal ''std::out_of_range''))"
proof (intro conjI impI)
  assume w: "3 \<le> w"
  show "\<exists>t. ElideMiddle s w = Inr t \<and> length t \<le> w \<and>
      (t = s \<or> (\<exists>k. t = take k s @ ''...'' @ drop (length s - k) s \<and> k \<le> length s))"
  proof (cases "w < length s + 3")
    case True
    let ?k = "(w - 3) div 2"
    have "?k \<le> length s" and "2 * ?k + 3 \<le> w" using True w by linarith+
    then show ?thesis using ElideMiddle_long [OF w True] by (auto intro!: exI [of _ ?k])
  qed (use ElideMiddle_short in auto)
next
  assume a: "w \<in> {1, 2} \<and> length s < 2 ^ 62"
  then have "size_minus w 3 div 2 \<in> {2 ^ 63 - 1}" by (auto simp: size_minus_def)
  then have e: "size_minus w 3 div 2 = 2 ^ 63 - 1" by simp
  have "size_minus (length s) (2 ^ 63 - 1) = 2 ^ 64 + length s - (2 ^ 63 - 1)" using a by (simp add: size_minus_def)
  then have "length s < size_minus (length s) (2 ^ 63 - 1)" by simp
  then show "ElideMiddle s w = Inl (Fatal ''std::out_of_range'')" using a e by (auto simp: ElideMiddle_def substr_def Let_def)
qed

theorem ElideMiddle_fits_witness:
  "ElideMiddle ''a long line of text'' 9 = Inr ''a l...ext'' \<and> ElideMiddle ''text'' 2 = Inl (Fatal ''std::out_of_range'')"
proof
  have "\<exists>t. ElideMiddle ''a long line of text'' 9 = Inr t \<and> length t \<le> 9"
    using ElideMiddle_fits [of 9 "''a long line of text''"] by auto
  then show "ElideMiddle ''a long line of text'' 9 = Inr ''a l...ext''" by (simp add: ElideMiddle_def substr_def size_minus_def)
  show "ElideMiddle ''text'' 2 = Inl (Fatal ''std::out_of_range'')" using ElideMiddle_fits [of 2 "''text''"] by simp
qed

end
