(* ===== verification/Bugreport.thy ===== *)
theory Bugreport
  imports Shell_Client Line_Printer C_Numbers
begin

text \<open>
  bugreport.cpp: the command runs bugreportz on the device, reads its lines as they come, shows the
  progress and in the end pulls the file that was reported. std::stoi throws, which ends the
  program. Running a command on the device gives the packets of its output and its exit code, or
  nothing where it could not be run; Shell\_Client says how packets reach a callback.
\<close>

section \<open>State\<close>

record bug_env =
  bg_base :: libbase
  Basename :: "string \<Rightarrow> string"
  Trim :: "string \<Rightarrow> string"
  EndsWithIgnoreCase :: "string \<Rightarrow> string \<Rightarrow> bool"
  bg_shell :: "string \<Rightarrow> ((nat \<times> string) list \<times> int) option"
  bg_pull :: "string \<Rightarrow> string \<Rightarrow> string \<Rightarrow> bool"     \<comment> \<open>do\_sync\_pull: source, destination, name\<close>
  bg_getcwd :: "string option"
  directory_exists :: "string \<Rightarrow> bool"

record bugreport =
  src_file :: string
  dest_dir :: string
  dest_file :: string
  line_message :: string
  invalid_lines :: "string list"
  show_progress :: bool
  bg_status :: int
  bg_line :: string
  last_progress :: int
  bg_printer :: line_printer
  bg_shown :: "int list"                  \<comment> \<open>the percentages shown so far\<close>
  bg_stderr :: string
  bg_pulls :: "(string \<times> string \<times> string) list"

definition SetLineMessage :: "bug_env \<Rightarrow> string \<Rightarrow> bugreport \<Rightarrow> bugreport" where
  "SetLineMessage env action b = b\<lparr>line_message := action @ '' '' @ Basename env (dest_file b)\<rparr>"

definition new_bugreport :: "bug_env \<Rightarrow> string \<Rightarrow> string \<Rightarrow> bool \<Rightarrow> line_printer \<Rightarrow> bugreport" where
  "new_bugreport env dir f progress lp =
    SetLineMessage env ''generating''
      \<lparr>src_file = [], dest_dir = dir, dest_file = f, line_message = [], invalid_lines = [], show_progress = progress,
       bg_status = 0, bg_line = [], last_progress = 0, bg_printer = lp, bg_shown = [], bg_stderr = [], bg_pulls = []\<rparr>"

definition SetSrcFile :: "bug_env \<Rightarrow> string \<Rightarrow> bugreport \<Rightarrow> bugreport" where
  "SetSrcFile env path b =
    (if dest_dir b \<noteq> [] then SetLineMessage env ''generating'' (b\<lparr>src_file := path, dest_file := Basename env path\<rparr>)
     else b\<lparr>src_file := path\<rparr>)"

section \<open>Progress\<close>

definition npos :: nat where "npos = 2 ^ 64 - 1"

definition rfind :: "string \<Rightarrow> string \<Rightarrow> nat" where
  "rfind s p = (case filter (\<lambda>i. prefix p (drop i s)) [0..<Suc (length s)] of [] \<Rightarrow> npos | is \<Rightarrow> last is)"

text \<open>std::stoi: no number, or one that is not an int, is an exception.\<close>

definition stoi :: "string \<Rightarrow> int res" where
  "stoi s =
    (case sscanf_d s of
       None \<Rightarrow> Inl (Fatal ''std::invalid_argument'')
     | Some _ \<Rightarrow>
         let v = strtol10 s in
         if - (2 ^ 31) \<le> v \<and> v < 2 ^ 31 then Inr v else Inl (Fatal ''std::out_of_range''))"

text \<open>Division of ints, towards zero; a divisor 0 and a product outside of int are faults.\<close>

definition percent_of :: "int \<Rightarrow> int \<Rightarrow> int res" where
  "percent_of progress total_work =
    (let p = progress * 100 in
     if p < - (2 ^ 31) \<or> 2 ^ 31 \<le> p then Inl (Fatal ''signed overflow'')
     else if total_work = 0 then Inl (Fatal ''division by zero'')
     else Inr (if (p < 0) = (total_work < 0) then \<bar>p\<bar> div \<bar>total_work\<bar> else - (\<bar>p\<bar> div \<bar>total_work\<bar>)))"

definition progress_of :: "string \<Rightarrow> int res" where
  "progress_of line =
    (let idx1 = (rfind line ''PROGRESS:'' + 9) mod 2 ^ 64; idx2 = rfind line ''/'' in
     bindR (substr line idx1 (size_minus idx2 idx1)) (\<lambda>a.
     bindR (stoi a) (\<lambda>progress.
     bindR (substr line ((idx2 + 1) mod 2 ^ 64) npos) (\<lambda>b.
     bindR (stoi b) (\<lambda>total_work. percent_of progress total_work)))))"

definition UpdateProgress :: "string \<Rightarrow> int \<Rightarrow> bugreport \<Rightarrow> bugreport res" where
  "UpdateProgress message percent b =
    (let n = dec_of_int percent in
     bindR (lp_Print (''['' @ replicate (3 - length n) (CHR '' '') @ n @ ''%] '' @ message) INFO (bg_printer b)) (\<lambda>lp.
       Inr (b\<lparr>bg_printer := lp, bg_shown := bg_shown b @ [percent]\<rparr>)))"

section \<open>Lines\<close>

definition ProcessLine :: "bug_env \<Rightarrow> string \<Rightarrow> bugreport \<Rightarrow> bugreport res" where
  "ProcessLine env line b =
    (if line = [] then Inr b
     else if StartsWith (bg_base env) line ''BEGIN:'' then Inr (SetSrcFile env (c_str (drop 6 line)) b)
     else if StartsWith (bg_base env) line ''OK:'' then Inr (SetSrcFile env (c_str (drop 3 line)) b)
     else if StartsWith (bg_base env) line ''FAIL:'' then
       Inr (b\<lparr>bg_stderr := bg_stderr b @ ''adb: device failed to take a zipped bugreport: '' @ c_str (drop 5 line) @ [CHR 0x0A], bg_status := -1\<rparr>)
     else if show_progress b \<and> StartsWith (bg_base env) line ''PROGRESS:'' then
       bindR (progress_of line) (\<lambda>percent.
         if percent \<noteq> 0 \<and> percent \<le> last_progress b then Inr b
         else UpdateProgress (line_message b) percent (b\<lparr>last_progress := percent\<rparr>))
     else Inr (b\<lparr>invalid_lines := invalid_lines b @ [line]\<rparr>))"

fun bug_OnStdout :: "bug_env \<Rightarrow> string \<Rightarrow> bugreport \<Rightarrow> bugreport res" where
  "bug_OnStdout env [] b = Inr b"
| "bug_OnStdout env (c # cs) b =
    (if c = CHR 0x0A then bindR (ProcessLine env (bg_line b) b) (\<lambda>b1. bug_OnStdout env cs (b1\<lparr>bg_line := []\<rparr>))
     else bug_OnStdout env cs (b\<lparr>bg_line := bg_line b @ [c]\<rparr>))"

definition bug_OnStderr :: "string \<Rightarrow> bugreport \<Rightarrow> bugreport" where
  "bug_OnStderr buffer b = b\<lparr>bg_stderr := bg_stderr b @ buffer\<rparr>"

definition warn_invalid :: "bugreport \<Rightarrow> bugreport" where
  "warn_invalid b =
    (if invalid_lines b = [] then b
     else b\<lparr>bg_stderr := bg_stderr b @ ''WARNING: bugreportz generated '' @ dec_of_nat (length (invalid_lines b)) @
        '' line(s) with unknown commands, device might not support zipped bugreports:'' @ [CHR 0x0A] @
        concat (map (\<lambda>l. [CHR 0x09] @ c_str l @ [CHR 0x0A]) (invalid_lines b)) @
        ''If the zipped bugreport was not generated, try '' @ [CHR 0x27] @ ''adb bugreport'' @ [CHR 0x27] @ '' instead.'' @ [CHR 0x0A]\<rparr>)"

definition bug_quoted :: "string \<Rightarrow> string" where
  "bug_quoted s = [CHR 0x27] @ s @ [CHR 0x27]"

definition pull_report :: "bug_env \<Rightarrow> bugreport \<Rightarrow> bugreport" where
  "pull_report env b =
    (let destination = (if dest_dir b = [] then dest_file b else c_str (dest_dir b) @ ''/'' @ c_str (dest_file b));
         b1 = SetLineMessage env ''pulling'' b;
         ok = bg_pull env (src_file b) destination (line_message b1) in
     b1\<lparr>bg_pulls := bg_pulls b @ [(src_file b, destination, line_message b1)], bg_status := (if ok then 0 else 1),
        bg_stderr := bg_stderr b @ (if ok then [] else
          ''Bug report finished but could not be copied to '' @ bug_quoted destination @ ''.'' @ [CHR 0x0A] @
          ''Try to run '' @ bug_quoted (''adb pull '' @ src_file b @ '' <directory>'') @ [CHR 0x0A] @
          ''to copy it to a directory that can be written.'' @ [CHR 0x0A])\<rparr>)"

definition bug_Done :: "bug_env \<Rightarrow> bugreport \<Rightarrow> (int \<times> bugreport) res" where
  "bug_Done env b0 =
    bindR (ProcessLine env (bg_line b0) b0) (\<lambda>b1.
      let b = warn_invalid b1 in
      if bg_status b \<noteq> 0 then Inr (bg_status b, b)
      else if src_file b = [] then
        Inr (-1, b\<lparr>bg_stderr := bg_stderr b @ ''bugreportz did not return a '' @ bug_quoted ''OK:'' @ '' or '' @ bug_quoted ''FAIL:'' @ '' line'' @ [CHR 0x0A]\<rparr>)
      else (let b2 = pull_report env b in Inr (bg_status b2, b2)))"

text \<open>The callback; an exception in it ends the program.\<close>

definition bug_callback :: "bug_env \<Rightarrow> bugreport res streams_callback" where
  "bug_callback env =
    \<lparr>OnStdout = (\<lambda>buffer s. bindR s (bug_OnStdout env buffer)),
     OnStderr = (\<lambda>buffer s. bindR s (\<lambda>b. Inr (bug_OnStderr buffer b))),
     Done = (\<lambda>status s. case bindR s (bug_Done env) of Inl e \<Rightarrow> (0, Inl e) | Inr (r, b) \<Rightarrow> (r, Inr b))\<rparr>"

section \<open>The command\<close>

definition SendShellCommand :: "bug_env \<Rightarrow> string \<Rightarrow> 's streams_callback \<Rightarrow> 's \<Rightarrow> int \<times> 's" where
  "SendShellCommand env cmd cb s = (case bg_shell env cmd of None \<Rightarrow> (1, s) | Some (ps, code) \<Rightarrow> Done cb code (fold (deliver cb) ps s))"

text \<open>Where the report goes: the directory and the file, or None where there is no current directory.\<close>

definition bug_destination :: "bug_env \<Rightarrow> string option \<Rightarrow> (string \<times> string) option" where
  "bug_destination env arg =
    map_option (\<lambda>(dir, f).
      (dir, if f = [] then ''bugreport.zip'' else if EndsWithIgnoreCase env f ''.zip'' then f else f @ ''.zip''))
      (case arg of
         None \<Rightarrow> map_option (\<lambda>d. (d, [])) (bg_getcwd env)
       | Some a \<Rightarrow> Some (if directory_exists env a then (a, []) else ([], a)))"

text \<open>\<open>arg\<close> is argv[1]; the result is the exit code and the state of the callback, where it came to it.\<close>

definition DoIt :: "bug_env \<Rightarrow> string list \<Rightarrow> line_printer \<Rightarrow> (int \<times> bugreport option) res" where
  "DoIt env argv lp =
    (if length argv > 2 then Inr (1, None)
     else
       (let arg = (case argv of [_, a] \<Rightarrow> Some a | _ \<Rightarrow> None) in
        case SendShellCommand env ''bugreportz -v'' default_callback
               \<lparr>stdout_str = Some [], stderr_str = Some [], host_stdout = [], host_stderr = []\<rparr> of (status, out) \<Rightarrow>
          let version = Trim env (the (stderr_str out)) in
          if status \<noteq> 0 \<or> version = [] then
            (if arg = None
             then Inr (fst (SendShellCommand env ''bugreport'' default_callback \<lparr>stdout_str = None, stderr_str = None, host_stdout = [], host_stderr = []\<rparr>), None)
             else Inr (if status \<noteq> 0 then status else -1, None))
          else
            (case bug_destination env arg of
               None \<Rightarrow> Inr (1, None)
             | Some (dir, f) \<Rightarrow>
                 let progress = (version \<noteq> ''1.0'') in
                 case SendShellCommand env (if progress then ''bugreportz -p'' else ''bugreportz'') (bug_callback env)
                        (Inr (new_bugreport env dir f progress lp)) of
                   (r, Inl e) \<Rightarrow> Inl e
                 | (r, Inr b) \<Rightarrow> Inr (r, Some b))))"

end
