(* ===== verification/Bugreport_Props.thy ===== *)
theory Bugreport_Props
  imports Bugreport
begin

text \<open>
  What a bug report comes to depends only on the lines of bugreportz, not on the pieces they
  arrive in: the file that is pulled is the last one reported, unless a line says that it failed.
\<close>

section \<open>Lines of a text that grows\<close>

abbreviation line_end :: "char set" where "line_end \<equiv> {CHR 0x0A}"

lemma split_at_snoc:
  "split_at D (t @ [c]) = (if c \<in> D then split_at D t @ [[]] else butlast (split_at D t) @ [last (split_at D t) @ [c]])"
  by (induction t) (auto split: list.splits)

lemma split_at_delim: "c \<in> D \<Longrightarrow> split_at D (t @ c # u) = split_at D t @ split_at D u"
  by (induction t) (auto split: list.splits)

lemma split_at_line_in: "last (split_at line_end t) \<in> set (split_at line_end (t @ CHR 0x0A # u))"
  by (simp add: split_at_delim)

text \<open>What a line means.\<close>

definition line_path :: "string \<Rightarrow> string option" where
  "line_path l = (if prefix ''BEGIN:'' l then Some (c_str (drop 6 l)) else if prefix ''OK:'' l then Some (c_str (drop 3 l)) else None)"

definition is_fail :: "string \<Rightarrow> bool" where
  "is_fail l \<longleftrightarrow> line_path l = None \<and> prefix ''FAIL:'' l"

definition report_path :: "string list \<Rightarrow> string" where
  "report_path ls = foldl (\<lambda>p l. case line_path l of Some q \<Rightarrow> q | None \<Rightarrow> p) [] ls"

definition report_file :: "bug_env \<Rightarrow> string \<Rightarrow> string \<Rightarrow> string list \<Rightarrow> string" where
  "report_file env dir f ls = (if dir = [] then f else foldl (\<lambda>p l. case line_path l of Some q \<Rightarrow> Basename env q | None \<Rightarrow> p) f ls)"

text \<open>Progress lines that can be read, where progress is shown.\<close>

definition good_line :: "bool \<Rightarrow> string \<Rightarrow> bool" where
  "good_line progress l \<longleftrightarrow> (progress \<and> line_path l = None \<and> \<not> is_fail l \<and> prefix ''PROGRESS:'' l \<longrightarrow> (\<exists>v. progress_of l = Inr v))"

section \<open>Printing\<close>

text \<open>Not a terminal of one or two columns.\<close>

definition lp_ok :: "line_printer \<Rightarrow> bool" where
  "lp_ok lp \<longleftrightarrow> smart_terminal lp \<longrightarrow> lp_cols lp \<noteq> Some 1 \<and> lp_cols lp \<noteq> Some 2"

lemma ElideMiddle_returns:
  assumes "3 \<le> w"
  shows "\<exists>t. ElideMiddle s w = Inr t"
proof (cases "w < length s + 3")
  case True
  have e: "size_minus w 3 = w - 3" using assms by (simp add: size_minus_def)
  have "(w - 3) div 2 \<le> length s" using True by linarith
  then have "size_minus (length s) ((w - 3) div 2) \<le> length s" by (simp add: size_minus_def)
  then show ?thesis using True by (simp add: ElideMiddle_def Let_def e substr_def)
qed (simp add: ElideMiddle_def)

lemma lp_Print_ok:
  assumes "lp_ok lp"
  shows "\<exists>lp'. lp_Print s INFO lp = Inr lp' \<and> lp_ok lp'"
proof -
  have "\<exists>t. (case lp_cols lp of Some w \<Rightarrow> if w \<noteq> 0 then ElideMiddle s w else Inr s | None \<Rightarrow> Inr s) = Inr t" if s: "smart_terminal lp"
  proof (cases "lp_cols lp")
    case (Some w)
    then have "w = 0 \<or> 3 \<le> w" using assms s by (auto simp: lp_ok_def)
    then show ?thesis using Some ElideMiddle_returns by auto
  qed simp
  then show ?thesis using assms by (auto simp: lp_Print_def Let_def lp_write_def lp_ok_def)
qed

section \<open>Progress goes forward\<close>

text \<open>Each percent_of is larger than the one before, or 0.\<close>

fun forward :: "int \<Rightarrow> int list \<Rightarrow> bool" where
  "forward p [] = True"
| "forward p (x # xs) = ((x = 0 \<or> p < x) \<and> forward x xs)"

lemma forward_snoc: "forward p (xs @ [x]) \<longleftrightarrow> forward p xs \<and> (x = 0 \<or> last (p # xs) < x)"
  by (induction p xs rule: forward.induct) auto

section \<open>The state follows the text\<close>

definition tracks :: "bug_env \<Rightarrow> string \<Rightarrow> string \<Rightarrow> bool \<Rightarrow> string list \<Rightarrow> bugreport \<Rightarrow> bool" where
  "tracks env dir f progress ls b \<longleftrightarrow>
    src_file b = report_path ls \<and> dest_dir b = dir \<and> dest_file b = report_file env dir f ls \<and>
    bg_status b = (if \<exists>l \<in> set ls. is_fail l then -1 else 0) \<and> bg_pulls b = [] \<and> show_progress b = progress \<and>
    lp_ok (bg_printer b) \<and> forward 0 (bg_shown b) \<and> last_progress b = last (0 # bg_shown b)"

lemma ProcessLine_tracks:
  assumes B: "libbase_spec (bg_base env)" and t: "tracks env dir f progress ls b" and g: "good_line progress l"
  shows "\<exists>b'. ProcessLine env l b = Inr b' \<and> tracks env dir f progress (ls @ [l]) b' \<and> bg_line b' = bg_line b"
proof -
  note sw = libbase_spec.StartsWith_iff [OF B]
  consider (empty) "l = []" | (path) q where "l \<noteq> []" "line_path l = Some q" | (fail) "l \<noteq> []" "is_fail l"
    | (progress) "l \<noteq> []" "line_path l = None" "\<not> is_fail l" "progress" "prefix ''PROGRESS:'' l"
    | (other) "l \<noteq> []" "line_path l = None" "\<not> is_fail l" "\<not> (progress \<and> prefix ''PROGRESS:'' l)" by blast
  then show ?thesis
  proof cases
    case empty
    then have "ProcessLine env l b = Inr b" "line_path l = None" "\<not> is_fail l" by (simp_all add: ProcessLine_def line_path_def is_fail_def)
    then show ?thesis using t by (auto simp: tracks_def report_path_def report_file_def)
  next
    case path
    then have "ProcessLine env l b = Inr (SetSrcFile env q b)" by (auto simp: ProcessLine_def line_path_def sw split: if_splits)
    moreover have "\<not> is_fail l" using path by (simp add: is_fail_def)
    ultimately show ?thesis
      using t path by (auto simp: tracks_def report_path_def report_file_def SetSrcFile_def SetLineMessage_def)
  next
    case fail
    then have n: "line_path l = None" "prefix ''FAIL:'' l" by (auto simp: is_fail_def)
    then have "\<not> prefix ''BEGIN:'' l" "\<not> prefix ''OK:'' l" by (auto simp: line_path_def split: if_splits)
    then show ?thesis
      using t fail n by (auto simp: ProcessLine_def sw tracks_def report_path_def report_file_def)
  next
    case progress
    then have n: "\<not> prefix ''BEGIN:'' l" "\<not> prefix ''OK:'' l" "\<not> prefix ''FAIL:'' l" by (auto simp: line_path_def is_fail_def split: if_splits)
    from g progress obtain v where v: "progress_of l = Inr v" by (auto simp: good_line_def)
    have sp: "show_progress b" using t progress by (simp add: tracks_def)
    have b: "tracks env dir f True (ls @ [l]) b" using t progress by (auto simp: tracks_def report_path_def report_file_def)
    show ?thesis
    proof (cases "v \<noteq> 0 \<and> v \<le> last_progress b")
      case True
      then show ?thesis using n v sp progress b by (auto simp: ProcessLine_def sw)
    next
      case False
      obtain lp where lp: "lp_Print (''['' @ replicate (3 - length (dec_of_int v)) (CHR '' '') @ dec_of_int v @ ''%] '' @ line_message b) INFO (bg_printer b) = Inr lp" "lp_ok lp"
        using lp_Print_ok t unfolding tracks_def by blast
      let ?b = "b\<lparr>last_progress := v, bg_printer := lp, bg_shown := bg_shown b @ [v]\<rparr>"
      have "ProcessLine env l b = UpdateProgress (line_message b) v (b\<lparr>last_progress := v\<rparr>)"
        unfolding ProcessLine_def sw using n sp progress by (simp add: v if_not_P [OF False])
      then have "ProcessLine env l b = Inr ?b" using lp by (simp add: UpdateProgress_def Let_def)
      moreover have "tracks env dir f True (ls @ [l]) ?b" using b lp False by (auto simp: tracks_def forward_snoc)
      ultimately show ?thesis using progress by simp
    qed
  next
    case other
    then have n: "\<not> prefix ''BEGIN:'' l" "\<not> prefix ''OK:'' l" "\<not> prefix ''FAIL:'' l" by (auto simp: line_path_def is_fail_def split: if_splits)
    then have "ProcessLine env l b = Inr (b\<lparr>invalid_lines := invalid_lines b @ [l]\<rparr>)"
      using other t by (auto simp: ProcessLine_def sw tracks_def)
    then show ?thesis using t other by (auto simp: tracks_def report_path_def report_file_def)
  qed
qed

text \<open>The complete lines of the text are processed, the rest is in \<open>line_\<close>.\<close>

definition follows :: "bug_env \<Rightarrow> string \<Rightarrow> string \<Rightarrow> bool \<Rightarrow> string \<Rightarrow> bugreport \<Rightarrow> bool" where
  "follows env dir f progress t b \<longleftrightarrow> tracks env dir f progress (butlast (split_at line_end t)) b \<and> bg_line b = last (split_at line_end t)"

lemma OnStdout_follows:
  "libbase_spec (bg_base env) \<Longrightarrow> follows env dir f progress t b \<Longrightarrow> \<forall>l \<in> set (split_at line_end (t @ cs @ u)). good_line progress l \<Longrightarrow>
   \<exists>b'. bug_OnStdout env cs b = Inr b' \<and> follows env dir f progress (t @ cs) b'"
proof (induction cs arbitrary: t b)
  case (Cons c cs)
  have g: "\<forall>l \<in> set (split_at line_end ((t @ [c]) @ cs @ u)). good_line progress l" using Cons.prems(3) by simp
  show ?case
  proof (cases "c = CHR 0x0A")
    case True
    have l: "bg_line b = last (split_at line_end t)" and tr: "tracks env dir f progress (butlast (split_at line_end t)) b" using Cons.prems(2) by (auto simp: follows_def)
    have "last (split_at line_end t) \<in> set (split_at line_end (t @ c # cs @ u))"
      using split_at_line_in [of t "cs @ u"] True by simp
    then have "good_line progress (bg_line b)" using Cons.prems(3) l by simp
    from ProcessLine_tracks [OF Cons.prems(1) tr this] l obtain b1 where
      b1: "ProcessLine env (bg_line b) b = Inr b1" "tracks env dir f progress (split_at line_end t) b1" by auto
    have "follows env dir f progress (t @ [c]) (b1\<lparr>bg_line := []\<rparr>)"
      using b1(2) True by (simp add: follows_def split_at_snoc tracks_def)
    from Cons.IH [OF Cons.prems(1) this g] show ?thesis using b1(1) True by simp
  next
    case False
    then have "follows env dir f progress (t @ [c]) (b\<lparr>bg_line := bg_line b @ [c]\<rparr>)"
      using Cons.prems(2) by (simp add: follows_def split_at_snoc tracks_def)
    from Cons.IH [OF Cons.prems(1) this g] show ?thesis using False by simp
  qed
qed simp

text \<open>Any packets: what they carry for stdout counts.\<close>

lemma deliver_follows:
  assumes B: "libbase_spec (bg_base env)"
  shows "follows env dir f progress t b \<Longrightarrow> \<forall>l \<in> set (split_at line_end (t @ data_of kIdStdout ps)). good_line progress l \<Longrightarrow>
   \<exists>b'. fold (deliver (bug_callback env)) ps (Inr b) = Inr b' \<and> follows env dir f progress (t @ data_of kIdStdout ps) b'"
proof (induction ps arbitrary: t b)
  case (Cons p ps)
  obtain i d where p: "p = (i, d)" by force
  have c: "data_of kIdStdout (p # ps) = (if i = kIdStdout then d else []) @ data_of kIdStdout ps" by (simp add: data_of_def p)
  have "\<exists>b1. deliver (bug_callback env) p (Inr b) = Inr b1 \<and> follows env dir f progress (t @ (if i = kIdStdout then d else [])) b1"
  proof (cases "i = kIdStdout")
    case True
    then show ?thesis using OnStdout_follows [OF B Cons.prems(1), of d "data_of kIdStdout ps"] Cons.prems(2) c p
      by (simp add: deliver_def bug_callback_def)
  next
    case False
    then show ?thesis using Cons.prems(1) p
      by (auto simp: deliver_def bug_callback_def bug_OnStderr_def follows_def tracks_def)
  qed
  then obtain b1 where b1: "deliver (bug_callback env) p (Inr b) = Inr b1" "follows env dir f progress (t @ (if i = kIdStdout then d else [])) b1" by blast
  have "\<forall>l \<in> set (split_at line_end ((t @ (if i = kIdStdout then d else [])) @ data_of kIdStdout ps)). good_line progress l"
    using Cons.prems(2) unfolding c by (simp only: append_assoc)
  from Cons.IH [OF b1(2) this] show ?case using b1(1) c by simp
qed simp

text \<open>
  C20: a bug report comes to what the lines of bugreportz say, however the device cuts its output
  into packets and whatever it writes to stderr in between. The command gives -1 when a line says
  FAIL: or none names a file; otherwise exactly one file is pulled, the last one named by BEGIN: or
  OK:, to the destination the user asked for, and the command gives 0 when that worked and 1 when
  not. The percentages shown only go forward or start again at 0. This needs progress lines that
  can be read and a terminal that is not one or two columns wide.
\<close>

theorem bugreport_outcome:
  assumes B: "libbase_spec (bg_base env)" and sh: "bg_shell env cmd = Some (ps, code)" and lp: "lp_ok lp"
    and ls: "ls = split_at line_end (data_of kIdStdout ps)" and good: "\<forall>l \<in> set ls. good_line progress l"
    and dest: "dst = (if dir = [] then report_file env dir f ls else c_str dir @ ''/'' @ c_str (report_file env dir f ls))"
    and name: "nm = ''pulling '' @ Basename env (report_file env dir f ls)"
  shows "\<exists>b. SendShellCommand env cmd (bug_callback env) (Inr (new_bugreport env dir f progress lp)) =
      (if (\<exists>l \<in> set ls. is_fail l) \<or> report_path ls = [] then -1 else if bg_pull env (report_path ls) dst nm then 0 else 1, Inr b) \<and>
    bg_pulls b = (if (\<exists>l \<in> set ls. is_fail l) \<or> report_path ls = [] then [] else [(report_path ls, dst, nm)]) \<and> forward 0 (bg_shown b)"
proof -
  let ?b0 = "new_bugreport env dir f progress lp"
  have "follows env dir f progress [] ?b0"
    using lp by (simp add: follows_def tracks_def new_bugreport_def SetLineMessage_def report_path_def report_file_def)
  from deliver_follows [OF B this] good ls obtain b1 where b1: "fold (deliver (bug_callback env)) ps (Inr ?b0) = Inr b1"
    "follows env dir f progress (data_of kIdStdout ps) b1" by auto
  have l: "bg_line b1 = last ls" and tr: "tracks env dir f progress (butlast ls) b1" using b1(2) ls by (auto simp: follows_def)
  have ne: "ls \<noteq> []" using ls by simp
  have "good_line progress (last ls)" using good ne by simp
  from ProcessLine_tracks [OF B tr this] ne l obtain b2 where
    b2: "ProcessLine env (bg_line b1) b1 = Inr b2" "tracks env dir f progress ls b2" by auto
  have tr3: "tracks env dir f progress ls (warn_invalid b2)" using b2(2) by (simp add: warn_invalid_def tracks_def)
  let ?b3 = "warn_invalid b2"
  have run: "SendShellCommand env cmd (bug_callback env) (Inr ?b0) = (case bug_Done env b1 of Inl e \<Rightarrow> (0, Inl e) | Inr (r, b) \<Rightarrow> (r, Inr b))"
    using sh b1(1) by (simp add: SendShellCommand_def bug_callback_def)
  show ?thesis
  proof (cases "(\<exists>l \<in> set ls. is_fail l) \<or> report_path ls = []")
    case True
    then have "\<exists>b. bug_Done env b1 = Inr (-1, b) \<and> bg_pulls b = [] \<and> forward 0 (bg_shown b)"
      using b2(1) tr3 by (auto simp: bug_Done_def Let_def tracks_def)
    then show ?thesis using run True by auto
  next
    case False
    then have d: "bug_Done env b1 = Inr (bg_status (pull_report env ?b3), pull_report env ?b3)"
      using b2(1) tr3 by (auto simp: bug_Done_def Let_def tracks_def)
    have "bg_status (pull_report env ?b3) = (if bg_pull env (report_path ls) dst nm then 0 else 1)"
      "bg_pulls (pull_report env ?b3) = [(report_path ls, dst, nm)]" "bg_shown (pull_report env ?b3) = bg_shown ?b3"
      using tr3 dest name by (simp_all add: pull_report_def Let_def SetLineMessage_def tracks_def)
    then show ?thesis using run d False tr3 by (simp add: tracks_def)
  qed
qed

definition demo_bug_env :: bug_env where
  "demo_bug_env = \<lparr>bg_base = libbase_ref, Basename = (\<lambda>s. last (split_at {CHR ''/''} s)), Trim = (\<lambda>s. s), EndsWithIgnoreCase = (\<lambda>s t. suffix t s),
     bg_shell = (\<lambda>_. Some ([(1, ''BEG''), (2, ''x''), (1, ''IN:/r/b.zip''), (1, [CHR 0x0A]), (1, ''PROGRESS:5/10''), (1, CHR 0x0A # ''OK:/r/c.zip'')], 0)),
     bg_pull = (\<lambda>_ _ _. True), bg_getcwd = Some ''/home'', directory_exists = (\<lambda>_. True)\<rparr>"

theorem bugreport_outcome_witness:
  "\<exists>b. SendShellCommand demo_bug_env ''bugreportz -p'' (bug_callback demo_bug_env)
      (Inr (new_bugreport demo_bug_env ''/home'' ''bugreport.zip'' True (new_line_printer False None None))) = (0, Inr b) \<and>
    bg_pulls b = [(''/r/c.zip'', ''/home/c.zip'', ''pulling c.zip'')]"
proof -
  let ?ls = "[''BEGIN:/r/b.zip'', ''PROGRESS:5/10'', ''OK:/r/c.zip'']"
  let ?ps = "[(1, ''BEG''), (2, ''x''), (1, ''IN:/r/b.zip''), (1, [CHR 0x0A]), (1, ''PROGRESS:5/10''), (1, CHR 0x0A # ''OK:/r/c.zip'')]"
  have B: "libbase_spec (bg_base demo_bug_env)" using base_ref.libbase_spec_axioms by (simp add: demo_bug_env_def)
  have sh: "bg_shell demo_bug_env ''bugreportz -p'' = Some (?ps, 0)" by (simp add: demo_bug_env_def)
  have lp: "lp_ok (new_line_printer False None None)" by (simp add: lp_ok_def new_line_printer_def)
  have ls: "?ls = split_at line_end (data_of kIdStdout ?ps)" by (simp add: data_of_def kIdStdout_def)
  have r: "rfind ''PROGRESS:5/10'' ''PROGRESS:'' = 0" "rfind ''PROGRESS:5/10'' ''/'' = 10" "stoi ''5'' = Inr 5" "stoi ''10'' = Inr 10"
    by code_simp+
  have pr: "progress_of ''PROGRESS:5/10'' = Inr 50"
    by (simp add: progress_of_def Let_def r substr_def size_minus_def npos_def percent_of_def)
  have good: "\<forall>l \<in> set ?ls. good_line True l" using pr by (simp add: good_line_def line_path_def)
  have f: "\<not> (\<exists>l \<in> set ?ls. is_fail l)" by (simp add: is_fail_def line_path_def)
  have rp: "report_path ?ls = ''/r/c.zip''" by (simp add: report_path_def line_path_def c_str_def)
  have rf: "report_file demo_bug_env ''/home'' ''bugreport.zip'' ?ls = ''c.zip''"
    by (simp add: report_file_def line_path_def c_str_def demo_bug_env_def)
  have e: "bg_pull demo_bug_env a b c" "Basename demo_bug_env ''c.zip'' = ''c.zip''" for a b c by (simp_all add: demo_bug_env_def)
  have c: "c_str ''/home'' = ''/home''" "c_str ''c.zip'' = ''c.zip''" by (simp_all add: c_str_def)
  from bugreport_outcome [OF B sh lp ls good refl refl, of "''/home''" "''bugreport.zip''"]
  show ?thesis unfolding rf rp e(2) unfolding if_P [OF e(1)] unfolding c
    by (simp only: list.distinct append.simps f if_False simp_thms) blast
qed

end
