(* ===== verification/Run_Queue.thy ===== *)
theory Run_Queue
  imports Adb_Prelude
begin

text \<open>
  The run queue of fdevent.cpp: any thread puts a function into a queue under a mutex and writes a
  byte to a descriptor; the main thread finds the descriptor readable, takes the bytes out and runs
  what is in the queue. Each critical section is one step; the read of the main thread is a step of
  its own, because it happens before the mutex is taken.
\<close>

datatype main_pc = Polling | Emptied

record 'f run_state =
  run_queue :: "'f list"
  run_queue_notify_fd :: bool          \<comment> \<open>whether it is set up\<close>
  notify_bytes :: nat                  \<comment> \<open>written to it and not yet read\<close>
  run_main :: main_pc
  run_done :: "'f list"                \<comment> \<open>what was run, in order\<close>
  run_posted :: "'f list"              \<comment> \<open>what was ever put into the queue\<close>

definition run_start :: "'f run_state" where
  "run_start = \<lparr>run_queue = [], run_queue_notify_fd = False, notify_bytes = 0, run_main = Polling, run_done = [], run_posted = []\<rparr>"

text \<open>
  The functions run while the mutex is held: one that posts a function itself (\<open>posts f\<close>) takes the
  mutex again and never returns.
\<close>

fun run_all :: "('f \<Rightarrow> bool) \<Rightarrow> 'f list \<Rightarrow> 'f list \<Rightarrow> 'f list res" where
  "run_all posts [] acc = Inr acc"
| "run_all posts (f # fs) acc = (if posts f then Inl Spin else run_all posts fs (acc @ [f]))"

definition fdevent_run_flush :: "('f \<Rightarrow> bool) \<Rightarrow> 'f run_state \<Rightarrow> 'f run_state res" where
  "fdevent_run_flush posts S =
    bindR (run_all posts (run_queue S) (run_done S)) (\<lambda>acc. Inr (S\<lparr>run_done := acc, run_queue := []\<rparr>))"

text \<open>The read of fdevent\_run\_func takes at most 1024 bytes; \<open>ok\<close> is whether it succeeds.\<close>

definition run_func_read :: "bool \<Rightarrow> 'f run_state \<Rightarrow> 'f run_state res" where
  "run_func_read ok S =
    (if \<not> ok then Inl (Fatal ''failed to empty run queue notify fd'')
     else Inr (S\<lparr>notify_bytes := notify_bytes S - 1024, run_main := Emptied\<rparr>))"

definition run_func_flush :: "('f \<Rightarrow> bool) \<Rightarrow> 'f run_state \<Rightarrow> 'f run_state res" where
  "run_func_flush posts S = bindR (fdevent_run_flush posts S) (\<lambda>S1. Inr (S1\<lparr>run_main := Polling\<rparr>))"

text \<open>The whole handler, when no other thread comes between its two parts.\<close>

definition fdevent_run_func :: "('f \<Rightarrow> bool) \<Rightarrow> bool \<Rightarrow> bool \<Rightarrow> 'f run_state \<Rightarrow> 'f run_state res" where
  "fdevent_run_func posts readable ok S =
    bindR (checkR readable ''ev & FDE_READ'') (\<lambda>_. bindR (run_func_read ok S) (run_func_flush posts))"

definition fdevent_run_setup :: "('f \<Rightarrow> bool) \<Rightarrow> bool \<Rightarrow> 'f run_state \<Rightarrow> 'f run_state res" where
  "fdevent_run_setup posts pair_ok S =
    bindR (checkR (\<not> run_queue_notify_fd S) ''run_queue_notify_fd.get() == -1'') (\<lambda>_.
      if \<not> pair_ok then Inl (Fatal ''failed to create run queue notify socketpair'')
      else fdevent_run_flush posts (S\<lparr>run_queue_notify_fd := True, notify_bytes := 0\<rparr>))"

definition fdevent_run_on_main_thread :: "'f \<Rightarrow> bool \<Rightarrow> 'f run_state \<Rightarrow> 'f run_state res" where
  "fdevent_run_on_main_thread f ok S =
    (let S1 = S\<lparr>run_queue := run_queue S @ [f], run_posted := run_posted S @ [f]\<rparr> in
     if run_queue_notify_fd S then
       (if \<not> ok then Inl (Fatal ''failed to write to run queue notify fd'') else Inr (S1\<lparr>notify_bytes := Suc (notify_bytes S)\<rparr>))
     else Inr S1)"

section \<open>Every interleaving\<close>

inductive run_step :: "('f \<Rightarrow> bool) \<Rightarrow> 'f run_state \<Rightarrow> 'f run_state \<Rightarrow> bool" for posts where
  post: "fdevent_run_on_main_thread f ok S = Inr S' \<Longrightarrow> run_step posts S S'"
| set_up: "fdevent_run_setup posts pair_ok S = Inr S' \<Longrightarrow> run_main S = Polling \<Longrightarrow> run_step posts S S'"
| wake: "run_queue_notify_fd S \<Longrightarrow> 0 < notify_bytes S \<Longrightarrow> run_main S = Polling \<Longrightarrow> run_func_read ok S = Inr S' \<Longrightarrow> run_step posts S S'"
| flush: "run_main S = Emptied \<Longrightarrow> run_func_flush posts S = Inr S' \<Longrightarrow> run_step posts S S'"

inductive run_reachable :: "('f \<Rightarrow> bool) \<Rightarrow> 'f run_state \<Rightarrow> bool" for posts where
  start: "run_reachable posts run_start"
| step: "run_reachable posts S \<Longrightarrow> run_step posts S S' \<Longrightarrow> run_reachable posts S'"

inductive_cases run_stepE: "run_step posts S S'"

lemma run_all_eq: "run_all posts fs acc = Inr acc' \<Longrightarrow> acc' = acc @ fs"
  by (induction posts fs acc rule: run_all.induct) (auto split: if_splits)

lemma run_all_returns: "\<forall>f \<in> set fs. \<not> posts f \<Longrightarrow> run_all posts fs acc = Inr (acc @ fs)"
  by (induction posts fs acc rule: run_all.induct) auto

definition run_inv :: "'f run_state \<Rightarrow> bool" where
  "run_inv S \<longleftrightarrow> run_done S @ run_queue S = run_posted S \<and>
     (run_queue_notify_fd S \<and> run_queue S \<noteq> [] \<longrightarrow> 0 < notify_bytes S \<or> run_main S = Emptied)"

lemma run_step_inv:
  assumes "run_step posts S S'" and "run_inv S"
  shows "run_inv S'"
  using assms(1)
proof (rule run_stepE)
  fix ok assume "run_func_read ok S = Inr S'"
  then show ?thesis using assms(2) by (auto simp: run_func_read_def run_inv_def split: if_splits)
qed (use assms(2) in \<open>auto simp: fdevent_run_on_main_thread_def fdevent_run_setup_def run_func_flush_def fdevent_run_flush_def
    checkR_def run_inv_def Let_def split: if_splits dest!: run_all_eq\<close>)

text \<open>
  C4: no function given to the main thread is lost, run twice or run out of order, in any
  interleaving of the threads that post them with the main thread: what was run is always what was
  posted without what is in the queue. No wakeup is lost either: while the main thread polls and
  the queue is not empty there is a byte to read; and when it takes its turn, everything posted so
  far has been run. Functions that post others themselves are excluded, as they would wait for ever.
\<close>

theorem run_queue_delivers:
  assumes "run_reachable posts S"
  shows "run_done S @ run_queue S = run_posted S \<and>
    (run_queue_notify_fd S \<and> run_queue S \<noteq> [] \<and> run_main S = Polling \<longrightarrow> 0 < notify_bytes S) \<and>
    ((\<forall>f \<in> set (run_posted S). \<not> posts f) \<longrightarrow>
      (\<exists>S'. fdevent_run_func posts True True S = Inr S' \<and> run_done S' = run_posted S \<and> run_queue S' = []))"
proof -
  have inv: "run_inv S" using assms
  proof induction
    case start
    show ?case by (simp add: run_inv_def run_start_def)
  qed (rule run_step_inv)
  then have "run_posted S = run_done S @ run_queue S" by (simp add: run_inv_def)
  then have "set (run_queue S) \<subseteq> set (run_posted S)" by simp
  then have "run_all posts (run_queue S) (run_done S) = Inr (run_done S @ run_queue S)" if "\<forall>f \<in> set (run_posted S). \<not> posts f"
    using that by (intro run_all_returns) blast
  then show ?thesis using inv
    by (auto simp: run_inv_def fdevent_run_func_def checkR_def run_func_read_def run_func_flush_def fdevent_run_flush_def)
qed

theorem run_queue_delivers_witness:
  "\<exists>S S'. run_reachable (\<lambda>f. f = (9 :: nat)) S \<and> run_queue S = [2] \<and> fdevent_run_func (\<lambda>f. f = 9) True True S = Inr S' \<and> run_done S' = [1, 2]"
proof -
  let ?p = "\<lambda>f. f = (9 :: nat)"
  let ?S1 = "(run_start :: nat run_state)\<lparr>run_queue := [1], run_posted := [1]\<rparr>"
  let ?S2 = "?S1\<lparr>run_queue := [], run_queue_notify_fd := True, run_done := [1]\<rparr>"
  let ?S3 = "?S2\<lparr>run_queue := [2], run_posted := [1, 2], notify_bytes := 1\<rparr>"
  have 1: "run_reachable ?p ?S1"
    by (rule run_reachable.step [OF run_reachable.start], rule run_step.post [of 1 True]) (simp add: fdevent_run_on_main_thread_def run_start_def)
  have 2: "run_reachable ?p ?S2"
    by (rule run_reachable.step [OF 1], rule run_step.set_up [of _ True])
      (simp_all add: fdevent_run_setup_def fdevent_run_flush_def checkR_def run_start_def)
  have 3: "run_reachable ?p ?S3"
    by (rule run_reachable.step [OF 2], rule run_step.post [of 2 True]) (simp add: fdevent_run_on_main_thread_def run_start_def Let_def)
  from run_queue_delivers [OF 3] obtain S' where "fdevent_run_func ?p True True ?S3 = Inr S'" "run_done S' = [1, 2]" by auto
  moreover have "run_queue ?S3 = [2]" by simp
  ultimately show ?thesis using 3 by blast
qed

end
