(* ===== verification/Sync_Protocol.thy ===== *)
theory Sync_Protocol
  imports Packets C_Numbers
begin

text \<open>
  file\_sync\_service.h: the messages of the sync protocol as the packed structures they are on a
  little-endian machine; sysdeps/errno.cpp: error numbers on the wire.
\<close>

section \<open>Identifiers\<close>

definition MKID :: "char \<Rightarrow> char \<Rightarrow> char \<Rightarrow> char \<Rightarrow> u32" where
  "MKID a b c d = of_char a OR push_bit 8 (of_char b) OR push_bit 16 (of_char c) OR push_bit 24 (of_char d)"

definition ID_LSTAT_V1 :: u32 where "ID_LSTAT_V1 = MKID (CHR ''S'') (CHR ''T'') (CHR ''A'') (CHR ''T'')"
definition ID_STAT_V2 :: u32 where "ID_STAT_V2 = MKID (CHR ''S'') (CHR ''T'') (CHR ''A'') (CHR ''2'')"
definition ID_LSTAT_V2 :: u32 where "ID_LSTAT_V2 = MKID (CHR ''L'') (CHR ''S'') (CHR ''T'') (CHR ''2'')"
definition ID_LIST :: u32 where "ID_LIST = MKID (CHR ''L'') (CHR ''I'') (CHR ''S'') (CHR ''T'')"
definition ID_SEND :: u32 where "ID_SEND = MKID (CHR ''S'') (CHR ''E'') (CHR ''N'') (CHR ''D'')"
definition ID_RECV :: u32 where "ID_RECV = MKID (CHR ''R'') (CHR ''E'') (CHR ''C'') (CHR ''V'')"
definition ID_DENT :: u32 where "ID_DENT = MKID (CHR ''D'') (CHR ''E'') (CHR ''N'') (CHR ''T'')"
definition ID_DONE :: u32 where "ID_DONE = MKID (CHR ''D'') (CHR ''O'') (CHR ''N'') (CHR ''E'')"
definition ID_DATA :: u32 where "ID_DATA = MKID (CHR ''D'') (CHR ''A'') (CHR ''T'') (CHR ''A'')"
definition ID_OKAY :: u32 where "ID_OKAY = MKID (CHR ''O'') (CHR ''K'') (CHR ''A'') (CHR ''Y'')"
definition ID_FAIL :: u32 where "ID_FAIL = MKID (CHR ''F'') (CHR ''A'') (CHR ''I'') (CHR ''L'')"
definition ID_QUIT :: u32 where "ID_QUIT = MKID (CHR ''Q'') (CHR ''U'') (CHR ''I'') (CHR ''T'')"

lemmas sync_ids = ID_LSTAT_V1_def ID_STAT_V2_def ID_LSTAT_V2_def ID_LIST_def ID_SEND_def ID_RECV_def ID_DENT_def
  ID_DONE_def ID_DATA_def ID_OKAY_def ID_FAIL_def ID_QUIT_def

lemma sync_ids_distinct:
  "distinct [ID_LSTAT_V1, ID_STAT_V2, ID_LSTAT_V2, ID_LIST, ID_SEND, ID_RECV, ID_DENT, ID_DONE, ID_DATA, ID_OKAY,
     ID_FAIL, ID_QUIT]"
  by code_simp

lemmas sync_ids_neq [simp] = sync_ids_distinct [simplified]

definition SYNC_DATA_MAX :: nat where "SYNC_DATA_MAX = 64 * 1024"

section \<open>Messages\<close>

type_synonym u64 = "64 word"

text \<open>SyncRequest, and the data and status messages, which have the same layout.\<close>

definition data_bytes :: "u32 \<Rightarrow> u32 \<Rightarrow> string" where
  "data_bytes i n = le32 (unat i) @ le32 (unat n)"

definition data_of_bytes :: "string \<Rightarrow> u32 \<times> u32" where
  "data_of_bytes s = (word_at 0 s, word_at 4 s)"

definition le64 :: "u64 \<Rightarrow> string" where "le64 w = le_bytes 8 (unat w)"

definition word64_at :: "nat \<Rightarrow> string \<Rightarrow> u64" where
  "word64_at i s = of_nat (le_val (take 8 (drop i s)))"

record dent =
  d_id :: u32
  d_mode :: u32
  d_size :: u32
  d_time :: u32
  d_namelen :: u32

definition dent_bytes :: "dent \<Rightarrow> string" where
  "dent_bytes d = le32 (unat (d_id d)) @ le32 (unat (d_mode d)) @ le32 (unat (d_size d)) @ le32 (unat (d_time d)) @
    le32 (unat (d_namelen d))"

definition dent_of_bytes :: "string \<Rightarrow> dent" where
  "dent_of_bytes s = \<lparr>d_id = word_at 0 s, d_mode = word_at 4 s, d_size = word_at 8 s, d_time = word_at 12 s,
     d_namelen = word_at 16 s\<rparr>"

record stat_v1 =
  v1_id :: u32
  v1_mode :: u32
  v1_size :: u32
  v1_time :: u32

definition stat_v1_bytes :: "stat_v1 \<Rightarrow> string" where
  "stat_v1_bytes m = le32 (unat (v1_id m)) @ le32 (unat (v1_mode m)) @ le32 (unat (v1_size m)) @ le32 (unat (v1_time m))"

definition stat_v1_of_bytes :: "string \<Rightarrow> stat_v1" where
  "stat_v1_of_bytes s = \<lparr>v1_id = word_at 0 s, v1_mode = word_at 4 s, v1_size = word_at 8 s, v1_time = word_at 12 s\<rparr>"

record stat_v2 =
  v2_id :: u32
  v2_error :: u32
  v2_dev :: u64
  v2_ino :: u64
  v2_mode :: u32
  v2_nlink :: u32
  v2_uid :: u32
  v2_gid :: u32
  v2_size :: u64
  v2_atime :: u64
  v2_mtime :: u64
  v2_ctime :: u64

definition stat_v2_bytes :: "stat_v2 \<Rightarrow> string" where
  "stat_v2_bytes m =
    le32 (unat (v2_id m)) @ le32 (unat (v2_error m)) @ le64 (v2_dev m) @ le64 (v2_ino m) @ le32 (unat (v2_mode m)) @
    le32 (unat (v2_nlink m)) @ le32 (unat (v2_uid m)) @ le32 (unat (v2_gid m)) @ le64 (v2_size m) @ le64 (v2_atime m) @
    le64 (v2_mtime m) @ le64 (v2_ctime m)"

definition stat_v2_of_bytes :: "string \<Rightarrow> stat_v2" where
  "stat_v2_of_bytes s =
    \<lparr>v2_id = word_at 0 s, v2_error = word_at 4 s, v2_dev = word64_at 8 s, v2_ino = word64_at 16 s, v2_mode = word_at 24 s,
     v2_nlink = word_at 28 s, v2_uid = word_at 32 s, v2_gid = word_at 36 s, v2_size = word64_at 40 s,
     v2_atime = word64_at 48 s, v2_mtime = word64_at 56 s, v2_ctime = word64_at 64 s\<rparr>"

text \<open>\<open>struct stat\<close>, with 64-bit sizes and times.\<close>

record stat =
  st_dev :: u64
  st_ino :: u64
  st_mode :: u32
  st_nlink :: u64
  st_uid :: u32
  st_gid :: u32
  st_size :: u64
  st_atime :: u64
  st_mtime :: u64
  st_ctime :: u64

definition zero_stat :: stat where
  "zero_stat = \<lparr>st_dev = 0, st_ino = 0, st_mode = 0, st_nlink = 0, st_uid = 0, st_gid = 0, st_size = 0, st_atime = 0,
     st_mtime = 0, st_ctime = 0\<rparr>"

text \<open>The kinds of files in a mode.\<close>

definition S_IFMT :: u32 where "S_IFMT = 0xF000"
definition S_IFLNK :: u32 where "S_IFLNK = 0xA000"
definition S_IFREG :: u32 where "S_IFREG = 0x8000"
definition S_IFDIR :: u32 where "S_IFDIR = 0x4000"

definition S_ISLNK :: "u32 \<Rightarrow> bool" where "S_ISLNK m \<longleftrightarrow> m AND S_IFMT = S_IFLNK"
definition S_ISREG :: "u32 \<Rightarrow> bool" where "S_ISREG m \<longleftrightarrow> m AND S_IFMT = S_IFREG"
definition S_ISDIR :: "u32 \<Rightarrow> bool" where "S_ISDIR m \<longleftrightarrow> m AND S_IFMT = S_IFDIR"

section \<open>Messages as bytes and back\<close>

lemma length_messages [simp]:
  "length (data_bytes i n) = 8" "length (le64 w) = 8" "length (dent_bytes d) = 20" "length (stat_v1_bytes m) = 16"
  "length (stat_v2_bytes m2) = 72"
  by (simp_all add: data_bytes_def le64_def dent_bytes_def stat_v1_bytes_def stat_v2_bytes_def)

lemma word_at_skip: "word_at i s = word_at 0 (drop i s)"
  by (simp add: word_at_def)

lemma word64_at_skip: "word64_at i s = word64_at 0 (drop i s)"
  by (simp add: word64_at_def)

lemma word64_at_0: "word64_at 0 (le64 w @ b) = w"
proof -
  have "unat w < 256 ^ 8" using unsigned_less [of w, where ?'a = nat] by simp
  then show ?thesis by (simp add: word64_at_def le64_def le_val_le_bytes)
qed

lemmas words_back = word_at_0 word64_at_0

lemma data_of_bytes_bytes [simp]: "data_of_bytes (data_bytes i n) = (i, n)"
  using word_at_skip [of 4] words_back(1) [of n "[]"] by (simp add: data_of_bytes_def data_bytes_def words_back)

lemma dent_of_bytes_bytes [simp]: "dent_of_bytes (dent_bytes d) = d"
  using words_back(1) [of "d_namelen d" "[]"]
  by (simp add: dent_of_bytes_def dent_bytes_def words_back word_at_skip [of 4] word_at_skip [of 8] word_at_skip [of 12]
      word_at_skip [of 16])

lemma stat_v1_of_bytes_bytes [simp]: "stat_v1_of_bytes (stat_v1_bytes m) = m"
  using words_back(1) [of "v1_time m" "[]"]
  by (simp add: stat_v1_of_bytes_def stat_v1_bytes_def words_back word_at_skip [of 4] word_at_skip [of 8] word_at_skip [of 12])

lemma stat_v2_of_bytes_bytes [simp]: "stat_v2_of_bytes (stat_v2_bytes m) = m"
  using words_back(2) [of "v2_ctime m" "[]"]
  by (simp add: stat_v2_of_bytes_def stat_v2_bytes_def words_back word_at_skip [of 4] word_at_skip [of 24] word_at_skip [of 28]
      word_at_skip [of 32] word_at_skip [of 36] word64_at_skip [of 8] word64_at_skip [of 16] word64_at_skip [of 40]
      word64_at_skip [of 48] word64_at_skip [of 56] word64_at_skip [of 64])

section \<open>Error numbers\<close>

text \<open>The names of the table with their wire values; \<open>host\<close> gives the value of a name on the host.\<close>

definition ERRNO_VALUES :: "(string \<times> int) list" where
  "ERRNO_VALUES =
    [(''EACCES'', 13), (''EEXIST'', 17), (''EFAULT'', 14), (''EFBIG'', 27), (''EINTR'', 4), (''EINVAL'', 22), (''EIO'', 5),
     (''EISDIR'', 21), (''ELOOP'', 40), (''EMFILE'', 24), (''ENAMETOOLONG'', 36), (''ENFILE'', 23), (''ENOENT'', 2),
     (''ENOMEM'', 12), (''ENOSPC'', 28), (''ENOTDIR'', 20), (''EOVERFLOW'', 75), (''EPERM'', 1), (''EROFS'', 30),
     (''ETXTBSY'', 26)]"

definition host_to_wire :: "(string \<Rightarrow> int) \<Rightarrow> (int \<times> int) list" where
  "host_to_wire host = map (\<lambda>(n, w). (host n, w)) ERRNO_VALUES"

definition wire_to_host :: "(string \<Rightarrow> int) \<Rightarrow> (int \<times> int) list" where
  "wire_to_host host = map (\<lambda>(n, w). (w, host n)) ERRNO_VALUES"

definition errno_to_wire :: "(string \<Rightarrow> int) \<Rightarrow> int \<Rightarrow> int" where
  "errno_to_wire host error = (case map_of (host_to_wire host) error of None \<Rightarrow> 5 | Some w \<Rightarrow> w)"

definition errno_from_wire :: "(string \<Rightarrow> int) \<Rightarrow> int \<Rightarrow> int" where
  "errno_from_wire host error = (case map_of (host_to_wire host) error of None \<Rightarrow> host ''EIO'' | Some w \<Rightarrow> w)"

text \<open>On Linux the values are those of the table.\<close>

definition linux_errno :: "string \<Rightarrow> int" where
  "linux_errno n = (case map_of ERRNO_VALUES n of Some w \<Rightarrow> w | None \<Rightarrow> 0)"

lemma errno_wire_linux:
  assumes "e \<in> snd ` set ERRNO_VALUES"
  shows "errno_from_wire linux_errno (errno_to_wire linux_errno e) = e"
  using assms by (auto simp: errno_from_wire_def errno_to_wire_def host_to_wire_def linux_errno_def ERRNO_VALUES_def)

end
