(* ===== verification/Sync_Service.thy ===== *)
theory Sync_Service
  imports Sync_Protocol
begin

text \<open>
  file\_sync\_service.cpp: the service of the device behind adb push, pull and sync. The system calls
  the service makes are recorded in order, each with its result; what a call answers is chosen by
  the environment from the calls so far. A file that is written is an \<open>fd_state\<close>; when it is closed,
  the record keeps what was written.
\<close>

section \<open>State\<close>

datatype syscall =
    Sys_mkdir string u32
  | Sys_chown string u32 u32
  | Sys_restorecon string
  | Sys_removexattr string
  | Sys_setxattr string u32 u32          \<comment> \<open>the two words of permitted capabilities\<close>
  | Sys_unlink string
  | Sys_open_new string u32              \<comment> \<open>O\_WRONLY, O\_CREAT, O\_EXCL\<close>
  | Sys_open_old string u32              \<comment> \<open>O\_WRONLY\<close>
  | Sys_open_read string
  | Sys_fchown u32 u32
  | Sys_fchmod u32
  | Sys_close string                     \<comment> \<open>with all that was written to it\<close>
  | Sys_utime string u32
  | Sys_symlink string string

type_synonym systrace = "(syscall \<times> errno_t option) list"

record sync_env =
  sv_base :: libbase
  sv_sys :: "systrace \<Rightarrow> syscall \<Rightarrow> errno_t option"   \<comment> \<open>None is success\<close>
  sv_file :: "systrace \<Rightarrow> fd_state"                 \<comment> \<open>the file the last open gave\<close>
  sv_stat :: "systrace \<Rightarrow> bool \<Rightarrow> string \<Rightarrow> errno_t + stat"  \<comment> \<open>True: stat, False: lstat\<close>
  sv_dir :: "systrace \<Rightarrow> string \<Rightarrow> string list option"  \<comment> \<open>opendir and readdir\<close>
  sv_fs_config :: "string \<Rightarrow> bool \<Rightarrow> u32 \<Rightarrow> u32 \<times> u32 \<times> u32 \<times> u64"
  sv_strerror :: "errno_t \<Rightarrow> string"
  sv_stray :: char                       \<comment> \<open>the byte before an empty std::string, which back() reads\<close>

record sync_state =
  sy_sock :: fd_state
  sy_buf :: string
  sy_err :: errno_t
  sy_trace :: systrace
  sy_file :: "fd_state option"           \<comment> \<open>the variable fd; None below 0\<close>

definition do_sys :: "sync_env \<Rightarrow> syscall \<Rightarrow> sync_state \<Rightarrow> bool \<times> sync_state" where
  "do_sys env c s =
    (let r = sv_sys env (sy_trace s) c; s1 = s\<lparr>sy_trace := sy_trace s @ [(c, r)]\<rparr> in
     case r of None \<Rightarrow> (True, s1) | Some e \<Rightarrow> (False, s1\<lparr>sy_err := e\<rparr>))"

definition open_file :: "sync_env \<Rightarrow> syscall \<Rightarrow> sync_state \<Rightarrow> bool \<times> sync_state" where
  "open_file env c s =
    (case do_sys env c s of (ok, s1) \<Rightarrow>
      (ok, s1\<lparr>sy_file := (if ok then Some ((sv_file env (sy_trace s1))\<lparr>written := []\<rparr>) else None)\<rparr>))"

text \<open>adb\_close on the file, if it is open.\<close>

definition close_file :: "sync_env \<Rightarrow> sync_state \<Rightarrow> sync_state" where
  "close_file env s =
    (case sy_file s of None \<Rightarrow> s | Some f \<Rightarrow> snd (do_sys env (Sys_close (written f)) s))"

definition read_sock :: "nat \<Rightarrow> sync_state \<Rightarrow> bool \<times> string \<times> sync_state" where
  "read_sock n s =
    (case ReadFdExactly (sy_sock s) n [] of (ok, e, bs, f) \<Rightarrow>
      (ok, bs, s\<lparr>sy_sock := f, sy_err := (if ok then sy_err s else e)\<rparr>))"

definition read_msg :: "sync_state \<Rightarrow> (u32 \<times> u32) option \<times> sync_state" where
  "read_msg s = (case read_sock 8 s of (ok, bs, s1) \<Rightarrow> (if ok then Some (data_of_bytes bs) else None, s1))"

text \<open>A read into the start of the buffer; a failed one leaves the bytes that came.\<close>

definition read_buf :: "nat \<Rightarrow> sync_state \<Rightarrow> bool \<times> sync_state" where
  "read_buf n s =
    (case read_sock n s of (ok, bs, s1) \<Rightarrow> (ok, s1\<lparr>sy_buf := bs @ drop (length bs) (sy_buf s1)\<rparr>))"

definition write_sock :: "string \<Rightarrow> sync_state \<Rightarrow> (bool \<times> sync_state) res" where
  "write_sock bytes s =
    bindR (WriteFdExactly (sy_sock s) bytes) (\<lambda>(ok, e, f).
      Inr (ok, s\<lparr>sy_sock := f, sy_err := (if ok then sy_err s else e)\<rparr>))"

definition write_file :: "string \<Rightarrow> sync_state \<Rightarrow> (bool \<times> sync_state) res" where
  "write_file bytes s =
    (case sy_file s of
       None \<Rightarrow> Inr (bytes = [], if bytes = [] then s else s\<lparr>sy_err := EOTHER 9\<rparr>)
     | Some g \<Rightarrow> bindR (WriteFdExactly g bytes) (\<lambda>(ok, e, f).
         Inr (ok, s\<lparr>sy_file := Some f, sy_err := (if ok then sy_err s else e)\<rparr>)))"

section \<open>Directories and attributes\<close>

definition should_use_fs_config :: "sync_env \<Rightarrow> string \<Rightarrow> bool" where
  "should_use_fs_config env path \<longleftrightarrow>
    StartsWith (sv_base env) path ''/system/'' \<or> StartsWith (sv_base env) path ''/vendor/'' \<or>
    StartsWith (sv_base env) path ''/oem/''"

definition update_capabilities :: "sync_env \<Rightarrow> string \<Rightarrow> u64 \<Rightarrow> sync_state \<Rightarrow> bool \<times> sync_state" where
  "update_capabilities env path capabilities s =
    (if capabilities = 0 then (True, snd (do_sys env (Sys_removexattr path) s))
     else do_sys env (Sys_setxattr path (ucast capabilities) (ucast (drop_bit 32 capabilities))) s)"

definition path_back :: "sync_env \<Rightarrow> string \<Rightarrow> char" where
  "path_back env p = (if p = [] then sv_stray env else last p)"

text \<open>The loop of secure\_mkdirs; \<open>a\<close> is the owner, group, mode and capabilities of the last fs\_config.\<close>

fun secure_mkdirs_loop ::
    "sync_env \<Rightarrow> string list \<Rightarrow> string \<Rightarrow> u32 \<times> u32 \<times> u32 \<times> u64 \<Rightarrow> sync_state \<Rightarrow> bool \<times> sync_state" where
  "secure_mkdirs_loop env [] partial a s = (True, s)"
| "secure_mkdirs_loop env (c # cs) partial a s =
    (let p = (if path_back env partial \<noteq> CHR ''/'' then partial @ ''/'' else partial) @ c;
         (uid, gid, mode, caps) =
           (case a of (u, g, m, k) \<Rightarrow> if should_use_fs_config env p then sv_fs_config env p True m else a) in
     case do_sys env (Sys_mkdir p mode) s of
       (False, s1) \<Rightarrow> if sy_err s1 \<noteq> EOTHER 17 then (False, s1) else secure_mkdirs_loop env cs p (uid, gid, mode, caps) s1
     | (True, s1) \<Rightarrow>
         (case do_sys env (Sys_chown p uid gid) s1 of
            (False, s2) \<Rightarrow> (False, s2)
          | (True, s2) \<Rightarrow>
              (case update_capabilities env p caps (snd (do_sys env (Sys_restorecon p) s2)) of
                 (False, s3) \<Rightarrow> (False, s3)
               | (True, s3) \<Rightarrow> secure_mkdirs_loop env cs p (uid, gid, mode, caps) s3)))"

definition secure_mkdirs :: "sync_env \<Rightarrow> string \<Rightarrow> sync_state \<Rightarrow> bool \<times> sync_state" where
  "secure_mkdirs env path s =
    (if path = [] \<or> hd path \<noteq> CHR ''/'' then (False, s)
     else secure_mkdirs_loop env (Split (sv_base env) path ''/'') [] (-1, -1, 0x1FD, 0) s)"

section \<open>Replies\<close>

definition SendSyncFail :: "string \<Rightarrow> sync_state \<Rightarrow> (bool \<times> sync_state) res" where
  "SendSyncFail reason s =
    bindR (write_sock (data_bytes ID_FAIL (of_nat (length reason))) s) (\<lambda>(ok, s1).
      if ok then write_sock reason s1 else Inr (False, s1))"

definition SendSyncFailErrno :: "sync_env \<Rightarrow> string \<Rightarrow> sync_state \<Rightarrow> (bool \<times> sync_state) res" where
  "SendSyncFailErrno env reason s = SendSyncFail (reason @ '': '' @ sv_strerror env (sy_err s)) s"

definition errno_num :: "errno_t \<Rightarrow> int" where
  "errno_num e = (case e of ENONE \<Rightarrow> 0 | EAGAIN \<Rightarrow> 11 | EPIPE \<Rightarrow> 32 | EMSGSIZE \<Rightarrow> 90 | EINVAL \<Rightarrow> 22 | ENOENT \<Rightarrow> 2
     | ENAMETOOLONG \<Rightarrow> 36 | EOTHER n \<Rightarrow> int n)"

definition do_lstat_v1 :: "sync_env \<Rightarrow> string \<Rightarrow> sync_state \<Rightarrow> (bool \<times> sync_state) res" where
  "do_lstat_v1 env path s =
    (case (case sv_stat env (sy_trace s) False path of Inl e \<Rightarrow> (zero_stat, s\<lparr>sy_err := e\<rparr>) | Inr st \<Rightarrow> (st, s)) of (st, s1) \<Rightarrow>
      write_sock (stat_v1_bytes \<lparr>v1_id = ID_LSTAT_V1, v1_mode = st_mode st, v1_size = ucast (st_size st),
        v1_time = ucast (st_mtime st)\<rparr>) s1)"

definition stat_v2_msg :: "u32 \<Rightarrow> errno_t + stat \<Rightarrow> stat_v2" where
  "stat_v2_msg i r =
    (case r of
       Inl e \<Rightarrow> \<lparr>v2_id = i, v2_error = of_int (errno_to_wire linux_errno (errno_num e)), v2_dev = 0, v2_ino = 0, v2_mode = 0,
         v2_nlink = 0, v2_uid = 0, v2_gid = 0, v2_size = 0, v2_atime = 0, v2_mtime = 0, v2_ctime = 0\<rparr>
     | Inr st \<Rightarrow> \<lparr>v2_id = i, v2_error = 0, v2_dev = st_dev st, v2_ino = st_ino st, v2_mode = st_mode st,
         v2_nlink = ucast (st_nlink st), v2_uid = st_uid st, v2_gid = st_gid st, v2_size = st_size st,
         v2_atime = st_atime st, v2_mtime = st_mtime st, v2_ctime = st_ctime st\<rparr>)"

definition do_stat_v2 :: "sync_env \<Rightarrow> u32 \<Rightarrow> string \<Rightarrow> sync_state \<Rightarrow> (bool \<times> sync_state) res" where
  "do_stat_v2 env i path s =
    (let r = sv_stat env (sy_trace s) (i = ID_STAT_V2) path in
     write_sock (stat_v2_bytes (stat_v2_msg i r)) (case r of Inl e \<Rightarrow> s\<lparr>sy_err := e\<rparr> | Inr _ \<Rightarrow> s))"

section \<open>Listing\<close>

definition dent_of :: "stat \<Rightarrow> string \<Rightarrow> dent" where
  "dent_of st name = \<lparr>d_id = ID_DENT, d_mode = st_mode st, d_size = ucast (st_size st), d_time = ucast (st_mtime st),
     d_namelen = of_nat (length name)\<rparr>"

fun list_loop :: "sync_env \<Rightarrow> string \<Rightarrow> string list \<Rightarrow> sync_state \<Rightarrow> (bool \<times> sync_state) res" where
  "list_loop env path [] s = Inr (True, s)"
| "list_loop env path (n # ns) s =
    (case sv_stat env (sy_trace s) False (path @ ''/'' @ n) of
       Inl e \<Rightarrow> list_loop env path ns (s\<lparr>sy_err := e\<rparr>)
     | Inr st \<Rightarrow>
         bindR (write_sock (dent_bytes (dent_of st n)) s) (\<lambda>(ok, s1).
           if \<not> ok then Inr (False, s1)
           else bindR (write_sock n s1) (\<lambda>(ok2, s2). if \<not> ok2 then Inr (False, s2) else list_loop env path ns s2)))"

definition done_dent :: dent where
  "done_dent = \<lparr>d_id = ID_DONE, d_mode = 0, d_size = 0, d_time = 0, d_namelen = 0\<rparr>"

definition do_list :: "sync_env \<Rightarrow> string \<Rightarrow> sync_state \<Rightarrow> (bool \<times> sync_state) res" where
  "do_list env path s =
    (case sv_dir env (sy_trace s) path of
       None \<Rightarrow> write_sock (dent_bytes done_dent) s
     | Some ns \<Rightarrow> bindR (list_loop env path ns s) (\<lambda>(ok, s1). if ok then write_sock (dent_bytes done_dent) s1 else Inr (False, s1)))"

section \<open>Scripts get shorter\<close>

lemma read_msg_rsize: "read_msg s = (Some m, s1) \<Longrightarrow> rsize (sy_sock s1) < rsize (sy_sock s)"
proof (cases "rscript (sy_sock s) = []")
  case True
  then show "rsize (sy_sock s1) < rsize (sy_sock s)" if "read_msg s = (Some m, s1)"
    using that by (simp add: read_msg_def read_sock_def ReadFdExactly_empty)
next
  case False
  then show "rsize (sy_sock s1) < rsize (sy_sock s)" if "read_msg s = (Some m, s1)"
    using that by (auto simp: read_msg_def read_sock_def split: prod.splits if_splits dest!: ReadFdExactly_rsize)
qed

lemma read_msg_rsize_le: "read_msg s = (m, s1) \<Longrightarrow> rsize (sy_sock s1) \<le> rsize (sy_sock s)"
  by (auto simp: read_msg_def read_sock_def split: prod.splits if_splits dest!: ReadFdExactly_rsize)

lemma read_buf_rsize: "read_buf n s = (ok, s1) \<Longrightarrow> rsize (sy_sock s1) \<le> rsize (sy_sock s)"
  by (auto simp: read_buf_def read_sock_def split: prod.splits dest!: ReadFdExactly_rsize)

lemma read_msg_fail_rsize: "read_msg s = (None, s1) \<Longrightarrow> rscript (sy_sock s) \<noteq> [] \<Longrightarrow> rsize (sy_sock s1) < rsize (sy_sock s)"
  by (auto simp: read_msg_def read_sock_def split: prod.splits if_splits dest!: ReadFdExactly_rsize)

lemmas shorter = read_msg_rsize [OF sym] read_msg_fail_rsize [OF sym] read_buf_rsize [OF sym]

lemma write_file_sock: "write_file b s = Inr (ok, s1) \<Longrightarrow> sy_sock s1 = sy_sock s"
  by (auto simp: write_file_def split: option.splits if_splits)

section \<open>Receiving a file\<close>

text \<open>How the loop over DATA messages of handle\_send\_file ends: \<open>goto fail\<close> and \<open>goto abort\<close> are outcomes.\<close>

datatype send_end = SendDone u32 | SendFailed | SendAbort

function send_loop :: "sync_env \<Rightarrow> sync_state \<Rightarrow> (send_end \<times> sync_state) res" where
  "send_loop env s =
    (case read_msg s of
       (None, s1) \<Rightarrow> Inr (SendFailed, s1)
     | (Some (i, n), s1) \<Rightarrow>
         if i \<noteq> ID_DATA then
           (if i = ID_DONE then Inr (SendDone n, s1)
            else bindR (SendSyncFail ''invalid data message'' s1) (\<lambda>(_, s2). Inr (SendAbort, s2)))
         else if length (sy_buf s1) < unat n then
           bindR (SendSyncFail ''oversize data message'' s1) (\<lambda>(_, s2). Inr (SendAbort, s2))
         else
           (case read_buf (unat n) s1 of
              (False, s2) \<Rightarrow> Inr (SendAbort, s2)
            | (True, s2) \<Rightarrow>
                bindR (write_file (take (unat n) (sy_buf s2)) s2) (\<lambda>(ok, s3).
                  if ok then send_loop env s3
                  else bindR (SendSyncFailErrno env ''write failed'' s3) (\<lambda>(_, s4). Inr (SendFailed, s4)))))"
  by pat_completeness auto
termination
  by (relation "measure (\<lambda>(env, s). rsize (sy_sock s))")
     (auto dest!: shorter write_file_sock)

declare send_loop.simps [simp del]

text \<open>
  What follows the label fail: messages are read and thrown away. A read that fails starts the loop
  again, so at the end of the connection it never ends.
\<close>

function drain :: "sync_state \<Rightarrow> sync_state res" where
  "drain s =
    (if rscript (sy_sock s) = [] then Inl Spin
     else
       (case read_msg s of
          (None, s1) \<Rightarrow> drain s1
        | (Some (i, n), s1) \<Rightarrow>
            if i \<noteq> ID_DATA \<or> length (sy_buf s1) < unat n then Inr s1
            else (case read_buf (unat n) s1 of (False, s2) \<Rightarrow> Inr s2 | (True, s2) \<Rightarrow> drain s2)))"
  by pat_completeness auto
termination
  by (relation "measure (\<lambda>s. rsize (sy_sock s))")
     (auto dest!: shorter)

declare drain.simps [simp del]

definition send_abort :: "sync_env \<Rightarrow> string \<Rightarrow> bool \<Rightarrow> sync_state \<Rightarrow> (bool \<times> sync_state) res" where
  "send_abort env path do_unlink s =
    (let s1 = close_file env s in Inr (False, if do_unlink then snd (do_sys env (Sys_unlink path) s1) else s1))"

definition send_fail :: "sync_env \<Rightarrow> string \<Rightarrow> bool \<Rightarrow> sync_state \<Rightarrow> (bool \<times> sync_state) res" where
  "send_fail env path do_unlink s = bindR (drain s) (send_abort env path do_unlink)"

text \<open>\<open>SendSyncFailErrno(s, ...); goto fail;\<close>\<close>

definition report_fail :: "sync_env \<Rightarrow> string \<Rightarrow> bool \<Rightarrow> string \<Rightarrow> sync_state \<Rightarrow> (bool \<times> sync_state) res" where
  "report_fail env path do_unlink reason s =
    bindR (SendSyncFailErrno env reason s) (\<lambda>(_, s1). send_fail env path do_unlink s1)"

definition after_send_loop ::
    "sync_env \<Rightarrow> string \<Rightarrow> u64 \<Rightarrow> bool \<Rightarrow> send_end \<times> sync_state \<Rightarrow> (bool \<times> sync_state) res" where
  "after_send_loop env path capabilities do_unlink x =
    (case x of
       (SendFailed, s) \<Rightarrow> send_fail env path do_unlink s
     | (SendAbort, s) \<Rightarrow> send_abort env path do_unlink s
     | (SendDone timestamp, s) \<Rightarrow>
         (case update_capabilities env path capabilities (close_file env s) of
            (False, s1) \<Rightarrow> report_fail env path do_unlink ''update_capabilities failed'' s1
          | (True, s1) \<Rightarrow> write_sock (data_bytes ID_OKAY 0) (snd (do_sys env (Sys_utime path timestamp) s1))))"

definition send_opened ::
    "sync_env \<Rightarrow> string \<Rightarrow> u32 \<Rightarrow> u32 \<Rightarrow> u64 \<Rightarrow> u32 \<Rightarrow> bool \<Rightarrow> sync_state \<Rightarrow> (bool \<times> sync_state) res" where
  "send_opened env path uid gid capabilities mode do_unlink s =
    (case do_sys env (Sys_fchown uid gid) s of
       (False, s1) \<Rightarrow> report_fail env path do_unlink ''fchown failed'' s1
     | (True, s1) \<Rightarrow>
         bindR (send_loop env (snd (do_sys env (Sys_fchmod mode) (snd (do_sys env (Sys_restorecon path) s1)))))
           (after_send_loop env path capabilities do_unlink))"

text \<open>The attempts to open the file: None where the directories cannot be made.\<close>

definition open_target :: "sync_env \<Rightarrow> string \<Rightarrow> u32 \<Rightarrow> sync_state \<Rightarrow> bool option \<times> sync_state" where
  "open_target env path mode s =
    (let existing = (\<lambda>(ok, s1). if \<not> ok \<and> sy_err s1 = EOTHER 17
           then (case open_file env (Sys_open_old path mode) s1 of (ok2, s2) \<Rightarrow> (Some ok2, s2)) else (Some ok, s1)) in
     case open_file env (Sys_open_new path mode) s of (ok, s1) \<Rightarrow>
       if \<not> ok \<and> sy_err s1 = ENOENT then
         (case secure_mkdirs env (Dirname (sv_base env) path) s1 of
            (False, s2) \<Rightarrow> (None, s2)
          | (True, s2) \<Rightarrow> existing (open_file env (Sys_open_new path mode) s2))
       else existing (ok, s1))"

definition handle_send_file ::
    "sync_env \<Rightarrow> string \<Rightarrow> u32 \<Rightarrow> u32 \<Rightarrow> u64 \<Rightarrow> u32 \<Rightarrow> bool \<Rightarrow> sync_state \<Rightarrow> (bool \<times> sync_state) res" where
  "handle_send_file env path uid gid capabilities mode do_unlink s =
    (case open_target env path mode s of
       (None, s1) \<Rightarrow> report_fail env path do_unlink ''secure_mkdirs failed'' s1
     | (Some False, s1) \<Rightarrow> report_fail env path do_unlink ''couldn't create file'' s1
     | (Some True, s1) \<Rightarrow> send_opened env path uid gid capabilities mode do_unlink s1)"

section \<open>Receiving a link\<close>

text \<open>The target is the C string in the buffer; without a NUL in it the call reads on behind it.\<close>

definition do_symlink :: "sync_env \<Rightarrow> string \<Rightarrow> sync_state \<Rightarrow> (bool \<times> sync_state) res" where
  "do_symlink env path s =
    (if CHR 0x00 \<notin> set (sy_buf s) then Inl OutOfBounds
     else Inr (do_sys env (Sys_symlink (c_str (sy_buf s)) path) s))"

definition link_end :: "sync_state \<Rightarrow> (bool \<times> sync_state) res" where
  "link_end s =
    (case read_msg s of
       (None, s1) \<Rightarrow> Inr (False, s1)
     | (Some (i, n), s1) \<Rightarrow>
         if i = ID_DONE then write_sock (data_bytes ID_OKAY 0) s1
         else bindR (SendSyncFail ''invalid data message: expected ID_DONE'' s1) (\<lambda>(_, s2). Inr (False, s2)))"

definition fail_link :: "sync_env \<Rightarrow> string \<Rightarrow> sync_state \<Rightarrow> (bool \<times> sync_state) res" where
  "fail_link env reason s = bindR (SendSyncFailErrno env reason s) (\<lambda>(_, s1). Inr (False, s1))"

definition handle_send_link :: "sync_env \<Rightarrow> string \<Rightarrow> sync_state \<Rightarrow> (bool \<times> sync_state) res" where
  "handle_send_link env path s =
    (case read_msg s of
       (None, s1) \<Rightarrow> Inr (False, s1)
     | (Some (i, n), s1) \<Rightarrow>
         if i \<noteq> ID_DATA then
           bindR (SendSyncFail ''invalid data message: expected ID_DATA'' s1) (\<lambda>(_, s2). Inr (False, s2))
         else if length (sy_buf s1) < unat n then
           bindR (SendSyncFail ''oversize data message'' s1) (\<lambda>(_, s2). Inr (False, s2))
         else
           (case read_buf (unat n) s1 of
              (False, s2) \<Rightarrow> Inr (False, s2)
            | (True, s2) \<Rightarrow>
                bindR (do_symlink env path s2) (\<lambda>(ok, s3).
                  if \<not> ok \<and> sy_err s3 = ENOENT then
                    (case secure_mkdirs env (Dirname (sv_base env) path) s3 of
                       (False, s4) \<Rightarrow> fail_link env ''secure_mkdirs failed'' s4
                     | (True, s4) \<Rightarrow>
                         bindR (do_symlink env path s4) (\<lambda>(ok2, s5).
                           if ok2 then link_end s5 else fail_link env ''symlink failed'' s5))
                  else if ok then link_end s3 else fail_link env ''symlink failed'' s3)))"

section \<open>The commands\<close>

text \<open>\<open>find_last_of(',')\<close>: what is before and after the last comma.\<close>

definition last_comma :: "string \<Rightarrow> (string \<times> string) option" where
  "last_comma spec =
    (if CHR '','' \<in> set spec
     then Some (rev (tl (dropWhile (\<lambda>c. c \<noteq> CHR '','') (rev spec))), rev (takeWhile (\<lambda>c. c \<noteq> CHR '','') (rev spec)))
     else None)"

text \<open>The user's permissions for group and others too.\<close>

definition spread_mode :: "u32 \<Rightarrow> u32" where
  "spread_mode mode =
    (let m = mode AND 0x1FF; m2 = m OR (drop_bit 3 m AND 0x38) in m2 OR (drop_bit 3 m2 AND 0x7))"

definition do_send :: "sync_env \<Rightarrow> string \<Rightarrow> sync_state \<Rightarrow> (bool \<times> sync_state) res" where
  "do_send env spec s =
    (case last_comma spec of
       None \<Rightarrow> bindR (SendSyncFail ''missing , in ID_SEND'' s) (\<lambda>(_, s1). Inr (False, s1))
     | Some (path, mode_text) \<Rightarrow>
         (case strtoul0 mode_text of (v, erange) \<Rightarrow>
           let s1 = s\<lparr>sy_err := (if erange then EOTHER 34 else ENONE)\<rparr>; mode = of_nat v :: u32 in
           if erange then bindR (SendSyncFail ''bad mode'' s1) (\<lambda>(_, s2). Inr (False, s2))
           else
             (let r = sv_stat env (sy_trace s1) False path;
                  do_unlink = (case r of Inl _ \<Rightarrow> True | Inr st \<Rightarrow> S_ISREG (st_mode st) \<or> S_ISLNK (st_mode st));
                  s2 = (case r of Inl e \<Rightarrow> s1\<lparr>sy_err := e\<rparr> | Inr _ \<Rightarrow> s1);
                  s3 = (if do_unlink then snd (do_sys env (Sys_unlink path) s2) else s2) in
              if S_ISLNK mode then handle_send_link env path s3
              else
                (case (if should_use_fs_config env path then sv_fs_config env path False (spread_mode mode)
                       else (-1, -1, spread_mode mode, 0)) of (uid, gid, m, caps) \<Rightarrow>
                  handle_send_file env path uid gid caps m do_unlink s3))))"

text \<open>The loop of do\_recv, over the file that was opened.\<close>

function recv_loop :: "sync_env \<Rightarrow> fd_state \<Rightarrow> sync_state \<Rightarrow> (bool \<times> sync_state) res" where
  "recv_loop env g s =
    (case adb_read g (length (sy_buf s)) of
       (Err e, bs, g1) \<Rightarrow>
         bindR (SendSyncFailErrno env ''read failed'' (s\<lparr>sy_err := e\<rparr>)) (\<lambda>(_, s1). Inr (False, snd (do_sys env (Sys_close []) s1)))
     | (Ret r, bs, g1) \<Rightarrow>
         if r = 0 then write_sock (data_bytes ID_DONE 0) (snd (do_sys env (Sys_close []) s))
         else
           (let s0 = s\<lparr>sy_buf := bs @ drop r (sy_buf s)\<rparr> in
            bindR (write_sock (data_bytes ID_DATA (of_nat r)) s0) (\<lambda>(ok, s1).
              if \<not> ok then Inr (False, snd (do_sys env (Sys_close []) s1))
              else bindR (write_sock (take r (sy_buf s1)) s1) (\<lambda>(ok2, s2).
                if \<not> ok2 then Inr (False, snd (do_sys env (Sys_close []) s2)) else recv_loop env g1 s2))))"
  by pat_completeness auto
termination
  by (relation "measure (\<lambda>(env, g, s). rsize g)") (auto dest!: adb_read_some [OF sym])

declare recv_loop.simps [simp del]

definition do_recv :: "sync_env \<Rightarrow> string \<Rightarrow> sync_state \<Rightarrow> (bool \<times> sync_state) res" where
  "do_recv env path s =
    (case do_sys env (Sys_open_read path) s of
       (False, s1) \<Rightarrow> bindR (SendSyncFailErrno env ''open failed'' s1) (\<lambda>(_, s2). Inr (False, s2))
     | (True, s1) \<Rightarrow> recv_loop env (sv_file env (sy_trace s1)) s1)"

definition handle_sync_command :: "sync_env \<Rightarrow> sync_state \<Rightarrow> (bool \<times> sync_state) res" where
  "handle_sync_command env s =
    (let fail = (\<lambda>reason s1. bindR (SendSyncFail reason s1) (\<lambda>(_, s2). Inr (False, s2))) in
     case read_msg s of
       (None, s1) \<Rightarrow> fail ''command read failure'' s1
     | (Some (i, path_length), s1) \<Rightarrow>
         if 1024 < unat path_length then fail ''path too long'' s1
         else
           (case read_sock (unat path_length) s1 of
              (False, _, s2) \<Rightarrow> fail ''filename read failure'' s2
            | (True, bs, s2) \<Rightarrow>
                let name = c_str bs in
                if i = ID_LSTAT_V1 then do_lstat_v1 env name s2
                else if i = ID_LSTAT_V2 \<or> i = ID_STAT_V2 then do_stat_v2 env i name s2
                else if i = ID_LIST then do_list env name s2
                else if i = ID_SEND then do_send env name s2
                else if i = ID_RECV then do_recv env name s2
                else if i = ID_QUIT then Inr (False, s2)
                else fail (''unknown command '' @ pad0 8 (hex_of_nat (unat i))) s2))"

section \<open>Commands consume their messages\<close>

text \<open>What keeps the reads still to come, or uses some up.\<close>

definition no_longer :: "sync_state \<Rightarrow> (bool \<times> sync_state) res \<Rightarrow> bool" where
  "no_longer s m \<longleftrightarrow> (\<forall>ok s'. m = Inr (ok, s') \<longrightarrow> rsize (sy_sock s') \<le> rsize (sy_sock s))"

lemma no_longer_Inr [simp]: "no_longer s (Inr (ok, s')) \<longleftrightarrow> rsize (sy_sock s') \<le> rsize (sy_sock s)"
  by (simp add: no_longer_def)

lemma no_longer_Inl [simp]: "no_longer s (Inl e)"
  by (simp add: no_longer_def)

lemma no_longer_if: "no_longer s x \<Longrightarrow> no_longer s y \<Longrightarrow> no_longer s (if b then x else y)"
  by simp

lemma no_longer_trans: "no_longer s1 m \<Longrightarrow> rsize (sy_sock s1) \<le> rsize (sy_sock s) \<Longrightarrow> no_longer s m"
  unfolding no_longer_def by fastforce

lemma no_longer_bind: "no_longer s m \<Longrightarrow> (\<And>ok s1. rsize (sy_sock s1) \<le> rsize (sy_sock s) \<Longrightarrow> no_longer s (f (ok, s1))) \<Longrightarrow> no_longer s (bindR m f)"
  by (cases m) (auto simp: no_longer_def)

lemma do_sys_sock: "do_sys env c s = (ok, s') \<Longrightarrow> sy_sock s' = sy_sock s"
  by (auto simp: do_sys_def Let_def split: option.splits)

lemma do_sys_sock_snd [simp]: "sy_sock (snd (do_sys env c s)) = sy_sock s"
  by (simp add: do_sys_def Let_def split: option.splits)

lemma close_file_sock [simp]: "sy_sock (close_file env s) = sy_sock s"
  by (simp add: close_file_def split: option.splits)

lemma open_file_sock: "open_file env c s = (ok, s') \<Longrightarrow> sy_sock s' = sy_sock s"
  by (auto simp: open_file_def dest: do_sys_sock split: prod.splits)

lemma update_capabilities_sock: "update_capabilities env p k s = (ok, s') \<Longrightarrow> sy_sock s' = sy_sock s"
  by (auto simp: update_capabilities_def dest: do_sys_sock split: if_splits)

lemma secure_mkdirs_loop_sock: "sy_sock (snd (secure_mkdirs_loop env cs p a s)) = sy_sock s"
proof (induction cs arbitrary: p a s)
  case (Cons c cs)
  let ?p = "(if path_back env p \<noteq> CHR ''/'' then p @ ''/'' else p) @ c"
  obtain uid gid mode caps where a: "(case a of (u, g, m, k) \<Rightarrow> if should_use_fs_config env ?p then sv_fs_config env ?p True m else a) =
      (uid, gid, mode, caps)" by (metis prod_cases4)
  obtain ok1 s1 where 1: "do_sys env (Sys_mkdir ?p mode) s = (ok1, s1)" by force
  obtain ok2 s2 where 2: "do_sys env (Sys_chown ?p uid gid) s1 = (ok2, s2)" by force
  obtain ok3 s3 where 3: "update_capabilities env ?p caps (snd (do_sys env (Sys_restorecon ?p) s2)) = (ok3, s3)" by force
  have "sy_sock s1 = sy_sock s" "sy_sock s2 = sy_sock s1" "sy_sock s3 = sy_sock s2"
    using do_sys_sock [OF 1] do_sys_sock [OF 2] update_capabilities_sock [OF 3] by simp_all
  then show ?case using Cons.IH by (simp only: secure_mkdirs_loop.simps Let_def a prod.case 1 2 3) (simp split: bool.split)
qed simp

lemma secure_mkdirs_sock: "secure_mkdirs env p s = (ok, s') \<Longrightarrow> sy_sock s' = sy_sock s"
  using secure_mkdirs_loop_sock [of env "Split (sv_base env) p ''/''" "[]" "(-1, -1, 0x1FD, 0)" s]
  by (auto simp: secure_mkdirs_def split: if_splits)

lemma open_target_sock: "open_target env p m s = (ok, s') \<Longrightarrow> sy_sock s' = sy_sock s"
  by (auto simp: open_target_def Let_def split: prod.splits if_splits bool.splits dest!: open_file_sock secure_mkdirs_sock)

lemma write_sock_no_longer: "no_longer s (write_sock b s)"
  by (auto simp: no_longer_def write_sock_def dest!: WriteFdExactly_rsize)

lemma SendSyncFail_no_longer: "no_longer s (SendSyncFail r s)"
  unfolding SendSyncFail_def
  by (rule no_longer_bind [OF write_sock_no_longer]) (auto intro: no_longer_trans [OF write_sock_no_longer])

lemma SendSyncFailErrno_no_longer: "no_longer s (SendSyncFailErrno env r s)"
  unfolding SendSyncFailErrno_def by (rule SendSyncFail_no_longer)

lemmas sends = write_sock_no_longer SendSyncFail_no_longer SendSyncFailErrno_no_longer

text \<open>A reply after which the command ends with False.\<close>

lemma fail_no_longer: "no_longer s (bindR (SendSyncFail r s) (\<lambda>(_, s2). Inr (False, s2)))"
  by (rule no_longer_bind [OF SendSyncFail_no_longer]) simp

lemma after_reads: "no_longer s1 m \<Longrightarrow> sy_sock s1 = sy_sock s \<Longrightarrow> no_longer s m"
  by (erule no_longer_trans) simp

lemma list_loop_no_longer: "no_longer s (list_loop env path ns s)"
proof (induction ns arbitrary: s)
  case (Cons n ns)
  show ?case
  proof (cases "sv_stat env (sy_trace s) False (path @ ''/'' @ n)")
    case (Inl e)
    then show ?thesis using after_reads [OF Cons.IH, of "s\<lparr>sy_err := e\<rparr>" s] by simp
  next
    case (Inr st)
    have "no_longer s (bindR (write_sock n s1) (\<lambda>(ok2, s2). if \<not> ok2 then Inr (False, s2) else list_loop env path ns s2))"
      if le: "rsize (sy_sock s1) \<le> rsize (sy_sock s)" for s1
      by (rule no_longer_bind [OF no_longer_trans [OF write_sock_no_longer le]])
         (auto intro: no_longer_trans [OF Cons.IH])
    then have "no_longer s (bindR (write_sock (dent_bytes (dent_of st n)) s) (\<lambda>(ok, s1).
           if \<not> ok then Inr (False, s1)
           else bindR (write_sock n s1) (\<lambda>(ok2, s2). if \<not> ok2 then Inr (False, s2) else list_loop env path ns s2)))"
      by (intro no_longer_bind [OF write_sock_no_longer]) simp
    then show ?thesis using Inr by simp
  qed
qed simp

lemma do_list_no_longer: "no_longer s (do_list env path s)"
proof (cases "sv_dir env (sy_trace s) path")
  case None
  then show ?thesis using write_sock_no_longer by (simp add: do_list_def)
next
  case (Some ns)
  have "no_longer s (bindR (list_loop env path ns s) (\<lambda>(ok, s1). if ok then write_sock (dent_bytes done_dent) s1 else Inr (False, s1)))"
    by (rule no_longer_bind [OF list_loop_no_longer]) (auto intro: no_longer_trans [OF write_sock_no_longer])
  then show ?thesis using Some by (simp add: do_list_def)
qed

lemma do_lstat_v1_no_longer: "no_longer s (do_lstat_v1 env path s)"
  unfolding do_lstat_v1_def by (auto intro: after_reads [OF write_sock_no_longer] split: sum.splits)

lemma do_stat_v2_no_longer: "no_longer s (do_stat_v2 env i path s)"
  unfolding do_stat_v2_def Let_def by (auto intro: after_reads [OF write_sock_no_longer] split: sum.splits)

lemma send_loop_rsize: "send_loop env s = Inr (r, s') \<Longrightarrow> rsize (sy_sock s') \<le> rsize (sy_sock s)"
proof (induction env s rule: send_loop.induct)
  case (1 env s)
  obtain m s1 where m: "read_msg s = (m, s1)" by force
  note le = read_msg_rsize_le [OF m]
  have fail: "rsize (sy_sock s') \<le> rsize (sy_sock s)"
    if "bindR (SendSyncFail t s1) (\<lambda>(_, s2). Inr (x, s2)) = Inr (r, s')" for t x
    using that SendSyncFail_no_longer [of s1 t] le by (force simp: no_longer_def)
  show ?case
  proof (cases m)
    case None
    then show ?thesis using "1.prems" m le by (subst (asm) send_loop.simps) simp
  next
    case (Some x)
    obtain i n where x: "x = (i, n)" by force
    obtain ok s2 where b: "read_buf (unat n) s1 = (ok, s2)" by force
    note le2 = read_buf_rsize [OF b]
    consider "i \<noteq> ID_DATA" | "length (sy_buf s1) < unat n" "i = ID_DATA" | "\<not> ok" "i = ID_DATA" "\<not> length (sy_buf s1) < unat n"
      | "ok" "i = ID_DATA" "\<not> length (sy_buf s1) < unat n" by blast
    then show ?thesis
    proof cases
      case 4
      from "1.prems" m Some x b 4 obtain ok3 s3 where w: "write_file (take (unat n) (sy_buf s2)) s2 = Inr (ok3, s3)"
        and rest: "(if ok3 then send_loop env s3
           else bindR (SendSyncFailErrno env ''write failed'' s3) (\<lambda>(_, s4). Inr (SendFailed, s4))) = Inr (r, s')"
        by (subst (asm) send_loop.simps) auto
      have le3: "rsize (sy_sock s3) \<le> rsize (sy_sock s)" using write_file_sock [OF w] le le2 by simp
      show ?thesis
      proof (cases ok3)
        case True
        then show ?thesis using "1.IH" m Some x b 4 w rest le3 by fastforce
      next
        case False
        then show ?thesis using rest SendSyncFailErrno_no_longer [of s3 env "''write failed''"] le3
          by (force simp: no_longer_def)
      qed
    qed (use "1.prems" m Some x b le le2 fail in \<open>subst (asm) send_loop.simps; auto split: if_splits\<close>)+
  qed
qed

lemma drain_rsize: "drain s = Inr s' \<Longrightarrow> rsize (sy_sock s') \<le> rsize (sy_sock s)"
proof (induction s rule: drain.induct)
  case (1 s)
  obtain m s1 where m: "read_msg s = (m, s1)" by force
  note le = read_msg_rsize_le [OF m]
  have ne: "rscript (sy_sock s) \<noteq> []" using "1.prems" by (subst (asm) drain.simps) (auto split: if_splits)
  show ?case
  proof (cases m)
    case None
    then show ?thesis using "1.prems" "1.IH"(1) m le ne by (subst (asm) drain.simps) fastforce
  next
    case (Some x)
    obtain i n where x: "x = (i, n)" by force
    obtain ok s2 where b: "read_buf (unat n) s1 = (ok, s2)" by force
    note le2 = read_buf_rsize [OF b]
    show ?thesis
    proof (cases "i \<noteq> ID_DATA \<or> length (sy_buf s1) < unat n \<or> \<not> ok")
      case True
      then show ?thesis using "1.prems" m Some x b le le2 ne by (subst (asm) drain.simps) (auto split: if_splits)
    next
      case False
      then have "drain s2 = Inr s'" using "1.prems" m Some x b ne by (subst (asm) drain.simps) simp
      with "1.IH"(2) m Some x b False ne le le2 show ?thesis by fastforce
    qed
  qed
qed

lemma send_abort_no_longer: "no_longer s (send_abort env path u s)"
  by (simp add: send_abort_def Let_def)

lemma send_fail_no_longer: "no_longer s (send_fail env path u s)"
  using drain_rsize [of s] by (cases "drain s") (auto simp: send_fail_def intro: no_longer_trans [OF send_abort_no_longer])

lemma report_fail_no_longer: "no_longer s (report_fail env path u r s)"
  unfolding report_fail_def
  by (rule no_longer_bind [OF SendSyncFailErrno_no_longer]) (auto intro: no_longer_trans [OF send_fail_no_longer])

lemma after_send_loop_no_longer: "no_longer s (after_send_loop env path k u (r, s))"
proof (cases r)
  case (SendDone t)
  obtain ok s1 where c: "update_capabilities env path k (close_file env s) = (ok, s1)" by force
  have "sy_sock s1 = sy_sock s" using update_capabilities_sock [OF c] by simp
  then show ?thesis using SendDone c after_reads [OF report_fail_no_longer] after_reads [OF write_sock_no_longer]
    by (cases ok) (simp_all add: after_send_loop_def)
qed (simp_all add: after_send_loop_def send_fail_no_longer send_abort_no_longer)

lemma send_opened_no_longer: "no_longer s (send_opened env path uid gid k mode u s)"
proof -
  obtain ok s1 where c: "do_sys env (Sys_fchown uid gid) s = (ok, s1)" by force
  note e = do_sys_sock [OF c]
  let ?s = "snd (do_sys env (Sys_fchmod mode) (snd (do_sys env (Sys_restorecon path) s1)))"
  have "no_longer s (bindR (send_loop env ?s) (after_send_loop env path k u))"
    using send_loop_rsize [of env ?s] e after_send_loop_no_longer
    by (cases "send_loop env ?s") (auto intro: no_longer_trans [OF after_send_loop_no_longer])
  then show ?thesis using c e after_reads [OF report_fail_no_longer] by (cases ok) (simp_all add: send_opened_def)
qed

lemma handle_send_file_no_longer: "no_longer s (handle_send_file env path uid gid k mode u s)"
proof -
  obtain r s1 where o: "open_target env path mode s = (r, s1)" by force
  note e = open_target_sock [OF o]
  show ?thesis using o after_reads [OF report_fail_no_longer e] after_reads [OF send_opened_no_longer e]
    by (auto simp: handle_send_file_def split: option.split bool.split)
qed

lemma link_end_no_longer: "no_longer s (link_end s)"
proof -
  obtain m s1 where m: "read_msg s = (m, s1)" by force
  note le = read_msg_rsize_le [OF m]
  show ?thesis using m le no_longer_trans [OF write_sock_no_longer le] no_longer_trans [OF fail_no_longer le]
    by (auto simp: link_end_def split: option.split)
qed

lemma fail_link_no_longer: "no_longer s (fail_link env r s)"
  unfolding fail_link_def by (rule no_longer_bind [OF SendSyncFailErrno_no_longer]) simp

lemma do_symlink_no_longer: "do_symlink env path s = Inr (ok, s') \<Longrightarrow> sy_sock s' = sy_sock s"
  by (auto simp: do_symlink_def split: if_splits dest: do_sys_sock)

lemma handle_send_link_no_longer: "no_longer s (handle_send_link env path s)"
proof -
  obtain m s1 where m: "read_msg s = (m, s1)" by force
  note le = read_msg_rsize_le [OF m]
  have tail: "no_longer s (if \<not> ok \<and> sy_err s3 = ENOENT then
          (case secure_mkdirs env (Dirname (sv_base env) path) s3 of
             (False, s4) \<Rightarrow> fail_link env ''secure_mkdirs failed'' s4
           | (True, s4) \<Rightarrow>
               bindR (do_symlink env path s4) (\<lambda>(ok2, s5). if ok2 then link_end s5 else fail_link env ''symlink failed'' s5))
        else if ok then link_end s3 else fail_link env ''symlink failed'' s3)"
    if le3: "rsize (sy_sock s3) \<le> rsize (sy_sock s)" for ok s3
  proof -
    have last: "no_longer s (link_end s5)" "no_longer s (fail_link env r s5)" if "sy_sock s5 = sy_sock s3" for s5 r
      using no_longer_trans [OF link_end_no_longer] no_longer_trans [OF fail_link_no_longer] le3 that by simp_all
    obtain ok4 s4 where d: "secure_mkdirs env (Dirname (sv_base env) path) s3 = (ok4, s4)" by force
    note e = secure_mkdirs_sock [OF d]
    have "no_longer s (bindR (do_symlink env path s4) (\<lambda>(ok2, s5). if ok2 then link_end s5 else fail_link env ''symlink failed'' s5))"
      using do_symlink_no_longer [of env path s4] last e by (cases "do_symlink env path s4") auto
    then show ?thesis using last e d by (simp split: bool.split)
  qed
  show ?thesis
  proof (cases m)
    case None
    then show ?thesis using m le by (simp add: handle_send_link_def)
  next
    case (Some x)
    obtain i n where x: "x = (i, n)" by force
    obtain ok s2 where b: "read_buf (unat n) s1 = (ok, s2)" by force
    have le2: "rsize (sy_sock s2) \<le> rsize (sy_sock s)" using read_buf_rsize [OF b] le by simp
    have "no_longer s (bindR (do_symlink env path s2) (\<lambda>(ok, s3). if \<not> ok \<and> sy_err s3 = ENOENT then
          (case secure_mkdirs env (Dirname (sv_base env) path) s3 of
             (False, s4) \<Rightarrow> fail_link env ''secure_mkdirs failed'' s4
           | (True, s4) \<Rightarrow>
               bindR (do_symlink env path s4) (\<lambda>(ok2, s5). if ok2 then link_end s5 else fail_link env ''symlink failed'' s5))
        else if ok then link_end s3 else fail_link env ''symlink failed'' s3))"
      using do_symlink_no_longer [of env path s2] le2 tail by (cases "do_symlink env path s2") auto
    then show ?thesis using m Some x b le2 no_longer_trans [OF fail_no_longer le]
      by (simp add: handle_send_link_def split: bool.split)
  qed
qed

lemma do_send_no_longer: "no_longer s (do_send env spec s)"
proof (cases "last_comma spec")
  case None
  then show ?thesis using fail_no_longer by (simp add: do_send_def)
next
  case (Some x)
  obtain path t where x: "x = (path, t)" by force
  obtain v er where v: "strtoul0 t = (v, er)" by force
  show ?thesis
    unfolding do_send_def Some x v option.case prod.case Let_def
    by (auto intro!: after_reads [OF fail_no_longer] after_reads [OF handle_send_link_no_longer]
        after_reads [OF handle_send_file_no_longer] split: prod.split sum.split)
qed

lemma recv_loop_no_longer: "no_longer s (recv_loop env g s)"
proof (induction env g s rule: recv_loop.induct)
  case (1 env g s)
  obtain r bs g1 where r: "adb_read g (length (sy_buf s)) = (r, bs, g1)" by (cases "adb_read g (length (sy_buf s))") auto
  show ?case
  proof (cases r)
    case (Err e)
    have "no_longer s (bindR (SendSyncFailErrno env ''read failed'' (s\<lparr>sy_err := e\<rparr>)) (\<lambda>(_, s1). Inr (False, snd (do_sys env (Sys_close []) s1))))"
      by (rule no_longer_bind [OF after_reads [OF SendSyncFailErrno_no_longer]]) simp_all
    then show ?thesis using r Err by (subst recv_loop.simps) simp
  next
    case (Ret k)
    let ?s = "s\<lparr>sy_buf := bs @ drop k (sy_buf s)\<rparr>"
    have "no_longer s (bindR (write_sock (take k (sy_buf s1)) s1) (\<lambda>(ok2, s2).
             if \<not> ok2 then Inr (False, snd (do_sys env (Sys_close []) s2)) else recv_loop env g1 s2))"
      if le: "rsize (sy_sock s1) \<le> rsize (sy_sock s)" and k: "k \<noteq> 0"
        and w: "write_sock (data_bytes ID_DATA (of_nat k)) ?s = Inr (True, s1)" for s1
    proof (cases "write_sock (take k (sy_buf s1)) s1")
      case (Inr y)
      obtain ok2 s2 where y: "y = (ok2, s2)" by force
      have le2: "rsize (sy_sock s2) \<le> rsize (sy_sock s)" using write_sock_no_longer [of s1 "take k (sy_buf s1)"] Inr y le
        by (auto simp: no_longer_def)
      show ?thesis
      proof (cases ok2)
        case True
        then have "no_longer s2 (recv_loop env g1 s2)" using "1.IH" r Ret k w Inr y by fastforce
        then show ?thesis using True Inr y le2 no_longer_trans by simp
      qed (use Inr y le2 in simp)
    qed simp
    note more = this
    show ?thesis
    proof (cases "k = 0")
      case True
      then show ?thesis using r Ret after_reads [OF write_sock_no_longer, of "snd (do_sys env (Sys_close []) s)" s]
        by (subst recv_loop.simps) simp
    next
      case False
      have "no_longer s (bindR (write_sock (data_bytes ID_DATA (of_nat k)) ?s) (\<lambda>(ok, s1).
              if \<not> ok then Inr (False, snd (do_sys env (Sys_close []) s1))
              else bindR (write_sock (take k (sy_buf s1)) s1) (\<lambda>(ok2, s2).
                if \<not> ok2 then Inr (False, snd (do_sys env (Sys_close []) s2)) else recv_loop env g1 s2)))"
      proof (cases "write_sock (data_bytes ID_DATA (of_nat k)) ?s")
        case (Inr y)
        obtain ok s1 where y: "y = (ok, s1)" by force
        have le: "rsize (sy_sock s1) \<le> rsize (sy_sock s)"
          using write_sock_no_longer [of ?s "data_bytes ID_DATA (of_nat k)"] Inr y by simp
        show ?thesis unfolding Inr y bindR_simps prod.case using more [OF le False] Inr y le by (cases ok) simp_all
      qed simp
      then show ?thesis using r Ret False by (subst recv_loop.simps) (simp add: Let_def)
    qed
  qed
qed

lemma do_recv_no_longer: "no_longer s (do_recv env path s)"
proof -
  obtain ok s1 where c: "do_sys env (Sys_open_read path) s = (ok, s1)" by force
  note e = do_sys_sock [OF c]
  have "no_longer s (bindR (SendSyncFailErrno env ''open failed'' s1) (\<lambda>(_, s2). Inr (False, s2)))"
    by (rule no_longer_bind [OF after_reads [OF SendSyncFailErrno_no_longer e]]) simp
  then show ?thesis using c after_reads [OF recv_loop_no_longer e] by (cases ok) (simp_all add: do_recv_def)
qed

lemma handle_sync_command_rsize:
  assumes "handle_sync_command env s = Inr (True, s')"
  shows "rsize (sy_sock s') < rsize (sy_sock s)"
proof -
  obtain m s1 where m: "read_msg s = (m, s1)" by force
  have fail: "bindR (SendSyncFail t x) (\<lambda>(_, s2). Inr (False, s2)) \<noteq> Inr (True, s')" for t x by auto
  from assms m fail obtain i n where some: "m = Some (i, n)" by (cases m) (auto simp: handle_sync_command_def Let_def)
  note lt = read_msg_rsize [OF m [unfolded some]]
  obtain ok bs s2 where b: "read_sock (unat n) s1 = (ok, bs, s2)" by (cases "read_sock (unat n) s1") auto
  have le: "rsize (sy_sock s2) \<le> rsize (sy_sock s1)"
    using b by (auto simp: read_sock_def split: prod.splits dest!: ReadFdExactly_rsize)
  have "no_longer s2 (Inr (True, s'))"
    using assms m some b fail do_lstat_v1_no_longer [of s2 env "c_str bs"] do_stat_v2_no_longer [of s2 env i "c_str bs"]
      do_list_no_longer [of s2 env "c_str bs"] do_send_no_longer [of s2 env "c_str bs"] do_recv_no_longer [of s2 env "c_str bs"]
    by (cases ok) (auto simp del: no_longer_Inr simp: handle_sync_command_def Let_def split: if_splits)
  then show ?thesis using lt le by simp
qed

function sync_loop :: "sync_env \<Rightarrow> sync_state \<Rightarrow> sync_state res" where
  "sync_loop env s = bindR (handle_sync_command env s) (\<lambda>(ok, s1). if ok then sync_loop env s1 else Inr s1)"
  by pat_completeness auto
termination
  by (relation "measure (\<lambda>(env, s). rsize (sy_sock s))") (auto dest: handle_sync_command_rsize)

declare sync_loop.simps [simp del]

text \<open>The thread: the buffer is filled with NULs, and the connection is closed at the end.\<close>

definition run_file_sync_service :: "sync_env \<Rightarrow> fd_state \<Rightarrow> sync_state res" where
  "run_file_sync_service env f =
    sync_loop env \<lparr>sy_sock = f, sy_buf = replicate SYNC_DATA_MAX (CHR 0x00), sy_err = ENONE, sy_trace = [], sy_file = None\<rparr>"

end
