(* ===== verification/Sync_Client.thy ===== *)
theory Sync_Client
  imports Sync_Service Adb_Client Line_Printer
begin

text \<open>
  file\_sync\_client.cpp on a POSIX host: the client's side of push, pull, sync and ls. The state of a
  SyncConnection holds the connection, the ledgers and the printer. What the client does to local
  files is recorded in order; what they answer is chosen by the environment from the calls so far.
\<close>

section \<open>State\<close>

record ledger =
  files_transferred :: u64
  files_skipped :: u64
  bytes_transferred :: u64
  bytes_expected :: u64
  expect_multiple_files :: bool

datatype TransferDirection = push | pull

datatype lcall =
    L_unlink string | L_creat string
  | L_close string string          \<comment> \<open>a created file, with all that was written to it\<close>
  | L_utime string u64 | L_chmod string u32 | L_mkdirs string

type_synonym ltrace = "lcall list"

record local_env =
  lc_base :: libbase
  lc_basename :: "string \<Rightarrow> string"
  lc_host :: "string \<Rightarrow> int"        \<comment> \<open>the error numbers of the host\<close>
  lc_errno :: "errno_t \<Rightarrow> int"
  lc_strerror :: "int \<Rightarrow> string"
  lc_stat :: "ltrace \<Rightarrow> bool \<Rightarrow> string \<Rightarrow> int + stat"  \<comment> \<open>True: stat, False: lstat\<close>
  lc_readlink :: "ltrace \<Rightarrow> string \<Rightarrow> int + string"
  lc_read_file :: "ltrace \<Rightarrow> string \<Rightarrow> int + string"
  lc_open :: "ltrace \<Rightarrow> string \<Rightarrow> int + fd_state"
  lc_creat :: "ltrace \<Rightarrow> string \<Rightarrow> int + fd_state"
  lc_dir :: "ltrace \<Rightarrow> string \<Rightarrow> int + string list"
  lc_call :: "ltrace \<Rightarrow> lcall \<Rightarrow> bool"
  lc_umask :: u32
  lc_rate :: "ledger \<Rightarrow> string"       \<comment> \<open>TransferRate, which reads the clock\<close>
  lc_stray :: char                   \<comment> \<open>the byte before an empty std::string\<close>

record sync_conn =
  sc_fd :: fd_state
  sc_max :: nat
  sc_expect_done :: bool
  sc_stat_v2 :: bool
  sc_global :: ledger
  sc_current :: ledger
  sc_lp :: line_printer
  sc_errno :: int
  sc_polls :: "int list"             \<comment> \<open>what adb\_poll returns, 0 when nothing is left\<close>
  sc_ltrace :: ltrace

definition ledger_Reset :: "ledger \<Rightarrow> ledger" where
  "ledger_Reset l = l\<lparr>files_transferred := 0, files_skipped := 0, bytes_transferred := 0, bytes_expected := 0\<rparr>"

definition dec_of_u64 :: "u64 \<Rightarrow> string" where "dec_of_u64 w = dec_of_nat (unat w)"

text \<open>\<open>%4s\<close>: at least four columns, filled with blanks on the left.\<close>

definition pad_left :: "nat \<Rightarrow> string \<Rightarrow> string" where
  "pad_left w s = replicate (w - length s) (CHR '' '') @ s"

definition percentage :: "u64 \<Rightarrow> u64 \<Rightarrow> int" where
  "percentage part whole = to_int32 (uint (part * 100 div whole))"

definition ledger_progress :: "ledger \<Rightarrow> string \<Rightarrow> u64 \<Rightarrow> u64 \<Rightarrow> string" where
  "ledger_progress l file copied whole =
    (let p = percentage (bytes_transferred l) (bytes_expected l);
         overall = (if bytes_expected l \<noteq> 0 \<and> bytes_transferred l \<le> bytes_expected l \<and> p \<le> 100
           then take 4 (dec_of_int p @ ''%'') else ''?'');
         head = ''['' @ pad_left 4 overall @ ''] '' @ file in
     if whole < copied \<or> whole = 0 then head @ '': '' @ dec_of_int (sint copied) @ ''/?''
     else if expect_multiple_files l then head @ '': '' @ dec_of_int (percentage copied whole) @ ''%''
     else head)"

definition plural_s :: "u64 \<Rightarrow> string" where "plural_s n = (if n = 1 then [] else ''s'')"

definition ledger_report :: "local_env \<Rightarrow> ledger \<Rightarrow> string \<Rightarrow> TransferDirection \<Rightarrow> string" where
  "ledger_report env l name direction =
    (if name \<noteq> [] then name @ '': '' else []) @ dec_of_u64 (files_transferred l) @ '' file'' @ plural_s (files_transferred l) @
    '' '' @ (if direction = push then ''pushed'' else ''pulled'') @ ''.'' @
    (if 0 < files_skipped l
     then '' '' @ dec_of_u64 (files_skipped l) @ '' file'' @ plural_s (files_skipped l) @ '' skipped.'' else []) @
    lc_rate env l"

section \<open>Printing and recording\<close>

definition sc_print :: "string \<Rightarrow> LineType \<Rightarrow> sync_conn \<Rightarrow> sync_conn res" where
  "sc_print s type C = bindR (lp_Print s type (sc_lp C)) (\<lambda>lp. Inr (C\<lparr>sc_lp := lp\<rparr>))"

definition sc_Error :: "string \<Rightarrow> sync_conn \<Rightarrow> sync_conn res" where
  "sc_Error s C = sc_print (''adb: error: '' @ s) ERROR C"

definition sc_Warning :: "string \<Rightarrow> sync_conn \<Rightarrow> sync_conn res" where
  "sc_Warning s C = sc_print (''adb: warning: '' @ s) WARNING C"

definition sc_Println :: "string \<Rightarrow> sync_conn \<Rightarrow> sync_conn res" where
  "sc_Println s C = bindR (sc_print s INFO C) (\<lambda>C1. Inr (C1\<lparr>sc_lp := KeepInfoLine (sc_lp C1)\<rparr>))"

text \<open>\<open>Error(...); return false;\<close>\<close>

definition fail_with :: "string \<Rightarrow> sync_conn \<Rightarrow> (bool \<times> sync_conn) res" where
  "fail_with s C = bindR (sc_Error s C) (\<lambda>C1. Inr (False, C1))"

definition NewTransfer :: "sync_conn \<Rightarrow> sync_conn" where
  "NewTransfer C = C\<lparr>sc_current := ledger_Reset (sc_current C)\<rparr>"

definition RecordBytesTransferred :: "nat \<Rightarrow> sync_conn \<Rightarrow> sync_conn" where
  "RecordBytesTransferred n C =
    C\<lparr>sc_current := (sc_current C)\<lparr>bytes_transferred := bytes_transferred (sc_current C) + of_nat n\<rparr>,
      sc_global := (sc_global C)\<lparr>bytes_transferred := bytes_transferred (sc_global C) + of_nat n\<rparr>\<rparr>"

definition RecordFilesTransferred :: "nat \<Rightarrow> sync_conn \<Rightarrow> sync_conn" where
  "RecordFilesTransferred n C =
    C\<lparr>sc_current := (sc_current C)\<lparr>files_transferred := files_transferred (sc_current C) + of_nat n\<rparr>,
      sc_global := (sc_global C)\<lparr>files_transferred := files_transferred (sc_global C) + of_nat n\<rparr>\<rparr>"

definition RecordFilesSkipped :: "nat \<Rightarrow> sync_conn \<Rightarrow> sync_conn" where
  "RecordFilesSkipped n C =
    C\<lparr>sc_current := (sc_current C)\<lparr>files_skipped := files_skipped (sc_current C) + of_nat n\<rparr>,
      sc_global := (sc_global C)\<lparr>files_skipped := files_skipped (sc_global C) + of_nat n\<rparr>\<rparr>"

definition ReportProgress :: "string \<Rightarrow> u64 \<Rightarrow> u64 \<Rightarrow> sync_conn \<Rightarrow> sync_conn res" where
  "ReportProgress file copied whole C = sc_print (ledger_progress (sc_current C) file copied whole) INFO C"

definition ReportTransferRate :: "local_env \<Rightarrow> string \<Rightarrow> TransferDirection \<Rightarrow> sync_conn \<Rightarrow> sync_conn res" where
  "ReportTransferRate env file direction C = sc_Println (ledger_report env (sc_current C) file direction) C"

definition ReportOverallTransferRate :: "local_env \<Rightarrow> TransferDirection \<Rightarrow> sync_conn \<Rightarrow> sync_conn res" where
  "ReportOverallTransferRate env direction C =
    (let c = sc_current C; g = sc_global C in
     if \<not> (files_transferred c = files_transferred g \<and> files_skipped c = files_skipped g \<and> bytes_transferred c = bytes_transferred g)
     then sc_Println (ledger_report env g [] direction) C else Inr C)"

definition SetExpectedTotalBytes :: "u64 \<Rightarrow> sync_conn \<Rightarrow> sync_conn" where
  "SetExpectedTotalBytes n C = C\<lparr>sc_current := (sc_current C)\<lparr>bytes_expected := n, expect_multiple_files := False\<rparr>\<rparr>"

definition sc_read :: "local_env \<Rightarrow> nat \<Rightarrow> sync_conn \<Rightarrow> bool \<times> string \<times> sync_conn" where
  "sc_read env n C =
    (case ReadFdExactly (sc_fd C) n [] of (ok, e, bs, f) \<Rightarrow>
      (ok, bs, C\<lparr>sc_fd := f, sc_errno := (if ok then sc_errno C else lc_errno env e)\<rparr>))"

definition sc_write :: "local_env \<Rightarrow> string \<Rightarrow> sync_conn \<Rightarrow> (bool \<times> sync_conn) res" where
  "sc_write env bytes C =
    bindR (WriteFdExactly (sc_fd C) bytes) (\<lambda>(ok, e, f).
      Inr (ok, C\<lparr>sc_fd := f, sc_errno := (if ok then sc_errno C else lc_errno env e)\<rparr>))"

definition local_call :: "local_env \<Rightarrow> lcall \<Rightarrow> sync_conn \<Rightarrow> bool \<times> sync_conn" where
  "local_call env c C = (lc_call env (sc_ltrace C) c, C\<lparr>sc_ltrace := sc_ltrace C @ [c]\<rparr>)"

text \<open>adb\_poll with no time-out on the connection: a failed poll is an error too.\<close>

definition ReceivedError :: "local_env \<Rightarrow> sync_conn \<Rightarrow> (bool \<times> sync_conn) res" where
  "ReceivedError env C =
    (case sc_polls C of
       [] \<Rightarrow> Inr (False, C)
     | rc # rest \<Rightarrow>
         let C1 = C\<lparr>sc_polls := rest\<rparr> in
         if rc < 0 then bindR (sc_Error (''failed to poll: '' @ lc_strerror env (sc_errno C1)) C1) (\<lambda>C2. Inr (True, C2))
         else Inr (rc \<noteq> 0, C1))"

section \<open>Requests\<close>

definition SendRequest :: "local_env \<Rightarrow> u32 \<Rightarrow> string \<Rightarrow> sync_conn \<Rightarrow> (bool \<times> sync_conn) res" where
  "SendRequest env i path C =
    (if 1024 < length path then
       bindR (sc_Error (''SendRequest failed: path too long: '' @ dec_of_nat (length path)) C) (\<lambda>C1.
         Inr (False, C1\<lparr>sc_errno := lc_host env ''ENAMETOOLONG''\<rparr>))
     else sc_write env (data_bytes i (of_nat (length path)) @ path) C)"

definition SendStat :: "local_env \<Rightarrow> string \<Rightarrow> sync_conn \<Rightarrow> (bool \<times> sync_conn) res" where
  "SendStat env path C =
    (if \<not> sc_stat_v2 C then Inr (False, C\<lparr>sc_errno := lc_host env ''ENOTSUP''\<rparr>) else SendRequest env ID_STAT_V2 path C)"

definition SendLstat :: "local_env \<Rightarrow> string \<Rightarrow> sync_conn \<Rightarrow> (bool \<times> sync_conn) res" where
  "SendLstat env path C = SendRequest env (if sc_stat_v2 C then ID_LSTAT_V2 else ID_LSTAT_V1) path C"

definition stat_of_v2 :: "stat_v2 \<Rightarrow> stat" where
  "stat_of_v2 m =
    \<lparr>st_dev = v2_dev m, st_ino = v2_ino m, st_mode = v2_mode m, st_nlink = ucast (v2_nlink m), st_uid = v2_uid m,
     st_gid = v2_gid m, st_size = v2_size m, st_atime = v2_atime m, st_mtime = v2_mtime m, st_ctime = v2_ctime m\<rparr>"

definition stat_of_v1 :: "stat_v1 \<Rightarrow> stat" where
  "stat_of_v1 m = zero_stat\<lparr>st_mode := v1_mode m, st_size := ucast (v1_size m), st_ctime := ucast (v1_time m),
     st_mtime := ucast (v1_time m)\<rparr>"

definition FinishStat :: "local_env \<Rightarrow> sync_conn \<Rightarrow> (stat option \<times> sync_conn) res" where
  "FinishStat env C =
    (if sc_stat_v2 C then
       (case sc_read env 72 C of
          (False, _, C1) \<Rightarrow> Inl (Fatal ''protocol fault: failed to read stat response'')
        | (True, bs, C1) \<Rightarrow>
            let m = stat_v2_of_bytes bs in
            if v2_id m \<noteq> ID_LSTAT_V2 \<and> v2_id m \<noteq> ID_STAT_V2
            then Inl (Fatal ''protocol fault: stat response has wrong message id'')
            else if v2_error m \<noteq> 0
            then Inr (None, C1\<lparr>sc_errno := errno_from_wire (lc_host env) (to_int32 (uint (v2_error m)))\<rparr>)
            else Inr (Some (stat_of_v2 m), C1))
     else
       (case sc_read env 16 C of
          (False, _, C1) \<Rightarrow> Inl (Fatal ''protocol fault: failed to read stat response'')
        | (True, bs, C1) \<Rightarrow>
            let m = stat_v1_of_bytes bs in
            if v1_id m \<noteq> ID_LSTAT_V1 then Inl (Fatal ''protocol fault: stat response has wrong message id'')
            else if v1_mode m = 0 \<and> v1_size m = 0 \<and> v1_time m = 0
            then Inr (None, C1\<lparr>sc_errno := lc_host env ''ENOPROTOOPT''\<rparr>)
            else Inr (Some (stat_of_v1 m), C1)))"

definition and_finish :: "local_env \<Rightarrow> (bool \<times> sync_conn) res \<Rightarrow> (stat option \<times> sync_conn) res" where
  "and_finish env m = bindR m (\<lambda>(ok, C). if ok then FinishStat env C else Inr (None, C))"

definition sync_stat :: "local_env \<Rightarrow> string \<Rightarrow> sync_conn \<Rightarrow> (stat option \<times> sync_conn) res" where
  "sync_stat env path C = and_finish env (SendStat env path C)"

definition sync_lstat :: "local_env \<Rightarrow> string \<Rightarrow> sync_conn \<Rightarrow> (stat option \<times> sync_conn) res" where
  "sync_lstat env path C = and_finish env (SendLstat env path C)"

definition sync_stat_fallback :: "local_env \<Rightarrow> string \<Rightarrow> sync_conn \<Rightarrow> (stat option \<times> sync_conn) res" where
  "sync_stat_fallback env path C =
    bindR (sync_stat env path C) (\<lambda>(r, C1).
      if r \<noteq> None \<or> sc_errno C1 \<noteq> lc_host env ''ENOTSUP'' then Inr (r, C1)
      else
        bindR (sync_lstat env path C1) (\<lambda>(r2, C2).
          case r2 of
            None \<Rightarrow> Inr (None, C2)
          | Some st \<Rightarrow>
              if S_ISLNK (st_mode st) then
                bindR (sync_lstat env (path @ ''/'') C2) (\<lambda>(r3, C3).
                  Inr (Some (st\<lparr>st_size := 0, st_mode := (st_mode st AND NOT S_IFMT) OR
                    (if r3 \<noteq> None then S_IFDIR else S_IFREG)\<rparr>), C3))
              else Inr (Some st, C2)))"

section \<open>Sending and receiving files\<close>

text \<open>
  The buffer has \<open>msglen + 1\<close> bytes, computed with 32 bits: a length of 2 to the 32 minus 1 gives an
  empty buffer that the read writes behind.
\<close>

definition ReportCopyFailure :: "local_env \<Rightarrow> string \<Rightarrow> string \<Rightarrow> u32 \<Rightarrow> sync_conn \<Rightarrow> (bool \<times> sync_conn) res" where
  "ReportCopyFailure env from to msglen C =
    (if msglen + 1 = 0 then Inl OutOfBounds
     else
       (case sc_read env (unat msglen) C of
          (False, _, C1) \<Rightarrow> fail_with (''failed to copy '' @ quoted from @ '' to '' @ quoted to @ ''; failed to read reason (!): '' @
            lc_strerror env (sc_errno C1)) C1
        | (True, bs, C1) \<Rightarrow> fail_with (''failed to copy '' @ quoted from @ '' to '' @ quoted to @ '': remote '' @ c_str bs) C1))"

definition copy_failed :: "string \<Rightarrow> string \<Rightarrow> string" where
  "copy_failed from to = ''failed to copy '' @ quoted from @ '' to '' @ quoted to"

definition WriteOrDie :: "local_env \<Rightarrow> string \<Rightarrow> string \<Rightarrow> string \<Rightarrow> sync_conn \<Rightarrow> sync_conn res" where
  "WriteOrDie env from to bytes C =
    bindR (sc_write env bytes C) (\<lambda>(ok, C1).
      if ok then Inr C1
      else
        bindR (if sc_errno C1 = lc_host env ''ECONNRESET'' then
                 (case sc_read env 8 C1 of
                    (False, _, C2) \<Rightarrow> fail_with (copy_failed from to @ '': no response: '' @ lc_strerror env (sc_errno C2)) C2
                  | (True, bs, C2) \<Rightarrow>
                      (case data_of_bytes bs of (i, n) \<Rightarrow>
                        if i \<noteq> ID_FAIL then fail_with (copy_failed from to @ '': not ID_FAIL: '' @ dec_of_int (to_int32 (uint i))) C2
                        else ReportCopyFailure env from to n C2))
               else fail_with (dec_of_nat (length bytes) @ ''-byte write failed: '' @ lc_strerror env (sc_errno C1)) C1)
          (\<lambda>_. Inl (Exit 1)))"

definition SendSmallFile :: "local_env \<Rightarrow> string \<Rightarrow> string \<Rightarrow> string \<Rightarrow> u32 \<Rightarrow> string \<Rightarrow> sync_conn \<Rightarrow> (bool \<times> sync_conn) res" where
  "SendSmallFile env path_and_mode lpath rpath mtime bytes C =
    (if 1024 < length path_and_mode then
       bindR (sc_Error (''SendSmallFile failed: path too long: '' @ dec_of_nat (length path_and_mode)) C) (\<lambda>C1.
         Inr (False, C1\<lparr>sc_errno := lc_host env ''ENAMETOOLONG''\<rparr>))
     else
       bindR (WriteOrDie env lpath rpath
           (data_bytes ID_SEND (of_nat (length path_and_mode)) @ path_and_mode @
            data_bytes ID_DATA (of_nat (length bytes)) @ bytes @ data_bytes ID_DONE mtime) C) (\<lambda>C1.
       bindR (ReportProgress rpath (of_nat (length bytes)) (of_nat (length bytes))
           (RecordBytesTransferred (length bytes) (C1\<lparr>sc_expect_done := True\<rparr>))) (\<lambda>C2. Inr (True, C2))))"

text \<open>The loop of SendLargeFile over the local file: False where reading it fails.\<close>

function large_loop :: "local_env \<Rightarrow> string \<Rightarrow> string \<Rightarrow> u64 \<Rightarrow> u64 \<Rightarrow> fd_state \<Rightarrow> sync_conn \<Rightarrow> (bool \<times> sync_conn) res" where
  "large_loop env lpath rpath whole copied g C =
    (case adb_read g (sc_max C) of
       (Err e, _, g1) \<Rightarrow>
         fail_with (''reading '' @ quoted lpath @ '' locally failed: '' @ lc_strerror env (lc_errno env e)) (C\<lparr>sc_errno := lc_errno env e\<rparr>)
     | (Ret r, bs, g1) \<Rightarrow>
         if r = 0 then Inr (True, C)
         else
           bindR (WriteOrDie env lpath rpath (data_bytes ID_DATA (of_nat r) @ bs) C) (\<lambda>C1.
           bindR (ReceivedError env (RecordBytesTransferred r C1)) (\<lambda>(stop, C2).
             if stop then Inr (True, C2)
             else bindR (ReportProgress rpath (copied + of_nat r) whole C2) (large_loop env lpath rpath whole (copied + of_nat r) g1))))"
  by pat_completeness auto
termination
  by (relation "measure (\<lambda>(env, l, r, w, c, g, C). rsize g)") (auto dest!: adb_read_some [OF sym])

declare large_loop.simps [simp del]

definition SendLargeFile :: "local_env \<Rightarrow> string \<Rightarrow> string \<Rightarrow> string \<Rightarrow> u32 \<Rightarrow> sync_conn \<Rightarrow> (bool \<times> sync_conn) res" where
  "SendLargeFile env path_and_mode lpath rpath mtime C =
    bindR (SendRequest env ID_SEND path_and_mode C) (\<lambda>(ok, C1).
      if \<not> ok then fail_with (''failed to send ID_SEND message '' @ quoted path_and_mode @ '': '' @ lc_strerror env (sc_errno C1)) C1
      else
        (case lc_stat env (sc_ltrace C1) True lpath of
           Inl e \<Rightarrow> fail_with (''cannot stat '' @ quoted lpath @ '': '' @ lc_strerror env e) (C1\<lparr>sc_errno := e\<rparr>)
         | Inr st \<Rightarrow>
             (case lc_open env (sc_ltrace C1) lpath of
                Inl e \<Rightarrow> fail_with (''opening '' @ quoted lpath @ '' locally failed: '' @ lc_strerror env e) (C1\<lparr>sc_errno := e\<rparr>)
              | Inr g \<Rightarrow>
                  bindR (large_loop env lpath rpath (st_size st) 0 g C1) (\<lambda>(ok2, C2).
                    if \<not> ok2 then Inr (False, C2)
                    else bindR (WriteOrDie env lpath rpath (data_bytes ID_DONE mtime) (C2\<lparr>sc_expect_done := True\<rparr>)) (\<lambda>C3. Inr (True, C3))))))"

definition CopyDone :: "local_env \<Rightarrow> string \<Rightarrow> string \<Rightarrow> sync_conn \<Rightarrow> (bool \<times> sync_conn) res" where
  "CopyDone env from to C =
    (case sc_read env 8 C of
       (False, _, C1) \<Rightarrow> fail_with (copy_failed from to @ '': couldn't read from device'') C1
     | (True, bs, C1) \<Rightarrow>
         (case data_of_bytes bs of (i, n) \<Rightarrow>
           if i = ID_OKAY then
             (if sc_expect_done C1 then Inr (True, RecordFilesTransferred 1 (C1\<lparr>sc_expect_done := False\<rparr>))
              else bindR (sc_Error (copy_failed from to @ '': received premature success'') C1) (\<lambda>C2. Inr (True, C2)))
           else if i \<noteq> ID_FAIL then fail_with (copy_failed from to @ '': unknown reason '' @ dec_of_int (to_int32 (uint i))) C1
           else ReportCopyFailure env from to n C1))"

text \<open>Whether the file on the device is up to date; links cannot get the time of the original.\<close>

definition up_to_date :: "u32 \<Rightarrow> u64 \<Rightarrow> stat \<Rightarrow> bool" where
  "up_to_date mode time st \<longleftrightarrow>
    S_ISREG (mode AND st_mode st) \<and> st_mtime st = time \<or> S_ISLNK (mode AND st_mode st) \<and> sint time \<le> sint (st_mtime st)"

definition PATH_MAX :: nat where "PATH_MAX = 4096"

definition send_contents :: "local_env \<Rightarrow> string \<Rightarrow> string \<Rightarrow> u32 \<Rightarrow> u32 \<Rightarrow> sync_conn \<Rightarrow> (bool \<times> sync_conn) res" where
  "send_contents env lpath rpath mtime mode C =
    (let path_and_mode = rpath @ '','' @ dec_of_int (to_int32 (uint mode)); err = (\<lambda>e. C\<lparr>sc_errno := e\<rparr>) in
     if S_ISLNK mode then
       (case lc_readlink env (sc_ltrace C) lpath of
          Inl e \<Rightarrow> fail_with (''readlink '' @ quoted lpath @ '' failed: '' @ lc_strerror env e) (err e)
        | Inr target \<Rightarrow> SendSmallFile env path_and_mode lpath rpath mtime (take (PATH_MAX - 1) target @ [CHR 0x00]) C)
     else
       (case lc_stat env (sc_ltrace C) True lpath of
          Inl e \<Rightarrow> fail_with (''failed to stat local file '' @ quoted lpath @ '': '' @ lc_strerror env e) (err e)
        | Inr st \<Rightarrow>
            if sint (st_size st) < int SYNC_DATA_MAX then
              (case lc_read_file env (sc_ltrace C) lpath of
                 Inl e \<Rightarrow> fail_with (''failed to read all of '' @ quoted lpath @ '': '' @ lc_strerror env e) (err e)
               | Inr bytes \<Rightarrow> SendSmallFile env path_and_mode lpath rpath mtime bytes C)
            else SendLargeFile env path_and_mode lpath rpath mtime C))"

definition sync_send :: "local_env \<Rightarrow> string \<Rightarrow> string \<Rightarrow> u32 \<Rightarrow> u32 \<Rightarrow> bool \<Rightarrow> sync_conn \<Rightarrow> (bool \<times> sync_conn) res" where
  "sync_send env lpath rpath mtime mode sync C =
    bindR (if sync then sync_lstat env rpath C else Inr (None, C)) (\<lambda>(r, C1).
      if (case r of Some st \<Rightarrow> up_to_date mode (ucast mtime) st | None \<Rightarrow> False) then Inr (True, RecordFilesSkipped 1 C1)
      else
        bindR (send_contents env lpath rpath mtime mode C1) (\<lambda>(ok, C2).
          if ok then CopyDone env lpath rpath C2 else Inr (False, C2)))"

text \<open>The loop of sync\_recv: the local file \<open>g\<close> is closed at the end, and removed after a failure.\<close>

definition recv_drop :: "local_env \<Rightarrow> string \<Rightarrow> fd_state \<Rightarrow> sync_conn \<Rightarrow> sync_conn" where
  "recv_drop env lpath g C = snd (local_call env (L_unlink lpath) (snd (local_call env (L_close lpath (written g)) C)))"

lemma sc_read_rsize:
  "(True, bs, C1) = sc_read env n C \<Longrightarrow> rsize (sc_fd C1) \<le> rsize (sc_fd C) \<and> (0 < n \<longrightarrow> rsize (sc_fd C1) < rsize (sc_fd C))"
  by (cases "rscript (sc_fd C) = [] \<and> 0 < n")
     (auto simp: sc_read_def ReadFdExactly_empty split: prod.splits dest!: ReadFdExactly_rsize)

lemma sc_print_fd: "sc_print t ty C = Inr C' \<Longrightarrow> sc_fd C' = sc_fd C"
  by (auto simp: sc_print_def)

function client_recv_loop ::
    "local_env \<Rightarrow> string \<Rightarrow> string \<Rightarrow> string \<Rightarrow> u64 \<Rightarrow> u64 \<Rightarrow> fd_state \<Rightarrow> sync_conn \<Rightarrow> (bool \<times> sync_conn) res" where
  "client_recv_loop env rpath lpath shown expected copied g C =
    (case sc_read env 8 C of
       (False, _, C1) \<Rightarrow> Inr (False, recv_drop env lpath g C1)
     | (True, hdr, C1) \<Rightarrow>
         (case data_of_bytes hdr of (i, n) \<Rightarrow>
           if i = ID_DONE then
             Inr (True, snd (local_call env (L_close lpath (written g)) (RecordFilesTransferred 1 C1)))
           else if i \<noteq> ID_DATA then
             bindR (ReportCopyFailure env rpath lpath n (recv_drop env lpath g C1)) (\<lambda>(_, C2). Inr (False, C2))
           else if sc_max C1 < unat n then
             bindR (sc_Error (''msg.data.size too large: '' @ dec_of_nat (unat n) @ '' (max '' @ dec_of_nat (sc_max C1) @ '')'') C1) (\<lambda>C2.
               Inr (False, recv_drop env lpath g C2))
           else
             (case sc_read env (unat n) C1 of
                (False, _, C2) \<Rightarrow> Inr (False, recv_drop env lpath g C2)
              | (True, bs, C2) \<Rightarrow>
                  bindR (WriteFdExactly g bs) (\<lambda>(ok, e, g1).
                    if \<not> ok then
                      bindR (sc_Error (''cannot write '' @ quoted lpath @ '': '' @ lc_strerror env (lc_errno env e)) (C2\<lparr>sc_errno := lc_errno env e\<rparr>)) (\<lambda>C3.
                        Inr (False, recv_drop env lpath g1 C3))
                    else
                      (let copied1 = copied + ucast n in
                       bindR (ReportProgress shown copied1 expected (RecordBytesTransferred (unat n) C2))
                         (client_recv_loop env rpath lpath shown expected copied1 g1))))))"
  by pat_completeness auto
termination
  by (relation "measure (\<lambda>(env, r, l, sh, e, c, g, C). rsize (sc_fd C))")
     (auto simp: ReportProgress_def RecordBytesTransferred_def dest!: sc_read_rsize sc_print_fd)

declare client_recv_loop.simps [simp del]

definition sync_recv :: "local_env \<Rightarrow> string \<Rightarrow> string \<Rightarrow> string option \<Rightarrow> u64 \<Rightarrow> sync_conn \<Rightarrow> (bool \<times> sync_conn) res" where
  "sync_recv env rpath lpath name expected_size C =
    bindR (SendRequest env ID_RECV rpath C) (\<lambda>(ok, C1).
      if \<not> ok then Inr (False, C1)
      else
        (let C2 = snd (local_call env (L_unlink lpath) C1) in
         case lc_creat env (sc_ltrace C2) lpath of
           Inl e \<Rightarrow> fail_with (''cannot create '' @ quoted lpath @ '': '' @ lc_strerror env e) (C2\<lparr>sc_errno := e\<rparr>)
         | Inr g \<Rightarrow>
             client_recv_loop env rpath lpath (case name of Some n \<Rightarrow> n | None \<Rightarrow> rpath) expected_size 0 (g\<lparr>written := []\<rparr>)
               (snd (local_call env (L_creat lpath) C2))))"

section \<open>Directories of the device\<close>

text \<open>The entries that reach the callback, in order, and whether the list was complete.\<close>

function ls_loop :: "local_env \<Rightarrow> sync_conn \<Rightarrow> bool \<times> (u32 \<times> u32 \<times> u32 \<times> string) list \<times> sync_conn" where
  "ls_loop env C =
    (case sc_read env 20 C of
       (False, _, C1) \<Rightarrow> (False, [], C1)
     | (True, hdr, C1) \<Rightarrow>
         let d = dent_of_bytes hdr in
         if d_id d = ID_DONE then (True, [], C1)
         else if d_id d \<noteq> ID_DENT then (False, [], C1)
         else if 256 < unat (d_namelen d) then (False, [], C1)
         else
           (case sc_read env (unat (d_namelen d)) C1 of
              (False, _, C2) \<Rightarrow> (False, [], C2)
            | (True, bs, C2) \<Rightarrow>
                (case ls_loop env C2 of (ok, es, C3) \<Rightarrow> (ok, (d_mode d, d_size d, d_time d, c_str bs) # es, C3))))"
  by pat_completeness auto
termination
  by (relation "measure (\<lambda>(env, C). rsize (sc_fd C))")
     (auto dest!: sc_read_rsize)

declare ls_loop.simps [simp del]

definition sync_ls :: "local_env \<Rightarrow> string \<Rightarrow> sync_conn \<Rightarrow> (bool \<times> (u32 \<times> u32 \<times> u32 \<times> string) list \<times> sync_conn) res" where
  "sync_ls env path C = bindR (SendRequest env ID_LIST path C) (\<lambda>(ok, C1). Inr (if ok then ls_loop env C1 else (False, [], C1)))"

text \<open>The lines of do\_sync\_ls.\<close>

definition ls_line :: "u32 \<times> u32 \<times> u32 \<times> string \<Rightarrow> string" where
  "ls_line e = (case e of (mode, len, time, name) \<Rightarrow>
    pad0 8 (hex_of_nat (unat mode)) @ '' '' @ pad0 8 (hex_of_nat (unat len)) @ '' '' @ pad0 8 (hex_of_nat (unat time)) @ '' '' @
    name @ [CHR 0x0A])"

section \<open>What is to be copied\<close>

record copyinfo =
  ci_lpath :: string
  ci_rpath :: string
  ci_time :: u64
  ci_mode :: u32
  ci_size :: u64
  ci_skip :: bool

definition str_back :: "local_env \<Rightarrow> string \<Rightarrow> char" where
  "str_back env p = (if p = [] then lc_stray env else last p)"

definition with_separator :: "local_env \<Rightarrow> string \<Rightarrow> string" where
  "with_separator env p = (if str_back env p \<noteq> CHR ''/'' then p @ ''/'' else p)"

definition ensure_trailing_separators :: "local_env \<Rightarrow> string \<times> string \<Rightarrow> string \<times> string" where
  "ensure_trailing_separators env x = (case x of (l, r) \<Rightarrow> (with_separator env l, with_separator env r))"

definition S_IFBLK :: u32 where "S_IFBLK = 0x6000"
definition S_IFCHR :: u32 where "S_IFCHR = 0x2000"

definition should_pull_file :: "u32 \<Rightarrow> bool" where
  "should_pull_file mode \<longleftrightarrow> S_ISREG mode \<or> mode AND S_IFMT = S_IFBLK \<or> mode AND S_IFMT = S_IFCHR"

definition should_push_file :: "u32 \<Rightarrow> bool" where
  "should_push_file mode \<longleftrightarrow> S_ISREG mode \<or> S_ISLNK mode"

definition new_copyinfo :: "local_env \<Rightarrow> string \<Rightarrow> string \<Rightarrow> string \<Rightarrow> u32 \<Rightarrow> copyinfo" where
  "new_copyinfo env local_path remote_path name mode =
    (case ensure_trailing_separators env (local_path, remote_path) of (l, r) \<Rightarrow>
      case (if S_ISDIR mode then ensure_trailing_separators env (l @ name, r @ name) else (l @ name, r @ name)) of (l1, r1) \<Rightarrow>
        \<lparr>ci_lpath = l1, ci_rpath = r1, ci_time = 0, ci_mode = mode, ci_size = 0, ci_skip = False\<rparr>)"

definition IsDotOrDotDot :: "string \<Rightarrow> bool" where
  "IsDotOrDotDot name \<longleftrightarrow> name = ''.'' \<or> name = ''..''"

definition ComputeExpectedTotalBytes :: "copyinfo list \<Rightarrow> sync_conn \<Rightarrow> sync_conn" where
  "ComputeExpectedTotalBytes file_list C =
    C\<lparr>sc_current := (sc_current C)\<lparr>bytes_expected := sum_list (map ci_size (filter (\<lambda>ci. \<not> ci_skip ci) file_list)),
       expect_multiple_files := True\<rparr>\<rparr>"

definition octal :: "u32 \<Rightarrow> string" where
  "octal m = (let f = (\<lambda>i. hex_digit (unat (drop_bit (3 * i) m AND 7))) in
     let ds = dropWhile (\<lambda>c. c = CHR ''0'') (map f (rev [0..<11])) in if ds = [] then ''0'' else ds)"

definition skip_warning :: "string \<Rightarrow> u32 \<Rightarrow> string" where
  "skip_warning path mode = ''skipping special file '' @ quoted path @ '' (mode = 0o'' @ octal mode @ '')''"

end
