(* ===== verification/Sync_Copy.thy ===== *)
theory Sync_Copy
  imports Sync_Client
begin

text \<open>
  file\_sync\_client.cpp: the lists of files of a directory on either side, and the commands push,
  pull, sync and ls. The recursion over directories has fuel: nothing in the code bounds it but the
  depth of the tree.
\<close>

section \<open>Local directories\<close>

text \<open>The loop over the entries of a directory: directories to visit and files to copy.\<close>

fun local_entries ::
    "local_env \<Rightarrow> string \<Rightarrow> string \<Rightarrow> string list \<Rightarrow> copyinfo list \<Rightarrow> copyinfo list \<Rightarrow> sync_conn \<Rightarrow>
     (copyinfo list \<times> copyinfo list \<times> sync_conn) res" where
  "local_entries env lpath rpath [] dirs files C = Inr (dirs, files, C)"
| "local_entries env lpath rpath (n # ns) dirs files C =
    (if IsDotOrDotDot n then local_entries env lpath rpath ns dirs files C
     else
       (case lc_stat env (sc_ltrace C) False (lpath @ n) of
          Inl e \<Rightarrow>
            bindR (sc_Error (''cannot lstat '' @ quoted (lpath @ n) @ '': '' @ lc_strerror env e) (C\<lparr>sc_errno := e\<rparr>))
              (local_entries env lpath rpath ns dirs files)
        | Inr st \<Rightarrow>
            let ci = new_copyinfo env lpath rpath n (st_mode st) in
            if S_ISDIR (st_mode st) then local_entries env lpath rpath ns (dirs @ [ci]) files C
            else
              (let skip = \<not> should_push_file (st_mode st);
                   ci1 = ci\<lparr>ci_skip := skip, ci_time := st_mtime st, ci_size := st_size st\<rparr> in
               bindR (if skip then sc_Warning (skip_warning lpath (st_mode st)) C else Inr C)
                 (local_entries env lpath rpath ns dirs (files @ [ci1])))))"

text \<open>
  The result of a recursive call is not looked at: a directory that cannot be opened is left out.
\<close>

fun local_build_list ::
    "local_env \<Rightarrow> nat \<Rightarrow> string \<Rightarrow> string \<Rightarrow> copyinfo list \<Rightarrow> sync_conn \<Rightarrow> (bool \<times> copyinfo list \<times> sync_conn) res"
and local_build_dirs :: "local_env \<Rightarrow> nat \<Rightarrow> copyinfo list \<Rightarrow> copyinfo list \<Rightarrow> sync_conn \<Rightarrow> (copyinfo list \<times> sync_conn) res" where
  "local_build_list env 0 lpath rpath file_list C = Inl OutOfFuel"
| "local_build_list env (Suc fuel) lpath rpath file_list C =
    (case lc_dir env (sc_ltrace C) lpath of
       Inl e \<Rightarrow>
         bindR (sc_Error (''cannot open '' @ quoted lpath @ '': '' @ lc_strerror env e) (C\<lparr>sc_errno := e\<rparr>)) (\<lambda>C1.
           Inr (False, file_list, C1))
     | Inr ns \<Rightarrow>
         bindR (local_entries env lpath rpath ns [] file_list C) (\<lambda>(dirs, files, C1).
           if \<forall>n \<in> set ns. IsDotOrDotDot n then
             (let ci = new_copyinfo env (Dirname (lc_base env) lpath) (Dirname (lc_base env) rpath) (lc_basename env lpath) S_IFDIR in
              bindR (sc_Warning (''skipping empty directory '' @ quoted lpath) C1) (\<lambda>C2.
                Inr (True, files @ [ci\<lparr>ci_skip := True\<rparr>], C2)))
           else bindR (local_build_dirs env fuel dirs files C1) (\<lambda>(files2, C2). Inr (True, files2, C2))))"
| "local_build_dirs env fuel [] file_list C = Inr (file_list, C)"
| "local_build_dirs env fuel (ci # cis) file_list C =
    bindR (local_build_list env fuel (ci_lpath ci) (ci_rpath ci) file_list C) (\<lambda>(_, fl, C1).
      local_build_dirs env fuel cis fl C1)"

fun send_lstats :: "local_env \<Rightarrow> copyinfo list \<Rightarrow> sync_conn \<Rightarrow> (bool \<times> sync_conn) res" where
  "send_lstats env [] C = Inr (True, C)"
| "send_lstats env (ci # cis) C =
    bindR (SendLstat env (ci_rpath ci) C) (\<lambda>(ok, C1).
      if ok then send_lstats env cis C1 else fail_with ''failed to send lstat'' C1)"

fun finish_lstats :: "local_env \<Rightarrow> copyinfo list \<Rightarrow> sync_conn \<Rightarrow> (copyinfo list \<times> sync_conn) res" where
  "finish_lstats env [] C = Inr ([], C)"
| "finish_lstats env (ci # cis) C =
    bindR (FinishStat env C) (\<lambda>(r, C1).
    bindR (finish_lstats env cis C1) (\<lambda>(rest, C2).
      Inr ((case r of
              Some st \<Rightarrow> if st_size st = ci_size ci \<and> up_to_date (ci_mode ci) (ci_time ci) st then ci\<lparr>ci_skip := True\<rparr> else ci
            | None \<Rightarrow> ci) # rest, C2)))"

text \<open>The loop that pushes; the number counts the files that were skipped.\<close>

fun push_files :: "local_env \<Rightarrow> bool \<Rightarrow> copyinfo list \<Rightarrow> nat \<Rightarrow> sync_conn \<Rightarrow> (nat option \<times> sync_conn) res" where
  "push_files env list_only [] skipped C = Inr (Some skipped, C)"
| "push_files env list_only (ci # cis) skipped C =
    (if ci_skip ci then push_files env list_only cis (Suc skipped) C
     else if list_only then
       bindR (sc_Println (''would push: '' @ ci_lpath ci @ '' -> '' @ ci_rpath ci) C) (push_files env list_only cis skipped)
     else
       bindR (sync_send env (ci_lpath ci) (ci_rpath ci) (ucast (ci_time ci)) (ci_mode ci) False C) (\<lambda>(ok, C1).
         if ok then push_files env list_only cis skipped C1 else Inr (None, C1)))"

definition copy_local_dir_remote ::
    "local_env \<Rightarrow> nat \<Rightarrow> string \<Rightarrow> string \<Rightarrow> bool \<Rightarrow> bool \<Rightarrow> sync_conn \<Rightarrow> (bool \<times> sync_conn) res" where
  "copy_local_dir_remote env fuel lpath0 rpath0 check_timestamps list_only C0 =
    (case ensure_trailing_separators env (lpath0, rpath0) of (lpath, rpath) \<Rightarrow>
      bindR (local_build_list env fuel lpath rpath [] (NewTransfer C0)) (\<lambda>(ok, fl, C1).
        if \<not> ok then Inr (False, C1)
        else
          bindR (if check_timestamps then
                   bindR (send_lstats env fl C1) (\<lambda>(ok2, C2).
                     if ok2 then bindR (finish_lstats env fl C2) (\<lambda>(fl2, C3). Inr (Some fl2, C3)) else Inr (None, C2))
                 else Inr (Some fl, C1)) (\<lambda>(r, C2).
            case r of
              None \<Rightarrow> Inr (False, C2)
            | Some fl2 \<Rightarrow>
                bindR (push_files env list_only fl2 0 (ComputeExpectedTotalBytes fl2 C2)) (\<lambda>(r2, C3).
                  case r2 of
                    None \<Rightarrow> Inr (False, C3)
                  | Some skipped \<Rightarrow>
                      bindR (ReportTransferRate env lpath push (RecordFilesSkipped skipped C3)) (\<lambda>C4. Inr (True, C4))))))"

section \<open>push\<close>

text \<open>The byte \<open>dst[dst_len - 1]\<close>, before an empty string whatever is there.\<close>

definition dst_child :: "local_env \<Rightarrow> string \<Rightarrow> string \<Rightarrow> string" where
  "dst_child env dst src = with_separator env dst @ lc_basename env src"

fun push_each :: "local_env \<Rightarrow> nat \<Rightarrow> bool \<Rightarrow> bool \<Rightarrow> bool \<Rightarrow> string \<Rightarrow> string list \<Rightarrow> bool \<Rightarrow> sync_conn \<Rightarrow> (bool \<times> sync_conn) res" where
  "push_each env fuel dst_exists dst_isdir sync dst [] success C =
    bindR (ReportOverallTransferRate env push C) (\<lambda>C1. Inr (success, C1))"
| "push_each env fuel dst_exists dst_isdir sync dst (src # srcs) success C =
    (case lc_stat env (sc_ltrace C) True src of
       Inl e \<Rightarrow>
         bindR (sc_Error (''cannot stat '' @ quoted src @ '': '' @ lc_strerror env e) (C\<lparr>sc_errno := e\<rparr>))
           (push_each env fuel dst_exists dst_isdir sync dst srcs False)
     | Inr st \<Rightarrow>
         if S_ISDIR (st_mode st) then
           (if dst_exists \<and> \<not> dst_isdir then fail_with (''target '' @ quoted dst @ '' is not a directory'') C
            else
              bindR (copy_local_dir_remote env fuel src (if dst_exists then dst_child env dst src else dst) sync False C)
                (\<lambda>(ok, C1). push_each env fuel dst_exists dst_isdir sync dst srcs (success \<and> ok) C1))
         else if \<not> should_push_file (st_mode st) then
           bindR (sc_Warning (skip_warning src (st_mode st)) C) (push_each env fuel dst_exists dst_isdir sync dst srcs success)
         else
           bindR (sync_send env src (if dst_isdir then dst_child env dst src else dst) (ucast (st_mtime st)) (st_mode st) sync
               (SetExpectedTotalBytes (st_size st) (NewTransfer C))) (\<lambda>(ok, C1).
           bindR (ReportTransferRate env src push C1) (push_each env fuel dst_exists dst_isdir sync dst srcs (success \<and> ok))))"

definition sync_push :: "local_env \<Rightarrow> nat \<Rightarrow> string list \<Rightarrow> string \<Rightarrow> bool \<Rightarrow> sync_conn \<Rightarrow> (bool \<times> sync_conn) res" where
  "sync_push env fuel srcs dst sync C =
    bindR (sync_stat_fallback env dst C) (\<lambda>(r, C1).
      if r = None \<and> sc_errno C1 \<notin> {lc_host env ''ENOENT'', lc_host env ''ENOPROTOOPT''}
      then fail_with (''stat failed when trying to push to '' @ dst @ '': '' @ lc_strerror env (sc_errno C1)) C1
      else
        (let dst_exists = (r \<noteq> None); dst_isdir = (case r of Some st \<Rightarrow> S_ISDIR (st_mode st) | None \<Rightarrow> False) in
         if \<not> dst_isdir \<and> 1 < length srcs then fail_with (''target '' @ quoted dst @ '' is not a directory'') C1
         else if \<not> dst_isdir \<and> str_back env dst = CHR ''/'' \<and> dst_exists
         then fail_with (''failed to access '' @ quoted dst @ '': Not a directory'') C1
         else push_each env fuel dst_exists dst_isdir sync dst srcs True C1))"

section \<open>Directories of the device\<close>

text \<open>The callback of remote\_build\_list: directories, links and the list of files.\<close>

fun remote_entries ::
    "local_env \<Rightarrow> string \<Rightarrow> string \<Rightarrow> (u32 \<times> u32 \<times> u32 \<times> string) list \<Rightarrow> copyinfo list \<Rightarrow> copyinfo list \<Rightarrow> copyinfo list \<Rightarrow> sync_conn \<Rightarrow>
     (copyinfo list \<times> copyinfo list \<times> copyinfo list \<times> sync_conn) res" where
  "remote_entries env lpath rpath [] dirs links files C = Inr (dirs, links, files, C)"
| "remote_entries env lpath rpath ((mode, len, time, name) # es) dirs links files C =
    (if IsDotOrDotDot name then remote_entries env lpath rpath es dirs links files C
     else
       (let ci = new_copyinfo env lpath rpath name mode in
        if S_ISDIR mode then remote_entries env lpath rpath es (dirs @ [ci]) links files C
        else if S_ISLNK mode then remote_entries env lpath rpath es dirs (links @ [ci]) files C
        else
          (let skip = \<not> should_pull_file mode in
           bindR (if skip then sc_Warning (skip_warning (ci_rpath ci) mode) C else Inr C)
             (remote_entries env lpath rpath es dirs links
               (files @ [ci\<lparr>ci_skip := skip, ci_time := ucast time, ci_size := ucast len\<rparr>])))))"

fun resolve_links :: "local_env \<Rightarrow> copyinfo list \<Rightarrow> copyinfo list \<Rightarrow> copyinfo list \<Rightarrow> sync_conn \<Rightarrow> (copyinfo list \<times> copyinfo list \<times> sync_conn) res" where
  "resolve_links env [] dirs files C = Inr (dirs, files, C)"
| "resolve_links env (ci # cis) dirs files C =
    bindR (sync_stat_fallback env (ci_rpath ci) C) (\<lambda>(r, C1).
      case r of
        None \<Rightarrow>
          bindR (sc_Warning (''stat failed for path '' @ ci_rpath ci @ '': '' @ lc_strerror env (sc_errno C1)) C1)
            (resolve_links env cis dirs files)
      | Some st \<Rightarrow>
          if S_ISDIR (st_mode st) then resolve_links env cis (dirs @ [ci]) files C1
          else resolve_links env cis dirs (files @ [ci]) C1)"

text \<open>The directories are visited from the back of the list; a failure ends all.\<close>

fun remote_build_list ::
    "local_env \<Rightarrow> nat \<Rightarrow> string \<Rightarrow> string \<Rightarrow> copyinfo list \<Rightarrow> sync_conn \<Rightarrow> (bool \<times> copyinfo list \<times> sync_conn) res"
and remote_build_dirs :: "local_env \<Rightarrow> nat \<Rightarrow> copyinfo list \<Rightarrow> copyinfo list \<Rightarrow> sync_conn \<Rightarrow> (bool \<times> copyinfo list \<times> sync_conn) res" where
  "remote_build_list env 0 rpath lpath file_list C = Inl OutOfFuel"
| "remote_build_list env (Suc fuel) rpath lpath file_list C =
    (let ci = new_copyinfo env (Dirname (lc_base env) lpath) (Dirname (lc_base env) rpath) (lc_basename env lpath) S_IFDIR in
     bindR (sync_ls env rpath C) (\<lambda>(ok, es, C1).
     bindR (remote_entries env lpath rpath es [] [] (file_list @ [ci]) C1) (\<lambda>(dirs, links, files, C2).
       if \<not> ok then Inr (False, files, C2)
       else
         bindR (resolve_links env links dirs files C2) (\<lambda>(dirs2, files2, C3).
           remote_build_dirs env fuel (rev dirs2) files2 C3))))"
| "remote_build_dirs env fuel [] file_list C = Inr (True, file_list, C)"
| "remote_build_dirs env fuel (ci # cis) file_list C =
    bindR (remote_build_list env fuel (ci_rpath ci) (ci_lpath ci) file_list C) (\<lambda>(ok, fl, C1).
      if ok then remote_build_dirs env fuel cis fl C1 else Inr (False, fl, C1))"

section \<open>pull\<close>

text \<open>utime, and chmod within the umask: whether both succeed; both are tried.\<close>

definition set_time_and_mode :: "local_env \<Rightarrow> string \<Rightarrow> u64 \<Rightarrow> u32 \<Rightarrow> sync_conn \<Rightarrow> bool \<times> sync_conn" where
  "set_time_and_mode env lpath time mode C =
    (case local_call env (L_utime lpath time) C of (r1, C1) \<Rightarrow>
      case local_call env (L_chmod lpath (mode AND NOT (lc_umask env))) C1 of (r2, C2) \<Rightarrow> (r1 \<and> r2, C2))"

fun pull_files :: "local_env \<Rightarrow> bool \<Rightarrow> copyinfo list \<Rightarrow> nat \<Rightarrow> sync_conn \<Rightarrow> (nat option \<times> sync_conn) res" where
  "pull_files env copy_attrs [] skipped C = Inr (Some skipped, C)"
| "pull_files env copy_attrs (ci # cis) skipped C =
    (if ci_skip ci then pull_files env copy_attrs cis (Suc skipped) C
     else if S_ISDIR (ci_mode ci) then
       (case local_call env (L_mkdirs (ci_lpath ci)) C of (ok, C1) \<Rightarrow>
         if ok then pull_files env copy_attrs cis skipped C1
         else bindR (sc_Error (''failed to create directory '' @ quoted (ci_lpath ci) @ '': '' @ lc_strerror env (sc_errno C1)) C1)
                (\<lambda>C2. Inr (None, C2)))
     else
       bindR (sync_recv env (ci_rpath ci) (ci_lpath ci) None (ci_size ci) C) (\<lambda>(ok, C1).
         if \<not> ok then Inr (None, C1)
         else if copy_attrs then
           (case set_time_and_mode env (ci_lpath ci) (ci_time ci) (ci_mode ci) C1 of (ok2, C2) \<Rightarrow>
             if ok2 then pull_files env copy_attrs cis skipped C2 else Inr (None, C2))
         else pull_files env copy_attrs cis skipped C1))"

definition copy_remote_dir_local :: "local_env \<Rightarrow> nat \<Rightarrow> string \<Rightarrow> string \<Rightarrow> bool \<Rightarrow> sync_conn \<Rightarrow> (bool \<times> sync_conn) res" where
  "copy_remote_dir_local env fuel rpath0 lpath0 copy_attrs C0 =
    (case ensure_trailing_separators env (lpath0, rpath0) of (lpath, rpath) \<Rightarrow>
      bindR (sc_print ''pull: building file list...'' INFO (NewTransfer C0)) (\<lambda>C.
      bindR (remote_build_list env fuel rpath lpath [] C) (\<lambda>(ok, fl, C1).
        if \<not> ok then Inr (False, C1)
        else
          bindR (pull_files env copy_attrs fl 0 (ComputeExpectedTotalBytes fl C1)) (\<lambda>(r, C2).
            case r of
              None \<Rightarrow> Inr (False, C2)
            | Some skipped \<Rightarrow>
                bindR (ReportTransferRate env rpath pull (RecordFilesSkipped skipped C2)) (\<lambda>C3. Inr (True, C3))))))"

fun pull_each ::
    "local_env \<Rightarrow> nat \<Rightarrow> bool \<Rightarrow> bool \<Rightarrow> bool \<Rightarrow> string option \<Rightarrow> string \<Rightarrow> string list \<Rightarrow> bool \<Rightarrow> sync_conn \<Rightarrow> (bool \<times> sync_conn) res" where
  "pull_each env fuel dst_exists dst_isdir copy_attrs name dst [] success C =
    bindR (ReportOverallTransferRate env pull C) (\<lambda>C1. Inr (success, C1))"
| "pull_each env fuel dst_exists dst_isdir copy_attrs name dst (src # srcs) success C =
    bindR (sync_stat_fallback env src C) (\<lambda>(r, C1).
      case r of
        None \<Rightarrow>
          bindR (sc_Error (if sc_errno C1 = lc_host env ''ENOPROTOOPT'' then ''remote object '' @ quoted src @ '' does not exist''
              else ''failed to stat remote object '' @ quoted src @ '': '' @ lc_strerror env (sc_errno C1)) C1)
            (pull_each env fuel dst_exists dst_isdir copy_attrs name dst srcs False)
      | Some st \<Rightarrow>
          if S_ISDIR (st_mode st) then
            (if dst_exists \<and> \<not> dst_isdir then fail_with (''target '' @ quoted dst @ '' is not a directory'') C1
             else
               bindR (copy_remote_dir_local env fuel src (if dst_exists then dst_child env dst src else dst) copy_attrs C1)
                 (\<lambda>(ok, C2). pull_each env fuel dst_exists dst_isdir copy_attrs name dst srcs (success \<and> ok) C2))
          else if \<not> should_pull_file (st_mode st) then
            bindR (sc_Warning (skip_warning src (st_mode st)) C1) (pull_each env fuel dst_exists dst_isdir copy_attrs name dst srcs success)
          else
            (let dst_path = (if dst_isdir then dst @ ''/'' @ lc_basename env src else dst) in
             bindR (sync_recv env src dst_path name (st_size st) (SetExpectedTotalBytes (st_size st) (NewTransfer C1))) (\<lambda>(ok, C2).
               if \<not> ok then pull_each env fuel dst_exists dst_isdir copy_attrs name dst srcs False C2
               else
                 (case (if copy_attrs then set_time_and_mode env dst_path (st_mtime st) (st_mode st) C2 else (True, C2)) of (ok2, C3) \<Rightarrow>
                   if \<not> ok2 then pull_each env fuel dst_exists dst_isdir copy_attrs name dst srcs False C3
                   else bindR (ReportTransferRate env src pull C3)
                          (pull_each env fuel dst_exists dst_isdir copy_attrs name dst srcs success)))))"

definition sync_pull :: "local_env \<Rightarrow> nat \<Rightarrow> string list \<Rightarrow> string \<Rightarrow> bool \<Rightarrow> string option \<Rightarrow> sync_conn \<Rightarrow> (bool \<times> sync_conn) res" where
  "sync_pull env fuel srcs dst copy_attrs name C =
    (let go = (\<lambda>dst_exists dst_isdir C1.
           if \<not> dst_isdir \<and> 1 < length srcs then fail_with (''target '' @ quoted dst @ '' is not a directory'') C1
           else if \<not> dst_isdir \<and> str_back env dst = CHR ''/'' \<and> dst_exists
           then fail_with (''failed to access '' @ quoted dst @ '': Not a directory'') C1
           else pull_each env fuel dst_exists dst_isdir copy_attrs name dst srcs True C1) in
     case lc_stat env (sc_ltrace C) True dst of
       Inr st \<Rightarrow> go True (S_ISDIR (st_mode st)) C
     | Inl e \<Rightarrow>
         let C1 = C\<lparr>sc_errno := e\<rparr> in
         if length srcs = 1 \<and> e = lc_host env ''ENOENT'' then
           (case lc_stat env (sc_ltrace C) True (Dirname (lc_base env) dst) of
              Inl e2 \<Rightarrow> fail_with (''cannot create file/directory '' @ quoted dst @ '': '' @ lc_strerror env e2) (C1\<lparr>sc_errno := e2\<rparr>)
            | Inr _ \<Rightarrow> go False False C1)
         else fail_with (''failed to access '' @ quoted dst @ '': '' @ lc_strerror env e) C1)"

section \<open>Connections\<close>

definition zero_ledger :: ledger where
  "zero_ledger = \<lparr>files_transferred = 0, files_skipped = 0, bytes_transferred = 0, bytes_expected = 0, expect_multiple_files = False\<rparr>"

text \<open>The constructor of SyncConnection; None where the connection is not valid.\<close>

definition new_sync_connection :: "client_env \<Rightarrow> int list \<Rightarrow> line_printer \<Rightarrow> client \<Rightarrow> (sync_conn option \<times> line_printer \<times> client) res" where
  "new_sync_connection cenv polls lp K =
    bindR (adb_get_feature_set cenv K) (\<lambda>(fs, error, K1).
      case fs of
        None \<Rightarrow> bindR (lp_Print (''adb: error: failed to get feature set: '' @ error) ERROR lp) (\<lambda>lp1. Inr (None, lp1, K1))
      | Some feats \<Rightarrow>
          bindR (adb_connect cenv ''sync:'' K1) (\<lambda>(r, error2, K2).
            case r of
              Conn f \<Rightarrow>
                Inr (Some \<lparr>sc_fd = f, sc_max = SYNC_DATA_MAX, sc_expect_done = False, sc_stat_v2 = CanUseFeature feats kFeatureStat2,
                  sc_global = zero_ledger, sc_current = zero_ledger, sc_lp = lp, sc_errno = 0, sc_polls = polls, sc_ltrace = []\<rparr>, lp, K2)
            | NoConn _ \<Rightarrow> bindR (lp_Print (''adb: error: connect failed: '' @ error2) ERROR lp) (\<lambda>lp1. Inr (None, lp1, K2))))"

text \<open>The destructor.\<close>

definition end_sync_connection :: "local_env \<Rightarrow> sync_conn \<Rightarrow> sync_conn res" where
  "end_sync_connection env C =
    bindR (SendRequest env ID_QUIT [] C) (\<lambda>(ok, C1).
    bindR (if ok then bindR (ReadOrderlyShutdown (sc_fd C1)) (\<lambda>(_, _, _, f). Inr (C1\<lparr>sc_fd := f\<rparr>)) else Inr C1) (\<lambda>C2.
      Inr (C2\<lparr>sc_lp := KeepInfoLine (sc_lp C2)\<rparr>)))"

definition with_connection ::
    "local_env \<Rightarrow> client_env \<Rightarrow> int list \<Rightarrow> line_printer \<Rightarrow> client \<Rightarrow> (sync_conn \<Rightarrow> (bool \<times> sync_conn) res) \<Rightarrow> (bool \<times> line_printer \<times> ltrace \<times> client) res" where
  "with_connection env cenv polls lp K act =
    bindR (new_sync_connection cenv polls lp K) (\<lambda>(c, lp1, K1).
      case c of
        None \<Rightarrow> Inr (False, lp1, [], K1)
      | Some C \<Rightarrow>
          bindR (act C) (\<lambda>(ok, C1). bindR (end_sync_connection env C1) (\<lambda>C2. Inr (ok, sc_lp C2, sc_ltrace C2, K1))))"

definition do_sync_push ::
    "local_env \<Rightarrow> client_env \<Rightarrow> nat \<Rightarrow> int list \<Rightarrow> line_printer \<Rightarrow> client \<Rightarrow> string list \<Rightarrow> string \<Rightarrow> bool \<Rightarrow> (bool \<times> line_printer \<times> ltrace \<times> client) res" where
  "do_sync_push env cenv fuel polls lp K srcs dst sync = with_connection env cenv polls lp K (sync_push env fuel srcs dst sync)"

definition do_sync_pull ::
    "local_env \<Rightarrow> client_env \<Rightarrow> nat \<Rightarrow> int list \<Rightarrow> line_printer \<Rightarrow> client \<Rightarrow> string list \<Rightarrow> string \<Rightarrow> bool \<Rightarrow> string option \<Rightarrow>
     (bool \<times> line_printer \<times> ltrace \<times> client) res" where
  "do_sync_pull env cenv fuel polls lp K srcs dst copy_attrs name =
    with_connection env cenv polls lp K (sync_pull env fuel srcs dst copy_attrs name)"

definition do_sync_sync ::
    "local_env \<Rightarrow> client_env \<Rightarrow> nat \<Rightarrow> int list \<Rightarrow> line_printer \<Rightarrow> client \<Rightarrow> string \<Rightarrow> string \<Rightarrow> bool \<Rightarrow> (bool \<times> line_printer \<times> ltrace \<times> client) res" where
  "do_sync_sync env cenv fuel polls lp K lpath rpath list_only =
    with_connection env cenv polls lp K (\<lambda>C.
      bindR (copy_local_dir_remote env fuel lpath rpath True list_only C) (\<lambda>(ok, C1).
        if list_only then Inr (ok, C1) else bindR (ReportOverallTransferRate env push C1) (\<lambda>C2. Inr (ok, C2))))"

text \<open>do\_sync\_ls prints each entry at once; the result is what it printed, also after a failure.\<close>

definition do_sync_ls :: "local_env \<Rightarrow> client_env \<Rightarrow> line_printer \<Rightarrow> client \<Rightarrow> string \<Rightarrow> (bool \<times> string \<times> client) res" where
  "do_sync_ls env cenv lp K path =
    bindR (new_sync_connection cenv [] lp K) (\<lambda>(c, lp1, K1).
      case c of
        None \<Rightarrow> Inr (False, [], K1)
      | Some C \<Rightarrow>
          bindR (sync_ls env path C) (\<lambda>(ok, es, C1).
          bindR (end_sync_connection env C1) (\<lambda>_. Inr (ok, concat (map ls_line es), K1))))"

end
