(* ===== verification/Install.thy ===== *)
theory Install
  imports Commandline Shell_Client Sync_Copy Adb_Utils
begin

text \<open>
  commandline.cpp: the commands that hold one conversation with the device each: adb install,
  install-multiple, uninstall, logcat, root, backup and restore, and the functions they share. The
  texts adb itself prints are left out; what the device says is kept. The local files do not change
  while a command runs.
\<close>

section \<open>State\<close>

record cmd_env =
  cx_client :: client_env
  cx_local :: local_env
  cx_term :: "string option"                     \<comment> \<open>TERM\<close>
  cx_log_tags :: "string option"                 \<comment> \<open>ANDROID\_LOG\_TAGS\<close>
  cx_bufsiz :: nat
  cx_stray :: char
  cx_stat :: "string \<Rightarrow> nat option"              \<comment> \<open>the size of a local file, where stat succeeds\<close>
  cx_open :: "string \<Rightarrow> fd_state option"
  cx_creat :: "string \<Rightarrow> fd_state option"
  cx_ends_with :: "string \<Rightarrow> string \<Rightarrow> bool"    \<comment> \<open>EndsWithIgnoreCase of libbase\<close>
  cx_polls :: "int list"
  cx_depth :: nat                                \<comment> \<open>the fuel of a push\<close>

text \<open>
  A conversation over: the service, the connection as adb\_connect gave it (None: there was none),
  what was sent on it and the line that came back.
\<close>

record exchange =
  ex_service :: string
  ex_conn :: "fd_state option"
  ex_sent :: string
  ex_status :: string

record cmd =
  cm_client :: client
  cm_log :: "exchange list"
  cm_std :: std_streams
  cm_lp :: line_printer

definition logged :: "exchange \<Rightarrow> cmd \<Rightarrow> cmd" where
  "logged e S = S\<lparr>cm_log := cm_log S @ [e]\<rparr>"

definition print_out :: "string \<Rightarrow> cmd \<Rightarrow> cmd" where
  "print_out s S = S\<lparr>cm_std := cm_std S\<lparr>host_stdout := host_stdout (cm_std S) @ s\<rparr>\<rparr>"

section \<open>Copying\<close>

datatype sink = Stdout string | Sink fd_state

fun put :: "sink \<Rightarrow> string \<Rightarrow> sink" where
  "put (Stdout out) bs = Stdout (out @ bs)"
| "put (Sink f) bs = Sink (snd (adb_write f bs))"   \<comment> \<open>the result of adb\_write is not looked at\<close>

function copy_to_file :: "fd_state \<Rightarrow> sink \<Rightarrow> fd_state \<times> sink" where
  "copy_to_file f out =
    (case adb_read f (32 * 1024) of
       (Ret k, bs, f1) \<Rightarrow> if k = 0 then (f1, out) else copy_to_file f1 (put out bs)
     | (Err e, bs, f1) \<Rightarrow> (f1, out))"
  by pat_completeness auto
termination
  by (relation "measure (\<lambda>(f, out). rsize f)") (auto dest!: adb_read_some [OF sym])

declare copy_to_file.simps [simp del]

text \<open>The loop of read\_status\_line, and the text as a C string.\<close>

function status_loop :: "fd_state \<Rightarrow> nat \<Rightarrow> string \<Rightarrow> string \<times> fd_state" where
  "status_loop f count acc =
    (if count = 0 then (acc, f)
     else
       (case adb_read f count of
          (Ret k, bs, f1) \<Rightarrow> if k = 0 then (acc, f1) else status_loop f1 (count - k) (acc @ bs)
        | (Err e, bs, f1) \<Rightarrow> (acc, f1)))"
  by pat_completeness auto
termination
  by (relation "measure (\<lambda>(f, count, acc). count)") auto

declare status_loop.simps [simp del]

definition read_status_line :: "fd_state \<Rightarrow> nat \<Rightarrow> string \<times> fd_state" where
  "read_status_line f count = (case status_loop f (count - 1) [] of (s, f1) \<Rightarrow> (c_str s, f1))"

definition write_zeros :: "nat \<Rightarrow> sink \<Rightarrow> sink" where
  "write_zeros bytes out = put out (replicate bytes (CHR 0x00))"

section \<open>One conversation\<close>

text \<open>
  adb\_connect, the copy of a local file where there is one, the line of the answer and the close:
  the steps that the installation commands repeat. None where there is no connection.
\<close>

definition sink_fd :: "sink \<Rightarrow> fd_state \<Rightarrow> fd_state" where
  "sink_fd out f = (case out of Sink f1 \<Rightarrow> f1 | Stdout _ \<Rightarrow> f)"

definition conversation :: "cmd_env \<Rightarrow> string \<Rightarrow> fd_state option \<Rightarrow> cmd \<Rightarrow> (string option \<times> cmd) res" where
  "conversation env service src S =
    bindR (adb_connect (cx_client env) service (cm_client S)) (\<lambda>(c, error, C1).
      let S1 = S\<lparr>cm_client := C1\<rparr> in
      case c of
        NoConn n \<Rightarrow>
          if n < 0 then Inr (None, logged \<lparr>ex_service = service, ex_conn = None, ex_sent = [], ex_status = []\<rparr> S1)
          else Inl (Fatal ''no descriptor'')
      | Conn f \<Rightarrow>
          let f1 = (case src of None \<Rightarrow> f | Some l \<Rightarrow> sink_fd (snd (copy_to_file l (Sink f))) f);
              (buf, f2) = read_status_line f1 (cx_bufsiz env) in
          Inr (Some buf, logged \<lparr>ex_service = service, ex_conn = Some f, ex_sent = drop (length (written f)) (written f2), ex_status = buf\<rparr> S1))"

text \<open>\<open>strncmp("Success", buf, 7)\<close>\<close>

definition success :: "string \<Rightarrow> bool" where
  "success buf \<longleftrightarrow> prefix ''Success'' buf"

section \<open>Shell commands\<close>

definition wait_for_device :: "cmd_env \<Rightarrow> string \<Rightarrow> TransportType \<Rightarrow> string option \<Rightarrow> client \<Rightarrow> (bool \<times> client) res" where
  "wait_for_device env service t serial0 C =
    (case wait_for_device_request (cl_base (cx_client env)) service t serial0 of
       None \<Rightarrow> Inr (False, C)
     | Some cmd \<Rightarrow> bindR (adb_command (cx_client env) cmd C) (\<lambda>(ok, error, C1). Inr (ok, C1)))"

text \<open>
  A connection takes one of the answers of \<open>conns\<close>, so that waiting for a device cannot succeed for
  ever.
\<close>

lemma next_conn_fewer:
  "next_conn C = (Inr f, C1) \<Longrightarrow> length (conns C1) < length (conns C)"
  "next_conn C = (x, C1) \<Longrightarrow> length (conns C1) \<le> length (conns C)"
  by (auto simp: next_conn_def split: list.splits)

lemma adb_connect1_fewer:
  assumes "adb_connect1 env service C = Inr (r, error, C1)"
  shows "length (conns C1) \<le> length (conns C)" "r = Conn f \<Longrightarrow> length (conns C1) < length (conns C)"
  using assms next_conn_fewer [of C]
  by (auto simp: adb_connect1_def split: if_splits sum.splits prod.splits)

lemma start_server_same: "start_server C = Some C1 \<Longrightarrow> conns C1 = conns C"
  by (auto simp: start_server_def split: list.splits if_splits)

lemma after_launch_fewer:
  assumes "after_launch env service C = Inr (r, error, C1)"
  shows "length (conns C1) \<le> length (conns C)" "r = Conn f \<Longrightarrow> length (conns C1) < length (conns C)"
  using assms adb_connect1_fewer [of env service]
  by (fastforce simp: after_launch_def connect_service_now_def dest: start_server_same split: option.splits if_splits)+

lemma adb_kill_server_fewer: "adb_kill_server env C = Inr (ok, C1) \<Longrightarrow> length (conns C1) \<le> length (conns C)"
  using next_conn_fewer(2) [of "C\<lparr>kills := kills C + 1\<rparr>"]
  by (fastforce simp: adb_kill_server_def Let_def split: sum.splits prod.splits if_splits)

lemma server_version_same: "server_version env r error C = Inr (Inl (r1, error1, C1)) \<Longrightarrow> C1 = C \<and> (\<forall>f. r1 \<noteq> Conn f)"
  by (auto simp: server_version_def split: conn.splits option.splits if_splits prod.splits)

lemma adb_connect_fewer:
  assumes "adb_connect env service C = Inr (r, error, C1)"
  shows "length (conns C1) \<le> length (conns C)" "r = Conn f \<Longrightarrow> length (conns C1) < length (conns C)"
proof -
  obtain r0 e0 C0 where 0: "adb_connect1 env ''host:version'' C = Inr (r0, e0, C0)"
    using assms by (auto simp: adb_connect_def)
  note le = adb_connect1_fewer(1) [OF 0]
  have "length (conns C1) \<le> length (conns C0) \<and> (r = Conn f \<longrightarrow> length (conns C1) < length (conns C0) \<or> r0 = Conn f)"
  proof (cases "r0 = NoConn (-2)")
    case True
    then show ?thesis using assms 0 after_launch_fewer [of env service C0 r error C1]
      by (auto simp: adb_connect_def split: if_splits)
  next
    case False
    then obtain v where v: "server_version env r0 e0 C0 = Inr v" using assms 0 by (auto simp: adb_connect_def)
    show ?thesis
    proof (cases v)
      case (Inl d)
      then show ?thesis using False assms 0 v server_version_same [of env r0 e0 C0] by (cases d) (auto simp: adb_connect_def)
    next
      case (Inr version)
      show ?thesis
      proof (cases "version = int ADB_SERVER_VERSION")
        case True
        then show ?thesis using False assms 0 v Inr adb_connect1_fewer [of env service C0 r error C1]
          by (auto simp: adb_connect_def connect_service_now_def split: if_splits)
      next
        case other: False
        then obtain ok C2 where C2: "adb_kill_server env C0 = Inr (ok, C2)" "after_launch env service C2 = Inr (r, error, C1)"
          using False assms 0 v Inr by (auto simp: adb_connect_def)
        then show ?thesis using adb_kill_server_fewer [OF C2(1)] after_launch_fewer [OF C2(2)] by fastforce
      qed
    qed
  qed
  then show "length (conns C1) \<le> length (conns C)" "r = Conn f \<Longrightarrow> length (conns C1) < length (conns C)"
    using le adb_connect1_fewer(2) [OF 0, of f] by auto
qed

lemma adb_command_fewer:
  assumes "adb_command env service C = Inr (True, error, C1)"
  shows "length (conns C1) < length (conns C)"
proof -
  obtain r e C0 where r: "adb_connect env service C = Inr (r, e, C0)" using assms by (auto simp: adb_command_def)
  obtain f where f: "r = Conn f" using assms r by (cases r) (auto simp: adb_command_def split: if_splits)
  then have "C0 = C1" using assms r by (auto simp: adb_command_def split: if_splits)
  with adb_connect_fewer(2) [OF r f] show ?thesis by simp
qed

lemma adb_query_fewer:
  assumes "adb_query env service C = Inr (ok, result, error, C1)"
  shows "length (conns C1) \<le> length (conns C)"
proof -
  obtain r e C0 where r: "adb_connect env service C = Inr (r, e, C0)" using assms by (auto simp: adb_query_def)
  then have "C0 = C1" using assms by (cases r) (auto simp: adb_query_def split: if_splits)
  with adb_connect_fewer(1) [OF r] show ?thesis by simp
qed

lemma adb_get_feature_set_fewer:
  "adb_get_feature_set env C = Inr (fs, error, C1) \<Longrightarrow> length (conns C1) \<le> length (conns C)"
  by (auto simp: adb_get_feature_set_def dest!: adb_query_fewer)

lemma wait_for_device_fewer: "wait_for_device env service t serial0 C = Inr (True, C1) \<Longrightarrow> length (conns C1) < length (conns C)"
  by (auto simp: wait_for_device_def split: option.splits dest!: adb_command_fewer)

text \<open>One turn of the loop of send\_shell\_command up to waiting: the connection, where there is one.\<close>

definition shell_attempt :: "cmd_env \<Rightarrow> string \<Rightarrow> bool \<Rightarrow> client \<Rightarrow> (conn \<times> bool \<times> string \<times> client) res" where
  "shell_attempt env cmd disable_shell_protocol C =
    bindR (if disable_shell_protocol then Inr (True, False, C)
           else bindR (adb_get_feature_set (cx_client env) C) (\<lambda>(features, error, C1).
             Inr (case features of Some fs \<Rightarrow> (True, CanUseFeature fs kFeatureShell2, C1) | None \<Rightarrow> (False, False, C1))))
      (\<lambda>(attempt_connection, use_shell_protocol, C1).
        let service = ShellServiceString (cl_base (cx_client env)) use_shell_protocol (cx_term env) [] cmd in
        if attempt_connection
        then bindR (adb_connect (cx_client env) service C1) (\<lambda>(c, error, C2). Inr (c, use_shell_protocol, service, C2))
        else Inr (NoConn (-1), use_shell_protocol, service, C1))"

lemma shell_attempt_fewer:
  assumes "shell_attempt env cmd dis C = Inr (c, use, service, C1)"
  shows "length (conns C1) \<le> length (conns C)"
proof (cases dis)
  case True
  then show ?thesis using assms by (auto simp: shell_attempt_def Let_def dest!: adb_connect_fewer(1))
next
  case False
  then obtain fs e C0 where "adb_get_feature_set (cx_client env) C = Inr (fs, e, C0)" using assms by (auto simp: shell_attempt_def)
  with False assms show ?thesis using adb_get_feature_set_fewer [of "cx_client env" C fs e C0]
    by (cases fs) (auto simp: shell_attempt_def Let_def dest!: adb_connect_fewer(1))
qed

function shell_connection ::
    "cmd_env \<Rightarrow> TransportType \<Rightarrow> string option \<Rightarrow> string \<Rightarrow> bool \<Rightarrow> client \<Rightarrow> ((fd_state \<times> bool \<times> string) option \<times> client) res" where
  "shell_connection env t serial0 cmd dis C =
    bindR (shell_attempt env cmd dis C) (\<lambda>(c, use_shell_protocol, service, C1).
      case c of
        Conn f \<Rightarrow> Inr (Some (f, use_shell_protocol, service), C1)
      | NoConn n \<Rightarrow>
          bindR (wait_for_device env ''wait-for-device'' t serial0 C1) (\<lambda>(ok, C2).
            if \<not> ok then Inr (None, C2) else shell_connection env t serial0 cmd dis C2))"
  by pat_completeness auto
termination
  by (relation "measure (\<lambda>(env, t, serial0, cmd, dis, C). length (conns C))")
    (auto dest!: shell_attempt_fewer wait_for_device_fewer intro: less_le_trans)

declare shell_connection.simps [simp del]

definition send_shell_command :: "cmd_env \<Rightarrow> TransportType \<Rightarrow> string option \<Rightarrow> string \<Rightarrow> bool \<Rightarrow> cmd \<Rightarrow> (int \<times> cmd) res" where
  "send_shell_command env t serial0 cmd disable_shell_protocol S =
    bindR (shell_connection env t serial0 cmd disable_shell_protocol (cm_client S)) (\<lambda>(c, C1).
      let S1 = S\<lparr>cm_client := C1\<rparr> in
      case c of
        None \<Rightarrow> Inr (1, S1)
      | Some (f, use_shell_protocol, service) \<Rightarrow>
          bindR (read_and_dump default_callback (cx_bufsiz env) (cx_stray env) (Some f) use_shell_protocol (cm_std S1)) (\<lambda>(exit_code, st).
            Inr (exit_code, logged \<lparr>ex_service = service, ex_conn = Some f, ex_sent = [], ex_status = []\<rparr> (S1\<lparr>cm_std := st\<rparr>))))"

text \<open>The arguments of a command for the device's shell, each with a blank before it.\<close>

definition escaped_args :: "string list \<Rightarrow> string" where
  "escaped_args args = concat (map (\<lambda>a. '' '' @ escape_arg a) args)"

definition logcat :: "cmd_env \<Rightarrow> TransportType \<Rightarrow> string option \<Rightarrow> string list \<Rightarrow> cmd \<Rightarrow> (int \<times> cmd) res" where
  "logcat env t serial0 args S =
    (let quoted = escape_arg (case cx_log_tags env of None \<Rightarrow> [] | Some tags \<Rightarrow> tags);
         cmd = ''export ANDROID_LOG_TAGS='' @ [CHR 0x22] @ quoted @ [CHR 0x22] @ ''; exec logcat'' @
               (if hd args = ''longcat'' then '' -v long'' else []) @ escaped_args (tl args) in
     send_shell_command env t serial0 cmd True S)"

definition pm_command :: "cmd_env \<Rightarrow> TransportType \<Rightarrow> string option \<Rightarrow> string list \<Rightarrow> cmd \<Rightarrow> (int \<times> cmd) res" where
  "pm_command env t serial0 args S = send_shell_command env t serial0 (''pm'' @ escaped_args args) False S"

definition uninstall_app :: "cmd_env \<Rightarrow> TransportType \<Rightarrow> string option \<Rightarrow> string list \<Rightarrow> cmd \<Rightarrow> (int \<times> cmd) res" where
  "uninstall_app env t serial0 args S =
    (if ''-k'' \<in> set args then Inr (1, S)
     else send_shell_command env t serial0 (''cmd package'' @ escaped_args args) False S)"

definition uninstall_app_legacy :: "cmd_env \<Rightarrow> TransportType \<Rightarrow> string option \<Rightarrow> string list \<Rightarrow> cmd \<Rightarrow> (int \<times> cmd) res" where
  "uninstall_app_legacy env t serial0 args S =
    (if ''-k'' \<in> set (tl args) then Inr (1, S) else pm_command env t serial0 args S)"

definition delete_file :: "cmd_env \<Rightarrow> TransportType \<Rightarrow> string option \<Rightarrow> string \<Rightarrow> cmd \<Rightarrow> (int \<times> cmd) res" where
  "delete_file env t serial0 filename S = send_shell_command env t serial0 (''rm -f '' @ escape_arg filename) False S"

section \<open>Simple commands\<close>

definition adb_connect_command :: "cmd_env \<Rightarrow> string \<Rightarrow> cmd \<Rightarrow> (int \<times> cmd) res" where
  "adb_connect_command env service S =
    bindR (adb_connect (cx_client env) service (cm_client S)) (\<lambda>(c, error, C1).
      let S1 = S\<lparr>cm_client := C1\<rparr> in
      case c of
        NoConn n \<Rightarrow> if n < 0 then Inr (1, S1) else Inl (Fatal ''no descriptor'')
      | Conn f \<Rightarrow>
          bindR (read_and_dump default_callback (cx_bufsiz env) (cx_stray env) (Some f) False (cm_std S1)) (\<lambda>(_, st).
            Inr (0, logged \<lparr>ex_service = service, ex_conn = Some f, ex_sent = [], ex_status = []\<rparr> (S1\<lparr>cm_std := st\<rparr>))))"

definition adb_query_command :: "cmd_env \<Rightarrow> string \<Rightarrow> cmd \<Rightarrow> (int \<times> cmd) res" where
  "adb_query_command env service S =
    bindR (adb_query (cx_client env) service (cm_client S)) (\<lambda>(ok, result, error, C1).
      let S1 = S\<lparr>cm_client := C1\<rparr> in
      if \<not> ok then Inr (1, S1) else Inr (0, print_out (c_str result @ [CHR 0x0A]) S1))"

text \<open>
  The answer to root and unroot, at most 255 bytes: None where reading fails. The pause of three
  seconds is left out.
\<close>

function root_loop :: "fd_state \<Rightarrow> nat \<Rightarrow> string \<Rightarrow> string option" where
  "root_loop f left acc =
    (if left = 0 then Some acc
     else
       (case adb_read f left of
          (Ret k, bs, f1) \<Rightarrow> if k = 0 then Some acc else root_loop f1 (left - k) (acc @ bs)
        | (Err e, _, _) \<Rightarrow> None))"
  by pat_completeness auto
termination
  by (relation "measure (\<lambda>(f, n, acc). n)") auto

declare root_loop.simps [simp del]

definition adb_root :: "cmd_env \<Rightarrow> string \<Rightarrow> cmd \<Rightarrow> (bool \<times> cmd) res" where
  "adb_root env cmd S =
    bindR (adb_connect (cx_client env) (cmd @ '':'') (cm_client S)) (\<lambda>(c, error, C1).
      let S1 = S\<lparr>cm_client := C1\<rparr> in
      case c of
        NoConn n \<Rightarrow> if n < 0 then Inr (False, S1) else Inl (Fatal ''no descriptor'')
      | Conn f \<Rightarrow>
          let S2 = logged \<lparr>ex_service = cmd @ '':'', ex_conn = Some f, ex_sent = [], ex_status = []\<rparr> S1 in
          (case root_loop f 256 [] of
             None \<Rightarrow> Inr (False, S2)
           | Some buf \<Rightarrow> if length buf = 256 then Inr (False, S2) else Inr (True, print_out buf S2)))"

section \<open>Backup and restore\<close>

text \<open>The first -f is taken out with its argument; None where it has none.\<close>

fun extract_f :: "string list \<Rightarrow> (string option \<times> string list) option" where
  "extract_f [] = Some (None, [])"
| "extract_f (a # args) =
    (if a = ''-f'' then (case args of [] \<Rightarrow> None | filename # rest \<Rightarrow> Some (Some filename, rest))
     else map_option (\<lambda>(filename, rest). (filename, a # rest)) (extract_f args))"

text \<open>
  \<open>args\<close> starts with the name of the command; \<open>cx_creat\<close> is adb\_unlink and adb\_creat, and the result
  has the file as it was written.
\<close>

definition backup :: "cmd_env \<Rightarrow> string list \<Rightarrow> cmd \<Rightarrow> (int \<times> (string \<times> fd_state) option \<times> cmd) res" where
  "backup env args S =
    (case extract_f (tl args) of
       None \<Rightarrow> Inr (1, None, S)
     | Some (f, rest) \<Rightarrow>
         let filename = (case f of Some n \<Rightarrow> n | None \<Rightarrow> ''backup.ab'') in
         if rest = [] then Inr (1, None, S)
         else
           (case cx_creat env filename of
              None \<Rightarrow> Inr (1, None, S)
            | Some outFd \<Rightarrow>
                let cmd = ''backup:'' @ escaped_args rest in
                bindR (adb_connect (cx_client env) cmd (cm_client S)) (\<lambda>(c, error, C1).
                  let S1 = S\<lparr>cm_client := C1\<rparr> in
                  case c of
                    NoConn n \<Rightarrow> if n < 0 then Inr (1, Some (filename, outFd), S1) else Inl (Fatal ''no descriptor'')
                  | Conn fd \<Rightarrow>
                      Inr (0, Some (filename, sink_fd (snd (copy_to_file fd (Sink outFd))) outFd),
                        logged \<lparr>ex_service = cmd, ex_conn = Some fd, ex_sent = [], ex_status = []\<rparr> S1))))"

definition restore :: "cmd_env \<Rightarrow> string list \<Rightarrow> cmd \<Rightarrow> (int \<times> cmd) res" where
  "restore env args S =
    (if length args \<noteq> 2 then Inr (1, S)
     else
       (case cx_open env (args ! 1) of
          None \<Rightarrow> Inr (-1, S)
        | Some tarFd \<Rightarrow>
            bindR (adb_connect (cx_client env) ''restore:'' (cm_client S)) (\<lambda>(c, error, C1).
              let S1 = S\<lparr>cm_client := C1\<rparr> in
              case c of
                NoConn n \<Rightarrow> if n < 0 then Inr (-1, S1) else Inl (Fatal ''no descriptor'')
              | Conn fd \<Rightarrow>
                  let f1 = sink_fd (write_zeros (512 * 2) (snd (copy_to_file tarFd (Sink fd)))) fd in
                  (case copy_to_file f1 (Stdout []) of
                     (f2, out) \<Rightarrow>
                       Inr (0, print_out (case out of Stdout s \<Rightarrow> s | Sink _ \<Rightarrow> [])
                         (logged \<lparr>ex_service = ''restore:'', ex_conn = Some fd, ex_sent = drop (length (written fd)) (written f2), ex_status = []\<rparr> S1))))))"

section \<open>The arguments of push and pull\<close>

text \<open>The sources with the destination, and the flags -a and --sync; None where adb exits.\<close>

fun push_pull_flags :: "bool \<Rightarrow> string list \<Rightarrow> (string list \<times> bool \<times> bool) option" where
  "push_pull_flags ign [] = Some ([], False, False)"
| "push_pull_flags ign (arg # args) =
    (if ign \<or> arg = [] \<or> hd arg \<noteq> CHR ''-''
     then map_option (\<lambda>(srcs, a, s). (arg # srcs, a, s)) (push_pull_flags ign args)
     else if arg = ''-p'' then push_pull_flags ign args
     else if arg = ''-a'' then map_option (\<lambda>(srcs, a, s). (srcs, True, s)) (push_pull_flags ign args)
     else if arg = ''--sync'' then map_option (\<lambda>(srcs, a, s). (srcs, a, True)) (push_pull_flags ign args)
     else if arg = ''--'' then push_pull_flags True args
     else None)"

text \<open>\<open>dst\<close> is the destination where none is given.\<close>

definition parse_push_pull_args :: "string list \<Rightarrow> string option \<Rightarrow> (string list \<times> string option \<times> bool \<times> bool) option" where
  "parse_push_pull_args args dst =
    map_option (\<lambda>(srcs, copy_attrs, sync). if length srcs > 1 then (butlast srcs, Some (last srcs), copy_attrs, sync) else (srcs, dst, copy_attrs, sync))
      (push_pull_flags False args)"

section \<open>Installation\<close>

definition use_legacy_install :: "cmd_env \<Rightarrow> client \<Rightarrow> (bool \<times> client) res" where
  "use_legacy_install env C =
    bindR (adb_get_feature_set (cx_client env) C) (\<lambda>(features, error, C1).
      Inr (case features of None \<Rightarrow> True | Some fs \<Rightarrow> \<not> CanUseFeature fs kFeatureCmd, C1))"

text \<open>\<open>args\<close> is not empty and starts with the name of the command, here and below.\<close>

definition install_app :: "cmd_env \<Rightarrow> string list \<Rightarrow> cmd \<Rightarrow> (int \<times> cmd) res" where
  "install_app env args S =
    (let apk = last args in
     if \<not> cx_ends_with env apk ''.apk'' then Inr (1, S)
     else
       (case cx_stat env apk of
          None \<Rightarrow> Inr (1, S)
        | Some sz \<Rightarrow>
            (case cx_open env apk of
               None \<Rightarrow> Inr (1, S)
             | Some localFd \<Rightarrow>
                 bindR (conversation env (''exec:cmd package'' @ escaped_args (butlast args) @ '' -S '' @ dec_of_nat (sz mod 2 ^ 64)) (Some localFd) S)
                   (\<lambda>(r, S1).
                     case r of
                       None \<Rightarrow> Inr (1, S1)
                     | Some buf \<Rightarrow> if success buf then Inr (0, print_out buf S1) else Inr (1, S1)))))"

text \<open>The index of the first APK of those at the end of the arguments.\<close>

definition first_apk :: "cmd_env \<Rightarrow> string list \<Rightarrow> nat option" where
  "first_apk env args =
    (let k = length (dropWhile (\<lambda>a. cx_ends_with env a ''.apk'') (rev args)) in
     if k = length args then None else Some k)"

definition total_size :: "cmd_env \<Rightarrow> string list \<Rightarrow> nat" where
  "total_size env apks = sum_list (map (\<lambda>a. case cx_stat env a of None \<Rightarrow> 0 | Some sz \<Rightarrow> sz) apks) mod 2 ^ 64"

text \<open>The text behind the last occurrence of a character, and the text before it.\<close>

definition strrchr :: "char \<Rightarrow> string \<Rightarrow> (string \<times> string) option" where
  "strrchr c s =
    (if c \<in> set s then Some (rev (tl (dropWhile (\<lambda>d. d \<noteq> c) (rev s))), rev (takeWhile (\<lambda>d. d \<noteq> c) (rev s))) else None)"

text \<open>The number in brackets; the text ends at the last closing bracket where that is behind.\<close>

definition session_id :: "string \<Rightarrow> int" where
  "session_id buf =
    (if success buf then
       (case (strrchr (CHR ''['') buf, strrchr (CHR '']'') buf) of
          (Some (_, start), Some _) \<Rightarrow>
            to_int32 (strtol10 (case strrchr (CHR '']'') start of Some (number, _) \<Rightarrow> number | None \<Rightarrow> start))
        | _ \<Rightarrow> -1)
     else -1)"

definition write_service :: "cmd_env \<Rightarrow> string \<Rightarrow> int \<Rightarrow> nat \<Rightarrow> string \<Rightarrow> nat \<Rightarrow> string" where
  "write_service env install_cmd sid i apk sz =
    install_cmd @ '' install-write -S '' @ dec_of_nat (sz mod 2 ^ 64) @ '' '' @ dec_of_int sid @ '' '' @ dec_of_nat i @ ''_'' @
    lc_basename (cx_local env) apk @ '' -''"

text \<open>The APKs from index \<open>i\<close> on: whether all were sent and acknowledged.\<close>

fun stream_apks :: "cmd_env \<Rightarrow> string \<Rightarrow> int \<Rightarrow> nat \<Rightarrow> string list \<Rightarrow> cmd \<Rightarrow> (bool \<times> cmd) res" where
  "stream_apks env install_cmd sid i [] S = Inr (True, S)"
| "stream_apks env install_cmd sid i (apk # apks) S =
    (case cx_stat env apk of
       None \<Rightarrow> Inr (False, S)
     | Some sz \<Rightarrow>
         (case cx_open env apk of
            None \<Rightarrow> Inr (False, S)
          | Some localFd \<Rightarrow>
              bindR (conversation env (write_service env install_cmd sid i apk sz) (Some localFd) S) (\<lambda>(r, S1).
                case r of
                  None \<Rightarrow> Inr (False, S1)
                | Some buf \<Rightarrow> if success buf then stream_apks env install_cmd sid (i + 1) apks S1 else Inr (False, S1))))"

definition finalize_service :: "string \<Rightarrow> bool \<Rightarrow> int \<Rightarrow> string" where
  "finalize_service install_cmd ok sid = install_cmd @ '' install-'' @ (if ok then ''commit'' else ''abandon'') @ '' '' @ dec_of_int sid"

definition finalize_session :: "cmd_env \<Rightarrow> string \<Rightarrow> bool \<Rightarrow> int \<Rightarrow> cmd \<Rightarrow> (int \<times> cmd) res" where
  "finalize_session env install_cmd ok sid S =
    bindR (conversation env (finalize_service install_cmd ok sid) None S) (\<lambda>(r, S1).
      case r of
        None \<Rightarrow> Inr (1, S1)
      | Some buf \<Rightarrow> if success buf then Inr (0, print_out buf S1) else Inr (1, S1))"

definition create_service :: "cmd_env \<Rightarrow> string \<Rightarrow> nat \<Rightarrow> string list \<Rightarrow> string" where
  "create_service env install_cmd k args =
    install_cmd @ '' install-create -S '' @ dec_of_nat (total_size env (drop k args)) @ escaped_args (take (k - 1) (tl args))"

definition install_multiple_app :: "cmd_env \<Rightarrow> string list \<Rightarrow> cmd \<Rightarrow> (int \<times> cmd) res" where
  "install_multiple_app env args S =
    (case first_apk env args of
       None \<Rightarrow> Inr (1, S)
     | Some k \<Rightarrow>
         bindR (use_legacy_install env (cm_client S)) (\<lambda>(legacy, C1).
           let install_cmd = (if legacy then ''exec:pm'' else ''exec:cmd package'') in
           bindR (conversation env (create_service env install_cmd k args) None (S\<lparr>cm_client := C1\<rparr>)) (\<lambda>(r, S1).
             case r of
               None \<Rightarrow> Inr (1, S1)
             | Some buf \<Rightarrow>
                 let sid = session_id buf in
                 if sid < 0 then Inr (1, S1)
                 else
                   bindR (stream_apks env install_cmd sid k (drop k args) S1) (\<lambda>(ok, S2).
                     finalize_session env install_cmd ok sid S2))))"

text \<open>The APK is pushed, installed from there and deleted again, also where the push failed.\<close>

definition last_apk :: "cmd_env \<Rightarrow> string list \<Rightarrow> nat option" where
  "last_apk env args =
    (let k = length (dropWhile (\<lambda>a. \<not> cx_ends_with env a ''.apk'') (rev args)) in
     if k = 0 then None else Some (k - 1))"

definition apk_dest :: "cmd_env \<Rightarrow> string list \<Rightarrow> nat \<Rightarrow> string" where
  "apk_dest env args k =
    (if ''-s'' \<in> set (tl args) then ''/sdcard/tmp/'' else ''/data/local/tmp/'') @ lc_basename (cx_local env) (args ! k)"

definition install_app_legacy :: "cmd_env \<Rightarrow> TransportType \<Rightarrow> string option \<Rightarrow> string list \<Rightarrow> cmd \<Rightarrow> (int \<times> cmd) res" where
  "install_app_legacy env t serial0 args S =
    (case last_apk env args of
       None \<Rightarrow> Inr (1, S)
     | Some k \<Rightarrow>
         let dest = apk_dest env args k in
         bindR (do_sync_push (cx_local env) (cx_client env) (cx_depth env) (cx_polls env) (cm_lp S) (cm_client S) [args ! k] dest False)
           (\<lambda>(ok, lp, _, C1).
             let S1 = S\<lparr>cm_client := C1, cm_lp := lp\<rparr> in
             bindR (if \<not> ok then Inr (-1, S1) else pm_command env t serial0 (args[k := dest]) S1) (\<lambda>(result, S2).
             bindR (delete_file env t serial0 dest S2) (\<lambda>(_, S3). Inr (result, S3)))))"

end
