(* ===== verification/Sync_Push.thy ===== *)
theory Sync_Push
  imports Sync_Copy
begin

text \<open>
  Pushing a file: what the client sends is what the device stores. The calls of the device are
  read as operations on a store of files, the abstract specification of the service.
\<close>

section \<open>Streams of messages\<close>

lemma sync_ids_distinct_rev:
  "distinct [ID_QUIT, ID_FAIL, ID_OKAY, ID_DATA, ID_DONE, ID_DENT, ID_RECV, ID_SEND, ID_LIST, ID_LSTAT_V2, ID_STAT_V2, ID_LSTAT_V1]"
  by code_simp

lemmas sync_ids_neq_rev [simp] = sync_ids_distinct_rev [simplified]

text \<open>A connection that gives data and then the end of file, again and again.\<close>

definition hangs_up :: "fd_state \<Rightarrow> bool" where
  "hangs_up f \<longleftrightarrow> (\<exists>ds k. rscript f = map RData ds @ replicate k (RData []) \<and> [] \<notin> set ds)"

lemma adb_read_hangs_up:
  assumes "adb_read f n = (r, bs, f')" and "hangs_up f" and "0 < n"
  shows "hangs_up f'"
proof -
  from assms(2) obtain ds k where f: "rscript f = map RData ds @ replicate k (RData [])" "[] \<notin> set ds" unfolding hangs_up_def by blast
  show ?thesis
  proof (cases ds)
    case Nil
    have "\<exists>j. rscript f' = replicate j (RData [])" using assms(1) f(1) Nil by (cases k) (auto simp: adb_read_def)
    then show ?thesis unfolding hangs_up_def by (metis append_Nil empty_iff list.simps(8) list.set(1))
  next
    case (Cons d es)
    then have "rscript f' = map RData es @ replicate k (RData []) \<or>
        (length d > n \<and> rscript f' = map RData (drop n d # es) @ replicate k (RData []))"
      using assms(1) f(1) by (auto simp: adb_read_def split: if_splits)
    then show ?thesis
    proof (elim disjE conjE)
      assume "length d > n" "rscript f' = map RData (drop n d # es) @ replicate k (RData [])"
      moreover have "[] \<notin> set (drop n d # es)" using \<open>length d > n\<close> f(2) Cons by auto
      ultimately show ?thesis unfolding hangs_up_def by blast
    qed (use f(2) Cons in \<open>auto simp: hangs_up_def\<close>)
  qed
qed

lemma ReadFdExactly_keeps: "ReadFdExactly f n acc = (ok, e, bs, f') \<Longrightarrow> hangs_up f \<Longrightarrow> hangs_up f'"
  by (erule ReadFdExactly_inv, assumption) (rule adb_read_hangs_up)

text \<open>The same descriptor, but with only \<open>rest\<close> left to read.\<close>

definition reads_off :: "string \<Rightarrow> fd_state \<Rightarrow> fd_state \<Rightarrow> bool" where
  "reads_off rest f f' \<longleftrightarrow> stream (rscript f') = rest \<and> wscript f' = wscript f \<and> written f' = written f \<and> (hangs_up f \<longrightarrow> hangs_up f')"

lemma reads_off_trans: "reads_off a f f1 \<Longrightarrow> reads_off b f1 f2 \<Longrightarrow> reads_off b f f2"
  by (simp add: reads_off_def)

lemma ReadFdExactly_stream:
  assumes "stream (rscript f) = a @ rest"
  shows "\<exists>f'. ReadFdExactly f (length a) [] = (True, ENONE, a, f') \<and> reads_off rest f f'"
proof -
  from ReadFdExactly_available [of "length a" f "[]"] assms obtain f' where
    r: "ReadFdExactly f (length a) [] = (True, ENONE, a, f')" "stream (rscript f') = rest" by auto
  then show ?thesis using ReadFdExactly_keeps [OF r(1)] ReadFdExactly_written [OF r(1)] by (auto simp: reads_off_def)
qed

lemma read_sock_stream:
  assumes "stream (rscript (sy_sock s)) = a @ rest"
  shows "\<exists>f. read_sock (length a) s = (True, a, s\<lparr>sy_sock := f\<rparr>) \<and> reads_off rest (sy_sock s) f"
  using ReadFdExactly_stream [OF assms] by (auto simp: read_sock_def)

lemma read_msg_stream:
  assumes "stream (rscript (sy_sock s)) = data_bytes i n @ rest"
  shows "\<exists>f. read_msg s = (Some (i, n), s\<lparr>sy_sock := f\<rparr>) \<and> reads_off rest (sy_sock s) f"
  using read_sock_stream [OF assms] by (auto simp: read_msg_def)

lemma read_buf_stream:
  assumes "stream (rscript (sy_sock s)) = a @ rest"
  shows "\<exists>f. read_buf (length a) s = (True, s\<lparr>sy_sock := f, sy_buf := a @ drop (length a) (sy_buf s)\<rparr>) \<and> reads_off rest (sy_sock s) f"
  using read_sock_stream [OF assms] by (auto simp: read_buf_def)

section \<open>A write that fails did not write all\<close>

lemma WriteFdExactly_strict: "WriteFdExactly f buf = Inr (False, e, f') \<Longrightarrow> \<exists>r < length buf. written f' = written f @ take r buf"
proof (induction f buf rule: WriteFdExactly.induct)
  case (1 f buf)
  show ?case
  proof (cases "buf = [] \<or> wscript f = []")
    case True
    then show ?thesis using "1.prems" by (subst (asm) WriteFdExactly.simps) (auto split: if_splits)
  next
    case False
    obtain ret f1 where w: "adb_write f buf = (ret, f1)" by force
    from adb_write_prefix [OF w] obtain r where r: "r \<le> length buf" "written f1 = written f @ take r buf"
      "case ret of Ret k \<Rightarrow> r = k | Err e \<Rightarrow> r = 0" by blast
    show ?thesis
    proof (cases ret)
      case (Ret k)
      with False w "1.prems" have "WriteFdExactly f1 (drop k buf) = Inr (False, e, f')"
        by (subst (asm) WriteFdExactly.simps) auto
      from "1.IH"(1) [OF _ _ w [symmetric] _ this] False Ret obtain r2 where
        "r2 < length (drop k buf)" "written f' = written f1 @ take r2 (drop k buf)" by auto
      with r Ret show ?thesis by (intro exI [of _ "r + r2"]) (auto simp: take_add)
    next
      case (Err x)
      show ?thesis
      proof (cases "x = EAGAIN")
        case True
        with False w Err "1.prems" have "WriteFdExactly f1 buf = Inr (False, e, f')"
          by (subst (asm) WriteFdExactly.simps) auto
        from "1.IH"(2) [OF _ _ w [symmetric] _ _ this] False Err True r show ?thesis by auto
      next
        case False2: False
        with False w Err "1.prems" r show ?thesis
          by (subst (asm) WriteFdExactly.simps) (auto split: if_splits intro!: exI [of _ 0])
      qed
    qed
  qed
qed

section \<open>Replies\<close>

abbreviation okay_reply :: string where "okay_reply \<equiv> data_bytes ID_OKAY 0"

text \<open>The same but for the descriptor, errno and what was sent.\<close>

definition sends :: "string \<Rightarrow> sync_state \<Rightarrow> sync_state \<Rightarrow> bool" where
  "sends m s s' \<longleftrightarrow> written (sy_sock s') = written (sy_sock s) @ m \<and> rscript (sy_sock s') = rscript (sy_sock s) \<and>
     sy_trace s' = sy_trace s \<and> sy_buf s' = sy_buf s \<and> sy_file s' = sy_file s"

lemma write_sock_sends:
  assumes "write_sock b s = Inr (ok, s')"
  shows "\<exists>r \<le> length b. sends (take r b) s s' \<and> (ok \<longleftrightarrow> r = length b)"
proof -
  obtain e f where w: "WriteFdExactly (sy_sock s) b = Inr (ok, e, f)"
    and s': "s' = s\<lparr>sy_sock := f, sy_err := (if ok then sy_err s else e)\<rparr>" using assms by (auto simp: write_sock_def)
  from WriteFdExactly_prefix [OF w] obtain r where r: "r \<le> length b" "written f = written (sy_sock s) @ take r b"
    "rscript f = rscript (sy_sock s)" "ok \<longrightarrow> r = length b" by blast
  show ?thesis
  proof (cases ok)
    case False
    with WriteFdExactly_strict [of "sy_sock s" b e f] w obtain r2 where "r2 < length b" "written f = written (sy_sock s) @ take r2 b" by auto
    then show ?thesis using False r s' by (intro exI [of _ r2]) (auto simp: sends_def)
  qed (use r s' in \<open>auto simp: sends_def\<close>)
qed

text \<open>Bytes in which the client does not find a status message OKAY.\<close>

definition no_okay :: "string \<Rightarrow> bool" where
  "no_okay m \<longleftrightarrow> \<not> (8 \<le> length m \<and> fst (data_of_bytes (take 8 m)) = ID_OKAY)"

lemma okay_not_fail: "no_okay (take k (data_bytes ID_FAIL n @ m))"
proof (cases "8 \<le> k")
  case True
  then have "take 8 (take k (data_bytes ID_FAIL n @ m)) = data_bytes ID_FAIL n" by (simp add: min_def)
  then show ?thesis unfolding no_okay_def by simp
qed (simp add: no_okay_def)

lemma SendSyncFail_bytes:
  assumes "SendSyncFail reason s = Inr (ok, s')"
  shows "\<exists>k. sends (take k (data_bytes ID_FAIL (of_nat (length reason)) @ reason)) s s'"
proof -
  let ?h = "data_bytes ID_FAIL (of_nat (length reason))"
  from assms obtain ok1 s1 where w: "write_sock ?h s = Inr (ok1, s1)"
    and rest: "(if ok1 then write_sock reason s1 else Inr (False, s1)) = Inr (ok, s')" by (auto simp: SendSyncFail_def)
  from write_sock_sends [OF w] obtain r where r: "sends (take r ?h) s s1" "ok1 \<longleftrightarrow> r = length ?h" "r \<le> length ?h" by blast
  show ?thesis
  proof (cases ok1)
    case False
    then have "s' = s1" using rest by simp
    moreover have "take r ?h = take r (?h @ reason)" using r(3) by simp
    ultimately show ?thesis using r(1) by metis
  next
    case True
    with rest write_sock_sends obtain k where k: "sends (take k reason) s1 s'" by fastforce
    have "sends (?h @ take k reason) s s'" using r k True by (auto simp: sends_def)
    moreover have "?h @ take k reason = take (8 + k) (?h @ reason)" by simp
    ultimately show ?thesis by metis
  qed
qed

lemma SendSyncFail_sends:
  assumes "SendSyncFail reason s = Inr (ok, s')"
  shows "\<exists>m. sends m s s' \<and> no_okay m"
  using SendSyncFail_bytes [OF assms] okay_not_fail by blast

lemma SendSyncFailErrno_sends: "SendSyncFailErrno env reason s = Inr (ok, s') \<Longrightarrow> \<exists>m. sends m s s' \<and> no_okay m"
  unfolding SendSyncFailErrno_def by (rule SendSyncFail_sends)

section \<open>The data\<close>

definition chunk_bytes :: "string \<Rightarrow> string" where
  "chunk_bytes c = data_bytes ID_DATA (of_nat (length c)) @ c"

definition chunks_bytes :: "string list \<Rightarrow> string" where
  "chunks_bytes cs = concat (map chunk_bytes cs)"

lemma chunks_bytes_simps [simp]: "chunks_bytes [] = []" "chunks_bytes (c # cs) = chunk_bytes c @ chunks_bytes cs"
  by (simp_all add: chunks_bytes_def)

definition fitting :: "sync_state \<Rightarrow> string list \<Rightarrow> bool" where
  "fitting s cs \<longleftrightarrow> (\<forall>c \<in> set cs. length c \<le> length (sy_buf s) \<and> length c < 2 ^ 32)"

lemma unat_length: "length c < 2 ^ 32 \<Longrightarrow> unat (of_nat (length c) :: u32) = length c"
  by (simp add: unat_of_nat)

text \<open>One DATA message: what is left is to write it to the file.\<close>

lemma send_loop_chunk:
  assumes "stream (rscript (sy_sock s)) = chunk_bytes c @ rest" and "length c \<le> length (sy_buf s)" and "length c < 2 ^ 32"
  shows "\<exists>f. reads_off rest (sy_sock s) f \<and> send_loop env s =
    bindR (write_file c (s\<lparr>sy_sock := f, sy_buf := c @ drop (length c) (sy_buf s)\<rparr>)) (\<lambda>(ok, s3).
      if ok then send_loop env s3 else bindR (SendSyncFailErrno env ''write failed'' s3) (\<lambda>(_, s4). Inr (SendFailed, s4)))"
proof -
  have u: "unat (of_nat (length c) :: u32) = length c" by (rule unat_length [OF assms(3)])
  obtain f1 where f1: "read_msg s = (Some (ID_DATA, of_nat (length c)), s\<lparr>sy_sock := f1\<rparr>)" "reads_off (c @ rest) (sy_sock s) f1"
    using read_msg_stream [of s ID_DATA "of_nat (length c)" "c @ rest"] assms(1) by (auto simp: chunk_bytes_def)
  obtain f2 where f2: "read_buf (length c) (s\<lparr>sy_sock := f1\<rparr>) = (True, s\<lparr>sy_sock := f2, sy_buf := c @ drop (length c) (sy_buf s)\<rparr>)"
    "reads_off rest f1 f2"
    using read_buf_stream [of "s\<lparr>sy_sock := f1\<rparr>" c rest] f1(2) by (auto simp: reads_off_def)
  have "reads_off rest (sy_sock s) f2" using f1(2) f2(2) by (simp add: reads_off_def)
  then show ?thesis
    by (intro exI [of _ f2] conjI, assumption, subst send_loop.simps) (use f1(1) f2(1) u assms(2) in simp)
qed

lemma send_loop_done:
  assumes "stream (rscript (sy_sock s)) = data_bytes ID_DONE t @ rest"
  shows "\<exists>f. reads_off rest (sy_sock s) f \<and> send_loop env s = Inr (SendDone t, s\<lparr>sy_sock := f\<rparr>)"
proof -
  obtain f where "read_msg s = (Some (ID_DONE, t), s\<lparr>sy_sock := f\<rparr>)" "reads_off rest (sy_sock s) f"
    using read_msg_stream [OF assms] by blast
  moreover from this have "send_loop env s = Inr (SendDone t, s\<lparr>sy_sock := f\<rparr>)" by (subst send_loop.simps) simp
  ultimately show ?thesis by blast
qed

text \<open>
  The whole loop: it ends with the data in the file, or with a message that is not OKAY; the file
  is written in order.
\<close>

lemma write_file_some:
  assumes "sy_file s = Some g" and "write_file b s = Inr (ok, s')"
  shows "\<exists>g'. s' = s\<lparr>sy_file := Some g', sy_err := sy_err s'\<rparr> \<and> (ok \<longrightarrow> written g' = written g @ b)"
  using assms by (auto simp: write_file_def dest!: WriteFdExactly_prefix)

lemma send_loop_push:
  "sy_file s = Some g \<Longrightarrow> stream (rscript (sy_sock s)) = chunks_bytes cs @ data_bytes ID_DONE t @ rest \<Longrightarrow> fitting s cs \<Longrightarrow>
   send_loop env s = Inr (r, s') \<Longrightarrow>
   sy_trace s' = sy_trace s \<and> length (sy_buf s') = length (sy_buf s) \<and> (\<exists>g'. sy_file s' = Some g' \<and>
     (r = SendDone t \<and> written g' = written g @ concat cs \<and> reads_off rest (sy_sock s) (sy_sock s') \<or>
      r = SendFailed \<and> (\<exists>m. written (sy_sock s') = written (sy_sock s) @ m \<and> no_okay m)))"
proof (induction cs arbitrary: s g)
  case Nil
  then show ?case using send_loop_done [of s t rest env] by (auto simp: reads_off_def)
next
  case (Cons c cs)
  let ?rest = "chunks_bytes cs @ data_bytes ID_DONE t @ rest"
  have c: "length c \<le> length (sy_buf s)" "length c < 2 ^ 32" using Cons.prems(3) by (simp_all add: fitting_def)
  from send_loop_chunk [of s c ?rest env] Cons.prems(2) c obtain f where f: "reads_off ?rest (sy_sock s) f" and
    loop: "send_loop env s = bindR (write_file c (s\<lparr>sy_sock := f, sy_buf := c @ drop (length c) (sy_buf s)\<rparr>)) (\<lambda>(ok, s3).
      if ok then send_loop env s3 else bindR (SendSyncFailErrno env ''write failed'' s3) (\<lambda>(_, s4). Inr (SendFailed, s4)))" by auto
  let ?s = "s\<lparr>sy_sock := f, sy_buf := c @ drop (length c) (sy_buf s)\<rparr>"
  from Cons.prems(4) loop obtain ok s3 where w: "write_file c ?s = Inr (ok, s3)" and
    r: "(if ok then send_loop env s3 else bindR (SendSyncFailErrno env ''write failed'' s3) (\<lambda>(_, s4). Inr (SendFailed, s4))) = Inr (r, s')" by auto
  from write_file_some [OF _ w] Cons.prems(1) obtain g3 where s3: "s3 = ?s\<lparr>sy_file := Some g3, sy_err := sy_err s3\<rparr>"
    and g3: "ok \<longrightarrow> written g3 = written g @ c" by auto
  have s3': "sy_file s3 = Some g3" "sy_trace s3 = sy_trace s" "sy_sock s3 = f" "length (sy_buf s3) = length (sy_buf s)"
    using c(1) by (subst s3; simp)+
  show ?case
  proof (cases ok)
    case True
    have "stream (rscript (sy_sock s3)) = ?rest" using f s3'(3) by (simp add: reads_off_def)
    moreover have "fitting s3 cs" using Cons.prems(3) s3'(4) by (simp add: fitting_def)
    ultimately have "sy_trace s' = sy_trace s3 \<and> length (sy_buf s') = length (sy_buf s3) \<and> (\<exists>g'. sy_file s' = Some g' \<and>
     (r = SendDone t \<and> written g' = written g3 @ concat cs \<and> reads_off rest (sy_sock s3) (sy_sock s') \<or>
      r = SendFailed \<and> (\<exists>m. written (sy_sock s') = written (sy_sock s3) @ m \<and> no_okay m)))"
      using Cons.IH [OF s3'(1)] r True by simp
    then show ?thesis using s3' g3 True f by (auto simp: reads_off_def)
  next
    case False
    with r obtain ok4 where "SendSyncFailErrno env ''write failed'' s3 = Inr (ok4, s')" "r = SendFailed" by auto
    with SendSyncFailErrno_sends [of env "''write failed''" s3 ok4 s'] obtain m where "sends m s3 s'" "no_okay m" by blast
    then show ?thesis using s3' f \<open>r = SendFailed\<close> by (auto simp: sends_def reads_off_def)
  qed
qed

text \<open>With a file that takes the data the loop goes on behind it.\<close>

lemma send_loop_chunks:
  "sy_file s = Some g \<Longrightarrow> stream (rscript (sy_sock s)) = chunks_bytes cs @ rest \<Longrightarrow> fitting s cs \<Longrightarrow> willing g (length (concat cs)) \<Longrightarrow>
   \<exists>s'. send_loop env s = send_loop env s' \<and> reads_off rest (sy_sock s) (sy_sock s')"
proof (induction cs arbitrary: s g)
  case Nil
  then show ?case by (intro exI [of _ s]) (simp add: reads_off_def)
next
  case (Cons c cs)
  let ?rest = "chunks_bytes cs @ rest"
  have c: "length c \<le> length (sy_buf s)" "length c < 2 ^ 32" using Cons.prems(3) by (simp_all add: fitting_def)
  from send_loop_chunk [of s c ?rest env] Cons.prems(2) c obtain f where f: "reads_off ?rest (sy_sock s) f" and
    loop: "send_loop env s = bindR (write_file c (s\<lparr>sy_sock := f, sy_buf := c @ drop (length c) (sy_buf s)\<rparr>)) (\<lambda>(ok, s3).
      if ok then send_loop env s3 else bindR (SendSyncFailErrno env ''write failed'' s3) (\<lambda>(_, s4). Inr (SendFailed, s4)))" by auto
  from WriteFdExactly_willing [OF Cons.prems(4), of c] obtain g3 where g3: "WriteFdExactly g c = Inr (True, ENONE, g3)"
    "willing g3 (length (concat cs))" by auto
  let ?s = "s\<lparr>sy_sock := f, sy_buf := c @ drop (length c) (sy_buf s), sy_file := Some g3\<rparr>"
  have "send_loop env s = send_loop env ?s" using loop g3(1) Cons.prems(1) by (simp add: write_file_def)
  moreover have "\<exists>s'. send_loop env ?s = send_loop env s' \<and> reads_off rest (sy_sock ?s) (sy_sock s')"
    by (rule Cons.IH [of _ g3]) (use f g3(2) Cons.prems(3) c in \<open>auto simp: reads_off_def fitting_def\<close>)
  ultimately show ?case using reads_off_trans [OF f] by auto
qed

lemma send_loop_willing:
  assumes "sy_file s = Some g" and "stream (rscript (sy_sock s)) = chunks_bytes cs @ data_bytes ID_DONE t @ rest" and "fitting s cs"
    and "willing g (length (concat cs))"
  shows "\<exists>s'. send_loop env s = Inr (SendDone t, s')"
proof -
  from send_loop_chunks [OF assms] obtain s1 where s1: "send_loop env s = send_loop env s1" "stream (rscript (sy_sock s1)) = data_bytes ID_DONE t @ rest"
    by (auto simp: reads_off_def)
  then show ?thesis using send_loop_done [OF s1(2), of env] by auto
qed

section \<open>The store of files\<close>

text \<open>
  The abstract view of the device: what the regular files hold, and the file that is open for
  writing. A file that is opened anew is empty; one that was there keeps what is behind the data
  written to it; a call that failed does nothing.
\<close>

type_synonym store = "(string \<rightharpoonup> string) \<times> string option"

fun store_step :: "store \<Rightarrow> syscall \<times> errno_t option \<Rightarrow> store" where
  "store_step (F, cur) (Sys_open_new p m, None) = (F(p \<mapsto> []), Some p)"
| "store_step (F, cur) (Sys_open_old p m, None) = (F, Some p)"
| "store_step (F, Some p) (Sys_close c, r) = (F(p \<mapsto> c @ drop (length c) (case F p of Some old \<Rightarrow> old | None \<Rightarrow> [])), None)"
| "store_step (F, cur) (Sys_unlink p, None) = (F(p := None), cur)"
| "store_step st _ = st"

definition replay :: "store \<Rightarrow> systrace \<Rightarrow> store" where
  "replay st tr = foldl store_step st tr"

lemma replay_simps [simp]: "replay st [] = st" "replay st (tr @ tr') = replay (replay st tr) tr'" "replay st (c # tr) = replay (store_step st c) tr"
  by (simp_all add: replay_def)

text \<open>Calls that do nothing to the store.\<close>

definition quiet_call :: "syscall \<times> errno_t option \<Rightarrow> bool" where
  "quiet_call c \<longleftrightarrow> (case c of (call, r) \<Rightarrow>
     (case call of Sys_open_new _ _ \<Rightarrow> r \<noteq> None | Sys_open_old _ _ \<Rightarrow> r \<noteq> None | Sys_close _ \<Rightarrow> False | Sys_unlink _ \<Rightarrow> False | _ \<Rightarrow> True))"

lemma quiet_call_step: "quiet_call c \<Longrightarrow> store_step st c = st"
  by (cases "(st, c)" rule: store_step.cases) (auto simp: quiet_call_def split: option.splits)

lemma quiet_replay: "list_all quiet_call tr \<Longrightarrow> replay st tr = st"
  by (induction tr arbitrary: st) (simp_all add: quiet_call_step)

text \<open>Only calls of that kind were made, and neither connection nor buffer changed.\<close>

definition quietly :: "sync_state \<Rightarrow> sync_state \<Rightarrow> bool" where
  "quietly s s' \<longleftrightarrow> (\<exists>tr. sy_trace s' = sy_trace s @ tr \<and> list_all quiet_call tr) \<and> sy_sock s' = sy_sock s \<and> sy_buf s' = sy_buf s"

lemma quietly_refl [simp]: "quietly s s"
  by (simp add: quietly_def)

lemma quietly_trans: "quietly s s1 \<Longrightarrow> quietly s1 s2 \<Longrightarrow> quietly s s2"
  by (auto simp: quietly_def)

lemma do_sys_result: "do_sys env c s = (ok, s') \<Longrightarrow> \<exists>r. (ok \<longleftrightarrow> r = None) \<and> sy_trace s' = sy_trace s @ [(c, r)] \<and>
    sy_sock s' = sy_sock s \<and> sy_buf s' = sy_buf s \<and> sy_file s' = sy_file s"
  by (auto simp: do_sys_def Let_def split: option.splits)

lemma do_sys_quietly: "do_sys env c s = (ok, s') \<Longrightarrow> quiet_call (c, None) \<Longrightarrow> quietly s s' \<and> sy_file s' = sy_file s"
  by (frule do_sys_result) (auto simp: quietly_def quiet_call_def split: syscall.splits)

lemma do_sys_quietly_snd: "quiet_call (c, None) \<Longrightarrow> quietly s (snd (do_sys env c s))"
  using do_sys_quietly [of env c s "fst (do_sys env c s)" "snd (do_sys env c s)"] by simp

lemma quiet_calls [simp]:
  "quiet_call (Sys_mkdir p m, None)" "quiet_call (Sys_chown p u v, None)" "quiet_call (Sys_restorecon p, None)"
  "quiet_call (Sys_removexattr p, None)" "quiet_call (Sys_setxattr p x y, None)" "quiet_call (Sys_fchown u v, None)"
  "quiet_call (Sys_fchmod m, None)" "quiet_call (Sys_utime p t, None)" "quiet_call (Sys_symlink q p, None)"
  "quiet_call (Sys_open_read p, None)"
  by (simp_all add: quiet_call_def)

lemma update_capabilities_quietly: "update_capabilities env p k s = (ok, s') \<Longrightarrow> quietly s s'"
  using do_sys_quietly [of env "Sys_setxattr p (ucast k) (ucast (drop_bit 32 k))" s ok s'] do_sys_quietly_snd [of "Sys_removexattr p" s env]
  by (auto simp: update_capabilities_def split: if_splits)

lemma secure_mkdirs_loop_quietly: "quietly s (snd (secure_mkdirs_loop env cs p a s))"
proof (induction cs arbitrary: p a s)
  case (Cons c cs)
  let ?p = "(if path_back env p \<noteq> CHR ''/'' then p @ ''/'' else p) @ c"
  obtain uid gid mode caps where a: "(case a of (u, g, m, k) \<Rightarrow> if should_use_fs_config env ?p then sv_fs_config env ?p True m else a) =
      (uid, gid, mode, caps)" by (metis prod_cases4)
  obtain ok1 s1 where 1: "do_sys env (Sys_mkdir ?p mode) s = (ok1, s1)" by force
  obtain ok2 s2 where 2: "do_sys env (Sys_chown ?p uid gid) s1 = (ok2, s2)" by force
  obtain ok3 s3 where 3: "update_capabilities env ?p caps (snd (do_sys env (Sys_restorecon ?p) s2)) = (ok3, s3)" by force
  have q1: "quietly s s1" using do_sys_quietly [OF 1] by simp
  have q2: "quietly s s2" using quietly_trans [OF q1] do_sys_quietly [OF 2] by simp
  have q3: "quietly s s3" using quietly_trans [OF q2] quietly_trans [OF do_sys_quietly_snd update_capabilities_quietly [OF 3]] by simp
  show ?case using Cons.IH quietly_trans [OF q1] quietly_trans [OF q3] q1 q2 q3
    by (simp only: secure_mkdirs_loop.simps Let_def a prod.case 1 2 3) (simp split: bool.split)
qed simp

lemma secure_mkdirs_quietly: "secure_mkdirs env p s = (ok, s') \<Longrightarrow> quietly s s'"
  using secure_mkdirs_loop_quietly [of s env "Split (sv_base env) p ''/''" "[]" "(-1, -1, 0x1FD, 0)"]
  by (auto simp: secure_mkdirs_def split: if_splits)

section \<open>Opening the file\<close>

lemma open_file_result:
  assumes "open_file env c s = (ok, s')" and "c = Sys_open_new p m \<or> c = Sys_open_old p m"
  shows "ok \<Longrightarrow> sy_trace s' = sy_trace s @ [(c, None)] \<and> sy_sock s' = sy_sock s \<and> sy_buf s' = sy_buf s \<and>
      sy_file s' = Some ((sv_file env (sy_trace s'))\<lparr>written := []\<rparr>)"
    and "\<not> ok \<Longrightarrow> quietly s s'"
proof -
  obtain s1 where d: "do_sys env c s = (ok, s1)" and s': "s' = s1\<lparr>sy_file := (if ok then Some ((sv_file env (sy_trace s1))\<lparr>written := []\<rparr>) else None)\<rparr>"
    using assms(1) by (auto simp: open_file_def split: prod.splits)
  from do_sys_result [OF d] obtain r where r: "ok \<longleftrightarrow> r = None" "sy_trace s1 = sy_trace s @ [(c, r)]" "sy_sock s1 = sy_sock s" "sy_buf s1 = sy_buf s" by blast
  show "ok \<Longrightarrow> sy_trace s' = sy_trace s @ [(c, None)] \<and> sy_sock s' = sy_sock s \<and> sy_buf s' = sy_buf s \<and>
      sy_file s' = Some ((sv_file env (sy_trace s'))\<lparr>written := []\<rparr>)" using r s' by simp
  show "\<not> ok \<Longrightarrow> quietly s s'" using r s' assms(2) by (auto simp: quietly_def quiet_call_def)
qed

text \<open>An opened target: after quiet calls the file was opened, anew or an old one.\<close>

definition opened :: "sync_env \<Rightarrow> string \<Rightarrow> u32 \<Rightarrow> sync_state \<Rightarrow> sync_state \<Rightarrow> bool" where
  "opened env path mode s s' \<longleftrightarrow> (\<exists>tr c. sy_trace s' = sy_trace s @ tr @ [(c, None)] \<and> list_all quiet_call tr \<and>
     (c = Sys_open_new path mode \<or> c = Sys_open_old path mode)) \<and> sy_sock s' = sy_sock s \<and> sy_buf s' = sy_buf s \<and>
     sy_file s' = Some ((sv_file env (sy_trace s'))\<lparr>written := []\<rparr>)"

lemma opened_after: "quietly s s1 \<Longrightarrow> opened env path mode s1 s' \<Longrightarrow> opened env path mode s s'"
proof -
  assume q: "quietly s s1" and o: "opened env path mode s1 s'"
  then obtain tr1 tr c where "sy_trace s1 = sy_trace s @ tr1" "list_all quiet_call tr1" "sy_trace s' = sy_trace s1 @ tr @ [(c, None)]"
    "list_all quiet_call tr" "c = Sys_open_new path mode \<or> c = Sys_open_old path mode" unfolding quietly_def opened_def by blast
  then have "\<exists>tr c. sy_trace s' = sy_trace s @ tr @ [(c, None)] \<and> list_all quiet_call tr \<and>
     (c = Sys_open_new path mode \<or> c = Sys_open_old path mode)" by (intro exI [of _ "tr1 @ tr"] exI [of _ c]) simp
  then show "opened env path mode s s'" using q o unfolding quietly_def opened_def by simp
qed

lemma open_file_opened: "open_file env c s = (True, s') \<Longrightarrow> c = Sys_open_new path mode \<or> c = Sys_open_old path mode \<Longrightarrow> opened env path mode s s'"
  using open_file_result(1) [of env c s True s' path mode] unfolding opened_def by (auto intro!: exI [of _ "[]"])

lemma open_target_opened:
  assumes "open_target env path mode s = (Some True, s')"
  shows "opened env path mode s s'"
proof -
  have ex: "opened env path mode s2 s'"
    if "(if \<not> ok \<and> sy_err s1 = EOTHER 17
           then (case open_file env (Sys_open_old path mode) s1 of (ok2, s2) \<Rightarrow> (Some ok2, s2)) else (Some ok, s1)) = (Some True, s')"
      and o: "open_file env (Sys_open_new path mode) s2 = (ok, s1)" for ok s1 s2
  proof (cases ok)
    case True
    then show ?thesis using that open_file_opened [of env "Sys_open_new path mode" s2] by simp
  next
    case False
    then have "open_file env (Sys_open_old path mode) s1 = (True, s')" using that(1) by (auto split: if_splits prod.splits)
    then show ?thesis using opened_after [OF open_file_result(2) [OF o] open_file_opened] False by blast
  qed
  obtain ok s1 where o: "open_file env (Sys_open_new path mode) s = (ok, s1)" by force
  obtain ok2 s2 where d: "secure_mkdirs env (Dirname (sv_base env) path) s1 = (ok2, s2)" by force
  obtain ok3 s3 where o3: "open_file env (Sys_open_new path mode) s2 = (ok3, s3)" by force
  show ?thesis
  proof (cases "\<not> ok \<and> sy_err s1 = ENOENT")
    case True
    then have "opened env path mode s2 s'" using assms o d o3 ex [OF _ o3] by (auto simp: open_target_def Let_def split: bool.splits)
    moreover have "quietly s s2" using quietly_trans [OF open_file_result(2) [OF o] secure_mkdirs_quietly [OF d]] True by blast
    ultimately show ?thesis using opened_after by blast
  next
    case False
    have "(if \<not> ok \<and> sy_err s1 = EOTHER 17
           then (case open_file env (Sys_open_old path mode) s1 of (ok2, s2) \<Rightarrow> (Some ok2, s2)) else (Some ok, s1)) = (Some True, s')"
      using assms unfolding open_target_def Let_def o prod.case if_not_P [OF False] .
    then show ?thesis using ex o by blast
  qed
qed

section \<open>The command\<close>

lemma send_fail_result:
  assumes "send_fail env path u s = Inr (ok, s')" and "written (sy_sock s) = w @ m" and "no_okay m"
  shows "\<not> ok \<and> (\<exists>m. written (sy_sock s') = w @ m \<and> no_okay m)"
proof -
  have d: "drain x = Inr y \<Longrightarrow> written (sy_sock y) = written (sy_sock x)" for x y
  proof (induction x rule: drain.induct)
    case (1 s)
    have rd: "read_msg a = (b, c) \<Longrightarrow> written (sy_sock c) = written (sy_sock a)" for a b c
      by (auto simp: read_msg_def read_sock_def split: prod.splits dest!: ReadFdExactly_written)
    have rb: "read_buf n a = (b, c) \<Longrightarrow> written (sy_sock c) = written (sy_sock a)" for n a b c
      by (auto simp: read_buf_def read_sock_def split: prod.splits dest!: ReadFdExactly_written)
    obtain r s1 where m: "read_msg s = (r, s1)" by force
    have ne: "rscript (sy_sock s) \<noteq> []" using "1.prems" by (subst (asm) drain.simps) (auto split: if_splits)
    show ?case
    proof (cases r)
      case None
      then show ?thesis using "1.prems" "1.IH"(1) m rd [OF m] ne by (subst (asm) drain.simps) fastforce
    next
      case (Some x)
      obtain i n where x: "x = (i, n)" by force
      obtain ok s2 where b: "read_buf (unat n) s1 = (ok, s2)" by force
      show ?thesis
      proof (cases "i \<noteq> ID_DATA \<or> length (sy_buf s1) < unat n \<or> \<not> ok")
        case True
        then show ?thesis using "1.prems" m Some x b rd [OF m] rb [OF b] ne by (subst (asm) drain.simps) (auto split: if_splits)
      next
        case False
        then have "drain s2 = Inr y" using "1.prems" m Some x b ne by (subst (asm) drain.simps) simp
        with "1.IH"(2) m Some x b False ne rd [OF m] rb [OF b] show ?thesis by fastforce
      qed
    qed
  qed
  from assms(1) obtain s1 where "drain s = Inr s1" "send_abort env path u s1 = Inr (ok, s')" by (auto simp: send_fail_def)
  then show ?thesis using d [of s s1] assms(2,3) by (auto simp: send_abort_def Let_def split: if_splits)
qed

lemma report_fail_result:
  assumes "report_fail env path u reason s = Inr (ok, s')"
  shows "\<not> ok \<and> (\<exists>m. written (sy_sock s') = written (sy_sock s) @ m \<and> no_okay m)"
proof -
  from assms obtain b s1 where 1: "SendSyncFailErrno env reason s = Inr (b, s1)" "send_fail env path u s1 = Inr (ok, s')"
    by (auto simp: report_fail_def)
  from SendSyncFailErrno_sends [OF 1(1)] obtain m where "sends m s s1" "no_okay m" by blast
  then show ?thesis using send_fail_result [OF 1(2)] by (auto simp: sends_def)
qed

text \<open>After the file was opened: it is closed with the data, and mode and time are set.\<close>

definition finished :: "string \<Rightarrow> string \<Rightarrow> u32 \<Rightarrow> u32 \<Rightarrow> systrace \<Rightarrow> bool" where
  "finished path content mode t tr \<longleftrightarrow> (\<exists>q1 q2 r x y. tr = q1 @ (Sys_close content, r) # q2 @ [(Sys_utime path t, x)] \<and>
     list_all quiet_call q1 \<and> list_all quiet_call q2 \<and> (Sys_fchmod mode, y) \<in> set q1)"

definition replied :: "bool \<Rightarrow> sync_state \<Rightarrow> sync_state \<Rightarrow> bool \<Rightarrow> bool" where
  "replied ok s s' P \<longleftrightarrow> (\<exists>m. written (sy_sock s') = written (sy_sock s) @ m \<and> (if ok then m = okay_reply \<and> P else no_okay m))"

lemma replied_failed: "\<not> ok \<and> (\<exists>m. written (sy_sock s') = written (sy_sock s1) @ m \<and> no_okay m) \<Longrightarrow>
    written (sy_sock s1) = written (sy_sock s) \<Longrightarrow> replied ok s s' P"
  by (auto simp: replied_def)

lemma replied_mono: "replied ok s1 s' Q \<Longrightarrow> written (sy_sock s1) = written (sy_sock s) \<Longrightarrow> (Q \<Longrightarrow> P) \<Longrightarrow> replied ok s s' P"
  by (auto simp: replied_def split: if_splits)

lemma after_send_loop_done:
  assumes "sy_file s = Some g" and "after_send_loop env path k u (SendDone t, s) = Inr (ok, s')"
  shows "replied ok s s' (rscript (sy_sock s') = rscript (sy_sock s) \<and>
    (\<exists>q r x. sy_trace s' = sy_trace s @ (Sys_close (written g), r) # q @ [(Sys_utime path t, x)] \<and> list_all quiet_call q))"
proof -
  obtain b0 s0 where c0: "do_sys env (Sys_close (written g)) s = (b0, s0)" by force
  then have cf: "close_file env s = s0" using assms(1) by (simp add: close_file_def)
  obtain b1 s1 where c1: "update_capabilities env path k s0 = (b1, s1)" by force
  obtain b2 s2 where c2: "do_sys env (Sys_utime path t) s1 = (b2, s2)" by force
  from do_sys_result [OF c0] obtain r where t0: "sy_trace s0 = sy_trace s @ [(Sys_close (written g), r)]" "sy_sock s0 = sy_sock s" by blast
  from update_capabilities_quietly [OF c1] obtain q where t1: "sy_trace s1 = sy_trace s0 @ q" "list_all quiet_call q" "sy_sock s1 = sy_sock s0"
    unfolding quietly_def by blast
  from do_sys_result [OF c2] obtain x where t2: "sy_trace s2 = sy_trace s1 @ [(Sys_utime path t, x)]" "sy_sock s2 = sy_sock s1" by blast
  show ?thesis
  proof (cases b1)
    case False
    then have "report_fail env path u ''update_capabilities failed'' s1 = Inr (ok, s')"
      using assms(2) cf c1 by (simp add: after_send_loop_def)
    from report_fail_result [OF this] show ?thesis by (rule replied_failed) (use t0 t1 in simp)
  next
    case True
    then have w: "write_sock okay_reply s2 = Inr (ok, s')" using assms(2) cf c1 c2 by (simp add: after_send_loop_def)
    from write_sock_sends [OF w] obtain n where n: "n \<le> 8" "sends (take n okay_reply) s2 s'" "ok \<longleftrightarrow> n = 8" by auto
    have "no_okay (take n okay_reply)" if "n \<noteq> 8"
      using n(1) that by (simp add: no_okay_def)
    moreover have "sy_trace s' = sy_trace s @ (Sys_close (written g), r) # q @ [(Sys_utime path t, x)]"
      using n(2) t0 t1 t2 by (simp add: sends_def)
    ultimately show ?thesis using n t0 t1 t2 unfolding replied_def sends_def
      by (intro exI [of _ "take n okay_reply"]) auto
  qed
qed

lemma send_opened_result:
  assumes g: "sy_file s = Some g" "written g = []" and str: "stream (rscript (sy_sock s)) = chunks_bytes cs @ data_bytes ID_DONE t @ rest"
    and fit: "fitting s cs" and run: "send_opened env path uid gid k mode u s = Inr (ok, s')"
  shows "replied ok s s' (stream (rscript (sy_sock s')) = rest \<and> (\<exists>tr. sy_trace s' = sy_trace s @ tr \<and> finished path (concat cs) mode t tr))"
proof -
  obtain b1 s1 where c1: "do_sys env (Sys_fchown uid gid) s = (b1, s1)" by force
  obtain b2 s2 where c2: "do_sys env (Sys_restorecon path) s1 = (b2, s2)" by force
  obtain b3 s3 where c3: "do_sys env (Sys_fchmod mode) s2 = (b3, s3)" by force
  have q1: "quietly s s1" "sy_file s1 = sy_file s" and q2: "quietly s1 s2" "sy_file s2 = sy_file s1"
    using do_sys_quietly [OF c1] do_sys_quietly [OF c2] by simp_all
  from do_sys_result [OF c3] obtain y where t3: "sy_trace s3 = sy_trace s2 @ [(Sys_fchmod mode, y)]" "sy_sock s3 = sy_sock s2"
    "sy_buf s3 = sy_buf s2" "sy_file s3 = sy_file s2" by blast
  from quietly_trans [OF q1(1) q2(1)] obtain q where q: "sy_trace s2 = sy_trace s @ q" "list_all quiet_call q" "sy_sock s2 = sy_sock s" "sy_buf s2 = sy_buf s"
    unfolding quietly_def by blast
  show ?thesis
  proof (cases b1)
    case False
    then have "report_fail env path u ''fchown failed'' s1 = Inr (ok, s')" using run c1 by (simp add: send_opened_def)
    from report_fail_result [OF this] show ?thesis by (rule replied_failed) (use q1 in \<open>simp add: quietly_def\<close>)
  next
    case True
    then obtain r s4 where loop: "send_loop env s3 = Inr (r, s4)" and rest: "after_send_loop env path k u (r, s4) = Inr (ok, s')"
      using run c1 c2 c3 by (auto simp: send_opened_def)
    have "stream (rscript (sy_sock s3)) = chunks_bytes cs @ data_bytes ID_DONE t @ rest" "fitting s3 cs" "sy_file s3 = Some g"
      using str fit t3 q q1 q2 g by (simp_all add: fitting_def)
    from send_loop_push [OF this(3,1,2) loop] obtain g' where
      l: "sy_trace s4 = sy_trace s3" "sy_file s4 = Some g'" "(r = SendDone t \<and> written g' = concat cs \<and> reads_off rest (sy_sock s3) (sy_sock s4) \<or>
      r = SendFailed \<and> (\<exists>m. written (sy_sock s4) = written (sy_sock s3) @ m \<and> no_okay m))" using g(2) by auto
    from l(3) show ?thesis
    proof (elim disjE conjE exE)
      fix m assume f: "r = SendFailed" "written (sy_sock s4) = written (sy_sock s3) @ m" "no_okay m"
      then have "send_fail env path u s4 = Inr (ok, s')" using rest by (simp add: after_send_loop_def)
      from send_fail_result [OF this f(2,3)] show ?thesis by (rule replied_failed) (use t3 q in simp)
    next
      assume d: "r = SendDone t" "written g' = concat cs" "reads_off rest (sy_sock s3) (sy_sock s4)"
      have fin: "finished path (concat cs) mode t ((q @ [(Sys_fchmod mode, y)]) @ (Sys_close (concat cs), r) # q' @ [(Sys_utime path t, x)])"
        if "list_all quiet_call q'" for r q' x
        unfolding finished_def using that q(2)
        by (intro exI [of _ "q @ [(Sys_fchmod mode, y)]"] exI [of _ q'] exI [of _ r] exI [of _ x] exI [of _ y]) (simp add: quiet_call_def)
      from after_send_loop_done [OF l(2) rest [unfolded d(1)]] show ?thesis
      proof (rule replied_mono)
        show "written (sy_sock s4) = written (sy_sock s)" using d(3) t3 q by (simp add: reads_off_def)
        assume "rscript (sy_sock s') = rscript (sy_sock s4) \<and>
          (\<exists>q' r x. sy_trace s' = sy_trace s4 @ (Sys_close (written g'), r) # q' @ [(Sys_utime path t, x)] \<and> list_all quiet_call q')"
        then obtain q' z x where "rscript (sy_sock s') = rscript (sy_sock s4)"
          "sy_trace s' = sy_trace s4 @ (Sys_close (concat cs), z) # q' @ [(Sys_utime path t, x)]" "list_all quiet_call q'" using d(2) by auto
        then show "stream (rscript (sy_sock s')) = rest \<and> (\<exists>tr. sy_trace s' = sy_trace s @ tr \<and> finished path (concat cs) mode t tr)"
          using d(3) l(1) t3 q fin [of q' z x]
          by (intro conjI exI [of _ "(q @ [(Sys_fchmod mode, y)]) @ (Sys_close (concat cs), z) # q' @ [(Sys_utime path t, x)]"])
             (simp_all add: reads_off_def)
      qed
    qed
  qed
qed

text \<open>
  The system calls of a push that was answered with OKAY: the store holds the data at the start of
  the file and no other file changed. Nothing stands behind the data unless a file that was there
  already has been opened without being cut; then it is what that file had there. The mode was
  given to fchmod and, last, the time to utime; whether these two calls succeeded is not known, as
  the service ignores their results.
\<close>

definition stored :: "string \<Rightarrow> string \<Rightarrow> u32 \<Rightarrow> u32 \<Rightarrow> systrace \<Rightarrow> bool" where
  "stored path content mode t tr \<longleftrightarrow>
     (\<exists>x. (Sys_fchmod mode, x) \<in> set tr) \<and> (\<exists>x. last tr = (Sys_utime path t, x)) \<and>
     (\<forall>st. \<exists>tail. fst (replay st tr) = (fst st)(path \<mapsto> content @ tail) \<and>
       (tail = [] \<or> (\<exists>m. (Sys_open_old path m, None) \<in> set tr) \<and>
         (\<exists>old. fst st path = Some old \<and> tail = drop (length content) old)))"

lemma finished_stored:
  assumes "finished path content mode t tr2" and "list_all quiet_call tr1" and "c = Sys_open_new path m \<or> c = Sys_open_old path m"
  shows "stored path content mode t (tr1 @ (c, None) # tr2)"
proof -
  from assms(1) obtain q1 q2 r x y where tr2: "tr2 = q1 @ (Sys_close content, r) # q2 @ [(Sys_utime path t, x)]"
    and q: "list_all quiet_call q1" "list_all quiet_call q2" "(Sys_fchmod mode, y) \<in> set q1" unfolding finished_def by blast
  have u: "store_step st (Sys_utime path t, x) = st" for st by (rule quiet_call_step) (simp add: quiet_call_def)
  have "\<exists>tail. fst (replay st (tr1 @ (c, None) # tr2)) = (fst st)(path \<mapsto> content @ tail) \<and>
       (tail = [] \<or> (\<exists>m. (Sys_open_old path m, None) \<in> set (tr1 @ (c, None) # tr2)) \<and>
         (\<exists>old. fst st path = Some old \<and> tail = drop (length content) old))" for st
  proof -
    obtain F cur where st: "st = (F, cur)" by force
    let ?old = "case F path of Some old \<Rightarrow> old | None \<Rightarrow> []"
    show ?thesis
      using assms(2,3) q(1,2) u
      by (intro exI [of _ "if c = Sys_open_new path m then [] else drop (length content) ?old"])
         (auto simp: tr2 st quiet_replay split: option.splits)
  qed
  then show ?thesis unfolding stored_def using q(3) by (auto simp: tr2)
qed

lemma stored_after_unlink: "stored path content mode t tr \<Longrightarrow> stored path content mode t ((Sys_unlink path, r) # tr)"
  if "tr \<noteq> []"
proof -
  assume s: "stored path content mode t tr"
  have step: "\<exists>F'. store_step st (Sys_unlink path, r) = (F', snd st) \<and> (\<forall>v. F'(path \<mapsto> v) = (fst st)(path \<mapsto> v)) \<and>
      (\<forall>old. F' path = Some old \<longrightarrow> fst st path = Some old)" for st
    by (cases st; cases r) auto
  show ?thesis unfolding stored_def
  proof (intro conjI allI)
    fix st :: store
    obtain F' where F': "store_step st (Sys_unlink path, r) = (F', snd st)" "\<And>v. F'(path \<mapsto> v) = (fst st)(path \<mapsto> v)"
      "\<And>old. F' path = Some old \<Longrightarrow> fst st path = Some old" using step by blast
    obtain tail where "fst (replay (F', snd st) tr) = F'(path \<mapsto> content @ tail)"
      "tail = [] \<or> (\<exists>m. (Sys_open_old path m, None) \<in> set tr) \<and> (\<exists>old. F' path = Some old \<and> tail = drop (length content) old)"
      using s unfolding stored_def by (metis fst_conv)
    with F' show "\<exists>tail. fst (replay st ((Sys_unlink path, r) # tr)) = (fst st)(path \<mapsto> content @ tail) \<and>
       (tail = [] \<or> (\<exists>m. (Sys_open_old path m, None) \<in> set ((Sys_unlink path, r) # tr)) \<and>
         (\<exists>old. fst st path = Some old \<and> tail = drop (length content) old))"
      by (intro exI [of _ tail]) auto
  qed (use s that in \<open>auto simp: stored_def\<close>)
qed

lemma handle_send_file_result:
  assumes str: "stream (rscript (sy_sock s)) = chunks_bytes cs @ data_bytes ID_DONE t @ rest"
    and fit: "fitting s cs" and run: "handle_send_file env path uid gid k mode u s = Inr (ok, s')"
  shows "replied ok s s' (stream (rscript (sy_sock s')) = rest \<and> (\<exists>tr. sy_trace s' = sy_trace s @ tr \<and> tr \<noteq> [] \<and> stored path (concat cs) mode t tr))"
proof -
  obtain r s1 where o: "open_target env path mode s = (r, s1)" by force
  note e = open_target_sock [OF o]
  have fail: "replied ok s s' P" if "report_fail env path u m s1 = Inr (ok, s')" for m P
    by (rule replied_failed [OF report_fail_result [OF that]]) (simp add: e)
  consider "r = None" | "r = Some False" | "r = Some True" by (cases r) auto
  then show ?thesis
  proof cases
    case 3
    note op = open_target_opened [OF o [unfolded 3]]
    from op obtain tr1 c where t1: "sy_trace s1 = sy_trace s @ tr1 @ [(c, None)]" "list_all quiet_call tr1"
      "c = Sys_open_new path mode \<or> c = Sys_open_old path mode" and b: "sy_buf s1 = sy_buf s"
      and g: "sy_file s1 = Some ((sv_file env (sy_trace s1))\<lparr>written := []\<rparr>)" unfolding opened_def by blast
    have run1: "send_opened env path uid gid k mode u s1 = Inr (ok, s')" using run o 3 by (simp add: handle_send_file_def)
    have st: "stored path (concat cs) mode t (tr1 @ (c, None) # tr)" if "finished path (concat cs) mode t tr" for tr
      by (rule finished_stored [OF that t1(2,3)])
    from send_opened_result [OF g _ _ _ run1, of cs t rest] str fit e b
    have "replied ok s1 s' (stream (rscript (sy_sock s')) = rest \<and> (\<exists>tr. sy_trace s' = sy_trace s1 @ tr \<and> finished path (concat cs) mode t tr))"
      by (simp add: fitting_def)
    then show ?thesis
    proof (rule replied_mono)
      assume "stream (rscript (sy_sock s')) = rest \<and> (\<exists>tr. sy_trace s' = sy_trace s1 @ tr \<and> finished path (concat cs) mode t tr)"
      then show "stream (rscript (sy_sock s')) = rest \<and> (\<exists>tr. sy_trace s' = sy_trace s @ tr \<and> tr \<noteq> [] \<and> stored path (concat cs) mode t tr)"
        using t1(1) st by auto
    qed (simp add: e)
  qed (use run o fail in \<open>auto simp: handle_send_file_def\<close>)
qed

end
