(* ===== verification/Sync_Props.thy ===== *)
theory Sync_Props
  imports Sync_Push
begin

text \<open>
  What push, pull and list promise: theorems over the service of the device and over the client.
\<close>

section \<open>The name and the mode of a push\<close>

lemma dec_of_nat_lead: "0 < n \<Longrightarrow> hd (dec_of_nat n) \<noteq> CHR ''0''"
proof (induction n rule: dec_of_nat.induct)
  case (1 n)
  show ?case
  proof (cases "n < 10")
    case True
    then have "hex_val (hex_digit n) = Some n" by (simp add: hex_val_hex_digit)
    then have "hex_digit n \<noteq> CHR ''0''" using "1.prems" by (auto simp: hex_val_def)
    then show ?thesis using True by (subst dec_of_nat.simps) simp
  next
    case False
    then have "hd (dec_of_nat (n div 10)) \<noteq> CHR ''0''" using "1.IH" by simp
    then show ?thesis using False dec_of_nat_nonempty [of "n div 10"] by (subst dec_of_nat.simps) simp
  qed
qed

text \<open>The mode the client prints in decimal is the mode strtoul reads.\<close>

lemma strtoul0_dec:
  assumes "n < 2 ^ 64"
  shows "strtoul0 (dec_of_nat n) = (n, False)"
proof -
  let ?s = "dec_of_nat n"
  have d: "\<forall>c \<in> set ?s. is_digit c" by (rule dec_of_nat_digits)
  then have f: "\<forall>c \<in> set ?s. \<not> is_space c \<and> c \<noteq> CHR ''-'' \<and> c \<noteq> CHR ''+'' \<and> c \<noteq> CHR ''x'' \<and> c \<noteq> CHR ''X'' \<and> c \<noteq> CHR 0x00"
    using digit_facts by blast
  obtain c cs where s: "?s = c # cs" using dec_of_nat_hd by blast
  have c: "c_str ?s = ?s" using f by (intro c_str_id) blast
  have w: "dropWhile is_space ?s = ?s" using f s by simp
  have x: "skip_0x ?s = ?s" using f by (auto simp: skip_0x_def split: list.splits)
  have h: "hd ?s \<noteq> CHR ''-''" "hd ?s \<noteq> CHR ''+''" using f s by auto
  have v: "(case auto_base ?s of (b, w) \<Rightarrow> digits_prefix b 0 w) = n"
  proof (cases "n = 0")
    case True
    then show ?thesis using x by (simp add: auto_base_def dec_of_nat.simps hex_digit_def hex_val_def)
  next
    case False
    then show ?thesis using x dec_of_nat_lead [of n] digits_prefix_dec [OF d] by (simp add: auto_base_def dec_of_nat_value)
  qed
  show ?thesis unfolding strtoul0_def c w Let_def using h v assms by simp
qed

lemma last_comma_spec: "CHR '','' \<notin> set m \<Longrightarrow> last_comma (path @ '','' @ m) = Some (path, m)"
proof -
  assume "CHR '','' \<notin> set m"
  then have m: "\<forall>c \<in> set (rev m). c \<noteq> CHR '',''" by auto
  then have "takeWhile (\<lambda>c. c \<noteq> CHR '','') (rev m @ CHR '','' # rev path) = rev m"
    "dropWhile (\<lambda>c. c \<noteq> CHR '','') (rev m @ CHR '','' # rev path) = CHR '','' # rev path"
    by (simp_all add: takeWhile_append dropWhile_append)
  then show ?thesis by (simp add: last_comma_def)
qed

text \<open>What the client writes behind the comma.\<close>

definition push_name :: "string \<Rightarrow> u32 \<Rightarrow> string" where
  "push_name path mode = path @ '','' @ dec_of_int (to_int32 (uint mode))"

lemma to_int32_small: "m < 2 ^ 31 \<Longrightarrow> to_int32 (uint (m :: u32)) = int (unat m)"
proof -
  assume "m < 2 ^ 31"
  then have "uint m < uint (2 ^ 31 :: u32)" by (simp only: word_less_def)
  then have "uint m < 2 ^ 31" by simp
  moreover have "- (2 ^ 31) \<le> uint m" using uint_ge_0 [of m] by (rule order_trans [rotated]) simp
  ultimately have "to_int32 (uint m) = uint m" by (intro to_int32_id)
  then show ?thesis by simp
qed

lemma push_name_parts:
  assumes "mode < 2 ^ 31"
  shows "last_comma (push_name path mode) = Some (path, dec_of_nat (unat mode))" "strtoul0 (dec_of_nat (unat mode)) = (unat mode, False)"
proof -
  have "CHR '','' \<notin> set (dec_of_nat (unat mode))" using dec_of_nat_digits digit_facts by blast
  then show "last_comma (push_name path mode) = Some (path, dec_of_nat (unat mode))"
    using last_comma_spec [of "dec_of_nat (unat mode)" path] by (simp add: push_name_def to_int32_small [OF assms] dec_of_int_def)
  have "unat mode < 2 ^ 64" using unsigned_less [of mode, where ?'a = nat] by simp
  then show "strtoul0 (dec_of_nat (unat mode)) = (unat mode, False)" by (rule strtoul0_dec)
qed

section \<open>A push at the device\<close>

text \<open>The mode the file gets.\<close>

definition pushed_mode :: "sync_env \<Rightarrow> string \<Rightarrow> u32 \<Rightarrow> u32" where
  "pushed_mode env path mode =
    (if should_use_fs_config env path then (case sv_fs_config env path False (spread_mode mode) of (_, _, m, _) \<Rightarrow> m)
     else spread_mode mode)"

text \<open>What a request to push a file is on the wire.\<close>

definition push_message :: "string \<Rightarrow> u32 \<Rightarrow> string list \<Rightarrow> u32 \<Rightarrow> string" where
  "push_message path mode cs t =
    data_bytes ID_SEND (of_nat (length (push_name path mode))) @ push_name path mode @ chunks_bytes cs @ data_bytes ID_DONE t"

lemma do_send_file:
  assumes "mode < 2 ^ 31" and "\<not> S_ISLNK mode"
  shows "\<exists>s1 u uid gid caps. do_send env (push_name path mode) s = handle_send_file env path uid gid caps (pushed_mode env path mode) u s1 \<and>
    sy_sock s1 = sy_sock s \<and> sy_buf s1 = sy_buf s \<and> (sy_trace s1 = sy_trace s \<or> (\<exists>r. sy_trace s1 = sy_trace s @ [(Sys_unlink path, r)]))"
proof -
  note n = push_name_parts(1) [OF assms(1), of path] push_name_parts(2) [OF assms(1)]
  have m: "of_nat (unat mode) = mode" by simp
  let ?s1 = "s\<lparr>sy_err := ENONE\<rparr>"
  let ?r = "sv_stat env (sy_trace s) False path"
  let ?u = "case ?r of Inl _ \<Rightarrow> True | Inr st \<Rightarrow> S_ISREG (st_mode st) \<or> S_ISLNK (st_mode st)"
  let ?s2 = "case ?r of Inl e \<Rightarrow> ?s1\<lparr>sy_err := e\<rparr> | Inr _ \<Rightarrow> ?s1"
  let ?s3 = "if ?u then snd (do_sys env (Sys_unlink path) ?s2) else ?s2"
  obtain uid gid m' caps where a: "(if should_use_fs_config env path then sv_fs_config env path False (spread_mode mode)
                       else (-1, -1, spread_mode mode, 0)) = (uid, gid, m', caps)" by (metis prod_cases4)
  then have m': "m' = pushed_mode env path mode" by (auto simp: pushed_mode_def split: if_splits)
  have run: "do_send env (push_name path mode) s = handle_send_file env path uid gid caps m' ?u ?s3"
    unfolding do_send_def n option.case prod.case Let_def if_False m if_not_P [OF assms(2)] a by simp
  have s2: "sy_sock ?s2 = sy_sock s" "sy_buf ?s2 = sy_buf s" "sy_trace ?s2 = sy_trace s" by (simp_all split: sum.split)
  obtain ok s4 where d: "do_sys env (Sys_unlink path) ?s2 = (ok, s4)" by force
  from do_sys_result [OF d] s2 obtain r where r: "sy_trace s4 = sy_trace s @ [(Sys_unlink path, r)]" "sy_sock s4 = sy_sock s" "sy_buf s4 = sy_buf s"
    by metis
  have "sy_sock ?s3 = sy_sock s" "sy_buf ?s3 = sy_buf s" "sy_trace ?s3 = sy_trace s \<or> (\<exists>r. sy_trace ?s3 = sy_trace s @ [(Sys_unlink path, r)])"
    unfolding d snd_conv using r s2 by simp_all
  then show ?thesis using run m' by blast
qed

lemma do_send_result:
  assumes mode: "mode < 2 ^ 31" "\<not> S_ISLNK mode" and str: "stream (rscript (sy_sock s)) = chunks_bytes cs @ data_bytes ID_DONE t @ rest"
    and fit: "fitting s cs" and run: "do_send env (push_name path mode) s = Inr (ok, s')"
  shows "replied ok s s' (stream (rscript (sy_sock s')) = rest \<and>
    (\<exists>tr. sy_trace s' = sy_trace s @ tr \<and> stored path (concat cs) (pushed_mode env path mode) t tr))"
proof -
  from do_send_file [OF mode, of env path s] obtain s1 u uid gid caps where
    eq: "do_send env (push_name path mode) s = handle_send_file env path uid gid caps (pushed_mode env path mode) u s1"
    and s1: "sy_sock s1 = sy_sock s" "sy_buf s1 = sy_buf s" "sy_trace s1 = sy_trace s \<or> (\<exists>r. sy_trace s1 = sy_trace s @ [(Sys_unlink path, r)])"
    by blast
  have st: "stream (rscript (sy_sock s1)) = chunks_bytes cs @ data_bytes ID_DONE t @ rest" "fitting s1 cs"
    using s1 str fit by (simp_all add: fitting_def)
  from handle_send_file_result [OF st run [unfolded eq]] show ?thesis
  proof (rule replied_mono)
    assume "stream (rscript (sy_sock s')) = rest \<and>
      (\<exists>tr. sy_trace s' = sy_trace s1 @ tr \<and> tr \<noteq> [] \<and> stored path (concat cs) (pushed_mode env path mode) t tr)"
    then show "stream (rscript (sy_sock s')) = rest \<and>
      (\<exists>tr. sy_trace s' = sy_trace s @ tr \<and> stored path (concat cs) (pushed_mode env path mode) t tr)"
      using s1(3) stored_after_unlink by fastforce
  qed (simp add: s1)
qed

text \<open>How the service reads a request.\<close>

lemma handle_sync_command_request:
  assumes "stream (rscript (sy_sock s)) = data_bytes i (of_nat (length path)) @ path @ rest" and "length path \<le> 1024"
  shows "\<exists>f. reads_off rest (sy_sock s) f \<and> handle_sync_command env s =
    (let s2 = s\<lparr>sy_sock := f\<rparr>; name = c_str path in
     if i = ID_LSTAT_V1 then do_lstat_v1 env name s2
     else if i = ID_LSTAT_V2 \<or> i = ID_STAT_V2 then do_stat_v2 env i name s2
     else if i = ID_LIST then do_list env name s2
     else if i = ID_SEND then do_send env name s2
     else if i = ID_RECV then do_recv env name s2
     else if i = ID_QUIT then Inr (False, s2)
     else bindR (SendSyncFail (''unknown command '' @ pad0 8 (hex_of_nat (unat i))) s2) (\<lambda>(_, s2). Inr (False, s2)))"
proof -
  have u: "unat (of_nat (length path) :: u32) = length path" using assms(2) by (intro unat_length) simp
  obtain f1 where f1: "read_msg s = (Some (i, of_nat (length path)), s\<lparr>sy_sock := f1\<rparr>)" "reads_off (path @ rest) (sy_sock s) f1"
    using read_msg_stream [OF assms(1)] by blast
  obtain f2 where f2: "read_sock (length path) (s\<lparr>sy_sock := f1\<rparr>) = (True, path, s\<lparr>sy_sock := f2\<rparr>)" "reads_off rest f1 f2"
    using read_sock_stream [of "s\<lparr>sy_sock := f1\<rparr>" path rest] f1(2) by (auto simp: reads_off_def)
  have "reads_off rest (sy_sock s) f2" using f1(2) f2(2) by (simp add: reads_off_def)
  moreover have "\<not> 1024 < unat (of_nat (length path) :: u32)" using u assms(2) by simp
  ultimately show ?thesis
    unfolding handle_sync_command_def Let_def f1(1) prod.case option.case u f2(1) bool.case
    using assms(2) by (intro exI [of _ f2]) simp
qed

lemma push_name_c_str: "CHR 0x00 \<notin> set path \<Longrightarrow> c_str (push_name path mode) = push_name path mode"
proof (rule c_str_id)
  assume "CHR 0x00 \<notin> set path"
  moreover have "CHR 0x00 \<notin> set (dec_of_int i)" for i
    using dec_of_nat_digits digit_facts unfolding dec_of_int_def by (auto split: if_splits)
  ultimately show "CHR 0x00 \<notin> set (push_name path mode)" by (simp add: push_name_def)
qed

definition push_request_ok :: "sync_state \<Rightarrow> string \<Rightarrow> u32 \<Rightarrow> string list \<Rightarrow> bool" where
  "push_request_ok s path mode cs \<longleftrightarrow> mode < 2 ^ 31 \<and> \<not> S_ISLNK mode \<and> CHR 0x00 \<notin> set path \<and> length (push_name path mode) \<le> 1024 \<and>
     fitting s cs"

lemma handle_sync_command_push:
  assumes "push_request_ok s path mode cs" and "stream (rscript (sy_sock s)) = push_message path mode cs t @ rest"
  shows "\<exists>f. reads_off (chunks_bytes cs @ data_bytes ID_DONE t @ rest) (sy_sock s) f \<and>
    handle_sync_command env s = do_send env (push_name path mode) (s\<lparr>sy_sock := f\<rparr>)"
  using assms handle_sync_command_request [of s ID_SEND "push_name path mode" "chunks_bytes cs @ data_bytes ID_DONE t @ rest" env]
    push_name_c_str [of path mode]
  by (auto simp: push_request_ok_def push_message_def Let_def)

text \<open>A device on which every call succeeds and files take \<open>n\<close> bytes.\<close>

definition obliging :: "sync_env \<Rightarrow> nat \<Rightarrow> bool" where
  "obliging env n \<longleftrightarrow> (\<forall>tr c. sv_sys env tr c = None) \<and> (\<forall>tr. willing (sv_file env tr) n)"

lemma do_sys_obliging: "obliging env n \<Longrightarrow> do_sys env c s = (True, s\<lparr>sy_trace := sy_trace s @ [(c, None)]\<rparr>)"
  by (simp add: do_sys_def obliging_def)

lemma update_capabilities_obliging: "obliging env n \<Longrightarrow> fst (update_capabilities env p k s)"
  by (simp add: update_capabilities_def do_sys_obliging)

definition no_open_old :: "systrace \<Rightarrow> bool" where
  "no_open_old tr \<longleftrightarrow> (\<forall>p m r. (Sys_open_old p m, r) \<notin> set tr)"

lemma handle_send_file_opens:
  assumes env: "obliging env n"
  shows "\<exists>s3 g tr. handle_send_file env path uid gid k mode u s = bindR (send_loop env s3) (after_send_loop env path k u) \<and>
    sy_file s3 = Some g \<and> willing g n \<and> sy_sock s3 = sy_sock s \<and> sy_buf s3 = sy_buf s \<and> sy_trace s3 = sy_trace s @ tr \<and> no_open_old tr"
proof -
  note d = do_sys_obliging [OF env]
  define s1 where "s1 = s\<lparr>sy_trace := sy_trace s @ [(Sys_open_new path mode, None)]\<rparr>"
  define g where "g = (sv_file env (sy_trace s1))\<lparr>written := []\<rparr>"
  have o: "open_target env path mode s = (Some True, s1\<lparr>sy_file := Some g\<rparr>)"
    by (simp add: open_target_def open_file_def d Let_def s1_def g_def)
  define s3 where "s3 = s1\<lparr>sy_file := Some g, sy_trace := sy_trace s1 @ [(Sys_fchown uid gid, None), (Sys_restorecon path, None), (Sys_fchmod mode, None)]\<rparr>"
  have "handle_send_file env path uid gid k mode u s = bindR (send_loop env s3) (after_send_loop env path k u)"
    by (simp add: handle_send_file_def o send_opened_def d s3_def)
  moreover have "willing g n" using env by (simp add: g_def obliging_def willing_def)
  ultimately show ?thesis by (intro exI [of _ s3]) (simp add: s3_def s1_def no_open_old_def)
qed

lemma handle_send_file_obliging:
  assumes env: "obliging env (length (concat cs))" and str: "stream (rscript (sy_sock s)) = chunks_bytes cs @ data_bytes ID_DONE t @ rest"
    and fit: "fitting s cs" and w: "willing (sy_sock s) 8"
  shows "\<exists>s' tr. handle_send_file env path uid gid k mode u s = Inr (True, s') \<and> sy_trace s' = sy_trace s @ tr \<and> no_open_old tr"
proof -
  note d = do_sys_obliging [OF env]
  from handle_send_file_opens [OF env, of path uid gid k mode u s] obtain s3 g tr3 where
    run: "handle_send_file env path uid gid k mode u s = bindR (send_loop env s3) (after_send_loop env path k u)"
    and s3: "sy_file s3 = Some g" "willing g (length (concat cs))" "sy_sock s3 = sy_sock s" "sy_buf s3 = sy_buf s"
    and t3: "sy_trace s3 = sy_trace s @ tr3" "no_open_old tr3" by blast
  have loop: "stream (rscript (sy_sock s3)) = chunks_bytes cs @ data_bytes ID_DONE t @ rest" "fitting s3 cs"
    using str fit s3 by (simp_all add: fitting_def)
  obtain s4 where s4: "send_loop env s3 = Inr (SendDone t, s4)" using send_loop_willing [OF s3(1) loop s3(2)] by blast
  from send_loop_push [OF s3(1) loop s4] have w4: "wscript (sy_sock s4) = wscript (sy_sock s)" and t4: "sy_trace s4 = sy_trace s3"
    by (auto simp: reads_off_def s3)
  define s5 where "s5 = snd (update_capabilities env path k (close_file env s4))"
  have c: "update_capabilities env path k (close_file env s4) = (True, s5)"
    using update_capabilities_obliging [OF env, of path k "close_file env s4"] by (simp add: s5_def prod_eq_iff)
  have s5: "sy_sock s5 = sy_sock s4" "\<exists>tr. sy_trace s5 = sy_trace s4 @ tr \<and> no_open_old tr"
    by (auto simp: s5_def update_capabilities_def close_file_def d no_open_old_def split: option.split)
  then have "willing (sy_sock s5) 8" using w w4 by (simp add: willing_def)
  from WriteFdExactly_willing [OF this, of okay_reply] obtain f where "WriteFdExactly (sy_sock s5) okay_reply = Inr (True, ENONE, f)" by auto
  then have "handle_send_file env path uid gid k mode u s =
      Inr (True, s5\<lparr>sy_trace := sy_trace s5 @ [(Sys_utime path t, None)], sy_sock := f\<rparr>)"
    using run s4 c by (simp add: after_send_loop_def d write_sock_def)
  then show ?thesis using s5(2) t4 t3 by (auto simp: no_open_old_def)
qed

text \<open>
  A client that goes away before the end of a push: the loop that should throw away the rest of the
  data starts again after each failed read.
\<close>

lemma hangs_up_empty: "hangs_up f \<Longrightarrow> stream (rscript f) = [] \<Longrightarrow> \<exists>k. rscript f = replicate k (RData [])"
proof -
  assume "hangs_up f" and s: "stream (rscript f) = []"
  then obtain ds k where f: "rscript f = map RData ds @ replicate k (RData [])" "[] \<notin> set ds" unfolding hangs_up_def by blast
  have "ds = []"
  proof (cases ds)
    case (Cons d es)
    then show ?thesis using f s by (cases d) auto
  qed
  then show ?thesis using f by auto
qed

lemma read_msg_hung_up:
  assumes "rscript (sy_sock s) = replicate k (RData [])"
  shows "\<exists>s1. read_msg s = (None, s1) \<and> rscript (sy_sock s1) = replicate (k - 1) (RData [])"
  using assms by (cases k) (auto simp: read_msg_def read_sock_def ReadFdExactly.simps [of "sy_sock s" 8] adb_read_def)

lemma drain_hung_up: "rscript (sy_sock s) = replicate k (RData []) \<Longrightarrow> drain s = Inl Spin"
proof (induction k arbitrary: s)
  case 0
  then show ?case by (simp add: drain.simps)
next
  case (Suc k)
  from read_msg_hung_up [OF Suc.prems] obtain s1 where "read_msg s = (None, s1)" "rscript (sy_sock s1) = replicate k (RData [])" by auto
  then show ?case using Suc by (subst drain.simps) simp
qed

lemma handle_send_file_interrupted:
  assumes env: "obliging env (length (concat cs))" and str: "stream (rscript (sy_sock s)) = chunks_bytes cs" "hangs_up (sy_sock s)"
    and fit: "fitting s cs"
  shows "handle_send_file env path uid gid k mode u s = Inl Spin"
proof -
  from handle_send_file_opens [OF env, of path uid gid k mode u s] obtain s3 g where
    run: "handle_send_file env path uid gid k mode u s = bindR (send_loop env s3) (after_send_loop env path k u)"
    and s3: "sy_file s3 = Some g" "willing g (length (concat cs))" "sy_sock s3 = sy_sock s" "sy_buf s3 = sy_buf s" by blast
  from send_loop_chunks [OF s3(1), of cs "[]" env] s3 str fit obtain s4 where
    s4: "send_loop env s3 = send_loop env s4" "reads_off [] (sy_sock s) (sy_sock s4)" by (auto simp: fitting_def)
  then obtain j where "rscript (sy_sock s4) = replicate j (RData [])" using hangs_up_empty [of "sy_sock s4"] str(2) by (auto simp: reads_off_def)
  from read_msg_hung_up [OF this] obtain s5 where s5: "read_msg s4 = (None, s5)" "rscript (sy_sock s5) = replicate (j - 1) (RData [])" by blast
  then have "send_loop env s4 = Inr (SendFailed, s5)" by (subst send_loop.simps) simp
  then show ?thesis using run s4(1) drain_hung_up [OF s5(2)] by (simp add: after_send_loop_def send_fail_def)
qed

text \<open>
  The command for a push, as the two theorems below use it: what an answer means, and that an
  obliging device answers.
\<close>

lemma push_command_result:
  assumes "push_request_ok s path mode cs" and "stream (rscript (sy_sock s)) = push_message path mode cs t @ rest"
    and "handle_sync_command env s = Inr (ok, s')"
  shows "replied ok s s' (stream (rscript (sy_sock s')) = rest \<and>
    (\<exists>tr. sy_trace s' = sy_trace s @ tr \<and> stored path (concat cs) (pushed_mode env path mode) t tr))"
proof -
  from handle_sync_command_push [OF assms(1,2), of env] obtain f where f: "reads_off (chunks_bytes cs @ data_bytes ID_DONE t @ rest) (sy_sock s) f"
    and run: "do_send env (push_name path mode) (s\<lparr>sy_sock := f\<rparr>) = Inr (ok, s')" using assms(3) by auto
  have "replied ok (s\<lparr>sy_sock := f\<rparr>) s' (stream (rscript (sy_sock s')) = rest \<and>
    (\<exists>tr. sy_trace s' = sy_trace (s\<lparr>sy_sock := f\<rparr>) @ tr \<and> stored path (concat cs) (pushed_mode env path mode) t tr))"
    by (rule do_send_result [OF _ _ _ _ run]) (use assms(1) f in \<open>simp_all add: push_request_ok_def reads_off_def fitting_def\<close>)
  then show ?thesis using f by (elim replied_mono) (simp_all add: reads_off_def)
qed

lemma push_command_obliging:
  assumes ok: "push_request_ok s path mode cs" and str: "stream (rscript (sy_sock s)) = push_message path mode cs t @ rest"
    and env: "obliging env (length (concat cs))" and w: "willing (sy_sock s) 8"
  shows "\<exists>s' tr. handle_sync_command env s = Inr (True, s') \<and> sy_trace s' = sy_trace s @ tr \<and> no_open_old tr"
proof -
  from handle_sync_command_push [OF ok str, of env] obtain f where f: "reads_off (chunks_bytes cs @ data_bytes ID_DONE t @ rest) (sy_sock s) f"
    and run: "handle_sync_command env s = do_send env (push_name path mode) (s\<lparr>sy_sock := f\<rparr>)" by blast
  have m: "mode < 2 ^ 31" "\<not> S_ISLNK mode" using ok by (simp_all add: push_request_ok_def)
  from do_send_file [OF m, of env path "s\<lparr>sy_sock := f\<rparr>"] obtain s1 u uid gid caps where
    eq: "do_send env (push_name path mode) (s\<lparr>sy_sock := f\<rparr>) = handle_send_file env path uid gid caps (pushed_mode env path mode) u s1"
    and s1: "sy_sock s1 = f" "sy_buf s1 = sy_buf s" "sy_trace s1 = sy_trace s \<or> (\<exists>r. sy_trace s1 = sy_trace s @ [(Sys_unlink path, r)])" by auto
  have "stream (rscript (sy_sock s1)) = chunks_bytes cs @ data_bytes ID_DONE t @ rest" "fitting s1 cs" "willing (sy_sock s1) 8"
    using f s1 ok w by (simp_all add: reads_off_def fitting_def push_request_ok_def willing_def)
  from handle_send_file_obliging [OF env this] obtain s' tr where
    "handle_send_file env path uid gid caps (pushed_mode env path mode) u s1 = Inr (True, s')"
    "sy_trace s' = sy_trace s1 @ tr" "no_open_old tr" by blast
  then show ?thesis using run eq s1(3) by (elim disjE exE) (auto simp: no_open_old_def intro!: exI [of _ s'])
qed

section \<open>What the client sends\<close>

definition puts :: "string \<Rightarrow> sync_conn \<Rightarrow> sync_conn \<Rightarrow> bool" where
  "puts m C C' \<longleftrightarrow> written (sc_fd C') = written (sc_fd C) @ m \<and> rscript (sc_fd C') = rscript (sc_fd C) \<and> sc_max C' = sc_max C \<and>
     sc_ltrace C' = sc_ltrace C"

lemma puts_trans: "puts a C C1 \<Longrightarrow> puts b C1 C2 \<Longrightarrow> puts (a @ b) C C2"
  by (simp add: puts_def)

lemma sc_write_puts: "sc_write env b C = Inr (True, C') \<Longrightarrow> puts b C C' \<and> sc_polls C' = sc_polls C \<and> sc_expect_done C' = sc_expect_done C"
  by (auto simp: sc_write_def puts_def dest!: WriteFdExactly_prefix)

lemma WriteOrDie_puts: "WriteOrDie env l r b C = Inr C' \<Longrightarrow> puts b C C' \<and> sc_polls C' = sc_polls C \<and> sc_expect_done C' = sc_expect_done C"
proof -
  assume "WriteOrDie env l r b C = Inr C'"
  then have "sc_write env b C = Inr (True, C')" by (auto simp: WriteOrDie_def split: if_splits)
  then show ?thesis by (rule sc_write_puts)
qed

lemma ReportProgress_puts: "ReportProgress f c w C = Inr C' \<Longrightarrow> puts [] C C' \<and> sc_polls C' = sc_polls C \<and> sc_expect_done C' = sc_expect_done C"
  by (auto simp: ReportProgress_def sc_print_def puts_def)

lemma RecordBytes_puts: "puts [] C (RecordBytesTransferred n C)" "sc_polls (RecordBytesTransferred n C) = sc_polls C"
    "sc_expect_done (RecordBytesTransferred n C) = sc_expect_done C"
  by (simp_all add: RecordBytesTransferred_def puts_def)

text \<open>Polls that never report anything: the device has not said anything, and poll did not fail.\<close>

definition no_news :: "sync_conn \<Rightarrow> bool" where
  "no_news C \<longleftrightarrow> (\<forall>rc \<in> set (sc_polls C). rc = 0)"

lemma ReceivedError_no_news: "no_news C \<Longrightarrow> ReceivedError env C = Inr (stop, C') \<Longrightarrow> \<not> stop \<and> puts [] C C' \<and> no_news C'"
  by (auto simp: ReceivedError_def no_news_def puts_def Let_def split: list.splits if_splits)

lemma large_loop_puts:
  "large_loop env l r w k g C = Inr (True, C') \<Longrightarrow> no_news C \<Longrightarrow> 0 < sc_max C \<Longrightarrow>
   \<exists>cs. puts (chunks_bytes cs) C C' \<and> concat cs = stream (rscript g) \<and> (\<forall>c \<in> set cs. length c \<le> sc_max C)"
proof (induction env l r w k g C rule: large_loop.induct)
  case (1 env l r w k g C)
  obtain x bs g1 where x: "adb_read g (sc_max C) = (x, bs, g1)" by (cases "adb_read g (sc_max C)") auto
  show ?case
  proof (cases x)
    case (Err e)
    then show ?thesis using "1.prems"(1) x by (subst (asm) large_loop.simps) (auto simp: fail_with_def)
  next
    case (Ret n)
    show ?thesis
    proof (cases "n = 0")
      case True
      then have "C' = C" using "1.prems"(1) x Ret by (subst (asm) large_loop.simps) simp
      then show ?thesis using adb_read_0 [of g "sc_max C" bs g1] x Ret True "1.prems"(3) by (intro exI [of _ "[]"]) (simp add: puts_def)
    next
      case False
      with x Ret "1.prems"(1) obtain C1 stop C2 where w: "WriteOrDie env l r (data_bytes ID_DATA (of_nat n) @ bs) C = Inr C1"
        and e: "ReceivedError env (RecordBytesTransferred n C1) = Inr (stop, C2)"
        and rest: "(if stop then Inr (True, C2) else bindR (ReportProgress r (k + of_nat n) w C2) (large_loop env l r w (k + of_nat n) g1)) = Inr (True, C')"
        by (subst (asm) large_loop.simps) auto
      note b = adb_read_some_stream [of g "sc_max C" n bs g1, OF x [unfolded Ret]]
      have c: "data_bytes ID_DATA (of_nat n) @ bs = chunk_bytes bs" using b False by (simp add: chunk_bytes_def)
      have "no_news (RecordBytesTransferred n C1)" using "1.prems"(2) WriteOrDie_puts [OF w] by (simp add: no_news_def RecordBytes_puts)
      from ReceivedError_no_news [OF this e] have stop: "\<not> stop" and p2: "puts [] (RecordBytesTransferred n C1) C2" "no_news C2" by auto
      with rest obtain C3 where p3: "ReportProgress r (k + of_nat n) w C2 = Inr C3" and loop: "large_loop env l r w (k + of_nat n) g1 C3 = Inr (True, C')" by auto
      have p: "puts (chunk_bytes bs) C C3" using WriteOrDie_puts [OF w] RecordBytes_puts(1) [of C1 n] p2(1) ReportProgress_puts [OF p3] c
        by (auto simp: puts_def)
      have "no_news C3" "0 < sc_max C3" using p2(2) ReportProgress_puts [OF p3] p "1.prems"(3) by (simp_all add: no_news_def puts_def)
      from "1.IH" [OF x [symmetric] Ret refl False w e refl stop p3 loop this] obtain cs where
        cs: "puts (chunks_bytes cs) C3 C'" "concat cs = stream (rscript g1)" "\<forall>c \<in> set cs. length c \<le> sc_max C3" by blast
      have "puts (chunks_bytes (bs # cs)) C C'" using puts_trans [OF p cs(1)] by simp
      then show ?thesis using cs b False p by (intro exI [of _ "bs # cs"]) (auto simp: puts_def)
    qed
  qed
qed

text \<open>The contents of a local file that is not changed while it is read.\<close>

definition local_content :: "local_env \<Rightarrow> ltrace \<Rightarrow> string \<Rightarrow> string \<Rightarrow> bool" where
  "local_content env tr path content \<longleftrightarrow>
    (\<exists>st. lc_stat env tr True path = Inr st \<and> sint (st_size st) = int (length content)) \<and>
    lc_read_file env tr path = Inr content \<and>
    (\<forall>g. lc_open env tr path = Inr g \<longrightarrow> stream (rscript g) = content)"

lemma SendSmallFile_puts:
  assumes "SendSmallFile env pm l r t b C = Inr (True, C')"
  shows "length pm \<le> 1024 \<and> puts (data_bytes ID_SEND (of_nat (length pm)) @ pm @ chunks_bytes [b] @ data_bytes ID_DONE t) C C' \<and> sc_expect_done C'"
proof -
  from assms have len: "length pm \<le> 1024" by (auto simp: SendSmallFile_def split: if_splits)
  with assms obtain C1 where w: "WriteOrDie env l r (data_bytes ID_SEND (of_nat (length pm)) @ pm @ data_bytes ID_DATA (of_nat (length b)) @ b @ data_bytes ID_DONE t) C = Inr C1"
    and p: "ReportProgress r (of_nat (length b)) (of_nat (length b)) (RecordBytesTransferred (length b) (C1\<lparr>sc_expect_done := True\<rparr>)) = Inr C'"
    by (auto simp: SendSmallFile_def)
  show ?thesis using len WriteOrDie_puts [OF w] ReportProgress_puts [OF p] RecordBytes_puts [where n = "length b" and C = "C1\<lparr>sc_expect_done := True\<rparr>"]
    by (auto simp: puts_def chunk_bytes_def)
qed

lemma SendRequest_puts:
  assumes "SendRequest env i pm C = Inr (True, C')"
  shows "length pm \<le> 1024 \<and> puts (data_bytes i (of_nat (length pm)) @ pm) C C' \<and> sc_polls C' = sc_polls C"
proof -
  from assms have len: "length pm \<le> 1024" by (auto simp: SendRequest_def split: if_splits)
  with assms have "sc_write env (data_bytes i (of_nat (length pm)) @ pm) C = Inr (True, C')" by (simp add: SendRequest_def)
  then show ?thesis using len sc_write_puts by blast
qed

lemma SendLargeFile_puts:
  assumes run: "SendLargeFile env pm l r t C = Inr (True, C')" and "no_news C" and "0 < sc_max C" and content: "local_content env (sc_ltrace C) l content"
  shows "\<exists>cs. concat cs = content \<and> (\<forall>c \<in> set cs. length c \<le> sc_max C) \<and> length pm \<le> 1024 \<and>
    puts (data_bytes ID_SEND (of_nat (length pm)) @ pm @ chunks_bytes cs @ data_bytes ID_DONE t) C C' \<and> sc_expect_done C'"
proof -
  from run obtain ok C1 where r: "SendRequest env ID_SEND pm C = Inr (ok, C1)" by (auto simp: SendLargeFile_def)
  have ok: ok using run r by (auto simp: SendLargeFile_def fail_with_def split: if_splits)
  note p1 = SendRequest_puts [OF r [unfolded eqTrueI [OF ok]]]
  then have lt: "sc_ltrace C1 = sc_ltrace C" by (simp add: puts_def)
  from content obtain st where st: "lc_stat env (sc_ltrace C) True l = Inr st" by (auto simp: local_content_def)
  from run r ok st lt obtain g where g: "lc_open env (sc_ltrace C) l = Inr g"
    by (cases "lc_open env (sc_ltrace C) l") (auto simp: SendLargeFile_def fail_with_def)
  from run r ok st lt g obtain ok2 C2 where l: "large_loop env l r (st_size st) 0 g C1 = Inr (ok2, C2)"
    and rest: "(if \<not> ok2 then Inr (False, C2)
      else bindR (WriteOrDie env l r (data_bytes ID_DONE t) (C2\<lparr>sc_expect_done := True\<rparr>)) (\<lambda>C3. Inr (True, C3))) = Inr (True, C')"
    by (auto simp: SendLargeFile_def)
  have ok2: ok2 using rest by (cases ok2) auto
  have "no_news C1" "0 < sc_max C1" using assms(2,3) p1 by (simp_all add: no_news_def puts_def)
  from large_loop_puts [OF l [unfolded eqTrueI [OF ok2]] this] obtain cs where
    cs: "puts (chunks_bytes cs) C1 C2" "concat cs = stream (rscript g)" "\<forall>c \<in> set cs. length c \<le> sc_max C1" by blast
  from rest ok2 have w: "WriteOrDie env l r (data_bytes ID_DONE t) (C2\<lparr>sc_expect_done := True\<rparr>) = Inr C'" by auto
  show ?thesis using p1 cs WriteOrDie_puts [OF w] content g
    by (intro exI [of _ cs]) (auto simp: puts_def local_content_def)
qed

text \<open>A push that was sent: the request for the device, in chunks it takes.\<close>

lemma send_contents_puts:
  assumes run: "send_contents env l path t mode C = Inr (True, C')" and reg: "\<not> S_ISLNK mode" and polls: "no_news C"
    and size: "0 < sc_max C" "sc_max C \<le> SYNC_DATA_MAX" and content: "local_content env (sc_ltrace C) l content"
  shows "\<exists>cs. concat cs = content \<and> (\<forall>c \<in> set cs. length c \<le> SYNC_DATA_MAX) \<and> length (push_name path mode) \<le> 1024 \<and>
    puts (push_message path mode cs t) C C' \<and> sc_expect_done C'"
proof -
  from content obtain st where st: "lc_stat env (sc_ltrace C) True l = Inr st" "sint (st_size st) = int (length content)"
    "lc_read_file env (sc_ltrace C) l = Inr content" by (auto simp: local_content_def)
  show ?thesis
  proof (cases "length content < SYNC_DATA_MAX")
    case True
    with run reg st have "SendSmallFile env (push_name path mode) l path t content C = Inr (True, C')"
      by (simp add: send_contents_def push_name_def)
    from SendSmallFile_puts [OF this] True show ?thesis by (intro exI [of _ "[content]"]) (simp add: push_message_def)
  next
    case False
    with run reg st have "SendLargeFile env (push_name path mode) l path t C = Inr (True, C')"
      by (simp add: send_contents_def push_name_def)
    from SendLargeFile_puts [OF this polls size(1) content] size(2) show ?thesis by (force simp: push_message_def)
  qed
qed

text \<open>The client takes a push for done only when the device answered OKAY.\<close>

lemma fail_with_False: "fail_with m C = Inr (ok, C') \<Longrightarrow> \<not> ok"
  by (auto simp: fail_with_def)

lemma CopyDone_okay:
  assumes "CopyDone env l r C = Inr (True, C')"
  shows "\<not> no_okay (stream (rscript (sc_fd C)))"
proof -
  let ?s = "stream (rscript (sc_fd C))"
  have len: "8 \<le> length ?s"
  proof (rule ccontr)
    assume "\<not> 8 \<le> length ?s"
    then obtain e bs f where "ReadFdExactly (sc_fd C) 8 [] = (False, e, bs, f)"
      using ReadFdExactly_short [of "sc_fd C" 8 "[]"] by auto
    then show False using assms fail_with_False by (auto simp: CopyDone_def sc_read_def)
  qed
  obtain C1 where rd: "sc_read env 8 C = (True, take 8 ?s, C1)"
    using ReadFdExactly_available [OF len, of "[]"] by (auto simp: sc_read_def)
  obtain i n where d: "data_of_bytes (take 8 ?s) = (i, n)" by force
  have "i = ID_OKAY"
    using assms fail_with_False [of _ _ True]
    by (auto simp: CopyDone_def rd d ReportCopyFailure_def split: if_splits bool.splits prod.splits)
  then show ?thesis using len d by (simp add: no_okay_def)
qed


lemma sc_read_written: "sc_read env n C = (ok, bs, C1) \<Longrightarrow> written (sc_fd C1) = written (sc_fd C)"
  by (auto simp: sc_read_def split: prod.splits dest!: ReadFdExactly_written)

lemma fail_with_fd: "fail_with m C = Inr (ok, C') \<Longrightarrow> sc_fd C' = sc_fd C"
  by (auto simp: fail_with_def sc_Error_def dest: sc_print_fd)

lemma ReportCopyFailure_written: "ReportCopyFailure env l r n C = Inr (ok, C') \<Longrightarrow> written (sc_fd C') = written (sc_fd C)"
  by (auto simp: ReportCopyFailure_def split: if_splits prod.splits bool.splits dest!: fail_with_fd sc_read_written)

lemma CopyDone_written: "CopyDone env l r C = Inr (ok, C') \<Longrightarrow> written (sc_fd C') = written (sc_fd C)"
  by (auto simp: CopyDone_def RecordFilesTransferred_def sc_Error_def split: if_splits prod.splits bool.splits
      dest!: fail_with_fd sc_read_written ReportCopyFailure_written sc_print_fd)

lemma sync_send_puts:
  assumes run: "sync_send env l path t mode False C = Inr (True, C')" and reg: "\<not> S_ISLNK mode" and polls: "no_news C"
    and size: "0 < sc_max C" "sc_max C \<le> SYNC_DATA_MAX" and content: "local_content env (sc_ltrace C) l content"
  shows "\<exists>cs. concat cs = content \<and> (\<forall>c \<in> set cs. length c \<le> SYNC_DATA_MAX) \<and> length (push_name path mode) \<le> 1024 \<and>
    written (sc_fd C') = written (sc_fd C) @ push_message path mode cs t \<and> \<not> no_okay (stream (rscript (sc_fd C)))"
proof -
  from run obtain ok C2 where c: "send_contents env l path t mode C = Inr (ok, C2)"
    and rest: "(if ok then CopyDone env l path C2 else Inr (False, C2)) = Inr (True, C')" by (auto simp: sync_send_def)
  have ok: ok using rest by (cases ok) auto
  from send_contents_puts [OF c [unfolded eqTrueI [OF ok]] reg polls size content] obtain cs where
    cs: "concat cs = content" "\<forall>c \<in> set cs. length c \<le> SYNC_DATA_MAX" "length (push_name path mode) \<le> 1024" "puts (push_message path mode cs t) C C2" by blast
  have d: "CopyDone env l path C2 = Inr (True, C')" using rest ok by simp
  have "written (sc_fd C') = written (sc_fd C2)" by (rule CopyDone_written [OF d])
  then show ?thesis using cs CopyDone_okay [OF d] by (intro exI [of _ cs]) (simp add: puts_def)
qed

section \<open>Theorems about push\<close>

text \<open>
  C9: a push refines an assignment to the store of files. When the service answers a request to push
  a file, with the name and mode as the client writes them and DATA messages that fit the buffer, it
  sends exactly one OKAY and read exactly the request, and its system calls, read as operations on
  the store, put the data of all messages under the name, change no other file, ask fchmod for the
  mode and, as the last call, utime for the time; only behind the data of an old file that was opened instead of created
  anew can something be left. In every other case the client finds no OKAY.
\<close>

theorem push_refines_store:
  assumes "push_request_ok s path mode cs" and "stream (rscript (sy_sock s)) = push_message path mode cs t @ rest"
    and "handle_sync_command env s = Inr (ok, s')"
  shows "\<exists>m. written (sy_sock s') = written (sy_sock s) @ m \<and>
    (if ok then m = okay_reply \<and> stream (rscript (sy_sock s')) = rest \<and>
       (\<exists>tr. sy_trace s' = sy_trace s @ tr \<and> stored path (concat cs) (pushed_mode env path mode) t tr)
     else no_okay m)"
  using push_command_result [OF assms] by (simp add: replied_def)

definition demo_sync_env :: sync_env where
  "demo_sync_env = \<lparr>sv_base = libbase_ref, sv_sys = \<lambda>_ _. None,
     sv_file = \<lambda>_. \<lparr>rscript = [RData ''old'', RData []], wscript = replicate 9 (WAccept 2), written = []\<rparr>,
     sv_stat = \<lambda>_ _ _. Inl ENOENT, sv_dir = \<lambda>_ _. None, sv_fs_config = \<lambda>_ _ m. (0, 0, m, 0), sv_strerror = \<lambda>_. ''error'',
     sv_stray = CHR 0x00\<rparr>"

definition demo_sync_state :: "rresp list \<Rightarrow> sync_state" where
  "demo_sync_state rs = \<lparr>sy_sock = \<lparr>rscript = rs, wscript = replicate 99 (WAccept 5), written = []\<rparr>, sy_buf = replicate SYNC_DATA_MAX (CHR 0x00),
     sy_err = ENONE, sy_trace = [], sy_file = None\<rparr>"

lemma demo_obliging: "obliging demo_sync_env 9"
proof -
  have "replicate 9 (WAccept 2) = map WAccept (replicate 9 2) @ []" by simp
  then show ?thesis unfolding obliging_def willing_def demo_sync_env_def by (intro conjI allI exI [of _ "replicate 9 2"] exI [of _ "[]"]) simp_all
qed

lemma demo_willing: "willing (sy_sock (demo_sync_state rs)) 8"
proof -
  have "replicate 99 (WAccept 5) = map WAccept (replicate 99 5) @ []" by simp
  then show ?thesis unfolding willing_def demo_sync_state_def by (intro exI [of _ "replicate 99 5"] exI [of _ "[]"]) simp
qed

abbreviation demo_push :: string where "demo_push \<equiv> push_message ''/d/a'' 0x81A4 [''hello''] 7"

lemma stream_single: "stream [RData x] = x"
  by (cases x) simp_all

lemma demo_request: "stream (rscript (sy_sock (demo_sync_state [RData demo_push]))) = demo_push"
  by (simp add: demo_sync_state_def stream_single)

lemma demo_mode: "dec_of_int (to_int32 (uint (0x81A4 :: u32))) = ''33188''"
proof -
  have "to_int32 (uint (0x81A4 :: u32)) = 33188" by (simp add: to_int32_id)
  then show ?thesis by (simp add: dec_of_int_def dec_of_nat.simps hex_digit_def char_of_def bit_0)
qed

lemma demo_request_ok: "push_request_ok (demo_sync_state rs) ''/d/a'' 0x81A4 [''hello'']"
proof -
  have "length (push_name ''/d/a'' 0x81A4) = 10"
    unfolding push_name_def demo_mode by simp
  moreover have "\<not> S_ISLNK 0x81A4" by (simp add: S_ISLNK_def S_IFMT_def S_IFLNK_def)
  ultimately show ?thesis by (simp add: push_request_ok_def fitting_def demo_sync_state_def SYNC_DATA_MAX_def)
qed

theorem push_refines_store_witness:
  "\<exists>s' tr. handle_sync_command demo_sync_env (demo_sync_state [RData demo_push]) = Inr (True, s') \<and> written (sy_sock s') = okay_reply \<and>
     sy_trace s' = tr \<and> stored ''/d/a'' ''hello'' (pushed_mode demo_sync_env ''/d/a'' 0x81A4) 7 tr"
proof -
  let ?s = "demo_sync_state [RData demo_push]"
  have str: "stream (rscript (sy_sock ?s)) = demo_push @ []" using demo_request by simp
  have "obliging demo_sync_env (length (concat [''hello'']))" using demo_obliging unfolding obliging_def willing_def by fastforce
  from push_command_obliging [OF demo_request_ok str this demo_willing] obtain s' where
    run: "handle_sync_command demo_sync_env ?s = Inr (True, s')" by blast
  show ?thesis using push_refines_store [OF demo_request_ok str run] run by (auto simp: demo_sync_state_def)
qed

text \<open>
  C14: a push comes to an end. On a device on which every system call succeeds and files and the
  connection take what is written, in pieces of any size, the service answers the request with OKAY,
  has read exactly the request, and the file holds exactly the data, whatever it held before.
\<close>

theorem push_completes:
  assumes "push_request_ok s path mode cs" and "stream (rscript (sy_sock s)) = push_message path mode cs t @ rest"
    and "obliging env (length (concat cs))" and "willing (sy_sock s) 8"
  shows "\<exists>s' tr. handle_sync_command env s = Inr (True, s') \<and> written (sy_sock s') = written (sy_sock s) @ okay_reply \<and>
    stream (rscript (sy_sock s')) = rest \<and> sy_trace s' = sy_trace s @ tr \<and>
    (\<forall>F cur. fst (replay (F, cur) tr) = F(path \<mapsto> concat cs))"
proof -
  from push_command_obliging [OF assms] obtain s' tr where run: "handle_sync_command env s = Inr (True, s')"
    and tr: "sy_trace s' = sy_trace s @ tr" "no_open_old tr" by blast
  from push_command_result [OF assms(1,2) run] tr(1) have r: "written (sy_sock s') = written (sy_sock s) @ okay_reply"
    "stream (rscript (sy_sock s')) = rest" "stored path (concat cs) (pushed_mode env path mode) t tr" by (auto simp: replied_def)
  have "fst (replay (F, cur) tr) = F(path \<mapsto> concat cs)" for F cur
  proof -
    from r(3) obtain tail where "fst (replay (F, cur) tr) = F(path \<mapsto> concat cs @ tail)" "tail = [] \<or> (\<exists>m. (Sys_open_old path m, None) \<in> set tr)"
      unfolding stored_def by (metis fst_conv)
    then show ?thesis using tr(2) by (simp add: no_open_old_def)
  qed
  then show ?thesis using run r tr(1) by blast
qed

theorem push_completes_witness:
  "\<exists>s' tr. handle_sync_command demo_sync_env (demo_sync_state [RData demo_push]) = Inr (True, s') \<and>
     sy_trace s' = tr \<and> fst (replay (Map.empty, None) tr) = [''/d/a'' \<mapsto> ''hello'']"
proof -
  have str: "stream (rscript (sy_sock (demo_sync_state [RData demo_push]))) = demo_push @ []" using demo_request by simp
  have "obliging demo_sync_env (length (concat [''hello'']))" using demo_obliging unfolding obliging_def willing_def by fastforce
  from push_completes [OF demo_request_ok str this demo_willing] show ?thesis by (auto simp: demo_sync_state_def)
qed


lemma demo_hangs_up: "x \<noteq> [] \<Longrightarrow> hangs_up (sy_sock (demo_sync_state [RData x, RData []])) \<and>
    stream (rscript (sy_sock (demo_sync_state [RData x, RData []]))) = x"
  unfolding hangs_up_def by (cases x) (auto simp: demo_sync_state_def intro!: exI [of _ "[x]"] exI [of _ 1])

abbreviation demo_cut :: string where
  "demo_cut \<equiv> data_bytes ID_SEND (of_nat (length (push_name ''/d/a'' 0x81A4))) @ push_name ''/d/a'' 0x81A4 @ chunks_bytes [''hello'']"


text \<open>
  C6: what adb push reports as pushed has arrived. When sync\_send succeeds for a local file that
  does not change while it is read, and its polls between the blocks have reported nothing (a poll
  that reports an error makes it stop early and still succeed, which is a case left out here), when
  the device reads what the client wrote and the client reads what the device answered, then the
  service has answered OKAY, its store holds under the remote name the contents of the local file,
  and no other file changed. Behind the contents is nothing, unless the service had to open a file
  that was there already, which it does not cut: then what that file had beyond their length. The
  mode of the push was given to fchmod and the time to utime; the service reports OKAY whatever
  these two calls return.
\<close>

theorem push_end_to_end:
  assumes "sync_send lenv lpath rpath mtime mode False C = Inr (True, C')"
    and "no_news C" and "0 < sc_max C" and "sc_max C \<le> SYNC_DATA_MAX" and "local_content lenv (sc_ltrace C) lpath content"
    and "mode < 2 ^ 31" and "\<not> S_ISLNK mode" and "CHR 0x00 \<notin> set rpath"
    and "written (sc_fd C') = written (sc_fd C) @ stream (rscript (sy_sock s))"
    and "length (sy_buf s) = SYNC_DATA_MAX" and "handle_sync_command env s = Inr (ok, s')"
    and "written (sy_sock s') = written (sy_sock s) @ stream (rscript (sc_fd C))"
  shows "ok \<and> (\<exists>tr. sy_trace s' = sy_trace s @ tr \<and> stored rpath content (pushed_mode env rpath mode) mtime tr)"
proof -
  from sync_send_puts [OF assms(1,7,2-5)] obtain cs where cs: "concat cs = content" "\<forall>c \<in> set cs. length c \<le> SYNC_DATA_MAX"
    "length (push_name rpath mode) \<le> 1024" and w: "written (sc_fd C') = written (sc_fd C) @ push_message rpath mode cs mtime"
    and okay: "\<not> no_okay (stream (rscript (sc_fd C)))" by blast
  have "fitting s cs" using cs(2) assms(10) by (force simp: fitting_def SYNC_DATA_MAX_def)
  then have "push_request_ok s rpath mode cs" using cs(3) assms(6-8) by (simp add: push_request_ok_def)
  moreover have "stream (rscript (sy_sock s)) = push_message rpath mode cs mtime @ []" using w assms(9) by simp
  ultimately have "replied ok s s' (stream (rscript (sy_sock s')) = [] \<and>
    (\<exists>tr. sy_trace s' = sy_trace s @ tr \<and> stored rpath (concat cs) (pushed_mode env rpath mode) mtime tr))"
    by (rule push_command_result) (rule assms(11))
  then show ?thesis using okay cs(1) assms(12) by (auto simp: replied_def split: if_splits)
qed

definition demo_local_env :: local_env where
  "demo_local_env = \<lparr>lc_base = libbase_ref, lc_basename = \<lambda>s. s, lc_host = linux_errno, lc_errno = \<lambda>_. 5, lc_strerror = \<lambda>_. ''error'',
     lc_stat = \<lambda>_ _ _. Inr (zero_stat\<lparr>st_size := 5\<rparr>), lc_readlink = \<lambda>_ _. Inl 5, lc_read_file = \<lambda>_ _. Inr ''hello'', lc_open = \<lambda>_ _. Inl 5,
     lc_creat = \<lambda>_ _. Inr \<lparr>rscript = [], wscript = replicate 9 (WAccept 2), written = []\<rparr>, lc_dir = \<lambda>_ _. Inl 5, lc_call = \<lambda>_ _. True,
     lc_umask = 0, lc_rate = \<lambda>_. [], lc_stray = CHR 0x00\<rparr>"

definition demo_conn :: "rresp list \<Rightarrow> sync_conn" where
  "demo_conn rs = \<lparr>sc_fd = \<lparr>rscript = rs, wscript = replicate 99 (WAccept 5), written = []\<rparr>, sc_max = SYNC_DATA_MAX, sc_expect_done = False,
     sc_stat_v2 = True, sc_global = zero_ledger, sc_current = zero_ledger, sc_lp = new_line_printer False None None, sc_errno = 0,
     sc_polls = [], sc_ltrace = []\<rparr>"

lemma demo_conn_willing: "willing (sc_fd (demo_conn rs)) 99"
proof -
  have "replicate 99 (WAccept 5) = map WAccept (replicate 99 5) @ []" by simp
  then show ?thesis unfolding willing_def demo_conn_def by (intro exI [of _ "replicate 99 5"] exI [of _ "[]"]) simp
qed

lemma ReportProgress_dumb: "\<not> smart_terminal (sc_lp C) \<Longrightarrow> \<exists>lp. ReportProgress f c w C = Inr (C\<lparr>sc_lp := lp\<rparr>)"
  unfolding ReportProgress_def sc_print_def lp_Print_def by (rule exI) simp

lemma demo_sync_send:
  "\<exists>C'. sync_send demo_local_env ''a'' ''/d/a'' 7 0x81A4 False (demo_conn [RData okay_reply]) = Inr (True, C') \<and> written (sc_fd C') = demo_push"
proof -
  let ?C = "demo_conn [RData okay_reply]" and ?m = "''/d/a,33188''"
  let ?b = "data_bytes ID_SEND 10 @ ?m @ data_bytes ID_DATA 5 @ ''hello'' @ data_bytes ID_DONE 7"
  have name: "push_name ''/d/a'' 0x81A4 = ?m" unfolding push_name_def demo_mode by simp
  have b: "demo_push = ?b" unfolding push_message_def name by (simp add: chunk_bytes_def)
  from WriteFdExactly_willing [OF demo_conn_willing, of ?b "[RData okay_reply]"] obtain f where
    w: "WriteFdExactly (sc_fd ?C) ?b = Inr (True, ENONE, f)" "written f = demo_push" "rscript f = [RData okay_reply]"
    unfolding b by (auto simp: demo_conn_def)
  have wd: "WriteOrDie demo_local_env ''a'' ''/d/a'' ?b ?C = Inr (?C\<lparr>sc_fd := f\<rparr>)" using w(1) by (simp add: WriteOrDie_def sc_write_def)
  have dumb: "\<not> smart_terminal (sc_lp ?C)" by (simp add: demo_conn_def new_line_printer_def)
  have "\<exists>lp. ReportProgress ''/d/a'' 5 5 (RecordBytesTransferred 5 (?C\<lparr>sc_fd := f, sc_expect_done := True\<rparr>)) =
      Inr ((RecordBytesTransferred 5 (?C\<lparr>sc_fd := f, sc_expect_done := True\<rparr>))\<lparr>sc_lp := lp\<rparr>)"
    by (rule ReportProgress_dumb) (simp add: RecordBytesTransferred_def dumb)
  then obtain C2 where small: "SendSmallFile demo_local_env ?m ''a'' ''/d/a'' 7 ''hello'' ?C = Inr (True, C2)" and C2: "sc_fd C2 = f" "sc_expect_done C2"
    using wd by (force simp: SendSmallFile_def RecordBytesTransferred_def)
  have reg: "\<not> S_ISLNK 0x81A4" by (simp add: S_ISLNK_def S_IFMT_def S_IFLNK_def)
  have "send_contents demo_local_env ''a'' ''/d/a'' 7 0x81A4 ?C = Inr (True, C2)"
    using small reg name unfolding send_contents_def Let_def push_name_def if_not_P [OF reg]
    by (simp only:) (simp add: demo_local_env_def SYNC_DATA_MAX_def)
  moreover obtain f' where "ReadFdExactly f 8 [] = (True, ENONE, okay_reply, f')" "written f' = written f"
    using ReadFdExactly_stream [of f okay_reply "[]"] w(3) by (auto simp: stream_single reads_off_def)
  ultimately show ?thesis using C2 w(2)
    by (simp add: sync_send_def CopyDone_def sc_read_def RecordFilesTransferred_def)
qed

theorem push_end_to_end_witness:
  "\<exists>s' tr. handle_sync_command demo_sync_env (demo_sync_state [RData demo_push]) = Inr (True, s') \<and>
     sy_trace s' = tr \<and> stored ''/d/a'' ''hello'' (pushed_mode demo_sync_env ''/d/a'' 0x81A4) 7 tr"
proof -
  let ?s = "demo_sync_state [RData demo_push]" and ?C = "demo_conn [RData okay_reply]"
  have str: "stream (rscript (sy_sock ?s)) = demo_push @ []" using demo_request by simp
  have "obliging demo_sync_env (length (concat [''hello'']))" using demo_obliging unfolding obliging_def willing_def by fastforce
  from push_command_obliging [OF demo_request_ok str this demo_willing] obtain s' where
    run: "handle_sync_command demo_sync_env ?s = Inr (True, s')" by blast
  have reply: "written (sy_sock s') = written (sy_sock ?s) @ stream (rscript (sc_fd ?C))"
    using push_command_result [OF demo_request_ok str run] by (auto simp: replied_def demo_conn_def stream_single)
  obtain C' where c: "sync_send demo_local_env ''a'' ''/d/a'' 7 0x81A4 False ?C = Inr (True, C')" and w: "written (sc_fd C') = demo_push"
    using demo_sync_send by blast
  have "written (sc_fd C') = written (sc_fd ?C) @ stream (rscript (sy_sock ?s))" using w demo_request by (simp add: demo_conn_def)
  moreover have "no_news ?C" "0 < sc_max ?C" "sc_max ?C \<le> SYNC_DATA_MAX" "length (sy_buf ?s) = SYNC_DATA_MAX"
    by (simp_all add: no_news_def demo_conn_def demo_sync_state_def SYNC_DATA_MAX_def)
  moreover have "local_content demo_local_env (sc_ltrace ?C) ''a'' ''hello''"
    by (auto simp: local_content_def demo_local_env_def)
  moreover have "\<not> S_ISLNK 0x81A4" "(0x81A4 :: u32) < 2 ^ 31" "CHR 0x00 \<notin> set ''/d/a''" by (simp_all add: S_ISLNK_def S_IFMT_def S_IFLNK_def)
  ultimately show ?thesis using push_end_to_end [OF c _ _ _ _ _ _ _ _ _ run reply, of "''hello''"] run by (auto simp: demo_sync_state_def)
qed

end
