(* ===== verification/Install_Props.thy ===== *)
theory Install_Props
  imports Install Sync_Props Client_Props
begin

text \<open>
  Installing several APKs: the conversations of adb install-multiple with the device are one session,
  from its creation over the APKs to exactly one commit or abandon.
\<close>

section \<open>Copying a file\<close>

text \<open>A connection that takes the next \<open>n\<close> writes whole.\<close>

definition roomy :: "fd_state \<Rightarrow> nat \<Rightarrow> bool" where
  "roomy f n \<longleftrightarrow> (\<exists>ks rest. wscript f = map WAccept ks @ rest \<and> (\<forall>k \<in> set ks. 32 * 1024 \<le> k) \<and> n \<le> length ks)"

lemma put_roomy:
  assumes "roomy f (Suc n)" and "length bs \<le> 32 * 1024"
  obtains f1 where "put (Sink f) bs = Sink f1" "roomy f1 n" "written f1 = written f @ bs" "rscript f1 = rscript f"
proof -
  from assms(1) obtain k ks rest where ks: "wscript f = WAccept k # map WAccept ks @ rest" "32 * 1024 \<le> k" "\<forall>k \<in> set ks. 32 * 1024 \<le> k" "n \<le> length ks"
    unfolding roomy_def by (auto simp: Suc_le_length_iff)
  let ?f = "f\<lparr>wscript := map WAccept ks @ rest, written := written f @ bs\<rparr>"
  have "put (Sink f) bs = Sink ?f" using assms(2) ks(1,2) by (simp add: adb_write_def Let_def)
  moreover have "roomy ?f n" unfolding roomy_def using ks(3,4) by auto
  ultimately show thesis by (intro that [of ?f]) auto
qed

lemma copy_to_file_whole:
  "roomy f n \<Longrightarrow> length (stream (rscript l)) \<le> n \<Longrightarrow>
   \<exists>l' f'. copy_to_file l (Sink f) = (l', Sink f') \<and> written f' = written f @ stream (rscript l) \<and> rscript f' = rscript f"
proof (induction "rsize l" arbitrary: l f n rule: less_induct)
  case less
  obtain r bs l1 where rd: "adb_read l (32 * 1024) = (r, bs, l1)" by (cases "adb_read l (32 * 1024)") auto
  show ?case
  proof (cases "r = Ret 0 \<or> (\<exists>e. r = Err e)")
    case True
    then have "stream (rscript l) = []" using rd adb_read_0 [of l "32 * 1024" bs l1] adb_read_data [of l "32 * 1024"] by fastforce
    with True rd show ?thesis by (auto simp: copy_to_file.simps [of l])
  next
    case False
    then obtain k where k: "r = Ret k" "0 < k" by (cases r) auto
    note s = adb_read_some_stream [OF rd [unfolded k(1)] k(2)]
    have n: "n = Suc (n - 1)" "length (stream (rscript l1)) \<le> n - 1" using less.prems(2) s k(2) by auto
    obtain f1 where f1: "put (Sink f) bs = Sink f1" "roomy f1 (n - 1)" "written f1 = written f @ bs" "rscript f1 = rscript f"
      using put_roomy [of f "n - 1" bs] less.prems(1) n(1) s by metis
    have "rsize l1 < rsize l" using adb_read_some [OF rd [unfolded k(1)] k(2)] .
    from less.hyps [OF this f1(2) n(2)] obtain l' f' where
      "copy_to_file l1 (Sink f1) = (l', Sink f')" "written f' = written f1 @ stream (rscript l1)" "rscript f' = rscript f1" by blast
    moreover have "copy_to_file l (Sink f) = copy_to_file l1 (Sink f1)" using rd k f1(1) by (simp add: copy_to_file.simps [of l])
    ultimately show ?thesis using f1(3,4) s by auto
  qed
qed

lemma status_loop_written: "status_loop f n acc = (s, f') \<Longrightarrow> written f' = written f"
proof (induction f n acc arbitrary: s f' rule: status_loop.induct)
  case (1 f n acc)
  obtain r bs f1 where rd: "adb_read f n = (r, bs, f1)" by (cases "adb_read f n") auto
  show ?case using "1.prems" "1.IH" rd adb_read_written [OF rd]
    by (subst (asm) status_loop.simps) (auto split: io_ret.splits if_splits)
qed

lemma read_status_line_written: "read_status_line f n = (s, f') \<Longrightarrow> written f' = written f"
  by (auto simp: read_status_line_def split: prod.splits dest: status_loop_written)

text \<open>A short write loses the rest of what was read.\<close>

lemma copy_to_file_short_write:
  "written (sink_fd (snd (copy_to_file (demo_fd [RData ''package'', RData []] []) (Sink (demo_fd [] [WAccept 4])))) (demo_fd [] [])) = ''pack''"
  by (simp add: demo_fd_def copy_to_file.simps adb_read_def adb_write_def sink_fd_def)

section \<open>One conversation\<close>

definition acknowledged :: "exchange \<Rightarrow> bool" where
  "acknowledged e \<longleftrightarrow> ex_conn e \<noteq> None \<and> success (ex_status e)"

text \<open>The file went over whole, where the connection takes every write whole.\<close>

definition sent_whole :: "fd_state \<Rightarrow> exchange \<Rightarrow> bool" where
  "sent_whole l e \<longleftrightarrow> (\<forall>f. ex_conn e = Some f \<longrightarrow> roomy f (length (stream (rscript l))) \<longrightarrow> ex_sent e = stream (rscript l))"

lemma conversation_result:
  assumes "conversation env service src S = Inr (r, S')"
  obtains e where "cm_log S' = cm_log S @ [e]" "ex_service e = service" "r = None \<longleftrightarrow> ex_conn e = None" "\<And>buf. r = Some buf \<Longrightarrow> ex_status e = buf"
    "\<And>l. src = Some l \<Longrightarrow> sent_whole l e"
proof -
  from assms obtain c error C1 where c: "adb_connect (cx_client env) service (cm_client S) = Inr (c, error, C1)" by (auto simp: conversation_def)
  show thesis
  proof (cases c)
    case (NoConn n)
    with assms c show thesis
      by (intro that [of "\<lparr>ex_service = service, ex_conn = None, ex_sent = [], ex_status = []\<rparr>"])
        (auto simp: conversation_def logged_def sent_whole_def split: if_splits)
  next
    case (Conn f)
    let ?f1 = "case src of None \<Rightarrow> f | Some l \<Rightarrow> sink_fd (snd (copy_to_file l (Sink f))) f"
    obtain buf f2 where b: "read_status_line ?f1 (cx_bufsiz env) = (buf, f2)" by fastforce
    let ?e = "\<lparr>ex_service = service, ex_conn = Some f, ex_sent = drop (length (written f)) (written f2), ex_status = buf\<rparr>"
    have rS: "r = Some buf" "cm_log S' = cm_log S @ [?e]" using assms c Conn b by (auto simp: conversation_def Let_def logged_def)
    have "sent_whole l ?e" if "src = Some l" for l
      using copy_to_file_whole [OF _ order_refl, of f l] read_status_line_written [OF b] that by (auto simp: sent_whole_def sink_fd_def)
    then show thesis using rS by (intro that [of ?e]) auto
  qed
qed

section \<open>A session\<close>

definition readable :: "cmd_env \<Rightarrow> string \<Rightarrow> bool" where
  "readable env apk \<longleftrightarrow> cx_stat env apk \<noteq> None \<and> cx_open env apk \<noteq> None"

text \<open>A conversation that sends the APK of index \<open>i\<close>.\<close>

definition writes_apk :: "cmd_env \<Rightarrow> string \<Rightarrow> int \<Rightarrow> nat \<Rightarrow> string \<Rightarrow> exchange \<Rightarrow> bool" where
  "writes_apk env install_cmd sid i apk e \<longleftrightarrow>
    (\<exists>sz l. cx_stat env apk = Some sz \<and> cx_open env apk = Some l \<and> ex_service e = write_service env install_cmd sid i apk sz \<and> sent_whole l e)"

definition all_written :: "string list \<Rightarrow> exchange list \<Rightarrow> bool" where
  "all_written apks es \<longleftrightarrow> length es = length apks \<and> (\<forall>e \<in> set es. acknowledged e)"

text \<open>
  The APKs in order, each once, up to the first that cannot be read, has no connection or is not
  acknowledged.
\<close>

fun apk_session :: "cmd_env \<Rightarrow> string \<Rightarrow> int \<Rightarrow> nat \<Rightarrow> string list \<Rightarrow> exchange list \<Rightarrow> bool" where
  "apk_session env install_cmd sid i [] es \<longleftrightarrow> es = []"
| "apk_session env install_cmd sid i (apk # apks) es \<longleftrightarrow>
    (case es of
       [] \<Rightarrow> \<not> readable env apk
     | e # es' \<Rightarrow> writes_apk env install_cmd sid i apk e \<and> (if acknowledged e then apk_session env install_cmd sid (i + 1) apks es' else es' = []))"

lemma stream_apks_session:
  "stream_apks env install_cmd sid i apks S = Inr (ok, S') \<Longrightarrow>
   \<exists>es. cm_log S' = cm_log S @ es \<and> apk_session env install_cmd sid i apks es \<and> ok = all_written apks es"
proof (induction apks arbitrary: i S)
  case Nil
  then show ?case by (auto simp: all_written_def)
next
  case (Cons apk apks)
  show ?case
  proof (cases "readable env apk")
    case False
    then show ?thesis using Cons.prems by (intro exI [of _ "[]"]) (auto simp: readable_def all_written_def split: option.splits)
  next
    case True
    then obtain sz l where f: "cx_stat env apk = Some sz" "cx_open env apk = Some l" by (auto simp: readable_def)
    with Cons.prems obtain r S1 where c: "conversation env (write_service env install_cmd sid i apk sz) (Some l) S = Inr (r, S1)"
      and rest: "(case r of None \<Rightarrow> Inr (False, S1)
        | Some buf \<Rightarrow> if success buf then stream_apks env install_cmd sid (i + 1) apks S1 else Inr (False, S1)) = (Inr (ok, S') :: (bool \<times> cmd) res)" by auto
    from conversation_result [OF c] obtain e where e: "cm_log S1 = cm_log S @ [e]" "ex_service e = write_service env install_cmd sid i apk sz"
      "r = None \<longleftrightarrow> ex_conn e = None" "\<And>buf. r = Some buf \<Longrightarrow> ex_status e = buf" "sent_whole l e" by metis
    have w: "writes_apk env install_cmd sid i apk e" using f e(2,5) by (auto simp: writes_apk_def)
    show ?thesis
    proof (cases "acknowledged e")
      case True
      then have "stream_apks env install_cmd sid (i + 1) apks S1 = Inr (ok, S')" using rest e(3,4) by (auto simp: acknowledged_def split: option.splits if_splits)
      from Cons.IH [OF this] obtain es where es: "cm_log S' = cm_log S1 @ es" "apk_session env install_cmd sid (i + 1) apks es" "ok = all_written apks es" by blast
      then show ?thesis using w True e(1) by (intro exI [of _ "e # es"]) (auto simp: all_written_def)
    next
      case False
      then have "\<not> ok" "S' = S1" using rest e(3,4) by (auto simp: acknowledged_def split: option.splits if_splits)
      then show ?thesis using w False e(1) by (intro exI [of _ "[e]"]) (auto simp: all_written_def)
    qed
  qed
qed

lemma finalize_session_result:
  assumes "finalize_session env install_cmd ok sid S = Inr (r, S')"
  obtains e where "cm_log S' = cm_log S @ [e]" "ex_service e = finalize_service install_cmd ok sid" "r = (if acknowledged e then 0 else 1)"
proof -
  from assms obtain x S1 where c: "conversation env (finalize_service install_cmd ok sid) None S = Inr (x, S1)"
    and rest: "(case x of None \<Rightarrow> Inr (1, S1) | Some buf \<Rightarrow> if success buf then Inr (0, print_out buf S1) else Inr (1, S1)) = (Inr (r, S') :: (int \<times> cmd) res)"
    by (auto simp: finalize_session_def)
  from conversation_result [OF c] obtain e where e: "cm_log S1 = cm_log S @ [e]" "ex_service e = finalize_service install_cmd ok sid"
    "x = None \<longleftrightarrow> ex_conn e = None" "\<And>buf. x = Some buf \<Longrightarrow> ex_status e = buf" by metis
  then show thesis using rest by (intro that [of e]) (auto simp: acknowledged_def print_out_def split: option.splits if_splits)
qed

text \<open>The session of the answer to install-create, negative where there is none.\<close>

definition created :: "exchange \<Rightarrow> int" where
  "created e = (if ex_conn e = None then -1 else session_id (ex_status e))"


section \<open>A server that answers\<close>

lemma protocol_string_length:
  assumes "length s < 65536"
  shows "length (protocol_string s) \<le> length s + 4" "protocol_string s \<noteq> []"
proof -
  have "length (pad0 4 (hex_of_nat (length s))) = 4" using pad0_hex_strtoul16 [of "length s"] assms by simp
  then show "length (protocol_string s) \<le> length s + 4" "protocol_string s \<noteq> []" using assms by (auto simp: protocol_string_def Let_def)
qed

lemma request_once:
  assumes "rscript f = RData ''OKAY'' # rs" and "wscript f = WAccept n # ws" and "length service + 4 \<le> n" and "length service < 65536"
  shows "request_status env service f = Inr (True, [], f\<lparr>rscript := rs, wscript := ws, written := written f @ protocol_string service\<rparr>)"
  using assms protocol_string_length [OF assms(4)]
  by (simp add: request_status_def SendProtocolString_def MAX_PAYLOAD_eval WriteFdExactly_steps min_absorb2 adb_status_def
      ReadFdExactly.simps [of _ 4] ReadFdExactly.simps [of _ 0] adb_read_def)

text \<open>The answer of a server of the same version.\<close>

definition version_fd :: fd_state where
  "version_fd = demo_fd [RData ''OKAY'', RData ''0004'', RData ''0027'', RData []] [WAccept 16]"

lemma version_answer:
  assumes "conns C = Inr version_fd # cs"
  shows "\<exists>f. adb_connect1 env ''host:version'' C = Inr (Conn f, [], C\<lparr>conns := cs\<rparr>) \<and> server_version env (Conn f) error C1 = Inr (Inr (int ADB_SERVER_VERSION))"
proof -
  let ?f = "version_fd\<lparr>rscript := [RData ''0004'', RData ''0027'', RData []], wscript := [], written := written version_fd @ protocol_string ''host:version''\<rparr>"
  have r: "request_status env ''host:version'' version_fd = Inr (True, [], ?f)"
    by (rule request_once [where n = 16]) (simp_all add: version_fd_def demo_fd_def)
  have d: "pad0 4 (hex_of_nat 4) = ''0004''" by (simp add: pad0_def hex_of_nat.simps [of 4] hex_digit_lits numeral_3_eq_3)
  have l: "strtoul16 ''0004'' = 4" using pad0_hex_strtoul16(2) [of 4, unfolded d] by simp
  have v: "sscanf_x4 ''0027'' = Some 39"
    by (simp add: sscanf_x4_def c_str_def skip_0x_def is_space_def Let_def hex_val_def to_int32_id)
  have "adb_connect1 env ''host:version'' C = Inr (Conn ?f, [], C\<lparr>conns := cs\<rparr>)"
    using assms r by (simp add: adb_connect1_def MAX_PAYLOAD_eval next_conn_def)
  moreover have "server_version env (Conn ?f) error C1 = Inr (Inr (int ADB_SERVER_VERSION))"
    by (simp add: server_version_def ReadProtocolString_def ReadFdExactly.simps [of _ 4] ReadFdExactly.simps [of _ 0] adb_read_def l v
        ReadOrderlyShutdown_def ADB_SERVER_VERSION_def)
  ultimately show ?thesis by blast
qed

lemma connect_answered:
  assumes "conns C = Inr version_fd # Inr f # cs" and "adb_transport C = kTransportAny" "adb_serial C = None"
    and f: "rscript f = RData ''OKAY'' # RData ''OKAY'' # rs" "wscript f = WAccept 22 # WAccept n # ws"
    and s: "length service + 4 \<le> n" "length service < 65536" "service \<noteq> []" "\<not> prefix ''host'' service"
  shows "adb_connect env service C =
    Inr (Conn (f\<lparr>rscript := rs, wscript := ws, written := (written f @ protocol_string ''host:transport-any'') @ protocol_string service\<rparr>), [], C\<lparr>conns := cs\<rparr>)"
proof -
  let ?C = "C\<lparr>conns := Inr f # cs\<rparr>"
  have sw: "switch_socket_transport env K f = Inr (True, [], f\<lparr>rscript := RData ''OKAY'' # rs, wscript := WAccept n # ws, written := written f @ protocol_string ''host:transport-any''\<rparr>)"
    if "adb_transport K = kTransportAny" "adb_serial K = None" for K :: client
    using that request_once [OF f] by (simp add: switch_socket_transport_def switch_service_def)
  have "adb_connect1 env service ?C =
      Inr (Conn (f\<lparr>rscript := rs, wscript := ws, written := (written f @ protocol_string ''host:transport-any'') @ protocol_string service\<rparr>), [], C\<lparr>conns := cs\<rparr>)"
    using sw [of "C\<lparr>conns := cs\<rparr>"] assms(2,3) s request_once [OF _ _ s(1,2)]
    by (simp add: adb_connect1_def MAX_PAYLOAD_eval next_conn_def)
  moreover obtain g where "adb_connect1 env ''host:version'' C = Inr (Conn g, [], ?C)" "server_version env (Conn g) [] ?C = Inr (Inr (int ADB_SERVER_VERSION))"
    using version_answer [OF assms(1)] by blast
  moreover have "service \<noteq> ''host:start-server''" using s(4) by auto
  ultimately show ?thesis by (simp add: adb_connect_def connect_service_now_def)
qed

section \<open>Two APKs\<close>

definition demo_cmd_env :: cmd_env where
  "demo_cmd_env = \<lparr>cx_client = demo_client_env, cx_local = demo_local_env, cx_term = None, cx_log_tags = None, cx_bufsiz = 8192, cx_stray = CHR 0x00,
    cx_stat = (\<lambda>_. Some 7), cx_open = (\<lambda>_. Some (demo_fd [RData ''package'', RData []] [])), cx_creat = (\<lambda>_. None),
    cx_ends_with = (\<lambda>s t. suffix t s), cx_polls = [], cx_depth = 1\<rparr>"

definition device_fd :: "string \<Rightarrow> fd_state" where
  "device_fd line = demo_fd [RData ''OKAY'', RData ''OKAY'', RData line, RData []] (WAccept 22 # WAccept 100 # replicate 7 (WAccept 40000))"

definition features_fd :: fd_state where
  "features_fd = demo_fd [RData ''OKAY'', RData ''0003'', RData ''cmd'', RData []] [WAccept 100]"

definition demo_cmd :: cmd where
  "demo_cmd = \<lparr>cm_client = \<lparr>adb_transport = kTransportAny, adb_serial = None, adb_server_socket_spec = None,
      conns = [Inr version_fd, Inr features_fd, Inr version_fd, Inr (device_fd ''Success: created install session [12]''),
        Inr version_fd, Inr (device_fd ''Success''), Inr version_fd, Inr (device_fd ''Success''), Inr version_fd, Inr (device_fd ''Success'')],
      launches = [], kills = 0\<rparr>,
    cm_log = [], cm_std = \<lparr>stdout_str = None, stderr_str = None, host_stdout = [], host_stderr = []\<rparr>, cm_lp = new_line_printer False None None\<rparr>"

lemma demo_session_id: "session_id ''Success: created install session [12]'' = 12"
  by code_simp

lemma read_status_line_once:
  "line \<noteq> [] \<Longrightarrow> length line < 8000 \<Longrightarrow> CHR 0x00 \<notin> set line \<Longrightarrow> rscript f = [RData line, RData []] \<Longrightarrow>
   read_status_line f 8192 = (line, f\<lparr>rscript := []\<rparr>)"
  by (simp add: read_status_line_def status_loop.simps [of f] status_loop.simps [of "f\<lparr>rscript := [RData []]\<rparr>"] adb_read_def c_str_id)

lemma features_query:
  assumes "conns C = Inr version_fd # Inr features_fd # cs" and "adb_transport C = kTransportAny" "adb_serial C = None"
  shows "use_legacy_install demo_cmd_env C = Inr (False, C\<lparr>conns := cs\<rparr>)"
proof -
  let ?f = "features_fd\<lparr>rscript := [RData ''0003'', RData ''cmd'', RData []], wscript := [], written := written features_fd @ protocol_string ''host:features''\<rparr>"
  have r: "request_status env ''host:features'' features_fd = Inr (True, [], ?f)" for env
    by (rule request_once [where n = 100]) (simp_all add: features_fd_def demo_fd_def)
  have "hex_of_nat 3 = ''3''" by (simp add: hex_of_nat.simps [of 3] hex_digit_lits)
  then have d: "pad0 4 (hex_of_nat 3) = ''0003''" by (simp add: pad0_def numeral_3_eq_3)
  have l: "strtoul16 ''0003'' = 3" using pad0_hex_strtoul16(2) [of 3, unfolded d] by simp
  obtain g where g: "adb_connect1 demo_client_env ''host:version'' C = Inr (Conn g, [], C\<lparr>conns := Inr features_fd # cs\<rparr>)"
    "server_version demo_client_env (Conn g) [] (C\<lparr>conns := Inr features_fd # cs\<rparr>) = Inr (Inr (int ADB_SERVER_VERSION))"
    using version_answer [OF assms(1)] by blast
  have "adb_connect1 demo_client_env ''host:features'' (C\<lparr>conns := Inr features_fd # cs\<rparr>) = Inr (Conn ?f, [], C\<lparr>conns := cs\<rparr>)"
    using r by (simp add: adb_connect1_def MAX_PAYLOAD_eval next_conn_def)
  with g have c: "adb_connect demo_client_env ''host:features'' C = Inr (Conn ?f, [], C\<lparr>conns := cs\<rparr>)"
    by (simp add: adb_connect_def connect_service_now_def)
  have p: "ReadProtocolString ?f = Inr (True, ''cmd'', [], ?f\<lparr>rscript := [RData []]\<rparr>)"
    by (simp add: ReadProtocolString_def ReadFdExactly.simps [of _ 4] ReadFdExactly.simps [of _ 3] ReadFdExactly.simps [of _ 0] adb_read_def l)
  have "adb_query demo_client_env ''host:features'' C = Inr (True, ''cmd'', [], C\<lparr>conns := cs\<rparr>)"
    using c p by (simp add: adb_query_def ReadOrderlyShutdown_def adb_read_def)
  then show ?thesis using assms(2,3)
    by (simp add: use_legacy_install_def adb_get_feature_set_def format_host_command_def demo_cmd_env_def demo_client_env_def
      StringToFeatureSet_def CanUseFeature_def supported_features_def kFeatureCmd_def libbase_ref_def)
qed

definition serving :: "string list \<Rightarrow> client \<Rightarrow> bool" where
  "serving lines C \<longleftrightarrow> conns C = concat (map (\<lambda>l. [Inr version_fd, Inr (device_fd l)]) lines) \<and> adb_transport C = kTransportAny \<and> adb_serial C = None \<and>
    (\<forall>l \<in> set lines. l \<noteq> [] \<and> length l < 8000 \<and> CHR 0x00 \<notin> set l)"

lemma demo_conversation:
  assumes "serving (line # lines) (cm_client S)"
    and s: "length service \<le> 96" "service \<noteq> []" "\<not> prefix ''host'' service"
    and src: "src = None \<or> src = Some (demo_fd [RData ''package'', RData []] [])"
  obtains S' where "conversation demo_cmd_env service src S = Inr (Some line, S')" "serving lines (cm_client S')"
proof -
  let ?cs = "concat (map (\<lambda>l. [Inr version_fd, Inr (device_fd l)]) lines)"
  have C: "conns (cm_client S) = Inr version_fd # Inr (device_fd line) # ?cs" "adb_transport (cm_client S) = kTransportAny" "adb_serial (cm_client S) = None"
    and line: "line \<noteq> []" "length line < 8000" "CHR 0x00 \<notin> set line" using assms(1) by (simp_all add: serving_def)
  have rest: "serving lines ((cm_client S)\<lparr>conns := ?cs\<rparr>)" using assms(1) by (simp add: serving_def)
  let ?d = "device_fd line"
  define f where "f = ?d\<lparr>rscript := [RData line, RData []], wscript := replicate 7 (WAccept 40000), written := (written ?d @ protocol_string ''host:transport-any'') @ protocol_string service\<rparr>"
  have c: "adb_connect demo_client_env service (cm_client S) = Inr (Conn f, [], (cm_client S)\<lparr>conns := ?cs\<rparr>)"
    unfolding f_def by (rule connect_answered [where n = 100]) (use C s in \<open>simp_all add: device_fd_def demo_fd_def\<close>)
  define f1 where "f1 = (case src of None \<Rightarrow> f | Some l \<Rightarrow> sink_fd (snd (copy_to_file l (Sink f))) f)"
  have "roomy f 7" unfolding roomy_def f_def by (intro exI [of _ "replicate 7 40000"] exI [of _ "[]"]) (simp add: map_replicate)
  from copy_to_file_whole [OF this, of "demo_fd [RData ''package'', RData []] []"] src have "rscript f1 = [RData line, RData []]"
    by (auto simp: f1_def demo_fd_def sink_fd_def f_def)
  from read_status_line_once [OF line this] obtain f2 where "read_status_line f1 8192 = (line, f2)" by blast
  then show thesis using c rest
    by (intro that [of "logged \<lparr>ex_service = service, ex_conn = Some f, ex_sent = drop (length (written f)) (written f2), ex_status = line\<rparr> (S\<lparr>cm_client := (cm_client S)\<lparr>conns := ?cs\<rparr>\<rparr>)"])
      (simp_all add: conversation_def demo_cmd_env_def Let_def logged_def flip: f1_def)
qed

lemma demo_services:
  "length (create_service demo_cmd_env ''exec:cmd package'' 1 [''install-multiple'', ''a.apk'', ''b.apk'']) \<le> 96"
  "create_service demo_cmd_env ''exec:cmd package'' k args \<noteq> []" "\<not> prefix ''host'' (create_service demo_cmd_env ''exec:cmd package'' k args)"
  "length (write_service demo_cmd_env ''exec:cmd package'' 12 1 ''a.apk'' 7) \<le> 96" "length (write_service demo_cmd_env ''exec:cmd package'' 12 2 ''b.apk'' 7) \<le> 96"
  "write_service demo_cmd_env ''exec:cmd package'' 12 i a sz \<noteq> []" "\<not> prefix ''host'' (write_service demo_cmd_env ''exec:cmd package'' 12 i a sz)"
  "length (finalize_service ''exec:cmd package'' True 12) \<le> 96" "finalize_service ''exec:cmd package'' True 12 \<noteq> []" "\<not> prefix ''host'' (finalize_service ''exec:cmd package'' True 12)"
  by (simp_all add: create_service_def total_size_def escaped_args_def write_service_def finalize_service_def demo_cmd_env_def demo_local_env_def
      dec_of_int_def dec_of_nat.simps [of 14] dec_of_nat.simps [of 12] dec_of_nat.simps [of 7] dec_of_nat.simps [of 1] dec_of_nat.simps [of 2] dec_of_nat.simps [of "Suc 0"])

lemma demo_install: "\<exists>r S'. install_multiple_app demo_cmd_env [''install-multiple'', ''a.apk'', ''b.apk''] demo_cmd = Inr (r, S')"
proof -
  let ?args = "[''install-multiple'', ''a.apk'', ''b.apk'']" and ?env = demo_cmd_env and ?ic = "''exec:cmd package''"
  have k: "first_apk ?env ?args = Some 1" by (simp add: first_apk_def demo_cmd_env_def suffix_def)
  define C0 where "C0 = (cm_client demo_cmd)\<lparr>conns := drop 2 (conns (cm_client demo_cmd))\<rparr>"
  have l: "use_legacy_install ?env (cm_client demo_cmd) = Inr (False, C0)"
    unfolding C0_def by (rule features_query) (simp_all add: demo_cmd_def)
  have C0: "serving [''Success: created install session [12]'', ''Success'', ''Success'', ''Success''] (cm_client (demo_cmd\<lparr>cm_client := C0\<rparr>))"
    by (simp add: serving_def C0_def demo_cmd_def)
  obtain S1 where S1: "conversation ?env (create_service ?env ?ic 1 ?args) None (demo_cmd\<lparr>cm_client := C0\<rparr>) = Inr (Some ''Success: created install session [12]'', S1)"
    "serving [''Success'', ''Success'', ''Success''] (cm_client S1)"
    by (rule demo_conversation [OF C0 demo_services(1-3) disjI1 [OF refl]])
  obtain S2 where S2: "conversation ?env (write_service ?env ?ic 12 1 ''a.apk'' 7) (Some (demo_fd [RData ''package'', RData []] [])) S1 = Inr (Some ''Success'', S2)"
    "serving [''Success'', ''Success''] (cm_client S2)"
    by (rule demo_conversation [OF S1(2) demo_services(4,6,7) disjI2 [OF refl]])
  obtain S3 where S3: "conversation ?env (write_service ?env ?ic 12 2 ''b.apk'' 7) (Some (demo_fd [RData ''package'', RData []] [])) S2 = Inr (Some ''Success'', S3)"
    "serving [''Success''] (cm_client S3)"
    by (rule demo_conversation [OF S2(2) demo_services(5,6,7) disjI2 [OF refl]])
  obtain S4 where S4: "conversation ?env (finalize_service ?ic True 12) None S3 = Inr (Some ''Success'', S4)"
    by (rule demo_conversation [OF S3(2) demo_services(8-10) disjI1 [OF refl]])
  have f: "cx_stat ?env a = Some 7" "cx_open ?env a = Some (demo_fd [RData ''package'', RData []] [])" for a by (simp_all add: demo_cmd_env_def)
  have "stream_apks ?env ?ic 12 1 (drop 1 ?args) S1 = Inr (True, S3)" using S2(1) S3(1) f by (simp add: success_def numeral_2_eq_2)
  moreover have "finalize_session ?env ?ic True 12 S3 = Inr (0, print_out ''Success'' S4)" using S4 by (simp add: finalize_session_def success_def)
  ultimately show ?thesis using k l S1(1) demo_session_id by (simp add: install_multiple_app_def)
qed


end
