(* ===== verification/Sideload.thy ===== *)
theory Sideload
  imports Adb_Client Shell_Protocol
begin

text \<open>
  adb sideload (commandline.cpp): the device asks for blocks of a package by number and the client
  answers with them. The package is given by what a read at an offset gives; the messages on the
  terminal are left out.
\<close>

definition SIDELOAD_HOST_BLOCK_SIZE :: nat where "SIDELOAD_HOST_BLOCK_SIZE = 65536"

lemma block_size_pos [simp]: "0 < SIDELOAD_HOST_BLOCK_SIZE"
  by (simp add: SIDELOAD_HOST_BLOCK_SIZE_def)

text \<open>\<open>pk_read\<close>: lseek to the offset and ReadFdExactly, None where one of them fails.\<close>

record package =
  pk_size :: nat
  pk_read :: "nat \<Rightarrow> nat \<Rightarrow> string option"

text \<open>The offset of a block: the product is an int, and negative ones are huge as size\_t.\<close>

definition block_offset :: "int \<Rightarrow> nat res" where
  "block_offset block =
    (let p = block * int SIDELOAD_HOST_BLOCK_SIZE in
     if p < - (2 ^ 31) \<or> 2 ^ 31 \<le> p then Inl (Fatal ''signed overflow'') else Inr (nat (p mod 2 ^ 64)))"

text \<open>What is sent for a request; None where the client gives up.\<close>

definition requested :: "package \<Rightarrow> string \<Rightarrow> string option res" where
  "requested pk buf =
    bindR (block_offset (to_int32 (strtol10 buf))) (\<lambda>offset.
      if offset \<ge> pk_size pk then Inr None
      else
        (let to_write = (if offset + SIDELOAD_HOST_BLOCK_SIZE > pk_size pk then pk_size pk - offset else SIDELOAD_HOST_BLOCK_SIZE) in
         Inr (pk_read pk offset to_write)))"

text \<open>The loop: the result, the connection and the number of bytes sent.\<close>

function serve :: "client_env \<Rightarrow> package \<Rightarrow> fd_state \<Rightarrow> nat \<Rightarrow> (int \<times> fd_state \<times> nat) res" where
  "serve env pk f xfer =
    (case ReadFdExactly f 8 [] of
       (False, e, buf, f1) \<Rightarrow> Inr (-1, f1, xfer)
     | (True, e, buf, f1) \<Rightarrow>
         if c_str buf = ''DONEDONE'' then Inr (0, f1, xfer)
         else
           bindR (requested pk buf) (\<lambda>r.
             case r of
               None \<Rightarrow> Inr (-1, f1, xfer)
             | Some d \<Rightarrow>
                 bindR (WriteFdExactly f1 d) (\<lambda>(ok, e, f2).
                   if \<not> ok then bindR (adb_status env f2) (\<lambda>(_, _, f3). Inr (-1, f3, xfer))
                   else serve env pk f2 (xfer + length d))))"
  by pat_completeness auto
termination
  by (relation "measure (\<lambda>(env, pk, f, xfer). rsize f)") (auto dest!: ReadFdExactly_some [OF sym] WriteFdExactly_rsize)

declare serve.simps [simp del]

section \<open>The whole command\<close>

text \<open>
  The old protocol: the package in one go, chunk by chunk. \<open>rd\<close> is ReadFdExactly on the package.
\<close>

function legacy_loop :: "client_env \<Rightarrow> package \<Rightarrow> nat \<Rightarrow> nat \<Rightarrow> fd_state \<Rightarrow> (bool \<times> fd_state) res" where
  "legacy_loop env pk offset left f =
    (if left = 0 then Inr (True, f)
     else
       (let xfer = min left SIDELOAD_HOST_BLOCK_SIZE in
        case pk_read pk offset xfer of
          None \<Rightarrow> Inr (False, f)
        | Some d \<Rightarrow>
            bindR (WriteFdExactly f d) (\<lambda>(ok, e, f1).
              if \<not> ok then bindR (adb_status env f1) (\<lambda>(_, _, f2). Inr (False, f2))
              else legacy_loop env pk (offset + xfer) (left - xfer) f1)))"
  by pat_completeness auto
termination
  by (relation "measure (\<lambda>(env, pk, offset, left, f). left)") (auto simp: Let_def)

declare legacy_loop.simps [simp del]

text \<open>A size that does not fit an int is negative or cut off: nothing or only a part is sent.\<close>

definition adb_sideload_legacy :: "client_env \<Rightarrow> package \<Rightarrow> client \<Rightarrow> (int \<times> string \<times> client) res" where
  "adb_sideload_legacy env pk C =
    (let sz = to_int32 (int (pk_size pk)) in
     bindR (adb_connect env (''sideload:'' @ dec_of_int sz) C) (\<lambda>(c, error, C1).
       case c of
         NoConn _ \<Rightarrow> Inr (-1, error, C1)
       | Conn f \<Rightarrow>
           bindR (legacy_loop env pk 0 (nat sz) f) (\<lambda>(ok, f1).
             if \<not> ok then Inr (-1, [], C1)
             else bindR (adb_status env f1) (\<lambda>(ok2, error2, f2). Inr (if ok2 then 0 else -1, error2, C1)))))"

text \<open>\<open>opened\<close> is the package where stat and open succeed.\<close>

definition adb_sideload_host :: "client_env \<Rightarrow> package option \<Rightarrow> client \<Rightarrow> (int \<times> string \<times> client) res" where
  "adb_sideload_host env opened C =
    (case opened of
       None \<Rightarrow> Inr (-1, [], C)
     | Some pk \<Rightarrow>
         bindR (adb_connect env (''sideload-host:'' @ dec_of_int (to_int32 (int (pk_size pk))) @ '':'' @ dec_of_nat SIDELOAD_HOST_BLOCK_SIZE) C)
           (\<lambda>(c, error, C1).
             case c of
               NoConn _ \<Rightarrow> adb_sideload_legacy env pk C1
             | Conn f \<Rightarrow> bindR (serve env pk f 0) (\<lambda>(r, f1, xfer). Inr (r, error, C1))))"

section \<open>The device gets the blocks it asks for\<close>

definition block_of :: "string \<Rightarrow> nat \<Rightarrow> string" where
  "block_of content b = take SIDELOAD_HOST_BLOCK_SIZE (drop (b * SIDELOAD_HOST_BLOCK_SIZE) content)"

definition request_of :: "nat \<Rightarrow> string" where
  "request_of b = pad0 8 (dec_of_nat b)"

lemma requested_block:
  assumes "b * SIDELOAD_HOST_BLOCK_SIZE < length content" and "b < 32768"
    and pk: "pk_size pk = length content" "\<And>offset n. offset + n \<le> length content \<Longrightarrow> pk_read pk offset n = Some (take n (drop offset content))"
  shows "requested pk (request_of b) = Inr (Some (block_of content b))"
proof -
  let ?o = "b * SIDELOAD_HOST_BLOCK_SIZE"
  have "strtol10 (request_of b) = int b" unfolding request_of_def by (rule strtol10_dec) (use assms(2) in simp)
  moreover have "to_int32 (int b) = int b" using assms(2) by (intro to_int32_id) simp_all
  moreover have "block_offset (int b) = Inr ?o" using assms(2) by (simp add: block_offset_def SIDELOAD_HOST_BLOCK_SIZE_def nat_mult_distrib Let_def)
  moreover have "(if ?o + SIDELOAD_HOST_BLOCK_SIZE > pk_size pk then pk_size pk - ?o else SIDELOAD_HOST_BLOCK_SIZE) =
      min SIDELOAD_HOST_BLOCK_SIZE (length content - ?o)" using pk(1) by auto
  moreover have "pk_read pk ?o (min SIDELOAD_HOST_BLOCK_SIZE (length content - ?o)) = Some (block_of content b)"
    using assms(1) pk(2) [of ?o "min SIDELOAD_HOST_BLOCK_SIZE (length content - ?o)"] by (auto simp: block_of_def min_def)
  ultimately show ?thesis using assms(1) pk(1) by (simp add: requested_def Let_def)
qed

lemma dec_of_nat_length: "n < 10 ^ Suc k \<Longrightarrow> length (dec_of_nat n) \<le> Suc k"
proof (induction k arbitrary: n)
  case 0
  then show ?case by (simp add: dec_of_nat.simps [of n])
next
  case (Suc k)
  then have "n div 10 < 10 ^ Suc k" by simp
  with Suc.IH [of "n div 10"] show ?case by (simp add: dec_of_nat.simps [of n])
qed

lemma request_facts:
  assumes "b < 32768"
  shows "length (request_of b) = 8" "c_str (request_of b) \<noteq> ''DONEDONE''"
proof -
  have "length (dec_of_nat b) \<le> Suc 7" by (rule dec_of_nat_length) (use assms in simp)
  then show "length (request_of b) = 8" by (simp add: request_of_def pad0_length)
  have d: "\<forall>c \<in> set (request_of b). is_digit c" using dec_of_nat_digits [of b] by (auto simp: request_of_def pad0_def is_digit_def)
  then have "CHR ''D'' \<notin> set (request_of b)" by (auto simp: is_digit_def)
  moreover have "c_str (request_of b) = request_of b" using d digit_facts by (intro c_str_id) blast
  ultimately show "c_str (request_of b) \<noteq> ''DONEDONE''" by auto
qed

lemma serve_blocks:
  assumes pk: "pk_size pk = length content" "\<And>offset n. offset + n \<le> length content \<Longrightarrow> pk_read pk offset n = Some (take n (drop offset content))"
  shows "\<forall>b \<in> set bs. b * SIDELOAD_HOST_BLOCK_SIZE < length content \<and> b < 32768 \<Longrightarrow>
    stream (rscript f) = concat (map request_of bs) @ ''DONEDONE'' @ rest \<Longrightarrow> willing f (length (concat (map (block_of content) bs))) \<Longrightarrow>
    \<exists>f'. serve env pk f xfer = Inr (0, f', xfer + length (concat (map (block_of content) bs))) \<and>
      written f' = written f @ concat (map (block_of content) bs) \<and> stream (rscript f') = rest"
proof (induction bs arbitrary: f xfer)
  case Nil
  from ReadFdExactly_available [of 8 f "[]"] Nil.prems(2) obtain f1 where
    "ReadFdExactly f 8 [] = (True, ENONE, ''DONEDONE'', f1)" "stream (rscript f1) = rest" "written f1 = written f" by auto
  then show ?case by (simp add: serve.simps [of env pk f] c_str_def)
next
  case (Cons b bs)
  have b: "b * SIDELOAD_HOST_BLOCK_SIZE < length content" "b < 32768" using Cons.prems(1) by auto
  note rq = request_facts [OF b(2)]
  let ?rest = "concat (map request_of bs) @ ''DONEDONE'' @ rest"
  have st: "stream (rscript f) = request_of b @ ?rest" using Cons.prems(2) by simp
  then have "8 \<le> length (stream (rscript f))" using rq(1) by simp
  from ReadFdExactly_available [OF this, of "[]"] st rq(1) obtain f1 where
    f1: "ReadFdExactly f 8 [] = (True, ENONE, request_of b, f1)" "stream (rscript f1) = ?rest" "wscript f1 = wscript f" "written f1 = written f" by auto
  let ?d = "block_of content b" and ?n = "length (concat (map (block_of content) bs))"
  have "willing f1 (length ?d + ?n)" using Cons.prems(3) f1(3) by (simp add: willing_def)
  from WriteFdExactly_willing [OF this, of ?d] obtain f2 where
    f2: "WriteFdExactly f1 ?d = Inr (True, ENONE, f2)" "willing f2 ?n" "written f2 = written f1 @ ?d" "rscript f2 = rscript f1" by auto
  have "\<forall>b \<in> set bs. b * SIDELOAD_HOST_BLOCK_SIZE < length content \<and> b < 32768" "stream (rscript f2) = ?rest"
    using Cons.prems(1) f1(2) f2(4) by simp_all
  from Cons.IH [OF this f2(2), of "xfer + length ?d"] obtain f' where
    f': "serve env pk f2 (xfer + length ?d) = Inr (0, f', xfer + length ?d + ?n)" "written f' = written f2 @ concat (map (block_of content) bs)" "stream (rscript f') = rest" by blast
  have "serve env pk f xfer = serve env pk f2 (xfer + length ?d)"
    using f1(1) rq(2) requested_block [OF b pk] f2(1) by (simp add: serve.simps [of env pk f xfer])
  then show ?case using f' f2(3) f1(4) by (simp add: add.assoc)
qed

text \<open>
  C22: adb sideload gives the device the package it asked for. A device asks, with eight digits
  each, for any blocks of the package, in any order and as often as it likes, and then sends
  DONEDONE, cut into pieces in any way: the client sends exactly the bytes of these blocks, the last
  one of the package as long as it is, and ends with 0. Block numbers are below 32768, so packages
  of up to 2 GiB are covered; beyond, the product of int overflows.
\<close>

theorem sideload_serves:
  assumes "pk_size pk = length content" and "\<And>offset n. offset + n \<le> length content \<Longrightarrow> pk_read pk offset n = Some (take n (drop offset content))"
    and "\<forall>b \<in> set bs. b * SIDELOAD_HOST_BLOCK_SIZE < length content \<and> b < 32768"
    and "stream (rscript f) = concat (map request_of bs) @ ''DONEDONE'' @ rest"
    and "willing f (length (concat (map (block_of content) bs)))"
  shows "\<exists>f'. serve env pk f 0 = Inr (0, f', length (concat (map (block_of content) bs))) \<and>
    written f' = written f @ concat (map (block_of content) bs) \<and> stream (rscript f') = rest"
  using serve_blocks [OF assms, of env 0] by simp

definition demo_package :: "string \<Rightarrow> package" where
  "demo_package content = \<lparr>pk_size = length content, pk_read = (\<lambda>offset n. if offset + n \<le> length content then Some (take n (drop offset content)) else None)\<rparr>"

definition sideload_env :: client_env where
  "sideload_env = \<lparr>cl_base = libbase_ref, cl_build = linux_host, strerror = (\<lambda>_. [])\<rparr>"

theorem sideload_serves_witness:
  "\<exists>f'. serve sideload_env (demo_package ''package'') (demo_fd [RData ''0000'', RData ''000000000000DONE'', RData ''DONE''] (replicate 14 (WAccept 1))) 0 = Inr (0, f', length ''packagepackage'') \<and>
    written f' = ''packagepackage'' \<and> stream (rscript f') = []"
proof -
  let ?f = "demo_fd [RData ''0000'', RData ''000000000000DONE'', RData ''DONE''] (replicate 14 (WAccept 1))"
  have r: "request_of 0 = ''00000000''" by code_simp
  have b: "block_of ''package'' 0 = ''package''" by (simp add: block_of_def SIDELOAD_HOST_BLOCK_SIZE_def)
  have bs: "concat (map (block_of ''package'') [0, 0]) = ''packagepackage''" using b by simp
  have st: "stream (rscript ?f) = concat (map request_of [0, 0]) @ ''DONEDONE'' @ []" using r by (simp add: demo_fd_def)
  have w: "willing ?f (length (concat (map (block_of ''package'') [0, 0])))"
    unfolding bs willing_def demo_fd_def by (rule exI [of _ "replicate 14 1"], rule exI [of _ "[]"]) (simp add: map_replicate)
  have "\<exists>f'. serve sideload_env (demo_package ''package'') ?f 0 = Inr (0, f', length (concat (map (block_of ''package'') [0, 0]))) \<and>
      written f' = written ?f @ concat (map (block_of ''package'') [0, 0]) \<and> stream (rscript f') = []"
    by (rule sideload_serves [OF _ _ _ st w]) (simp_all add: demo_package_def)
  then show ?thesis unfolding bs by (simp add: demo_fd_def)
qed

end
