(* ===== verification/Console.thy ===== *)
theory Console
  imports Adb_Client
begin

text \<open>
  console.cpp: adb emu sends a command to the console of an emulator. \<open>token\<close> is the text of the file
  with the console's token where it can be read, and \<open>connect_port\<close> what network\_loopback\_client gives
  for a port.
\<close>

definition adb_construct_auth_command :: "string option \<Rightarrow> string" where
  "adb_construct_auth_command token0 =
    (case token0 of None \<Rightarrow> [] | Some tok \<Rightarrow> if tok = [] then [] else ''auth '' @ tok @ [CHR 0x0A])"

text \<open>\<open>sscanf(s, "emulator-%d", &port)\<close>\<close>

definition emulator_port :: "string \<Rightarrow> int option" where
  "emulator_port s = (if prefix ''emulator-'' s then sscanf_d (drop 9 s) else None)"

text \<open>The loop over the lines of the device list: the port of the only emulator, or -1.\<close>

fun console_loop :: "string list \<Rightarrow> int \<Rightarrow> nat \<Rightarrow> int" where
  "console_loop [] port emulator_count = (if emulator_count = 0 then -1 else port)"
| "console_loop (d # devices) port emulator_count =
    (case emulator_port d of
       None \<Rightarrow> console_loop devices port emulator_count
     | Some p \<Rightarrow> if emulator_count + 1 > 1 then -1 else console_loop devices p (emulator_count + 1))"

definition adb_get_emulator_console_port :: "client_env \<Rightarrow> string option \<Rightarrow> client \<Rightarrow> (int \<times> client) res" where
  "adb_get_emulator_console_port env serial0 C =
    (case serial0 of
       Some s \<Rightarrow> Inr (case emulator_port s of Some p \<Rightarrow> p | None \<Rightarrow> -1, C)
     | None \<Rightarrow>
         bindR (adb_query env ''host:devices'' C) (\<lambda>(ok, devices, error, C1).
           if \<not> ok then Inr (-1, C1) else Inr (console_loop (Split (cl_base env) devices [CHR 0x0A]) 0 0, C1)))"

definition connect_to_console :: "client_env \<Rightarrow> (int \<Rightarrow> fd_state option) \<Rightarrow> string option \<Rightarrow> client \<Rightarrow> (fd_state option \<times> client) res" where
  "connect_to_console env connect_port serial0 C =
    bindR (adb_get_emulator_console_port env serial0 C) (\<lambda>(port, C1). Inr (if port = -1 then None else connect_port port, C1))"

definition console_commands :: "string option \<Rightarrow> string list \<Rightarrow> string" where
  "console_commands token0 args =
    adb_construct_auth_command token0 @ concat (map (\<lambda>a. a @ '' '') (butlast args)) @
    (if args = [] then [] else last args @ [CHR 0x0A]) @ ''quit'' @ [CHR 0x0A]"

text \<open>The output of the console is read and dropped.\<close>

function drain_console :: "nat \<Rightarrow> fd_state \<Rightarrow> fd_state" where
  "drain_console bufsiz f =
    (case adb_read f bufsiz of
       (Ret k, bs, f1) \<Rightarrow> if k = 0 then f1 else drain_console bufsiz f1
     | (Err e, bs, f1) \<Rightarrow> f1)"
  by pat_completeness auto
termination
  by (relation "measure (\<lambda>(bufsiz, f). rsize f)") (auto dest!: adb_read_some [OF sym])

declare drain_console.simps [simp del]

text \<open>\<open>args\<close> are the words behind emu; the result has the connection as it was left.\<close>

definition adb_send_emulator_command ::
    "client_env \<Rightarrow> nat \<Rightarrow> string option \<Rightarrow> (int \<Rightarrow> fd_state option) \<Rightarrow> string list \<Rightarrow> string option \<Rightarrow> client \<Rightarrow> (int \<times> fd_state option \<times> client) res" where
  "adb_send_emulator_command env bufsiz token0 connect_port args serial0 C =
    bindR (connect_to_console env connect_port serial0 C) (\<lambda>(c, C1).
      case c of
        None \<Rightarrow> Inr (1, None, C1)
      | Some fd \<Rightarrow>
          bindR (WriteFdExactly fd (console_commands token0 args)) (\<lambda>(ok, e, f1).
            if \<not> ok then Inr (1, Some f1, C1) else Inr (0, Some (drain_console bufsiz f1), C1)))"

section \<open>Which emulator\<close>

lemma console_loop_found: "console_loop devices port (Suc 0) = (if List.map_filter emulator_port devices = [] then port else -1)"
  by (induction devices) (auto simp: List.map_filter_def split: option.splits)

text \<open>A command without a serial goes to an emulator only where exactly one is listed, and to that.\<close>

lemma console_loop_only:
  "console_loop devices port 0 = (case List.map_filter emulator_port devices of [p] \<Rightarrow> p | _ \<Rightarrow> -1)"
proof (induction devices)
  case Nil
  then show ?case by (simp add: List.map_filter_def)
next
  case (Cons d devices)
  then show ?case using console_loop_found [of devices] by (auto simp: List.map_filter_def split: option.splits list.splits)
qed

end
