(* ===== verification/Dispatch.thy ===== *)
theory Dispatch
  imports Install Sideload Console
begin

text \<open>
  adb\_commandline of commandline.cpp: the global options, the address of the server, and the command.
  \<open>dispatch\<close> gives what a command line asks for, as an \<open>action\<close> with the service names and arguments as
  they are passed on, and \<open>run_action\<close> calls the functions of the other theories. Hosts are not Windows.
\<close>

section \<open>Global options\<close>

record global_options =
  go_server :: bool
  go_no_daemon :: bool
  go_daemon :: bool
  go_reply_fd :: int
  go_serial :: "string option"
  go_transport :: TransportType
  go_listen_all :: bool
  go_host :: "string option"
  go_port :: "string option"
  go_socket :: "string option"

definition no_options :: global_options where
  "no_options = \<lparr>go_server = False, go_no_daemon = False, go_daemon = False, go_reply_fd = -1, go_serial = None,
    go_transport = kTransportAny, go_listen_all = False, go_host = None, go_port = None, go_socket = None\<rparr>"

text \<open>An option with its argument in the same word or the next one: the argument and the words left.\<close>

definition joined_arg :: "string \<Rightarrow> string list \<Rightarrow> (string \<times> string list) option" where
  "joined_arg word args = (if length word = 2 then (case args of [] \<Rightarrow> None | a # rest \<Rightarrow> Some (a, rest)) else Some (drop 2 word, args))"

lemma joined_arg_shorter: "joined_arg word args = Some (a, rest) \<Longrightarrow> length rest \<le> length args"
  by (auto simp: joined_arg_def split: if_splits list.splits)

text \<open>The loop over the options: the options and the words left, or None where it ends with 1.\<close>

function parse_options :: "string list \<Rightarrow> global_options \<Rightarrow> (global_options \<times> string list) option" where
  "parse_options argv go =
    (case argv of
       [] \<Rightarrow> Some (go, [])
     | w # args \<Rightarrow>
         if w = ''server'' then parse_options args (go\<lparr>go_server := True\<rparr>)
         else if w = ''nodaemon'' then parse_options args (go\<lparr>go_no_daemon := True\<rparr>)
         else if w = ''fork-server'' then parse_options args (go\<lparr>go_daemon := True\<rparr>)
         else if w = ''--reply-fd'' then
           (case args of
              [] \<Rightarrow> None
            | a # rest \<Rightarrow>
                let fd = to_int32 (strtol10 a) in
                if fd > 2 then parse_options rest (go\<lparr>go_reply_fd := fd\<rparr>) else None)
         else if prefix ''-s'' w then
           if length w > 2 \<and> is_digit (w ! 2) then parse_options args (go\<lparr>go_serial := Some (drop 2 w)\<rparr>)
           else
             (case args of
                [] \<Rightarrow> None
              | a # rest \<Rightarrow> if length w > 2 then None else parse_options rest (go\<lparr>go_serial := Some a\<rparr>))
         else if w = ''-d'' then parse_options args (go\<lparr>go_transport := kTransportUsb\<rparr>)
         else if w = ''-e'' then parse_options args (go\<lparr>go_transport := kTransportLocal\<rparr>)
         else if w = ''-a'' then parse_options args (go\<lparr>go_listen_all := True\<rparr>)
         else if prefix ''-H'' w then
           (case joined_arg w args of None \<Rightarrow> None | Some (a, rest) \<Rightarrow> parse_options rest (go\<lparr>go_host := Some a\<rparr>))
         else if prefix ''-P'' w then
           (case joined_arg w args of None \<Rightarrow> None | Some (a, rest) \<Rightarrow> parse_options rest (go\<lparr>go_port := Some a\<rparr>))
         else if w = ''-L'' then
           (case args of [] \<Rightarrow> None | a # rest \<Rightarrow> parse_options rest (go\<lparr>go_socket := Some a\<rparr>))
         else Some (go, argv))"
  by pat_completeness auto
termination
  by (relation "measure (\<lambda>(argv, go). length argv)") (auto dest!: joined_arg_shorter)

declare parse_options.simps [simp del]

section \<open>The address of the server\<close>

definition DEFAULT_ADB_PORT :: int where "DEFAULT_ADB_PORT = 5037"

text \<open>None where the command ends with 1.\<close>

definition server_socket_str :: "libbase \<Rightarrow> (string \<Rightarrow> string option) \<Rightarrow> global_options \<Rightarrow> string option" where
  "server_socket_str B getenv go =
    (if (go_host go \<noteq> None \<or> go_port go \<noteq> None) \<and> go_socket go \<noteq> None then None
     else
       (case (if go_host go = None \<and> go_port go = None \<and> go_socket go = None then getenv ''ADB_SERVER_SOCKET'' else go_socket go) of
          Some s \<Rightarrow> Some s
        | None \<Rightarrow>
            (let host = (if go_host go \<noteq> None then go_host go else getenv ''ANDROID_ADB_SERVER_ADDRESS'');
                 port_str = (if go_port go \<noteq> None then go_port go else getenv ''ANDROID_ADB_SERVER_PORT'');
                 port = (case port_str of
                           None \<Rightarrow> Some DEFAULT_ADB_PORT
                         | Some s \<Rightarrow>
                             if s = [] then Some DEFAULT_ADB_PORT
                             else (case ParseInt B s of None \<Rightarrow> None | Some p \<Rightarrow> if 1 \<le> p \<and> p \<le> 65535 then Some p else None)) in
             map_option (\<lambda>p. ''tcp:'' @ (case host of None \<Rightarrow> [] | Some h \<Rightarrow> h @ '':'') @ dec_of_int p) port)))"

text \<open>ANDROID\_SERIAL counts only where no device was chosen.\<close>

definition serial_of :: "(string \<Rightarrow> string option) \<Rightarrow> global_options \<Rightarrow> string option" where
  "serial_of getenv go = (if go_transport go = kTransportAny \<and> go_serial go = None then getenv ''ANDROID_SERIAL'' else go_serial go)"

section \<open>Commands\<close>

datatype action =
    Ends int                                  \<comment> \<open>a syntax error, the help text or the version\<close>
  | Query string
  | Connect_to string
  | Emu "string list"
  | Shell "string list"
  | Exec bool string                          \<comment> \<open>exec-in: True\<close>
  | Kill_server
  | Sideload_file string
  | Root string
  | Bug_report "string list"
  | Forward string
  | Ls string
  | Push "string list" string bool
  | Pull "string list" string bool
  | Install_cmd "string list"
  | Install_multiple "string list"
  | Uninstall "string list"
  | Sync_parts string bool
  | Logcat "string list"
  | Ppp "string list"
  | Start_server
  | Backup "string list"
  | Restore "string list"
  | Keygen string
  | Features
  | Reconnect_device

text \<open>\<open>a\<close> are the words behind forward or reverse. A name the server would refuse ends with 1.\<close>

definition host_prefix :: "bool \<Rightarrow> TransportType \<Rightarrow> string option \<Rightarrow> string" where
  "host_prefix reverse t serial0 =
    (if reverse then ''reverse''
     else
       (case serial0 of
          Some s \<Rightarrow> ''host-serial:'' @ s
        | None \<Rightarrow> if t = kTransportUsb then ''host-usb'' else if t = kTransportLocal then ''host-local'' else ''host''))"

definition forward_action :: "libbase \<Rightarrow> bool \<Rightarrow> TransportType \<Rightarrow> string option \<Rightarrow> string list \<Rightarrow> action" where
  "forward_action B reverse t serial0 a =
    (let hp = host_prefix reverse t serial0;
         fwd = (\<lambda>pre l r. case forward_targets_are_valid B l r of Inl error \<Rightarrow> Ends 1 | Inr _ \<Rightarrow> Forward (hp @ pre @ l @ '';'' @ r)) in
     case a of
       [] \<Rightarrow> Ends 1
     | w # rest \<Rightarrow>
         if w = ''--list'' then if rest \<noteq> [] then Ends 1 else Query (hp @ '':list-forward'')
         else if w = ''--remove-all'' then if rest \<noteq> [] then Ends 1 else Forward (hp @ '':killforward-all'')
         else if w = ''--remove'' then (case rest of [l] \<Rightarrow> Forward (hp @ '':killforward:'' @ l) | _ \<Rightarrow> Ends 1)
         else if w = ''--no-rebind'' then (case rest of [l, r] \<Rightarrow> fwd '':forward:norebind:'' l r | _ \<Rightarrow> Ends 1)
         else (case rest of [r] \<Rightarrow> fwd '':forward:'' w r | _ \<Rightarrow> Ends 1))"

definition sync_action :: "string list \<Rightarrow> action" where
  "sync_action args =
    (let p = (case args of
                [] \<Rightarrow> Some ([], False)
              | w # rest \<Rightarrow>
                  if w = ''-l'' then Some (case rest of [s] \<Rightarrow> s | _ \<Rightarrow> [], True)
                  else if rest = [] then Some (w, False) else None) in
     case p of
       None \<Rightarrow> Ends 1
     | Some (src0, list_only) \<Rightarrow>
         let src = (if src0 = ''all'' then [] else src0) in
         if src \<notin> {[], ''system'', ''data'', ''vendor'', ''oem''} then Ends 1 else Sync_parts src list_only)"

definition push_action :: "string list \<Rightarrow> action" where
  "push_action args =
    (case parse_push_pull_args args None of
       None \<Rightarrow> Ends 1
     | Some (srcs, dst, copy_attrs, sync) \<Rightarrow> (case dst of None \<Rightarrow> Ends 1 | Some d \<Rightarrow> if srcs = [] then Ends 1 else Push srcs d sync))"

definition pull_action :: "string list \<Rightarrow> action" where
  "pull_action args =
    (case parse_push_pull_args args (Some ''.'') of
       None \<Rightarrow> Ends 1
     | Some (srcs, dst, copy_attrs, sync) \<Rightarrow> (case dst of None \<Rightarrow> Ends 1 | Some d \<Rightarrow> if srcs = [] then Ends 1 else Pull srcs d copy_attrs))"

text \<open>\<open>c\<close> is the command and \<open>args\<close> the words behind it. The groups are those of the source, the last one first.\<close>

definition dispatch_other :: "TransportType \<Rightarrow> string option \<Rightarrow> string \<Rightarrow> string list \<Rightarrow> action" where
  "dispatch_other t serial0 c args =
    (if c \<in> {''get-state'', ''get-serialno'', ''get-devpath''} then Query (format_host_command c t serial0)
     else if c \<in> {''logcat'', ''lolcat'', ''longcat''} then Logcat (c # args)
     else if c = ''ppp'' then Ppp (c # args)
     else if c = ''start-server'' then Start_server
     else if c = ''backup'' then Backup (c # args)
     else if c = ''restore'' then Restore (c # args)
     else if c = ''keygen'' then (case args of [f] \<Rightarrow> Keygen f | _ \<Rightarrow> Ends 1)
     else if c = ''jdwp'' then Connect_to ''jdwp''
     else if c = ''track-jdwp'' then Connect_to ''track-jdwp''
     else if c = ''track-devices'' then Connect_to ''host:track-devices''
     else if c \<in> {''--help'', ''help'', ''/?''} then Ends 0
     else if c \<in> {''--version'', ''version''} then Ends 0
     else if c = ''features'' then Features
     else if c = ''host-features'' then Query ''host:host-features''
     else if c = ''reconnect'' then
       (case args of
          [] \<Rightarrow> Query (format_host_command c t serial0)
        | [w] \<Rightarrow> if w = ''device'' then Reconnect_device else if w = ''offline'' then Query ''host:reconnect-offline'' else Ends 1
        | _ \<Rightarrow> Ends 1)
     else Ends 1)"

definition dispatch_sync :: "TransportType \<Rightarrow> string option \<Rightarrow> string \<Rightarrow> string list \<Rightarrow> action" where
  "dispatch_sync t serial0 c args =
    (if c = ''ls'' then (case args of [p] \<Rightarrow> Ls p | _ \<Rightarrow> Ends 1)
     else if c = ''push'' then push_action args
     else if c = ''pull'' then pull_action args
     else if c = ''install'' then if args = [] then Ends 1 else Install_cmd (c # args)
     else if c = ''install-multiple'' then if args = [] then Ends 1 else Install_multiple (c # args)
     else if c = ''uninstall'' then if args = [] then Ends 1 else Uninstall (c # args)
     else if c = ''sync'' then sync_action args
     else dispatch_other t serial0 c args)"

definition dispatch :: "libbase \<Rightarrow> TransportType \<Rightarrow> string option \<Rightarrow> string \<Rightarrow> string list \<Rightarrow> action" where
  "dispatch B t serial0 c args =
    (if c = ''devices'' then
       (if args = [] then Query (''host:'' @ c) else if args = [''-l''] then Query (''host:'' @ c @ ''-l'') else Ends 1)
     else if c = ''connect'' then (case args of [h] \<Rightarrow> Query (''host:connect:'' @ h) | _ \<Rightarrow> Ends 1)
     else if c = ''disconnect'' then
       (case args of [] \<Rightarrow> Query ''host:disconnect:'' | [h] \<Rightarrow> Query (''host:disconnect:'' @ h) | _ \<Rightarrow> Ends 1)
     else if c = ''emu'' then Emu args
     else if c = ''shell'' then Shell args
     else if c = ''exec-in'' \<or> c = ''exec-out'' then
       (case args of [] \<Rightarrow> Ends 1 | w # rest \<Rightarrow> Exec (c = ''exec-in'') (''exec:'' @ w @ escaped_args rest))
     else if c = ''kill-server'' then Kill_server
     else if c = ''sideload'' then (case args of [f] \<Rightarrow> Sideload_file f | _ \<Rightarrow> Ends 1)
     else if c = ''tcpip'' \<and> args \<noteq> [] then Connect_to (''tcpip:'' @ hd args)
     else if c \<in> {''remount'', ''reboot'', ''reboot-bootloader'', ''usb'', ''disable-verity'', ''enable-verity''} then
       Connect_to (if c = ''reboot-bootloader'' then ''reboot:bootloader'' else c @ '':'' @ (case args of [] \<Rightarrow> [] | w # _ \<Rightarrow> w))
     else if c = ''root'' \<or> c = ''unroot'' then Root c
     else if c = ''bugreport'' then Bug_report args
     else if c = ''forward'' \<or> c = ''reverse'' then forward_action B (c = ''reverse'') t serial0 args
     else dispatch_sync t serial0 c args)"

section \<open>Running a command\<close>

text \<open>
  The rest of what a command line sees: the environment, local directories and packages, what the
  console of an emulator and the standard input give.
\<close>

record dispatch_env =
  dx_cmd :: cmd_env
  dx_getenv :: "string \<Rightarrow> string option"
  dx_dir :: "string \<Rightarrow> bool"                   \<comment> \<open>directory\_exists\<close>
  dx_package :: "string \<Rightarrow> package option"
  dx_console :: "int \<Rightarrow> fd_state option"
  dx_token :: "string option"
  dx_stdin :: fd_state
  dx_order :: "FeatureSet \<Rightarrow> string list"      \<comment> \<open>the order in which an unordered set is walked\<close>

definition product_file :: "dispatch_env \<Rightarrow> string \<Rightarrow> string res" where
  "product_file env part =
    (case dx_getenv env ''ANDROID_PRODUCT_OUT'' of None \<Rightarrow> Inl (Exit 1) | Some dir \<Rightarrow> Inr (dir @ ''/'' @ part))"

definition run_forward :: "dispatch_env \<Rightarrow> string \<Rightarrow> cmd \<Rightarrow> (int \<times> cmd) res" where
  "run_forward env service S =
    (let cenv = cx_client (dx_cmd env) in
     bindR (adb_connect cenv service (cm_client S)) (\<lambda>(c, error, C1).
       let S1 = S\<lparr>cm_client := C1\<rparr> in
       case c of
         NoConn n \<Rightarrow> if n < 0 then Inr (1, S1) else Inl (Fatal ''no descriptor'')
       | Conn f \<Rightarrow>
           bindR (adb_status cenv f) (\<lambda>(ok, error, f1).
             if \<not> ok then Inr (1, S1)
             else
               bindR (ReadProtocolString f1) (\<lambda>(ok, resolved_port, error, f2).
               bindR (ReadOrderlyShutdown f2) (\<lambda>_.
                 Inr (0, logged \<lparr>ex_service = service, ex_conn = Some f, ex_sent = [], ex_status = resolved_port\<rparr>
                   (if ok \<and> resolved_port \<noteq> [] then print_out (c_str resolved_port @ [CHR 0x0A]) S1 else S1)))))))"

definition run_exec :: "dispatch_env \<Rightarrow> bool \<Rightarrow> string \<Rightarrow> cmd \<Rightarrow> (int \<times> cmd) res" where
  "run_exec env exec_in service S =
    bindR (adb_connect (cx_client (dx_cmd env)) service (cm_client S)) (\<lambda>(c, error, C1).
      let S1 = S\<lparr>cm_client := C1\<rparr> in
      case c of
        NoConn n \<Rightarrow> if n < 0 then Inr (-1, S1) else Inl (Fatal ''no descriptor'')
      | Conn f \<Rightarrow>
          (case (if exec_in then copy_to_file (dx_stdin env) (Sink f) else copy_to_file f (Stdout [])) of
             (_, Sink f1) \<Rightarrow> Inr (0, logged \<lparr>ex_service = service, ex_conn = Some f, ex_sent = drop (length (written f)) (written f1), ex_status = []\<rparr> S1)
           | (_, Stdout out) \<Rightarrow> Inr (0, print_out out (logged \<lparr>ex_service = service, ex_conn = Some f, ex_sent = [], ex_status = []\<rparr> S1))))"

text \<open>The partitions in their order, as long as all goes well; vendor and oem only where they exist.\<close>

definition sync_one :: "dispatch_env \<Rightarrow> bool \<Rightarrow> string \<Rightarrow> string \<Rightarrow> cmd \<Rightarrow> (bool \<times> cmd) res" where
  "sync_one env list_only lpath rpath S =
    (let x = dx_cmd env in
     bindR (do_sync_sync (cx_local x) (cx_client x) (cx_depth x) (cx_polls x) (cm_lp S) (cm_client S) lpath rpath list_only) (\<lambda>(ok, lp, _, C1).
       Inr (ok, S\<lparr>cm_client := C1, cm_lp := lp\<rparr>)))"

fun sync_all :: "dispatch_env \<Rightarrow> bool \<Rightarrow> (string \<times> string) list \<Rightarrow> cmd \<Rightarrow> (bool \<times> cmd) res" where
  "sync_all env list_only [] S = Inr (True, S)"
| "sync_all env list_only ((lpath, rpath) # parts) S =
    bindR (sync_one env list_only lpath rpath S) (\<lambda>(ok, S1). if ok then sync_all env list_only parts S1 else Inr (False, S1))"

definition sync_parts :: "dispatch_env \<Rightarrow> string \<Rightarrow> (string \<times> string) list res" where
  "sync_parts env src =
    bindR (product_file env ''system'') (\<lambda>system_src_path.
    bindR (product_file env ''data'') (\<lambda>data_src_path.
    bindR (product_file env ''vendor'') (\<lambda>vendor_src_path.
    bindR (product_file env ''oem'') (\<lambda>oem_src_path.
      Inr ((if src = [] \<or> src = ''system'' then [(system_src_path, ''/system'')] else []) @
           (if (src = [] \<or> src = ''vendor'') \<and> dx_dir env vendor_src_path then [(vendor_src_path, ''/vendor'')] else []) @
           (if (src = [] \<or> src = ''oem'') \<and> dx_dir env oem_src_path then [(oem_src_path, ''/oem'')] else []) @
           (if src = [] \<or> src = ''data'' then [(data_src_path, ''/data'')] else []))))))"

definition exit_code :: "bool \<Rightarrow> int" where
  "exit_code ok = (if ok then 0 else 1)"

text \<open>
  None for the commands that other theories model on states of their own (shell, bugreport), that
  hand over to another program (ppp) or make keys.
\<close>

definition run_action :: "dispatch_env \<Rightarrow> TransportType \<Rightarrow> string option \<Rightarrow> action \<Rightarrow> cmd \<Rightarrow> (int option \<times> cmd) res" where
  "run_action env t serial0 act S =
    (let x = dx_cmd env; cenv = cx_client x; done = (\<lambda>(r, S1). Inr (Some r, S1));
         pulled = (\<lambda>(ok, lp, _, C1). Inr (Some (exit_code ok), S\<lparr>cm_client := C1, cm_lp := lp\<rparr>)) in
     case act of
       Ends n \<Rightarrow> Inr (Some n, S)
     | Query service \<Rightarrow> bindR (adb_query_command x service S) done
     | Connect_to service \<Rightarrow> bindR (adb_connect_command x service S) done
     | Emu args \<Rightarrow>
         bindR (adb_send_emulator_command cenv (cx_bufsiz x) (dx_token env) (dx_console env) args serial0 (cm_client S)) (\<lambda>(r, _, C1).
           Inr (Some r, S\<lparr>cm_client := C1\<rparr>))
     | Exec exec_in service \<Rightarrow> bindR (run_exec env exec_in service S) done
     | Kill_server \<Rightarrow> bindR (adb_kill_server cenv (cm_client S)) (\<lambda>(ok, C1). Inr (Some (exit_code ok), S\<lparr>cm_client := C1\<rparr>))
     | Sideload_file f \<Rightarrow>
         bindR (adb_sideload_host cenv (dx_package env f) (cm_client S)) (\<lambda>(r, _, C1). Inr (Some (exit_code (r = 0)), S\<lparr>cm_client := C1\<rparr>))
     | Root c \<Rightarrow> bindR (adb_root x c S) (\<lambda>(ok, S1). Inr (Some (exit_code ok), S1))
     | Forward service \<Rightarrow> bindR (run_forward env service S) done
     | Ls p \<Rightarrow>
         bindR (do_sync_ls (cx_local x) cenv (cm_lp S) (cm_client S) p) (\<lambda>(ok, out, C1).
           Inr (Some (exit_code ok), print_out out (S\<lparr>cm_client := C1\<rparr>)))
     | Push srcs dst sync \<Rightarrow> bindR (do_sync_push (cx_local x) cenv (cx_depth x) (cx_polls x) (cm_lp S) (cm_client S) srcs dst sync) pulled
     | Pull srcs dst copy_attrs \<Rightarrow>
         bindR (do_sync_pull (cx_local x) cenv (cx_depth x) (cx_polls x) (cm_lp S) (cm_client S) srcs dst copy_attrs None) pulled
     | Install_cmd args \<Rightarrow>
         bindR (use_legacy_install x (cm_client S)) (\<lambda>(legacy, C1).
           bindR (if legacy then install_app_legacy x t serial0 args (S\<lparr>cm_client := C1\<rparr>) else install_app x args (S\<lparr>cm_client := C1\<rparr>)) done)
     | Install_multiple args \<Rightarrow> bindR (install_multiple_app x args S) done
     | Uninstall args \<Rightarrow>
         bindR (use_legacy_install x (cm_client S)) (\<lambda>(legacy, C1).
           bindR (if legacy then uninstall_app_legacy x t serial0 args (S\<lparr>cm_client := C1\<rparr>) else uninstall_app x t serial0 args (S\<lparr>cm_client := C1\<rparr>)) done)
     | Sync_parts src list_only \<Rightarrow>
         bindR (sync_parts env src) (\<lambda>parts. bindR (sync_all env list_only parts S) (\<lambda>(ok, S1). Inr (Some (exit_code ok), S1)))
     | Logcat args \<Rightarrow> bindR (logcat x t serial0 args S) done
     | Start_server \<Rightarrow>
         bindR (adb_connect cenv ''host:start-server'' (cm_client S)) (\<lambda>(c, _, C1).
           case c of NoConn n \<Rightarrow> Inr (Some n, S\<lparr>cm_client := C1\<rparr>) | Conn f \<Rightarrow> Inl (Fatal ''no descriptor''))
     | Backup args \<Rightarrow> bindR (backup x args S) (\<lambda>(r, _, S1). Inr (Some r, S1))
     | Restore args \<Rightarrow> bindR (restore x args S) done
     | Features \<Rightarrow>
         bindR (adb_get_feature_set cenv (cm_client S)) (\<lambda>(features, _, C1).
           let S1 = S\<lparr>cm_client := C1\<rparr> in
           case features of
             None \<Rightarrow> Inr (Some 1, S1)
           | Some fs \<Rightarrow> Inr (Some 0, print_out (concat (map (\<lambda>n. n @ [CHR 0x0A]) (filter (CanUseFeature fs) (dx_order env fs)))) S1))
     | Reconnect_device \<Rightarrow> bindR (adb_connect cenv ''reconnect'' (cm_client S)) (\<lambda>(_, _, C1). Inr (Some 0, S\<lparr>cm_client := C1\<rparr>))
     | _ \<Rightarrow> Inr (None, S))"

text \<open>
  The whole function; \<open>start\<close> is adb\_server\_main and launch\_server, given the address and the options.
\<close>

definition adb_commandline :: "dispatch_env \<Rightarrow> (string \<Rightarrow> global_options \<Rightarrow> int) \<Rightarrow> string list \<Rightarrow> cmd \<Rightarrow> (int option \<times> cmd) res" where
  "adb_commandline env start argv S =
    (case parse_options argv no_options of
       None \<Rightarrow> Inr (Some 1, S)
     | Some (go, args) \<Rightarrow>
         (case server_socket_str (cl_base (cx_client (dx_cmd env))) (dx_getenv env) go of
            None \<Rightarrow> Inr (Some 1, S)
          | Some spec \<Rightarrow>
              bindR (adb_set_socket_spec spec (cm_client S)) (\<lambda>C1.
                let serial0 = serial_of (dx_getenv env) go; t = go_transport go;
                    S1 = S\<lparr>cm_client := adb_set_transport t serial0 C1\<rparr>;
                    run = (\<lambda>args S2. case args of [] \<Rightarrow> Inr (Some 0, S2)
                             | c # rest \<Rightarrow> run_action env t serial0 (dispatch (cl_base (cx_client (dx_cmd env))) t serial0 c rest) S2) in
                if go_server go then
                  if go_daemon go \<and> go_reply_fd go = -1 then Inr (Some 1, S1) else Inr (Some (start spec go), S1)
                else
                  (case args of
                     [] \<Rightarrow> Inr (Some 1, S1)
                   | c # rest \<Rightarrow>
                       if prefix ''wait-for-'' c then
                         bindR (wait_for_device (dx_cmd env) c t serial0 (cm_client S1)) (\<lambda>(ok, C2).
                           if \<not> ok then Inr (Some 1, S1\<lparr>cm_client := C2\<rparr>) else run rest (S1\<lparr>cm_client := C2\<rparr>))
                       else run args S1))))"

end
