(* ===== verification/Dispatch_Props.thy ===== *)
theory Dispatch_Props
  imports Dispatch Host_Safe
begin

text \<open>
  What the client asks for is what the server does: adb forward, from the words of the command line to
  the listener that is installed.
\<close>

text \<open>
  The serials that skip\_host\_serial means to find: a qualifier with a text that has no colon; or a
  host, in brackets if it is an IPv6 address, with or without a port, and with or without the
  protocol before it. A serial without any colon is a host without a port. The words that are a
  qualifier or a protocol without what belongs to it are no such serials.
\<close>

definition qualifiers :: "string list" where
  "qualifiers = [''usb:'', ''product:'', ''model:'', ''device:'']"

definition host_form :: "string \<Rightarrow> bool" where
  "host_form h \<longleftrightarrow> CHR '':'' \<notin> set h \<and> (h = [] \<or> hd h \<noteq> CHR ''['') \<or> (\<exists>x. h = ''['' @ x @ '']'' \<and> CHR '']'' \<notin> set x)"

definition port_form :: "string \<Rightarrow> bool" where
  "port_form p \<longleftrightarrow> p = [] \<or> (\<exists>ds. p = '':'' @ ds \<and> ds \<noteq> [] \<and> list_all is_digit ds)"

definition serial_form :: "string \<Rightarrow> bool" where
  "serial_form s \<longleftrightarrow> (\<exists>q v. q \<in> set qualifiers \<and> s = q @ v \<and> CHR '':'' \<notin> set v) \<or>
    (\<exists>proto h p. s = proto @ h @ p \<and> proto \<in> {[], ''tcp:'', ''udp:''} \<and> host_form h \<and> port_form p \<and>
      (proto = [] \<longrightarrow> h \<notin> {''usb'', ''product'', ''model'', ''device'', ''tcp'', ''udp''}))"

lemma prefix_colon:
  assumes "CHR '':'' \<notin> set s" and "CHR '':'' \<notin> set p"
  shows "prefix (p @ '':'') (s @ '':'' @ rest) \<longleftrightarrow> p = s"
  using assms
proof (induction p arbitrary: s)
  case Nil
  then show ?case by (cases s) auto
next
  case (Cons a p)
  then show ?case by (cases s) auto
qed

lemma skip_digits_append: "list_all is_digit ds \<Longrightarrow> skip_digits (ds @ '':'' @ rest) = length ds"
  by (induction ds) (simp_all add: is_digit_def)

lemma strchr_from_append: "c \<notin> set y \<Longrightarrow> strchr_from (length x) (x @ y @ c # z) c = Some (length x + length y)"
  by (simp add: strchr_from_def strchr_append)

text \<open>Where the scan for the colon begins, and that the first colon from there is the one behind the host.\<close>

lemma scan_host:
  assumes "host_form h"
  shows "\<exists>i. (if length proto < length (proto @ h @ '':'' @ z) \<and> (proto @ h @ '':'' @ z) ! length proto = CHR ''[''
      then (case strchr_from (length proto) (proto @ h @ '':'' @ z) (CHR '']'') of None \<Rightarrow> length proto | Some e \<Rightarrow> e)
      else length proto) = i \<and>
    strchr_from i (proto @ h @ '':'' @ z) (CHR '':'') = Some (length proto + length h)"
proof (cases "\<exists>x. h = ''['' @ x @ '']'' \<and> CHR '']'' \<notin> set x")
  case True
  then obtain x where x: "h = ''['' @ x @ '']''" "CHR '']'' \<notin> set x" by blast
  have "strchr_from (length proto) (proto @ h @ '':'' @ z) (CHR '']'') = Some (length proto + Suc (length x))"
    using strchr_from_append [of "CHR '']''" "''['' @ x" proto "'':'' @ z"] x by simp
  moreover have "strchr_from (length proto + Suc (length x)) (proto @ h @ '':'' @ z) (CHR '':'') = Some (length proto + length h)"
    using strchr_from_append [of "CHR '':''" "'']''" "proto @ ''['' @ x" z] x(1) by simp
  ultimately show ?thesis by (simp add: x(1) nth_append)
next
  case False
  then have h: "CHR '':'' \<notin> set h" "h = [] \<or> hd h \<noteq> CHR ''[''" using assms by (auto simp: host_form_def)
  then have "(proto @ h @ '':'' @ z) ! length proto \<noteq> CHR ''[''" by (cases h) (simp_all add: nth_append)
  then show ?thesis using strchr_from_append [OF h(1), of proto z] by simp
qed

lemma skip_serial:
  assumes s: "serial_form s" and rest: "rest = [] \<or> \<not> is_digit (hd rest)"
  shows "skip_host_serial (s @ '':'' @ rest) = Some (length s)"
  using s unfolding serial_form_def
proof (elim disjE exE conjE)
  fix q v assume q: "q \<in> set qualifiers" "s = q @ v" "CHR '':'' \<notin> set v"
  note c = strchr_from_append [OF q(3), of q rest]
  from q(1) consider "q = ''usb:''" | "q = ''product:''" | "q = ''model:''" | "q = ''device:''" by (auto simp: qualifiers_def)
  then show ?thesis by cases (use c in \<open>simp_all add: skip_host_serial_def q(2)\<close>)
next
  fix proto h p
  assume f: "s = proto @ h @ p" "proto \<in> {[], ''tcp:'', ''udp:''}" "host_form h" "port_form p"
    "proto = [] \<longrightarrow> h \<notin> {''usb'', ''product'', ''model'', ''device'', ''tcp'', ''udp''}"
  obtain z where z: "p @ '':'' @ rest = '':'' @ z" using f(4) by (auto simp: port_form_def)
  let ?w = "proto @ h @ '':'' @ z"
  have w: "s @ '':'' @ rest = ?w" using f(1) z by simp
  have pre: "prefix (q @ '':'') (h @ '':'' @ z) \<Longrightarrow> q = h" if "CHR '':'' \<notin> set q" "q \<noteq> []" "hd q \<noteq> CHR ''[''" for q
  proof (cases "CHR '':'' \<in> set h")
    case True
    then obtain x where "h = ''['' @ x @ '']''" using f(3) by (auto simp: host_form_def)
    moreover assume "prefix (q @ '':'') (h @ '':'' @ z)"
    ultimately show ?thesis using that by (cases q) auto
  qed (use prefix_colon that in auto)
  have no: "find (\<lambda>q. prefix q ?w) [''usb:'', ''product:'', ''model:'', ''device:''] = None"
    using f(2,5) pre [of "''usb''"] pre [of "''product''"] pre [of "''model''"] pre [of "''device''"] by auto
  have i0: "(if prefix ''tcp:'' ?w \<or> prefix ''udp:'' ?w then 4 else 0) = length proto"
    using f(2,5) pre [of "''tcp''"] pre [of "''udp''"] by auto
  let ?k = "length proto + length h"
  have after: "drop (Suc ?k) ?w = z" by simp
  have "(if Suc ?k < length ?w \<and> is_digit (?w ! Suc ?k) then
      (let e = Suc ?k + skip_digits (drop (Suc ?k) ?w) in if e < length ?w \<and> ?w ! e = CHR '':'' then Some e else Some ?k)
      else Some ?k) = Some (length s)"
  proof (cases "p = []")
    case True
    then have "z = rest" using z by simp
    then have "\<not> (Suc ?k < length ?w \<and> is_digit (?w ! Suc ?k))" using rest by (cases rest) (auto simp: nth_append)
    then show ?thesis using True f(1) by simp
  next
    case False
    then obtain d ds where p: "p = '':'' @ d # ds" "list_all is_digit (d # ds)" using f(4) by (auto simp: port_form_def neq_Nil_conv)
    then have z': "z = (d # ds) @ '':'' @ rest" using z by simp
    have sd: "skip_digits z = Suc (length ds)" using skip_digits_append [OF p(2), of rest] by (simp add: z')
    have "?w ! (Suc ?k + Suc (length ds)) = CHR '':''"
    proof -
      have "?w = (proto @ h @ '':'' @ d # ds) @ CHR '':'' # rest" by (simp add: z')
      moreover have "length (proto @ h @ '':'' @ d # ds) = Suc ?k + Suc (length ds)" by simp
      ultimately show ?thesis by (metis nth_append_length)
    qed
    moreover have "?w ! Suc ?k = d" by (simp add: z' nth_append)
    ultimately show ?thesis using p(2) sd unfolding after by (simp add: z' f(1) p(1) Let_def)
  qed
  moreover from scan_host [OF f(3), of proto z] obtain i where
    "(if length proto < length ?w \<and> ?w ! length proto = CHR ''['' then (case strchr_from (length proto) ?w (CHR '']'') of None \<Rightarrow> length proto | Some e \<Rightarrow> e)
      else length proto) = i" "strchr_from i ?w (CHR '':'') = Some ?k" by blast
  ultimately show ?thesis unfolding w skip_host_serial_def no option.case Let_def i0 by simp
qed

lemma prefix_before: "c \<notin> set p \<Longrightarrow> prefix p (l @ c # r) \<longleftrightarrow> prefix p l"
proof (induction p arbitrary: l)
  case (Cons a p)
  then show ?case by (cases l) auto
qed simp

lemma split_two:
  assumes "CHR '';'' \<notin> set l" and "CHR '';'' \<notin> set r"
  shows "split_at {CHR '';''} (l @ '';'' @ r) = [l, r]"
  using assms split_at_append [of l "{CHR '';''}" "CHR '';''" r] split_at_no_delim [of r "{CHR '';''}"] by auto

text \<open>
  C27: adb forward is understood. For a local and a remote name without semicolons the words of the
  command line, with or without --no-rebind, give one request; the server's parser of the host
  prefix finds in it the device of the options -s, -d and -e, and handle\_forward\_request takes that
  device and installs a listener with exactly these two names and the flag, and nothing else is
  refused on the way. The serial of -s may be one without a colon, host:port, an IPv6 address in
  brackets with or without a port, any of these behind tcp: or udp:, or usb:, product:, model: or
  device: with a text that has no colon; with other colons in it, or if it is just one of these
  words without the colon, the server would cut it elsewhere. Without --no-rebind the local name must
  not begin with norebind:, which the server would take for the flag.
\<close>

theorem forward_understood:
  assumes B: "libbase_spec (he_base env)"
    and l: "l \<noteq> []" "CHR '';'' \<notin> set l" and r: "r \<noteq> []" "CHR '';'' \<notin> set r" "hd r \<noteq> CHR ''*''" "CHR 0x00 \<notin> set r"
    and plain: "no_rebind \<or> l \<notin> {''--list'', ''--remove-all'', ''--remove'', ''--no-rebind''} \<and> \<not> prefix ''norebind:'' l"
    and ser: "\<forall>s. serial0 = Some s \<longrightarrow> serial_form s" and t: "t \<noteq> kTransportHost"
    and d: "dispatch B t serial0 ''forward'' (if no_rebind then [''--no-rebind'', l, r] else [l, r]) = Forward service"
  shows "\<exists>sub. parse_host_prefix service = Some (sub, if serial0 = None then t else kTransportAny, serial0) \<and>
    (\<forall>type fd (L :: 'x lstate_scheme). handle_forward_request env sub type serial0 fd L =
      bindR (acquire_one_transport (he_base env) (he_acq env) type serial0 False (reg L)) (\<lambda>(tr, error_msg, _).
        case tr of
          None \<Rightarrow> fail_1 fd error_msg L
        | Some a \<Rightarrow>
            bindR (install_listener (he_listen env) l r (Some a) no_rebind L) (\<lambda>(st, error, resolved, L1).
              forward_reply env fd (l @ '';'' @ r) st error resolved L1)))"
proof -
  define sub where "sub = ''forward:'' @ (if no_rebind then ''norebind:'' else []) @ l @ '';'' @ r"
  have "service = host_prefix False t serial0 @ '':'' @ sub"
    using d plain by (auto simp: dispatch_def forward_action_def Let_def sub_def split: sum.splits if_splits)
  moreover have "parse_host_prefix (host_prefix False t serial0 @ '':'' @ sub) = Some (sub, if serial0 = None then t else kTransportAny, serial0)"
  proof (cases serial0)
    case None
    then show ?thesis using t by (cases t) (simp_all add: host_prefix_def parse_host_prefix_def)
  next
    case (Some s)
    have "skip_host_serial (s @ '':'' @ sub) = Some (length s)"
      using ser Some by (intro skip_serial) (auto simp: sub_def is_digit_def)
    then show ?thesis using Some by (simp add: host_prefix_def parse_host_prefix_def)
  qed
  moreover have "handle_forward_request env sub type serial0 fd L =
      forward_one env False no_rebind (l @ '';'' @ r) type serial0 fd L" for type fd and L :: "'x lstate_scheme"
    using libbase_spec.StartsWith_iff [OF B] plain prefix_before [of "CHR '';''" "''norebind:''" l r]
    by (auto simp: handle_forward_request_def sub_def Let_def)
  moreover have "\<not> starred r" using r(1,3) by (cases r) (simp_all add: starred_def)
  moreover have "Split (he_base env) (l @ '';'' @ r) '';'' = [l, r]"
    using libbase_spec.Split_eq [OF B] split_two [OF l(2) r(2)] by simp
  ultimately show ?thesis using l(1) r(1) c_str_id [OF r(4)] by (intro exI [of _ sub]) (simp add: forward_one_def Let_def cong: option.case_cong)
qed

theorem forward_understood_witness:
  "\<exists>service sub. dispatch libbase_ref kTransportAny (Some ''10.0.0.1:5555'') ''forward'' [''--no-rebind'', ''localabstract:a'', ''localabstract:b''] = Forward service \<and>
    parse_host_prefix service = Some (sub, kTransportAny, Some ''10.0.0.1:5555'') \<and>
    (\<forall>type fd. handle_forward_request demo_host sub type (Some ''10.0.0.1:5555'') fd demo_lstate =
      bindR (acquire_one_transport (he_base demo_host) (he_acq demo_host) type (Some ''10.0.0.1:5555'') False (reg demo_lstate)) (\<lambda>(tr, error_msg, _).
        case tr of
          None \<Rightarrow> fail_1 fd error_msg demo_lstate
        | Some a \<Rightarrow>
            bindR (install_listener (he_listen demo_host) ''localabstract:a'' ''localabstract:b'' (Some a) True demo_lstate) (\<lambda>(st, error, resolved, L1).
              forward_reply demo_host fd ''localabstract:a;localabstract:b'' st error resolved L1)))"
proof -
  let ?l = "''localabstract:a''" and ?r = "''localabstract:b''" and ?s = "''10.0.0.1:5555''"
  have b: "libbase_spec (he_base demo_host)" using base_ref.libbase_spec_axioms by (simp add: demo_host_def)
  have sw: "StartsWith libbase_ref = (\<lambda>s p. prefix p s)" by (simp add: libbase_ref_def)
  have d: "dispatch libbase_ref kTransportAny (Some ?s) ''forward'' (if True then [''--no-rebind'', ?l, ?r] else [?l, ?r]) =
      Forward (host_prefix False kTransportAny (Some ?s) @ '':forward:norebind:'' @ ?l @ '';'' @ ?r)"
    by (simp add: dispatch_def forward_action_def forward_targets_are_valid_def sw Let_def)
  have "host_form ''10.0.0.1''" "port_form '':5555''" by (simp_all add: host_form_def port_form_def is_digit_def)
  then have "serial_form ?s" unfolding serial_form_def
    by (intro disjI2 exI [of _ "[]"] exI [of _ "''10.0.0.1''"] exI [of _ "'':5555''"]) simp
  then have p: "\<forall>s. Some ?s = Some s \<longrightarrow> serial_form s" by simp
  obtain sub where sub: "parse_host_prefix (host_prefix False kTransportAny (Some ?s) @ '':forward:norebind:'' @ ?l @ '';'' @ ?r) =
        Some (sub, if Some ?s = None then kTransportAny else kTransportAny, Some ?s)"
    "\<forall>type fd (L :: lstate). handle_forward_request demo_host sub type (Some ?s) fd L =
      bindR (acquire_one_transport (he_base demo_host) (he_acq demo_host) type (Some ?s) False (reg L)) (\<lambda>(tr, error_msg, _).
        case tr of
          None \<Rightarrow> fail_1 fd error_msg L
        | Some a \<Rightarrow>
            bindR (install_listener (he_listen demo_host) ?l ?r (Some a) True L) (\<lambda>(st, error, resolved, L1).
              forward_reply demo_host fd (?l @ '';'' @ ?r) st error resolved L1))"
    using forward_understood [OF b _ _ _ _ _ _ _ p _ d, where 'x = unit] by auto
  have d': "dispatch libbase_ref kTransportAny (Some ?s) ''forward'' [''--no-rebind'', ?l, ?r] =
      Forward (host_prefix False kTransportAny (Some ?s) @ '':forward:norebind:'' @ ?l @ '';'' @ ?r)" using d by simp
  have lr: "?l @ '';'' @ ?r = ''localabstract:a;localabstract:b''" by simp
  show ?thesis using d' sub(1) sub(2) [rule_format, of _ _ demo_lstate, unfolded lr] by (intro exI conjI allI) simp_all
qed

end
