(* ===== verification/Sync_Pull.thy ===== *)
theory Sync_Pull
  imports Sync_Props
begin

text \<open>
  Pulling a file and listing a directory: what the client stores or shows is what the device read.
\<close>

section \<open>Sequences of messages are read in one way\<close>

lemma data_bytes_of_bytes: "length b = 8 \<Longrightarrow> data_of_bytes b = (i, n) \<Longrightarrow> b = data_bytes i n"
proof -
  assume b: "length b = 8" and d: "data_of_bytes b = (i, n)"
  have "take 4 b @ take 4 (drop 4 b) = b" using b by (metis append_take_drop_id length_drop numeral_Bit0 add_diff_cancel_left' order_refl take_all)
  then show "b = data_bytes i n" using d le32_word_at [of 0 b] le32_word_at [of 4 b] b by (auto simp: data_of_bytes_def data_bytes_def)
qed

text \<open>
  An encoding of messages in which no message can be taken for the start of another: then a sequence
  of messages, followed by something that starts with none, is read in one way only.
\<close>

definition no_message :: "('m \<Rightarrow> string) \<Rightarrow> ('m \<Rightarrow> bool) \<Rightarrow> string \<Rightarrow> bool" where
  "no_message enc valid b \<longleftrightarrow> \<not> (\<exists>m x. valid m \<and> b = enc m @ x)"

locale prefix_code =
  fixes enc :: "'m \<Rightarrow> string" and valid :: "'m \<Rightarrow> bool"
  assumes inject: "valid m \<Longrightarrow> valid m' \<Longrightarrow> enc m @ x = enc m' @ x' \<Longrightarrow> m = m' \<and> x = x'"
begin

lemma unique:
  "concat (map enc ms) @ a = concat (map enc ms') @ b \<Longrightarrow> \<forall>m \<in> set ms \<union> set ms'. valid m \<Longrightarrow>
   no_message enc valid a \<Longrightarrow> no_message enc valid b \<Longrightarrow> ms = ms' \<and> a = b"
proof (induction ms arbitrary: ms')
  case Nil
  then show ?case by (cases ms') (auto simp: no_message_def)
next
  case (Cons m ms)
  show ?case
  proof (cases ms')
    case Nil
    then have "b = enc m @ concat (map enc ms) @ a" "valid m" using Cons.prems(1,2) by simp_all
    then show ?thesis using Cons.prems(4) unfolding no_message_def by blast
  next
    case (Cons m' ns)
    then have "enc m @ (concat (map enc ms) @ a) = enc m' @ (concat (map enc ns) @ b)" using Cons.prems(1) by simp
    from inject [OF _ _ this] Cons.prems(2) Cons have "m = m'" "concat (map enc ms) @ a = concat (map enc ns) @ b" by simp_all
    then show ?thesis using Cons.IH [of ns] Cons.prems(2-4) Cons by simp
  qed
qed

end

text \<open>DATA messages are such a code, for data of less than 4 GiB.\<close>

abbreviation no_chunk :: "string \<Rightarrow> bool" where
  "no_chunk \<equiv> no_message chunk_bytes (\<lambda>c. length c < 2 ^ 32)"

lemma data_header_length:
  assumes "data_bytes i (of_nat (length c)) = data_bytes j (of_nat (length d))" and "length c < 2 ^ 32" and "length d < 2 ^ 32"
  shows "length c = length d"
proof -
  from assms(1) have "data_of_bytes (data_bytes i (of_nat (length c))) = data_of_bytes (data_bytes j (of_nat (length d)))" by simp
  then have "unat (of_nat (length c) :: u32) = unat (of_nat (length d) :: u32)" by simp
  then show ?thesis using unat_length [OF assms(2)] unat_length [OF assms(3)] by simp
qed

interpretation chunk_code: prefix_code chunk_bytes "\<lambda>c. length c < 2 ^ 32"
proof
  fix c c' x x' :: string
  assume l: "length c < 2 ^ 32" "length c' < 2 ^ 32" and e: "chunk_bytes c @ x = chunk_bytes c' @ x'"
  from e have "data_bytes ID_DATA (of_nat (length c)) = data_bytes ID_DATA (of_nat (length c'))" and t: "c @ x = c' @ x'"
    by (simp_all add: chunk_bytes_def append_eq_append_conv)
  from data_header_length [OF this(1) l] t show "c = c' \<and> x = x'" by simp
qed

lemmas chunks_unique = chunk_code.unique [folded chunks_bytes_def]

text \<open>Bytes in which the reader of a sequence finds no DONE.\<close>

definition no_done :: "string \<Rightarrow> bool" where
  "no_done b \<longleftrightarrow> \<not> (8 \<le> length b \<and> fst (data_of_bytes (take 8 b)) = ID_DONE)"

lemma no_chunk_other: "i \<noteq> ID_DATA \<Longrightarrow> no_chunk (take k (data_bytes i n @ x))"
proof -
  assume i: "i \<noteq> ID_DATA"
  show ?thesis unfolding no_message_def
  proof (intro notI, elim exE conjE)
    fix c y assume e: "take k (data_bytes i n @ x) = chunk_bytes c @ y"
    have l: "8 \<le> length (take k (data_bytes i n @ x))" unfolding e by (simp add: chunk_bytes_def)
    then have "8 \<le> k" by (rule order_trans) simp
    then have "take 8 (take k (data_bytes i n @ x)) = data_bytes i n" by (simp add: min_def)
    then have "data_bytes i n = data_bytes ID_DATA (of_nat (length c))" unfolding e by (simp add: chunk_bytes_def)
    then have "data_of_bytes (data_bytes i n) = data_of_bytes (data_bytes ID_DATA (of_nat (length c)))" by simp
    then show False using i by simp
  qed
qed

lemma no_done_other: "i \<noteq> ID_DONE \<Longrightarrow> no_done (take k (data_bytes i n @ x))"
proof (cases "8 \<le> k")
  case True
  then have "take 8 (take k (data_bytes i n @ x)) = data_bytes i n" by (simp add: min_def)
  then show "i \<noteq> ID_DONE \<Longrightarrow> ?thesis" unfolding no_done_def by simp
qed (simp add: no_done_def)

lemma short_message: "length b < 8 \<Longrightarrow> no_chunk b \<and> no_done b"
  by (auto simp: no_message_def no_done_def chunk_bytes_def)

lemma cut_chunk:
  assumes "r < length c" and "length c < 2 ^ 32"
  shows "no_chunk (data_bytes ID_DATA (of_nat (length c)) @ take r c) \<and> no_done (data_bytes ID_DATA (of_nat (length c)) @ take r c)"
proof
  show "no_done (data_bytes ID_DATA (of_nat (length c)) @ take r c)" by (simp add: no_done_def)
  show "no_chunk (data_bytes ID_DATA (of_nat (length c)) @ take r c)" unfolding no_message_def
  proof (intro notI, elim exE conjE)
    fix d y assume d: "length d < 2 ^ 32" and e: "data_bytes ID_DATA (of_nat (length c)) @ take r c = chunk_bytes d @ y"
    then have h: "data_bytes ID_DATA (of_nat (length c)) = data_bytes ID_DATA (of_nat (length d))" and t: "take r c = d @ y"
      by (simp_all add: chunk_bytes_def append_eq_append_conv)
    have "length c = length d" by (rule data_header_length [OF h assms(2) d])
    then show False using arg_cong [OF t, of length] assms(1) by simp
  qed
qed

section \<open>A pull at the device\<close>

lemma SendSyncFailErrno_bytes:
  assumes "SendSyncFailErrno env reason s = Inr (ok, s')"
  shows "\<exists>m. sends m s s' \<and> no_chunk m \<and> no_done m"
proof -
  from SendSyncFail_bytes [OF assms [unfolded SendSyncFailErrno_def]] obtain k n x where "sends (take k (data_bytes ID_FAIL n @ x)) s s'" by blast
  then show ?thesis using no_chunk_other [of ID_FAIL k n x] no_done_other [of ID_FAIL k n x] by auto
qed

text \<open>
  What the service sends for a pull: the data of the file in DATA messages and DONE, or something
  in which the client finds no DONE.
\<close>

definition pull_reply :: "bool \<Rightarrow> string \<Rightarrow> string \<Rightarrow> bool" where
  "pull_reply ok content m \<longleftrightarrow> (\<exists>cs b. m = chunks_bytes cs @ b \<and> (\<forall>c \<in> set cs. length c < 2 ^ 32) \<and> no_chunk b \<and>
     (if ok then b = data_bytes ID_DONE 0 \<and> concat cs = content else no_done b))"

lemma pull_reply_first: "no_chunk b \<Longrightarrow> no_done b \<Longrightarrow> pull_reply False content b"
  unfolding pull_reply_def by (intro exI [of _ "[]"] exI [of _ b]) simp

lemma pull_reply_more: "length c < 2 ^ 32 \<Longrightarrow> pull_reply ok content m \<Longrightarrow> pull_reply ok (c @ content) (chunk_bytes c @ m)"
proof -
  assume c: "length c < 2 ^ 32" and "pull_reply ok content m"
  then obtain cs b where cs: "m = chunks_bytes cs @ b" "\<forall>c \<in> set cs. length c < 2 ^ 32" "no_chunk b"
    "if ok then b = data_bytes ID_DONE 0 \<and> concat cs = content else no_done b" unfolding pull_reply_def by blast
  then show ?thesis unfolding pull_reply_def using c by (intro exI [of _ "c # cs"] exI [of _ b]) (auto split: if_splits)
qed

definition pulled :: "bool \<Rightarrow> string \<Rightarrow> sync_state \<Rightarrow> sync_state \<Rightarrow> bool" where
  "pulled ok content s s' \<longleftrightarrow> (\<exists>m r. written (sy_sock s') = written (sy_sock s) @ m \<and> rscript (sy_sock s') = rscript (sy_sock s) \<and>
     sy_trace s' = sy_trace s @ [(Sys_close [], r)] \<and> pull_reply ok content m)"

lemma do_sys_keeps: "\<exists>r. sy_trace (snd (do_sys env c s)) = sy_trace s @ [(c, r)] \<and> sy_sock (snd (do_sys env c s)) = sy_sock s \<and>
    sy_buf (snd (do_sys env c s)) = sy_buf s"
  using do_sys_result [of env c s "fst (do_sys env c s)" "snd (do_sys env c s)"] by auto

definition says :: "string \<Rightarrow> sync_state \<Rightarrow> sync_state \<Rightarrow> bool" where
  "says m s s' \<longleftrightarrow> written (sy_sock s') = written (sy_sock s) @ m \<and> rscript (sy_sock s') = rscript (sy_sock s) \<and> sy_trace s' = sy_trace s"

lemma pulled_close: "says b s s1 \<Longrightarrow> no_chunk b \<Longrightarrow> no_done b \<Longrightarrow> pulled False content s (snd (do_sys env (Sys_close []) s1))"
  using do_sys_keeps [of env "Sys_close []" s1] pull_reply_first [of b content] unfolding pulled_def says_def by auto

lemma recv_loop_result:
  "recv_loop env g s = Inr (ok, s') \<Longrightarrow> 0 < length (sy_buf s) \<Longrightarrow> length (sy_buf s) < 2 ^ 32 \<Longrightarrow> pulled ok (stream (rscript g)) s s'"
proof (induction env g s rule: recv_loop.induct)
  case (1 env g s)
  obtain x bs g1 where x: "adb_read g (length (sy_buf s)) = (x, bs, g1)" by (cases "adb_read g (length (sy_buf s))") auto
  show ?case
  proof (cases x)
    case (Err e)
    with x "1.prems"(1) obtain b s1 where f: "SendSyncFailErrno env ''read failed'' (s\<lparr>sy_err := e\<rparr>) = Inr (b, s1)"
      and s': "ok = False" "s' = snd (do_sys env (Sys_close []) s1)" by (subst (asm) recv_loop.simps) auto
    from SendSyncFailErrno_bytes [OF f] obtain m where "says m s s1" "no_chunk m" "no_done m"
      by (auto simp: sends_def says_def)
    then show ?thesis unfolding s' by (rule pulled_close)
  next
    case (Ret n)
    show ?thesis
    proof (cases "n = 0")
      case True
      let ?s = "snd (do_sys env (Sys_close []) s)"
      from True x Ret "1.prems"(1) have w: "write_sock (data_bytes ID_DONE 0) ?s = Inr (ok, s')" by (subst (asm) recv_loop.simps) simp
      from write_sock_sends [OF w] obtain r where r: "r \<le> 8" "sends (take r (data_bytes ID_DONE 0)) ?s s'" "ok \<longleftrightarrow> r = 8" by auto
      have c: "stream (rscript g) = []" using adb_read_0 [of g "length (sy_buf s)"] x Ret True "1.prems"(2) by simp
      have "pull_reply ok [] (take r (data_bytes ID_DONE 0))"
      proof (cases ok)
        case True
        then show ?thesis using r no_chunk_other [of ID_DONE 8 0 "[]"] by (auto simp: pull_reply_def intro!: exI [of _ "[]"])
      next
        case False
        then show ?thesis using r short_message [of "take r (data_bytes ID_DONE 0)"] pull_reply_first by auto
      qed
      then show ?thesis using do_sys_keeps [of env "Sys_close []" s] r(2) c unfolding pulled_def sends_def by auto
    next
      case False
      note b = adb_read_some_stream [of g "length (sy_buf s)" n bs g1, OF x [unfolded Ret]]
      let ?s0 = "s\<lparr>sy_buf := bs @ drop n (sy_buf s)\<rparr>"
      have n: "n < 2 ^ 32" "n = length bs" using b False "1.prems"(3) by auto
      from False x Ret "1.prems"(1) obtain ok1 s1 where w1: "write_sock (data_bytes ID_DATA (of_nat n)) ?s0 = Inr (ok1, s1)" and
        rest: "(if \<not> ok1 then Inr (False, snd (do_sys env (Sys_close []) s1))
              else bindR (write_sock (take n (sy_buf s1)) s1) (\<lambda>(ok2, s2).
                if \<not> ok2 then Inr (False, snd (do_sys env (Sys_close []) s2)) else recv_loop env g1 s2)) = Inr (ok, s')"
        by (subst (asm) recv_loop.simps) (auto simp: Let_def)
      from write_sock_sends [OF w1] obtain r1 where r1: "r1 \<le> 8" "says (take r1 (data_bytes ID_DATA (of_nat n))) s s1" "ok1 \<longleftrightarrow> r1 = 8"
        "sy_buf s1 = bs @ drop n (sy_buf s)" by (auto simp: sends_def says_def)
      show ?thesis
      proof (cases ok1)
        case False
        with rest have s': "ok = False" "s' = snd (do_sys env (Sys_close []) s1)" by auto
        show ?thesis unfolding s' using r1 False short_message [of "take r1 (data_bytes ID_DATA (of_nat n))"]
          by (intro pulled_close [OF r1(2)]) auto
      next
        case True
        with rest r1(4) n(2) obtain ok2 s2 where w2: "write_sock bs s1 = Inr (ok2, s2)" and
          rest2: "(if \<not> ok2 then Inr (False, snd (do_sys env (Sys_close []) s2)) else recv_loop env g1 s2) = Inr (ok, s')" by auto
        from write_sock_sends [OF w2] obtain r2 where r2: "r2 \<le> n" "sends (take r2 bs) s1 s2" "ok2 \<longleftrightarrow> r2 = n" using n(2) by auto
        have sent: "says (data_bytes ID_DATA (of_nat n) @ take r2 bs) s s2" using r1 r2 True by (auto simp: sends_def says_def)
        show ?thesis
        proof (cases ok2)
          case False
          with rest2 have s': "ok = False" "s' = snd (do_sys env (Sys_close []) s2)" by auto
          have "r2 < length bs" "length bs < 2 ^ 32" using False r2 n by auto
          from cut_chunk [OF this] sent n(2) show ?thesis unfolding s' by (intro pulled_close [of "data_bytes ID_DATA (of_nat n) @ take r2 bs"]) auto
        next
          case ok2: True
          have buf: "length (sy_buf s2) = length (sy_buf s)" using r2(2) r1(4) b False by (simp add: sends_def)
          have "recv_loop env g1 s2 = Inr (ok, s')" using rest2 ok2 by simp
          then have "pulled ok (stream (rscript g1)) s2 s'"
            using "1.IH" [OF x [symmetric] Ret refl False refl w1 refl _ _ refl] True w2 ok2 buf "1.prems"(2,3) r1(4) n(2) by fastforce
          then show ?thesis using pull_reply_more sent r2(3) ok2 b False n unfolding pulled_def says_def by (fastforce simp: chunk_bytes_def)
        qed
      qed
    qed
  qed
qed

text \<open>What the file holds that is opened for reading after the calls so far.\<close>

definition file_content :: "sync_env \<Rightarrow> systrace \<Rightarrow> string \<Rightarrow> string" where
  "file_content env tr path = stream (rscript (sv_file env (tr @ [(Sys_open_read path, None)])))"

lemma do_recv_result:
  assumes run: "do_recv env path s = Inr (ok, s')" and buf: "0 < length (sy_buf s)" "length (sy_buf s) < 2 ^ 32"
  shows "\<exists>m. written (sy_sock s') = written (sy_sock s) @ m \<and> rscript (sy_sock s') = rscript (sy_sock s) \<and>
    pull_reply ok (file_content env (sy_trace s) path) m \<and>
    (ok \<longrightarrow> (\<exists>r. sy_trace s' = sy_trace s @ [(Sys_open_read path, None), (Sys_close [], r)]))"
proof -
  obtain b s1 where o: "do_sys env (Sys_open_read path) s = (b, s1)" by force
  from do_sys_result [OF o] obtain r where r: "b \<longleftrightarrow> r = None" "sy_trace s1 = sy_trace s @ [(Sys_open_read path, r)]" "sy_sock s1 = sy_sock s"
    "sy_buf s1 = sy_buf s" by blast
  show ?thesis
  proof (cases b)
    case False
    with run o obtain b2 where f: "SendSyncFailErrno env ''open failed'' s1 = Inr (b2, s')" and ok: "\<not> ok" by (auto simp: do_recv_def)
    from SendSyncFailErrno_bytes [OF f] obtain m where "sends m s1 s'" "no_chunk m" "no_done m" by blast
    then show ?thesis using ok r pull_reply_first [of m] by (auto simp: sends_def)
  next
    case True
    with run o have "recv_loop env (sv_file env (sy_trace s1)) s1 = Inr (ok, s')" by (simp add: do_recv_def)
    from recv_loop_result [OF this] buf r True show ?thesis by (auto simp: pulled_def file_content_def)
  qed
qed

section \<open>A pull at the client\<close>

lemma sc_read_stream:
  assumes "sc_read env n C = (True, bs, C1)"
  shows "length bs = n \<and> stream (rscript (sc_fd C)) = bs @ stream (rscript (sc_fd C1)) \<and> sc_max C1 = sc_max C \<and>
    written (sc_fd C1) = written (sc_fd C) \<and> sc_ltrace C1 = sc_ltrace C"
proof -
  have len: "n \<le> length (stream (rscript (sc_fd C)))"
  proof (rule ccontr)
    assume "\<not> n \<le> length (stream (rscript (sc_fd C)))"
    then show False using ReadFdExactly_short [of "sc_fd C" n "[]"] assms by (auto simp: sc_read_def)
  qed
  from ReadFdExactly_available [OF len, of "[]"] assms len show ?thesis by (auto simp: sc_read_def)
qed

lemma ReportCopyFailure_False: "ReportCopyFailure env l r n C = Inr (ok, C') \<Longrightarrow> \<not> ok"
  by (auto simp: ReportCopyFailure_def split: if_splits prod.splits bool.splits dest!: fail_with_False)

lemma client_recv_loop_result:
  "client_recv_loop env rp lp sh e k g C = Inr (True, C') \<Longrightarrow>
   \<exists>cs n rest. stream (rscript (sc_fd C)) = chunks_bytes cs @ data_bytes ID_DONE n @ rest \<and> (\<forall>c \<in> set cs. length c < 2 ^ 32) \<and>
     written (sc_fd C') = written (sc_fd C) \<and> sc_ltrace C' = sc_ltrace C @ [L_close lp (written g @ concat cs)]"
proof (induction env rp lp sh e k g C rule: client_recv_loop.induct)
  case (1 env rp lp sh e k g C)
  obtain ok hdr C1 where h: "sc_read env 8 C = (ok, hdr, C1)" by (cases "sc_read env 8 C") auto
  obtain i n where d: "data_of_bytes hdr = (i, n)" by force
  have ok: ok using "1.prems" h by (cases ok) (auto simp: client_recv_loop.simps [of env rp lp sh e k g C])
  note s1 = sc_read_stream [OF h [unfolded eqTrueI [OF ok]]]
  then have hdr: "hdr = data_bytes i n" using data_bytes_of_bytes [OF _ d] by simp
  note step = "1.prems" [unfolded client_recv_loop.simps [of env rp lp sh e k g C] h eqTrueI [OF ok] prod.case bool.case d]
  show ?case
  proof (cases "i = ID_DONE")
    case True
    then show ?thesis using step s1 hdr
      by (intro exI [of _ "[]"]) (auto simp: local_call_def RecordFilesTransferred_def)
  next
    case False
    have i: "i = ID_DATA" "\<not> sc_max C1 < unat n" using step False by (auto split: if_splits)
    obtain ok2 bs C2 where b: "sc_read env (unat n) C1 = (ok2, bs, C2)" by (cases "sc_read env (unat n) C1") auto
    have ok2: ok2 using step i b by (cases ok2) auto
    note s2 = sc_read_stream [OF b [unfolded eqTrueI [OF ok2]]]
    from step i b ok2 obtain okw ew g1 where w: "WriteFdExactly g bs = Inr (okw, ew, g1)" by auto
    have okw: okw using step i b ok2 w by (cases okw) auto
    from step i b ok2 w okw obtain C3 where p: "ReportProgress sh (k + ucast n) e (RecordBytesTransferred (unat n) C2) = Inr C3"
      and loop: "client_recv_loop env rp lp sh e (k + ucast n) g1 C3 = Inr (True, C')" by (auto simp: Let_def)
    have C3: "rscript (sc_fd C3) = rscript (sc_fd C2)" "written (sc_fd C3) = written (sc_fd C2)" "sc_ltrace C3 = sc_ltrace C2"
      using ReportProgress_puts [OF p] RecordBytes_puts(1) [of C2 "unat n"] by (simp_all add: puts_def)
    have "\<exists>cs n rest. stream (rscript (sc_fd C3)) = chunks_bytes cs @ data_bytes ID_DONE n @ rest \<and> (\<forall>c \<in> set cs. length c < 2 ^ 32) \<and>
     written (sc_fd C') = written (sc_fd C3) \<and> sc_ltrace C' = sc_ltrace C3 @ [L_close lp (written g1 @ concat cs)]"
      using "1.IH" h ok d False i b ok2 w okw p loop by simp
    then obtain cs n' rest where cs: "stream (rscript (sc_fd C3)) = chunks_bytes cs @ data_bytes ID_DONE n' @ rest" "\<forall>c \<in> set cs. length c < 2 ^ 32"
      "written (sc_fd C') = written (sc_fd C3)" "sc_ltrace C' = sc_ltrace C3 @ [L_close lp (written g1 @ concat cs)]" by blast
    have g1: "written g1 = written g @ bs" using WriteFdExactly_prefix [OF w] okw by auto
    have c: "chunk_bytes bs = hdr @ bs" "length bs < 2 ^ 32" using s2 hdr i unat_u32 [of n] by (simp_all add: chunk_bytes_def)
    show ?thesis using cs C3 s1 s2 g1 c by (intro exI [of _ "bs # cs"] exI [of _ n'] exI [of _ rest]) auto
  qed
qed

lemma sync_recv_result:
  assumes "sync_recv env rp lp name size0 C = Inr (True, C')"
  shows "length rp \<le> 1024 \<and> written (sc_fd C') = written (sc_fd C) @ data_bytes ID_RECV (of_nat (length rp)) @ rp \<and>
    (\<exists>cs n rest. stream (rscript (sc_fd C)) = chunks_bytes cs @ data_bytes ID_DONE n @ rest \<and> (\<forall>c \<in> set cs. length c < 2 ^ 32) \<and>
      sc_ltrace C' = sc_ltrace C @ [L_unlink lp, L_creat lp, L_close lp (concat cs)])"
proof -
  from assms obtain ok C1 where r: "SendRequest env ID_RECV rp C = Inr (ok, C1)" by (auto simp: sync_recv_def)
  have ok: ok using assms r by (cases ok) (auto simp: sync_recv_def)
  note p = SendRequest_puts [OF r [unfolded eqTrueI [OF ok]]]
  let ?C2 = "snd (local_call env (L_unlink lp) C1)"
  from assms r ok obtain g where "lc_creat env (sc_ltrace ?C2) lp = Inr g"
    by (cases "lc_creat env (sc_ltrace ?C2) lp") (auto simp: sync_recv_def Let_def dest: fail_with_False)
  with assms r ok have loop: "client_recv_loop env rp lp (case name of Some n \<Rightarrow> n | None \<Rightarrow> rp) size0 0 (g\<lparr>written := []\<rparr>)
      (snd (local_call env (L_creat lp) ?C2)) = Inr (True, C')" by (simp add: sync_recv_def Let_def)
  show ?thesis using client_recv_loop_result [OF loop] p by (auto simp: local_call_def puts_def)
qed

section \<open>Theorems about pull\<close>

text \<open>
  C10: a file that adb pull reports as pulled is the file of the device. When sync\_recv succeeds,
  when the device reads what the client wrote and the client reads what the device answered, then
  the service read the remote file to its end, and the local file was created anew and closed with
  exactly its contents, however the reads and writes on the way were split. A pull of which a part
  was lost, because reading the file or writing to the client failed, never succeeds.
\<close>

theorem pull_end_to_end:
  assumes "sync_recv lenv rpath lpath name expected C = Inr (True, C')" and "CHR 0x00 \<notin> set rpath"
    and "written (sc_fd C') = written (sc_fd C) @ stream (rscript (sy_sock s))"
    and "0 < length (sy_buf s)" and "length (sy_buf s) < 2 ^ 32" and "handle_sync_command env s = Inr (ok, s')"
    and "written (sy_sock s') = written (sy_sock s) @ stream (rscript (sc_fd C))"
  shows "ok \<and> (\<exists>r. sy_trace s' = sy_trace s @ [(Sys_open_read rpath, None), (Sys_close [], r)]) \<and>
    sc_ltrace C' = sc_ltrace C @ [L_unlink lpath, L_creat lpath, L_close lpath (file_content env (sy_trace s) rpath)]"
proof -
  from sync_recv_result [OF assms(1)] obtain cs n rest where len: "length rpath \<le> 1024"
    and w: "written (sc_fd C') = written (sc_fd C) @ data_bytes ID_RECV (of_nat (length rpath)) @ rpath"
    and cs: "stream (rscript (sc_fd C)) = chunks_bytes cs @ data_bytes ID_DONE n @ rest" "\<forall>c \<in> set cs. length c < 2 ^ 32"
    and tr: "sc_ltrace C' = sc_ltrace C @ [L_unlink lpath, L_creat lpath, L_close lpath (concat cs)]" by blast
  have req: "stream (rscript (sy_sock s)) = data_bytes ID_RECV (of_nat (length rpath)) @ rpath @ []" using w assms(3) by simp
  from handle_sync_command_request [OF req len, of env] obtain f where f: "reads_off [] (sy_sock s) f"
    and run: "handle_sync_command env s = do_recv env rpath (s\<lparr>sy_sock := f\<rparr>)" using c_str_id [OF assms(2)] by (auto simp: Let_def)
  from do_recv_result [OF run [symmetric, unfolded assms(6)]] assms(4,5) obtain m where
    m: "written (sy_sock s') = written f @ m" "pull_reply ok (file_content env (sy_trace s) rpath) m"
    and t: "ok \<longrightarrow> (\<exists>r. sy_trace s' = sy_trace s @ [(Sys_open_read rpath, None), (Sys_close [], r)])" by auto
  have m': "m = chunks_bytes cs @ data_bytes ID_DONE n @ rest" using m(1) assms(7) f cs(1) by (simp add: reads_off_def)
  from m(2) obtain ds b where ds: "m = chunks_bytes ds @ b" "\<forall>c \<in> set ds. length c < 2 ^ 32" "no_chunk b"
    "if ok then b = data_bytes ID_DONE 0 \<and> concat ds = file_content env (sy_trace s) rpath else no_done b" unfolding pull_reply_def by blast
  have "no_chunk (data_bytes ID_DONE n @ rest)" using no_chunk_other [of ID_DONE "length (data_bytes ID_DONE n @ rest)" n rest] by simp
  with chunks_unique [of cs "data_bytes ID_DONE n @ rest" ds b] m' ds cs(2) have "cs = ds" "b = data_bytes ID_DONE n @ rest" by auto
  moreover from this have "\<not> no_done b" by (simp add: no_done_def)
  ultimately show ?thesis using ds(4) t tr by (auto split: if_splits)
qed

lemma write_sock_willing:
  assumes "willing (sy_sock s) n" and "length b \<le> n"
  shows "\<exists>f. write_sock b s = Inr (True, s\<lparr>sy_sock := f\<rparr>) \<and> willing f (n - length b) \<and> written f = written (sy_sock s) @ b \<and> rscript f = rscript (sy_sock s)"
  using WriteFdExactly_willing [OF assms] by (auto simp: write_sock_def)

text \<open>One DATA message of a pull, and its end, on a connection that takes them.\<close>

lemma recv_loop_one:
  assumes "adb_read g (length (sy_buf s)) = (Ret (length c), c, g1)" and "c \<noteq> []" and "willing (sy_sock s) n" and "length (chunk_bytes c) \<le> n"
  shows "\<exists>f. recv_loop env g s = recv_loop env g1 (s\<lparr>sy_buf := c @ drop (length c) (sy_buf s), sy_sock := f\<rparr>) \<and> willing f (n - length (chunk_bytes c)) \<and>
    written f = written (sy_sock s) @ chunk_bytes c"
proof -
  let ?s0 = "s\<lparr>sy_buf := c @ drop (length c) (sy_buf s)\<rparr>" and ?h = "data_bytes ID_DATA (of_nat (length c))"
  from write_sock_willing [of ?s0 n ?h] assms(3,4) obtain f1 where
    f1: "write_sock ?h ?s0 = Inr (True, ?s0\<lparr>sy_sock := f1\<rparr>)" "willing f1 (n - 8)" "written f1 = written (sy_sock s) @ ?h" by (auto simp: chunk_bytes_def)
  have "length c \<le> n - 8" using assms(4) by (simp add: chunk_bytes_def)
  with write_sock_willing [of "?s0\<lparr>sy_sock := f1\<rparr>" "n - 8" c] f1(2) obtain f2 where
    f2: "write_sock c (?s0\<lparr>sy_sock := f1\<rparr>) = Inr (True, ?s0\<lparr>sy_sock := f2\<rparr>)" "willing f2 (n - 8 - length c)" "written f2 = written f1 @ c"
    by (auto simp: chunk_bytes_def)
  have "recv_loop env g s = recv_loop env g1 (?s0\<lparr>sy_sock := f2\<rparr>)"
    using assms(1,2) f1(1) f2(1) by (subst recv_loop.simps) (simp add: Let_def)
  then show ?thesis using f2 f1 by (auto simp: chunk_bytes_def)
qed

lemma recv_loop_end:
  assumes "adb_read g (length (sy_buf s)) = (Ret 0, c, g1)" and "willing (sy_sock s) 8"
  shows "\<exists>s'. recv_loop env g s = Inr (True, s') \<and> written (sy_sock s') = written (sy_sock s) @ data_bytes ID_DONE 0"
proof -
  let ?s = "snd (do_sys env (Sys_close []) s)"
  have k: "sy_sock ?s = sy_sock s" using do_sys_keeps [of env "Sys_close []" s] by blast
  from write_sock_willing [of ?s 8 "data_bytes ID_DONE 0"] assms(2) k obtain f where
    "write_sock (data_bytes ID_DONE 0) ?s = Inr (True, ?s\<lparr>sy_sock := f\<rparr>)" "written f = written (sy_sock s) @ data_bytes ID_DONE 0" by auto
  then show ?thesis using assms(1) by (subst recv_loop.simps) simp
qed

abbreviation demo_pull :: string where "demo_pull \<equiv> data_bytes ID_RECV 4 @ ''/d/a''"

abbreviation demo_pull_state :: sync_state where
  "demo_pull_state \<equiv> (demo_sync_state [RData demo_pull])\<lparr>sy_buf := replicate 4 (CHR 0x00)\<rparr>"

abbreviation demo_pull_reply :: string where "demo_pull_reply \<equiv> chunk_bytes ''old'' @ data_bytes ID_DONE 0"

lemma demo_pull_device:
  "\<exists>s'. handle_sync_command demo_sync_env demo_pull_state = Inr (True, s') \<and> written (sy_sock s') = demo_pull_reply"
proof -
  let ?s = demo_pull_state
  have str: "stream (rscript (sy_sock ?s)) = data_bytes ID_RECV (of_nat (length ''/d/a'')) @ ''/d/a'' @ []"
    by (simp add: demo_sync_state_def stream_single)
  from handle_sync_command_request [OF str, of demo_sync_env] obtain f where f: "reads_off [] (sy_sock ?s) f"
    and run: "handle_sync_command demo_sync_env ?s = do_recv demo_sync_env ''/d/a'' (?s\<lparr>sy_sock := f\<rparr>)" by (auto simp: Let_def c_str_def)
  have w: "willing f 99" using f demo_conn_willing [of "[]"] by (simp add: reads_off_def willing_def demo_sync_state_def demo_conn_def)
  let ?s1 = "?s\<lparr>sy_sock := f, sy_trace := [(Sys_open_read ''/d/a'', None)]\<rparr>" and ?g = "sv_file demo_sync_env []"
  have run1: "do_recv demo_sync_env ''/d/a'' (?s\<lparr>sy_sock := f\<rparr>) = recv_loop demo_sync_env ?g ?s1"
    by (simp add: do_recv_def do_sys_def demo_sync_env_def demo_sync_state_def)
  have "adb_read ?g (length (sy_buf ?s1)) = (Ret (length ''old''), ''old'', ?g\<lparr>rscript := [RData []]\<rparr>)" by (simp add: adb_read_def demo_sync_env_def)
  from recv_loop_one [OF this, of 99 demo_sync_env] w obtain f2 where
    r2: "recv_loop demo_sync_env ?g ?s1 = recv_loop demo_sync_env (?g\<lparr>rscript := [RData []]\<rparr>) (?s1\<lparr>sy_buf := ''old'' @ drop 3 (sy_buf ?s1), sy_sock := f2\<rparr>)"
    "willing f2 88" "written f2 = written f @ chunk_bytes ''old''" by (auto simp: chunk_bytes_def)
  have "willing f2 8" using r2(2) unfolding willing_def by fastforce
  with recv_loop_end [of "?g\<lparr>rscript := [RData []]\<rparr>" "?s1\<lparr>sy_buf := ''old'' @ drop 3 (sy_buf ?s1), sy_sock := f2\<rparr>"] obtain s' where
    "recv_loop demo_sync_env (?g\<lparr>rscript := [RData []]\<rparr>) (?s1\<lparr>sy_buf := ''old'' @ drop 3 (sy_buf ?s1), sy_sock := f2\<rparr>) = Inr (True, s')"
    "written (sy_sock s') = written f2 @ data_bytes ID_DONE 0" by (auto simp: adb_read_def)
  then show ?thesis using run run1 r2 f by (auto simp: reads_off_def demo_sync_state_def)
qed

text \<open>The same two steps at the client.\<close>

lemma client_recv_loop_one:
  assumes "stream (rscript (sc_fd C)) = chunk_bytes c @ rest" and "length c \<le> sc_max C" and "length c < 2 ^ 32" and "willing g (length c)"
    and "\<not> smart_terminal (sc_lp C)"
  shows "\<exists>f g1 C1 k1. client_recv_loop env rp lp sh e k g C = client_recv_loop env rp lp sh e k1 g1 C1 \<and> written g1 = written g @ c \<and>
    stream (rscript (sc_fd C1)) = rest \<and> sc_ltrace C1 = sc_ltrace C \<and> written (sc_fd C1) = written (sc_fd C)"
proof -
  have u: "unat (of_nat (length c) :: u32) = length c" by (rule unat_length [OF assms(3)])
  obtain f1 where f1: "ReadFdExactly (sc_fd C) 8 [] = (True, ENONE, data_bytes ID_DATA (of_nat (length c)), f1)" "reads_off (c @ rest) (sc_fd C) f1"
    using ReadFdExactly_stream [of "sc_fd C" "data_bytes ID_DATA (of_nat (length c))" "c @ rest"] assms(1) by (auto simp: chunk_bytes_def)
  obtain f2 where f2: "ReadFdExactly f1 (length c) [] = (True, ENONE, c, f2)" "reads_off rest f1 f2"
    using ReadFdExactly_stream [of f1 c rest] f1(2) by (auto simp: reads_off_def)
  obtain g1 where g1: "WriteFdExactly g c = Inr (True, ENONE, g1)" "written g1 = written g @ c" using WriteFdExactly_willing [OF assms(4), of c] by auto
  let ?C = "RecordBytesTransferred (length c) (C\<lparr>sc_fd := f2\<rparr>)"
  have "\<not> smart_terminal (sc_lp ?C)" using assms(5) by (simp add: RecordBytesTransferred_def)
  from ReportProgress_dumb [OF this] obtain lp1 where
    lp1: "ReportProgress sh (k + ucast (of_nat (length c) :: u32)) e ?C = Inr (?C\<lparr>sc_lp := lp1\<rparr>)" by blast
  have "client_recv_loop env rp lp sh e k g C = client_recv_loop env rp lp sh e (k + ucast (of_nat (length c) :: u32)) g1 (?C\<lparr>sc_lp := lp1\<rparr>)"
    using f1(1) f2(1) g1(1) lp1 u assms(2) by (subst client_recv_loop.simps) (simp add: sc_read_def Let_def)
  moreover have "stream (rscript (sc_fd (?C\<lparr>sc_lp := lp1\<rparr>))) = rest" "sc_ltrace (?C\<lparr>sc_lp := lp1\<rparr>) = sc_ltrace C" "written (sc_fd (?C\<lparr>sc_lp := lp1\<rparr>)) = written (sc_fd C)"
    using f1(2) f2(2) by (simp_all add: RecordBytesTransferred_def reads_off_def)
  ultimately show ?thesis using g1(2) by blast
qed

lemma client_recv_loop_end:
  assumes "stream (rscript (sc_fd C)) = data_bytes ID_DONE n @ rest"
  shows "\<exists>C'. client_recv_loop env rp lp sh e k g C = Inr (True, C') \<and> written (sc_fd C') = written (sc_fd C)"
proof -
  obtain f1 where "ReadFdExactly (sc_fd C) 8 [] = (True, ENONE, data_bytes ID_DONE n, f1)" "reads_off rest (sc_fd C) f1"
    using ReadFdExactly_stream [OF assms] by auto
  then show ?thesis by (subst client_recv_loop.simps) (simp add: sc_read_def local_call_def RecordFilesTransferred_def reads_off_def)
qed

lemma demo_pull_client:
  "\<exists>C'. sync_recv demo_local_env ''/d/a'' ''a'' None 3 (demo_conn [RData demo_pull_reply]) = Inr (True, C') \<and> written (sc_fd C') = demo_pull"
proof -
  let ?C = "demo_conn [RData demo_pull_reply]"
  from WriteFdExactly_willing [OF demo_conn_willing, of demo_pull "[RData demo_pull_reply]"] obtain f where
    w: "WriteFdExactly (sc_fd ?C) demo_pull = Inr (True, ENONE, f)" "written f = demo_pull" "rscript f = [RData demo_pull_reply]" by (auto simp: demo_conn_def)
  let ?g = "\<lparr>rscript = [], wscript = replicate 9 (WAccept 2), written = []\<rparr>"
  have g: "willing ?g (length ''old'')"
  proof -
    have "replicate 9 (WAccept 2) = map WAccept (replicate 9 2) @ []" by simp
    then show ?thesis unfolding willing_def by (intro exI [of _ "replicate 9 2"] exI [of _ "[]"]) simp
  qed
  let ?C2 = "?C\<lparr>sc_fd := f, sc_ltrace := [L_unlink ''a'', L_creat ''a'']\<rparr>"
  have run: "sync_recv demo_local_env ''/d/a'' ''a'' None 3 ?C = client_recv_loop demo_local_env ''/d/a'' ''a'' ''/d/a'' 3 0 ?g ?C2"
    using w(1) by (simp add: sync_recv_def SendRequest_def sc_write_def local_call_def Let_def) (simp add: demo_local_env_def demo_conn_def local_call_def)
  from client_recv_loop_one [of ?C2 "''old''" "data_bytes ID_DONE 0" ?g demo_local_env "''/d/a''" "''a''" "''/d/a''" 3 0] g obtain g1 C1 k1 where
    "client_recv_loop demo_local_env ''/d/a'' ''a'' ''/d/a'' 3 0 ?g ?C2 = client_recv_loop demo_local_env ''/d/a'' ''a'' ''/d/a'' 3 k1 g1 C1"
    and C1: "stream (rscript (sc_fd C1)) = data_bytes ID_DONE 0 @ []" "written (sc_fd C1) = demo_pull"
    using w by (auto simp: stream_single demo_conn_def SYNC_DATA_MAX_def new_line_printer_def)
  then show ?thesis using run client_recv_loop_end [OF C1(1)] C1(2) by metis
qed

theorem pull_end_to_end_witness:
  "\<exists>C'. sync_recv demo_local_env ''/d/a'' ''a'' None 3 (demo_conn [RData demo_pull_reply]) = Inr (True, C') \<and>
     sc_ltrace C' = [L_unlink ''a'', L_creat ''a'', L_close ''a'' ''old'']"
proof -
  obtain C' where c: "sync_recv demo_local_env ''/d/a'' ''a'' None 3 (demo_conn [RData demo_pull_reply]) = Inr (True, C')"
    and w: "written (sc_fd C') = demo_pull" using demo_pull_client by blast
  obtain s' where d: "handle_sync_command demo_sync_env demo_pull_state = Inr (True, s')" and r: "written (sy_sock s') = demo_pull_reply"
    using demo_pull_device by blast
  have "file_content demo_sync_env (sy_trace demo_pull_state) ''/d/a'' = ''old''" by (simp add: file_content_def demo_sync_env_def)
  then show ?thesis using pull_end_to_end [OF c _ _ _ _ d] c w r by (simp add: demo_conn_def demo_sync_state_def stream_single)
qed

end
