(* ===== verification/Sync_List.thy ===== *)
theory Sync_List
  imports Sync_Pull
begin

text \<open>
  Listing a directory: the entries the client passes on are the entries the device read.
\<close>

section \<open>Entries on the wire\<close>

definition entry_bytes :: "dent \<times> string \<Rightarrow> string" where
  "entry_bytes e = (case e of (d, name) \<Rightarrow> dent_bytes d @ name)"

lemma entry_bytes_Pair [simp]: "entry_bytes (d, n) = dent_bytes d @ n"
  by (simp add: entry_bytes_def)

definition valid_entry :: "dent \<times> string \<Rightarrow> bool" where
  "valid_entry e \<longleftrightarrow> (case e of (d, name) \<Rightarrow> d_id d = ID_DENT \<and> unat (d_namelen d) = length name)"

interpretation entry_code: prefix_code entry_bytes valid_entry
proof
  fix m m' :: "dent \<times> string" and x x' :: string
  assume v: "valid_entry m" "valid_entry m'" and e: "entry_bytes m @ x = entry_bytes m' @ x'"
  obtain d n d' n' where m: "m = (d, n)" "m' = (d', n')" by force
  from e have h: "dent_bytes d = dent_bytes d'" and t: "n @ x = n' @ x'"
    by (simp_all add: m entry_bytes_def append_eq_append_conv)
  from h have "dent_of_bytes (dent_bytes d) = dent_of_bytes (dent_bytes d')" by simp
  then have "d = d'" by simp
  then show "m = m' \<and> x = x'" using v t by (simp add: m valid_entry_def)
qed

lemma dent_bytes_of_bytes: "length b = 20 \<Longrightarrow> dent_bytes (dent_of_bytes b) = b"
proof -
  assume b: "length b = 20"
  have s: "take 4 (drop i b) @ drop (i + 4) b = drop i b" for i by (metis append_take_drop_id drop_drop add.commute)
  have "take 4 b @ take 4 (drop 4 b) @ take 4 (drop 8 b) @ take 4 (drop 12 b) @ take 4 (drop 16 b) = b"
    using s [of 0] s [of 4] s [of 8] s [of 12] b by simp
  then show ?thesis using le32_word_at [of 0 b] le32_word_at [of 4 b] le32_word_at [of 8 b] le32_word_at [of 12 b] le32_word_at [of 16 b] b
    by (simp add: dent_bytes_def dent_of_bytes_def)
qed

text \<open>Bytes in which the reader of a listing finds no end of it.\<close>

definition no_end :: "string \<Rightarrow> bool" where
  "no_end b \<longleftrightarrow> \<not> (20 \<le> length b \<and> d_id (dent_of_bytes (take 20 b)) = ID_DONE)"

abbreviation no_entry :: "string \<Rightarrow> bool" where
  "no_entry \<equiv> no_message entry_bytes valid_entry"

lemma short_entry: "length b < 20 \<Longrightarrow> no_entry b \<and> no_end b"
  by (auto simp: no_message_def no_end_def entry_bytes_def)

lemma other_entry: "d_id d \<noteq> ID_DENT \<Longrightarrow> no_entry (dent_bytes d @ x)"
proof (unfold no_message_def, intro notI, elim exE conjE)
  fix m y assume d: "d_id d \<noteq> ID_DENT" and v: "valid_entry m" and e: "dent_bytes d @ x = entry_bytes m @ y"
  obtain d' n where m: "m = (d', n)" by force
  from e have "dent_bytes d = dent_bytes d'" by (simp add: m entry_bytes_def append_eq_append_conv)
  then have "dent_of_bytes (dent_bytes d) = dent_of_bytes (dent_bytes d')" by simp
  then show False using v d by (simp add: m valid_entry_def)
qed

lemma cut_entry:
  assumes "valid_entry (d, n)" and "r < length n"
  shows "no_entry (dent_bytes d @ take r n) \<and> no_end (dent_bytes d @ take r n)"
proof
  show "no_end (dent_bytes d @ take r n)" using assms(1) by (simp add: no_end_def valid_entry_def)
  show "no_entry (dent_bytes d @ take r n)" unfolding no_message_def
  proof (intro notI, elim exE conjE)
    fix m y assume v: "valid_entry m" and e: "dent_bytes d @ take r n = entry_bytes m @ y"
    obtain d' n' where m: "m = (d', n')" by force
    from e have h: "dent_bytes d = dent_bytes d'" and t: "take r n = n' @ y" by (simp_all add: m entry_bytes_def append_eq_append_conv)
    from h have "dent_of_bytes (dent_bytes d) = dent_of_bytes (dent_bytes d')" by simp
    then have "length n = length n'" using v assms(1) by (simp add: m valid_entry_def)
    then show False using arg_cong [OF t, of length] assms(2) by simp
  qed
qed

section \<open>The device\<close>

text \<open>The entries of a directory: those lstat knows of.\<close>

definition listing :: "sync_env \<Rightarrow> systrace \<Rightarrow> string \<Rightarrow> string list \<Rightarrow> (dent \<times> string) list" where
  "listing env tr path ns =
    concat (map (\<lambda>n. case sv_stat env tr False (path @ ''/'' @ n) of Inl _ \<Rightarrow> [] | Inr st \<Rightarrow> [(dent_of st n, n)]) ns)"

definition short_names :: "string list \<Rightarrow> bool" where
  "short_names ns \<longleftrightarrow> (\<forall>n \<in> set ns. length n < 2 ^ 32 \<and> CHR 0x00 \<notin> set n)"

lemma dent_of_valid: "length n < 2 ^ 32 \<Longrightarrow> valid_entry (dent_of st n, n)"
  by (simp add: valid_entry_def dent_of_def unat_length)

lemma listing_valid: "short_names ns \<Longrightarrow> \<forall>e \<in> set (listing env tr path ns). valid_entry e"
  by (auto simp: listing_def short_names_def dent_of_valid split: sum.splits)

text \<open>What the service sends: whole entries and the end, or a list without end.\<close>

definition list_reply :: "bool \<Rightarrow> (dent \<times> string) list \<Rightarrow> string \<Rightarrow> bool" where
  "list_reply ok es m \<longleftrightarrow> (\<exists>fs b. m = concat (map entry_bytes fs) @ b \<and> (\<forall>e \<in> set fs. valid_entry e) \<and> no_entry b \<and>
     (if ok then b = dent_bytes done_dent \<and> fs = es else no_end b))"

lemma list_loop_result:
  "list_loop env path ns s = Inr (ok, s') \<Longrightarrow> short_names ns \<Longrightarrow>
   \<exists>fs b. says (concat (map entry_bytes fs) @ b) s s' \<and> (\<forall>e \<in> set fs. valid_entry e) \<and>
     (if ok then b = [] \<and> fs = listing env (sy_trace s) path ns else no_entry b \<and> no_end b)"
proof (induction ns arbitrary: s)
  case Nil
  then show ?case by (intro exI [of _ "[]"]) (simp add: says_def listing_def)
next
  case (Cons n ns)
  have names: "short_names ns" "length n < 2 ^ 32" using Cons.prems(2) by (simp_all add: short_names_def)
  show ?case
  proof (cases "sv_stat env (sy_trace s) False (path @ ''/'' @ n)")
    case (Inl e)
    then have "list_loop env path ns (s\<lparr>sy_err := e\<rparr>) = Inr (ok, s')" using Cons.prems(1) by simp
    moreover have "listing env (sy_trace s) path (n # ns) = listing env (sy_trace (s\<lparr>sy_err := e\<rparr>)) path ns" using Inl by (simp add: listing_def)
    moreover have "says m (s\<lparr>sy_err := e\<rparr>) s' = says m s s'" for m by (simp add: says_def)
    ultimately show ?thesis using Cons.IH [of "s\<lparr>sy_err := e\<rparr>"] names(1) by (simp only:)
  next
    case (Inr st)
    let ?d = "dent_of st n"
    note v = dent_of_valid [OF names(2), of st]
    from Cons.prems(1) Inr obtain ok1 s1 where w1: "write_sock (dent_bytes ?d) s = Inr (ok1, s1)" and
      rest: "(if \<not> ok1 then Inr (False, s1) else bindR (write_sock n s1) (\<lambda>(ok2, s2). if \<not> ok2 then Inr (False, s2) else list_loop env path ns s2)) =
        Inr (ok, s')" by auto
    from write_sock_sends [OF w1] obtain r1 where r1: "r1 \<le> 20" "sends (take r1 (dent_bytes ?d)) s s1" "ok1 \<longleftrightarrow> r1 = 20" by auto
    show ?thesis
    proof (cases ok1)
      case False
      then have s': "s' = s1" "ok = False" using rest by auto
      show ?thesis unfolding s' using r1 False short_entry [of "take r1 (dent_bytes ?d)"]
        by (intro exI [of _ "[]"] exI [of _ "take r1 (dent_bytes ?d)"]) (simp add: sends_def says_def)
    next
      case True
      with rest obtain ok2 s2 where w2: "write_sock n s1 = Inr (ok2, s2)" and
        rest2: "(if \<not> ok2 then Inr (False, s2) else list_loop env path ns s2) = Inr (ok, s')" by auto
      from write_sock_sends [OF w2] obtain r2 where r2: "r2 \<le> length n" "sends (take r2 n) s1 s2" "ok2 \<longleftrightarrow> r2 = length n" by auto
      have sent: "says (dent_bytes ?d @ take r2 n) s s2" using r1 r2 True by (simp add: sends_def says_def)
      show ?thesis
      proof (cases ok2)
        case False
        then have s': "s' = s2" "ok = False" using rest2 by auto
        show ?thesis unfolding s' using sent cut_entry [OF v, of r2] r2 False
          by (intro exI [of _ "[]"] exI [of _ "dent_bytes ?d @ take r2 n"]) simp
      next
        case ok2: True
        then have "list_loop env path ns s2 = Inr (ok, s')" using rest2 by simp
        from Cons.IH [OF this names(1)] obtain fs b where fs: "says (concat (map entry_bytes fs) @ b) s2 s'" "\<forall>e \<in> set fs. valid_entry e"
          "if ok then b = [] \<and> fs = listing env (sy_trace s2) path ns else no_entry b \<and> no_end b" by blast
        have t: "sy_trace s2 = sy_trace s" using sent by (simp add: says_def)
        show ?thesis using fs sent v r2(3) ok2 Inr t
          by (intro exI [of _ "(?d, n) # fs"] exI [of _ b]) (simp add: says_def listing_def)
      qed
    qed
  qed
qed

text \<open>A directory that cannot be opened is listed as empty.\<close>

definition dir_entries :: "sync_env \<Rightarrow> systrace \<Rightarrow> string \<Rightarrow> (dent \<times> string) list" where
  "dir_entries env tr path = (case sv_dir env tr path of None \<Rightarrow> [] | Some ns \<Rightarrow> listing env tr path ns)"

definition dir_names_ok :: "sync_env \<Rightarrow> systrace \<Rightarrow> string \<Rightarrow> bool" where
  "dir_names_ok env tr path \<longleftrightarrow> (case sv_dir env tr path of None \<Rightarrow> True | Some ns \<Rightarrow> short_names ns)"

lemma write_end:
  assumes "write_sock (dent_bytes done_dent) s = Inr (ok, s')"
  shows "\<exists>b. says b s s' \<and> no_entry b \<and> (if ok then b = dent_bytes done_dent else no_end b)"
proof -
  from write_sock_sends [OF assms] obtain r where r: "r \<le> 20" "sends (take r (dent_bytes done_dent)) s s'" "ok \<longleftrightarrow> r = 20" by auto
  have "no_entry (dent_bytes done_dent @ [])" by (rule other_entry) (simp add: done_dent_def)
  then show ?thesis using r short_entry [of "take r (dent_bytes done_dent)"]
    by (intro exI [of _ "take r (dent_bytes done_dent)"]) (auto simp: sends_def says_def)
qed

lemma do_list_result:
  assumes "do_list env path s = Inr (ok, s')" and "dir_names_ok env (sy_trace s) path"
  shows "\<exists>m. says m s s' \<and> list_reply ok (dir_entries env (sy_trace s) path) m"
proof (cases "sv_dir env (sy_trace s) path")
  case None
  then have "write_sock (dent_bytes done_dent) s = Inr (ok, s')" using assms(1) by (simp add: do_list_def)
  from write_end [OF this] obtain b where "says b s s'" "no_entry b" "if ok then b = dent_bytes done_dent else no_end b" by blast
  then show ?thesis using None unfolding list_reply_def dir_entries_def by (intro exI [of _ b] conjI exI [of _ "[]"]) auto
next
  case (Some ns)
  then obtain ok1 s1 where l: "list_loop env path ns s = Inr (ok1, s1)"
    and rest: "(if ok1 then write_sock (dent_bytes done_dent) s1 else Inr (False, s1)) = Inr (ok, s')" using assms(1) by (auto simp: do_list_def)
  have names: "short_names ns" using assms(2) Some by (simp add: dir_names_ok_def)
  from list_loop_result [OF l names] obtain fs b where fs: "says (concat (map entry_bytes fs) @ b) s s1" "\<forall>e \<in> set fs. valid_entry e"
    "if ok1 then b = [] \<and> fs = listing env (sy_trace s) path ns else no_entry b \<and> no_end b" by blast
  show ?thesis
  proof (cases ok1)
    case False
    then have "s' = s1" "\<not> ok" using rest by auto
    then show ?thesis using fs False unfolding list_reply_def by (intro exI [of _ "concat (map entry_bytes fs) @ b"] conjI exI [of _ fs] exI [of _ b]) auto
  next
    case True
    then have "write_sock (dent_bytes done_dent) s1 = Inr (ok, s')" using rest by simp
    from write_end [OF this] obtain c where c: "says c s1 s'" "no_entry c" "if ok then c = dent_bytes done_dent else no_end c" by blast
    then have "says (concat (map entry_bytes fs) @ c) s s'" using fs(1,3) True by (simp add: says_def)
    then show ?thesis using fs c True Some unfolding list_reply_def dir_entries_def
      by (intro exI [of _ "concat (map entry_bytes fs) @ c"] conjI exI [of _ fs] exI [of _ c]) auto
  qed
qed

section \<open>The client\<close>

text \<open>What the callback gets of an entry.\<close>

definition shown :: "dent \<times> string \<Rightarrow> u32 \<times> u32 \<times> u32 \<times> string" where
  "shown e = (case e of (d, name) \<Rightarrow> (d_mode d, d_size d, d_time d, c_str name))"

lemma ls_loop_result:
  "ls_loop env C = (True, es, C') \<Longrightarrow>
   \<exists>fs d rest. stream (rscript (sc_fd C)) = concat (map entry_bytes fs) @ dent_bytes d @ rest \<and> d_id d = ID_DONE \<and>
     (\<forall>e \<in> set fs. valid_entry e) \<and> es = map shown fs \<and> written (sc_fd C') = written (sc_fd C)"
proof (induction env C arbitrary: es rule: ls_loop.induct)
  case (1 env C)
  obtain ok hdr C1 where h: "sc_read env 20 C = (ok, hdr, C1)" by (cases "sc_read env 20 C") auto
  have ok: ok using "1.prems" h by (cases ok) (auto simp: ls_loop.simps [of env C])
  note s1 = sc_read_stream [OF h [unfolded eqTrueI [OF ok]]]
  define d where "d = dent_of_bytes hdr"
  have hdr: "hdr = dent_bytes d" using dent_bytes_of_bytes [of hdr] s1 by (simp add: d_def)
  note step = "1.prems" [unfolded ls_loop.simps [of env C] h eqTrueI [OF ok] prod.case bool.case Let_def, folded d_def]
  show ?case
  proof (cases "d_id d = ID_DONE")
    case True
    then show ?thesis using step s1 hdr by (intro exI [of _ "[]"] exI [of _ d] exI [of _ "stream (rscript (sc_fd C1))"]) auto
  next
    case False
    have i: "d_id d = ID_DENT" "\<not> 256 < unat (d_namelen d)" using step False by (auto split: if_splits)
    obtain ok2 bs C2 where b: "sc_read env (unat (d_namelen d)) C1 = (ok2, bs, C2)" by (cases "sc_read env (unat (d_namelen d)) C1") auto
    have ok2: ok2 using step i b by (cases ok2) auto
    note s2 = sc_read_stream [OF b [unfolded eqTrueI [OF ok2]]]
    obtain ok3 fs3 C3 where l: "ls_loop env C2 = (ok3, fs3, C3)" by (cases "ls_loop env C2") auto
    have l3: "ok3" "es = (d_mode d, d_size d, d_time d, c_str bs) # fs3" "C' = C3" using step i b ok2 l by auto
    have "\<exists>fs d rest. stream (rscript (sc_fd C2)) = concat (map entry_bytes fs) @ dent_bytes d @ rest \<and> d_id d = ID_DONE \<and>
     (\<forall>e \<in> set fs. valid_entry e) \<and> fs3 = map shown fs \<and> written (sc_fd C') = written (sc_fd C2)"
      using "1.IH" h ok False i b ok2 l l3 by (simp add: d_def)
    then obtain fs d' rest where fs: "stream (rscript (sc_fd C2)) = concat (map entry_bytes fs) @ dent_bytes d' @ rest" "d_id d' = ID_DONE"
      "\<forall>e \<in> set fs. valid_entry e" "fs3 = map shown fs" "written (sc_fd C') = written (sc_fd C2)" by blast
    have v: "valid_entry (d, bs)" using i s2 by (simp add: valid_entry_def)
    show ?thesis using fs l3(2) s1 s2 hdr v
      by (intro exI [of _ "(d, bs) # fs"] exI [of _ d'] exI [of _ rest]) (simp add: shown_def)
  qed
qed

section \<open>The theorem\<close>

text \<open>
  C11: what adb lists is the directory of the device. When sync\_ls succeeds, when the device reads
  what the client wrote and the client reads what the device answered, the entries that reach the
  callback are the entries of the directory that can be examined, in the order of the directory, with
  their names, modes and the low 32 bits of their sizes and times; a directory that cannot be opened
  is listed as empty. A list of which a part was lost never succeeds.
\<close>

theorem list_end_to_end:
  assumes "sync_ls lenv path C = Inr (True, es, C')" and "CHR 0x00 \<notin> set path"
    and "written (sc_fd C') = written (sc_fd C) @ stream (rscript (sy_sock s))"
    and "dir_names_ok env (sy_trace s) path" and "handle_sync_command env s = Inr (ok, s')"
    and "written (sy_sock s') = written (sy_sock s) @ stream (rscript (sc_fd C))"
  shows "ok \<and> es = map (\<lambda>(d, n). (d_mode d, d_size d, d_time d, n)) (dir_entries env (sy_trace s) path)"
proof -
  from assms(1) obtain b C1 where r: "SendRequest lenv ID_LIST path C = Inr (b, C1)"
    and l0: "(if b then ls_loop lenv C1 else (False, [], C1)) = (True, es, C')" by (auto simp: sync_ls_def)
  have b: b using l0 by (cases b) auto
  note p = SendRequest_puts [OF r [unfolded eqTrueI [OF b]]]
  from ls_loop_result [of lenv C1 es C'] l0 b obtain fs d rest where
    fs: "stream (rscript (sc_fd C1)) = concat (map entry_bytes fs) @ dent_bytes d @ rest" "d_id d = ID_DONE" "\<forall>e \<in> set fs. valid_entry e"
    "es = map shown fs" "written (sc_fd C') = written (sc_fd C1)" by auto
  have req: "stream (rscript (sy_sock s)) = data_bytes ID_LIST (of_nat (length path)) @ path @ []"
    using p fs(5) assms(3) by (simp add: puts_def)
  from handle_sync_command_request [OF req, of env] p obtain f where f: "reads_off [] (sy_sock s) f"
    and run: "do_list env path (s\<lparr>sy_sock := f\<rparr>) = Inr (ok, s')" using c_str_id [OF assms(2)] assms(5) by (auto simp: Let_def)
  let ?E = "dir_entries env (sy_trace s) path"
  from do_list_result [OF run] assms(4) obtain m where m: "says m (s\<lparr>sy_sock := f\<rparr>) s'" "list_reply ok ?E m" by auto
  have m': "m = concat (map entry_bytes fs) @ dent_bytes d @ rest"
    using m(1) assms(6) f fs(1) p by (simp add: says_def reads_off_def puts_def)
  from m(2) obtain gs c where gs: "m = concat (map entry_bytes gs) @ c" "\<forall>e \<in> set gs. valid_entry e" "no_entry c"
    "if ok then c = dent_bytes done_dent \<and> gs = ?E else no_end c" unfolding list_reply_def by blast
  have "no_entry (dent_bytes d @ rest)" using fs(2) by (intro other_entry) simp
  with entry_code.unique [of fs "dent_bytes d @ rest" gs c] m' gs fs(3) have eq: "fs = gs" "c = dent_bytes d @ rest" by auto
  then have "\<not> no_end c" using fs(2) by (simp add: no_end_def)
  then have ok: ok "gs = ?E" using gs(4) by (auto split: if_splits)
  have "\<forall>(d, n) \<in> set ?E. CHR 0x00 \<notin> set n"
    using assms(4) by (auto simp: dir_entries_def dir_names_ok_def listing_def short_names_def split: option.splits sum.splits)
  then have "map shown ?E = map (\<lambda>(d, n). (d_mode d, d_size d, d_time d, n)) ?E" by (auto simp: shown_def c_str_id)
  then show ?thesis using ok eq fs(4) by simp
qed

definition demo_list_env :: sync_env where
  "demo_list_env = demo_sync_env\<lparr>sv_dir := \<lambda>_ _. Some [''x''], sv_stat := \<lambda>_ _ _. Inr (zero_stat\<lparr>st_mode := 0x81A4, st_size := 7\<rparr>)\<rparr>"

abbreviation demo_dent :: dent where
  "demo_dent \<equiv> \<lparr>d_id = ID_DENT, d_mode = 0x81A4, d_size = 7, d_time = 0, d_namelen = 1\<rparr>"

abbreviation demo_list :: string where "demo_list \<equiv> data_bytes ID_LIST 2 @ ''/d''"

abbreviation demo_list_reply :: string where "demo_list_reply \<equiv> dent_bytes demo_dent @ ''x'' @ dent_bytes done_dent"

lemma demo_dir_entries: "dir_entries demo_list_env tr path = [(demo_dent, ''x'')]"
  by (simp add: dir_entries_def demo_list_env_def demo_sync_env_def listing_def dent_of_def zero_stat_def)

lemma demo_list_device:
  "\<exists>s'. handle_sync_command demo_list_env (demo_sync_state [RData demo_list]) = Inr (True, s') \<and> written (sy_sock s') = demo_list_reply"
proof -
  let ?s = "demo_sync_state [RData demo_list]"
  have str: "stream (rscript (sy_sock ?s)) = data_bytes ID_LIST (of_nat (length ''/d'')) @ ''/d'' @ []"
    by (simp add: demo_sync_state_def stream_single)
  from handle_sync_command_request [OF str, of demo_list_env] obtain f where f: "reads_off [] (sy_sock ?s) f"
    and run: "handle_sync_command demo_list_env ?s = do_list demo_list_env ''/d'' (?s\<lparr>sy_sock := f\<rparr>)" by (auto simp: Let_def c_str_def)
  have w: "willing f 99" using f demo_conn_willing [of "[]"] by (simp add: reads_off_def willing_def demo_sync_state_def demo_conn_def)
  from write_sock_willing [of "?s\<lparr>sy_sock := f\<rparr>" 99 "dent_bytes demo_dent"] w obtain f1 where
    f1: "write_sock (dent_bytes demo_dent) (?s\<lparr>sy_sock := f\<rparr>) = Inr (True, ?s\<lparr>sy_sock := f1\<rparr>)" "willing f1 79" "written f1 = written f @ dent_bytes demo_dent" by auto
  from write_sock_willing [of "?s\<lparr>sy_sock := f1\<rparr>" 79 "''x''"] f1(2) obtain f2 where
    f2: "write_sock ''x'' (?s\<lparr>sy_sock := f1\<rparr>) = Inr (True, ?s\<lparr>sy_sock := f2\<rparr>)" "willing f2 78" "written f2 = written f1 @ ''x''" by auto
  from write_sock_willing [of "?s\<lparr>sy_sock := f2\<rparr>" 78 "dent_bytes done_dent"] f2(2) obtain f3 where
    f3: "write_sock (dent_bytes done_dent) (?s\<lparr>sy_sock := f2\<rparr>) = Inr (True, ?s\<lparr>sy_sock := f3\<rparr>)" "written f3 = written f2 @ dent_bytes done_dent" by auto
  have "do_list demo_list_env ''/d'' (?s\<lparr>sy_sock := f\<rparr>) = Inr (True, ?s\<lparr>sy_sock := f3\<rparr>)"
    using f1(1) f2(1) f3(1) by (simp add: do_list_def) (simp add: demo_list_env_def dent_of_def zero_stat_def)
  then show ?thesis using run f f1(3) f2(3) f3(2) by (simp add: reads_off_def demo_sync_state_def)
qed

lemma demo_list_client:
  "\<exists>es C'. sync_ls demo_local_env ''/d'' (demo_conn [RData demo_list_reply]) = Inr (True, es, C') \<and> written (sc_fd C') = demo_list"
proof -
  let ?C = "demo_conn [RData demo_list_reply]"
  from WriteFdExactly_willing [OF demo_conn_willing, of demo_list "[RData demo_list_reply]"] obtain f where
    w: "WriteFdExactly (sc_fd ?C) demo_list = Inr (True, ENONE, f)" "written f = demo_list" "rscript f = [RData demo_list_reply]" by (auto simp: demo_conn_def)
  obtain f1 where f1: "ReadFdExactly f 20 [] = (True, ENONE, dent_bytes demo_dent, f1)" "reads_off (''x'' @ dent_bytes done_dent) f f1"
    using ReadFdExactly_stream [of f "dent_bytes demo_dent" "''x'' @ dent_bytes done_dent"] w(3) by (auto simp: stream_single)
  obtain f2 where f2: "ReadFdExactly f1 1 [] = (True, ENONE, ''x'', f2)" "reads_off (dent_bytes done_dent) f1 f2"
    using ReadFdExactly_stream [of f1 "''x''" "dent_bytes done_dent"] f1(2) by (auto simp: reads_off_def)
  obtain f3 where f3: "ReadFdExactly f2 20 [] = (True, ENONE, dent_bytes done_dent, f3)" "reads_off [] f2 f3"
    using ReadFdExactly_stream [of f2 "dent_bytes done_dent" "[]"] f2(2) by (auto simp: reads_off_def)
  let ?env = demo_local_env
  have "ls_loop ?env (?C\<lparr>sc_fd := f2\<rparr>) = (True, [], ?C\<lparr>sc_fd := f3\<rparr>)"
    using f3(1) by (subst ls_loop.simps) (simp add: sc_read_def Let_def done_dent_def)
  then have "ls_loop ?env (?C\<lparr>sc_fd := f\<rparr>) = (True, [(0x81A4, 7, 0, ''x'')], ?C\<lparr>sc_fd := f3\<rparr>)"
    using f1(1) f2(1) by (subst ls_loop.simps) (simp add: sc_read_def Let_def c_str_def)
  moreover have "SendRequest ?env ID_LIST ''/d'' ?C = Inr (True, ?C\<lparr>sc_fd := f\<rparr>)"
    using w(1) by (simp add: SendRequest_def sc_write_def)
  ultimately show ?thesis using f1(2) f2(2) f3(2) w(2) by (simp add: sync_ls_def reads_off_def)
qed

theorem list_end_to_end_witness:
  "\<exists>C'. sync_ls demo_local_env ''/d'' (demo_conn [RData demo_list_reply]) = Inr (True, [(0x81A4, 7, 0, ''x'')], C')"
proof -
  obtain es C' where c: "sync_ls demo_local_env ''/d'' (demo_conn [RData demo_list_reply]) = Inr (True, es, C')"
    and w: "written (sc_fd C') = demo_list" using demo_list_client by blast
  obtain s' where d: "handle_sync_command demo_list_env (demo_sync_state [RData demo_list]) = Inr (True, s')"
    and r: "written (sy_sock s') = demo_list_reply" using demo_list_device by blast
  have "dir_names_ok demo_list_env [] ''/d''" by (simp add: dir_names_ok_def demo_list_env_def short_names_def)
  then show ?thesis using list_end_to_end [OF c _ _ _ d] c w r by (simp add: demo_conn_def demo_sync_state_def stream_single demo_dir_entries)
qed

end
