(* ===== verification/Spec2Isabelle.thy ===== *)
theory Spec2Isabelle
  imports Core_Offline Core_Isolation Host_Safe Client_Props Subprocess_Props Jdwp_Props Bugreport_Props Run_Queue Install_Props Dispatch_Props Adb_Utils Sync_List
begin

text \<open>
  A verification library of adb, the Android debug bridge.

  \<^bold>\<open>The program.\<close> The adb client (commandline.cpp, adb\_client.cpp) asks the adb server on the same
  machine for a service; the server (adb.cpp, sockets.cpp, services.cpp) answers requests for the
  host itself and passes the others over a transport, tcp or usb, to the daemon adbd on a device,
  which runs the same packet handler and the device's services. Server and daemon are one event
  loop (fdevent.cpp) with threads that read and write the transports. A connection is a pair of
  sockets (sockets.cpp): a local socket owns a descriptor, a remote socket stands for the other side
  of a transport, a smart socket reads the request of a client. The transports live in a registry
  with reference counts (transport.cpp, transport\_local.cpp); listeners (adb\_listeners.cpp) accept
  connections for forwards.

  \<^bold>\<open>Conventions.\<close> A computation that may fault gives \<open>fault + value\<close> (\<open>res\<close>, with \<open>bindR\<close>): \<open>InvalidAccess\<close>
  to a freed object, \<open>NullDeref\<close>, \<open>OutOfBounds\<close>, \<open>Fatal\<close> for a failed CHECK or an exception, \<open>Exit\<close>, or \<open>Spin\<close>
  for a loop that never ends. Objects are addressed by
  numbers in a heap (a map), so that a dangling pointer is the address of nothing. Descriptors are
  numbers; what the kernel answers to reads and writes on one of them is a script in \<open>fd_state\<close>, so a
  theorem holds for every segmentation and every error. Time, logging and the thread checks are left
  out. Functions of libraries outside the repository (libbase, crypto, sockets of the system) are
  parameters; \<open>libbase_spec\<close> is a locale with the documented laws of the string functions of libbase,
  interpreted by a reference implementation.

  \<^bold>\<open>Theories.\<close>
  \<^item> Adb\_Prelude: \<open>res\<close>, faults, lemmas on lists; Adb\_Bytes: bytes, hexadecimal and decimal
    numbers, libbase; C\_Numbers: strtol, atoi, sscanf.
  \<^item> Adb\_IO (adb\_io.cpp): exact reads and writes, protocol strings, OKAY and FAIL replies.
  \<^item> Adb\_Utils (adb\_utils.cpp): escape\_arg, paths, mkdirs.
  \<^item> Socket\_Spec (socket\_spec.cpp): tcp: and local: specifications, connect and listen.
  \<^item> Shell\_Protocol (shell\_service\_protocol.cpp): packets of the shell protocol.
  \<^item> Fdevent (fdevent.cpp): fdevents, the poll map, the pending list; a step relation of the event
    loop with all its operations, its invariant, and what polling delivers. Run\_Queue (fdevent.cpp): functions for the main thread, in every interleaving.
  \<^item> Atransport (transport.h, transport.cpp): the transport object, banners, features, targets.
  \<^item> Packets (transport.cpp, transport\_usb.cpp, transport\_local.cpp): the packet on the wire, its
    checks, and the read and write threads of tcp and usb with the hand-over to the main thread.
  \<^item> Transport\_Registry, Registry\_Life (transport.cpp): the registry, its life cycle as a step
    relation, the invariant of reference counts and lists, acquire\_one\_transport.
  \<^item> Transport\_Local (transport\_local.cpp): connecting, emulator ports and their retries.
  \<^item> Sockets, Sockets\_Wf, Sockets\_Props (sockets.cpp): the heap of sockets with the functions stored
    in each, its well-formedness, and safety, order and termination of the operations.
  \<^item> Listeners, Listeners\_Inv (adb\_listeners.cpp): listeners, their transports and callbacks.
  \<^item> Adb\_Auth, Core\_Auth (adbd\_auth.cpp, adb\_auth\_host.cpp, adb.cpp): keys, tokens, confirmation.
  \<^item> Adb\_Core, Core\_Packets, Core\_Offline, Core\_Isolation (adb.cpp): handle\_packet and what it keeps.
  \<^item> Host\_Request, Host\_Safe (adb.cpp): the requests of clients to the server itself and that none
    breaks it.
  \<^item> Services, Services\_Props (services.cpp): service names of device and host, service threads.
  \<^item> Adb\_Client, Commandline, Client\_Props (adb\_client.cpp, commandline.cpp): the client's side of the
    requests, and that client and server agree.
  \<^item> Sync\_Protocol (file\_sync\_service.h, sysdeps/errno.cpp), Sync\_Service (file\_sync\_service.cpp),
    Line\_Printer (line\_printer.cpp), Sync\_Client, Sync\_Copy (file\_sync\_client.cpp): the sync protocol,
    the service behind adb push, pull, sync and ls, and its client. Sync\_Push, Sync\_Props, Sync\_Pull and
    Sync\_List prove that the two sides agree.
  \<^item> Subprocess (shell\_service.cpp), Shell\_Client (commandline.h, commandline.cpp): a command with its
    streams, and the client that prints what it sends. Subprocess\_Props proves that the output arrives.
  \<^item> Jdwp, Jdwp\_Props (jdwp\_service.cpp): debuggable processes, their descriptors and trackers, with a step
    relation and its invariant.
  \<^item> Bugreport, Bugreport\_Props (bugreport.cpp): adb bugreport as a callback of the shell client.
  \<^item> Sideload (commandline.cpp): adb sideload, its block protocol and the old one. Install, Install\_Props
    (commandline.cpp): shell commands, installation, backup and restore as conversations with the
    device, and the session of install-multiple. Console (console.cpp): adb emu.
  \<^item> Dispatch, Dispatch\_Props (commandline.cpp): adb\_commandline, from the words of the command line to
    the services, and that the server understands adb forward.

  The state grows by record extension along the calls: \<open>sstate\<close> (sockets, registry, descriptors),
  \<open>lstate\<close> (listeners), \<open>astate\<close> (authentication and packets), \<open>pstate\<close> (services). The one table of
  fdevents of the program is divided into a part for each group of objects (\<open>sfds\<close>, \<open>lfds\<close>, \<open>reg_fds\<close>).

  \<^bold>\<open>What is shown.\<close> Memory safety of the object graphs: closing a socket, the life of a transport, the
  listeners, stream packets of a peer with any identifiers, a transport going offline, the requests
  of clients to the server itself. The reference counts of the transports are the threads that run. The
  event loop hands every fdevent the events that poll reported for it. Authentication: nothing but a verified signature takes a transport of a protected
  device online. Validation: what the read functions accept is within bounds and checked. Round
  trips between the two sides of each protocol, for every segmentation: packets, protocol strings,
  shell packets, banners, shell service strings, replies, typed text, files that are pushed and
  pulled, directories that are listed, the output of commands and its exit code, lists of debuggable
  processes, blocks of a sideloaded package, the names of a forward. Sessions: install-multiple ends the
  session it creates once, with a commit only if every APK was acknowledged. Interleavings: functions posted to the main thread,
  announcements of debuggable processes and their trackers, descriptors of a shell command. Refinement: the system calls of a push, replayed on a store of
  files, are an assignment to the store; \<open>prefix_code\<close> is the locale of message encodings that are read
  in one way only, interpreted for DATA messages and for directory entries. Agreement with reference
  definitions: target matching, the choice of a transport. Termination: closing all sockets,
  retries of emulators. Errors: theorems that exhibit defects of the code, each named in its text.

  \<^bold>\<open>Fuel.\<close> Closing sockets calls across peers; \<open>close_socket\<close> has fuel 4 because a local, its remote
  peer and one notification are all that can nest, and the safety theorem shows that it never runs
  out. ReadFdExactly and the loops over scripts end with the script; a script that runs dry gives
  EAGAIN, on which a read fails and a write, which tries again for ever, is \<open>Spin\<close>. The recursion of push
  and pull over directories has the depth of the tree as fuel.

  \<^bold>\<open>Not modelled.\<close> Races on a transport between the service threads and the main thread (a turn of
  wait\_for\_state sees one registry), and jdwp sockets as members of the list of local sockets (Jdwp has
  a state of its own). The system layer and the usb backends (wrappers of system calls), process start-up,
  mdns and tracing; the device services that are one call of the system each (remount, reboot,
  framebuffer, verity); of the command line the help text, the raw mode of the terminal, ppp, and of
  RemoteShell the thread that reads the terminal beside the output (its loop is in Commandline).
\<close>

end
